(* ===== verification/Kalua_Prelude.thy ===== *)
theory Kalua_Prelude
  imports Main "HOL-Library.AList"
begin

text \<open>
  Shared vocabulary of the development: the fact collections, byte-string operations of Go's
  \<^verbatim>\<open>strings\<close> package that several components call, 64-bit integer arithmetic, and the two
  interfaces that recur in the program: a keyed registry (a mutex-guarded Go map) and a bounded
  non-blocking queue (a buffered channel written with \<^verbatim>\<open>select { case ch <- x: default: }\<close>).
  Go strings are byte sequences; they are HOL strings, whose characters are bytes.
\<close>

named_theorems kalua_defs \<open>definitions a component's proofs unfold\<close>
named_theorems kalua_inv \<open>preservation facts of component invariants\<close>

section \<open>Byte strings\<close>

text \<open>\<^verbatim>\<open>strings.Split(s, sep)\<close> for a one-byte separator: never the empty list.\<close>

fun split_on :: "char \<Rightarrow> string \<Rightarrow> string list" where
  "split_on c [] = [[]]"
| "split_on c (x # xs) =
     (if x = c then [] # split_on c xs
      else (case split_on c xs of [] \<Rightarrow> [[x]] | y # ys \<Rightarrow> (x # y) # ys))"

text \<open>\<^verbatim>\<open>strings.Join(parts, sep)\<close>.\<close>

fun join_with :: "string \<Rightarrow> string list \<Rightarrow> string" where
  "join_with sep [] = []"
| "join_with sep [x] = x"
| "join_with sep (x # y # ys) = x @ sep @ join_with sep (y # ys)"

text \<open>\<^verbatim>\<open>strings.Contains(s, sub)\<close> for a one-byte \<^verbatim>\<open>sub\<close>.\<close>

abbreviation has_byte :: "char \<Rightarrow> string \<Rightarrow> bool" where
  "has_byte c s \<equiv> c \<in> set s"

lemma split_on_not_Nil [simp]: "split_on c s \<noteq> []"
  by (induction s) (auto split: list.splits)

lemma split_on_no_sep: "seg \<in> set (split_on c s) \<Longrightarrow> c \<notin> set seg"
proof (induction s arbitrary: seg)
  case Nil
  then show ?case by simp
next
  case (Cons x xs)
  then show ?case by (cases "split_on c xs") (auto split: if_splits)
qed

lemma join_split_on: "join_with [c] (split_on c s) = s"
proof (induction s)
  case Nil
  then show ?case by simp
next
  case (Cons x xs)
  obtain y ys where "split_on c xs = y # ys"
    by (cases "split_on c xs") auto
  with Cons.IH show ?case by (cases ys) auto
qed

lemma split_on_id: "c \<notin> set s \<Longrightarrow> split_on c s = [s]"
  by (induction s) auto

lemma split_on_append: "c \<notin> set a \<Longrightarrow> split_on c (a @ c # b) = a # split_on c b"
  by (induction a) auto

lemma split_join_with:
  "segs \<noteq> [] \<Longrightarrow> \<forall>s\<in>set segs. c \<notin> set s \<Longrightarrow> split_on c (join_with [c] segs) = segs"
  by (induction "[c]" segs rule: join_with.induct) (auto simp: split_on_id split_on_append)

lemma split_on_inject: "split_on c s = split_on c t \<longleftrightarrow> s = t"
  by (metis join_split_on)

text \<open>ASCII letters and case, as \<^verbatim>\<open>strings.ToUpper\<close>/\<^verbatim>\<open>ToLower\<close> treat them.\<close>

definition is_lower :: "char \<Rightarrow> bool" where
  "is_lower c \<longleftrightarrow> 97 \<le> (of_char c :: nat) \<and> (of_char c :: nat) \<le> 122"

definition is_upper :: "char \<Rightarrow> bool" where
  "is_upper c \<longleftrightarrow> 65 \<le> (of_char c :: nat) \<and> (of_char c :: nat) \<le> 90"

definition is_digit :: "char \<Rightarrow> bool" where
  "is_digit c \<longleftrightarrow> 48 \<le> (of_char c :: nat) \<and> (of_char c :: nat) \<le> 57"

definition upper_char :: "char \<Rightarrow> char" where
  "upper_char c = (if is_lower c then char_of ((of_char c :: nat) - 32) else c)"

definition lower_char :: "char \<Rightarrow> char" where
  "lower_char c = (if is_upper c then char_of ((of_char c :: nat) + 32) else c)"

definition to_upper :: "string \<Rightarrow> string" where
  "to_upper s = map upper_char s"

definition to_lower :: "string \<Rightarrow> string" where
  "to_lower s = map lower_char s"

definition is_space :: "char \<Rightarrow> bool" where
  "is_space c \<longleftrightarrow> c \<in> set [CHR '' '', CHR 0x09, CHR 0x0A, CHR 0x0B, CHR 0x0C, CHR 0x0D]"

text \<open>\<^verbatim>\<open>strings.TrimSpace\<close> on ASCII input.\<close>

definition trim_space :: "string \<Rightarrow> string" where
  "trim_space s = rev (dropWhile is_space (rev (dropWhile is_space s)))"

lemma trim_space_Nil [simp]: "trim_space [] = []"
  by (simp add: trim_space_def)

lemma length_trim_space_le: "length (trim_space s) \<le> length s"
proof -
  have "length (trim_space s) \<le> length (dropWhile is_space s)"
    using length_dropWhile_le [of is_space "rev (dropWhile is_space s)"]
    by (simp add: trim_space_def)
  also have "\<dots> \<le> length s" by (rule length_dropWhile_le)
  finally show ?thesis .
qed

lemma trim_space_id: "\<forall>c\<in>set s. \<not> is_space c \<Longrightarrow> trim_space s = s"
proof -
  assume *: "\<forall>c\<in>set s. \<not> is_space c"
  have a: "dropWhile is_space s = s"
    using * by (cases s) auto
  have b: "dropWhile is_space (rev s) = rev s"
  proof (cases "rev s")
    case (Cons x xs)
    then have "x \<in> set s" by (metis list.set_intros(1) set_rev)
    with * Cons show ?thesis by simp
  qed simp
  show ?thesis by (simp add: trim_space_def a b)
qed

text \<open>\<^verbatim>\<open>strings.Contains\<close>\<close>

fun contains_str :: "string \<Rightarrow> string \<Rightarrow> bool" where
  "contains_str [] pat = (pat = [])"
| "contains_str (c # cs) pat = (take (length pat) (c # cs) = pat \<or> contains_str cs pat)"

section \<open>64-bit integers\<close>

text \<open>Go's \<^verbatim>\<open>int64\<close> arithmetic wraps; \<open>wrap64\<close> reduces an exact result to that range.\<close>

definition min_int64 :: int where "min_int64 = - (2 ^ 63)"
definition max_int64 :: int where "max_int64 = 2 ^ 63 - 1"

definition wrap64 :: "int \<Rightarrow> int" where
  "wrap64 n = (n + 2 ^ 63) mod 2 ^ 64 - 2 ^ 63"

definition in_int64 :: "int \<Rightarrow> bool" where
  "in_int64 n \<longleftrightarrow> min_int64 \<le> n \<and> n \<le> max_int64"

lemma in_int64_wrap64 [simp]: "in_int64 (wrap64 n)"
  unfolding in_int64_def wrap64_def min_int64_def max_int64_def
  using pos_mod_bound [of "2 ^ 64" "n + 2 ^ 63"] pos_mod_sign [of "2 ^ 64" "n + 2 ^ 63"]
  by simp

lemma wrap64_id [simp]: "in_int64 n \<Longrightarrow> wrap64 n = n"
  by (simp add: in_int64_def wrap64_def min_int64_def max_int64_def)

lemma wrap64_cong: "wrap64 n mod 2 ^ 64 = n mod 2 ^ 64"
  by (simp add: wrap64_def mod_diff_left_eq)

lemma wrap64_add_left: "wrap64 (wrap64 a + b) = wrap64 (a + b)"
proof -
  have "wrap64 a + b + 2 ^ 63 = (a + 2 ^ 63) mod 2 ^ 64 + b" by (simp add: wrap64_def)
  then have "(wrap64 a + b + 2 ^ 63) mod 2 ^ 64 = (a + 2 ^ 63 + b) mod 2 ^ 64"
    by (simp only: mod_add_left_eq)
  also have "a + 2 ^ 63 + b = a + b + 2 ^ 63" by simp
  finally show ?thesis unfolding wrap64_def [of "wrap64 a + b"] wrap64_def [of "a + b"] by simp
qed

lemma wrap64_add_wrap64: "wrap64 (wrap64 a + wrap64 b) = wrap64 (a + b)"
  using wrap64_add_left [of a "wrap64 b"] wrap64_add_left [of b a] by (simp add: add.commute)

lemma nth_update_any: "j < length xs \<Longrightarrow> xs[i := x] ! j = (if i = j then x else xs ! j)"
  by (simp add: nth_list_update)

section \<open>A keyed registry\<close>

text \<open>
  The contract of a mutex-guarded Go map: storing overwrites, deleting forgets, and neither
  touches another key. The provider chooses its state; \<open>get\<close> reads it.
\<close>

locale registry =
  fixes put :: "'k \<Rightarrow> 'v \<Rightarrow> 's \<Rightarrow> 's"
    and drop_key :: "'k \<Rightarrow> 's \<Rightarrow> 's"
    and get :: "'s \<Rightarrow> 'k \<Rightarrow> 'v option"
  assumes get_put: "get (put k v s) = (get s)(k \<mapsto> v)"
    and get_drop: "get (drop_key k s) = (get s)(k := None)"
begin

lemma get_put_same: "get (put k v s) k = Some v"
  by (simp add: get_put)

lemma get_put_other: "k' \<noteq> k \<Longrightarrow> get (put k v s) k' = get s k'"
  by (simp add: get_put)

lemma get_drop_same: "get (drop_key k s) k = None"
  by (simp add: get_drop)

lemma get_drop_other: "k' \<noteq> k \<Longrightarrow> get (drop_key k s) k' = get s k'"
  by (simp add: get_drop)

lemma get_put_put: "get (put k v (put k w s)) = get (put k v s)"
  by (simp add: get_put)

lemma get_put_drop_fresh: "get s k = None \<Longrightarrow> get (drop_key k (put k v s)) = get s"
  by (auto simp: get_put get_drop fun_eq_iff)

lemma get_drop_commute: "get (drop_key k (drop_key k' s)) = get (drop_key k' (drop_key k s))"
  by (auto simp: get_drop fun_eq_iff)

end

text \<open>A registry whose keys can be enumerated, in an order the provider does not promise.\<close>

locale listed_registry = registry +
  fixes keys_of :: "'s \<Rightarrow> 'k list"
    and wf :: "'s \<Rightarrow> bool"
  assumes set_keys: "wf s \<Longrightarrow> set (keys_of s) = dom (get s)"
    and distinct_keys: "wf s \<Longrightarrow> distinct (keys_of s)"
    and wf_put: "wf s \<Longrightarrow> wf (put k v s)"
    and wf_drop: "wf s \<Longrightarrow> wf (drop_key k s)"
begin

lemma key_put: "wf s \<Longrightarrow> set (keys_of (put k v s)) = insert k (set (keys_of s))"
  by (simp add: set_keys wf_put get_put)

lemma key_drop: "wf s \<Longrightarrow> set (keys_of (drop_key k s)) = set (keys_of s) - {k}"
  by (auto simp: set_keys wf_drop get_drop split: if_splits)

lemma count_put_fresh:
  "wf s \<Longrightarrow> get s k = None \<Longrightarrow> length (keys_of (put k v s)) = Suc (length (keys_of s))"
proof -
  assume w: "wf s" and n: "get s k = None"
  have "k \<notin> set (keys_of s)"
    using w n by (auto simp: set_keys)
  then have "card (set (keys_of (put k v s))) = Suc (card (set (keys_of s)))"
    using w by (simp add: key_put)
  then show ?thesis
    using w by (simp add: distinct_card distinct_keys wf_put)
qed

end

section \<open>A bounded queue that never blocks\<close>

text \<open>
  The contract of a send into a buffered channel inside a \<^verbatim>\<open>select\<close> with a
  \<^verbatim>\<open>default\<close> branch: with room the item goes to the back, without room the queue is
  left alone and the sender learns it.
\<close>

locale bounded_queue =
  fixes items :: "'s \<Rightarrow> 'a list"
    and offer :: "'a \<Rightarrow> 's \<Rightarrow> bool \<times> 's"
    and capacity :: nat
  assumes offer_room: "length (items s) < capacity \<Longrightarrow>
      fst (offer x s) \<and> items (snd (offer x s)) = items s @ [x]"
    and offer_full: "capacity \<le> length (items s) \<Longrightarrow>
      \<not> fst (offer x s) \<and> items (snd (offer x s)) = items s"
begin

lemma offer_accepts: "fst (offer x s) \<longleftrightarrow> length (items s) < capacity"
  using offer_room offer_full by (meson not_less)

lemma offer_bounded:
  "length (items s) \<le> capacity \<Longrightarrow> length (items (snd (offer x s))) \<le> capacity"
  by (cases "length (items s) < capacity") (simp_all add: offer_room offer_full)

lemma offer_keeps_prefix: "take (length (items s)) (items (snd (offer x s))) = items s"
  by (cases "length (items s) < capacity") (simp_all add: offer_room offer_full)

lemma offer_many:
  "length (items s) \<le> capacity \<Longrightarrow>
   items (fold (\<lambda>x q. snd (offer x q)) xs s) = take capacity (items s @ xs)"
proof (induction xs arbitrary: s)
  case Nil
  then show ?case by simp
next
  case (Cons x xs)
  show ?case
  proof (cases "length (items s) < capacity")
    case True
    then have "items (snd (offer x s)) = items s @ [x]" by (simp add: offer_room)
    with Cons.IH [of "snd (offer x s)"] True show ?thesis by simp
  next
    case False
    with Cons.prems have "items (snd (offer x s)) = items s" by (simp add: offer_full)
    with Cons.IH [of "snd (offer x s)"] Cons.prems False show ?thesis by simp
  qed
qed

end

section \<open>Association lists as Go maps\<close>

text \<open>
  A Go map is an association list with distinct keys; the list order stands for one of the
  iteration orders the runtime may choose.
\<close>

definition alist_wf :: "('k \<times> 'v) list \<Rightarrow> bool" where
  "alist_wf m \<longleftrightarrow> distinct (map fst m)"

lemma alist_wf_update [intro]: "alist_wf m \<Longrightarrow> alist_wf (AList.update k v m)"
  by (simp add: alist_wf_def distinct_update)

lemma alist_wf_delete [intro]: "alist_wf m \<Longrightarrow> alist_wf (AList.delete k m)"
  by (simp add: alist_wf_def distinct_delete)

lemma alist_wf_Nil [simp]: "alist_wf []"
  by (simp add: alist_wf_def)

lemma map_of_update [simp]: "map_of (AList.update k v m) = (map_of m)(k \<mapsto> v)"
  by (simp add: update_conv')

lemma map_of_delete [simp]: "map_of (AList.delete k m) = (map_of m)(k := None)"
  by (simp add: delete_conv')

lemma alist_update_cases: "(x, y) \<in> set (AList.update k v xs) \<Longrightarrow> (x, y) = (k, v) \<or> (x, y) \<in> set xs"
  by (induction xs) (auto split: if_splits)

lemma alist_update_values:
  "distinct (map snd xs) \<Longrightarrow> v \<notin> snd ` set xs \<Longrightarrow> distinct (map snd (AList.update k v xs))"
proof (induction xs)
  case (Cons x xs)
  have "snd x \<noteq> v" "snd x \<notin> snd ` set xs" using Cons.prems by auto
  then have "snd x \<notin> snd ` set (AList.update k v xs)"
    by (auto dest!: alist_update_cases)
  with Cons show ?case by (cases x) auto
qed simp

lemma alist_delete_values: "distinct (map snd xs) \<Longrightarrow> distinct (map snd (AList.delete k xs))"
  by (simp add: AList.delete_eq distinct_map_filter)

lemma alist_delete_sub: "x \<in> set (AList.delete k xs) \<Longrightarrow> x \<in> set xs"
  by (simp add: AList.delete_eq)

interpretation go_map: listed_registry AList.update AList.delete map_of "map fst" alist_wf
  by unfold_locales (auto simp: dom_map_of_conv_image_fst alist_wf_def distinct_update distinct_delete)

end
