(* ===== verification/Mqtt_Topics.thy ===== *)
theory Mqtt_Topics
  imports Kalua_Prelude
begin

text \<open>
  MQTT topic filters of \<^verbatim>\<open>internal/bindings/mqtt.go\<close>: the validation a filter passes when a
  handler is registered (\<^verbatim>\<open>validateMQTTPattern\<close>, \<^verbatim>\<open>validateMQTTQoS\<close>), the matcher
  (\<^verbatim>\<open>mqttTopicMatch\<close>) and the dispatch of an inbound message to the matching handlers
  (\<^verbatim>\<open>DispatchMQTT\<close>). The abstract specification is the level-wise matching of the MQTT
  standard over already split levels.
\<close>

section \<open>Validation\<close>

datatype mqtt_error =
    EmptyFilter
  | HashNotFinal
  | HashNotWhole
  | PlusNotWhole
  | QosRange nat

text \<open>
  The loop over \<^verbatim>\<open>segs\<close>. \<^verbatim>\<open>i != len(segs)-1\<close> is "another segment follows".
\<close>

fun validate_segs :: "string list \<Rightarrow> mqtt_error option" where
  "validate_segs [] = None"
| "validate_segs (s # rest) =
     (if s = ''#'' then (if rest \<noteq> [] then Some HashNotFinal else validate_segs rest)
      else if has_byte (CHR ''#'') s then Some HashNotWhole
      else if has_byte (CHR ''+'') s \<and> s \<noteq> ''+'' then Some PlusNotWhole
      else validate_segs rest)"

definition validateMQTTPattern :: "string \<Rightarrow> mqtt_error option" where
  "validateMQTTPattern p =
     (if p = [] then Some EmptyFilter else validate_segs (split_on (CHR ''/'') p))"

definition validateMQTTQoS :: "nat \<Rightarrow> mqtt_error option" where
  "validateMQTTQoS q = (if q > 2 then Some (QosRange q) else None)"

section \<open>Matching\<close>

text \<open>
  The loop of \<^verbatim>\<open>mqttTopicMatch\<close> walks both segment lists by a common index: a prefix
  already matched is dropped from both, so "\<^verbatim>\<open>i >= len(tSegs)\<close>" is an empty topic rest and the
  final length comparison is "the topic rest is empty too".
\<close>

fun match_segs :: "string list \<Rightarrow> string list \<Rightarrow> bool" where
  "match_segs [] ts = (ts = [])"
| "match_segs (f # fs) ts =
     (if f = ''#'' then True
      else (case ts of
              [] \<Rightarrow> False
            | t # ts' \<Rightarrow>
                if f = ''+'' then match_segs fs ts'
                else if f \<noteq> t then False
                else match_segs fs ts'))"

definition mqttTopicMatch :: "string \<Rightarrow> string \<Rightarrow> bool" where
  "mqttTopicMatch flt topic =
     (if flt = topic then True
      else match_segs (split_on (CHR ''/'') flt) (split_on (CHR ''/'') topic))"

subsection \<open>The standard's matching, level by level\<close>

datatype level_pat = Lit string | AnyOne | AnyRest

definition pat_of :: "string \<Rightarrow> level_pat" where
  "pat_of s = (if s = ''#'' then AnyRest else if s = ''+'' then AnyOne else Lit s)"

inductive level_match :: "level_pat list \<Rightarrow> string list \<Rightarrow> bool" where
  lm_end: "level_match [] []"
| lm_rest: "level_match [AnyRest] ts"
| lm_one: "level_match ps ts \<Longrightarrow> level_match (AnyOne # ps) (t # ts)"
| lm_lit: "level_match ps ts \<Longrightarrow> level_match (Lit t # ps) (t # ts)"

inductive_simps level_match_Nil [simp]: "level_match [] ts"
inductive_simps level_match_Rest [simp]: "level_match (AnyRest # ps) ts"
inductive_simps level_match_One [simp]: "level_match (AnyOne # ps) ts"
inductive_simps level_match_Lit [simp]: "level_match (Lit s # ps) ts"

fun_cases match_segs_ConsE: "match_segs (f # fs) ts"

lemma validate_segs_rest:
  "validate_segs (s # rest) = None \<Longrightarrow> validate_segs rest = None"
  by (auto split: if_splits)

lemma match_segs_level_match:
  "validate_segs fs = None \<Longrightarrow> match_segs fs ts \<longleftrightarrow> level_match (map pat_of fs) ts"
proof (induction fs ts rule: match_segs.induct)
  case (1 ts)
  then show ?case by auto
next
  case (2 f fs ts)
  show ?case
  proof (cases "f = ''#''")
    case True
    with "2.prems" show ?thesis by (simp add: pat_of_def split: if_splits)
  next
    case hash: False
    have v: "validate_segs fs = None"
      using "2.prems" by (rule validate_segs_rest)
    show ?thesis
    proof (cases ts)
      case Nil
      with hash show ?thesis by (simp add: pat_of_def)
    next
      case (Cons t ts')
      with hash v "2.IH" show ?thesis by (simp add: pat_of_def eq_commute)
    qed
  qed
qed

lemma match_segs_refl: "match_segs fs fs"
  by (induction fs) auto

lemma match_segs_exact:
  "\<forall>f\<in>set fs. f \<noteq> ''#'' \<and> f \<noteq> ''+'' \<Longrightarrow> match_segs fs ts \<longleftrightarrow> fs = ts"
  by (induction fs ts rule: match_segs.induct) (auto split: list.splits)

lemma mqttTopicMatch_segs:
  "mqttTopicMatch flt topic = match_segs (split_on (CHR ''/'') flt) (split_on (CHR ''/'') topic)"
  by (simp add: mqttTopicMatch_def match_segs_refl)

lemma validate_split:
  "validateMQTTPattern flt = None \<Longrightarrow> validate_segs (split_on (CHR ''/'') flt) = None"
  by (simp add: validateMQTTPattern_def split: if_splits)

lemma validate_segs_None_iff:
  "validate_segs segs = None \<longleftrightarrow>
     (\<forall>s\<in>set segs. (CHR ''#'' \<in> set s \<longrightarrow> s = ''#'') \<and> (CHR ''+'' \<in> set s \<longrightarrow> s = ''+''))
     \<and> ''#'' \<notin> set (butlast segs)"
  by (induction segs) auto

section \<open>Dispatch\<close>

text \<open>
  A handler is registered with a filter and the name of a global Lua function. The Lua engine is
  a parameter: \<open>global\<close> resolves a name to a function, \<open>resume\<close> runs it on (topic, payload)
  and returns the new engine state with an error text when the coroutine failed. The trace
  records what the loop did, in order.
\<close>

record mqtt_handler =
  h_pattern :: string
  h_fn :: string

datatype mqtt_effect = Called string | ErrorHook string

fun dispatch_loop ::
  "('l \<Rightarrow> string \<Rightarrow> 'f option) \<Rightarrow> ('l \<Rightarrow> 'f \<Rightarrow> string \<Rightarrow> string \<Rightarrow> 'l \<times> string option) \<Rightarrow>
   mqtt_handler list \<Rightarrow> string \<Rightarrow> string \<Rightarrow> 'l \<Rightarrow> 'l \<times> mqtt_effect list" where
  "dispatch_loop global resume [] topic payload L = (L, [])"
| "dispatch_loop global resume (h # hs) topic payload L =
     (if \<not> mqttTopicMatch (h_pattern h) topic then dispatch_loop global resume hs topic payload L
      else (case global L (h_fn h) of
              None \<Rightarrow>
                (let (L', es) = dispatch_loop global resume hs topic payload L
                 in (L', ErrorHook (h_fn h) # es))
            | Some f \<Rightarrow>
                (let (L1, err) = resume L f topic payload;
                     (L', es) = dispatch_loop global resume hs topic payload L1
                 in (L', Called (h_fn h) #
                         (case err of None \<Rightarrow> es | Some m \<Rightarrow> ErrorHook m # es)))))"

definition DispatchMQTT ::
  "('l \<Rightarrow> string \<Rightarrow> 'f option) \<Rightarrow> ('l \<Rightarrow> 'f \<Rightarrow> string \<Rightarrow> string \<Rightarrow> 'l \<times> string option) \<Rightarrow>
   mqtt_handler list \<Rightarrow> string \<Rightarrow> string \<Rightarrow> 'l \<Rightarrow> 'l \<times> mqtt_effect list" where
  "DispatchMQTT global resume hs topic payload L = dispatch_loop global resume hs topic payload L"

fun called :: "mqtt_effect list \<Rightarrow> string list" where
  "called [] = []"
| "called (Called f # es) = f # called es"
| "called (ErrorHook m # es) = called es"

lemma called_dispatch_loop:
  "(\<And>l name. global l name \<noteq> None) \<Longrightarrow>
   called (snd (dispatch_loop global resume hs topic payload L)) =
     map h_fn (filter (\<lambda>h. mqttTopicMatch (h_pattern h) topic) hs)"
proof (induction hs arbitrary: L)
  case Nil
  then show ?case by simp
next
  case (Cons h hs)
  obtain f where f: "global L (h_fn h) = Some f"
    using Cons.prems by fastforce
  obtain L1 e where r: "resume L f topic payload = (L1, e)"
    by (cases "resume L f topic payload")
  show ?case
    using Cons.IH [OF Cons.prems, of L] Cons.IH [OF Cons.prems, of L1] f r
    by (auto simp: split_beta split: option.splits)
qed

section \<open>Properties\<close>

text \<open>C10: For every filter the registration accepts, the matcher implements the level-wise
  matching of MQTT: one literal or single-level wildcard per level, and a final multi-level
  wildcard that also covers no further level.\<close>

theorem mqttTopicMatch_correct:
  "validateMQTTPattern flt = None \<Longrightarrow>
   mqttTopicMatch flt topic \<longleftrightarrow>
     level_match (map pat_of (split_on (CHR ''/'') flt)) (split_on (CHR ''/'') topic)"
  by (simp add: mqttTopicMatch_segs match_segs_level_match validate_split)

theorem mqttTopicMatch_correct_witness:
  "mqttTopicMatch ''s/+/#'' ''s/a'' \<and> level_match [Lit ''s'', AnyOne, AnyRest] [''s'', ''a'']"
  using mqttTopicMatch_correct [of "''s/+/#''" "''s/a''"]
  by (simp add: validateMQTTPattern_def mqttTopicMatch_segs pat_of_def)


text \<open>When every handler name resolves to a function, an inbound message runs exactly the
  handlers whose filter matches its topic, each once and in registration order; a handler that
  fails does not stop the ones after it.\<close>

theorem DispatchMQTT_calls_matching:
  assumes "\<And>l name. global l name \<noteq> None"
  shows "called (snd (DispatchMQTT global resume hs topic payload L)) =
           map h_fn (filter (\<lambda>h. mqttTopicMatch (h_pattern h) topic) hs)"
  using assms by (simp add: DispatchMQTT_def called_dispatch_loop)

theorem DispatchMQTT_calls_matching_witness:
  "called (snd (DispatchMQTT (\<lambda>l n. Some n) (\<lambda>l f t p. (f # l, Some ''failed''))
      [\<lparr>h_pattern = ''s/+'', h_fn = ''f''\<rparr>, \<lparr>h_pattern = ''t'', h_fn = ''g''\<rparr>,
       \<lparr>h_pattern = ''#'', h_fn = ''h''\<rparr>] ''s/a'' ''1'' [])) = [''f'', ''h'']"
  by (subst DispatchMQTT_calls_matching) (simp_all add: mqttTopicMatch_segs)

end
