(* ===== verification/Go_Text.thy ===== *)
theory Go_Text
  imports Kalua_Prelude
begin

text \<open>
  Text routines the log sink and the server share: the decimal printer \<^verbatim>\<open>itoa\<close> and the JSON
  string quoting \<^verbatim>\<open>quoteJSON\<close> of \<^verbatim>\<open>internal/klog/klog.go\<close> (the same loop is
  \<^verbatim>\<open>jsonQuote\<close> of \<^verbatim>\<open>internal/server/server.go\<close>), with the UTF-8 decoding that Go's
  \<^verbatim>\<open>range\<close> over a string performs: an invalid byte is read as U+FFFD.
\<close>

section \<open>Decimal digits\<close>

abbreviation byte_of :: "char \<Rightarrow> nat" where
  "byte_of c \<equiv> of_char c"

definition digit_char :: "nat \<Rightarrow> char" where
  "digit_char d = char_of (48 + d)"

definition digit_val :: "char \<Rightarrow> nat" where
  "digit_val c = byte_of c - 48"

text \<open>\<^verbatim>\<open>for n > 0 { i--; buf[i] = byte('0' + n%10); n /= 10 }\<close>: digits are prepended.\<close>

fun itoa_loop :: "nat \<Rightarrow> string \<Rightarrow> string" where
  "itoa_loop n buf = (if n = 0 then buf else itoa_loop (n div 10) (digit_char (n mod 10) # buf))"

declare itoa_loop.simps [simp del]

lemma itoa_loop_0 [simp]: "itoa_loop 0 buf = buf"
  by (simp add: itoa_loop.simps [of 0])

lemma itoa_loop_pos:
  "n \<noteq> 0 \<Longrightarrow> itoa_loop n buf = itoa_loop (n div 10) (digit_char (n mod 10) # buf)"
  by (simp add: itoa_loop.simps [of n])

definition itoa :: "int \<Rightarrow> string" where
  "itoa n =
     (if n = 0 then ''0''
      else if n < 0 then CHR ''-'' # itoa_loop (nat (- n)) []
      else itoa_loop (nat n) [])"

text \<open>\<^verbatim>\<open>strconv.ParseInt(s, 10, 64)\<close> on a non-empty run of digits.\<close>

definition digits_value :: "string \<Rightarrow> nat" where
  "digits_value s = foldl (\<lambda>a c. 10 * a + digit_val c) 0 s"

definition parse_int64_digits :: "string \<Rightarrow> int option" where
  "parse_int64_digits s =
     (if s \<noteq> [] \<and> list_all is_digit s \<and> int (digits_value s) \<le> max_int64
      then Some (int (digits_value s)) else None)"

lemma byte_digit_char: "d < 10 \<Longrightarrow> byte_of (digit_char d) = 48 + d"
  by (simp add: digit_char_def)

lemma is_digit_digit_char [simp]: "d < 10 \<Longrightarrow> is_digit (digit_char d)"
  by (simp add: is_digit_def byte_digit_char)

lemma digit_val_digit_char [simp]: "d < 10 \<Longrightarrow> digit_val (digit_char d) = d"
  by (simp add: digit_val_def byte_digit_char)

lemma foldl_digits_append:
  "foldl (\<lambda>a c. 10 * a + digit_val c) a s = a * 10 ^ length s + digits_value s"
proof (induction s arbitrary: a)
  case Nil
  then show ?case by (simp add: digits_value_def)
next
  case (Cons c s)
  have "digits_value (c # s) = digit_val c * 10 ^ length s + digits_value s"
    using Cons.IH [of "digit_val c"] by (simp add: digits_value_def)
  with Cons.IH [of "10 * a + digit_val c"] show ?case by (simp add: algebra_simps)
qed

lemma digits_value_Cons: "digits_value (c # s) = digit_val c * 10 ^ length s + digits_value s"
  using foldl_digits_append [of "digit_val c" s] by (simp add: digits_value_def)

lemma digits_value_itoa_loop: "digits_value (itoa_loop n buf) = n * 10 ^ length buf + digits_value buf"
proof (induction n buf rule: itoa_loop.induct)
  case (1 n buf)
  show ?case
  proof (cases "n = 0")
    case True
    then show ?thesis by simp
  next
    case False
    have "digits_value (itoa_loop n buf)
        = n div 10 * 10 ^ Suc (length buf) + digits_value (digit_char (n mod 10) # buf)"
      using "1.IH" [OF False] False by (simp add: itoa_loop_pos)
    also have "\<dots> = n div 10 * 10 * 10 ^ length buf + n mod 10 * 10 ^ length buf + digits_value buf"
      by (simp add: digits_value_Cons)
    also have "\<dots> = (n div 10 * 10 + n mod 10) * 10 ^ length buf + digits_value buf"
      by (simp only: add_mult_distrib)
    also have "n div 10 * 10 + n mod 10 = n" by (rule div_mult_mod_eq)
    finally show ?thesis .
  qed
qed

lemma digits_itoa_loop: "list_all is_digit buf \<Longrightarrow> list_all is_digit (itoa_loop n buf)"
proof (induction n buf rule: itoa_loop.induct)
  case (1 n buf)
  then show ?case
    by (cases "n = 0") (simp_all add: itoa_loop_pos)
qed

lemma itoa_loop_nonempty: "n \<noteq> 0 \<or> buf \<noteq> [] \<Longrightarrow> itoa_loop n buf \<noteq> []"
proof (induction n buf rule: itoa_loop.induct)
  case (1 n buf)
  then show ?case
    by (cases "n = 0") (simp_all add: itoa_loop_pos)
qed

lemma itoa_digits: "0 \<le> n \<Longrightarrow> list_all is_digit (itoa n) \<and> itoa n \<noteq> []"
  by (auto simp: itoa_def is_digit_def digits_itoa_loop itoa_loop_nonempty)

lemma digits_value_itoa: "0 \<le> n \<Longrightarrow> digits_value (itoa n) = nat n"
proof -
  assume "0 \<le> n"
  moreover have "digits_value ''0'' = 0"
    by (simp add: digits_value_def digit_val_def)
  ultimately show ?thesis
    by (auto simp: itoa_def digits_value_itoa_loop) (simp add: digits_value_def)
qed

lemma parse_itoa: "0 \<le> n \<Longrightarrow> n \<le> max_int64 \<Longrightarrow> parse_int64_digits (itoa n) = Some n"
  by (simp add: parse_int64_digits_def itoa_digits digits_value_itoa)

lemma length_itoa_loop_le: "n < 10 ^ k \<Longrightarrow> length (itoa_loop n buf) \<le> k + length buf"
proof (induction k arbitrary: n buf)
  case 0
  then show ?case by simp
next
  case (Suc k)
  show ?case
  proof (cases "n = 0")
    case True
    then show ?thesis by simp
  next
    case False
    have "n div 10 < 10 ^ k" using Suc.prems by (simp add: less_mult_imp_div_less)
    from Suc.IH [OF this, of "digit_char (n mod 10) # buf"] False show ?thesis
      by (simp add: itoa_loop_pos)
  qed
qed

section \<open>Signed decimal numbers\<close>

text \<open>\<^verbatim>\<open>strconv.ParseInt(s, 10, 64)\<close>: an optional sign, then digits within range.\<close>

definition neg_digits :: "string \<Rightarrow> int option" where
  "neg_digits s =
     (if s \<noteq> [] \<and> list_all is_digit s \<and> min_int64 \<le> - int (digits_value s)
      then Some (- int (digits_value s)) else None)"

definition parse_int64 :: "string \<Rightarrow> int option" where
  "parse_int64 s =
     (case s of
        [] \<Rightarrow> None
      | c # r \<Rightarrow> (if c = CHR ''-'' then neg_digits r
                else if c = CHR ''+'' then parse_int64_digits r
                else parse_int64_digits s))"

lemma itoa_pos: "0 \<le> n \<Longrightarrow> \<exists>c r. itoa n = c # r \<and> c \<noteq> CHR ''-'' \<and> c \<noteq> CHR ''+''"
  using itoa_digits [of n] by (cases "itoa n") (auto simp: is_digit_def)

lemma itoa_neg: "n < 0 \<Longrightarrow> itoa n = CHR ''-'' # itoa (- n)"
  by (simp add: itoa_def)

lemma parse_int64_itoa: "in_int64 n \<Longrightarrow> parse_int64 (itoa n) = Some n"
proof (cases "0 \<le> n")
  case True
  assume "in_int64 n"
  with True itoa_pos [OF True] parse_itoa [of n] show ?thesis
    by (auto simp: parse_int64_def in_int64_def)
next
  case False
  assume "in_int64 n"
  with False itoa_digits [of "- n"] digits_value_itoa [of "- n"] show ?thesis
    by (simp add: itoa_neg parse_int64_def neg_digits_def in_int64_def)
qed

lemma itoa_nonempty [simp]: "itoa n \<noteq> []"
  using itoa_digits [of n] itoa_neg [of n] by (cases "0 \<le> n") auto

section \<open>Runes\<close>

definition is_cont :: "char \<Rightarrow> bool" where
  "is_cont c \<longleftrightarrow> 128 \<le> byte_of c \<and> byte_of c < 192"

definition in_range :: "nat \<Rightarrow> nat \<Rightarrow> char \<Rightarrow> bool" where
  "in_range lo hi c \<longleftrightarrow> lo \<le> byte_of c \<and> byte_of c \<le> hi"

text \<open>Width of the rune at the head of a non-empty string; 0 marks an invalid lead.\<close>

fun rune_width :: "string \<Rightarrow> nat" where
  "rune_width [] = 0"
| "rune_width (b # bs) =
     (let n = byte_of b in
      if n < 128 then 1
      else if 194 \<le> n \<and> n \<le> 223 then
        (case bs of c1 # _ \<Rightarrow> if is_cont c1 then 2 else 0 | _ \<Rightarrow> 0)
      else if 224 \<le> n \<and> n \<le> 239 then
        (case bs of
           c1 # c2 # _ \<Rightarrow>
             if in_range (if n = 224 then 160 else 128) (if n = 237 then 159 else 191) c1
                \<and> is_cont c2
             then 3 else 0
         | _ \<Rightarrow> 0)
      else if 240 \<le> n \<and> n \<le> 244 then
        (case bs of
           c1 # c2 # c3 # _ \<Rightarrow>
             if in_range (if n = 240 then 144 else 128) (if n = 244 then 143 else 191) c1
                \<and> is_cont c2 \<and> is_cont c3
             then 4 else 0
         | _ \<Rightarrow> 0)
      else 0)"

declare rune_width.simps [simp del]

definition rune_error :: string where
  "rune_error = [CHR 0xEF, CHR 0xBF, CHR 0xBD]"

text \<open>
  \<^verbatim>\<open>for _, r := range s\<close>: the bytes \<^verbatim>\<open>string(r)\<close> of each rune. An invalid byte is one
  rune, the replacement character.
\<close>

function runes :: "string \<Rightarrow> string list" where
  "runes [] = []"
| "runes (b # bs) =
     (let w = rune_width (b # bs)
      in if w = 0 then rune_error # runes bs
         else take w (b # bs) # runes (drop w (b # bs)))"
  by pat_completeness auto
termination
  by (relation "measure length") auto

lemma runes_bad: "rune_width (b # bs) = 0 \<Longrightarrow> runes (b # bs) = rune_error # runes bs"
  by (simp add: Let_def)

lemma runes_good:
  "rune_width (b # bs) \<noteq> 0 \<Longrightarrow>
   runes (b # bs) = take (rune_width (b # bs)) (b # bs) # runes (drop (rune_width (b # bs)) (b # bs))"
  by (simp add: Let_def)

declare runes.simps(2) [simp del]

definition quote_rune :: "string \<Rightarrow> string" where
  "quote_rune r =
     (if r = [CHR 0x22] then [CHR 0x5C, CHR 0x22]
      else if r = [CHR 0x5C] then [CHR 0x5C, CHR 0x5C]
      else if r = [CHR 0x0A] then [CHR 0x5C, CHR ''n'']
      else if r = [CHR 0x0D] then [CHR 0x5C, CHR ''r'']
      else if r = [CHR 0x09] then [CHR 0x5C, CHR ''t'']
      else r)"

definition quoteJSON :: "string \<Rightarrow> string" where
  "quoteJSON s = [CHR 0x22] @ concat (map quote_rune (runes s)) @ [CHR 0x22]"

text \<open>The server's copy of the loop.\<close>

definition jsonQuote :: "string \<Rightarrow> string" where
  "jsonQuote s = [CHR 0x22] @ concat (map quote_rune (runes s)) @ [CHR 0x22]"

lemma rune_width_le: "rune_width s \<le> length s"
  by (cases s) (auto simp: rune_width.simps Let_def split: list.splits)

lemma rune_width_le_4: "rune_width s \<le> 4"
  by (cases s) (auto simp: rune_width.simps Let_def split: list.splits)

lemma length_quote_rune: "r \<noteq> [] \<Longrightarrow> length (quote_rune r) \<le> Suc (length r)"
  by (auto simp: quote_rune_def)

lemma quote_rune_long: "2 \<le> length r \<Longrightarrow> quote_rune r = r"
  by (auto simp: quote_rune_def)

lemma length_quoted_runes: "length (concat (map quote_rune (runes s))) \<le> 3 * length s"
proof (induction s rule: runes.induct)
  case 1
  then show ?case by simp
next
  case (2 b bs)
  define w where "w = rune_width (b # bs)"
  show ?case
  proof (cases "w = 0")
    case True
    then have "runes (b # bs) = rune_error # runes bs" by (simp add: w_def runes_bad)
    with "2.IH"(1) [OF w_def True] show ?thesis by (simp add: rune_error_def quote_rune_def)
  next
    case False
    have le: "w \<le> length (b # bs)" unfolding w_def by (rule rune_width_le)
    have "length (quote_rune (take w (b # bs))) \<le> Suc w"
      using length_quote_rune [of "take w (b # bs)"] False le by simp
    moreover have "length (concat (map quote_rune (runes (drop w (b # bs))))) \<le> 3 * (length (b # bs) - w)"
      using "2.IH"(2) [OF w_def False] by simp
    moreover have "runes (b # bs) = take w (b # bs) # runes (drop w (b # bs))"
      using False by (simp add: w_def runes_good)
    ultimately show ?thesis using False le by simp
  qed
qed

lemma length_quoteJSON: "length (quoteJSON s) \<le> 3 * length s + 2"
  using length_quoted_runes [of s] by (simp add: quoteJSON_def)

lemma jsonQuote_eq_quoteJSON: "jsonQuote s = quoteJSON s"
  by (simp add: jsonQuote_def quoteJSON_def)

text \<open>
  Reading the quoted text back: a scanner that undoes the five escapes and stops at the closing
  quote. Without control characters other than the escaped ones this is JSON's reading.
\<close>

fun unquote :: "string \<Rightarrow> (string \<times> string) option" where
  "unquote [] = None"
| "unquote (c # cs) =
     (if c = CHR 0x22 then Some ([], cs)
      else if c = CHR 0x5C then
        (case cs of
           [] \<Rightarrow> None
         | e # es \<Rightarrow>
             (case (if e = CHR 0x22 then Some (CHR 0x22) else if e = CHR 0x5C then Some (CHR 0x5C)
                    else if e = CHR ''n'' then Some (CHR 0x0A) else if e = CHR ''r'' then Some (CHR 0x0D)
                    else if e = CHR ''t'' then Some (CHR 0x09) else None) of
                None \<Rightarrow> None
              | Some b \<Rightarrow> map_option (\<lambda>p. (b # fst p, snd p)) (unquote es)))
      else map_option (\<lambda>p. (c # fst p, snd p)) (unquote cs))"

definition valid_utf8 :: "string \<Rightarrow> bool" where
  "valid_utf8 s \<longleftrightarrow> concat (runes s) = s"

lemma unquote_plain:
  "CHR 0x22 \<notin> set r \<Longrightarrow> CHR 0x5C \<notin> set r \<Longrightarrow>
   unquote (r @ t) = map_option (\<lambda>p. (r @ fst p, snd p)) (unquote t)"
  by (induction r) (auto simp: option.map_comp comp_def option.map_ident)

lemma rune_shape:
  assumes "2 \<le> rune_width (b # bs)"
  obtains c1 r where "bs = c1 # r" "rune_width (b # bs) = 2" "128 \<le> byte_of b" "128 \<le> byte_of c1"
  | c1 c2 r where "bs = c1 # c2 # r" "rune_width (b # bs) = 3"
      "128 \<le> byte_of b" "128 \<le> byte_of c1" "128 \<le> byte_of c2"
  | c1 c2 c3 r where "bs = c1 # c2 # c3 # r" "rune_width (b # bs) = 4"
      "128 \<le> byte_of b" "128 \<le> byte_of c1" "128 \<le> byte_of c2" "128 \<le> byte_of c3"
  using assms unfolding rune_width.simps Let_def
  by (simp split: if_split_asm list.split_asm add: is_cont_def in_range_def)

lemma rune_bytes_high:
  "2 \<le> rune_width s \<Longrightarrow> c \<in> set (take (rune_width s) s) \<Longrightarrow> 128 \<le> byte_of c"
proof (cases s)
  case (Cons b bs)
  assume w: "2 \<le> rune_width s" and c: "c \<in> set (take (rune_width s) s)"
  from w have "2 \<le> rune_width (b # bs)" by (simp add: Cons)
  then show ?thesis
    by (rule rune_shape) (use c in \<open>auto simp: Cons numeral_2_eq_2 numeral_3_eq_3 eval_nat_numeral\<close>)
qed (simp add: rune_width.simps)

lemma rune_bytes:
  "2 \<le> rune_width s \<Longrightarrow>
   CHR 0x22 \<notin> set (take (rune_width s) s) \<and> CHR 0x5C \<notin> set (take (rune_width s) s)"
  using rune_bytes_high [of s "CHR 0x22"] rune_bytes_high [of s "CHR 0x5C"] by auto

lemma unquote_quote_rune:
  "r = rune_error \<or> (\<exists>b bs. r = take (rune_width (b # bs)) (b # bs) \<and> rune_width (b # bs) \<noteq> 0) \<Longrightarrow>
   unquote (quote_rune r @ t) = map_option (\<lambda>p. (r @ fst p, snd p)) (unquote t)"
proof (elim disjE exE conjE)
  assume "r = rune_error"
  then show ?thesis
    by (simp add: rune_error_def quote_rune_def option.map_comp comp_def)
next
  fix b bs
  assume r: "r = take (rune_width (b # bs)) (b # bs)" and w: "rune_width (b # bs) \<noteq> 0"
  show ?thesis
  proof (cases "rune_width (b # bs) = 1")
    case True
    then have "r = [b]" using r by simp
    then show ?thesis by (auto simp: quote_rune_def)
  next
    case False
    with w have w2: "2 \<le> rune_width (b # bs)" by linarith
    have "length r = rune_width (b # bs)"
      using r rune_width_le [of "b # bs"] by simp
    with w2 have "quote_rune r = r" by (simp add: quote_rune_long)
    with rune_bytes [OF w2] r show ?thesis by (simp add: unquote_plain)
  qed
qed

lemma unquote_runes:
  "unquote (concat (map quote_rune (runes s)) @ CHR 0x22 # rest) = Some (concat (runes s), rest)"
proof (induction s rule: runes.induct)
  case 1
  then show ?case by simp
next
  case (2 b bs)
  define w where "w = rune_width (b # bs)"
  show ?case
  proof (cases "w = 0")
    case True
    then have "runes (b # bs) = rune_error # runes bs" by (simp add: w_def runes_bad)
    with "2.IH"(1) [OF w_def True] unquote_quote_rune [of rune_error] show ?thesis by simp
  next
    case False
    then have e: "runes (b # bs) = take w (b # bs) # runes (drop w (b # bs))"
      by (simp add: w_def runes_good)
    have "unquote (quote_rune (take w (b # bs)) @ t)
        = map_option (\<lambda>p. (take w (b # bs) @ fst p, snd p)) (unquote t)" for t
      by (rule unquote_quote_rune) (use False w_def in blast)
    with "2.IH"(2) [OF w_def False] show ?thesis by (simp add: e)
  qed
qed


text \<open>The hand-written quoting reads back: a reader that undoes the five escapes and stops at
  the closing quote gets the text with every invalid byte replaced by the replacement character,
  and continues right after the quote; valid UTF-8 comes back unchanged.\<close>

theorem quoteJSON_reads_back:
  "hd (quoteJSON s) = CHR 0x22
   \<and> unquote (tl (quoteJSON s) @ rest) = Some (concat (runes s), rest)
   \<and> (valid_utf8 s = (unquote (tl (quoteJSON s) @ rest) = Some (s, rest)))"
  using unquote_runes [of s rest] by (simp add: quoteJSON_def valid_utf8_def)

end
