(* ===== verification/Lua_Value.thy ===== *)
theory Lua_Value
  imports Complex_Main Go_Text
begin

text \<open>
  The Lua values the Go code handles and the part of the interpreter's store it touches
  directly: globals, tables with their array and string parts, raw reads and writes, and the
  conversions between JSON-decoded Go values and Lua values
  (\<^verbatim>\<open>internal/common/convert.go\<close>, \<^verbatim>\<open>toLuaValue\<close> of
  \<^verbatim>\<open>internal/session/session.go\<close> and \<^verbatim>\<open>internal/server/graphql.go\<close>,
  \<^verbatim>\<open>toLuaTable\<close> of \<^verbatim>\<open>internal/server/server.go\<close>).
  Tables are shared mutable objects, so a table value is an address into an explicit heap.
  Running Lua code is not modelled here: it is a parameter of the components that resume
  coroutines.
\<close>

section \<open>Numbers\<close>

text \<open>
  A \<^verbatim>\<open>float64\<close> is a finite value or one of the special values. Finite values are
  rationals; the only arithmetic the modelled code does on them is truncation and the conversion
  of an integer, which is exact up to \<open>2 ^ 53\<close> and rounds half to even beyond.
\<close>

datatype go_float = Fin rat | NaN | PInf | NInf

definition float_zero :: go_float where "float_zero = Fin 0"

definition trunc_rat :: "rat \<Rightarrow> int" where
  "trunc_rat q = (if q < 0 then - floor (- q) else floor q)"

text \<open>
  Go's \<^verbatim>\<open>int(f)\<close>: truncation towards zero; the value is implementation specific when it does
  not fit, the smallest \<^verbatim>\<open>int64\<close> on amd64.
\<close>

definition go_int :: "go_float \<Rightarrow> int" where
  "go_int f = (case f of
      Fin q \<Rightarrow> (if in_int64 (trunc_rat q) then trunc_rat q else min_int64)
    | _ \<Rightarrow> min_int64)"

fun bit_len :: "nat \<Rightarrow> nat" where
  "bit_len n = (if n = 0 then 0 else Suc (bit_len (n div 2)))"

declare bit_len.simps [simp del]

lemma bit_len_0 [simp]: "bit_len 0 = 0"
  by (simp add: bit_len.simps)

lemma bit_len_1 [simp]: "bit_len (Suc 0) = Suc 0"
  by (subst bit_len.simps) simp

definition round_half_even :: "nat \<Rightarrow> nat \<Rightarrow> nat" where
  "round_half_even a m =
     (let q = a div m; r = a mod m
      in (if m < 2 * r \<or> (2 * r = m \<and> odd q) then q + 1 else q) * m)"

definition float_of_int :: "int \<Rightarrow> go_float" where
  "float_of_int n =
     (let a = nat \<bar>n\<bar>
      in if a \<le> 2 ^ 53 then Fin (of_int n)
         else Fin (of_int (sgn n * int (round_half_even a (2 ^ (bit_len a - 53))))))"

text \<open>
  Rounding a non-negative rational to the nearest \<^verbatim>\<open>float64\<close> of normal range: the
  quotient is scaled to 53 significant bits and rounded half to even.
\<close>

definition pow2 :: "int \<Rightarrow> rat" where
  "pow2 e = (if 0 \<le> e then 2 ^ nat e else 1 / 2 ^ nat (- e))"

definition round_rat_even :: "rat \<Rightarrow> int" where
  "round_rat_even q =
     (let f = floor q; d = q - of_int f
      in if 1 / 2 < d \<or> (d = 1 / 2 \<and> odd f) then f + 1 else f)"

definition round64 :: "rat \<Rightarrow> rat" where
  "round64 q =
     (if q \<le> 0 then 0
      else let (n, d) = quotient_of q;
               e0 = int (bit_len (nat n)) - int (bit_len (nat d)) - 53;
               e = (if q / pow2 e0 < 2 ^ 53 then e0 else e0 + 1)
           in of_int (round_rat_even (q / pow2 e)) * pow2 e)"

lemma round_rat_even_of_int [simp]: "round_rat_even (of_int n) = n"
  by (simp add: round_rat_even_def Let_def)

lemma pow2_pos [simp]: "0 < pow2 e"
  by (simp add: pow2_def)

lemma bit_len_bounds: "n \<noteq> 0 \<Longrightarrow> 0 < bit_len n \<and> 2 ^ (bit_len n - 1) \<le> n \<and> n < 2 ^ bit_len n"
proof (induction n rule: bit_len.induct)
  case (1 n)
  show ?case
  proof (cases "n div 2 = 0")
    case True
    with "1.prems" have "n = 1" by auto
    then show ?thesis by simp
  next
    case False
    from "1.IH" [OF "1.prems" False] have
      IH: "0 < bit_len (n div 2)" "2 ^ (bit_len (n div 2) - 1) \<le> n div 2" "n div 2 < 2 ^ bit_len (n div 2)"
      by auto
    have e: "bit_len n = Suc (bit_len (n div 2))"
      using "1.prems" by (simp add: bit_len.simps [of n])
    have "2 ^ bit_len (n div 2) = 2 * (2 :: nat) ^ (bit_len (n div 2) - 1)"
      using IH(1) by (simp flip: power_Suc)
    with IH(2) have "2 ^ bit_len (n div 2) \<le> n" by linarith
    moreover have "n < 2 ^ Suc (bit_len (n div 2))" using IH(3) by simp
    ultimately show ?thesis by (simp add: e)
  qed
qed

lemma round64_of_nat: "n \<le> 2 ^ 53 \<Longrightarrow> round64 (of_nat n) = of_nat n"
proof (cases "n = 0")
  case False
  assume n: "n \<le> 2 ^ 53"
  define a where "a = bit_len n"
  define e0 where "e0 = int a - 54"
  have b1: "bit_len 1 = 1" by simp
  have q: "quotient_of (of_nat n) = (int n, 1)"
    using quotient_of_int [of "int n"] by simp
  have b: "0 < a" "2 ^ (a - 1) \<le> n" "n < 2 ^ a"
    using bit_len_bounds [OF False] by (simp_all add: a_def)
  have "(2 :: nat) ^ (a - 1) \<le> 2 ^ 53" using b(2) n by (rule order_trans)
  then have "a - 1 \<le> 53" by (rule power_le_imp_le_exp [rotated]) simp
  then have a54: "a \<le> 54" using b(1) by linarith
  have "(of_nat n :: rat) / pow2 e0 = of_nat (n * 2 ^ (54 - a))"
    using a54 by (auto simp: pow2_def e0_def nat_diff_distrib of_nat_diff)
  moreover have "2 ^ 53 \<le> n * 2 ^ (54 - a)"
  proof -
    have "(2 :: nat) ^ 53 = 2 ^ (a - 1) * 2 ^ (54 - a)"
      using a54 b(1) by (simp flip: power_add)
    also have "\<dots> \<le> n * 2 ^ (54 - a)" using b(2) by (rule mult_right_mono) simp
    finally show ?thesis .
  qed
  ultimately have ge: "\<not> (of_nat n :: rat) / pow2 e0 < 2 ^ 53"
    by (metis not_less of_nat_le_iff of_nat_numeral of_nat_power)
  have "\<exists>k :: int. (of_nat n :: rat) / pow2 (e0 + 1) = of_int k"
  proof (cases "a = 54")
    case True
    then have "n = 2 ^ 53" using b(2) n by (auto intro: antisym)
    then have "(of_nat n :: rat) / pow2 (e0 + 1) = of_int (2 ^ 52)"
      using True by (simp add: pow2_def e0_def)
    then show ?thesis by blast
  next
    case False
    then have "(of_nat n :: rat) / pow2 (e0 + 1) = of_int (int (n * 2 ^ (53 - a)))"
      using a54 by (auto simp: pow2_def e0_def nat_diff_distrib of_nat_diff)
    then show ?thesis by blast
  qed
  then obtain k :: int where k: "(of_nat n :: rat) / pow2 (e0 + 1) = of_int k" by blast
  have "round64 (of_nat n) = of_int (round_rat_even (of_nat n / pow2 (e0 + 1))) * pow2 (e0 + 1)"
    using False ge q by (simp add: round64_def e0_def a_def b1 Let_def)
  also have "\<dots> = of_nat n / pow2 (e0 + 1) * pow2 (e0 + 1)" by (simp add: k)
  finally show ?thesis by (simp add: less_imp_neq [symmetric])
qed (simp add: round64_def)

lemma trunc_rat_of_int [simp]: "trunc_rat (of_int n) = n"
  by (simp add: trunc_rat_def flip: of_int_minus)

lemma go_int_float_of_int:
  "\<bar>n\<bar> \<le> 2 ^ 53 \<Longrightarrow> go_int (float_of_int n) = n"
proof -
  assume "\<bar>n\<bar> \<le> 2 ^ 53"
  then have "nat \<bar>n\<bar> \<le> 2 ^ 53" and "in_int64 n"
    by (auto simp: in_int64_def min_int64_def max_int64_def)
  then show ?thesis by (simp add: float_of_int_def go_int_def Let_def)
qed

section \<open>Values and the store\<close>

datatype lua_value =
    LNil
  | LBool bool
  | LNumber go_float
  | LString string
  | LTable nat
  | LFunction nat

record lua_table =
  arr :: "lua_value list"
  strs :: "(string \<times> lua_value) list"
  others :: "(lua_value \<times> lua_value) list"

definition empty_table :: lua_table where
  "empty_table = \<lparr>arr = [], strs = [], others = []\<rparr>"

record lua_state =
  globals :: "(string \<times> lua_value) list"
  heap :: "(nat \<times> lua_table) list"
  next_addr :: nat

definition table_at :: "lua_state \<Rightarrow> nat \<Rightarrow> lua_table" where
  "table_at L a = (case map_of (heap L) a of None \<Rightarrow> empty_table | Some t \<Rightarrow> t)"

definition set_table :: "lua_state \<Rightarrow> nat \<Rightarrow> lua_table \<Rightarrow> lua_state" where
  "set_table L a t = L\<lparr>heap := AList.update a t (heap L)\<rparr>"

definition NewTable :: "lua_state \<Rightarrow> lua_state \<times> nat" where
  "NewTable L = (L\<lparr>heap := AList.update (next_addr L) empty_table (heap L),
                   next_addr := Suc (next_addr L)\<rparr>, next_addr L)"

definition GetGlobal :: "lua_state \<Rightarrow> string \<Rightarrow> lua_value" where
  "GetGlobal L name = (case map_of (globals L) name of None \<Rightarrow> LNil | Some v \<Rightarrow> v)"

definition SetGlobal :: "string \<Rightarrow> lua_value \<Rightarrow> lua_state \<Rightarrow> lua_state" where
  "SetGlobal name v L = L\<lparr>globals := AList.update name v (globals L)\<rparr>"

definition RawGetString :: "lua_state \<Rightarrow> nat \<Rightarrow> string \<Rightarrow> lua_value" where
  "RawGetString L a k =
     (case map_of (strs (table_at L a)) k of None \<Rightarrow> LNil | Some v \<Rightarrow> v)"

definition RawSetString :: "nat \<Rightarrow> string \<Rightarrow> lua_value \<Rightarrow> lua_state \<Rightarrow> lua_state" where
  "RawSetString a k v L =
     (let t = table_at L a
      in set_table L a
           (t\<lparr>strs := (if v = LNil then AList.delete k (strs t)
                       else AList.update k v (strs t))\<rparr>))"

text \<open>\<^verbatim>\<open>RawSetInt\<close> at a positive index: the array part grows with nils up to the index.\<close>

definition RawSetInt :: "nat \<Rightarrow> nat \<Rightarrow> lua_value \<Rightarrow> lua_state \<Rightarrow> lua_state" where
  "RawSetInt a i v L =
     (let t = table_at L a; n = length (arr t)
      in if i = 0 then set_table L a
             (t\<lparr>others := AList.update (LNumber (Fin 0)) v (others t)\<rparr>)
         else if i \<le> n then set_table L a (t\<lparr>arr := (arr t)[i - 1 := v]\<rparr>)
         else set_table L a (t\<lparr>arr := arr t @ replicate (i - 1 - n) LNil @ [v]\<rparr>))"

text \<open>\<^verbatim>\<open>ForEach\<close> visits the array part, then the string part, then the rest, skipping nils.\<close>

definition enum_arr :: "lua_value list \<Rightarrow> (lua_value \<times> lua_value) list" where
  "enum_arr vs = zip (map (\<lambda>i. LNumber (float_of_int (int i))) [1..<Suc (length vs)]) vs"

definition for_each :: "lua_state \<Rightarrow> nat \<Rightarrow> (lua_value \<times> lua_value) list" where
  "for_each L a =
     (let t = table_at L a
      in filter (\<lambda>kv. snd kv \<noteq> LNil)
           (enum_arr (arr t) @ map (\<lambda>(k, v). (LString k, v)) (strs t) @ others t))"

lemma table_at_set_table [simp]:
  "table_at (set_table L a t) b = (if b = a then t else table_at L b)"
  by (simp add: table_at_def set_table_def)

lemma GetGlobal_set_table [simp]: "GetGlobal (set_table L a t) g = GetGlobal L g"
  by (simp add: GetGlobal_def set_table_def)

lemma RawGet_RawSet [simp]:
  "RawGetString (RawSetString a k v L) b k' =
     (if b = a \<and> k' = k then v else RawGetString L b k')"
  by (auto simp: RawGetString_def RawSetString_def Let_def)

lemma GetGlobal_RawSetString [simp]: "GetGlobal (RawSetString a k v L) g = GetGlobal L g"
  by (simp add: RawSetString_def Let_def)

lemma GetGlobal_RawSetInt [simp]: "GetGlobal (RawSetInt a i v L) g = GetGlobal L g"
  by (simp add: RawSetInt_def Let_def)

lemma GetGlobal_NewTable [simp]: "GetGlobal (fst (NewTable L)) g = GetGlobal L g"
  by (simp add: NewTable_def GetGlobal_def)

lemma RawGetString_RawSetInt [simp]: "RawGetString (RawSetInt a i v L) b k = RawGetString L b k"
  by (auto simp: RawGetString_def RawSetInt_def Let_def)

definition heap_ok :: "lua_state \<Rightarrow> bool" where
  "heap_ok L \<longleftrightarrow> (\<forall>a\<in>dom (map_of (heap L)). a < next_addr L)"

lemma NewTable_fresh: "heap_ok L \<Longrightarrow> map_of (heap L) (snd (NewTable L)) = None"
  by (force simp: heap_ok_def NewTable_def)

lemma RawGetString_NewTable:
  "heap_ok L \<Longrightarrow> RawGetString (fst (NewTable L)) b k = RawGetString L b k"
proof -
  assume "heap_ok L"
  then have "map_of (heap L) (next_addr L) = None"
    using NewTable_fresh [of L] by (simp add: NewTable_def)
  then show ?thesis
    by (auto simp: RawGetString_def NewTable_def table_at_def empty_table_def)
qed

section \<open>Reading a value as text or number\<close>

text \<open>
  The interpreter's number parser and its printing of anything but strings and booleans are
  parameters: \<open>parse\<close> and \<open>show_other\<close>.
\<close>

fun lv_string :: "(lua_value \<Rightarrow> string) \<Rightarrow> lua_value \<Rightarrow> string" where
  "lv_string show_other (LString s) = s"
| "lv_string show_other (LBool b) = (if b then ''true'' else ''false'')"
| "lv_string show_other LNil = ''nil''"
| "lv_string show_other v = show_other v"

fun LVAsString :: "(lua_value \<Rightarrow> string) \<Rightarrow> lua_value \<Rightarrow> string" where
  "LVAsString show_other (LString s) = s"
| "LVAsString show_other (LNumber n) = show_other (LNumber n)"
| "LVAsString show_other v = []"

fun LVAsNumber :: "(string \<Rightarrow> go_float option) \<Rightarrow> lua_value \<Rightarrow> go_float" where
  "LVAsNumber parse (LNumber n) = n"
| "LVAsNumber parse (LString s) = (case parse s of None \<Rightarrow> float_zero | Some n \<Rightarrow> n)"
| "LVAsNumber parse v = float_zero"

section \<open>JSON-decoded Go values\<close>

text \<open>
  The dynamic types an \<^verbatim>\<open>interface{}\<close> takes in this code: \<open>GInt\<close> and \<open>GInt64\<close> are
  \<^verbatim>\<open>int\<close> and \<^verbatim>\<open>int64\<close>, \<open>GNumber\<close> a \<^verbatim>\<open>json.Number\<close>, \<open>GNull\<close> one of the
  four \<^verbatim>\<open>sql.Null*\<close> wrappers (absent, or the wrapped scalar), \<open>GSlice\<close> a slice or array
  of any other element type, and \<open>GOther\<close> any other dynamic type, given by its \<^verbatim>\<open>%v\<close> text.
  \<^verbatim>\<open>%v\<close> on the other values is the parameter \<open>show_v\<close>.
\<close>

datatype go_value =
    GNil
  | GBool bool
  | GInt int
  | GInt64 int
  | GFloat go_float
  | GString string
  | GNumber string
  | GList "go_value list"
  | GMap "(string \<times> go_value) list"
  | GNull "go_value option"
  | GSlice "go_value list"
  | GOther string

text \<open>
  \<^verbatim>\<open>GoValueToLua\<close> allocates one table per list or map. A null wrapper holds a scalar, so
  its recursive call is the scalar case.
\<close>

fun GoValueToLua :: "go_value \<Rightarrow> lua_state \<Rightarrow> lua_state \<times> lua_value"
and go_list_to_lua :: "nat \<Rightarrow> nat \<Rightarrow> go_value list \<Rightarrow> lua_state \<Rightarrow> lua_state"
and go_map_to_lua :: "nat \<Rightarrow> (string \<times> go_value) list \<Rightarrow> lua_state \<Rightarrow> lua_state" where
  "GoValueToLua GNil L = (L, LNil)"
| "GoValueToLua (GBool b) L = (L, LBool b)"
| "GoValueToLua (GInt n) L = (L, LNumber (float_of_int n))"
| "GoValueToLua (GInt64 n) L = (L, LNumber (float_of_int n))"
| "GoValueToLua (GFloat f) L = (L, LNumber f)"
| "GoValueToLua (GString s) L = (L, LString s)"
| "GoValueToLua (GNumber s) L = (L, LString s)"
| "GoValueToLua (GList vs) L =
     (let (L1, a) = NewTable L in (go_list_to_lua a 1 vs L1, LTable a))"
| "GoValueToLua (GMap kvs) L =
     (let (L1, a) = NewTable L in (go_map_to_lua a kvs L1, LTable a))"
| "GoValueToLua (GNull None) L = (L, LNil)"
| "GoValueToLua (GNull (Some v)) L = GoValueToLua v L"
| "GoValueToLua (GSlice vs) L =
     (let (L1, a) = NewTable L in (go_list_to_lua a 1 vs L1, LTable a))"
| "GoValueToLua (GOther s) L = (L, LString s)"
| "go_list_to_lua a i [] L = L"
| "go_list_to_lua a i (v # vs) L =
     (let (L1, lv) = GoValueToLua v L in go_list_to_lua a (Suc i) vs (RawSetInt a i lv L1))"
| "go_map_to_lua a [] L = L"
| "go_map_to_lua a (kv # kvs) L =
     (let (L1, lv) = GoValueToLua (snd kv) L
      in go_map_to_lua a kvs (RawSetString a (fst kv) lv L1))"

text \<open>
  The session's \<^verbatim>\<open>toLuaValue\<close> reads a \<^verbatim>\<open>json.Number\<close> as a number and prints what
  it does not know, \<^verbatim>\<open>int64\<close> included; \<open>parse_float\<close> is \<^verbatim>\<open>strconv.ParseFloat\<close>.
\<close>

fun toLuaValue :: "(string \<Rightarrow> go_float option) \<Rightarrow> (go_value \<Rightarrow> string) \<Rightarrow> go_value \<Rightarrow> lua_state \<Rightarrow> lua_state \<times> lua_value"
and to_lua_list ::
  "(string \<Rightarrow> go_float option) \<Rightarrow> (go_value \<Rightarrow> string) \<Rightarrow> nat \<Rightarrow> nat \<Rightarrow> go_value list \<Rightarrow> lua_state \<Rightarrow> lua_state"
and to_lua_map ::
  "(string \<Rightarrow> go_float option) \<Rightarrow> (go_value \<Rightarrow> string) \<Rightarrow> nat \<Rightarrow> (string \<times> go_value) list \<Rightarrow> lua_state \<Rightarrow> lua_state" where
  "toLuaValue pf show_v (GString s) L = (L, LString s)"
| "toLuaValue pf show_v (GInt n) L = (L, LNumber (float_of_int n))"
| "toLuaValue pf show_v (GFloat f) L = (L, LNumber f)"
| "toLuaValue pf show_v (GBool b) L = (L, LBool b)"
| "toLuaValue pf show_v GNil L = (L, LNil)"
| "toLuaValue pf show_v (GMap kvs) L =
     (let (L1, a) = NewTable L in (to_lua_map pf show_v a kvs L1, LTable a))"
| "toLuaValue pf show_v (GList vs) L =
     (let (L1, a) = NewTable L in (to_lua_list pf show_v a 1 vs L1, LTable a))"
| "toLuaValue pf show_v (GNumber s) L =
     (case parse_int64 s of
        Some n \<Rightarrow> (L, LNumber (float_of_int n))
      | None \<Rightarrow> (case pf s of Some f \<Rightarrow> (L, LNumber f) | None \<Rightarrow> (L, LString s)))"
| "toLuaValue pf show_v (GInt64 n) L = (L, LString (show_v (GInt64 n)))"
| "toLuaValue pf show_v (GNull v) L = (L, LString (show_v (GNull v)))"
| "toLuaValue pf show_v (GSlice vs) L = (L, LString (show_v (GSlice vs)))"
| "toLuaValue pf show_v (GOther s) L = (L, LString s)"
| "to_lua_list pf show_v a i [] L = L"
| "to_lua_list pf show_v a i (v # vs) L =
     (let (L1, lv) = toLuaValue pf show_v v L
      in to_lua_list pf show_v a (Suc i) vs (RawSetInt a i lv L1))"
| "to_lua_map pf show_v a [] L = L"
| "to_lua_map pf show_v a (kv # kvs) L =
     (let (L1, lv) = toLuaValue pf show_v (snd kv) L
      in to_lua_map pf show_v a kvs (RawSetString a (fst kv) lv L1))"

text \<open>The server's conversion, written twice (\<^verbatim>\<open>toLuaTable\<close> and \<^verbatim>\<open>toLuaValue\<close>).\<close>

fun toLuaTable :: "(go_value \<Rightarrow> string) \<Rightarrow> go_value \<Rightarrow> lua_state \<Rightarrow> lua_state \<times> lua_value"
and srv_list :: "(go_value \<Rightarrow> string) \<Rightarrow> nat \<Rightarrow> nat \<Rightarrow> go_value list \<Rightarrow> lua_state \<Rightarrow> lua_state"
and srv_map :: "(go_value \<Rightarrow> string) \<Rightarrow> nat \<Rightarrow> (string \<times> go_value) list \<Rightarrow> lua_state \<Rightarrow> lua_state" where
  "toLuaTable show_v (GString s) L = (L, LString s)"
| "toLuaTable show_v (GInt n) L = (L, LNumber (float_of_int n))"
| "toLuaTable show_v (GInt64 n) L = (L, LNumber (float_of_int n))"
| "toLuaTable show_v (GFloat f) L = (L, LNumber f)"
| "toLuaTable show_v (GBool b) L = (L, LBool b)"
| "toLuaTable show_v (GMap kvs) L =
     (let (L1, a) = NewTable L in (srv_map show_v a kvs L1, LTable a))"
| "toLuaTable show_v (GList vs) L =
     (let (L1, a) = NewTable L in (srv_list show_v a 1 vs L1, LTable a))"
| "toLuaTable show_v GNil L = (L, LNil)"
| "toLuaTable show_v (GNumber s) L = (L, LString s)"
| "toLuaTable show_v (GNull v) L = (L, LString (show_v (GNull v)))"
| "toLuaTable show_v (GSlice vs) L = (L, LString (show_v (GSlice vs)))"
| "toLuaTable show_v (GOther s) L = (L, LString s)"
| "srv_list show_v a i [] L = L"
| "srv_list show_v a i (v # vs) L =
     (let (L1, lv) = toLuaTable show_v v L
      in srv_list show_v a (Suc i) vs (RawSetInt a i lv L1))"
| "srv_map show_v a [] L = L"
| "srv_map show_v a (kv # kvs) L =
     (let (L1, lv) = toLuaTable show_v (snd kv) L
      in srv_map show_v a kvs (RawSetString a (fst kv) lv L1))"

text \<open>The three conversions agree on the values a plain JSON decoder yields.\<close>

fun plain :: "go_value \<Rightarrow> bool" where
  "plain (GNull v) = False"
| "plain (GNumber s) = False"
| "plain (GInt64 n) = False"
| "plain (GSlice vs) = False"
| "plain (GList vs) = list_all plain vs"
| "plain (GMap kvs) = list_all (\<lambda>kv. plain (snd kv)) kvs"
| "plain v = True"

lemma toLuaValue_eq_GoValueToLua:
  "plain v \<Longrightarrow> toLuaValue pf show_v v L = GoValueToLua v L"
  "list_all plain vs \<Longrightarrow> to_lua_list pf show_v a i vs L = go_list_to_lua a i vs L"
  "list_all (\<lambda>kv. plain (snd kv)) kvs \<Longrightarrow> to_lua_map pf show_v a kvs L = go_map_to_lua a kvs L"
proof (induction v L and a i vs L and a kvs L
    rule: GoValueToLua_go_list_to_lua_go_map_to_lua.induct)
qed (auto simp: split_beta)

lemma toLuaTable_eq_GoValueToLua:
  "plain v \<Longrightarrow> toLuaTable show_v v L = GoValueToLua v L"
  "list_all plain vs \<Longrightarrow> srv_list show_v a i vs L = go_list_to_lua a i vs L"
  "list_all (\<lambda>kv. plain (snd kv)) kvs \<Longrightarrow> srv_map show_v a kvs L = go_map_to_lua a kvs L"
proof (induction v L and a i vs L and a kvs L
    rule: GoValueToLua_go_list_to_lua_go_map_to_lua.induct)
qed (auto simp: split_beta)

end
