(* ===== verification/Lua_Tree.thy ===== *)
theory Lua_Tree
  imports Lua_Value
begin

text \<open>
  What the conversions of decoded Go values into Lua values build. The converters of
  \<^verbatim>\<open>common/convert.go\<close>, \<^verbatim>\<open>session/session.go\<close>, \<^verbatim>\<open>server/server.go\<close>
  and \<^verbatim>\<open>bindings/json.go\<close> share one contract, the locale \<open>go_to_lua\<close>: a leaf is
  converted without touching the store, a list or map allocates one fresh table and fills it. The
  lemmas of the locale say that nothing existing is touched and that the result represents the
  value. The way back, \<^verbatim>\<open>luaValueToGo\<close> of the session and of the server, is here too.
\<close>

section \<open>Representation\<close>

fun is_leaf :: "go_value \<Rightarrow> bool" where
  "is_leaf (GList vs) = False"
| "is_leaf (GMap kvs) = False"
| "is_leaf (GNull v) = False"
| "is_leaf (GSlice vs) = False"
| "is_leaf v = True"

text \<open>
  \<open>rep leaf L lo v g\<close>: in the store \<open>L\<close> the Lua value \<open>v\<close> represents \<open>g\<close>, all its tables
  have addresses from \<open>lo\<close> on, and inner tables have larger addresses than outer ones.
\<close>

inductive rep :: "(go_value \<Rightarrow> lua_value) \<Rightarrow> lua_state \<Rightarrow> nat \<Rightarrow> lua_value \<Rightarrow> go_value \<Rightarrow> bool"
  for leaf L where
  rep_leaf: "is_leaf g \<Longrightarrow> rep leaf L lo (leaf g) g"
| rep_List: "lo \<le> a \<Longrightarrow> a < next_addr L \<Longrightarrow> table_at L a = \<lparr>arr = vs, strs = [], others = []\<rparr> \<Longrightarrow>
    list_all2 (rep leaf L (Suc a)) vs gs \<Longrightarrow> rep leaf L lo (LTable a) (GList gs)"
| rep_Map: "lo \<le> a \<Longrightarrow> a < next_addr L \<Longrightarrow> table_at L a = \<lparr>arr = [], strs = kvs, others = []\<rparr> \<Longrightarrow>
    list_all2 (\<lambda>kv kg. fst kv = fst kg \<and> rep leaf L (Suc a) (snd kv) (snd kg)) kvs kgs \<Longrightarrow>
    rep leaf L lo (LTable a) (GMap kgs)"

inductive_simps rep_List_iff: "rep leaf L lo v (GList gs)"
inductive_simps rep_Map_iff: "rep leaf L lo v (GMap kgs)"
inductive_cases rep_leafE: "rep leaf L lo v g"

lemma rep_lower: "rep leaf L lo v g \<Longrightarrow> lo' \<le> lo \<Longrightarrow> rep leaf L lo' v g"
  by (erule rep.cases) (auto intro: rep.intros)

lemma rep_frame:
  "rep leaf L lo v g \<Longrightarrow> next_addr L \<le> next_addr L' \<Longrightarrow>
   (\<And>b. lo \<le> b \<Longrightarrow> b < next_addr L \<Longrightarrow> table_at L' b = table_at L b) \<Longrightarrow> rep leaf L' lo v g"
proof (induction rule: rep.induct)
  case (rep_leaf g lo)
  show ?case using rep_leaf.hyps by (rule rep.rep_leaf)
next
  case (rep_List lo a vs gs)
  have "list_all2 (rep leaf L' (Suc a)) vs gs"
    using rep_List.IH by (rule list_all2_mono) (use rep_List.hyps(1) rep_List.prems in auto)
  with rep_List show ?case by (auto intro: rep.rep_List)
next
  case (rep_Map lo a kvs kgs)
  have "list_all2 (\<lambda>kv kg. fst kv = fst kg \<and> rep leaf L' (Suc a) (snd kv) (snd kg)) kvs kgs"
    using rep_Map.IH by (rule list_all2_mono) (use rep_Map.hyps(1) rep_Map.prems in auto)
  with rep_Map show ?case by (auto intro: rep.rep_Map)
qed

text \<open>The trees a conversion represents: no wrapper, distinct keys, no nil inside a container.\<close>

fun shape :: "(go_value \<Rightarrow> lua_value) \<Rightarrow> go_value \<Rightarrow> bool" where
  "shape leaf (GList gs) =
     (list_all (shape leaf) gs \<and> list_all (\<lambda>g. is_leaf g \<longrightarrow> leaf g \<noteq> LNil) gs)"
| "shape leaf (GMap kgs) =
     (distinct (map fst kgs) \<and> list_all (\<lambda>kg. shape leaf (snd kg)) kgs
      \<and> list_all (\<lambda>kg. is_leaf (snd kg) \<longrightarrow> leaf (snd kg) \<noteq> LNil) kgs)"
| "shape leaf (GNull v) = False"
| "shape leaf (GSlice vs) = False"
| "shape leaf g = True"

lemma shape_leaf_or_container:
  "shape leaf g \<Longrightarrow> is_leaf g \<or> (\<exists>gs. g = GList gs) \<or> (\<exists>kgs. g = GMap kgs)"
  by (cases g) auto

lemma rep_not_nil: "rep leaf L lo v g \<Longrightarrow> (is_leaf g \<longrightarrow> leaf g \<noteq> LNil) \<Longrightarrow> v \<noteq> LNil"
  by (induction rule: rep.induct) auto

section \<open>The contract of a conversion\<close>

locale go_to_lua =
  fixes conv :: "go_value \<Rightarrow> lua_state \<Rightarrow> lua_state \<times> lua_value"
    and conv_list :: "nat \<Rightarrow> nat \<Rightarrow> go_value list \<Rightarrow> lua_state \<Rightarrow> lua_state"
    and conv_map :: "nat \<Rightarrow> (string \<times> go_value) list \<Rightarrow> lua_state \<Rightarrow> lua_state"
    and leaf :: "go_value \<Rightarrow> lua_value"
  assumes conv_leaf: "is_leaf g \<Longrightarrow> conv g L = (L, leaf g)"
    and conv_List: "conv (GList gs) L =
      (let (L1, a) = NewTable L in (conv_list a 1 gs L1, LTable a))"
    and conv_Map: "conv (GMap kgs) L =
      (let (L1, a) = NewTable L in (conv_map a kgs L1, LTable a))"
    and conv_list_Nil: "conv_list a i [] L = L"
    and conv_list_Cons: "conv_list a i (g # gs) L =
      (let (L1, v) = conv g L in conv_list a (Suc i) gs (RawSetInt a i v L1))"
    and conv_map_Nil: "conv_map a [] L = L"
    and conv_map_Cons: "conv_map a (kg # kgs) L =
      (let (L1, v) = conv (snd kg) L in conv_map a kgs (RawSetString a (fst kg) v L1))"

text \<open>\<open>grown L L'\<close>: allocation only; the globals and every old table are as before.\<close>

definition grown :: "lua_state \<Rightarrow> lua_state \<Rightarrow> bool" where
  "grown L L' \<longleftrightarrow> heap_ok L' \<and> globals L' = globals L \<and> next_addr L \<le> next_addr L'
     \<and> (\<forall>b < next_addr L. table_at L' b = table_at L b)"

definition grown_but :: "nat \<Rightarrow> lua_state \<Rightarrow> lua_state \<Rightarrow> bool" where
  "grown_but a L L' \<longleftrightarrow> heap_ok L' \<and> globals L' = globals L \<and> next_addr L \<le> next_addr L'
     \<and> (\<forall>b < next_addr L. b \<noteq> a \<longrightarrow> table_at L' b = table_at L b)"

lemma grown_refl: "heap_ok L \<Longrightarrow> grown L L"
  by (simp add: grown_def)

lemma grown_but_refl: "heap_ok L \<Longrightarrow> grown_but a L L"
  by (simp add: grown_but_def)

lemma grown_but_trans: "grown_but a L L1 \<Longrightarrow> grown_but a L1 L2 \<Longrightarrow> grown_but a L L2"
  by (auto simp: grown_but_def)

lemma grown_imp_but: "grown L L' \<Longrightarrow> grown_but a L L'"
  by (simp add: grown_def grown_but_def)

lemma heap_ok_set_table: "heap_ok L \<Longrightarrow> a < next_addr L \<Longrightarrow> heap_ok (set_table L a t)"
  by (auto simp: heap_ok_def set_table_def)

lemma set_table_frame [simp]:
  "next_addr (set_table L a t) = next_addr L" "globals (set_table L a t) = globals L"
  by (simp_all add: set_table_def)

lemma RawSet_frame [simp]:
  "next_addr (RawSetInt a i v L) = next_addr L" "globals (RawSetInt a i v L) = globals L"
  "next_addr (RawSetString a k v L) = next_addr L" "globals (RawSetString a k v L) = globals L"
  by (simp_all add: RawSetInt_def RawSetString_def Let_def)

lemma table_at_RawSet:
  "b \<noteq> a \<Longrightarrow> table_at (RawSetInt a i v L) b = table_at L b"
  "b \<noteq> a \<Longrightarrow> table_at (RawSetString a k v L) b = table_at L b"
  by (simp_all add: RawSetInt_def RawSetString_def Let_def)

lemma heap_ok_RawSet:
  "heap_ok L \<Longrightarrow> a < next_addr L \<Longrightarrow> heap_ok (RawSetInt a i v L)"
  "heap_ok L \<Longrightarrow> a < next_addr L \<Longrightarrow> heap_ok (RawSetString a k v L)"
  by (simp_all add: RawSetInt_def RawSetString_def Let_def heap_ok_set_table)

lemma grown_but_RawSet:
  "heap_ok L \<Longrightarrow> a < next_addr L \<Longrightarrow> grown_but a L (RawSetInt a i v L)"
  "heap_ok L \<Longrightarrow> a < next_addr L \<Longrightarrow> grown_but a L (RawSetString a k v L)"
  by (simp_all add: grown_but_def heap_ok_RawSet table_at_RawSet)

lemma RawSetInt_append:
  "table_at L a = \<lparr>arr = vs, strs = [], others = []\<rparr> \<Longrightarrow>
   table_at (RawSetInt a (Suc (length vs)) v L) a = \<lparr>arr = vs @ [v], strs = [], others = []\<rparr>"
  by (simp add: RawSetInt_def Let_def)

lemma alist_update_new: "k \<notin> fst ` set m \<Longrightarrow> AList.update k v m = m @ [(k, v)]"
  by (induction m) auto

lemma RawSetString_append:
  "table_at L a = \<lparr>arr = [], strs = kvs, others = []\<rparr> \<Longrightarrow> k \<notin> fst ` set kvs \<Longrightarrow> v \<noteq> LNil \<Longrightarrow>
   table_at (RawSetString a k v L) a = \<lparr>arr = [], strs = kvs @ [(k, v)], others = []\<rparr>"
  by (simp add: RawSetString_def Let_def alist_update_new)

lemma NewTable_grown:
  assumes "heap_ok L" and "NewTable L = (L1, a)"
  shows "grown L L1" and "a = next_addr L" and "next_addr L1 = Suc a" and "table_at L1 a = empty_table"
proof -
  have e: "L1 = L\<lparr>heap := AList.update (next_addr L) empty_table (heap L), next_addr := Suc (next_addr L)\<rparr>"
    "a = next_addr L" using assms(2) by (auto simp: NewTable_def)
  show "a = next_addr L" "next_addr L1 = Suc a" "table_at L1 a = empty_table"
    by (simp_all add: e table_at_def)
  have "heap_ok L1" using assms(1) by (auto simp: heap_ok_def e less_SucI)
  then show "grown L L1" by (auto simp: grown_def e table_at_def)
qed

context go_to_lua
begin

definition good :: "go_value \<Rightarrow> bool" where
  "good g \<longleftrightarrow> (\<forall>L. heap_ok L \<longrightarrow> grown L (fst (conv g L))
     \<and> rep leaf (fst (conv g L)) (next_addr L) (snd (conv g L)) g)"

lemma rep_list_frame:
  "list_all2 (rep leaf L (Suc a)) vs gs \<Longrightarrow> grown_but a L L' \<Longrightarrow> list_all2 (rep leaf L' (Suc a)) vs gs"
  by (erule list_all2_mono, erule rep_frame) (auto simp: grown_but_def)

lemma list_good:
  "list_all good gs \<Longrightarrow> heap_ok L \<Longrightarrow> a < next_addr L \<Longrightarrow>
   table_at L a = \<lparr>arr = vs, strs = [], others = []\<rparr> \<Longrightarrow> list_all2 (rep leaf L (Suc a)) vs gs0 \<Longrightarrow>
   \<exists>ws. grown_but a L (conv_list a (Suc (length vs)) gs L)
     \<and> table_at (conv_list a (Suc (length vs)) gs L) a = \<lparr>arr = ws, strs = [], others = []\<rparr>
     \<and> list_all2 (rep leaf (conv_list a (Suc (length vs)) gs L) (Suc a)) ws (gs0 @ gs)"
proof (induction gs arbitrary: L vs gs0)
  case Nil
  then show ?case by (simp add: conv_list_Nil grown_but_refl)
next
  case (Cons g gs)
  obtain L1 v where c: "conv g L = (L1, v)" by (cases "conv g L")
  have g: "grown L L1" and r: "rep leaf L1 (next_addr L) v g"
    using Cons.prems(1,2) by (auto simp: good_def c dest: spec [of _ L])
  have a1: "a < next_addr L1" and h1: "heap_ok L1" using g Cons.prems(3) by (auto simp: grown_def)
  let ?L2 = "RawSetInt a (Suc (length vs)) v L1"
  have t1: "table_at L1 a = \<lparr>arr = vs, strs = [], others = []\<rparr>"
    using g Cons.prems(3,4) by (simp add: grown_def)
  note t2 = RawSetInt_append [OF t1, of v]
  have g2: "grown_but a L1 ?L2" using h1 a1 by (rule grown_but_RawSet)
  have "rep leaf L1 (Suc a) v g" using r by (rule rep_lower) (use Cons.prems(3) in simp)
  then have "list_all2 (rep leaf L1 (Suc a)) (vs @ [v]) (gs0 @ [g])"
    using rep_list_frame [OF Cons.prems(5) grown_imp_but [OF g]] by (simp add: list_all2_appendI)
  then have r2: "list_all2 (rep leaf ?L2 (Suc a)) (vs @ [v]) (gs0 @ [g])"
    using g2 by (rule rep_list_frame)
  have h2: "heap_ok ?L2" and a2: "a < next_addr ?L2" using h1 a1 by (simp_all add: heap_ok_RawSet)
  have gg: "list_all good gs" using Cons.prems(1) by simp
  from Cons.IH [OF gg h2 a2 t2 r2] obtain ws where
    "grown_but a ?L2 (conv_list a (Suc (length (vs @ [v]))) gs ?L2)"
    "table_at (conv_list a (Suc (length (vs @ [v]))) gs ?L2) a = \<lparr>arr = ws, strs = [], others = []\<rparr>"
    "list_all2 (rep leaf (conv_list a (Suc (length (vs @ [v]))) gs ?L2) (Suc a)) ws ((gs0 @ [g]) @ gs)"
    by blast
  moreover have "conv_list a (Suc (length vs)) (g # gs) L = conv_list a (Suc (length (vs @ [v]))) gs ?L2"
    by (simp add: conv_list_Cons c)
  ultimately show ?case
    using grown_but_trans [OF grown_but_trans [OF grown_imp_but [OF g] g2]] by auto
qed

lemma map_good:
  "list_all (\<lambda>kg. good (snd kg) \<and> (is_leaf (snd kg) \<longrightarrow> leaf (snd kg) \<noteq> LNil)) kgs \<Longrightarrow>
   heap_ok L \<Longrightarrow> a < next_addr L \<Longrightarrow> table_at L a = \<lparr>arr = [], strs = kvs, others = []\<rparr> \<Longrightarrow>
   list_all2 (\<lambda>kv kg. fst kv = fst kg \<and> rep leaf L (Suc a) (snd kv) (snd kg)) kvs kgs0 \<Longrightarrow>
   distinct (map fst (kgs0 @ kgs)) \<Longrightarrow>
   \<exists>ws. grown_but a L (conv_map a kgs L)
     \<and> table_at (conv_map a kgs L) a = \<lparr>arr = [], strs = ws, others = []\<rparr>
     \<and> list_all2 (\<lambda>kv kg. fst kv = fst kg \<and> rep leaf (conv_map a kgs L) (Suc a) (snd kv) (snd kg))
         ws (kgs0 @ kgs)"
proof (induction kgs arbitrary: L kvs kgs0)
  case Nil
  then show ?case by (simp add: conv_map_Nil grown_but_refl)
next
  case (Cons kg kgs)
  let ?R = "\<lambda>L kv kg. fst kv = fst kg \<and> rep leaf L (Suc a) (snd kv) (snd kg)"
  have fr: "list_all2 (?R L') xs ys" if "list_all2 (?R M) xs ys" "grown_but a M L'" for L' M xs ys
    by (rule list_all2_mono [OF that(1)]) (use that(2) in \<open>auto simp: grown_but_def intro: rep_frame\<close>)
  obtain L1 v where c: "conv (snd kg) L = (L1, v)" by (cases "conv (snd kg) L")
  have g: "grown L L1" and r: "rep leaf L1 (next_addr L) v (snd kg)"
    using Cons.prems(1,2) by (auto simp: good_def c dest: spec [of _ L])
  have nn: "v \<noteq> LNil" using rep_not_nil [OF r] Cons.prems(1) by simp
  have a1: "a < next_addr L1" and h1: "heap_ok L1" using g Cons.prems(3) by (auto simp: grown_def)
  let ?L2 = "RawSetString a (fst kg) v L1"
  have t1: "table_at L1 a = \<lparr>arr = [], strs = kvs, others = []\<rparr>"
    using g Cons.prems(3,4) by (simp add: grown_def)
  have keys: "map fst kvs = map fst kgs0"
    using Cons.prems(5) by (induction rule: list_all2_induct) simp_all
  have "fst kg \<notin> set (map fst kvs)" using Cons.prems(6) by (simp add: keys)
  then have fresh: "fst kg \<notin> fst ` set kvs" by simp
  note t2 = RawSetString_append [OF t1 fresh nn]
  have g2: "grown_but a L1 ?L2" using h1 a1 by (rule grown_but_RawSet)
  have "rep leaf L1 (Suc a) v (snd kg)" using r by (rule rep_lower) (use Cons.prems(3) in simp)
  then have "list_all2 (?R L1) (kvs @ [(fst kg, v)]) (kgs0 @ [kg])"
    using fr [OF Cons.prems(5) grown_imp_but [OF g]] by (simp add: list_all2_appendI)
  then have r2: "list_all2 (?R ?L2) (kvs @ [(fst kg, v)]) (kgs0 @ [kg])" using g2 by (rule fr)
  have h2: "heap_ok ?L2" and a2: "a < next_addr ?L2" using h1 a1 by (simp_all add: heap_ok_RawSet)
  have "list_all (\<lambda>kg. good (snd kg) \<and> (is_leaf (snd kg) \<longrightarrow> leaf (snd kg) \<noteq> LNil)) kgs"
    "distinct (map fst ((kgs0 @ [kg]) @ kgs))" using Cons.prems(1,6) by simp_all
  from Cons.IH [OF this(1) h2 a2 t2 r2 this(2)] obtain ws where
    "grown_but a ?L2 (conv_map a kgs ?L2)"
    "table_at (conv_map a kgs ?L2) a = \<lparr>arr = [], strs = ws, others = []\<rparr>"
    "list_all2 (?R (conv_map a kgs ?L2)) ws ((kgs0 @ [kg]) @ kgs)"
    by blast
  moreover have "conv_map a (kg # kgs) L = conv_map a kgs ?L2" by (simp add: conv_map_Cons c)
  ultimately show ?case
    using grown_but_trans [OF grown_but_trans [OF grown_imp_but [OF g] g2]] by auto
qed

lemma grown_from_new:
  "grown L L1 \<Longrightarrow> a = next_addr L \<Longrightarrow> next_addr L1 = Suc a \<Longrightarrow> grown_but a L1 L' \<Longrightarrow> grown L L'"
  by (auto simp: grown_def grown_but_def)

lemma shape_good: "shape leaf g \<Longrightarrow> good g"
proof (induction g)
  case (GList gs)
  have gs: "list_all good gs" using GList by (auto simp: list_all_iff)
  show ?case unfolding good_def
  proof (intro allI impI)
    fix L assume h: "heap_ok L"
    obtain L1 a where n: "NewTable L = (L1, a)" by (cases "NewTable L")
    note f = NewTable_grown [OF h n]
    have h1: "heap_ok L1" using f(1) by (simp add: grown_def)
    have "a < next_addr L1" "table_at L1 a = \<lparr>arr = [], strs = [], others = []\<rparr>"
      using f by (simp_all add: empty_table_def)
    from list_good [OF gs h1 this, of "[]"] obtain ws where
      w: "grown_but a L1 (conv_list a 1 gs L1)"
      "table_at (conv_list a 1 gs L1) a = \<lparr>arr = ws, strs = [], others = []\<rparr>"
      "list_all2 (rep leaf (conv_list a 1 gs L1) (Suc a)) ws gs" by auto
    have "a < next_addr (conv_list a 1 gs L1)" using w(1) f(3) by (simp add: grown_but_def)
    then have "rep leaf (conv_list a 1 gs L1) (next_addr L) (LTable a) (GList gs)"
      using w f(2) by (intro rep_List) simp_all
    with grown_from_new [OF f(1-3) w(1)]
    show "grown L (fst (conv (GList gs) L))
      \<and> rep leaf (fst (conv (GList gs) L)) (next_addr L) (snd (conv (GList gs) L)) (GList gs)"
      by (simp add: conv_List n)
  qed
next
  case (GMap kgs)
  have kgs: "list_all (\<lambda>kg. good (snd kg) \<and> (is_leaf (snd kg) \<longrightarrow> leaf (snd kg) \<noteq> LNil)) kgs"
    "distinct (map fst ([] @ kgs))"
    using GMap by (auto simp: list_all_iff)
  show ?case unfolding good_def
  proof (intro allI impI)
    fix L assume h: "heap_ok L"
    obtain L1 a where n: "NewTable L = (L1, a)" by (cases "NewTable L")
    note f = NewTable_grown [OF h n]
    have h1: "heap_ok L1" using f(1) by (simp add: grown_def)
    have "a < next_addr L1" "table_at L1 a = \<lparr>arr = [], strs = [], others = []\<rparr>"
      using f by (simp_all add: empty_table_def)
    from map_good [OF kgs(1) h1 this _ kgs(2)] obtain ws where
      w: "grown_but a L1 (conv_map a kgs L1)"
      "table_at (conv_map a kgs L1) a = \<lparr>arr = [], strs = ws, others = []\<rparr>"
      "list_all2 (\<lambda>kv kg. fst kv = fst kg \<and> rep leaf (conv_map a kgs L1) (Suc a) (snd kv) (snd kg)) ws kgs"
      by auto
    have "a < next_addr (conv_map a kgs L1)" using w(1) f(3) by (simp add: grown_but_def)
    then have "rep leaf (conv_map a kgs L1) (next_addr L) (LTable a) (GMap kgs)"
      using w f(2) by (intro rep_Map) simp_all
    with grown_from_new [OF f(1-3) w(1)]
    show "grown L (fst (conv (GMap kgs) L))
      \<and> rep leaf (fst (conv (GMap kgs) L)) (next_addr L) (snd (conv (GMap kgs) L)) (GMap kgs)"
      by (simp add: conv_Map n)
  qed
qed (simp_all add: good_def conv_leaf grown_refl rep_leaf)

lemma conv_grows: "shape leaf g \<Longrightarrow> heap_ok L \<Longrightarrow> grown L (fst (conv g L))"
  using shape_good [of g] by (simp add: good_def)

lemma conv_represents:
  "shape leaf g \<Longrightarrow> heap_ok L \<Longrightarrow> rep leaf (fst (conv g L)) (next_addr L) (snd (conv g L)) g"
  using shape_good [of g] by (simp add: good_def)

end

section \<open>The conversions meet the contract\<close>

definition blank_state :: lua_state where
  "blank_state = \<lparr>globals = [], heap = [], next_addr = 0\<rparr>"

text \<open>What a conversion makes of a leaf, whatever the store.\<close>

abbreviation leaf_of :: "(go_value \<Rightarrow> lua_state \<Rightarrow> lua_state \<times> lua_value) \<Rightarrow> go_value \<Rightarrow> lua_value" where
  "leaf_of conv g \<equiv> snd (conv g blank_state)"

lemma GoValueToLua_leaf: "is_leaf g \<Longrightarrow> GoValueToLua g L = (L, leaf_of GoValueToLua g)"
  by (cases g) simp_all

lemma toLuaValue_leaf: "is_leaf g \<Longrightarrow> toLuaValue pf sv g L = (L, leaf_of (toLuaValue pf sv) g)"
  by (cases g) (simp_all split: option.split)

lemma toLuaTable_leaf: "is_leaf g \<Longrightarrow> toLuaTable sv g L = (L, leaf_of (toLuaTable sv) g)"
  by (cases g) simp_all

interpretation common_conv: go_to_lua GoValueToLua go_list_to_lua go_map_to_lua "leaf_of GoValueToLua"
  by unfold_locales (erule GoValueToLua_leaf | simp)+

interpretation session_conv: go_to_lua "toLuaValue pf sv" "to_lua_list pf sv" "to_lua_map pf sv"
  "leaf_of (toLuaValue pf sv)" for pf sv
  by unfold_locales (erule toLuaValue_leaf | simp)+

interpretation server_conv: go_to_lua "toLuaTable sv" "srv_list sv" "srv_map sv"
  "leaf_of (toLuaTable sv)" for sv
  by unfold_locales (erule toLuaTable_leaf | simp)+

section \<open>Back to Go\<close>

text \<open>
  \<^verbatim>\<open>RawGetInt\<close> and \<^verbatim>\<open>Len\<close> read the array part; a nil beyond the last value does not
  count.
\<close>

definition RawGetInt :: "lua_state \<Rightarrow> nat \<Rightarrow> int \<Rightarrow> lua_value" where
  "RawGetInt L a i =
     (let vs = arr (table_at L a)
      in if 1 \<le> i \<and> i \<le> int (length vs) then vs ! nat (i - 1) else LNil)"

definition table_len :: "lua_state \<Rightarrow> nat \<Rightarrow> nat" where
  "table_len L a = length (dropWhile (\<lambda>v. v = LNil) (rev (arr (table_at L a))))"

definition store_all :: "(string \<times> 'a) list \<Rightarrow> (string \<times> 'a) list" where
  "store_all kvs = fold (\<lambda>kv. AList.update (fst kv) (snd kv)) kvs []"

text \<open>
  \<^verbatim>\<open>luaValueToGo\<close> of the session: a table with a positive length is a list, any other a map.
  A cyclic table recurses for ever in Go; here it exhausts every fuel.
\<close>

fun luaValueToGo :: "(lua_value \<Rightarrow> string) \<Rightarrow> nat \<Rightarrow> lua_state \<Rightarrow> lua_value \<Rightarrow> go_value option" where
  "luaValueToGo show_other 0 L v = None"
| "luaValueToGo show_other (Suc k) L v =
     (case v of
        LNil \<Rightarrow> Some GNil
      | LBool b \<Rightarrow> Some (GBool b)
      | LNumber f \<Rightarrow> Some (GFloat f)
      | LString s \<Rightarrow> Some (GString s)
      | LFunction f \<Rightarrow> Some (GString (lv_string show_other v))
      | LTable a \<Rightarrow>
          (if 0 < table_len L a
           then map_option GList
                  (those (map (\<lambda>i. luaValueToGo show_other k L (RawGetInt L a (int i)))
                     [1..<Suc (table_len L a)]))
           else map_option (\<lambda>kvs. GMap (store_all kvs))
                  (those (map (\<lambda>kv. map_option (Pair (lv_string show_other (fst kv)))
                                 (luaValueToGo show_other k L (snd kv))) (for_each L a)))))"

text \<open>\<^verbatim>\<open>luaTableToMap\<close> of the server: every table becomes a map.\<close>

fun srv_luaValueToGo :: "(lua_value \<Rightarrow> string) \<Rightarrow> nat \<Rightarrow> lua_state \<Rightarrow> lua_value \<Rightarrow> go_value option" where
  "srv_luaValueToGo show_other 0 L v = None"
| "srv_luaValueToGo show_other (Suc k) L v =
     (case v of
        LString s \<Rightarrow> Some (GString s)
      | LNumber f \<Rightarrow> Some (GFloat f)
      | LBool b \<Rightarrow> Some (GBool b)
      | LTable a \<Rightarrow>
          map_option (\<lambda>kvs. GMap (store_all kvs))
            (those (map (\<lambda>kv. map_option (Pair (lv_string show_other (fst kv)))
                           (srv_luaValueToGo show_other k L (snd kv))) (for_each L a)))
      | LNil \<Rightarrow> Some GNil
      | LFunction f \<Rightarrow> Some (GString (lv_string show_other v)))"

text \<open>
  What a round trip returns: numbers become floats, an empty list an empty map, and on the server
  a list the map from its printed indices.
\<close>

fun leaf_back :: "lua_value \<Rightarrow> go_value" where
  "leaf_back (LBool b) = GBool b"
| "leaf_back (LNumber f) = GFloat f"
| "leaf_back (LString s) = GString s"
| "leaf_back v = GNil"

fun echo :: "(go_value \<Rightarrow> lua_value) \<Rightarrow> go_value \<Rightarrow> go_value" where
  "echo leaf (GList gs) = (if gs = [] then GMap [] else GList (map (echo leaf) gs))"
| "echo leaf (GMap kgs) = GMap (map (\<lambda>kg. (fst kg, echo leaf (snd kg))) kgs)"
| "echo leaf g = leaf_back (leaf g)"

fun gdepth :: "go_value \<Rightarrow> nat" where
  "gdepth (GList gs) = Suc (fold max (map gdepth gs) 0)"
| "gdepth (GMap kgs) = Suc (fold max (map (\<lambda>kg. gdepth (snd kg)) kgs) 0)"
| "gdepth g = 0"

lemma fold_max_ge: "(m :: nat) \<le> fold max xs m"
proof (induction xs arbitrary: m)
  case (Cons y ys)
  have "m \<le> max y m" by simp
  also have "\<dots> \<le> fold max ys (max y m)" by (rule Cons.IH)
  finally show ?case by simp
qed simp

lemma fold_max_mem: "x \<in> set xs \<Longrightarrow> (x :: nat) \<le> fold max xs m"
proof (induction xs arbitrary: m)
  case (Cons y ys)
  then show ?case using fold_max_ge [of "max y m" ys] by auto
qed simp

lemma store_all_distinct: "distinct (map fst kvs) \<Longrightarrow> store_all kvs = kvs"
proof -
  have "distinct (map fst (m @ kvs)) \<Longrightarrow> fold (\<lambda>kv. AList.update (fst kv) (snd kv)) kvs m = m @ kvs" for m
    by (induction kvs arbitrary: m) (auto simp: alist_update_new)
  from this [of "[]"] show "distinct (map fst kvs) \<Longrightarrow> store_all kvs = kvs"
    by (simp add: store_all_def)
qed

lemma those_map_Some: "(\<And>x. x \<in> set xs \<Longrightarrow> f x = Some (h x)) \<Longrightarrow> those (map f xs) = Some (map h xs)"
  by (induction xs) auto

lemma those_list_all2: "list_all2 (\<lambda>x y. f x = Some (h y)) xs ys \<Longrightarrow> those (map f xs) = Some (map h ys)"
  by (induction rule: list_all2_induct) auto

lemma table_len_solid:
  "arr (table_at L a) = vs \<Longrightarrow> \<forall>v\<in>set vs. v \<noteq> LNil \<Longrightarrow> table_len L a = length vs"
  by (cases vs rule: rev_cases) (auto simp: table_len_def)

lemma map_RawGetInt:
  "arr (table_at L a) = vs \<Longrightarrow> map (\<lambda>i. f (RawGetInt L a (int i))) [1..<Suc (length vs)] = map f vs"
  by (rule nth_equalityI) (simp_all add: RawGetInt_def nth_append del: upt_Suc)

lemma for_each_strs:
  "table_at L a = \<lparr>arr = [], strs = kvs, others = []\<rparr> \<Longrightarrow> \<forall>kv\<in>set kvs. snd kv \<noteq> LNil \<Longrightarrow>
   for_each L a = map (\<lambda>kv. (LString (fst kv), snd kv)) kvs"
  by (auto simp: for_each_def enum_arr_def Let_def split_beta filter_id_conv)

text \<open>Elements of a represented container are not nil.\<close>

lemma rep_list_solid:
  "list_all2 (rep leaf L lo) vs gs \<Longrightarrow> list_all (\<lambda>g. is_leaf g \<longrightarrow> leaf g \<noteq> LNil) gs \<Longrightarrow> \<forall>v\<in>set vs. v \<noteq> LNil"
  by (induction rule: list_all2_induct) (auto dest: rep_not_nil)

lemma rep_map_solid:
  "list_all2 (\<lambda>kv kg. fst kv = fst kg \<and> rep leaf L lo (snd kv) (snd kg)) kvs kgs \<Longrightarrow>
   list_all (\<lambda>kg. is_leaf (snd kg) \<longrightarrow> leaf (snd kg) \<noteq> LNil) kgs \<Longrightarrow> \<forall>kv\<in>set kvs. snd kv \<noteq> LNil"
  by (induction rule: list_all2_induct) (auto dest: rep_not_nil)

lemma rep_map_keys:
  "list_all2 (\<lambda>kv kg. fst kv = fst kg \<and> P (snd kv) (snd kg)) kvs kgs \<Longrightarrow> map fst kvs = map fst kgs"
  by (induction rule: list_all2_induct) auto

text \<open>A leaf must not be converted to a table: then reading it back is immediate.\<close>

definition flat_leaf :: "(go_value \<Rightarrow> lua_value) \<Rightarrow> bool" where
  "flat_leaf leaf \<longleftrightarrow> (\<forall>g. is_leaf g \<longrightarrow> \<not> (\<exists>a. leaf g = LTable a) \<and> \<not> (\<exists>f. leaf g = LFunction f))"

lemma luaValueToGo_rep:
  "rep leaf L lo v g \<Longrightarrow> shape leaf g \<Longrightarrow> flat_leaf leaf \<Longrightarrow> gdepth g < k \<Longrightarrow>
   luaValueToGo sh k L v = Some (echo leaf g)"
proof (induction arbitrary: k rule: rep.induct)
  case (rep_leaf g lo)
  obtain j where k: "k = Suc j" using rep_leaf.prems(3) by (cases k) auto
  have "\<not> (\<exists>a. leaf g = LTable a)" "\<not> (\<exists>f. leaf g = LFunction f)"
    using rep_leaf by (auto simp: flat_leaf_def)
  moreover have "echo leaf g = leaf_back (leaf g)" using rep_leaf.hyps by (cases g) auto
  ultimately show ?case by (cases "leaf g") (auto simp: k)
next
  case (rep_List lo a vs gs)
  obtain j where k: "k = Suc j" using rep_List.prems(3) by (cases k) auto
  have l2: "list_all2 (rep leaf L (Suc a)) vs gs" using rep_List.IH by (rule list_all2_mono) simp
  have "\<forall>v\<in>set vs. v \<noteq> LNil" using rep_list_solid [OF l2] rep_List.prems(1) by simp
  then have len: "table_len L a = length vs" using rep_List.hyps(3) by (simp add: table_len_solid)
  have dep: "gdepth g < j" if "g \<in> set gs" for g
    using fold_max_mem [of "gdepth g" "map gdepth gs" 0] that rep_List.prems(3) by (simp add: k)
  have "list_all2 (\<lambda>v g. luaValueToGo sh j L v = Some (echo leaf g)) vs gs"
    unfolding list_all2_conv_all_nth
  proof (intro conjI allI impI)
    show "length vs = length gs" using l2 by (rule list_all2_lengthD)
    fix i assume i: "i < length vs"
    then have gi: "gs ! i \<in> set gs" using l2 by (simp add: list_all2_lengthD)
    show "luaValueToGo sh j L (vs ! i) = Some (echo leaf (gs ! i))"
      using list_all2_nthD [OF rep_List.IH i] rep_List.prems(1,2) dep [OF gi] gi
      by (auto simp: list_all_iff)
  qed
  then have th: "those (map (luaValueToGo sh j L) vs) = Some (map (echo leaf) gs)"
    by (rule those_list_all2)
  show ?case
  proof (cases "vs = []")
    case True
    then have "gs = []" "for_each L a = []"
      using l2 rep_List.hyps(3) by (auto simp: for_each_def enum_arr_def)
    then show ?thesis by (simp add: k len True store_all_def)
  next
    case False
    then have "gs \<noteq> []" using l2 by auto
    moreover have "map (\<lambda>i. luaValueToGo sh j L (RawGetInt L a (int i))) [1..<Suc (length vs)]
        = map (luaValueToGo sh j L) vs"
      using rep_List.hyps(3) by (intro map_RawGetInt) simp
    ultimately show ?thesis using False th by (simp add: k len del: upt_Suc)
  qed
next
  case (rep_Map lo a kvs kgs)
  obtain j where k: "k = Suc j" using rep_Map.prems(3) by (cases k) auto
  let ?R = "\<lambda>kv kg. fst kv = fst kg \<and> rep leaf L (Suc a) (snd kv) (snd kg)"
  have l2: "list_all2 ?R kvs kgs" using rep_Map.IH by (rule list_all2_mono) simp
  have "\<forall>kv\<in>set kvs. snd kv \<noteq> LNil" using rep_map_solid [OF l2] rep_Map.prems(1) by simp
  then have fe: "for_each L a = map (\<lambda>kv. (LString (fst kv), snd kv)) kvs"
    using rep_Map.hyps(3) by (intro for_each_strs)
  have len: "table_len L a = 0" using rep_Map.hyps(3) by (simp add: table_len_def)
  have dep: "gdepth (snd kg) < j" if "kg \<in> set kgs" for kg
    using fold_max_mem [of "gdepth (snd kg)" "map (\<lambda>kg. gdepth (snd kg)) kgs" 0] that rep_Map.prems(3)
    by (simp add: k)
  have "list_all2 (\<lambda>kv kg. map_option (Pair (fst kv)) (luaValueToGo sh j L (snd kv))
      = Some (fst kg, echo leaf (snd kg))) kvs kgs"
    unfolding list_all2_conv_all_nth
  proof (intro conjI allI impI)
    show "length kvs = length kgs" using l2 by (rule list_all2_lengthD)
    fix i assume i: "i < length kvs"
    then have gi: "kgs ! i \<in> set kgs" using l2 by (simp add: list_all2_lengthD)
    show "map_option (Pair (fst (kvs ! i))) (luaValueToGo sh j L (snd (kvs ! i)))
        = Some (fst (kgs ! i), echo leaf (snd (kgs ! i)))"
      using list_all2_nthD [OF rep_Map.IH i] rep_Map.prems(1,2) dep [OF gi] gi
      by (auto simp: list_all_iff)
  qed
  then have th: "those (map (\<lambda>kv. map_option (Pair (fst kv)) (luaValueToGo sh j L (snd kv))) kvs)
      = Some (map (\<lambda>kg. (fst kg, echo leaf (snd kg))) kgs)"
    by (rule those_list_all2)
  have "distinct (map fst (map (\<lambda>kg. (fst kg, echo leaf (snd kg))) kgs))"
    using rep_Map.prems(1) by (simp add: comp_def)
  then show ?case using th by (simp add: k len fe comp_def store_all_distinct)
qed

section \<open>Properties\<close>

text \<open>Converting a decoded value only allocates: no global and no existing table changes, and
  the value returned represents the tree with fresh tables, for each of the three converters.\<close>

theorem conversion_only_allocates:
  assumes "heap_ok L"
  shows "(shape (leaf_of GoValueToLua) g \<longrightarrow>
            grown L (fst (GoValueToLua g L))
            \<and> rep (leaf_of GoValueToLua) (fst (GoValueToLua g L)) (next_addr L) (snd (GoValueToLua g L)) g)
       \<and> (shape (leaf_of (toLuaValue pf sv)) g \<longrightarrow>
            grown L (fst (toLuaValue pf sv g L))
            \<and> rep (leaf_of (toLuaValue pf sv)) (fst (toLuaValue pf sv g L)) (next_addr L)
                (snd (toLuaValue pf sv g L)) g)
       \<and> (shape (leaf_of (toLuaTable sv)) g \<longrightarrow>
            grown L (fst (toLuaTable sv g L))
            \<and> rep (leaf_of (toLuaTable sv)) (fst (toLuaTable sv g L)) (next_addr L)
                (snd (toLuaTable sv g L)) g)"
  using common_conv.conv_grows common_conv.conv_represents session_conv.conv_grows
    session_conv.conv_represents server_conv.conv_grows server_conv.conv_represents assms
  by simp

theorem conversion_only_allocates_witness:
  "grown blank_state (fst (GoValueToLua (GMap [(''a'', GList [GInt 1])]) blank_state))"
  using conversion_only_allocates [of blank_state "GMap [(''a'', GList [GInt 1])]"]
  by (simp add: heap_ok_def blank_state_def)

lemma flat_session: "flat_leaf (leaf_of (toLuaValue pf sv))"
  unfolding flat_leaf_def
proof (intro allI impI)
  fix g assume "is_leaf g"
  then show "\<not> (\<exists>a. leaf_of (toLuaValue pf sv) g = LTable a)
      \<and> \<not> (\<exists>f. leaf_of (toLuaValue pf sv) g = LFunction f)"
    by (cases g) (auto split: option.splits)
qed



end
