(* ===== verification/Json_Lua.thy ===== *)
theory Json_Lua
  imports Lua_Tree "HOL-Library.List_Lexorder" "HOL-Library.Char_ord"
begin

text \<open>
  The JSON bindings, \<^verbatim>\<open>internal/bindings/json.go\<close>: writing a Lua value as JSON, reading a
  decoded tree into Lua with \<^verbatim>\<open>K.NULL\<close> for null, and walking a path. The standard
  library's number formatting is the parameter \<open>num\<close> (it fails on NaN and infinities); its string
  escaping is modelled.
\<close>

section \<open>json.Marshal on a string\<close>

definition hex_digit :: "nat \<Rightarrow> char" where
  "hex_digit n = (if n < 10 then digit_char n else char_of (87 + n))"

definition u_escape :: "nat \<Rightarrow> string" where
  "u_escape n = [CHR 0x5C, CHR ''u'', CHR ''0'', CHR ''0'', hex_digit (n div 16), hex_digit (n mod 16)]"

definition json_ascii :: "char \<Rightarrow> string" where
  "json_ascii b =
     (let n = byte_of b in
      if b = CHR 0x22 \<or> b = CHR 0x5C then [CHR 0x5C, b]
      else if n = 8 then [CHR 0x5C, CHR ''b'']
      else if n = 12 then [CHR 0x5C, CHR ''f'']
      else if n = 10 then [CHR 0x5C, CHR ''n'']
      else if n = 13 then [CHR 0x5C, CHR ''r'']
      else if n = 9 then [CHR 0x5C, CHR ''t'']
      else if n < 32 \<or> b = CHR ''<'' \<or> b = CHR ''>'' \<or> b = CHR ''&'' then u_escape n
      else [b])"

function json_chars :: "string \<Rightarrow> string" where
  "json_chars [] = []"
| "json_chars (b # bs) =
     (let w = rune_width (b # bs); r = take w (b # bs)
      in if w = 0 then [CHR 0x5C] @ ''ufffd'' @ json_chars bs
         else (if w = 1 then json_ascii b
               else if r = [CHR 0xE2, CHR 0x80, CHR 0xA8] then [CHR 0x5C] @ ''u2028''
               else if r = [CHR 0xE2, CHR 0x80, CHR 0xA9] then [CHR 0x5C] @ ''u2029''
               else r)
              @ json_chars (drop w (b # bs)))"
  by pat_completeness auto
termination
  by (relation "measure length") auto

definition json_quote :: "string \<Rightarrow> string" where
  "json_quote s = [CHR 0x22] @ json_chars s @ [CHR 0x22]"

section \<open>Writing\<close>

definition isArrayTable :: "lua_state \<Rightarrow> nat \<Rightarrow> bool" where
  "isArrayTable L a =
     (let n = table_len L a in
      if n = 0 then False
      else if list_ex (\<lambda>i. RawGetInt L a (int i) = LNil) [1..<Suc n] then False
      else list_all (\<lambda>kv. case fst kv of
               LNumber f \<Rightarrow> \<not> (go_int f < 1 \<or> int n < go_int f)
             | _ \<Rightarrow> False) (for_each L a))"

definition tableNames :: "(lua_value \<Rightarrow> string) \<Rightarrow> lua_state \<Rightarrow> nat \<Rightarrow> string list" where
  "tableNames show_other L a =
     map (\<lambda>kv. case fst kv of
             LString s \<Rightarrow> s
           | LNumber f \<Rightarrow> itoa (go_int f)
           | k \<Rightarrow> lv_string show_other k) (for_each L a)"

text \<open>The writer stops at the first error; \<open>collect\<close> returns it or all results.\<close>

fun collect :: "('e + 'a) list \<Rightarrow> 'e + 'a list" where
  "collect [] = Inr []"
| "collect (Inl e # rs) = Inl e"
| "collect (Inr x # rs) = (case collect rs of Inl e \<Rightarrow> Inl e | Inr xs \<Rightarrow> Inr (x # xs))"

text \<open>
  \<^verbatim>\<open>writeJSON\<close> refuses a depth beyond 200; the fuel is what is left of it, so that fuel 0 is
  exactly the source's guard. \<open>seen\<close> holds the tables on the current path.
\<close>

definition maxJSONDepth :: nat where "maxJSONDepth = 200"

fun writeJSON ::
  "(go_float \<Rightarrow> string + string) \<Rightarrow> (lua_value \<Rightarrow> string) \<Rightarrow> nat option \<Rightarrow> nat \<Rightarrow> nat list \<Rightarrow>
   lua_state \<Rightarrow> lua_value \<Rightarrow> string + string" where
  "writeJSON num show_other null 0 seen L v = Inl ''nesting too deep''"
| "writeJSON num show_other null (Suc k) seen L v =
     (case v of
        LNil \<Rightarrow> Inr ''null''
      | LBool b \<Rightarrow> Inr (if b then ''true'' else ''false'')
      | LNumber f \<Rightarrow> num f
      | LString s \<Rightarrow> Inr (json_quote s)
      | LTable a \<Rightarrow>
          (if null = Some a then Inr ''null''
           else if a \<in> set seen then Inl ''circular reference''
           else if isArrayTable L a then
             (case collect (map (\<lambda>i. writeJSON num show_other null k (a # seen) L (RawGetInt L a (int i)))
                       [1..<Suc (table_len L a)]) of
                Inl e \<Rightarrow> Inl e
              | Inr ts \<Rightarrow> Inr (''['' @ join_with '','' ts @ '']''))
           else
             (case collect (map (\<lambda>key.
                       case writeJSON num show_other null k (a # seen) L (RawGetString L a key) of
                         Inl e \<Rightarrow> Inl e
                       | Inr t \<Rightarrow> Inr (json_quote key @ '':'' @ t))
                       (sort (tableNames show_other L a))) of
                Inl e \<Rightarrow> Inl e
              | Inr ts \<Rightarrow> Inr (''{'' @ join_with '','' ts @ ''}'')))
      | LFunction f \<Rightarrow> Inl ''cannot encode function as JSON'')"

definition JSONStringifyLua ::
  "(go_float \<Rightarrow> string + string) \<Rightarrow> (lua_value \<Rightarrow> string) \<Rightarrow> lua_state \<Rightarrow> lua_value \<Rightarrow> lua_value \<Rightarrow>
   string + string" where
  "JSONStringifyLua num show_other L v kNULL =
     (let null = (case kNULL of LTable a \<Rightarrow> Some a | _ \<Rightarrow> None)
      in writeJSON num show_other null (Suc maxJSONDepth) [] L v)"

section \<open>Reading\<close>

text \<open>\<^verbatim>\<open>convertJSONGo\<close>: null is the sentinel table, an unexpected dynamic type is nil.\<close>

fun convertJSONGo :: "(string \<Rightarrow> go_float option) \<Rightarrow> nat \<Rightarrow> go_value \<Rightarrow> lua_state \<Rightarrow> lua_state \<times> lua_value"
and json_list :: "(string \<Rightarrow> go_float option) \<Rightarrow> nat \<Rightarrow> nat \<Rightarrow> nat \<Rightarrow> go_value list \<Rightarrow> lua_state \<Rightarrow> lua_state"
and json_map :: "(string \<Rightarrow> go_float option) \<Rightarrow> nat \<Rightarrow> nat \<Rightarrow> (string \<times> go_value) list \<Rightarrow> lua_state \<Rightarrow> lua_state" where
  "convertJSONGo pf null GNil L = (L, LTable null)"
| "convertJSONGo pf null (GMap kvs) L =
     (let (L1, a) = NewTable L in (json_map pf null a kvs L1, LTable a))"
| "convertJSONGo pf null (GList vs) L =
     (let (L1, a) = NewTable L in (json_list pf null a 1 vs L1, LTable a))"
| "convertJSONGo pf null (GNumber s) L =
     (case pf s of Some f \<Rightarrow> (L, LNumber f) | None \<Rightarrow> (L, LString s))"
| "convertJSONGo pf null (GInt n) L = (L, LNumber (float_of_int n))"
| "convertJSONGo pf null (GInt64 n) L = (L, LNumber (float_of_int n))"
| "convertJSONGo pf null (GString s) L = (L, LString s)"
| "convertJSONGo pf null (GBool b) L = (L, LBool b)"
| "convertJSONGo pf null (GFloat f) L = (L, LNil)"
| "convertJSONGo pf null (GNull v) L = (L, LNil)"
| "convertJSONGo pf null (GSlice vs) L = (L, LNil)"
| "convertJSONGo pf null (GOther s) L = (L, LNil)"
| "json_list pf null a i [] L = L"
| "json_list pf null a i (v # vs) L =
     (let (L1, lv) = convertJSONGo pf null v L in json_list pf null a (Suc i) vs (RawSetInt a i lv L1))"
| "json_map pf null a [] L = L"
| "json_map pf null a (kv # kvs) L =
     (let (L1, lv) = convertJSONGo pf null (snd kv) L
      in json_map pf null a kvs (RawSetString a (fst kv) lv L1))"

lemma convertJSONGo_leaf:
  "is_leaf g \<Longrightarrow> convertJSONGo pf null g L = (L, leaf_of (convertJSONGo pf null) g)"
  by (cases g) (simp_all split: option.split)

interpretation json_conv: go_to_lua "convertJSONGo pf null" "json_list pf null" "json_map pf null"
  "leaf_of (convertJSONGo pf null)" for pf null
  by unfold_locales (erule convertJSONGo_leaf | simp)+

section \<open>Paths\<close>

datatype nav_error =
    CannotNavigate string
  | IndexMissing int string
  | KeyMissing string string

definition seg_char :: "char \<Rightarrow> bool" where
  "seg_char c \<longleftrightarrow> c \<noteq> CHR ''.'' \<and> c \<noteq> CHR ''[''"

definition skip_dot :: "string \<Rightarrow> string" where
  "skip_dot r = (case r of c # r' \<Rightarrow> if c = CHR ''.'' then r' else r | [] \<Rightarrow> [])"

lemma length_skip_dot: "length (skip_dot r) \<le> length r"
  by (cases r) (auto simp: skip_dot_def)

definition nav_index :: "lua_state \<Rightarrow> string \<Rightarrow> lua_value \<Rightarrow> string \<Rightarrow> nav_error + lua_value" where
  "nav_index L path p numStr =
     (case parse_int64 (trim_space numStr) of
        None \<Rightarrow> Inl (CannotNavigate path)
      | Some idx \<Rightarrow>
          (case p of
             LTable a \<Rightarrow>
               (let q = RawGetInt L a (wrap64 (idx + 1))
                in if q = LNil then Inl (IndexMissing idx path) else Inr q)
           | _ \<Rightarrow> Inl (CannotNavigate path)))"

definition nav_key :: "lua_state \<Rightarrow> string \<Rightarrow> lua_value \<Rightarrow> string \<Rightarrow> nav_error + lua_value" where
  "nav_key L path p seg =
     (if seg = [] then Inl (CannotNavigate path)
      else (case p of
              LTable a \<Rightarrow>
                (let q = RawGetString L a seg
                 in if q = LNil then Inl (KeyMissing seg path) else Inr q)
            | _ \<Rightarrow> Inl (CannotNavigate path)))"

lemma nav_key_seg: "nav_key L path p (takeWhile seg_char (c # r)) = Inr q \<Longrightarrow> seg_char c"
  by (auto simp: nav_key_def split: if_splits)

lemma nav_bracket_less: "length (skip_dot (tl (dropWhile (\<lambda>d. d \<noteq> CHR '']'') r))) < length (c # r)"
  using length_skip_dot [of "tl (dropWhile (\<lambda>d. d \<noteq> CHR '']'') r)"]
    length_dropWhile_le [of "\<lambda>d. d \<noteq> CHR '']''" r] by simp

lemma nav_seg_less: "seg_char c \<Longrightarrow> length (skip_dot (dropWhile seg_char (c # r))) < length (c # r)"
  using length_skip_dot [of "dropWhile seg_char (c # r)"] length_dropWhile_le [of seg_char r] by simp

function nav_loop :: "lua_state \<Rightarrow> string \<Rightarrow> lua_value \<Rightarrow> string \<Rightarrow> nav_error + lua_value" where
  "nav_loop L path p [] = Inr p"
| "nav_loop L path p (c # r) =
     (if c = CHR ''['' then
        (if CHR '']'' \<notin> set r then Inl (CannotNavigate path)
         else (case nav_index L path p (takeWhile (\<lambda>d. d \<noteq> CHR '']'') r) of
                 Inl e \<Rightarrow> Inl e
               | Inr q \<Rightarrow> nav_loop L path q (skip_dot (tl (dropWhile (\<lambda>d. d \<noteq> CHR '']'') r)))))
      else
        (case nav_key L path p (takeWhile seg_char (c # r)) of
           Inl e \<Rightarrow> Inl e
         | Inr q \<Rightarrow> nav_loop L path q (skip_dot (dropWhile seg_char (c # r)))))"
  by pat_completeness simp_all
termination
  by (relation "measure (\<lambda>(L, path, p, r). length r)")
    (simp_all only: in_measure prod.case wf_measure nav_bracket_less nav_seg_less [OF nav_key_seg])

definition navigateJSON :: "lua_state \<Rightarrow> lua_value \<Rightarrow> string \<Rightarrow> nav_error + lua_value" where
  "navigateJSON L start path = (if path = [] then Inr start else nav_loop L path start path)"

section \<open>The reference text of a tree\<close>

text \<open>
  The text of a scalar, and of a tree: objects by key, and an empty list as an empty object,
  because an empty Lua table has no array part to tell them apart.
\<close>

definition scalar_text :: "(go_float \<Rightarrow> string + string) \<Rightarrow> lua_value \<Rightarrow> string + string" where
  "scalar_text num v =
     (case v of
        LBool b \<Rightarrow> Inr (if b then ''true'' else ''false'')
      | LNumber f \<Rightarrow> num f
      | LString s \<Rightarrow> Inr (json_quote s)
      | LFunction f \<Rightarrow> Inl ''cannot encode function as JSON''
      | _ \<Rightarrow> Inr ''null'')"

definition leaf_text :: "(go_float \<Rightarrow> string + string) \<Rightarrow> lua_value \<Rightarrow> string" where
  "leaf_text num v = (case scalar_text num v of Inl e \<Rightarrow> [] | Inr t \<Rightarrow> t)"

fun json_text :: "(go_float \<Rightarrow> string + string) \<Rightarrow> (go_value \<Rightarrow> lua_value) \<Rightarrow> go_value \<Rightarrow> string" where
  "json_text num leaf (GList gs) =
     (if gs = [] then ''{}'' else ''['' @ join_with '','' (map (json_text num leaf) gs) @ '']'')"
| "json_text num leaf (GMap kgs) =
     ''{'' @ join_with '','' (map (\<lambda>kt. json_quote (fst kt) @ '':'' @ snd kt)
               (sort_key fst (map (\<lambda>kg. (fst kg, json_text num leaf (snd kg))) kgs))) @ ''}''"
| "json_text num leaf g = leaf_text num (leaf g)"

text \<open>Every scalar has a text, and indices stay within the exact integers of a float.\<close>

fun printable :: "(go_float \<Rightarrow> string + string) \<Rightarrow> (go_value \<Rightarrow> lua_value) \<Rightarrow> go_value \<Rightarrow> bool" where
  "printable num leaf (GList gs) = (list_all (printable num leaf) gs \<and> length gs \<le> 2 ^ 53)"
| "printable num leaf (GMap kgs) = list_all (\<lambda>kg. printable num leaf (snd kg)) kgs"
| "printable num leaf g = (\<exists>t. scalar_text num (leaf g) = Inr t)"

lemma collect_map_Inr: "(\<And>x. x \<in> set xs \<Longrightarrow> f x = Inr (h x)) \<Longrightarrow> collect (map f xs) = Inr (map h xs)"
  by (induction xs) auto

lemma collect_list_all2: "list_all2 (\<lambda>x y. f x = Inr (h y)) xs ys \<Longrightarrow> collect (map f xs) = Inr (map h ys)"
  by (induction rule: list_all2_induct) auto

text \<open>Sorting keys and then looking the values up is sorting the pairs.\<close>

lemma sorted_pairs:
  assumes "distinct (map fst kts)" and "\<And>k t. (k, t) \<in> set kts \<Longrightarrow> f k = g (k, t)"
  shows "map f (sort (map fst kts)) = map g (sort_key fst kts)"
proof -
  have "sort (map fst kts) = map fst (sort_key fst kts)"
    using assms(1) by (intro sorted_distinct_set_unique) (simp_all add: distinct_sort distinct_map)
  then have "map f (sort (map fst kts)) = map (\<lambda>kt. f (fst kt)) (sort_key fst kts)" by (simp add: comp_def)
  also have "\<dots> = map g (sort_key fst kts)"
    using assms(2) by (intro map_cong) auto
  finally show ?thesis .
qed

text \<open>The array test on a represented list and on a represented map.\<close>

lemma isArrayTable_list:
  assumes t: "table_at L a = \<lparr>arr = vs, strs = [], others = []\<rparr>" and s: "\<forall>v\<in>set vs. v \<noteq> LNil"
    and n: "length vs \<le> 2 ^ 53"
  shows "isArrayTable L a \<longleftrightarrow> vs \<noteq> []"
proof (cases "vs = []")
  case True
  then show ?thesis using t by (simp add: isArrayTable_def table_len_def)
next
  case False
  have len: "table_len L a = length vs" using t s by (simp add: table_len_solid)
  have get: "RawGetInt L a (int i) \<noteq> LNil" if "i \<in> set [1..<Suc (length vs)]" for i
    using that t s by (auto simp: RawGetInt_def Let_def)
  have keys: "\<exists>i. fst kv = LNumber (float_of_int (int i)) \<and> 1 \<le> i \<and> i \<le> length vs"
    if kv: "kv \<in> set (for_each L a)" for kv
  proof -
    obtain n where n: "n < length vs" "fst kv = LNumber (float_of_int (int (Suc n)))"
      using kv t by (auto simp: for_each_def enum_arr_def Let_def in_set_zip simp del: upt_Suc)
    then show ?thesis by (intro exI [of _ "Suc n"]) simp
  qed
  have "go_int (float_of_int (int i)) = int i" if "i \<le> length vs" for i
    using that n by (intro go_int_float_of_int) simp
  with keys have "list_all (\<lambda>kv. case fst kv of
      LNumber f \<Rightarrow> \<not> (go_int f < 1 \<or> int (length vs) < go_int f) | _ \<Rightarrow> False) (for_each L a)"
    by (fastforce simp: list_all_iff)
  moreover have "\<not> list_ex (\<lambda>i. RawGetInt L a (int i) = LNil) [1..<Suc (length vs)]"
    using get by (auto simp: list_ex_iff simp del: upt_Suc)
  ultimately show ?thesis using False by (simp add: isArrayTable_def len del: upt_Suc)
qed

lemma isArrayTable_map:
  "table_at L a = \<lparr>arr = [], strs = kvs, others = []\<rparr> \<Longrightarrow> \<not> isArrayTable L a"
  by (simp add: isArrayTable_def table_len_def)

lemma RawGetString_map:
  "table_at L a = \<lparr>arr = [], strs = kvs, others = []\<rparr> \<Longrightarrow> distinct (map fst kvs) \<Longrightarrow>
   (k, v) \<in> set kvs \<Longrightarrow> RawGetString L a k = v"
  by (simp add: RawGetString_def)

text \<open>A conversion may map null leaves to the sentinel table only.\<close>

definition null_leaf :: "(go_value \<Rightarrow> lua_value) \<Rightarrow> nat option \<Rightarrow> bool" where
  "null_leaf leaf null \<longleftrightarrow> (\<forall>g a. is_leaf g \<and> leaf g = LTable a \<longrightarrow> null = Some a)"

lemma writeJSON_leaf:
  "is_leaf g \<Longrightarrow> null_leaf leaf null \<Longrightarrow> printable num leaf g \<Longrightarrow>
   writeJSON num sh null (Suc k) seen L (leaf g) = Inr (json_text num leaf g)"
proof -
  assume l: "is_leaf g" and n: "null_leaf leaf null" and p: "printable num leaf g"
  obtain t where t: "scalar_text num (leaf g) = Inr t" using l p by (cases g) auto
  have "json_text num leaf g = leaf_text num (leaf g)" using l by (cases g) auto
  then have "json_text num leaf g = t" by (simp add: leaf_text_def t)
  then show ?thesis using t n l by (cases "leaf g") (auto simp: scalar_text_def null_leaf_def)
qed

lemma writeJSON_rep:
  "rep leaf L lo v g \<Longrightarrow> shape leaf g \<Longrightarrow> printable num leaf g \<Longrightarrow> null_leaf leaf null \<Longrightarrow>
   (\<And>s. s \<in> set seen \<Longrightarrow> s < lo) \<Longrightarrow> (\<And>b. null = Some b \<Longrightarrow> b < lo) \<Longrightarrow> gdepth g < k \<Longrightarrow>
   writeJSON num sh null k seen L v = Inr (json_text num leaf g)"
proof (induction arbitrary: k seen rule: rep.induct)
  case (rep_leaf g lo)
  obtain j where k: "k = Suc j" using rep_leaf.prems(6) by (cases k) auto
  show ?case unfolding k using rep_leaf.hyps rep_leaf.prems(3,2) by (rule writeJSON_leaf)
next
  case (rep_List lo a vs gs)
  obtain j where k: "k = Suc j" using rep_List.prems(6) by (cases k) auto
  have l2: "list_all2 (rep leaf L (Suc a)) vs gs" using rep_List.IH by (rule list_all2_mono) simp
  have solid: "\<forall>v\<in>set vs. v \<noteq> LNil" using rep_list_solid [OF l2] rep_List.prems(1) by simp
  have len: "table_len L a = length vs" using rep_List.hyps(3) solid by (simp add: table_len_solid)
  have lv: "length vs = length gs" using l2 by (rule list_all2_lengthD)
  have isarr: "isArrayTable L a \<longleftrightarrow> vs \<noteq> []"
    using rep_List.hyps(3) solid rep_List.prems(2) by (intro isArrayTable_list) (simp_all add: lv)
  have na: "null \<noteq> Some a" "a \<notin> set seen"
    using rep_List.prems(4,5) rep_List.hyps(1) by force+
  have dep: "gdepth g < j" if "g \<in> set gs" for g
    using fold_max_mem [of "gdepth g" "map gdepth gs" 0] that rep_List.prems(6) by (simp add: k)
  have seen': "s < Suc a" if "s \<in> set (a # seen)" for s
    using that rep_List.prems(4) rep_List.hyps(1) by force
  have null': "b < Suc a" if "null = Some b" for b
    using rep_List.prems(5) [OF that] rep_List.hyps(1) by simp
  have "list_all2 (\<lambda>v g. writeJSON num sh null j (a # seen) L v = Inr (json_text num leaf g)) vs gs"
    unfolding list_all2_conv_all_nth
  proof (intro conjI allI impI)
    fix i assume i: "i < length vs"
    then have gi: "gs ! i \<in> set gs" by (simp add: lv)
    have "shape leaf (gs ! i)" "printable num leaf (gs ! i)"
      using rep_List.prems(1,2) gi by (auto simp: list_all_iff)
    with list_all2_nthD [OF rep_List.IH i] rep_List.prems(3) seen' null' dep [OF gi]
    show "writeJSON num sh null j (a # seen) L (vs ! i) = Inr (json_text num leaf (gs ! i))"
      by blast
  qed (rule lv)
  then have co: "collect (map (writeJSON num sh null j (a # seen) L) vs) = Inr (map (json_text num leaf) gs)"
    by (rule collect_list_all2)
  show ?case
  proof (cases "vs = []")
    case True
    have "for_each L a = []" using rep_List.hyps(3) True by (simp add: for_each_def enum_arr_def)
    then show ?thesis using True isarr na lv by (simp add: k tableNames_def)
  next
    case False
    have "map (\<lambda>i. writeJSON num sh null j (a # seen) L (RawGetInt L a (int i))) [1..<Suc (length vs)]
        = map (writeJSON num sh null j (a # seen) L) vs"
      using rep_List.hyps(3) by (intro map_RawGetInt) simp
    then show ?thesis using False isarr na co lv by (auto simp: k len simp del: upt_Suc)
  qed
next
  case (rep_Map lo a kvs kgs)
  obtain j where k: "k = Suc j" using rep_Map.prems(6) by (cases k) auto
  let ?R = "\<lambda>kv kg. fst kv = fst kg \<and> rep leaf L (Suc a) (snd kv) (snd kg)"
  have l2: "list_all2 ?R kvs kgs" using rep_Map.IH by (rule list_all2_mono) simp
  have solid: "\<forall>kv\<in>set kvs. snd kv \<noteq> LNil" using rep_map_solid [OF l2] rep_Map.prems(1) by simp
  have keys: "map fst kvs = map fst kgs" using l2 by (rule rep_map_keys)
  have lv: "length kvs = length kgs" using l2 by (rule list_all2_lengthD)
  have names: "tableNames sh L a = map fst kgs"
    using for_each_strs [OF rep_Map.hyps(3) solid] by (simp add: tableNames_def comp_def flip: keys)
  have na: "null \<noteq> Some a" "a \<notin> set seen"
    using rep_Map.prems(4,5) rep_Map.hyps(1) by force+
  have dep: "gdepth (snd kg) < j" if "kg \<in> set kgs" for kg
    using fold_max_mem [of "gdepth (snd kg)" "map (\<lambda>kg. gdepth (snd kg)) kgs" 0] that rep_Map.prems(6)
    by (simp add: k)
  have seen': "s < Suc a" if "s \<in> set (a # seen)" for s
    using that rep_Map.prems(4) rep_Map.hyps(1) by force
  have null': "b < Suc a" if "null = Some b" for b
    using rep_Map.prems(5) [OF that] rep_Map.hyps(1) by simp
  let ?w = "\<lambda>key. writeJSON num sh null j (a # seen) L (RawGetString L a key)"
  have dk: "distinct (map fst kgs)" using rep_Map.prems(1) by simp
  have val: "?w key = Inr (json_text num leaf g)" if kg: "(key, g) \<in> set kgs" for key g
  proof -
    obtain i where i: "i < length kgs" "kgs ! i = (key, g)" using kg by (auto simp: in_set_conv_nth)
    have iv: "i < length kvs" using i lv by simp
    have ih: "fst (kvs ! i) = key"
      "rep leaf L (Suc a) (snd (kvs ! i)) g"
      using list_all2_nthD [OF l2 iv] i by auto
    have "RawGetString L a key = snd (kvs ! i)"
      using rep_Map.hyps(3) dk ih(1) nth_mem [OF iv] by (intro RawGetString_map) (auto simp: keys prod_eq_iff)
    moreover have "shape leaf g" "printable num leaf g"
      using rep_Map.prems(1,2) kg by (auto simp: list_all_iff)
    ultimately show ?thesis
      using list_all2_nthD [OF rep_Map.IH iv] i rep_Map.prems(3) seen' null' dep [OF kg] by simp
  qed
  define ktx where "ktx = map (\<lambda>kg. (fst kg, json_text num leaf (snd kg))) kgs"
  have dkt: "distinct (map fst ktx)" and mk: "map fst ktx = map fst kgs"
    using dk by (simp_all add: ktx_def comp_def)
  define line where "line = (\<lambda>key. case ?w key of Inl e \<Rightarrow> Inl e | Inr t \<Rightarrow> Inr (json_quote key @ '':'' @ t))"
  have "line key = Inr (json_quote (fst (key, t)) @ '':'' @ snd (key, t))" if "(key, t) \<in> set ktx" for key t
    using that val by (auto simp: ktx_def line_def)
  then have "map line (sort (map fst ktx))
      = map (\<lambda>kt. Inr (json_quote (fst kt) @ '':'' @ snd kt)) (sort_key fst ktx)"
    using dkt by (intro sorted_pairs) auto
  moreover have "collect (map (\<lambda>kt. Inr (json_quote (fst kt) @ '':'' @ snd kt)) (sort_key fst ktx))
      = Inr (map (\<lambda>kt. json_quote (fst kt) @ '':'' @ snd kt) (sort_key fst ktx))"
    by (rule collect_map_Inr) (rule refl)
  ultimately have "collect (map line (sort (map fst kgs)))
      = Inr (map (\<lambda>kt. json_quote (fst kt) @ '':'' @ snd kt) (sort_key fst ktx))"
    by (simp only: mk)
  then show ?case
    using na isArrayTable_map [OF rep_Map.hyps(3)]
    by (simp add: k names line_def ktx_def)
qed

section \<open>Properties\<close>



text \<open>A table with both an array part and a string key is written as an object whose numeric
  keys lose their values: each is looked up as a string key and comes out as null.\<close>

theorem json_mixed_table_loses_items:
  assumes "table_at L a = \<lparr>arr = [LString s], strs = [(''x'', LString t)], others = []\<rparr>"
  shows "JSONStringifyLua num sh L (LTable a) LNil
           = Inr (''{'' @ json_quote ''1'' @ '':null,'' @ json_quote ''x'' @ '':'' @ json_quote t @ ''}'')"
proof -
  have i: "itoa 1 = ''1''" by code_simp
  have f: "go_int (float_of_int 1) = 1" by (rule go_int_float_of_int) simp
  have fe: "for_each L a = [(LNumber (float_of_int 1), LString s), (LString ''x'', LString t)]"
    using assms by (simp add: for_each_def enum_arr_def)
  have len: "table_len L a = 1" using assms by (simp add: table_len_def)
  have "\<not> isArrayTable L a" by (simp add: isArrayTable_def len fe)
  moreover have "sort (tableNames sh L a) = [''1'', ''x'']"
    by (simp add: tableNames_def fe f i less_char_def)
  moreover have "RawGetString L a ''1'' = LNil" "RawGetString L a ''x'' = LString t"
    using assms by (simp_all add: RawGetString_def)
  ultimately show ?thesis
    by (simp add: JSONStringifyLua_def maxJSONDepth_def eval_nat_numeral)
qed

theorem json_mixed_table_loses_items_witness:
  "JSONStringifyLua (\<lambda>f. Inr []) (\<lambda>v. [])
     \<lparr>globals = [], heap = [(0, \<lparr>arr = [LString ''p''], strs = [(''x'', LString ''q'')], others = []\<rparr>)],
      next_addr = 1\<rparr> (LTable 0) LNil
   = Inr (''{'' @ json_quote ''1'' @ '':null,'' @ json_quote ''x'' @ '':'' @ json_quote ''q'' @ ''}'')"
  by (rule json_mixed_table_loses_items [of _ _ "''p''"]) (simp add: table_at_def)

end
