(* ===== verification/Script_Errors.thy ===== *)
theory Script_Errors
  imports Lua_Tree
begin

text \<open>
  How a failing binding reports to the script, \<^verbatim>\<open>internal/bindings/bindings.go\<close>: the
  globals \<^verbatim>\<open>ERRORCODE\<close> and \<^verbatim>\<open>ERRORMSG\<close>, the cache of what was last written to
  them, the \<^verbatim>\<open>k.on_error\<close> hook with its guard against recursion, and the classification
  of host errors. Running the hook is the parameter \<open>pcall\<close>: it may do anything to the interpreter
  and to the environment, and its own errors are swallowed.
\<close>

definition KErrorGeneric :: int where "KErrorGeneric = - 1"
definition KErrorInvalidParam :: int where "KErrorInvalidParam = - 6"
definition KErrorNotFound :: int where "KErrorNotFound = - 17"
definition KErrorPermission :: int where "KErrorPermission = - 20"

text \<open>The state of a script: its interpreter and the error part of its environment.\<close>

record script_world =
  lua :: lua_state
  onErr :: lua_value
  onErrBusy :: bool
  cache_code :: lua_value
  cache_msg :: lua_value

text \<open>How resuming a coroutine ends: with an error, suspended again, or with its results.\<close>

datatype resume_result = ResumeError string | ResumeYield | ResumeOK "lua_value list"

definition errcode_global :: string where "errcode_global = ''ERRORCODE''"
definition errmsg_global :: string where "errmsg_global = ''ERRORMSG''"

lemma global_names [simp]: "errcode_global \<noteq> errmsg_global" "errmsg_global \<noteq> errcode_global"
  by (simp_all add: errcode_global_def errmsg_global_def)

definition set_global :: "string \<Rightarrow> lua_value \<Rightarrow> 'a script_world_scheme \<Rightarrow> 'a script_world_scheme" where
  "set_global g v w = w\<lparr>lua := SetGlobal g v (lua w)\<rparr>"

definition seedErrorGlobals :: "'a script_world_scheme \<Rightarrow> 'a script_world_scheme" where
  "seedErrorGlobals w =
     (set_global errmsg_global (LString []) (set_global errcode_global LNil w))
       \<lparr>cache_code := LNil, cache_msg := LString []\<rparr>"

definition code_value :: "int \<Rightarrow> lua_value" where
  "code_value code = LNumber (float_of_int code)"

definition setErrorGlobals :: "int \<Rightarrow> string \<Rightarrow> 'a script_world_scheme \<Rightarrow> 'a script_world_scheme" where
  "setErrorGlobals code msg w =
     (let c = code_value code; m = LString msg;
          w1 = (if cache_code w \<noteq> c then (set_global errcode_global c w)\<lparr>cache_code := c\<rparr> else w)
      in if cache_msg w1 \<noteq> m then (set_global errmsg_global m w1)\<lparr>cache_msg := m\<rparr> else w1)"

text \<open>\<open>pcall\<close> runs a Lua function on arguments, protected.\<close>

definition fireError ::
  "(nat \<Rightarrow> lua_value list \<Rightarrow> 'a script_world_scheme \<Rightarrow> 'a script_world_scheme) \<Rightarrow> int \<Rightarrow> string \<Rightarrow>
   'a script_world_scheme \<Rightarrow> 'a script_world_scheme" where
  "fireError pcall code msg w =
     (let w1 = setErrorGlobals code msg w in
      case onErr w1 of
        LFunction fn \<Rightarrow>
          (if onErrBusy w1 then w1
           else (pcall fn [code_value code, LString msg] (w1\<lparr>onErrBusy := True\<rparr>))\<lparr>onErrBusy := False\<rparr>)
      | _ \<Rightarrow> w1)"

text \<open>\<^verbatim>\<open>fail\<close>: report, then return nil to the script.\<close>

definition env_fail ::
  "(nat \<Rightarrow> lua_value list \<Rightarrow> 'a script_world_scheme \<Rightarrow> 'a script_world_scheme) \<Rightarrow> int \<Rightarrow> string \<Rightarrow>
   'a script_world_scheme \<Rightarrow> lua_value \<times> 'a script_world_scheme" where
  "env_fail pcall code msg w = (LNil, fireError pcall code msg w)"

text \<open>\<^verbatim>\<open>classifyError\<close>: two sentinel errors of the standard library, then words in the text.\<close>

datatype host_error = ErrNotExist string | ErrPermission string | ErrText string

fun host_text :: "host_error \<Rightarrow> string" where
  "host_text (ErrNotExist t) = t"
| "host_text (ErrPermission t) = t"
| "host_text (ErrText t) = t"

definition classifyError :: "host_error option \<Rightarrow> int" where
  "classifyError err =
     (case err of
        None \<Rightarrow> KErrorGeneric
      | Some (ErrNotExist t) \<Rightarrow> KErrorNotFound
      | Some (ErrPermission t) \<Rightarrow> KErrorPermission
      | Some e \<Rightarrow>
          (let lower = to_lower (host_text e) in
           if contains_str lower ''denied'' \<or> contains_str lower ''permission'' then KErrorPermission
           else if contains_str lower ''no such file'' \<or> contains_str lower ''not found'' then KErrorNotFound
           else if contains_str lower ''unsupported'' \<or> contains_str lower ''invalid'' then KErrorInvalidParam
           else KErrorGeneric))"

section \<open>Facts\<close>

lemma GetGlobal_SetGlobal [simp]:
  "GetGlobal (SetGlobal g v L) h = (if h = g then v else GetGlobal L h)"
  by (simp add: GetGlobal_def SetGlobal_def)

text \<open>The cache is coherent when it says what the globals hold.\<close>

definition coherent :: "'a script_world_scheme \<Rightarrow> bool" where
  "coherent w \<longleftrightarrow> GetGlobal (lua w) errcode_global = cache_code w
     \<and> GetGlobal (lua w) errmsg_global = cache_msg w"

lemma set_global_frame [simp]:
  "lua (set_global g v w) = SetGlobal g v (lua w)" "onErr (set_global g v w) = onErr w"
  "onErrBusy (set_global g v w) = onErrBusy w" "cache_code (set_global g v w) = cache_code w"
  "cache_msg (set_global g v w) = cache_msg w"
  by (simp_all add: set_global_def)

lemma setErrorGlobals_coherent: "coherent w \<Longrightarrow> coherent (setErrorGlobals code msg w)"
  by (simp add: coherent_def setErrorGlobals_def Let_def)

lemma setErrorGlobals_cache [simp]:
  "cache_code (setErrorGlobals code msg w) = code_value code"
  "cache_msg (setErrorGlobals code msg w) = LString msg"
  "onErr (setErrorGlobals code msg w) = onErr w"
  "onErrBusy (setErrorGlobals code msg w) = onErrBusy w"
  by (simp_all add: setErrorGlobals_def Let_def)

lemma setErrorGlobals_same:
  "cache_code w = code_value code \<Longrightarrow> cache_msg w = LString msg \<Longrightarrow> setErrorGlobals code msg w = w"
  by (simp add: setErrorGlobals_def Let_def)

lemma seed_coherent: "coherent (seedErrorGlobals w)"
  by (simp add: coherent_def seedErrorGlobals_def)

lemma fireError_no_hook:
  "(\<forall>f. onErr w \<noteq> LFunction f) \<or> onErrBusy w \<Longrightarrow> fireError pcall code msg w = setErrorGlobals code msg w"
  by (auto simp: fireError_def Let_def split: lua_value.split)

section \<open>Properties\<close>

text \<open>C21: A failing binding always returns nil and, while the script leaves the two globals alone,
  the globals show its code and message before the hook runs; the hook runs at most once per
  failure, because while it runs every further failure only writes the globals.\<close>

theorem failure_is_reported:
  assumes "coherent w"
  shows "fst (env_fail pcall code msg w) = LNil
    \<and> GetGlobal (lua (setErrorGlobals code msg w)) errcode_global = code_value code
    \<and> GetGlobal (lua (setErrorGlobals code msg w)) errmsg_global = LString msg
    \<and> (onErrBusy w \<longrightarrow> snd (env_fail pcall code msg w) = setErrorGlobals code msg w)
    \<and> (\<forall>f. onErr w = LFunction f \<and> \<not> onErrBusy w \<longrightarrow>
         \<not> onErrBusy (snd (env_fail pcall code msg w))
         \<and> lua (snd (env_fail pcall code msg w)) =
             lua (pcall f [code_value code, LString msg]
                    ((setErrorGlobals code msg w)\<lparr>onErrBusy := True\<rparr>)))"
  using setErrorGlobals_coherent [OF assms, of code msg]
  by (auto simp: coherent_def env_fail_def fireError_no_hook) (simp_all add: fireError_def Let_def)

definition quiet_world :: script_world where
  "quiet_world = \<lparr>lua = blank_state, onErr = LNil, onErrBusy = False, cache_code = LNil,
     cache_msg = LString []\<rparr>"

theorem failure_is_reported_witness:
  "GetGlobal (lua (setErrorGlobals KErrorNotFound ''no file'' (seedErrorGlobals quiet_world)))
     errcode_global = code_value KErrorNotFound"
  using failure_is_reported [OF seed_coherent] by blast

text \<open>A script that clears \<^verbatim>\<open>ERRORCODE\<close> after handling a failure does not see the same
  failure again: the cache still holds the code, so the second identical report writes
  nothing and the global stays nil.\<close>

theorem cleared_error_stays_hidden:
  assumes "\<And>f. onErr w \<noteq> LFunction f"
  shows "(let w1 = snd (env_fail pcall code msg w);
              w2 = set_global errcode_global LNil w1
          in snd (env_fail pcall code msg w2) = w2
             \<and> GetGlobal (lua (snd (env_fail pcall code msg w2))) errcode_global = LNil)"
  using assms by (simp add: env_fail_def fireError_no_hook setErrorGlobals_same)

theorem cleared_error_stays_hidden_witness:
  "GetGlobal (lua (snd (env_fail (\<lambda>f args w. w) KErrorNotFound ''no file''
     (set_global errcode_global LNil
        (snd (env_fail (\<lambda>f args w. w) KErrorNotFound ''no file'' quiet_world)))))) errcode_global = LNil"
  using cleared_error_stays_hidden [of quiet_world "\<lambda>f args w. w" KErrorNotFound "''no file''"]
  by (simp add: quiet_world_def Let_def)

end
