(* ===== verification/Outbox_Router.thy ===== *)
theory Outbox_Router
  imports Lua_Value
begin

text \<open>
  The client-protocol router of \<^verbatim>\<open>internal/common/brain.go\<close>, which turns a session outbox
  message into commands for the page, and the component inventory and control values of
  \<^verbatim>\<open>internal/wasm/brain.go\<close> that host it. A command is a JSON object: an association list
  from key to value. Go's assignment to a nil map is a run-time panic, the value \<open>None\<close>.
\<close>

section \<open>Messages and commands\<close>

record outbox_msg =
  Type :: string
  Form :: string
  Ctrl :: string
  HTML :: string
  Selector :: string
  ID :: string
  Kind :: string
  Text :: string
  Msg :: string
  Stack :: string
  Accept :: string
  Multiple :: bool
  Data :: string
  Modal :: bool
  GapX :: go_float
  GapY :: go_float
  Grid :: bool
  GridMode :: string
  GridPK :: string
  GridRow :: string

definition empty_msg :: outbox_msg where
  "empty_msg = \<lparr>Type = [], Form = [], Ctrl = [], HTML = [], Selector = [], ID = [], Kind = [],
     Text = [], Msg = [], Stack = [], Accept = [], Multiple = False, Data = [], Modal = False,
     GapX = float_zero, GapY = float_zero, Grid = False, GridMode = [], GridPK = [], GridRow = []\<rparr>"

datatype cmd_val = CStr string | CBool bool | CNum go_float

type_synonym wasm_cmd = "(string \<times> cmd_val) list"

section \<open>Routing\<close>

definition componentCmd ::
  "string \<Rightarrow> string \<Rightarrow> string \<Rightarrow> string \<Rightarrow> string \<Rightarrow> string \<Rightarrow> string \<Rightarrow> wasm_cmd" where
  "componentCmd kind op selector data rid form ctrl =
     [(''cmd'', CStr ''component''), (''kind'', CStr kind), (''op'', CStr op),
      (''selector'', CStr selector), (''form'', CStr form), (''ctrl'', CStr ctrl)]
     @ (if data \<noteq> [] then [(''data'', CStr data)] else [])
     @ (if rid \<noteq> [] then [(''id'', CStr rid)] else [])"

definition component_scan :: "string \<Rightarrow> wasm_cmd" where
  "component_scan scope = [(''cmd'', CStr ''component_scan''), (''scope'', CStr scope)]"

text \<open>The form, control, dialog and browser cases, in the order of the \<^verbatim>\<open>switch\<close>.\<close>

definition route_page :: "outbox_msg \<Rightarrow> wasm_cmd list option" where
  "route_page m =
    (let t = Type m in
     if t = ''init'' then Some [[(''cmd'', CStr ''init''), (''form'', CStr (Form m))]]
     else if t = ''render_form'' then
       Some ((if Modal m
              then [[(''cmd'', CStr ''modal_open''), (''name'', CStr (Form m)),
                     (''html'', CStr (HTML m)), (''gap_x'', CNum (GapX m)),
                     (''gap_y'', CNum (GapY m)), (''grid'', CBool (Grid m)),
                     (''grid_mode'', CStr (GridMode m)), (''grid_pk'', CStr (GridPK m)),
                     (''grid_row'', CStr (GridRow m))]]
              else [[(''cmd'', CStr ''stage''), (''html'', CStr (HTML m))]])
             @ [component_scan (if Modal m then ''#modals'' else ''#stage'')])
     else if t = ''update_control'' then
       Some [[(''cmd'', CStr ''update_control''), (''selector'', CStr (Selector m)),
              (''html'', CStr (HTML m))], component_scan ''#stage'']
     else if t = ''close_form'' then
       Some (if Modal m
             then [[(''cmd'', CStr ''modal_close''), (''name'', CStr (Form m))]]
             else [[(''cmd'', CStr ''form_close''), (''name'', CStr (Form m)),
                    (''top'', CBool (Modal m)), (''destroy'', CBool True)]])
     else if t = ''close_msgbox'' then
       Some [[(''cmd'', CStr ''msgbox_close''), (''id'', CStr (ID m))]]
     else if t = ''close_popup'' then
       Some [[(''cmd'', CStr ''popup_close''), (''id'', CStr (ID m))]]
     else if t = ''status'' then Some [[(''cmd'', CStr ''status''), (''text'', CStr (Text m))]]
     else if t = ''status_close'' then Some [[(''cmd'', CStr ''status_close'')]]
     else if t = ''focus'' then
       Some [[(''cmd'', CStr ''focus''), (''form'', CStr (Form m)), (''ctrl'', CStr (Ctrl m))]]
     else if t = ''select_text'' then
       Some [[(''cmd'', CStr ''select_text''), (''form'', CStr (Form m)), (''ctrl'', CStr (Ctrl m))]]
     else if t = ''select_range'' then
       Some [[(''cmd'', CStr ''select_range''), (''form'', CStr (Form m)),
              (''ctrl'', CStr (Ctrl m)), (''data'', CStr (Data m))]]
     else if t = ''get_selection'' then
       Some [[(''cmd'', CStr ''get_selection''), (''id'', CStr (ID m)),
              (''form'', CStr (Form m)), (''ctrl'', CStr (Ctrl m))]]
     else if t = ''quit'' then Some [[(''cmd'', CStr ''quit'')]]
     else if t = ''reload'' then Some [[(''cmd'', CStr ''reload'')]]
     else if t = ''error'' then
       Some [[(''cmd'', CStr ''error''), (''msg'', CStr (Msg m)), (''stack'', CStr (Stack m))]]
     else if t = ''bell'' then Some [[(''cmd'', CStr ''bell'')]]
     else None)"

text \<open>The browser requests, the component commands and the two dialogs at the end.\<close>

definition route_component :: "outbox_msg \<Rightarrow> wasm_cmd list option" where
  "route_component m =
    (let t = Type m; sel = Selector m; d = Data m; i = ID m; f = Form m; c = Ctrl m in
     if t = ''clipboard_set'' then
       Some [[(''cmd'', CStr ''clipboard_set''), (''text'', CStr (Text m))]]
     else if t = ''clipboard_get'' then
       Some [[(''cmd'', CStr ''clipboard_get''), (''id'', CStr i)]]
     else if t = ''pick_file'' then
       Some [[(''cmd'', CStr ''pick_file''), (''id'', CStr i), (''accept'', CStr (Accept m)),
              (''multiple'', CBool (Multiple m))]]
     else if t = ''pick_file_save'' then
       Some [[(''cmd'', CStr ''pick_file_save''), (''id'', CStr i), (''data'', CStr d)]]
     else if t = ''tabulator_update'' then
       Some [componentCmd ''tabulator'' ''update'' sel d [] f c]
     else if t = ''tabulator_remote_data'' then
       Some [componentCmd ''tabulator'' ''remote_data'' sel d [] f c]
     else if t = ''tabulator_refresh'' then
       Some [componentCmd ''tabulator'' ''refresh'' sel [] [] f c]
     else if t = ''tabulator_destroy'' then
       Some [componentCmd ''tabulator'' ''destroy'' sel [] [] f c]
     else if t = ''tabulator_get_data'' then
       Some [componentCmd ''tabulator'' ''get_data'' sel [] i f c]
     else if t = ''tabulator_get_selection'' then
       Some [componentCmd ''tabulator'' ''get_selection'' sel [] i f c]
     else if t = ''looper_db_batch'' then
       Some [componentCmd ''looper'' ''batch'' sel d [] f c]
     else if t = ''looper_refresh'' then
       Some [componentCmd ''looper'' ''refresh'' sel [] [] f c]
     else if t = ''chart_update'' then Some [componentCmd ''chart'' ''update'' sel d [] f c]
     else if t = ''chart_options'' then Some [componentCmd ''chart'' ''options'' sel d [] f c]
     else if t = ''chart_resize'' then Some [componentCmd ''chart'' ''resize'' sel d [] f c]
     else if t = ''chart_destroy'' then Some [componentCmd ''chart'' ''destroy'' sel [] [] f c]
     else if t = ''chart_get_image'' then Some [componentCmd ''chart'' ''get_image'' sel [] i f c]
     else if t = ''tab_set_tab'' then Some [componentCmd ''tab'' ''set_tab'' sel d [] f c]
     else if t = ''tab_update'' then Some [componentCmd ''tab'' ''update'' sel d [] f c]
     else if t = ''msgbox'' then
       Some [[(''cmd'', CStr ''msgbox''), (''id'', CStr i), (''kind'', CStr (Kind m)),
              (''html'', CStr (HTML m))]]
     else if t = ''popup'' then
       Some [[(''cmd'', CStr ''popup''), (''id'', CStr i), (''html'', CStr (HTML m))]]
     else None)"

definition RouteOutbox :: "outbox_msg \<Rightarrow> wasm_cmd list" where
  "RouteOutbox m =
     (case route_page m of
        Some cs \<Rightarrow> cs
      | None \<Rightarrow> (case route_component m of Some cs \<Rightarrow> cs | None \<Rightarrow> []))"

section \<open>What routing guarantees\<close>

definition page_types :: "string list" where
  "page_types = [''init'', ''render_form'', ''update_control'', ''close_form'', ''close_msgbox'',
     ''close_popup'', ''status'', ''status_close'', ''focus'', ''select_text'', ''select_range'',
     ''get_selection'', ''quit'', ''reload'', ''error'', ''bell'']"

definition component_types :: "string list" where
  "component_types = [''clipboard_set'', ''clipboard_get'', ''pick_file'', ''pick_file_save'',
     ''tabulator_update'', ''tabulator_remote_data'', ''tabulator_refresh'',
     ''tabulator_destroy'', ''tabulator_get_data'', ''tabulator_get_selection'',
     ''looper_db_batch'', ''looper_refresh'', ''chart_update'', ''chart_options'',
     ''chart_resize'', ''chart_destroy'', ''chart_get_image'', ''tab_set_tab'', ''tab_update'',
     ''msgbox'', ''popup'']"

definition request_types :: "string list" where
  "request_types = [''get_selection'', ''clipboard_get'', ''pick_file'', ''pick_file_save'',
     ''tabulator_get_data'', ''tabulator_get_selection'', ''chart_get_image'', ''msgbox'', ''popup'']"

definition cmd_name :: "wasm_cmd \<Rightarrow> cmd_val option" where
  "cmd_name c = map_of c ''cmd''"

lemma route_page_None_iff: "route_page m = None \<longleftrightarrow> Type m \<notin> set page_types"
  by (simp add: route_page_def page_types_def Let_def)

lemma route_component_None_iff: "route_component m = None \<longleftrightarrow> Type m \<notin> set component_types"
  by (simp add: route_component_def component_types_def Let_def)

lemma route_page_nonempty: "route_page m = Some cs \<Longrightarrow> cs \<noteq> []"
  by (auto simp: route_page_def Let_def split: if_splits)

lemma route_component_single: "route_component m = Some cs \<Longrightarrow> \<exists>c. cs = [c]"
  by (auto simp: route_component_def Let_def split: if_splits)

lemma componentCmd_fields [simp]:
  "map_of (componentCmd k op sel d i f c) ''cmd'' = Some (CStr ''component'')"
  "map_of (componentCmd k op sel d i f c) ''id'' = (if i = [] then None else Some (CStr i))"
  "map_of (componentCmd k op sel d i f c) ''data'' = (if d = [] then None else Some (CStr d))"
  by (simp_all add: componentCmd_def)

lemma page_cmd_named: "route_page m = Some cs \<Longrightarrow> c \<in> set cs \<Longrightarrow> \<exists>n. cmd_name c = Some (CStr n)"
  by (auto simp: route_page_def cmd_name_def component_scan_def Let_def split: if_splits)

lemma component_cmd_named:
  "route_component m = Some cs \<Longrightarrow> c \<in> set cs \<Longrightarrow> \<exists>n. cmd_name c = Some (CStr n)"
  by (auto simp: route_component_def cmd_name_def Let_def split: if_splits)

lemma route_request:
  "Type m \<in> set request_types \<Longrightarrow> ID m \<noteq> [] \<Longrightarrow>
   \<exists>c. RouteOutbox m = [c] \<and> map_of c ''id'' = Some (CStr (ID m))"
  by (auto simp: request_types_def RouteOutbox_def route_page_def route_component_def Let_def)

section \<open>The component inventory of the WASM host\<close>

record wasm_brain =
  components :: "(string \<times> string) list"
  controlValues :: "(string \<times> (string \<times> go_value) list) list"

definition NewWasmBrain :: wasm_brain where
  "NewWasmBrain = \<lparr>components = [], controlValues = []\<rparr>"

definition RetainComponent :: "string \<Rightarrow> string \<Rightarrow> wasm_brain \<Rightarrow> wasm_brain" where
  "RetainComponent kind selector b = b\<lparr>components := AList.update selector kind (components b)\<rparr>"

definition has_prefix :: "string \<Rightarrow> string \<Rightarrow> bool" where
  "has_prefix s p \<longleftrightarrow> take (length p) s = p"

definition hasFormPrefix :: "string \<Rightarrow> string \<Rightarrow> bool" where
  "hasFormPrefix selector formName =
     (if has_prefix selector (''#c:'' @ formName @ '':'') then True
      else has_prefix selector (''#f:'' @ formName))"

text \<open>
  \<^verbatim>\<open>var kept map[string]string\<close> is a nil map: the first assignment into it panics. The loop
  visits the entries in some order; any entry that has to be kept panics.
\<close>

fun forget_loop :: "string \<Rightarrow> (string \<times> string) list \<Rightarrow> (string \<times> string) list option" where
  "forget_loop formName [] = Some []"
| "forget_loop formName (e # es) =
     (if hasFormPrefix (fst e) formName then forget_loop formName es else None)"

definition ForgetComponentsOnForm :: "string \<Rightarrow> wasm_brain \<Rightarrow> wasm_brain option" where
  "ForgetComponentsOnForm formName b =
     (case forget_loop formName (components b) of
        None \<Rightarrow> None
      | Some kept \<Rightarrow> Some (b\<lparr>components := kept\<rparr>))"

fun kinds_loop :: "(string \<times> string) list \<Rightarrow> (string \<times> string list) list \<Rightarrow> (string \<times> string list) list"
where
  "kinds_loop [] out = out"
| "kinds_loop ((sel, kind) # es) out =
     kinds_loop es (AList.update kind
        ((case map_of out kind of None \<Rightarrow> [] | Some ss \<Rightarrow> ss) @ [sel]) out)"

definition ComponentKinds :: "wasm_brain \<Rightarrow> (string \<times> string list) list" where
  "ComponentKinds b = kinds_loop (components b) []"

definition SetControlValue :: "string \<Rightarrow> string \<Rightarrow> go_value \<Rightarrow> wasm_brain \<Rightarrow> wasm_brain" where
  "SetControlValue form ctrl v b =
     (let vals = (case map_of (controlValues b) form of None \<Rightarrow> [] | Some vs \<Rightarrow> vs)
      in b\<lparr>controlValues := AList.update form (AList.update ctrl v vals) (controlValues b)\<rparr>)"

definition ClearFormValues :: "string \<Rightarrow> wasm_brain \<Rightarrow> wasm_brain" where
  "ClearFormValues form b = b\<lparr>controlValues := AList.delete form (controlValues b)\<rparr>"

definition ControlValues :: "wasm_brain \<Rightarrow> string \<Rightarrow> (string \<times> go_value) list" where
  "ControlValues b form = (case map_of (controlValues b) form of None \<Rightarrow> [] | Some vs \<Rightarrow> vs)"

definition put_value :: "string \<times> string \<Rightarrow> go_value \<Rightarrow> wasm_brain \<Rightarrow> wasm_brain" where
  "put_value fc v b = SetControlValue (fst fc) (snd fc) v b"

lemma forget_loop_Some:
  "forget_loop f es = Some kept \<longleftrightarrow> kept = [] \<and> (\<forall>e\<in>set es. hasFormPrefix (fst e) f)"
  by (induction es) auto

lemma ControlValues_Set:
  "map_of (ControlValues (SetControlValue form ctrl v b) form') ctrl' =
     (if form' = form \<and> ctrl' = ctrl then Some v else map_of (ControlValues b form') ctrl')"
  by (auto simp: ControlValues_def SetControlValue_def Let_def split: option.splits)

lemma ControlValues_Clear:
  "ControlValues (ClearFormValues form b) form' = (if form' = form then [] else ControlValues b form')"
  by (auto simp: ControlValues_def ClearFormValues_def split: option.splits)

definition kind_has :: "(string \<times> string list) list \<Rightarrow> string \<Rightarrow> string \<Rightarrow> bool" where
  "kind_has out kind sel \<longleftrightarrow> (\<exists>ss. map_of out kind = Some ss \<and> sel \<in> set ss)"

lemma kinds_loop_has:
  "kind_has (kinds_loop es out) kind sel \<longleftrightarrow> (sel, kind) \<in> set es \<or> kind_has out kind sel"
  by (induction es out rule: kinds_loop.induct) (auto simp: kind_has_def split: option.splits)

section \<open>Properties\<close>

text \<open>Routing is total over the message vocabulary and closed outside it: a message produces
  no command exactly when its type is not one of the known types.\<close>

theorem RouteOutbox_drops_unknown:
  "RouteOutbox m = [] \<longleftrightarrow> Type m \<notin> set page_types \<union> set component_types"
proof (cases "route_page m")
  case (Some cs)
  then have "Type m \<in> set page_types"
    using route_page_None_iff [of m] by auto
  with Some route_page_nonempty [OF Some] show ?thesis by (simp add: RouteOutbox_def)
next
  case None
  then have p: "Type m \<notin> set page_types" by (simp add: route_page_None_iff)
  show ?thesis
  proof (cases "route_component m")
    case (Some cs)
    then have "Type m \<in> set component_types"
      using route_component_None_iff [of m] by auto
    with None Some route_component_single [OF Some] show ?thesis by (auto simp: RouteOutbox_def)
  next
    case None': None
    then have "Type m \<notin> set component_types" by (simp add: route_component_None_iff)
    with None None' p show ?thesis by (simp add: RouteOutbox_def)
  qed
qed

text \<open>A request that the page has to answer keeps its correlation id: it becomes exactly one
  command, and that command carries the id of the message.\<close>

theorem RouteOutbox_keeps_request_id:
  "Type m \<in> set request_types \<Longrightarrow> ID m \<noteq> [] \<Longrightarrow>
   \<exists>c. RouteOutbox m = [c] \<and> map_of c ''id'' = Some (CStr (ID m))"
  by (rule route_request)

theorem RouteOutbox_keeps_request_id_witness:
  "\<exists>c. RouteOutbox (empty_msg\<lparr>Type := ''tabulator_get_data'', ID := ''t1''\<rparr>) = [c]
       \<and> map_of c ''id'' = Some (CStr ''t1'')"
  using RouteOutbox_keeps_request_id [of "empty_msg\<lparr>Type := ''tabulator_get_data'', ID := ''t1''\<rparr>"]
  by (simp add: request_types_def)


text \<open>Forgetting the components of a closed form panics exactly when some live component
  belongs to another form, and otherwise empties the inventory: the function never keeps one.\<close>

theorem ForgetComponentsOnForm_panics:
  "ForgetComponentsOnForm formName b =
     (if list_all (\<lambda>e. hasFormPrefix (fst e) formName) (components b)
      then Some (b\<lparr>components := []\<rparr>) else None)"
proof (cases "list_all (\<lambda>e. hasFormPrefix (fst e) formName) (components b)")
  case True
  then have "forget_loop formName (components b) = Some []"
    by (simp add: forget_loop_Some list_all_iff)
  with True show ?thesis by (simp add: ForgetComponentsOnForm_def)
next
  case False
  then have "forget_loop formName (components b) = None"
    by (cases "forget_loop formName (components b)") (auto simp: forget_loop_Some list_all_iff)
  with False show ?thesis by (simp add: ForgetComponentsOnForm_def)
qed

end
