(* ===== verification/Klog_Text.thy ===== *)
theory Klog_Text
  imports Lua_Value Go_Text
begin

text \<open>
  The value parsers and the record truncation of the structured log:
  \<^verbatim>\<open>internal/klog/size.go\<close> (sizes, retention durations) and
  \<^verbatim>\<open>internal/klog/klog.go\<close> (levels, message and data truncation). Durations are
  nanoseconds in an \<^verbatim>\<open>int64\<close> that wraps.
\<close>

datatype parse_error = ParseError string string

section \<open>Levels\<close>

text \<open>\<^verbatim>\<open>Level\<close> is an int; the named levels are 0 to 4, lower is more severe.\<close>

type_synonym level = int

definition LevelError :: level where "LevelError = 0"
definition LevelWarn :: level where "LevelWarn = 1"
definition LevelInfo :: level where "LevelInfo = 2"
definition LevelDebug :: level where "LevelDebug = 3"
definition LevelTrace :: level where "LevelTrace = 4"

lemmas level_defs = LevelError_def LevelWarn_def LevelInfo_def LevelDebug_def LevelTrace_def

definition ValidLevel :: "level \<Rightarrow> bool" where
  "ValidLevel l \<longleftrightarrow> LevelError \<le> l \<and> l \<le> LevelTrace"

definition ParseLevel :: "string \<Rightarrow> parse_error + level" where
  "ParseLevel s =
     (if s = ''error'' \<or> s = ''ERROR'' then Inr LevelError
      else if s = ''warn'' \<or> s = ''warning'' \<or> s = ''WARN'' \<or> s = ''WARNING'' then Inr LevelWarn
      else if s = ''info'' \<or> s = ''INFO'' then Inr LevelInfo
      else if s = ''debug'' \<or> s = ''DEBUG'' then Inr LevelDebug
      else if s = ''trace'' \<or> s = ''TRACE'' then Inr LevelTrace
      else Inl (ParseError ''level'' s))"

definition level_String :: "level \<Rightarrow> string" where
  "level_String l =
     (if l = LevelError then ''error''
      else if l = LevelWarn then ''warn''
      else if l = LevelInfo then ''info''
      else if l = LevelDebug then ''debug''
      else if l = LevelTrace then ''trace''
      else ''unknown'')"

section \<open>Sizes\<close>

text \<open>
  \<^verbatim>\<open>strconv.ParseFloat\<close> on text made of digits and dots only: one dot at most, one digit at
  least, rounded to \<^verbatim>\<open>float64\<close>, an error beyond the largest finite value.
\<close>

definition decimal_value :: "string \<Rightarrow> rat option" where
  "decimal_value s =
     (case split_on (CHR ''.'') s of
        [a] \<Rightarrow> (if a = [] then None else Some (of_nat (digits_value a)))
      | [a, b] \<Rightarrow> (if a @ b = [] then None
                 else Some (of_nat (digits_value (a @ b)) / 10 ^ length b))
      | _ \<Rightarrow> None)"

definition parse_float_decimal :: "string \<Rightarrow> rat option" where
  "parse_float_decimal s =
     (case decimal_value s of
        None \<Rightarrow> None
      | Some q \<Rightarrow> (let r = round64 q in if 2 ^ 1024 \<le> r then None else Some r))"

definition size_mult :: "string \<Rightarrow> int option" where
  "size_mult unit =
     (if unit \<in> set [[], ''b''] then Some 1
      else if unit \<in> set [''k'', ''kb'', ''kib''] then Some (2 ^ 10)
      else if unit \<in> set [''m'', ''mb'', ''mib''] then Some (2 ^ 20)
      else if unit \<in> set [''g'', ''gb'', ''gib''] then Some (2 ^ 30)
      else if unit \<in> set [''t'', ''tb'', ''tib''] then Some (2 ^ 40)
      else None)"

definition is_num_byte :: "char \<Rightarrow> bool" where
  "is_num_byte c \<longleftrightarrow> is_digit c \<or> c = CHR ''.''"

definition ParseSize :: "string \<Rightarrow> parse_error + int" where
  "ParseSize s =
     (let v = trim_space s; e = Inl (ParseError ''size'' s) in
      if v = [] then e
      else (let numStr = takeWhile is_num_byte v;
                unit = trim_space (dropWhile is_num_byte v)
            in if numStr = [] then e
               else (case parse_float_decimal numStr of
                       None \<Rightarrow> e
                     | Some num \<Rightarrow>
                         (case size_mult (to_lower unit) of
                            None \<Rightarrow> e
                          | Some mult \<Rightarrow> Inr (go_int (Fin (num * of_int mult)))))))"

section \<open>Retention\<close>

definition ns_second :: int where "ns_second = 1000000000"
definition ns_minute :: int where "ns_minute = 60 * ns_second"
definition ns_hour :: int where "ns_hour = 60 * ns_minute"
definition ns_day :: int where "ns_day = 24 * ns_hour"

lemmas ns_defs = ns_day_def ns_hour_def ns_minute_def ns_second_def

definition isAlpha :: "char \<Rightarrow> bool" where
  "isAlpha c \<longleftrightarrow> is_lower c \<or> is_upper c"

definition retention_unit :: "string \<Rightarrow> int option" where
  "retention_unit unit =
     (if unit = [] then Some ns_day
      else if unit = ''d'' then Some ns_day
      else if unit = ''h'' then Some ns_hour
      else if unit = ''m'' then Some ns_minute
      else if unit = ''s'' then Some ns_second
      else None)"

function retention_loop :: "string \<Rightarrow> string \<Rightarrow> int \<Rightarrow> parse_error + int" where
  "retention_loop s rest acc =
     (if rest = [] then Inr acc
      else (let ds = takeWhile is_digit rest; after = dropWhile is_digit rest in
            if ds = [] then Inl (ParseError ''retention'' s)
            else (case parse_int64_digits ds of
                    None \<Rightarrow> Inl (ParseError ''retention'' s)
                  | Some n \<Rightarrow>
                      (case retention_unit (to_lower (takeWhile isAlpha after)) of
                         None \<Rightarrow> Inl (ParseError ''retention'' s)
                       | Some mult \<Rightarrow>
                           retention_loop s (dropWhile isAlpha after)
                             (wrap64 (acc + wrap64 (n * mult)))))))"
  by pat_completeness auto
termination
proof (relation "measure (\<lambda>(s, rest, acc). length rest)", simp, clarsimp)
  fix rest :: string
  assume "rest \<noteq> []" "takeWhile is_digit rest \<noteq> []"
  then obtain c r where r: "rest = c # r" and d: "is_digit c"
    by (cases rest) (auto split: if_splits)
  have "length (dropWhile isAlpha (dropWhile is_digit r)) \<le> length r"
    using length_dropWhile_le [of isAlpha "dropWhile is_digit r"] length_dropWhile_le [of is_digit r]
    by linarith
  then show "length (dropWhile isAlpha (dropWhile is_digit rest)) < length rest"
    by (simp add: r d)
qed

declare retention_loop.simps [simp del]

definition ParseRetention :: "string \<Rightarrow> parse_error + int" where
  "ParseRetention s =
     (let v = trim_space s in
      if v = [] then Inl (ParseError ''retention'' s)
      else if v = ''0'' then Inr 0
      else retention_loop s v 0)"

section \<open>Truncation\<close>

text \<open>The suffix is an ellipsis (three bytes in UTF-8) and a bracketed word.\<close>

definition TruncatedSuffix :: string where
  "TruncatedSuffix = [CHR 0xE2, CHR 0x80, CHR 0xA6] @ ''[truncated]''"

lemma length_TruncatedSuffix [simp]: "length TruncatedSuffix = 14"
  by (simp add: TruncatedSuffix_def)

text \<open>\<^verbatim>\<open>for start > 0 && s[start]&0xC0 == 0x80 { start-- }\<close>\<close>

fun rune_start :: "string \<Rightarrow> nat \<Rightarrow> nat" where
  "rune_start s 0 = 0"
| "rune_start s (Suc k) = (if is_cont (s ! Suc k) then rune_start s k else Suc k)"

lemma rune_start_le: "rune_start s k \<le> k"
  by (induction s k rule: rune_start.induct) auto

text \<open>
  The outer loop: while the byte before the cut is not ASCII, the cut moves to the start of that
  byte's rune.
\<close>

function walk_back :: "string \<Rightarrow> nat \<Rightarrow> nat" where
  "walk_back s keep =
     (if 0 < keep \<and> 128 \<le> byte_of (s ! (keep - 1))
      then walk_back s (rune_start s (keep - 1)) else keep)"
  by pat_completeness auto
termination
proof (relation "measure snd", simp, clarsimp)
  fix s :: string and keep :: nat
  assume "0 < keep"
  then show "rune_start s (keep - Suc 0) < keep"
    using rune_start_le [of s "keep - 1"] by simp
qed

declare walk_back.simps [simp del]

definition TruncateMessage :: "string \<Rightarrow> int \<Rightarrow> string" where
  "TruncateMessage s mx =
     (if mx \<le> 0 \<or> int (length s) \<le> mx then s
      else if mx \<le> int (length TruncatedSuffix) then take (nat mx) TruncatedSuffix
      else (let keep = min (nat mx - length TruncatedSuffix) (length s)
            in take (walk_back s keep) s @ TruncatedSuffix))"

definition dataEnvelope :: "int \<Rightarrow> string \<Rightarrow> string" where
  "dataEnvelope origBytes preview =
     [CHR ''{'', CHR 0x22] @ ''_truncated'' @ [CHR 0x22] @ '':true,'' @ [CHR 0x22]
     @ ''_orig_bytes'' @ [CHR 0x22] @ '':'' @ itoa origBytes @ '','' @ [CHR 0x22] @ ''_preview''
     @ [CHR 0x22] @ '':'' @ quoteJSON preview @ ''}''"

definition truncated_marker :: string where
  "truncated_marker = [CHR ''{'', CHR 0x22] @ ''_truncated'' @ [CHR 0x22] @ '':true}''"

definition TruncateData :: "string \<Rightarrow> int \<Rightarrow> string" where
  "TruncateData data mx =
     (if mx \<le> 0 \<or> int (length data) \<le> mx then data
      else if mx < int (length (dataEnvelope 0 [])) then truncated_marker
      else (let previewLen = max 0 ((mx - int (length (dataEnvelope 0 []))) div 2)
            in dataEnvelope (int (length data)) (TruncateMessage data previewLen)))"

section \<open>Facts about the parsers\<close>

lemma ParseLevel_valid: "ParseLevel s = Inr l \<Longrightarrow> ValidLevel l"
  by (auto simp: ParseLevel_def ValidLevel_def level_defs split: if_splits)

lemma ParseLevel_String: "ValidLevel l \<Longrightarrow> ParseLevel (level_String l) = Inr l"
proof -
  assume "ValidLevel l"
  then have "l = 0 \<or> l = 1 \<or> l = 2 \<or> l = 3 \<or> l = 4"
    by (auto simp: ValidLevel_def level_defs)
  then show ?thesis by (auto simp: ParseLevel_def level_String_def level_defs)
qed

lemma takeWhile_all_append: "list_all P a \<Longrightarrow> takeWhile P (a @ b) = a @ takeWhile P b"
  by (induction a) auto

lemma dropWhile_all_append: "list_all P a \<Longrightarrow> dropWhile P (a @ b) = dropWhile P b"
  by (induction a) auto

text \<open>A retention expression as a list of number and unit letter, and its printed form.\<close>

definition retention_units :: "(char \<times> int) list" where
  "retention_units = [(CHR ''d'', ns_day), (CHR ''h'', ns_hour), (CHR ''m'', ns_minute), (CHR ''s'', ns_second)]"

fun show_retention :: "(int \<times> char) list \<Rightarrow> string" where
  "show_retention [] = []"
| "show_retention ((n, u) # ts) = itoa n @ u # show_retention ts"

fun retention_sum :: "(int \<times> char) list \<Rightarrow> int" where
  "retention_sum [] = 0"
| "retention_sum ((n, u) # ts) = n * the (map_of retention_units u) + retention_sum ts"

definition retention_ok :: "(int \<times> char) list \<Rightarrow> bool" where
  "retention_ok ts \<longleftrightarrow>
     list_all (\<lambda>(n, u). 0 \<le> n \<and> n \<le> max_int64 \<and> u \<in> fst ` set retention_units) ts"

lemma unit_letter:
  assumes "u \<in> fst ` set retention_units"
  shows "isAlpha u" and "\<not> is_digit u"
    and "retention_unit (to_lower [u]) = map_of retention_units u"
    and "map_of retention_units u \<noteq> None"
  using assms
  by (auto simp: retention_units_def isAlpha_def is_lower_def is_upper_def is_digit_def
      to_lower_def lower_char_def retention_unit_def)

lemma show_retention_head: "retention_ok ts \<Longrightarrow> ts \<noteq> [] \<Longrightarrow> is_digit (hd (show_retention ts))"
proof (cases ts)
  case (Cons t r)
  assume ok: "retention_ok ts"
  obtain n u where t: "t = (n, u)" by (cases t)
  have "0 \<le> n" using ok by (simp add: retention_ok_def Cons t)
  with itoa_digits [of n] show ?thesis
    by (cases "itoa n") (auto simp: Cons t)
qed simp

lemma takeWhile_alpha_show:
  "retention_ok ts \<Longrightarrow> takeWhile isAlpha (show_retention ts) = []
     \<and> dropWhile isAlpha (show_retention ts) = show_retention ts"
proof (cases "ts = []")
  case False
  assume "retention_ok ts"
  with False have "is_digit (hd (show_retention ts))" by (intro show_retention_head)
  then have "\<not> isAlpha (hd (show_retention ts))"
    by (auto simp: is_digit_def isAlpha_def is_lower_def is_upper_def)
  then show ?thesis by (cases "show_retention ts") auto
qed simp

lemma retention_loop_show:
  "retention_ok ts \<Longrightarrow>
   retention_loop s (show_retention ts) (wrap64 acc) = Inr (wrap64 (acc + retention_sum ts))"
proof (induction ts arbitrary: acc)
  case Nil
  then show ?case by (simp add: retention_loop.simps)
next
  case (Cons t ts)
  obtain n u where t: "t = (n, u)" by (cases t)
  have n: "0 \<le> n" "n \<le> max_int64" and u: "u \<in> fst ` set retention_units" and ok: "retention_ok ts"
    using Cons.prems by (auto simp: retention_ok_def t)
  obtain m where m: "map_of retention_units u = Some m" using unit_letter(4) [OF u] by blast
  have ds: "takeWhile is_digit (show_retention (t # ts)) = itoa n"
    using itoa_digits [OF n(1)] unit_letter(2) [OF u] by (simp add: t takeWhile_all_append)
  have af: "dropWhile is_digit (show_retention (t # ts)) = u # show_retention ts"
    using itoa_digits [OF n(1)] unit_letter(2) [OF u] by (simp add: t dropWhile_all_append)
  have "retention_loop s (show_retention (t # ts)) (wrap64 acc)
      = retention_loop s (show_retention ts) (wrap64 (wrap64 acc + wrap64 (n * m)))"
    using itoa_digits [OF n(1)] parse_itoa [OF n] takeWhile_alpha_show [OF ok] unit_letter [OF u] m
    by (subst retention_loop.simps) (simp add: ds af, simp add: t)
  also have "\<dots> = retention_loop s (show_retention ts) (wrap64 (acc + n * m))"
    by (simp add: wrap64_add_wrap64)
  also have "\<dots> = Inr (wrap64 (acc + retention_sum (t # ts)))"
    using Cons.IH [OF ok] m by (simp add: t algebra_simps)
  finally show ?case .
qed

lemma digit_not_space: "is_digit c \<Longrightarrow> \<not> is_space c" and alpha_not_space: "isAlpha c \<Longrightarrow> \<not> is_space c"
  by (auto simp: is_digit_def isAlpha_def is_lower_def is_upper_def is_space_def)

lemma alpha_not_num: "isAlpha c \<Longrightarrow> \<not> is_num_byte c"
  by (auto simp: is_num_byte_def is_digit_def isAlpha_def is_lower_def is_upper_def)

lemma split_alpha_unit:
  "list_all is_num_byte a \<Longrightarrow> list_all isAlpha u \<Longrightarrow>
   takeWhile is_num_byte (a @ u) = a \<and> dropWhile is_num_byte (a @ u) = u"
  by (cases u) (auto simp: takeWhile_all_append dropWhile_all_append alpha_not_num list_all_iff)

lemma parse_float_itoa:
  assumes "0 \<le> n" and "n \<le> 2 ^ 53"
  shows "parse_float_decimal (itoa n) = Some (of_int n)"
proof -
  have "CHR ''.'' \<notin> set (itoa n)"
    using itoa_digits [OF assms(1)] by (auto simp: list_all_iff is_digit_def)
  then have "decimal_value (itoa n) = Some (of_nat (nat n))"
    using itoa_digits [OF assms(1)] assms(1)
    by (simp add: decimal_value_def split_on_id digits_value_itoa)
  moreover have "round64 (of_nat (nat n)) = of_int n"
    using assms round64_of_nat [of "nat n"] by simp
  moreover have "\<not> 2 ^ 1024 \<le> (of_int n :: rat)"
  proof -
    have "(of_int n :: rat) \<le> of_int (2 ^ 53)" using assms(2) by (simp only: of_int_le_iff)
    also have "\<dots> < 2 ^ 1024" by simp
    finally show ?thesis by simp
  qed
  ultimately show ?thesis by (simp add: parse_float_decimal_def)
qed

lemma ParseSize_itoa:
  assumes "0 \<le> n" "n \<le> 2 ^ 53" "list_all isAlpha u" "size_mult (to_lower u) = Some m"
    and "in_int64 (n * m)"
  shows "ParseSize (itoa n @ u) = Inr (n * m)"
proof -
  have dig: "list_all is_digit (itoa n)" "itoa n \<noteq> []" using itoa_digits [OF assms(1)] by auto
  then have num: "list_all is_num_byte (itoa n)" by (auto simp: list_all_iff is_num_byte_def)
  have "trim_space (itoa n @ u) = itoa n @ u" "trim_space u = u"
    using dig assms(3) by (auto intro!: trim_space_id simp: list_all_iff digit_not_space alpha_not_space)
  moreover have "go_int (Fin (of_int n * of_int m)) = n * m"
    using assms(5) by (simp add: go_int_def flip: of_int_mult)
  ultimately show ?thesis
    using dig split_alpha_unit [OF num assms(3)] assms(4)
    by (simp add: ParseSize_def Let_def parse_float_itoa [OF assms(1,2)])
qed

section \<open>Facts about truncation\<close>

lemma walk_back_le: "walk_back s keep \<le> keep"
proof (induction s keep rule: walk_back.induct)
  case (1 s keep)
  show ?case
  proof (cases "0 < keep \<and> 128 \<le> byte_of (s ! (keep - 1))")
    case True
    with "1.IH" rune_start_le [of s "keep - 1"] show ?thesis
      by (simp add: walk_back.simps [of s keep])
  next
    case False
    then have "walk_back s keep = keep" by (auto simp: walk_back.simps [of s keep])
    then show ?thesis by simp
  qed
qed

lemma walk_back_ascii:
  "walk_back s keep = 0 \<or> byte_of (s ! (walk_back s keep - 1)) < 128"
proof (induction s keep rule: walk_back.induct)
  case (1 s keep)
  then show ?case
    by (cases "0 < keep \<and> 128 \<le> byte_of (s ! (keep - 1))")
      (auto simp: walk_back.simps [of s keep])
qed

lemma walk_back_no_ascii:
  "\<forall>i<keep. 128 \<le> byte_of (s ! i) \<Longrightarrow> walk_back s keep = 0"
proof (induction s keep rule: walk_back.induct)
  case (1 s keep)
  show ?case
  proof (cases "keep = 0")
    case False
    then have g: "0 < keep \<and> 128 \<le> byte_of (s ! (keep - 1))" using "1.prems" by simp
    have "\<forall>i<rune_start s (keep - 1). 128 \<le> byte_of (s ! i)"
      using "1.prems" rune_start_le [of s "keep - 1"] False by auto
    from "1.IH" [OF g this] g show ?thesis by (simp add: walk_back.simps [of s keep])
  qed (simp add: walk_back.simps)
qed

lemma length_dataEnvelope:
  "length (dataEnvelope n p) = 46 + length (itoa n) + length (quoteJSON p)"
  by (simp add: dataEnvelope_def)

lemma length_dataEnvelope_min [simp]: "length (dataEnvelope 0 []) = 49"
  by (simp add: length_dataEnvelope itoa_def quoteJSON_def)

lemma length_truncated_marker [simp]: "length truncated_marker = 19"
  by (simp add: truncated_marker_def)

lemma length_TruncateMessage_le: "0 < mx \<Longrightarrow> int (length (TruncateMessage s mx)) \<le> mx"
  using walk_back_le [of s "min (nat mx - 14) (length s)"]
  by (auto simp: TruncateMessage_def Let_def)

lemma TruncateMessage_prefix:
  "14 < mx \<Longrightarrow> mx < int (length s) \<Longrightarrow>
   TruncateMessage s mx = take (walk_back s (nat mx - 14)) s @ TruncatedSuffix"
  by (simp add: TruncateMessage_def Let_def min_def)


lemma show_retention_ends: "retention_ok ts \<Longrightarrow> ts \<noteq> [] \<Longrightarrow> isAlpha (last (show_retention ts))"
proof (induction ts)
  case (Cons t ts)
  obtain n u where t: "t = (n, u)" by (cases t)
  have u: "u \<in> fst ` set retention_units" and ok: "retention_ok ts"
    using Cons.prems by (auto simp: retention_ok_def t)
  show ?case
  proof (cases "ts = []")
    case True
    then show ?thesis using unit_letter(1) [OF u] by (simp add: t)
  next
    case False
    then have "show_retention ts \<noteq> []" by (cases ts) auto
    then show ?thesis using Cons.IH [OF ok False] by (simp add: t)
  qed
qed simp

lemma show_retention_no_space: "retention_ok ts \<Longrightarrow> list_all (\<lambda>c. \<not> is_space c) (show_retention ts)"
proof (induction ts)
  case (Cons t ts)
  obtain n u where t: "t = (n, u)" by (cases t)
  have n: "0 \<le> n" and u: "u \<in> fst ` set retention_units" and ok: "retention_ok ts"
    using Cons.prems by (auto simp: retention_ok_def t)
  have "list_all (\<lambda>c. \<not> is_space c) (itoa n)"
    using itoa_digits [OF n] by (auto simp: list_all_iff digit_not_space)
  then show ?case using Cons.IH [OF ok] unit_letter(1) [OF u] by (simp add: t alpha_not_space)
qed simp

lemma trim_show_retention:
  assumes "retention_ok ts" "ts \<noteq> []"
  shows "trim_space (show_retention ts) = show_retention ts"
    and "show_retention ts \<noteq> []" and "show_retention ts \<noteq> ''0''"
proof -
  show ne: "show_retention ts \<noteq> []" using assms(2) by (cases ts) auto
  show "trim_space (show_retention ts) = show_retention ts"
    by (rule trim_space_id) (use show_retention_no_space [OF assms(1)] in \<open>simp add: list_all_iff\<close>)
  show "show_retention ts \<noteq> ''0''"
    using show_retention_ends [OF assms] by (auto simp: isAlpha_def is_lower_def is_upper_def)
qed

section \<open>Properties\<close>

text \<open>Reading a retention is exact up to the \<^verbatim>\<open>int64\<close> wrap-around: a printed sequence of
  numbers and unit letters reads back as the sum of its terms, reduced modulo 2^64. Nothing
  reports an overflow: 213504 days reads as 25 minutes.\<close>

theorem ParseRetention_roundtrip:
  assumes "retention_ok ts" and "ts \<noteq> []"
  shows "ParseRetention (show_retention ts) = Inr (wrap64 (retention_sum ts))"
  using trim_show_retention [OF assms] retention_loop_show [OF assms(1), of _ 0]
  by (simp add: ParseRetention_def wrap64_def)

theorem ParseRetention_roundtrip_witness:
  "ParseRetention (show_retention [(30, CHR ''d''), (12, CHR ''h'')]) = Inr 2635200000000000
   \<and> ParseRetention (show_retention [(213504, CHR ''d'')]) = Inr 1526290448384"
  by (subst ParseRetention_roundtrip,
      simp add: retention_ok_def retention_units_def max_int64_def, simp,
      subst ParseRetention_roundtrip,
      simp add: retention_ok_def retention_units_def max_int64_def, simp,
      simp add: retention_units_def ns_defs wrap64_def)

text \<open>Reading a size is exact while the product fits an \<^verbatim>\<open>int64\<close>: a whole number up to
  2^53 followed by any spelling of a unit gives the number times the unit.\<close>

theorem ParseSize_exact:
  assumes "0 \<le> n" "n \<le> 2 ^ 53" "list_all isAlpha u" "size_mult (to_lower u) = Some m"
    and "in_int64 (n * m)"
  shows "ParseSize (itoa n @ u) = Inr (n * m)"
  using assms by (rule ParseSize_itoa)

theorem ParseSize_exact_witness: "ParseSize (itoa 50 @ ''MiB'') = Inr 52428800"
proof -
  have "to_lower ''MiB'' = ''mib''" by code_simp
  then have "size_mult (to_lower ''MiB'') = Some (2 ^ 20)" by (simp add: size_mult_def)
  then show ?thesis
    using ParseSize_exact [of 50 "''MiB''" "2 ^ 20"]
    by (simp add: isAlpha_def is_lower_def is_upper_def in_int64_def min_int64_def max_int64_def)
qed

text \<open>A positive cap bounds the stored message, and a message cut above the suffix length is
  a prefix of the text followed by the suffix, where the prefix is empty or ends in an ASCII byte
  (so no multi-byte rune is split); a text whose kept bytes are all non-ASCII keeps nothing but
  the suffix.\<close>

theorem TruncateMessage_correct:
  assumes "14 < mx" and "mx < int (length s)"
  shows "int (length (TruncateMessage s mx)) \<le> mx
    \<and> (\<exists>k \<le> nat mx - 14. TruncateMessage s mx = take k s @ TruncatedSuffix
         \<and> (k = 0 \<or> byte_of (s ! (k - 1)) < 128)
         \<and> ((\<forall>i < nat mx - 14. 128 \<le> byte_of (s ! i)) \<longrightarrow> k = 0)
         \<and> ((\<forall>i < nat mx - 14. byte_of (s ! i) < 128) \<longrightarrow> k = nat mx - 14))"
proof (intro conjI exI)
  let ?k = "walk_back s (nat mx - 14)"
  show "int (length (TruncateMessage s mx)) \<le> mx"
    using assms(1) by (intro length_TruncateMessage_le) simp
  show "?k \<le> nat mx - 14" by (rule walk_back_le)
  show "TruncateMessage s mx = take ?k s @ TruncatedSuffix"
    by (rule TruncateMessage_prefix [OF assms])
  show "?k = 0 \<or> byte_of (s ! (?k - 1)) < 128" by (rule walk_back_ascii)
  show "(\<forall>i < nat mx - 14. 128 \<le> byte_of (s ! i)) \<longrightarrow> ?k = 0"
    by (simp add: walk_back_no_ascii)
  show "(\<forall>i < nat mx - 14. byte_of (s ! i) < 128) \<longrightarrow> ?k = nat mx - 14"
  proof
    assume a: "\<forall>i < nat mx - 14. byte_of (s ! i) < 128"
    have "nat mx - 14 - 1 < nat mx - 14" using assms(1) by simp
    with a have "byte_of (s ! (nat mx - 14 - 1)) < 128" by blast
    then have "\<not> (0 < nat mx - 14 \<and> 128 \<le> byte_of (s ! (nat mx - 14 - 1)))" by simp
    then show "?k = nat mx - 14" by (subst walk_back.simps) (simp only: if_False)
  qed
qed

theorem TruncateMessage_correct_witness:
  "int (length (TruncateMessage (replicate 40 (CHR ''x'')) 20)) \<le> 20"
  using TruncateMessage_correct [of 20 "replicate 40 (CHR ''x'')"] by simp

text \<open>The data envelope stays bounded only above the envelope's own size: with a cap of at
  least 51 bytes the result has at most 48 bytes plus the digits of the size plus three times the
  preview, and a cap of 49 or 50 bytes, for which no preview is left, stores the whole data as
  the preview.\<close>

theorem TruncateData_bounds:
  assumes "0 < mx" and "mx < int (length data)"
  shows "(51 \<le> mx \<longrightarrow>
            int (length (TruncateData data mx))
              \<le> 48 + int (length (itoa (int (length data)))) + 3 * ((mx - 49) div 2))
         \<and> (mx = 49 \<or> mx = 50 \<longrightarrow> TruncateData data mx = dataEnvelope (int (length data)) data)
         \<and> (mx < 49 \<longrightarrow> TruncateData data mx = truncated_marker)"
proof (intro conjI impI)
  assume big: "51 \<le> mx"
  define p where "p = (mx - 49) div 2"
  have p: "0 < p" using big by (simp add: p_def)
  have "TruncateData data mx = dataEnvelope (int (length data)) (TruncateMessage data p)"
    using assms big p by (simp add: TruncateData_def Let_def p_def)
  moreover have "int (length (TruncateMessage data p)) \<le> p" by (rule length_TruncateMessage_le [OF p])
  ultimately show "int (length (TruncateData data mx))
      \<le> 48 + int (length (itoa (int (length data)))) + 3 * ((mx - 49) div 2)"
    using length_quoteJSON [of "TruncateMessage data p"]
    by (simp add: length_dataEnvelope p_def [symmetric])
next
  assume "mx = 49 \<or> mx = 50"
  then show "TruncateData data mx = dataEnvelope (int (length data)) data"
    using assms by (auto simp: TruncateData_def TruncateMessage_def)
next
  assume "mx < 49"
  then show "TruncateData data mx = truncated_marker"
    using assms by (simp add: TruncateData_def)
qed

theorem TruncateData_bounds_witness:
  "TruncateData (replicate 60 (CHR ''x'')) 49 = dataEnvelope 60 (replicate 60 (CHR ''x''))"
  using TruncateData_bounds [of 49 "replicate 60 (CHR ''x'')"] by simp

end
