(* ===== verification/Klog_Sink.thy ===== *)
theory Klog_Sink
  imports Klog_Text "HOL-Library.Product_Lexorder"
begin

text \<open>
  The log sink of \<^verbatim>\<open>internal/klog/sqlite.go\<close>: the non-blocking \<^verbatim>\<open>Emit\<close>, the single
  writer goroutine with its batch, and the pruning by age and size. Times are nanoseconds; the
  zero time is \<open>None\<close>. SQLite is outside the source: its table is a list of rows with ids, the
  outcome of each transaction and statement is an oracle (\<open>commit\<close>, \<open>exec_ok\<close>), and the size of
  the database file is a parameter \<open>fsize\<close>. The writer's \<^verbatim>\<open>select\<close> is a step relation, so
  every interleaving of emitters and writer is covered.
\<close>

section \<open>State\<close>

record klog_config =
  cfg_Path :: string
  cfg_Level :: level
  cfg_MaxRow :: int
  cfg_Retain :: int
  cfg_MaxMB :: int

record klog_record =
  r_Time :: "int option"
  r_Level :: level
  r_Category :: string
  r_Worker :: int
  r_Session :: string
  r_RemoteAddr :: string
  r_Message :: string
  r_Data :: string

text \<open>A row of the table; the optional columns are NULL for zero values.\<close>

record klog_row =
  row_id :: int
  row_ts :: int
  row_ts_unix_ms :: int
  row_level :: level
  row_category :: string
  row_worker :: "int option"
  row_session :: "string option"
  row_remote :: "string option"
  row_message :: string
  row_data :: "string option"

record klog_db =
  k_path :: string
  k_maxRow :: int
  k_minLevel :: level
  k_retain :: int
  k_maxMB :: int
  k_ch :: "klog_record list"
  k_batch :: "klog_record list"
  k_dropped :: nat
  k_rows :: nat
  k_oldest :: "int option"
  k_newest :: "int option"
  k_table :: "klog_row list"
  k_attempts :: nat
  k_done :: bool

definition DefaultPath :: string where "DefaultPath = ''klog.db''"
definition DefaultMaxRow :: int where "DefaultMaxRow = 16 * 1024"
definition batchMax :: nat where "batchMax = 64"
definition chCap :: nat where "chCap = 1024"
definition lowWaterPct :: int where "lowWaterPct = 80"

text \<open>
  \<^verbatim>\<open>Open\<close>: the outcomes of opening the file, of the three pragmas and of the schema decide
  whether a sink results; the existing table is what the file held.
\<close>

definition Open :: "bool \<Rightarrow> bool list \<Rightarrow> bool \<Rightarrow> klog_row list \<Rightarrow> klog_config \<Rightarrow> klog_db option" where
  "Open opened pragmas schema table cfg =
     (let path = (if cfg_Path cfg = [] then DefaultPath else cfg_Path cfg);
          maxRow = (if cfg_MaxRow cfg \<le> 0 then DefaultMaxRow else cfg_MaxRow cfg)
      in if \<not> opened then None
         else if \<not> list_all id pragmas then None
         else if \<not> schema then None
         else Some \<lparr>k_path = path, k_maxRow = maxRow, k_minLevel = cfg_Level cfg,
                k_retain = cfg_Retain cfg, k_maxMB = cfg_MaxMB cfg, k_ch = [], k_batch = [],
                k_dropped = 0, k_rows = 0, k_oldest = None, k_newest = None, k_table = table,
                k_attempts = 0, k_done = False\<rparr>)"

section \<open>Emit\<close>

text \<open>The non-blocking send into the record channel.\<close>

definition send_record :: "klog_record \<Rightarrow> klog_db \<Rightarrow> bool \<times> klog_db" where
  "send_record r d =
     (if length (k_ch d) < chCap then (True, d\<lparr>k_ch := k_ch d @ [r]\<rparr>)
      else (False, d\<lparr>k_dropped := Suc (k_dropped d)\<rparr>))"

definition capped :: "int \<Rightarrow> klog_record \<Rightarrow> klog_record" where
  "capped maxRow r =
     (if 0 < maxRow then
        (let m = TruncateMessage (r_Message r) maxRow;
             left = maxRow - int (length m);
             left' = (if left < 0 then 0 else left)
         in r\<lparr>r_Message := m, r_Data := TruncateData (r_Data r) left'\<rparr>)
      else r)"

definition Emit :: "int \<Rightarrow> klog_record \<Rightarrow> klog_db \<Rightarrow> klog_db" where
  "Emit now r d =
     (if r_Level r > k_minLevel d then d
      else (let r1 = (if r_Time r = None then r\<lparr>r_Time := Some now\<rparr> else r)
            in snd (send_record (capped (k_maxRow d) r1) d)))"

section \<open>The writer\<close>

definition opt_str :: "string \<Rightarrow> string option" where
  "opt_str s = (if s = [] then None else Some s)"

definition rec_time :: "klog_record \<Rightarrow> int" where
  "rec_time r = (case r_Time r of None \<Rightarrow> 0 | Some t \<Rightarrow> t)"

definition unix_milli :: "int \<Rightarrow> int" where
  "unix_milli t = t div 1000000"

definition row_of :: "int \<Rightarrow> klog_record \<Rightarrow> klog_row" where
  "row_of i r = \<lparr>row_id = i, row_ts = rec_time r, row_ts_unix_ms = unix_milli (rec_time r),
     row_level = r_Level r, row_category = r_Category r,
     row_worker = (if r_Worker r \<noteq> 0 then Some (r_Worker r) else None),
     row_session = opt_str (r_Session r), row_remote = opt_str (r_RemoteAddr r),
     row_message = r_Message r, row_data = opt_str (r_Data r)\<rparr>"

definition next_id :: "klog_row list \<Rightarrow> int" where
  "next_id t = foldr (\<lambda>r m. max (row_id r) m) t 0 + 1"

text \<open>\<^verbatim>\<open>insertBatch\<close> runs in one transaction: all rows are added or none.\<close>

fun insertBatch :: "klog_record list \<Rightarrow> klog_row list \<Rightarrow> klog_row list" where
  "insertBatch [] t = t"
| "insertBatch (r # rs) t = insertBatch rs (t @ [row_of (next_id t) r])"

definition min_time :: "int option \<Rightarrow> int \<Rightarrow> int option" where
  "min_time b t = (case b of None \<Rightarrow> Some t | Some u \<Rightarrow> Some (if t < u then t else u))"

definition max_time :: "int option \<Rightarrow> int \<Rightarrow> int option" where
  "max_time b t = (case b of None \<Rightarrow> Some t | Some u \<Rightarrow> Some (if u < t then t else u))"

definition insert_pending :: "(nat \<Rightarrow> bool) \<Rightarrow> klog_db \<Rightarrow> klog_db" where
  "insert_pending commit d =
     (if k_batch d = [] then d
      else if commit (k_attempts d) then
        d\<lparr>k_table := insertBatch (k_batch d) (k_table d),
          k_rows := k_rows d + length (k_batch d),
          k_oldest := foldl min_time (k_oldest d) (map rec_time (k_batch d)),
          k_newest := foldl max_time (k_newest d) (map rec_time (k_batch d)),
          k_batch := [], k_attempts := Suc (k_attempts d)\<rparr>
      else
        d\<lparr>k_dropped := k_dropped d + length (k_batch d), k_batch := [],
          k_attempts := Suc (k_attempts d)\<rparr>)"

text \<open>Taking one record off the channel, inserting when the batch is full.\<close>

definition take_one :: "(nat \<Rightarrow> bool) \<Rightarrow> klog_record \<Rightarrow> klog_record list \<Rightarrow> klog_db \<Rightarrow> klog_db" where
  "take_one commit r rest d =
     (let d1 = d\<lparr>k_ch := rest, k_batch := k_batch d @ [r]\<rparr>
      in if batchMax \<le> length (k_batch d1) then insert_pending commit d1 else d1)"

fun drain_loop :: "(nat \<Rightarrow> bool) \<Rightarrow> klog_record list \<Rightarrow> klog_db \<Rightarrow> klog_db" where
  "drain_loop commit [] d = d"
| "drain_loop commit (r # rest) d = drain_loop commit rest (take_one commit r rest d)"

definition drain :: "(nat \<Rightarrow> bool) \<Rightarrow> klog_db \<Rightarrow> klog_db" where
  "drain commit d = drain_loop commit (k_ch d) d"

section \<open>Pruning\<close>

text \<open>
  \<^verbatim>\<open>DELETE ... WHERE id IN (SELECT id ... ORDER BY ts_unix_ms, id LIMIT k)\<close>.
\<close>

definition oldest_ids :: "nat \<Rightarrow> klog_row list \<Rightarrow> int list" where
  "oldest_ids k t = take k (map row_id (sort_key (\<lambda>r. (row_ts_unix_ms r, row_id r)) t))"

definition delete_oldest :: "nat \<Rightarrow> klog_row list \<Rightarrow> klog_row list" where
  "delete_oldest k t = filter (\<lambda>r. row_id r \<notin> set (oldest_ids k t)) t"

lemma length_delete_oldest_less: "t \<noteq> [] \<Longrightarrow> 0 < k \<Longrightarrow> length (delete_oldest k t) < length t"
proof -
  assume "t \<noteq> []" and "0 < k"
  then obtain r rs where s: "sort_key (\<lambda>r. (row_ts_unix_ms r, row_id r)) t = r # rs"
    by (cases "sort_key (\<lambda>r. (row_ts_unix_ms r, row_id r)) t")
      (auto dest: arg_cong [where f = length])
  have "r \<in> set t"
    using s by (metis list.set_intros(1) set_sort)
  moreover have "row_id r \<in> set (oldest_ids k t)"
    using \<open>0 < k\<close> by (cases k) (simp_all add: oldest_ids_def s)
  ultimately show ?thesis
    unfolding delete_oldest_def by (intro length_filter_less) auto
qed

text \<open>
  The size loop: \<open>i\<close> counts its iterations, so that file size and statement outcome may differ
  from one to the next.
\<close>

function prune_loop ::
  "(nat \<Rightarrow> klog_row list \<Rightarrow> int) \<Rightarrow> (nat \<Rightarrow> bool) \<Rightarrow> int \<Rightarrow> nat \<Rightarrow> klog_row list \<Rightarrow> nat
   \<Rightarrow> klog_row list \<times> nat" where
  "prune_loop fsize exec_ok low i t removed =
     (if fsize i t \<le> low then (t, removed)
      else if \<not> exec_ok i then (t, removed)
      else (let n = length t - length (delete_oldest 1000 t)
            in if n = 0 then (t, removed)
               else prune_loop fsize exec_ok low (Suc i) (delete_oldest 1000 t) (removed + n)))"
  by pat_completeness auto
termination
  by (relation "measure (\<lambda>(fsize, exec_ok, low, i, t, removed). length t)") auto

declare prune_loop.simps [simp del]

definition go_div :: "int \<Rightarrow> int \<Rightarrow> int" where
  "go_div a b = sgn a * sgn b * (\<bar>a\<bar> div \<bar>b\<bar>)"

definition low_water :: "int \<Rightarrow> int" where
  "low_water maxMB = go_div (wrap64 (wrap64 (maxMB * 2 ^ 20) * lowWaterPct)) 100"

definition prune_age :: "bool \<Rightarrow> int \<Rightarrow> klog_db \<Rightarrow> klog_row list" where
  "prune_age age_ok now d =
     (if 0 < k_retain d \<and> age_ok
      then filter (\<lambda>r. \<not> row_ts_unix_ms r < unix_milli (now - k_retain d)) (k_table d)
      else k_table d)"

definition prune_size ::
  "(nat \<Rightarrow> klog_row list \<Rightarrow> int) \<Rightarrow> (nat \<Rightarrow> bool) \<Rightarrow> int \<Rightarrow> klog_row list \<Rightarrow> nat
   \<Rightarrow> klog_row list \<times> nat" where
  "prune_size fsize exec_ok maxMB t removed =
     (if 0 < maxMB then prune_loop fsize exec_ok (low_water maxMB) 0 t removed else (t, removed))"

definition prune ::
  "(nat \<Rightarrow> klog_row list \<Rightarrow> int) \<Rightarrow> (nat \<Rightarrow> bool) \<Rightarrow> bool \<Rightarrow> int \<Rightarrow> klog_db \<Rightarrow> klog_db \<times> nat" where
  "prune fsize exec_ok age_ok now d =
     (let t1 = prune_age age_ok now d;
          tr = prune_size fsize exec_ok (k_maxMB d) t1 (length (k_table d) - length t1)
      in (d\<lparr>k_table := fst tr\<rparr>, snd tr))"

record klog_stats =
  st_Rows :: nat
  st_Dropped :: nat
  st_Oldest :: "int option"
  st_Newest :: "int option"
  st_Path :: string

definition Stats :: "klog_db \<Rightarrow> klog_stats" where
  "Stats d = \<lparr>st_Rows = k_rows d, st_Dropped = k_dropped d, st_Oldest = k_oldest d,
     st_Newest = k_newest d, st_Path = k_path d\<rparr>"

section \<open>Writer iterations and the step relation\<close>

definition on_recv :: "(nat \<Rightarrow> bool) \<Rightarrow> klog_db \<Rightarrow> klog_db" where
  "on_recv commit d = (case k_ch d of [] \<Rightarrow> d | r # rest \<Rightarrow> take_one commit r rest d)"

definition on_flush :: "(nat \<Rightarrow> bool) \<Rightarrow> klog_db \<Rightarrow> klog_db" where
  "on_flush commit d = insert_pending commit (drain commit d)"

definition on_stop :: "(nat \<Rightarrow> bool) \<Rightarrow> klog_db \<Rightarrow> klog_db" where
  "on_stop commit d = (insert_pending commit (drain commit d))\<lparr>k_done := True\<rparr>"

text \<open>
  \<open>klog_run commit d0 n p d\<close>: from the freshly opened \<open>d0\<close>, after \<open>n\<close> records accepted by
  the level gate and \<open>p\<close> rows pruned, the sink is in state \<open>d\<close>.
\<close>

inductive klog_run :: "(nat \<Rightarrow> bool) \<Rightarrow> klog_db \<Rightarrow> nat \<Rightarrow> nat \<Rightarrow> klog_db \<Rightarrow> bool" for commit d0 where
  run_start: "klog_run commit d0 0 0 d0"
| run_emit: "klog_run commit d0 n p d \<Longrightarrow>
    klog_run commit d0 (if r_Level r > k_minLevel d then n else Suc n) p (Emit now r d)"
| run_recv: "klog_run commit d0 n p d \<Longrightarrow> \<not> k_done d \<Longrightarrow> klog_run commit d0 n p (on_recv commit d)"
| run_tick: "klog_run commit d0 n p d \<Longrightarrow> \<not> k_done d \<Longrightarrow> klog_run commit d0 n p (insert_pending commit d)"
| run_flush: "klog_run commit d0 n p d \<Longrightarrow> \<not> k_done d \<Longrightarrow> klog_run commit d0 n p (on_flush commit d)"
| run_prune: "klog_run commit d0 n p d \<Longrightarrow> \<not> k_done d \<Longrightarrow>
    prune fsize exec_ok age_ok now (on_flush commit d) = (d', q) \<Longrightarrow>
    klog_run commit d0 n (p + q) d'"
| run_stop: "klog_run commit d0 n p d \<Longrightarrow> \<not> k_done d \<Longrightarrow> klog_run commit d0 n p (on_stop commit d)"

section \<open>The channel is a bounded queue\<close>

interpretation klog_queue: bounded_queue k_ch send_record chCap
  by unfold_locales (auto simp: send_record_def)

section \<open>Accounting\<close>

definition accounted :: "klog_db \<Rightarrow> nat" where
  "accounted d = length (k_ch d) + length (k_batch d) + k_rows d + k_dropped d"

lemma accounted_Emit:
  "accounted (Emit now r d) = (if r_Level r > k_minLevel d then accounted d else Suc (accounted d))"
  by (simp add: Emit_def send_record_def accounted_def Let_def)

lemma accounted_insert [simp]: "accounted (insert_pending commit d) = accounted d"
  by (simp add: insert_pending_def accounted_def)

lemma insert_pending_fields [simp]:
  "k_ch (insert_pending commit d) = k_ch d" "k_batch (insert_pending commit d) = []"
  "k_minLevel (insert_pending commit d) = k_minLevel d" "k_done (insert_pending commit d) = k_done d"
  "k_maxRow (insert_pending commit d) = k_maxRow d" "k_retain (insert_pending commit d) = k_retain d"
  "k_maxMB (insert_pending commit d) = k_maxMB d"
  by (simp_all add: insert_pending_def)

lemma length_insertBatch [simp]: "length (insertBatch rs t) = length rs + length t"
  by (induction rs t rule: insertBatch.induct) auto

lemma accounted_take_one: "k_ch d = r # rest \<Longrightarrow> accounted (take_one commit r rest d) = accounted d"
  by (simp add: take_one_def Let_def) (simp add: accounted_def)

lemma take_one_fields [simp]:
  "k_ch (take_one commit r rest d) = rest" "k_minLevel (take_one commit r rest d) = k_minLevel d"
  "k_done (take_one commit r rest d) = k_done d" "k_retain (take_one commit r rest d) = k_retain d"
  "k_maxMB (take_one commit r rest d) = k_maxMB d"
  by (simp_all add: take_one_def Let_def)

lemma take_one_batch:
  "length (k_batch d) < batchMax \<Longrightarrow> length (k_batch (take_one commit r rest d)) < batchMax"
  by (simp add: take_one_def Let_def batchMax_def)

lemma drain_loop_spec:
  "k_ch d = rs \<Longrightarrow> accounted (drain_loop commit rs d) = accounted d \<and> k_ch (drain_loop commit rs d) = []"
proof (induction rs arbitrary: d)
  case Nil
  then show ?case by simp
next
  case (Cons r rs)
  have "k_ch (take_one commit r rs d) = rs" by simp
  from Cons.IH [OF this] Cons.prems show ?case by (simp add: accounted_take_one)
qed

lemma drain_loop_fields [simp]:
  "k_minLevel (drain_loop commit rs d) = k_minLevel d" "k_done (drain_loop commit rs d) = k_done d"
  "k_retain (drain_loop commit rs d) = k_retain d" "k_maxMB (drain_loop commit rs d) = k_maxMB d"
  by (induction rs arbitrary: d) simp_all

lemma drain_loop_batch:
  "length (k_batch d) < batchMax \<Longrightarrow> length (k_batch (drain_loop commit rs d)) < batchMax"
  by (induction rs arbitrary: d) (auto intro: take_one_batch)

lemma accounted_drain [simp]: "accounted (drain commit d) = accounted d" "k_ch (drain commit d) = []"
  by (simp_all add: drain_def drain_loop_spec)

text \<open>Rows written, against rows in the table.\<close>

definition table_gap :: "klog_db \<Rightarrow> int" where
  "table_gap d = int (k_rows d) - int (length (k_table d))"

lemma table_gap_insert [simp]: "table_gap (insert_pending commit d) = table_gap d"
  by (simp add: table_gap_def insert_pending_def)

lemma table_gap_take_one [simp]: "table_gap (take_one commit r rest d) = table_gap d"
  by (simp add: take_one_def Let_def) (simp add: table_gap_def)

lemma table_gap_drain [simp]: "table_gap (drain commit d) = table_gap d"
proof -
  have "table_gap (drain_loop commit rs d) = table_gap d" for rs
    by (induction rs arbitrary: d) simp_all
  then show ?thesis by (simp add: drain_def)
qed

lemma table_gap_Emit [simp]: "table_gap (Emit now r d) = table_gap d"
  by (simp add: Emit_def send_record_def table_gap_def Let_def)

lemma prune_loop_count:
  "prune_loop fsize exec_ok low i t removed = (t', removed') \<Longrightarrow>
   length t' + removed' = length t + removed"
proof (induction fsize exec_ok low i t removed arbitrary: t' removed' rule: prune_loop.induct)
  case (1 fsize exec_ok low i t removed)
  have le: "length (delete_oldest 1000 t) \<le> length t" by (simp add: delete_oldest_def)
  show ?case
    using 1 le by (subst (asm) (2) prune_loop.simps) (fastforce simp: Let_def split: if_splits)
qed

lemma prune_size_count:
  "prune_size fsize exec_ok maxMB t removed = (t', removed') \<Longrightarrow>
   length t' + removed' = length t + removed"
  by (auto simp: prune_size_def split: if_splits dest: prune_loop_count)

lemma prune_count:
  assumes "prune fsize exec_ok age_ok now d = (d', q)"
  shows "length (k_table d') + q = length (k_table d)"
proof -
  have "length (prune_age age_ok now d) \<le> length (k_table d)" by (simp add: prune_age_def)
  moreover have "prune_size fsize exec_ok (k_maxMB d) (prune_age age_ok now d)
      (length (k_table d) - length (prune_age age_ok now d)) = (k_table d', q)"
    using assms by (auto simp: prune_def Let_def)
  ultimately show ?thesis using prune_size_count by fastforce
qed

lemma prune_fields:
  assumes "prune fsize exec_ok age_ok now d = (d', q)"
  shows "accounted d' = accounted d" "k_ch d' = k_ch d" "k_batch d' = k_batch d"
    "k_done d' = k_done d" "k_rows d' = k_rows d"
  using assms by (auto simp: prune_def Let_def accounted_def)

text \<open>Which rows a size prune keeps.\<close>

abbreviation row_key :: "klog_row \<Rightarrow> int \<times> int" where
  "row_key r \<equiv> (row_ts_unix_ms r, row_id r)"

definition keeps_newest :: "klog_row list \<Rightarrow> klog_row list \<Rightarrow> bool" where
  "keeps_newest t t' \<longleftrightarrow> set t' \<subseteq> set t \<and> distinct (map row_id t') \<and>
     (\<forall>r\<in>set t'. \<forall>r'\<in>set t - set t'. row_key r' \<le> row_key r)"

lemma delete_oldest_newest:
  assumes "distinct (map row_id t)"
  shows "keeps_newest t (delete_oldest k t)"
proof -
  let ?s = "sort_key row_key t"
  have ids: "row_id r \<in> set (oldest_ids k t) \<longleftrightarrow> r \<in> set (take k ?s)" if "r \<in> set t" for r
  proof
    assume "row_id r \<in> set (oldest_ids k t)"
    then obtain r' where r': "r' \<in> set (take k ?s)" "row_id r' = row_id r"
      by (auto simp: oldest_ids_def take_map)
    then have "r' \<in> set t" by (metis in_set_takeD set_sort)
    with assms that r'(2) have "r' = r" by (metis distinct_map inj_on_def)
    with r' show "r \<in> set (take k ?s)" by simp
  qed (auto simp: oldest_ids_def take_map)
  have "row_key r' \<le> row_key r"
    if r: "r \<in> set (delete_oldest k t)" and r': "r' \<in> set t - set (delete_oldest k t)" for r r'
  proof -
    have "r' \<in> set (take k ?s)" using r' ids by (auto simp: delete_oldest_def)
    moreover have "r \<in> set (drop k ?s)"
    proof -
      have "r \<in> set ?s" using r by (simp add: delete_oldest_def)
      moreover have "r \<notin> set (take k ?s)" using r ids by (auto simp: delete_oldest_def)
      ultimately show ?thesis by (metis UnE append_take_drop_id set_append)
    qed
    moreover have "sorted (map row_key (take k ?s @ drop k ?s))" by simp
    ultimately show ?thesis unfolding map_append sorted_append by auto
  qed
  then show ?thesis
    using assms by (auto simp: keeps_newest_def delete_oldest_def distinct_map_filter)
qed

lemma keeps_newest_trans:
  "keeps_newest t t' \<Longrightarrow> keeps_newest t' t'' \<Longrightarrow> keeps_newest t t''"
  unfolding keeps_newest_def by blast

lemma prune_loop_newest:
  "distinct (map row_id t) \<Longrightarrow>
   keeps_newest t (fst (prune_loop fsize exec_ok low i t removed))"
proof (induction fsize exec_ok low i t removed rule: prune_loop.induct)
  case (1 fsize exec_ok low i t removed)
  have self: "keeps_newest t t" using "1.prems" by (simp add: keeps_newest_def)
  have step: "keeps_newest t (delete_oldest 1000 t)" using "1.prems" by (rule delete_oldest_newest)
  then have d: "distinct (map row_id (delete_oldest 1000 t))" by (simp add: keeps_newest_def)
  let ?stop = "fsize i t \<le> low \<or> \<not> exec_ok i \<or> length t - length (delete_oldest 1000 t) = 0"
  show ?case
  proof (cases ?stop)
    case True
    then have "prune_loop fsize exec_ok low i t removed = (t, removed)"
      by (auto simp: prune_loop.simps [of fsize exec_ok low i t removed] Let_def)
    with self show ?thesis by simp
  next
    case False
    then have "prune_loop fsize exec_ok low i t removed = prune_loop fsize exec_ok low (Suc i)
        (delete_oldest 1000 t) (removed + (length t - length (delete_oldest 1000 t)))"
      by (auto simp: prune_loop.simps [of fsize exec_ok low i t removed] Let_def)
    with "1.IH" [OF _ _ refl _ d] False keeps_newest_trans [OF step] show ?thesis by auto
  qed
qed

lemma prune_loop_Nil [simp]: "fst (prune_loop fsize exec_ok low i [] removed) = []"
  by (subst prune_loop.simps) (simp add: delete_oldest_def)

lemma prune_loop_exhausts:
  "(\<And>j u. low < fsize j u) \<Longrightarrow> (\<And>j. exec_ok j) \<Longrightarrow>
   fst (prune_loop fsize exec_ok low i t removed) = []"
proof (induction fsize exec_ok low i t removed rule: prune_loop.induct)
  case (1 fsize exec_ok low i t removed)
  have g: "\<not> fsize i t \<le> low" "\<not> \<not> exec_ok i" using "1.prems" by (auto simp: not_le)
  show ?case
  proof (cases "t = []")
    case True
    then show ?thesis by simp
  next
    case False
    then have "length t - length (delete_oldest 1000 t) \<noteq> 0"
      using length_delete_oldest_less [of t 1000] by simp
    with "1.IH" [OF g refl _ "1.prems"] g show ?thesis
      by (simp add: prune_loop.simps [of fsize exec_ok low i t removed] Let_def)
  qed
qed

section \<open>The invariant of a run\<close>

definition fresh_sink :: "klog_db \<Rightarrow> bool" where
  "fresh_sink d \<longleftrightarrow> k_ch d = [] \<and> k_batch d = [] \<and> k_dropped d = 0 \<and> k_rows d = 0 \<and> \<not> k_done d"

definition klog_inv :: "klog_db \<Rightarrow> nat \<Rightarrow> nat \<Rightarrow> klog_db \<Rightarrow> bool" where
  "klog_inv d0 n p d \<longleftrightarrow>
     accounted d = n \<and> table_gap d = int p - int (length (k_table d0)) \<and>
     length (k_ch d) \<le> chCap \<and> length (k_batch d) < batchMax"

lemma Open_fresh: "Open opened pragmas schema table cfg = Some d \<Longrightarrow> fresh_sink d \<and> 0 < k_maxRow d"
  by (auto simp: Open_def Let_def fresh_sink_def DefaultMaxRow_def split: if_splits)

lemma Emit_batch [simp]: "k_batch (Emit now r d) = k_batch d"
  by (simp add: Emit_def send_record_def Let_def)

lemma Emit_queue_bound: "length (k_ch d) \<le> chCap \<Longrightarrow> length (k_ch (Emit now r d)) \<le> chCap"
  unfolding Emit_def Let_def by (simp add: klog_queue.offer_bounded)

lemma klog_inv_flush: "klog_inv d0 n p d \<Longrightarrow> klog_inv d0 n p (on_flush commit d)"
  by (simp add: klog_inv_def on_flush_def batchMax_def)

lemma klog_run_inv: "klog_run commit d0 n p d \<Longrightarrow> fresh_sink d0 \<Longrightarrow> klog_inv d0 n p d"
proof (induction rule: klog_run.induct)
  case run_start
  then show ?case
    by (simp add: klog_inv_def fresh_sink_def accounted_def table_gap_def batchMax_def)
next
  case (run_emit n p d r now)
  then show ?case
    by (simp add: klog_inv_def accounted_Emit Emit_queue_bound)
next
  case (run_recv n p d)
  then show ?case
    by (cases "k_ch d") (auto simp: klog_inv_def on_recv_def accounted_take_one take_one_batch)
next
  case (run_tick n p d)
  then show ?case by (simp add: klog_inv_def batchMax_def)
next
  case (run_flush n p d)
  then show ?case by (simp add: klog_inv_flush)
next
  case (run_prune n p d fsize exec_ok age_ok now d' q)
  then have "klog_inv d0 n p (on_flush commit d)" by (simp add: klog_inv_flush)
  with prune_fields [OF run_prune.hyps(3)] prune_count [OF run_prune.hyps(3)] show ?case
    by (simp add: klog_inv_def table_gap_def)
next
  case (run_stop n p d)
  then have "klog_inv d0 n p (on_flush commit d)" by (simp add: klog_inv_flush)
  then show ?case by (simp add: klog_inv_def on_flush_def on_stop_def accounted_def table_gap_def)
qed

section \<open>Properties\<close>


text \<open>C8: No record is lost silently: in every interleaving of emitters, writer iterations,
  flushes and prunes, the records the level gate accepted are exactly those queued, batched,
  written or counted as dropped; the table holds what was there, plus the rows written, less the
  rows pruned; the queue stays within its capacity and the batch below its limit.\<close>

theorem klog_run_accounts:
  "klog_run commit d0 n p d \<Longrightarrow> fresh_sink d0 \<Longrightarrow>
   n = length (k_ch d) + length (k_batch d) + k_rows d + k_dropped d \<and>
   length (k_table d) + p = length (k_table d0) + k_rows d \<and>
   length (k_ch d) \<le> 1024 \<and> length (k_batch d) < 64"
  using klog_run_inv [of commit d0 n p d]
  by (simp add: klog_inv_def accounted_def table_gap_def chCap_def batchMax_def)

definition example_sink :: klog_db where
  "example_sink = \<lparr>k_path = ''klog.db'', k_maxRow = 100, k_minLevel = 2, k_retain = 0, k_maxMB = 0,
     k_ch = [], k_batch = [], k_dropped = 0, k_rows = 0, k_oldest = None, k_newest = None,
     k_table = [], k_attempts = 0, k_done = False\<rparr>"

definition example_record :: klog_record where
  "example_record = \<lparr>r_Time = None, r_Level = 0, r_Category = ''http'', r_Worker = 0,
     r_Session = [], r_RemoteAddr = [], r_Message = ''GET'', r_Data = []\<rparr>"

theorem klog_run_accounts_witness:
  "k_rows (on_flush (\<lambda>_. True) (Emit 5 example_record example_sink)) = 1 \<and>
   length (k_table (on_flush (\<lambda>_. True) (Emit 5 example_record example_sink))) = 1"
proof -
  let ?d = "on_flush (\<lambda>_. True) (Emit 5 example_record example_sink)"
  have e: "klog_run (\<lambda>_. True) example_sink (Suc 0) 0 (Emit 5 example_record example_sink)"
    using run_emit [OF run_start [of "\<lambda>_. True" example_sink], of example_record 5]
    by (simp add: example_record_def example_sink_def)
  have "klog_run (\<lambda>_. True) example_sink (Suc 0) 0 ?d"
    by (rule run_flush [OF e]) (simp add: Emit_def send_record_def Let_def example_sink_def)
  moreover have "fresh_sink example_sink" by (simp add: fresh_sink_def example_sink_def)
  ultimately have "Suc 0 = length (k_ch ?d) + length (k_batch ?d) + k_rows ?d + k_dropped ?d \<and>
      length (k_table ?d) + 0 = length (k_table example_sink) + k_rows ?d"
    using klog_run_accounts by blast
  moreover have "k_ch ?d = []" "k_batch ?d = []" "k_dropped ?d = 0" "k_table example_sink = []"
    by (simp_all add: on_flush_def Emit_def send_record_def Let_def example_record_def example_sink_def
        chCap_def insert_pending_def drain_def take_one_def batchMax_def)
  ultimately show ?thesis by simp
qed

text \<open>Size pruning removes only the oldest rows: whatever the file reports and whichever
  statements fail, every row it removes is at most as recent, by time and then id, as every row
  it keeps.\<close>

theorem prune_size_keeps_newest:
  "distinct (map row_id t) \<Longrightarrow>
   keeps_newest t (fst (prune_size fsize exec_ok maxMB t removed))"
  by (auto simp: prune_size_def prune_loop_newest) (simp add: keeps_newest_def)

theorem prune_size_keeps_newest_witness:
  "keeps_newest [row_of 1 example_record] (fst (prune_size (\<lambda>_ _. 0) (\<lambda>_. True) 1 [row_of 1 example_record] 0))"
  by (rule prune_size_keeps_newest) (simp add: row_of_def)

text \<open>Age pruning keeps exactly the rows that are not older than the retention period, in
  their order, when no size cap is set.\<close>

theorem prune_keeps_recent:
  "0 < k_retain d \<Longrightarrow> k_maxMB d \<le> 0 \<Longrightarrow>
   k_table (fst (prune fsize exec_ok True now d))
     = filter (\<lambda>r. unix_milli (now - k_retain d) \<le> row_ts_unix_ms r) (k_table d)"
  by (simp add: prune_def prune_age_def prune_size_def Let_def not_less)

theorem prune_keeps_recent_witness:
  "k_table (fst (prune (\<lambda>_ _. 0) (\<lambda>_. True) True 9000000
      (example_sink\<lparr>k_retain := 5000000,
         k_table := [row_of 1 (example_record\<lparr>r_Time := Some 3000000\<rparr>),
                     row_of 2 (example_record\<lparr>r_Time := Some 4000000\<rparr>)]\<rparr>)))
     = [row_of 2 (example_record\<lparr>r_Time := Some 4000000\<rparr>)]"
  using prune_keeps_recent [of "example_sink\<lparr>k_retain := 5000000,
      k_table := [row_of 1 (example_record\<lparr>r_Time := Some 3000000\<rparr>),
                  row_of 2 (example_record\<lparr>r_Time := Some 4000000\<rparr>)]\<rparr>" "\<lambda>_ _. 0" "\<lambda>_. True" 9000000]
  by (simp add: example_sink_def row_of_def unix_milli_def rec_time_def)

text \<open>C25: The size loop empties the log when deleting rows does not shrink the file: SQLite keeps
  freed pages in the file (and, in WAL mode, the main file is not rewritten before a checkpoint),
  so if the reported size stays above the low-water mark the loop only ends when no row is left.\<close>

theorem prune_empties_log:
  "0 < k_maxMB d \<Longrightarrow> (\<And>j u. low_water (k_maxMB d) < fsize j u) \<Longrightarrow> (\<And>j. exec_ok j) \<Longrightarrow>
   k_table (fst (prune fsize exec_ok age_ok now d)) = []"
  by (simp add: prune_def prune_size_def Let_def prune_loop_exhausts)

theorem prune_empties_log_witness:
  "k_table (fst (prune (\<lambda>_ _. 2 ^ 20) (\<lambda>_. True) True 9000000
      (example_sink\<lparr>k_maxMB := 1, k_table := [row_of 1 example_record, row_of 2 example_record]\<rparr>))) = []"
  by (rule prune_empties_log)
    (simp_all add: low_water_def go_div_def lowWaterPct_def in_int64_def min_int64_def max_int64_def)

text \<open>The per-row cap fails in the way it is meant to prevent: a message that fills the row
  leaves a budget of zero, which switches data truncation off, so the record is queued with data
  of any length.\<close>

theorem Emit_full_message_keeps_data:
  "r_Level r \<le> k_minLevel d \<Longrightarrow> 0 < k_maxRow d \<Longrightarrow> int (length (r_Message r)) = k_maxRow d \<Longrightarrow>
   length (k_ch d) < chCap \<Longrightarrow>
   \<exists>q. k_ch (Emit now r d) = k_ch d @ [q] \<and> r_Message q = r_Message r \<and> r_Data q = r_Data r"
  by (auto simp: Emit_def capped_def send_record_def TruncateMessage_def TruncateData_def Let_def)

theorem Emit_full_message_keeps_data_witness:
  "\<exists>q. k_ch (Emit 5 (example_record\<lparr>r_Data := replicate 1000 (CHR ''x'')\<rparr>)
              (example_sink\<lparr>k_maxRow := 3\<rparr>)) = [q] \<and> length (r_Data q) = 1000"
proof -
  have "\<exists>q. k_ch (Emit 5 (example_record\<lparr>r_Data := replicate 1000 (CHR ''x'')\<rparr>)
              (example_sink\<lparr>k_maxRow := 3\<rparr>)) = k_ch (example_sink\<lparr>k_maxRow := 3\<rparr>) @ [q]
      \<and> r_Message q = r_Message (example_record\<lparr>r_Data := replicate 1000 (CHR ''x'')\<rparr>)
      \<and> r_Data q = r_Data (example_record\<lparr>r_Data := replicate 1000 (CHR ''x'')\<rparr>)"
    by (rule Emit_full_message_keeps_data) (simp_all add: example_record_def example_sink_def chCap_def)
  then show ?thesis by (auto simp: example_sink_def)
qed

end
