(* ===== verification/Shared_State.thy ===== *)
theory Shared_State
  imports Go_Text
begin

text \<open>
  The key-value store the workers of a serve process share, \<^verbatim>\<open>internal/server/shared.go\<close>.
  Every operation holds the mutex for its whole body, so a run of the workers is a sequence of
  operations. A Go map read of an absent key gives the empty string.
\<close>

section \<open>The store\<close>

record shared_state =
  data :: "(string \<times> string) list"

definition NewSharedState :: shared_state where
  "NewSharedState = \<lparr>data = []\<rparr>"

definition shared_Set :: "string \<Rightarrow> string \<Rightarrow> shared_state \<Rightarrow> shared_state" where
  "shared_Set key v s = s\<lparr>data := AList.update key v (data s)\<rparr>"

definition shared_Get :: "shared_state \<Rightarrow> string \<Rightarrow> string" where
  "shared_Get s key = (case map_of (data s) key of None \<Rightarrow> [] | Some v \<Rightarrow> v)"

definition shared_Del :: "string \<Rightarrow> shared_state \<Rightarrow> shared_state" where
  "shared_Del key s = s\<lparr>data := AList.delete key (data s)\<rparr>"

definition matchPrefix :: "string \<Rightarrow> string \<Rightarrow> bool" where
  "matchPrefix key pat =
     (if 0 < length pat \<and> last pat = CHR ''*'' then
        (let pre = butlast pat in length pre \<le> length key \<and> take (length pre) key = pre)
      else key = pat)"

definition shared_Keys :: "shared_state \<Rightarrow> string \<Rightarrow> string list" where
  "shared_Keys s pat =
     filter (\<lambda>k. pat = ''*'' \<or> pat = [] \<or> matchPrefix k pat) (map fst (data s))"

definition shared_Incr :: "string \<Rightarrow> int \<Rightarrow> shared_state \<Rightarrow> shared_state \<times> int" where
  "shared_Incr key delta s =
     (let valStr = shared_Get s key;
          val0 = (if valStr \<noteq> [] then (case parse_int64 valStr of None \<Rightarrow> 0 | Some n \<Rightarrow> n) else 0);
          val = wrap64 (val0 + delta)
      in (s\<lparr>data := AList.update key (itoa val) (data s)\<rparr>, val))"

definition shared_wf :: "shared_state \<Rightarrow> bool" where
  "shared_wf s \<longleftrightarrow> alist_wf (data s)"

interpretation shared: listed_registry shared_Set shared_Del "\<lambda>s. map_of (data s)"
  "\<lambda>s. map fst (data s)" shared_wf
  by unfold_locales
    (auto simp: shared_Set_def shared_Del_def shared_wf_def dom_map_of_conv_image_fst alist_wf_def
      distinct_update distinct_delete)

lemma shared_Get_Set: "shared_Get (shared_Set k v s) k' = (if k' = k then v else shared_Get s k')"
  by (simp add: shared_Get_def shared.get_put)

lemma shared_Get_Del: "shared_Get (shared_Del k s) k' = (if k' = k then [] else shared_Get s k')"
  by (simp add: shared_Get_def shared.get_drop)

lemma shared_Incr_Set: "fst (shared_Incr k d s) = shared_Set k (itoa (snd (shared_Incr k d s))) s"
  by (simp add: shared_Incr_def shared_Set_def Let_def)

lemma matchPrefix_iff:
  "matchPrefix key pat \<longleftrightarrow>
     (\<exists>pre rest. pat = pre @ ''*'' \<and> key = pre @ rest) \<or> (key = pat \<and> (pat = [] \<or> last pat \<noteq> CHR ''*''))"
proof (cases "0 < length pat \<and> last pat = CHR ''*''")
  case True
  then have p: "pat = butlast pat @ ''*''" by (metis append_butlast_last_id length_greater_0_conv)
  have "matchPrefix key pat \<longleftrightarrow> (\<exists>rest. key = butlast pat @ rest)"
    using True by (auto simp: matchPrefix_def) (metis append_take_drop_id)
  moreover have "(\<exists>pre rest. pat = pre @ ''*'' \<and> key = pre @ rest) \<longleftrightarrow> (\<exists>rest. key = butlast pat @ rest)"
    by (metis p butlast_snoc)
  ultimately show ?thesis using True by auto
next
  case False
  then show ?thesis by (auto simp: matchPrefix_def)
qed

text \<open>The counter a key holds, as \<^verbatim>\<open>Incr\<close> reads it.\<close>

definition counter :: "shared_state \<Rightarrow> string \<Rightarrow> int" where
  "counter s k =
     (case parse_int64 (shared_Get s k) of None \<Rightarrow> 0 | Some n \<Rightarrow> n)"

lemma snd_shared_Incr: "snd (shared_Incr k d s) = wrap64 (counter s k + d)"
  by (auto simp: shared_Incr_def counter_def Let_def parse_int64_def)

lemma counter_Incr:
  "counter (fst (shared_Incr k d s)) k' =
     (if k' = k then wrap64 (counter s k + d) else counter s k')"
  by (simp add: shared_Incr_Set counter_def shared_Get_Set snd_shared_Incr parse_int64_itoa)

text \<open>
  The operations as a client issues them, and their effect; a run is any interleaving of the
  workers' calls.
\<close>

datatype shared_op = OpSet string string | OpDel string | OpIncr string int

fun op_key :: "shared_op \<Rightarrow> string" where
  "op_key (OpSet k v) = k"
| "op_key (OpDel k) = k"
| "op_key (OpIncr k d) = k"

fun op_step :: "shared_op \<Rightarrow> shared_state \<Rightarrow> shared_state" where
  "op_step (OpSet k v) s = shared_Set k v s"
| "op_step (OpDel k) s = shared_Del k s"
| "op_step (OpIncr k d) s = fst (shared_Incr k d s)"

fun incr_total :: "string \<Rightarrow> shared_op list \<Rightarrow> int" where
  "incr_total k [] = 0"
| "incr_total k (OpIncr k' d # ops) = (if k' = k then d else 0) + incr_total k ops"
| "incr_total k (op # ops) = incr_total k ops"

fun only_incr :: "string \<Rightarrow> shared_op \<Rightarrow> bool" where
  "only_incr k (OpIncr k' d) = True"
| "only_incr k op = (op_key op \<noteq> k)"

lemma in_int64_counter: "in_int64 (counter s k)"
  by (auto simp: counter_def parse_int64_def neg_digits_def parse_int64_digits_def in_int64_def
      min_int64_def max_int64_def split: list.splits if_splits option.splits)

lemma counter_fold:
  "list_all (only_incr k) ops \<Longrightarrow>
   counter (fold op_step ops s) k = wrap64 (counter s k + incr_total k ops)"
proof (induction ops arbitrary: s)
  case Nil
  then show ?case by (simp add: in_int64_counter)
next
  case (Cons op ops)
  show ?case
  proof (cases op)
    case (OpIncr k' d)
    then show ?thesis using Cons by (simp add: counter_Incr wrap64_add_left add.assoc)
  qed (use Cons in \<open>auto simp: counter_def shared_Get_Set shared_Get_Del\<close>)
qed

lemma shared_wf_step: "shared_wf s \<Longrightarrow> shared_wf (op_step op s)"
  by (cases op) (simp_all add: shared.wf_put shared.wf_drop shared_Incr_Set)

lemma shared_wf_fold: "shared_wf s \<Longrightarrow> shared_wf (fold op_step ops s)"
  by (induction ops arbitrary: s) (simp_all add: shared_wf_step)

definition key_matches :: "string \<Rightarrow> string \<Rightarrow> bool" where
  "key_matches pat k \<longleftrightarrow>
     pat = [] \<or> (\<exists>pre rest. pat = pre @ ''*'' \<and> k = pre @ rest) \<or> (k = pat \<and> last pat \<noteq> CHR ''*'')"

lemma Keys_filter: "(pat = ''*'' \<or> pat = [] \<or> matchPrefix k pat) \<longleftrightarrow> key_matches pat k"
proof (cases "pat = ''*''")
  case True
  then have "\<exists>pre rest. pat = pre @ ''*'' \<and> k = pre @ rest" by (intro exI [of _ "[]"] exI [of _ k]) simp
  with True show ?thesis unfolding key_matches_def by blast
next
  case False
  then show ?thesis unfolding matchPrefix_iff key_matches_def by blast
qed

lemma set_shared_Keys:
  assumes "shared_wf s"
  shows "set (shared_Keys s pat) = {k. map_of (data s) k \<noteq> None \<and> key_matches pat k}"
  unfolding shared_Keys_def Keys_filter set_filter shared.set_keys [OF assms] dom_def
  by (rule Collect_cong) (simp only: mem_Collect_eq)

section \<open>Properties\<close>

text \<open>A shared counter loses no update: whatever the workers do to other keys, and in
  whatever order their increments of one key interleave, the counter ends at its start value plus
  the sum of the increments, reduced to 64 bits, and the next increment returns it.\<close>

theorem shared_counter_exact:
  assumes "list_all (only_incr k) ops"
  shows "counter (fold op_step ops s) k = wrap64 (counter s k + incr_total k ops)
         \<and> snd (shared_Incr k d (fold op_step ops s)) = wrap64 (counter s k + (incr_total k ops + d))"
  using counter_fold [OF assms, of s] by (simp add: snd_shared_Incr wrap64_add_left add.assoc)

theorem shared_counter_exact_witness:
  "counter (fold op_step [OpIncr ''n'' 5, OpSet ''m'' ''x'', OpIncr ''n'' (- 2), OpDel ''m'']
     NewSharedState) ''n'' = 3"
  using shared_counter_exact [of "''n''"
      "[OpIncr ''n'' 5, OpSet ''m'' ''x'', OpIncr ''n'' (- 2), OpDel ''m'']" NewSharedState 0]
  by (simp add: NewSharedState_def counter_def shared_Get_def parse_int64_def wrap64_def)

text \<open>Listing keys returns, without repetition, exactly the present keys that match: all of
  them for the empty pattern and the star, those with the prefix for a pattern ending in a star,
  and otherwise the one equal key.\<close>

theorem shared_Keys_exact:
  "distinct (shared_Keys (fold op_step ops NewSharedState) pat)
   \<and> set (shared_Keys (fold op_step ops NewSharedState) pat) =
      {k. map_of (data (fold op_step ops NewSharedState)) k \<noteq> None \<and> key_matches pat k}"
proof -
  have wf: "shared_wf (fold op_step ops NewSharedState)"
    by (rule shared_wf_fold) (simp add: shared_wf_def NewSharedState_def)
  show ?thesis
    unfolding set_shared_Keys [OF wf]
    using shared.distinct_keys [OF wf] by (simp add: shared_Keys_def del: map_map)
qed

end
