(* ===== verification/Conn_Hubs.thy ===== *)
theory Conn_Hubs
  imports Kalua_Prelude
begin

text \<open>
  The connection hubs of serve mode: \<^verbatim>\<open>internal/server/ws.go\<close> and
  \<^verbatim>\<open>internal/server/tcp.go\<close>. A connection object is shared between the hub's map, the
  worker that owns the connection and its write pump, so objects live in a store and the map
  holds their index (the Go pointer). A send into \<^verbatim>\<open>sendCh\<close> never blocks. The socket
  itself is outside the model: closing records the call, the pump records what it writes.
\<close>

section \<open>WebSocket connections\<close>

record ws_conn =
  ws_id :: string
  ws_sendCh :: "string list"
  ws_closed :: bool

record ws_hub =
  ws_conns :: "(string \<times> nat) list"
  ws_store :: "ws_conn list"

definition ws_send_cap :: nat where "ws_send_cap = 256"

definition NewWSHub :: ws_hub where
  "NewWSHub = \<lparr>ws_conns = [], ws_store = []\<rparr>"

definition ws_bind :: "string \<Rightarrow> nat \<Rightarrow> ws_hub \<Rightarrow> ws_hub" where
  "ws_bind i p h = h\<lparr>ws_conns := AList.update i p (ws_conns h)\<rparr>"

definition ws_Register :: "string \<Rightarrow> ws_hub \<Rightarrow> ws_hub \<times> nat" where
  "ws_Register i h =
     (let p = length (ws_store h);
          h1 = h\<lparr>ws_store := ws_store h @ [\<lparr>ws_id = i, ws_sendCh = [], ws_closed = False\<rparr>]\<rparr>
      in (ws_bind i p h1, p))"

definition ws_Unregister :: "string \<Rightarrow> ws_hub \<Rightarrow> ws_hub" where
  "ws_Unregister i h = h\<lparr>ws_conns := AList.delete i (ws_conns h)\<rparr>"

definition ws_Get :: "ws_hub \<Rightarrow> string \<Rightarrow> nat option" where
  "ws_Get h i = map_of (ws_conns h) i"

text \<open>\<^verbatim>\<open>select { case ws.sendCh <- msg: ... default: ... }\<close>\<close>

definition ws_offer :: "string \<Rightarrow> ws_conn \<Rightarrow> bool \<times> ws_conn" where
  "ws_offer msg c =
     (if length (ws_sendCh c) < ws_send_cap
      then (True, c\<lparr>ws_sendCh := ws_sendCh c @ [msg]\<rparr>) else (False, c))"

definition ws_push :: "nat \<Rightarrow> string \<Rightarrow> ws_hub \<Rightarrow> bool \<times> ws_hub" where
  "ws_push p msg h =
     (if p < length (ws_store h) then
        (let (ok, c) = ws_offer msg (ws_store h ! p) in (ok, h\<lparr>ws_store := (ws_store h)[p := c]\<rparr>))
      else (False, h))"

fun ws_broadcast_loop :: "(string \<times> nat) list \<Rightarrow> string \<Rightarrow> ws_hub \<Rightarrow> ws_hub" where
  "ws_broadcast_loop [] msg h = h"
| "ws_broadcast_loop (c # cs) msg h = ws_broadcast_loop cs msg (snd (ws_push (snd c) msg h))"

definition ws_Broadcast :: "string \<Rightarrow> ws_hub \<Rightarrow> ws_hub" where
  "ws_Broadcast msg h = ws_broadcast_loop (ws_conns h) msg h"

definition ws_Send :: "string \<Rightarrow> string \<Rightarrow> ws_hub \<Rightarrow> bool \<times> ws_hub" where
  "ws_Send i msg h =
     (case ws_Get h i of None \<Rightarrow> (False, h) | Some p \<Rightarrow> ws_push p msg h)"

definition ws_Close :: "string \<Rightarrow> ws_hub \<Rightarrow> ws_hub" where
  "ws_Close i h =
     (case ws_Get h i of
        None \<Rightarrow> h
      | Some p \<Rightarrow> h\<lparr>ws_store := (ws_store h)[p := (ws_store h ! p)\<lparr>ws_closed := True\<rparr>]\<rparr>)"

text \<open>\<^verbatim>\<open>WSWriter.Write\<close>: a full channel writes zero bytes and reports no error.\<close>

definition ws_Write :: "nat \<Rightarrow> string \<Rightarrow> ws_hub \<Rightarrow> nat \<times> ws_hub" where
  "ws_Write p msg h = (let (ok, h') = ws_push p msg h in (if ok then length msg else 0, h'))"

text \<open>One turn of the outbound pump of \<^verbatim>\<open>handleWSUpgrade\<close>: the head goes to the socket.\<close>

definition ws_queue :: "ws_hub \<Rightarrow> nat \<Rightarrow> string list" where
  "ws_queue h p = (if p < length (ws_store h) then ws_sendCh (ws_store h ! p) else [])"

definition ws_pump :: "nat \<Rightarrow> ws_hub \<Rightarrow> string list \<times> ws_hub" where
  "ws_pump p h =
     (case ws_queue h p of
        [] \<Rightarrow> ([], h)
      | m # q \<Rightarrow> ([m], h\<lparr>ws_store := (ws_store h)[p := (ws_store h ! p)\<lparr>ws_sendCh := q\<rparr>]\<rparr>))"

interpretation ws_registry: registry ws_bind ws_Unregister ws_Get
  by unfold_locales (simp_all add: ws_bind_def ws_Unregister_def ws_Get_def fun_eq_iff)

interpretation ws_sendq: bounded_queue ws_sendCh ws_offer ws_send_cap
  by unfold_locales (auto simp: ws_offer_def)

subsection \<open>What every operation keeps\<close>

definition ws_wf :: "ws_hub \<Rightarrow> bool" where
  "ws_wf h \<longleftrightarrow> alist_wf (ws_conns h) \<and> distinct (map snd (ws_conns h))
     \<and> list_all (\<lambda>(i, p). p < length (ws_store h) \<and> ws_id (ws_store h ! p) = i) (ws_conns h)"

lemma ws_offer_id [simp]: "ws_id (snd (ws_offer m c)) = ws_id c"
  by (simp add: ws_offer_def)

lemma ws_push_frame [simp]:
  "ws_conns (snd (ws_push p m h)) = ws_conns h"
  "length (ws_store (snd (ws_push p m h))) = length (ws_store h)"
  "q < length (ws_store h) \<Longrightarrow> ws_id (ws_store (snd (ws_push p m h)) ! q) = ws_id (ws_store h ! q)"
  by (auto simp: ws_push_def split_beta nth_list_update)

lemma ws_queue_push:
  "ws_queue (snd (ws_push p m h)) q =
     (if q = p \<and> p < length (ws_store h) then take ws_send_cap (ws_queue h p @ [m])
        @ drop ws_send_cap (ws_queue h p) else ws_queue h q)"
  by (auto simp: ws_push_def ws_queue_def ws_offer_def split_beta nth_list_update)

lemma ws_broadcast_frame [simp]:
  "ws_conns (ws_broadcast_loop cs m h) = ws_conns h"
  "length (ws_store (ws_broadcast_loop cs m h)) = length (ws_store h)"
  "q < length (ws_store h) \<Longrightarrow> ws_id (ws_store (ws_broadcast_loop cs m h) ! q) = ws_id (ws_store h ! q)"
  by (induction cs arbitrary: h) simp_all

lemma ws_queue_broadcast_other:
  "p \<notin> snd ` set cs \<Longrightarrow> ws_queue (ws_broadcast_loop cs m h) p = ws_queue h p"
  by (induction cs arbitrary: h) (simp_all add: ws_queue_push)

lemma ws_queue_broadcast:
  "distinct (map snd cs) \<Longrightarrow> p \<in> snd ` set cs \<Longrightarrow> p < length (ws_store h) \<Longrightarrow>
   length (ws_queue h p) \<le> ws_send_cap \<Longrightarrow>
   ws_queue (ws_broadcast_loop cs m h) p = take ws_send_cap (ws_queue h p @ [m])"
proof (induction cs arbitrary: h)
  case (Cons c cs)
  show ?case
  proof (cases "snd c = p")
    case True
    then have "p \<notin> snd ` set cs" using Cons.prems(1) by auto
    then show ?thesis using Cons.prems True
      by (simp add: ws_queue_broadcast_other ws_queue_push)
  next
    case False
    then have "p \<in> snd ` set cs" using Cons.prems(2) by auto
    with Cons.IH [of "snd (ws_push (snd c) m h)"] Cons.prems False show ?thesis
      by (simp add: ws_queue_push)
  qed
qed simp

lemma ws_wf_Register: "ws_wf h \<Longrightarrow> ws_wf (fst (ws_Register i h))"
proof -
  assume w: "ws_wf h"
  have "length (ws_store h) \<notin> snd ` set (ws_conns h)"
    using w by (auto simp: ws_wf_def list_all_iff)
  then show ?thesis using w
    by (auto simp: ws_wf_def ws_Register_def ws_bind_def Let_def alist_wf_update alist_update_values
        list_all_iff nth_append dest!: alist_update_cases)
qed

lemma ws_wf_Unregister: "ws_wf h \<Longrightarrow> ws_wf (ws_Unregister i h)"
  by (auto simp: ws_wf_def ws_Unregister_def alist_wf_delete alist_delete_values list_all_iff
      dest!: alist_delete_sub)

lemma ws_wf_cong:
  "ws_wf h \<Longrightarrow> ws_conns h' = ws_conns h \<Longrightarrow> length (ws_store h') = length (ws_store h) \<Longrightarrow>
   (\<And>q. q < length (ws_store h) \<Longrightarrow> ws_id (ws_store h' ! q) = ws_id (ws_store h ! q)) \<Longrightarrow> ws_wf h'"
  unfolding ws_wf_def list_all_iff by (metis (no_types, lifting) case_prodD case_prodI2)

subsection \<open>Runs\<close>

datatype ws_event =
    WsRegister string
  | WsUnregister string
  | WsSend string string
  | WsBroadcast string
  | WsEcho nat string
  | WsPump nat
  | WsClose string

fun ws_exec :: "ws_event \<Rightarrow> ws_hub \<Rightarrow> ws_hub" where
  "ws_exec (WsRegister i) h = fst (ws_Register i h)"
| "ws_exec (WsUnregister i) h = ws_Unregister i h"
| "ws_exec (WsSend i m) h = snd (ws_Send i m h)"
| "ws_exec (WsBroadcast m) h = ws_Broadcast m h"
| "ws_exec (WsEcho p m) h = snd (ws_Write p m h)"
| "ws_exec (WsPump p) h = snd (ws_pump p h)"
| "ws_exec (WsClose i) h = ws_Close i h"

text \<open>
  The specification side of a run: what a client \<open>p\<close> is promised by an event (a message when the
  event addresses it and it has room), and what its pump has written.
\<close>

definition ws_room :: "ws_hub \<Rightarrow> nat \<Rightarrow> bool" where
  "ws_room h p \<longleftrightarrow> p < length (ws_store h) \<and> length (ws_queue h p) < ws_send_cap"

fun ws_promised :: "ws_event \<Rightarrow> ws_hub \<Rightarrow> nat \<Rightarrow> string list" where
  "ws_promised (WsSend i m) h p = (if ws_Get h i = Some p \<and> ws_room h p then [m] else [])"
| "ws_promised (WsBroadcast m) h p =
     (if p \<in> snd ` set (ws_conns h) \<and> ws_room h p then [m] else [])"
| "ws_promised (WsEcho q m) h p = (if q = p \<and> ws_room h p then [m] else [])"
| "ws_promised e h p = []"

fun ws_written :: "ws_event \<Rightarrow> ws_hub \<Rightarrow> nat \<Rightarrow> string list" where
  "ws_written (WsPump q) h p = (if q = p then fst (ws_pump q h) else [])"
| "ws_written e h p = []"

fun ws_run :: "ws_event list \<Rightarrow> ws_hub \<Rightarrow> ws_hub" where
  "ws_run [] h = h"
| "ws_run (e # es) h = ws_run es (ws_exec e h)"

fun ws_accepted :: "ws_event list \<Rightarrow> ws_hub \<Rightarrow> nat \<Rightarrow> string list" where
  "ws_accepted [] h p = []"
| "ws_accepted (e # es) h p = ws_promised e h p @ ws_accepted es (ws_exec e h) p"

fun ws_delivered :: "ws_event list \<Rightarrow> ws_hub \<Rightarrow> nat \<Rightarrow> string list" where
  "ws_delivered [] h p = []"
| "ws_delivered (e # es) h p = ws_written e h p @ ws_delivered es (ws_exec e h) p"

definition ws_inv :: "ws_hub \<Rightarrow> bool" where
  "ws_inv h \<longleftrightarrow> ws_wf h \<and> (\<forall>p. length (ws_queue h p) \<le> ws_send_cap)"

lemma ws_queue_Register [simp]: "ws_queue (fst (ws_Register i h)) p = ws_queue h p"
  by (auto simp: ws_queue_def ws_Register_def ws_bind_def Let_def nth_append)

lemma ws_queue_Close [simp]: "ws_queue (ws_Close i h) p = ws_queue h p"
  by (auto simp: ws_queue_def ws_Close_def nth_update_any split: option.splits)

lemma ws_queue_Unregister [simp]: "ws_queue (ws_Unregister i h) p = ws_queue h p"
  by (simp add: ws_queue_def ws_Unregister_def)

lemma ws_queue_pump: "ws_queue (snd (ws_pump p h)) q = (if q = p then tl (ws_queue h p) else ws_queue h q)"
  by (auto simp: ws_pump_def ws_queue_def nth_update_any split: list.splits if_splits)

lemma fst_ws_pump: "fst (ws_pump p h) = take 1 (ws_queue h p)"
  by (simp add: ws_pump_def split: list.splits)

lemma snd_ws_Write [simp]: "snd (ws_Write p m h) = snd (ws_push p m h)"
  by (simp add: ws_Write_def split_beta)

lemma ws_wf_exec: "ws_wf h \<Longrightarrow> ws_wf (ws_exec e h)"
proof (cases e)
  case (WsSend i m)
  assume "ws_wf h"
  then show ?thesis
    by (auto simp: WsSend ws_Send_def split: option.splits intro: ws_wf_cong)
next
  case (WsPump p)
  assume "ws_wf h"
  then show ?thesis
    by (rule ws_wf_cong) (auto simp: WsPump ws_pump_def nth_update_any split: list.splits)
next
  case (WsClose i)
  assume "ws_wf h"
  then show ?thesis
    by (rule ws_wf_cong) (auto simp: WsClose ws_Close_def nth_update_any split: option.splits)
qed (auto simp: ws_wf_Register ws_wf_Unregister ws_Broadcast_def intro: ws_wf_cong)

lemma ws_Get_in: "ws_Get h i = Some p \<Longrightarrow> p \<in> snd ` set (ws_conns h)"
  unfolding ws_Get_def by (force dest: map_of_SomeD)

lemma ws_queue_exec:
  assumes "ws_inv h"
  shows "ws_written e h p @ ws_queue (ws_exec e h) p = ws_queue h p @ ws_promised e h p"
proof -
  have le: "length (ws_queue h p) \<le> ws_send_cap" for p using assms by (simp add: ws_inv_def)
  have push: "ws_queue (snd (ws_push q m h)) p =
      ws_queue h p @ (if q = p \<and> ws_room h p then [m] else [])" for q m
    using le [of p] by (auto simp: ws_queue_push ws_room_def)
  show ?thesis
  proof (cases e)
    case (WsBroadcast m)
    have d: "distinct (map snd (ws_conns h))"
      and r: "p \<in> snd ` set (ws_conns h) \<Longrightarrow> p < length (ws_store h)"
      using assms by (auto simp: ws_inv_def ws_wf_def list_all_iff)
    show ?thesis
      using ws_queue_broadcast [where p = p and m = m, OF d _ r le] ws_queue_broadcast_other [of p "ws_conns h" m h] le [of p] r
      by (cases "p \<in> snd ` set (ws_conns h)") (auto simp: WsBroadcast ws_Broadcast_def ws_room_def)
  next
    case (WsPump q)
    show ?thesis
      by (cases "ws_queue h p") (auto simp: WsPump ws_queue_pump fst_ws_pump)
  qed (auto simp: push ws_Send_def split: option.splits)
qed

lemma ws_inv_exec: "ws_inv h \<Longrightarrow> ws_inv (ws_exec e h)"
proof -
  assume i: "ws_inv h"
  have "length (ws_queue (ws_exec e h) p) \<le> ws_send_cap" for p
  proof -
    have "length (ws_promised e h p) \<le> 1"
      "ws_promised e h p \<noteq> [] \<Longrightarrow> length (ws_queue h p) < ws_send_cap"
      by (cases e; auto simp: ws_room_def split: if_splits)+
    moreover have "length (ws_queue h p) \<le> ws_send_cap" using i by (simp add: ws_inv_def)
    moreover have "length (ws_written e h p) + length (ws_queue (ws_exec e h) p)
        = length (ws_queue h p) + length (ws_promised e h p)"
      using arg_cong [OF ws_queue_exec [OF i, of e p], of length] by simp
    ultimately show ?thesis by (cases "ws_promised e h p") auto
  qed
  with i show ?thesis by (simp add: ws_inv_def ws_wf_exec)
qed

lemma ws_run_fifo:
  "ws_inv h \<Longrightarrow>
   ws_delivered es h p @ ws_queue (ws_run es h) p = ws_queue h p @ ws_accepted es h p
   \<and> ws_inv (ws_run es h)"
proof (induction es arbitrary: h)
  case (Cons e es)
  have "ws_written e h p @ ws_delivered es (ws_exec e h) p @ ws_queue (ws_run es (ws_exec e h)) p
      = ws_written e h p @ ws_queue (ws_exec e h) p @ ws_accepted es (ws_exec e h) p"
    using Cons.IH [OF ws_inv_exec [OF Cons.prems, of e]] by simp
  also have "\<dots> = ws_queue h p @ ws_promised e h p @ ws_accepted es (ws_exec e h) p"
    using ws_queue_exec [OF Cons.prems, of e p] by (metis append.assoc)
  finally show ?case using Cons.IH [OF ws_inv_exec [OF Cons.prems, of e]] by simp
qed simp

lemma ws_inv_New: "ws_inv NewWSHub"
  by (simp add: ws_inv_def ws_wf_def NewWSHub_def ws_queue_def)

section \<open>TCP connections\<close>

record tcp_conn =
  tcp_ID :: string
  tcp_sendCh :: "string list"
  tcp_closed :: bool

record tcp_hub =
  tcp_conns :: "(string \<times> nat) list"
  tcp_store :: "tcp_conn list"
  acceptCh :: "nat list"

definition tcp_send_cap :: nat where "tcp_send_cap = 256"
definition accept_cap :: nat where "accept_cap = 16"

definition NewTCPHub :: tcp_hub where
  "NewTCPHub = \<lparr>tcp_conns = [], tcp_store = [], acceptCh = []\<rparr>"

definition tcp_bind :: "string \<Rightarrow> nat \<Rightarrow> tcp_hub \<Rightarrow> tcp_hub" where
  "tcp_bind i p h = h\<lparr>tcp_conns := AList.update i p (tcp_conns h)\<rparr>"

text \<open>A new connection is also announced to \<^verbatim>\<open>Accept\<close>, unless sixteen are waiting.\<close>

definition tcp_announce :: "nat \<Rightarrow> tcp_hub \<Rightarrow> bool \<times> tcp_hub" where
  "tcp_announce p h =
     (if length (acceptCh h) < accept_cap then (True, h\<lparr>acceptCh := acceptCh h @ [p]\<rparr>)
      else (False, h))"

definition tcp_Register :: "string \<Rightarrow> tcp_hub \<Rightarrow> tcp_hub \<times> nat" where
  "tcp_Register i h =
     (let p = length (tcp_store h);
          h1 = h\<lparr>tcp_store := tcp_store h @ [\<lparr>tcp_ID = i, tcp_sendCh = [], tcp_closed = False\<rparr>]\<rparr>;
          h2 = tcp_bind i p h1
      in (snd (tcp_announce p h2), p))"

text \<open>
  \<^verbatim>\<open>Accept\<close> selects between the channel and the context: it blocks (None) while neither is
  ready, and when both are the runtime picks one, which \<open>prefer_ctx\<close> stands for.
\<close>

definition tcp_Accept :: "bool \<Rightarrow> bool \<Rightarrow> tcp_hub \<Rightarrow> (string \<times> tcp_hub) option" where
  "tcp_Accept done_ctx prefer_ctx h =
     (case acceptCh h of
        [] \<Rightarrow> (if done_ctx then Some ([], h) else None)
      | p # ps \<Rightarrow>
          (if done_ctx \<and> prefer_ctx then Some ([], h)
           else Some (tcp_ID (tcp_store h ! p), h\<lparr>acceptCh := ps\<rparr>)))"

definition tcp_Unregister :: "string \<Rightarrow> tcp_hub \<Rightarrow> tcp_hub" where
  "tcp_Unregister i h = h\<lparr>tcp_conns := AList.delete i (tcp_conns h)\<rparr>"

definition tcp_Get :: "tcp_hub \<Rightarrow> string \<Rightarrow> nat option" where
  "tcp_Get h i = map_of (tcp_conns h) i"

definition tcp_offer :: "string \<Rightarrow> tcp_conn \<Rightarrow> bool \<times> tcp_conn" where
  "tcp_offer msg c =
     (if length (tcp_sendCh c) < tcp_send_cap
      then (True, c\<lparr>tcp_sendCh := tcp_sendCh c @ [msg]\<rparr>) else (False, c))"

definition tcp_push :: "nat \<Rightarrow> string \<Rightarrow> tcp_hub \<Rightarrow> bool \<times> tcp_hub" where
  "tcp_push p msg h =
     (if p < length (tcp_store h) then
        (let (ok, c) = tcp_offer msg (tcp_store h ! p)
         in (ok, h\<lparr>tcp_store := (tcp_store h)[p := c]\<rparr>))
      else (False, h))"

fun tcp_broadcast_loop :: "(string \<times> nat) list \<Rightarrow> string \<Rightarrow> tcp_hub \<Rightarrow> tcp_hub" where
  "tcp_broadcast_loop [] msg h = h"
| "tcp_broadcast_loop (c # cs) msg h = tcp_broadcast_loop cs msg (snd (tcp_push (snd c) msg h))"

definition tcp_Broadcast :: "string \<Rightarrow> tcp_hub \<Rightarrow> tcp_hub" where
  "tcp_Broadcast msg h = tcp_broadcast_loop (tcp_conns h) msg h"

definition tcp_Send :: "string \<Rightarrow> string \<Rightarrow> tcp_hub \<Rightarrow> bool \<times> tcp_hub" where
  "tcp_Send i msg h =
     (case tcp_Get h i of None \<Rightarrow> (False, h) | Some p \<Rightarrow> tcp_push p msg h)"

definition tcp_Close :: "string \<Rightarrow> tcp_hub \<Rightarrow> tcp_hub" where
  "tcp_Close i h =
     (case tcp_Get h i of
        None \<Rightarrow> h
      | Some p \<Rightarrow> h\<lparr>tcp_store := (tcp_store h)[p := (tcp_store h ! p)\<lparr>tcp_closed := True\<rparr>]\<rparr>)"

text \<open>One turn of the outbound pump of \<^verbatim>\<open>startTCP\<close>.\<close>

definition tcp_pump :: "nat \<Rightarrow> tcp_hub \<Rightarrow> string list \<times> tcp_hub" where
  "tcp_pump p h =
     (case (if p < length (tcp_store h) then tcp_sendCh (tcp_store h ! p) else []) of
        [] \<Rightarrow> ([], h)
      | m # q \<Rightarrow> ([m], h\<lparr>tcp_store := (tcp_store h)[p := (tcp_store h ! p)\<lparr>tcp_sendCh := q\<rparr>]\<rparr>))"

interpretation tcp_registry: registry tcp_bind tcp_Unregister tcp_Get
  by unfold_locales (simp_all add: tcp_bind_def tcp_Unregister_def tcp_Get_def fun_eq_iff)

interpretation tcp_sendq: bounded_queue tcp_sendCh tcp_offer tcp_send_cap
  by unfold_locales (auto simp: tcp_offer_def)

interpretation tcp_acceptq: bounded_queue acceptCh tcp_announce accept_cap
  by unfold_locales (auto simp: tcp_announce_def)

subsection \<open>The TCP hub is the WebSocket hub with an accept queue\<close>

definition conn_view :: "tcp_conn \<Rightarrow> ws_conn" where
  "conn_view c = \<lparr>ws_id = tcp_ID c, ws_sendCh = tcp_sendCh c, ws_closed = tcp_closed c\<rparr>"

definition hub_view :: "tcp_hub \<Rightarrow> ws_hub" where
  "hub_view h = \<lparr>ws_conns = tcp_conns h, ws_store = map conn_view (tcp_store h)\<rparr>"

lemma view_announce [simp]: "hub_view (snd (tcp_announce p h)) = hub_view h"
  by (simp add: tcp_announce_def hub_view_def)

lemma view_Get: "ws_Get (hub_view h) i = tcp_Get h i"
  by (simp add: ws_Get_def tcp_Get_def hub_view_def)

lemma view_Register: "hub_view (fst (tcp_Register i h)) = fst (ws_Register i (hub_view h))"
  by (simp add: tcp_Register_def ws_Register_def Let_def, simp add: hub_view_def tcp_bind_def
      ws_bind_def conn_view_def)

lemma view_offer: "ws_offer m (conn_view c) = (fst (tcp_offer m c), conn_view (snd (tcp_offer m c)))"
  by (simp add: tcp_offer_def ws_offer_def conn_view_def tcp_send_cap_def ws_send_cap_def)

lemma view_push:
  "hub_view (snd (tcp_push p m h)) = snd (ws_push p m (hub_view h))
   \<and> fst (tcp_push p m h) = fst (ws_push p m (hub_view h))"
  by (simp add: tcp_push_def ws_push_def hub_view_def view_offer map_update split_beta)

lemma view_broadcast_loop:
  "hub_view (tcp_broadcast_loop cs m h) = ws_broadcast_loop cs m (hub_view h)"
  by (induction cs arbitrary: h) (simp_all add: view_push)

lemma view_Close: "hub_view (tcp_Close i h) = ws_Close i (hub_view h)"
  by (cases "tcp_Get h i"; cases "the (tcp_Get h i) < length (tcp_store h)")
    (simp_all add: tcp_Close_def ws_Close_def view_Get, simp_all add: hub_view_def map_update conn_view_def
      list_update_beyond)

lemma view_pump:
  "hub_view (snd (tcp_pump p h)) = snd (ws_pump p (hub_view h))
   \<and> fst (tcp_pump p h) = fst (ws_pump p (hub_view h))"
  by (auto simp: tcp_pump_def ws_pump_def ws_queue_def hub_view_def conn_view_def map_update
      split: list.splits)

subsection \<open>Registrations and accepts\<close>

datatype accept_event = AcReg string | AcTake bool bool

fun accept_exec :: "accept_event \<Rightarrow> tcp_hub \<Rightarrow> tcp_hub" where
  "accept_exec (AcReg i) h = fst (tcp_Register i h)"
| "accept_exec (AcTake d p) h = (case tcp_Accept d p h of None \<Rightarrow> h | Some r \<Rightarrow> snd r)"

fun accept_run :: "accept_event list \<Rightarrow> tcp_hub \<Rightarrow> tcp_hub" where
  "accept_run [] h = h"
| "accept_run (e # es) h = accept_run es (accept_exec e h)"

text \<open>The identifiers handed out, and those announced with room in the queue.\<close>

fun accept_taken :: "accept_event list \<Rightarrow> tcp_hub \<Rightarrow> string list" where
  "accept_taken [] h = []"
| "accept_taken (AcReg i # es) h = accept_taken es (accept_exec (AcReg i) h)"
| "accept_taken (AcTake d p # es) h =
     (case tcp_Accept d p h of
        None \<Rightarrow> []
      | Some r \<Rightarrow> (if acceptCh (snd r) = acceptCh h then [] else [fst r]))
     @ accept_taken es (accept_exec (AcTake d p) h)"

fun accept_announced :: "accept_event list \<Rightarrow> tcp_hub \<Rightarrow> string list" where
  "accept_announced [] h = []"
| "accept_announced (AcReg i # es) h =
     (if length (acceptCh h) < accept_cap then [i] else []) @ accept_announced es (accept_exec (AcReg i) h)"
| "accept_announced (AcTake d p # es) h = accept_announced es (accept_exec (AcTake d p) h)"

definition pending_ids :: "tcp_hub \<Rightarrow> string list" where
  "pending_ids h = map (\<lambda>p. tcp_ID (tcp_store h ! p)) (acceptCh h)"

definition accept_inv :: "tcp_hub \<Rightarrow> bool" where
  "accept_inv h \<longleftrightarrow> list_all (\<lambda>p. p < length (tcp_store h)) (acceptCh h)
     \<and> length (acceptCh h) \<le> accept_cap"

lemma accept_reg:
  assumes "accept_inv h"
  shows "accept_inv (fst (tcp_Register i h))"
    and "pending_ids (fst (tcp_Register i h)) =
           pending_ids h @ (if length (acceptCh h) < accept_cap then [i] else [])"
  using assms
  by (auto simp: accept_inv_def pending_ids_def tcp_Register_def tcp_announce_def tcp_bind_def Let_def
      list_all_iff nth_append)

lemma accept_take:
  assumes "accept_inv h" and "tcp_Accept d p h = Some r"
  shows "accept_inv (snd r)"
    and "pending_ids h = (if acceptCh (snd r) = acceptCh h then [] else [fst r]) @ pending_ids (snd r)"
  using assms by (auto simp: accept_inv_def pending_ids_def tcp_Accept_def split: list.splits if_splits)

lemma accept_order:
  "accept_inv h \<Longrightarrow>
   accept_taken es h @ pending_ids (accept_run es h) = pending_ids h @ accept_announced es h
   \<and> accept_inv (accept_run es h)"
proof (induction es arbitrary: h)
  case (Cons e es)
  show ?case
  proof (cases e)
    case (AcReg i)
    then show ?thesis using Cons.IH [OF accept_reg(1) [OF Cons.prems, of i]]
      by (simp add: accept_reg(2) [OF Cons.prems])
  next
    case (AcTake d p)
    show ?thesis
    proof (cases "tcp_Accept d p h")
      case None
      then show ?thesis using Cons.IH [OF Cons.prems] by (simp add: AcTake)
    next
      case (Some r)
      note IH = Cons.IH [OF accept_take(1) [OF Cons.prems Some]]
      show ?thesis
        using IH accept_take(2) [OF Cons.prems Some] by (simp add: AcTake Some)
    qed
  qed
qed simp

section \<open>Properties\<close>


text \<open>The map and the connection objects stay consistent: in every run each registered
  identifier leads to an object that carries this identifier, and no object is registered
  twice.\<close>

theorem ws_registry_consistent:
  "distinct (map snd (ws_conns (ws_run es NewWSHub)))
   \<and> (ws_Get (ws_run es NewWSHub) i = Some p \<longrightarrow>
        p < length (ws_store (ws_run es NewWSHub)) \<and> ws_id (ws_store (ws_run es NewWSHub) ! p) = i)"
  using ws_run_fifo [OF ws_inv_New, of es p]
  by (auto simp: ws_inv_def ws_wf_def ws_Get_def list_all_iff dest!: map_of_SomeD)

theorem ws_registry_consistent_witness:
  "ws_id (ws_store (ws_run [WsRegister ''a'', WsRegister ''b'', WsUnregister ''a''] NewWSHub) ! 1) = ''b''"
  using ws_registry_consistent
    [of "[WsRegister ''a'', WsRegister ''b'', WsUnregister ''a'']" "''b''" 1]
  by (simp add: ws_Register_def ws_bind_def ws_Unregister_def ws_Get_def NewWSHub_def)


text \<open>\<^verbatim>\<open>Accept\<close> hands out connections in the order they registered: in every run of
  registrations and accepts, the identifiers taken followed by those pending are exactly the
  identifiers that registered while fewer than sixteen were pending.\<close>

theorem tcp_accept_in_order:
  "accept_taken es NewTCPHub @ pending_ids (accept_run es NewTCPHub) = accept_announced es NewTCPHub
   \<and> length (acceptCh (accept_run es NewTCPHub)) \<le> 16"
  using accept_order [of NewTCPHub es]
  by (simp add: accept_inv_def accept_cap_def NewTCPHub_def pending_ids_def)

end
