(* ===== verification/Mqtt_Hub.thy ===== *)
theory Mqtt_Hub
  imports Go_Text
begin

text \<open>
  The hub of outbound MQTT clients, \<^verbatim>\<open>internal/server/mqtt.go\<close>. The client library is
  outside the repository: what a call to it yields (done, an error, no answer in time) comes with
  the operation as a \<open>token\<close>, and its reader calls \<open>mqtt_on_message\<close> whenever it likes. Client
  objects live in a store, the hub's map holds their index. \<^verbatim>\<open>None\<close> is a Go panic: closing a
  closed channel, or sending on one.
\<close>

datatype token = TokDone | TokTimeout | TokError string

record mqtt_config =
  Broker :: string
  Port :: int
  User :: string
  Password :: string
  ClientID :: string
  TLS :: bool

type_synonym mqtt_msg = "string \<times> string"

record mqtt_client =
  mc_handle :: string
  messagesIn :: int
  messagesOut :: int
  subscriptions :: "(string \<times> nat) list"
  msgCh :: "mqtt_msg list"
  msgCh_closed :: bool

record 's mqtt_hub =
  mh_conns :: "(string \<times> nat) list"
  mh_store :: "mqtt_client list"
  mh_deliver :: "(mqtt_msg \<Rightarrow> 's \<Rightarrow> 's) option"

definition NewMQTTHub :: "'s mqtt_hub" where
  "NewMQTTHub = \<lparr>mh_conns = [], mh_store = [], mh_deliver = None\<rparr>"

definition SetDeliver :: "(mqtt_msg \<Rightarrow> 's \<Rightarrow> 's) \<Rightarrow> 's mqtt_hub \<Rightarrow> 's mqtt_hub" where
  "SetDeliver fn h = h\<lparr>mh_deliver := Some fn\<rparr>"

text \<open>The broker URL \<^verbatim>\<open>Connect\<close> builds.\<close>

definition broker_url :: "mqtt_config \<Rightarrow> string" where
  "broker_url cfg =
     (if contains_str (Broker cfg) ''://'' then Broker cfg
      else (if TLS cfg then ''ssl'' else ''tcp'') @ ''://'' @ Broker cfg @ '':''
           @ itoa (if Port cfg = 0 then 1883 else Port cfg))"

definition client_id_of :: "string \<Rightarrow> mqtt_config \<Rightarrow> string" where
  "client_id_of fresh cfg = (if ClientID cfg = [] then fresh else ClientID cfg)"

definition new_client :: "string \<Rightarrow> mqtt_client" where
  "new_client hd_id =
     \<lparr>mc_handle = hd_id, messagesIn = 0, messagesOut = 0, subscriptions = [], msgCh = [],
      msgCh_closed = False\<rparr>"

definition mqtt_bind :: "string \<Rightarrow> nat \<Rightarrow> 's mqtt_hub \<Rightarrow> 's mqtt_hub" where
  "mqtt_bind i p h = h\<lparr>mh_conns := AList.update i p (mh_conns h)\<rparr>"

text \<open>\<open>dial\<close> is the library's connect, given the URL and the client identifier.\<close>

definition mqtt_Connect ::
  "(string \<Rightarrow> string \<Rightarrow> token) \<Rightarrow> string \<Rightarrow> string \<Rightarrow> mqtt_config \<Rightarrow> 's mqtt_hub \<Rightarrow>
   (string + string) \<times> 's mqtt_hub" where
  "mqtt_Connect dial fresh_client fresh_handle cfg h =
     (let url = broker_url cfg in
      case dial url (client_id_of fresh_client cfg) of
        TokTimeout \<Rightarrow> (Inl (''connect to '' @ url @ '': timeout''), h)
      | TokError e \<Rightarrow> (Inl (''connect to '' @ url @ '': '' @ e), h)
      | TokDone \<Rightarrow>
          (Inr fresh_handle,
           mqtt_bind fresh_handle (length (mh_store h))
             (h\<lparr>mh_store := mh_store h @ [new_client fresh_handle]\<rparr>)))"

definition mqtt_get :: "'s mqtt_hub \<Rightarrow> string \<Rightarrow> nat option" where
  "mqtt_get h i = map_of (mh_conns h) i"

definition mqtt_drop :: "string \<Rightarrow> 's mqtt_hub \<Rightarrow> 's mqtt_hub" where
  "mqtt_drop i h = h\<lparr>mh_conns := AList.delete i (mh_conns h)\<rparr>"

definition upd_client :: "nat \<Rightarrow> (mqtt_client \<Rightarrow> mqtt_client) \<Rightarrow> 's mqtt_hub \<Rightarrow> 's mqtt_hub" where
  "upd_client p f h = h\<lparr>mh_store := (mh_store h)[p := f (mh_store h ! p)]\<rparr>"

definition unknown_handle :: "string \<Rightarrow> string" where
  "unknown_handle i = ''unknown handle '' @ i"

text \<open>The shape the three wire calls share: look the handle up, wait for the token, record.\<close>

definition mqtt_Subscribe ::
  "(nat \<Rightarrow> string \<Rightarrow> nat \<Rightarrow> token) \<Rightarrow> string \<Rightarrow> string \<Rightarrow> nat \<Rightarrow> 's mqtt_hub \<Rightarrow>
   string option \<times> 's mqtt_hub" where
  "mqtt_Subscribe lib i topic qos h =
     (case mqtt_get h i of
        None \<Rightarrow> (Some (unknown_handle i), h)
      | Some p \<Rightarrow>
          (case lib p topic qos of
             TokTimeout \<Rightarrow> (Some (''subscribe '' @ topic @ '': timeout''), h)
           | TokError e \<Rightarrow> (Some (''subscribe '' @ topic @ '': '' @ e), h)
           | TokDone \<Rightarrow>
               (None, upd_client p (\<lambda>c. c\<lparr>subscriptions := AList.update topic qos (subscriptions c)\<rparr>) h)))"

definition mqtt_Publish ::
  "(nat \<Rightarrow> string \<Rightarrow> nat \<Rightarrow> bool \<Rightarrow> string \<Rightarrow> token) \<Rightarrow> string \<Rightarrow> string \<Rightarrow> string \<Rightarrow> nat \<Rightarrow>
   bool \<Rightarrow> 's mqtt_hub \<Rightarrow> string option \<times> 's mqtt_hub" where
  "mqtt_Publish lib i topic payload qos retain h =
     (case mqtt_get h i of
        None \<Rightarrow> (Some (unknown_handle i), h)
      | Some p \<Rightarrow>
          (case lib p topic qos retain payload of
             TokTimeout \<Rightarrow> (Some (''publish '' @ topic @ '': timeout''), h)
           | TokError e \<Rightarrow> (Some (''publish '' @ topic @ '': '' @ e), h)
           | TokDone \<Rightarrow> (None, upd_client p (\<lambda>c. c\<lparr>messagesOut := wrap64 (messagesOut c + 1)\<rparr>) h)))"

definition mqtt_Unsubscribe ::
  "(nat \<Rightarrow> string \<Rightarrow> token) \<Rightarrow> string \<Rightarrow> string \<Rightarrow> 's mqtt_hub \<Rightarrow> string option \<times> 's mqtt_hub" where
  "mqtt_Unsubscribe lib i topic h =
     (case mqtt_get h i of
        None \<Rightarrow> (Some (unknown_handle i), h)
      | Some p \<Rightarrow>
          (case lib p topic of
             TokTimeout \<Rightarrow> (Some (''unsubscribe '' @ topic @ '': timeout''), h)
           | TokError e \<Rightarrow> (Some (''unsubscribe '' @ topic @ '': '' @ e), h)
           | TokDone \<Rightarrow>
               (None, upd_client p (\<lambda>c. c\<lparr>subscriptions := AList.delete topic (subscriptions c)\<rparr>) h)))"

text \<open>The library's default publish handler: count, then push into the bounded channel.\<close>

definition mqtt_cap :: nat where "mqtt_cap = 256"

definition mqtt_offer :: "mqtt_msg \<Rightarrow> mqtt_client \<Rightarrow> bool \<times> mqtt_client" where
  "mqtt_offer m c =
     (if length (msgCh c) < mqtt_cap then (True, c\<lparr>msgCh := msgCh c @ [m]\<rparr>) else (False, c))"

definition mqtt_on_message :: "nat \<Rightarrow> mqtt_msg \<Rightarrow> 's mqtt_hub \<Rightarrow> 's mqtt_hub option" where
  "mqtt_on_message p m h =
     (if msgCh_closed (mh_store h ! p) then None
      else Some (upd_client p
             (\<lambda>c. snd (mqtt_offer m (c\<lparr>messagesIn := wrap64 (messagesIn c + 1)\<rparr>))) h))"

text \<open>One turn of the client's pump: the delivery function is read anew for each message.\<close>

definition mqtt_pump :: "nat \<Rightarrow> 's mqtt_hub \<Rightarrow> 's \<Rightarrow> 's mqtt_hub \<times> 's" where
  "mqtt_pump p h srv =
     (case msgCh (mh_store h ! p) of
        [] \<Rightarrow> (h, srv)
      | m # q \<Rightarrow>
          (upd_client p (\<lambda>c. c\<lparr>msgCh := q\<rparr>) h,
           case mh_deliver h of None \<Rightarrow> srv | Some fn \<Rightarrow> fn m srv))"

text \<open>
  \<^verbatim>\<open>Close\<close> looks the handle up in one critical section and removes it in another; the second
  half runs on the pointer found. The library's disconnect has no effect on the hub.
\<close>

definition close_client :: "nat \<Rightarrow> 's mqtt_hub \<Rightarrow> 's mqtt_hub option" where
  "close_client p h =
     (if msgCh_closed (mh_store h ! p) then None
      else Some (upd_client p (\<lambda>c. c\<lparr>msgCh_closed := True\<rparr>) h))"

definition mqtt_close_found :: "string \<Rightarrow> nat \<Rightarrow> 's mqtt_hub \<Rightarrow> 's mqtt_hub option" where
  "mqtt_close_found i p h = close_client p (mqtt_drop i h)"

definition mqtt_Close :: "string \<Rightarrow> 's mqtt_hub \<Rightarrow> (string option \<times> 's mqtt_hub) option" where
  "mqtt_Close i h =
     (case mqtt_get h i of
        None \<Rightarrow> Some (Some (unknown_handle i), h)
      | Some p \<Rightarrow> map_option (\<lambda>h'. (None, h')) (mqtt_close_found i p h))"

record mqtt_stats =
  Connected :: bool
  Subscriptions :: nat
  MessagesIn :: int
  MessagesOut :: int

definition mqtt_Stats :: "(nat \<Rightarrow> bool) \<Rightarrow> string \<Rightarrow> 's mqtt_hub \<Rightarrow> mqtt_stats option" where
  "mqtt_Stats is_connected i h =
     (case mqtt_get h i of
        None \<Rightarrow> None
      | Some p \<Rightarrow>
          (let c = mh_store h ! p
           in Some \<lparr>Connected = is_connected p, Subscriptions = length (subscriptions c),
                    MessagesIn = messagesIn c, MessagesOut = messagesOut c\<rparr>))"

fun close_all_loop :: "(string \<times> nat) list \<Rightarrow> 's mqtt_hub \<Rightarrow> 's mqtt_hub option" where
  "close_all_loop [] h = Some h"
| "close_all_loop (c # cs) h =
     (case close_client (snd c) h of None \<Rightarrow> None | Some h' \<Rightarrow> close_all_loop cs h')"

definition mqtt_CloseAll :: "'s mqtt_hub \<Rightarrow> 's mqtt_hub option" where
  "mqtt_CloseAll h = close_all_loop (mh_conns h) (h\<lparr>mh_conns := []\<rparr>)"

interpretation mqtt_registry: registry mqtt_bind mqtt_drop mqtt_get
  by unfold_locales (simp_all add: mqtt_bind_def mqtt_drop_def mqtt_get_def fun_eq_iff)

interpretation mqtt_inq: bounded_queue msgCh mqtt_offer mqtt_cap
  by unfold_locales (auto simp: mqtt_offer_def)

section \<open>Runs\<close>

datatype mqtt_event =
    MqConnect "string \<Rightarrow> string \<Rightarrow> token" string string mqtt_config
  | MqSubscribe "nat \<Rightarrow> string \<Rightarrow> nat \<Rightarrow> token" string string nat
  | MqPublish "nat \<Rightarrow> string \<Rightarrow> nat \<Rightarrow> bool \<Rightarrow> string \<Rightarrow> token" string string string nat bool
  | MqUnsubscribe "nat \<Rightarrow> string \<Rightarrow> token" string string
  | MqClose string
  | MqCloseAll
  | MqMessage nat mqtt_msg
  | MqPump nat

fun mqtt_exec :: "mqtt_event \<Rightarrow> 's mqtt_hub \<times> 's \<Rightarrow> ('s mqtt_hub \<times> 's) option" where
  "mqtt_exec (MqConnect dial fc fh cfg) (h, s) = Some (snd (mqtt_Connect dial fc fh cfg h), s)"
| "mqtt_exec (MqSubscribe tok i t q) (h, s) = Some (snd (mqtt_Subscribe tok i t q h), s)"
| "mqtt_exec (MqPublish tok i t pl q rt) (h, s) = Some (snd (mqtt_Publish tok i t pl q rt h), s)"
| "mqtt_exec (MqUnsubscribe tok i t) (h, s) = Some (snd (mqtt_Unsubscribe tok i t h), s)"
| "mqtt_exec (MqClose i) (h, s) = map_option (\<lambda>r. (snd r, s)) (mqtt_Close i h)"
| "mqtt_exec MqCloseAll (h, s) = map_option (\<lambda>h'. (h', s)) (mqtt_CloseAll h)"
| "mqtt_exec (MqMessage p m) (h, s) =
     (if p < length (mh_store h) then map_option (\<lambda>h'. (h', s)) (mqtt_on_message p m h)
      else Some (h, s))"
| "mqtt_exec (MqPump p) (h, s) =
     (if p < length (mh_store h) then Some (mqtt_pump p h s) else Some (h, s))"

fun mqtt_run :: "mqtt_event list \<Rightarrow> 's mqtt_hub \<times> 's \<Rightarrow> ('s mqtt_hub \<times> 's) option" where
  "mqtt_run [] w = Some w"
| "mqtt_run (e # es) w = (case mqtt_exec e w of None \<Rightarrow> None | Some w' \<Rightarrow> mqtt_run es w')"

definition mqtt_inv :: "'s mqtt_hub \<Rightarrow> bool" where
  "mqtt_inv h \<longleftrightarrow> distinct (map snd (mh_conns h))
     \<and> list_all (\<lambda>(i, p). p < length (mh_store h) \<and> \<not> msgCh_closed (mh_store h ! p)) (mh_conns h)
     \<and> list_all (\<lambda>c. length (msgCh c) \<le> mqtt_cap) (mh_store h)"

definition hits_closed :: "mqtt_event \<Rightarrow> 's mqtt_hub \<Rightarrow> bool" where
  "hits_closed e h \<longleftrightarrow>
     (\<exists>p m. e = MqMessage p m \<and> p < length (mh_store h) \<and> msgCh_closed (mh_store h ! p))"

lemma mqtt_offer_closed [simp]: "msgCh_closed (snd (mqtt_offer m c)) = msgCh_closed c"
  by (simp add: mqtt_offer_def)

lemma mqtt_inv_New: "mqtt_inv NewMQTTHub"
  by (simp add: mqtt_inv_def NewMQTTHub_def)

lemma upd_client_frame [simp]:
  "mh_conns (upd_client p f h) = mh_conns h"
  "length (mh_store (upd_client p f h)) = length (mh_store h)"
  by (simp_all add: upd_client_def)

text \<open>An update that keeps a client open and its channel bounded keeps the invariant.\<close>

lemma mqtt_inv_upd:
  assumes "mqtt_inv h"
    and "p < length (mh_store h) \<Longrightarrow> msgCh_closed (f (mh_store h ! p)) = msgCh_closed (mh_store h ! p)"
    and "p < length (mh_store h) \<Longrightarrow> length (msgCh (f (mh_store h ! p))) \<le> mqtt_cap"
  shows "mqtt_inv (upd_client p f h)"
proof (cases "p < length (mh_store h)")
  case True
  then have "list_all (\<lambda>c. length (msgCh c) \<le> mqtt_cap) ((mh_store h)[p := f (mh_store h ! p)])"
    using assms(1,3) by (auto simp: mqtt_inv_def list_all_iff dest!: set_update_subset_insert [THEN subsetD])
  then show ?thesis
    using assms(1,2) True
    by (auto simp: mqtt_inv_def upd_client_def list_all_iff nth_list_update)
next
  case False
  then show ?thesis using assms(1) by (simp add: upd_client_def list_update_beyond)
qed

lemma mqtt_inv_bounded: "mqtt_inv h \<Longrightarrow> p < length (mh_store h) \<Longrightarrow> length (msgCh (mh_store h ! p)) \<le> mqtt_cap"
  by (simp add: mqtt_inv_def list_all_iff)

lemma mqtt_inv_get:
  "mqtt_inv h \<Longrightarrow> mqtt_get h i = Some p \<Longrightarrow>
   p < length (mh_store h) \<and> \<not> msgCh_closed (mh_store h ! p)"
  by (auto simp: mqtt_inv_def mqtt_get_def list_all_iff dest!: map_of_SomeD)

lemma mqtt_inv_wire:
  assumes "mqtt_inv h"
  shows "mqtt_inv (snd (mqtt_Subscribe l1 i t q h))"
    and "mqtt_inv (snd (mqtt_Publish l2 i t pl q rt h))"
    and "mqtt_inv (snd (mqtt_Unsubscribe l3 i t h))"
  using assms
  by (auto simp: mqtt_Subscribe_def mqtt_Publish_def mqtt_Unsubscribe_def mqtt_inv_bounded
      split: option.split token.split intro!: mqtt_inv_upd)

lemma mqtt_inv_Connect: "mqtt_inv h \<Longrightarrow> mqtt_inv (snd (mqtt_Connect dial fc fh cfg h))"
proof -
  assume i: "mqtt_inv h"
  then have "length (mh_store h) \<notin> snd ` set (mh_conns h)" by (auto simp: mqtt_inv_def list_all_iff)
  with i have "mqtt_inv (mqtt_bind fh (length (mh_store h)) (h\<lparr>mh_store := mh_store h @ [new_client fh]\<rparr>))"
    by (auto simp: mqtt_inv_def mqtt_bind_def list_all_iff nth_append new_client_def alist_update_values
        dest!: alist_update_cases)
  with i show ?thesis by (simp add: mqtt_Connect_def Let_def split: token.split)
qed

lemma mqtt_inv_drop: "mqtt_inv h \<Longrightarrow> mqtt_inv (mqtt_drop i h)"
  by (auto simp: mqtt_inv_def mqtt_drop_def AList.delete_eq list_all_iff distinct_map_filter)

lemma mqtt_drop_frame [simp]: "mh_store (mqtt_drop i h) = mh_store h"
  by (simp add: mqtt_drop_def)

lemma dropped_pointer:
  "mqtt_inv h \<Longrightarrow> mqtt_get h i = Some p \<Longrightarrow> p \<notin> snd ` set (mh_conns (mqtt_drop i h))"
proof
  assume h: "mqtt_inv h" and g: "mqtt_get h i = Some p" and "p \<in> snd ` set (mh_conns (mqtt_drop i h))"
  then obtain j where j: "(j, p) \<in> set (mh_conns h)" "j \<noteq> i"
    by (auto simp: mqtt_drop_def AList.delete_eq)
  have "(i, p) \<in> set (mh_conns h)" using g by (simp add: mqtt_get_def map_of_SomeD)
  with j h show False
    by (auto simp: mqtt_inv_def distinct_map dest: inj_onD [of snd _ "(i, p)" "(j, p)"])
qed

lemma close_client_ok:
  assumes "mqtt_inv h" "p < length (mh_store h)" "\<not> msgCh_closed (mh_store h ! p)"
    and "p \<notin> snd ` set (mh_conns h)"
  shows "\<exists>h'. close_client p h = Some h' \<and> mqtt_inv h' \<and> mh_conns h' = mh_conns h
           \<and> length (mh_store h') = length (mh_store h)
           \<and> (\<forall>q. q \<noteq> p \<longrightarrow> mh_store h' ! q = mh_store h ! q) \<and> msgCh_closed (mh_store h' ! p)"
proof -
  let ?h = "upd_client p (\<lambda>c. c\<lparr>msgCh_closed := True\<rparr>) h"
  have "length (msgCh c) \<le> mqtt_cap" if "c \<in> set (mh_store ?h)" for c
  proof -
    have "c = (mh_store h ! p)\<lparr>msgCh_closed := True\<rparr> \<or> c \<in> set (mh_store h)"
      using that set_update_subset_insert by (fastforce simp: upd_client_def)
    then show ?thesis using assms(1,2) by (auto simp: mqtt_inv_def list_all_iff)
  qed
  moreover have "snd d < length (mh_store h) \<and> \<not> msgCh_closed (mh_store ?h ! snd d)"
    if d: "d \<in> set (mh_conns h)" for d
  proof -
    have "snd d \<noteq> p" using assms(4) imageI [OF d, of snd] by auto
    moreover have "snd d < length (mh_store h) \<and> \<not> msgCh_closed (mh_store h ! snd d)"
      using assms(1) d by (auto simp: mqtt_inv_def list_all_iff)
    ultimately show ?thesis by (simp add: upd_client_def)
  qed
  ultimately have "mqtt_inv ?h"
    using assms(1) by (simp add: mqtt_inv_def list_all_iff split_beta)
  with assms(2,3) show ?thesis
    by (simp add: close_client_def) (simp add: upd_client_def)
qed

lemma mqtt_Close_ok:
  assumes "mqtt_inv h"
  shows "\<exists>r. mqtt_Close i h = Some r \<and> mqtt_inv (snd r)"
proof (cases "mqtt_get h i")
  case None
  then show ?thesis using assms by (simp add: mqtt_Close_def)
next
  case (Some p)
  from close_client_ok [OF mqtt_inv_drop [OF assms] _ _ dropped_pointer [OF assms Some]]
    mqtt_inv_get [OF assms Some]
  show ?thesis by (auto simp: mqtt_Close_def Some mqtt_close_found_def)
qed

lemma close_all_ok:
  "mqtt_inv h \<Longrightarrow> mh_conns h = [] \<Longrightarrow> distinct (map snd cs) \<Longrightarrow>
   list_all (\<lambda>c. snd c < length (mh_store h) \<and> \<not> msgCh_closed (mh_store h ! snd c)) cs \<Longrightarrow>
   \<exists>h'. close_all_loop cs h = Some h' \<and> mqtt_inv h'"
proof (induction cs arbitrary: h)
  case (Cons c cs)
  from close_client_ok [OF Cons.prems(1), of "snd c"] Cons.prems
  obtain h' where h': "close_client (snd c) h = Some h'" "mqtt_inv h'" "mh_conns h' = []"
    "length (mh_store h') = length (mh_store h)" "\<forall>q. q \<noteq> snd c \<longrightarrow> mh_store h' ! q = mh_store h ! q"
    by auto
  have "snd d < length (mh_store h') \<and> \<not> msgCh_closed (mh_store h' ! snd d)" if d: "d \<in> set cs" for d
  proof -
    have "snd c \<notin> snd ` set cs" using Cons.prems(3) by simp
    then have "snd d \<noteq> snd c" using imageI [OF d, of snd] by metis
    then have "mh_store h' ! snd d = mh_store h ! snd d" using h'(5) by blast
    then show ?thesis using Cons.prems(4) h'(4) d by (simp add: list_all_iff)
  qed
  then have "list_all (\<lambda>d. snd d < length (mh_store h') \<and> \<not> msgCh_closed (mh_store h' ! snd d)) cs"
    by (simp add: list_all_iff)
  from Cons.IH [OF h'(2,3) _ this] Cons.prems(3) h'(1) show ?case by simp
qed simp

lemma mqtt_CloseAll_ok: "mqtt_inv h \<Longrightarrow> \<exists>h'. mqtt_CloseAll h = Some h' \<and> mqtt_inv h'"
  unfolding mqtt_CloseAll_def
  by (rule close_all_ok) (auto simp: mqtt_inv_def list_all_iff)

lemma mqtt_exec_ok:
  assumes "mqtt_inv (fst w)"
  shows "mqtt_exec e w = None \<longleftrightarrow> hits_closed e (fst w)"
    and "mqtt_exec e w = Some w' \<Longrightarrow> mqtt_inv (fst w')"
proof -
  obtain h s where w: "w = (h, s)" by (cases w)
  have h: "mqtt_inv h" using assms by (simp add: w)
  have "(mqtt_exec e w = None \<longleftrightarrow> hits_closed e h) \<and> (\<forall>w'. mqtt_exec e w = Some w' \<longrightarrow> mqtt_inv (fst w'))"
  proof (cases e)
    case (MqClose i)
    then show ?thesis using mqtt_Close_ok [OF h, of i] by (auto simp: w hits_closed_def)
  next
    case MqCloseAll
    then show ?thesis using mqtt_CloseAll_ok [OF h] by (auto simp: w hits_closed_def)
  next
    case (MqMessage p m)
    have "length (msgCh (snd (mqtt_offer m (c\<lparr>messagesIn := k\<rparr>)))) \<le> mqtt_cap"
      if "length (msgCh c) \<le> mqtt_cap" for c k
      using mqtt_inq.offer_bounded [of "c\<lparr>messagesIn := k\<rparr>" m] that by simp
    with MqMessage show ?thesis using h
      by (auto simp: w hits_closed_def mqtt_on_message_def mqtt_inv_bounded intro!: mqtt_inv_upd)
  next
    case (MqPump p)
    then show ?thesis using h mqtt_inv_bounded [OF h, of p]
      by (auto simp: w hits_closed_def mqtt_pump_def intro!: mqtt_inv_upd split: list.splits)
  qed (simp_all add: w hits_closed_def mqtt_inv_wire [OF h] mqtt_inv_Connect [OF h])
  then show "mqtt_exec e w = None \<longleftrightarrow> hits_closed e (fst w)"
    and "mqtt_exec e w = Some w' \<Longrightarrow> mqtt_inv (fst w')" by (simp_all add: w)
qed

lemma mqtt_run_None:
  "mqtt_inv (fst w) \<Longrightarrow>
   mqtt_run es w = None \<longleftrightarrow>
     (\<exists>es1 e es2 w1. es = es1 @ e # es2 \<and> mqtt_run es1 w = Some w1 \<and> hits_closed e (fst w1))"
proof (induction es arbitrary: w)
  case (Cons e es)
  have split: "(\<exists>es1 d es2 w1. e # es = es1 @ d # es2 \<and> mqtt_run es1 w = Some w1 \<and> hits_closed d (fst w1))
      \<longleftrightarrow> hits_closed e (fst w) \<or>
        (\<exists>es1 d es2 w1. es = es1 @ d # es2 \<and> mqtt_run (e # es1) w = Some w1 \<and> hits_closed d (fst w1))"
    (is "?L \<longleftrightarrow> ?R")
  proof
    assume ?L
    then obtain es1 d es2 w1 where *: "e # es = es1 @ d # es2" "mqtt_run es1 w = Some w1" "hits_closed d (fst w1)"
      by blast
    show ?R
    proof (cases es1)
      case Nil
      with * show ?thesis by simp
    next
      case (Cons x es1')
      with *(1) have "es1 = e # es1'" "es = es1' @ d # es2" by simp_all
      with *(2,3) show ?thesis by blast
    qed
  next
    assume ?R
    then show ?L
    proof
      assume "hits_closed e (fst w)"
      then show ?L by (intro exI [of _ "[]"]) simp
    next
      assume "\<exists>es1 d es2 w1. es = es1 @ d # es2 \<and> mqtt_run (e # es1) w = Some w1 \<and> hits_closed d (fst w1)"
      then show ?L by (metis append_Cons)
    qed
  qed
  show ?case
  proof (cases "mqtt_exec e w")
    case None
    then show ?thesis using mqtt_exec_ok(1) [OF Cons.prems, of e] unfolding split by simp
  next
    case (Some w')
    have "\<not> hits_closed e (fst w)" using Some mqtt_exec_ok(1) [OF Cons.prems, of e] by simp
    then show ?thesis
      using Cons.IH [OF mqtt_exec_ok(2) [OF Cons.prems Some]] unfolding split by (simp add: Some)
  qed
qed simp

section \<open>Properties\<close>

text \<open>The hub panics in one case only: a run of hub calls, pump turns and inbound messages
  that starts with no client panics exactly when the library hands over a message for a client
  that was closed before. Closing, also twice or by shutdown, never panics by itself.\<close>

theorem mqtt_hub_panics_iff:
  "mqtt_run es (NewMQTTHub, s) = None \<longleftrightarrow>
     (\<exists>es1 p m es2 h s'. es = es1 @ MqMessage p m # es2 \<and> mqtt_run es1 (NewMQTTHub, s) = Some (h, s')
        \<and> p < length (mh_store h) \<and> msgCh_closed (mh_store h ! p))"
  using mqtt_run_None [of "(NewMQTTHub, s)" es] mqtt_inv_New
  by (auto simp: hits_closed_def) blast+

text \<open>The window is real: after a successful \<^verbatim>\<open>Close\<close>, which ends the channel before it
  disconnects the library's client, the next inbound message of that client panics; and two calls
  of \<^verbatim>\<open>Close\<close> that both found the handle before either removed it panic in the second.\<close>

theorem mqtt_close_race:
  assumes "mqtt_get h i = Some p" and "p < length (mh_store h)"
    and "mqtt_Close i h = Some (None, h')"
  shows "mqtt_on_message p m h' = None \<and> mqtt_close_found i p h' = None
         \<and> mqtt_get h' i = None"
  using assms
  by (auto simp: mqtt_Close_def mqtt_close_found_def close_client_def upd_client_def
      mqtt_on_message_def mqtt_get_def mqtt_drop_def split: if_splits)

definition one_client :: "unit mqtt_hub" where
  "one_client = \<lparr>mh_conns = [(''h'', 0)], mh_store = [new_client ''h''], mh_deliver = None\<rparr>"

theorem mqtt_close_race_witness:
  "mqtt_on_message 0 (''t'', ''1'') (snd (the (mqtt_Close ''h'' one_client))) = None"
proof -
  have "mqtt_Close ''h'' one_client = Some (None, snd (the (mqtt_Close ''h'' one_client)))"
    by (simp add: mqtt_Close_def mqtt_get_def one_client_def mqtt_close_found_def close_client_def
        new_client_def)
  from mqtt_close_race [OF _ _ this] show ?thesis by (simp add: one_client_def mqtt_get_def)
qed

end
