(* ===== verification/Worker_Pool.thy ===== *)
theory Worker_Pool
  imports Kalua_Prelude "HOL-Library.Word"
begin

text \<open>
  The worker pool of serve mode: leases, hot reload and shutdown, from
  \<^verbatim>\<open>internal/server/worker.go\<close> (\<^verbatim>\<open>slot\<close>, \<^verbatim>\<open>refs\<close>, \<^verbatim>\<open>retired\<close>,
  \<^verbatim>\<open>closeOnce\<close>) and \<^verbatim>\<open>internal/server/server.go\<close> (\<^verbatim>\<open>leaseWorker\<close>,
  \<^verbatim>\<open>Reload\<close>, \<^verbatim>\<open>buildWorkers\<close>, \<^verbatim>\<open>shutdown\<close>). A worker is shared by the pool,
  its leases and the list of retired workers, so workers live in a store and the lists hold their
  index. The reference count is an \<^verbatim>\<open>int32\<close> and the round-robin cursor a \<^verbatim>\<open>uint64\<close>;
  both wrap. Building a worker runs a script: whether it succeeds is a parameter.
\<close>

section \<open>Workers\<close>

record pworker =
  pw_id :: nat
  pw_slot :: bool
  pw_refs :: "32 word"
  pw_retired :: bool
  pw_closed :: bool

definition new_pworker :: "nat \<Rightarrow> pworker" where
  "new_pworker i = \<lparr>pw_id = i, pw_slot = True, pw_refs = 0, pw_retired = False, pw_closed = False\<rparr>"

record server_pool =
  sp_store :: "pworker list"
  sp_workers :: "nat list"
  sp_retired :: "nat list"
  sp_next :: "64 word"

definition empty_pool :: server_pool where
  "empty_pool = \<lparr>sp_store = [], sp_workers = [], sp_retired = [], sp_next = 0\<rparr>"

definition upd_worker :: "nat \<Rightarrow> (pworker \<Rightarrow> pworker) \<Rightarrow> server_pool \<Rightarrow> server_pool" where
  "upd_worker p f s = s\<lparr>sp_store := (sp_store s)[p := f (sp_store s ! p)]\<rparr>"

text \<open>\<^verbatim>\<open>closeOnce.Do\<close>: the Lua state is closed at the first call only.\<close>

definition worker_Close :: "nat \<Rightarrow> server_pool \<Rightarrow> server_pool" where
  "worker_Close p s = upd_worker p (\<lambda>w. w\<lparr>pw_closed := True\<rparr>) s"

text \<open>
  The slot is a one-token channel: \<^verbatim>\<open>acquireSlot\<close> blocks (None) without the token, and
  \<^verbatim>\<open>freeSlot\<close> blocks while it is there. \<^verbatim>\<open>tryAcquireSlot\<close> waits: \<open>freed\<close> says whether
  the token came back before the timeout or the cancellation.
\<close>

definition acquireSlot :: "nat \<Rightarrow> server_pool \<Rightarrow> server_pool option" where
  "acquireSlot p s =
     (if pw_slot (sp_store s ! p) then Some (upd_worker p (\<lambda>w. w\<lparr>pw_slot := False\<rparr>) s) else None)"

definition tryAcquireSlot :: "bool \<Rightarrow> nat \<Rightarrow> server_pool \<Rightarrow> bool \<times> server_pool" where
  "tryAcquireSlot freed p s =
     (if pw_slot (sp_store s ! p) \<or> freed then (True, upd_worker p (\<lambda>w. w\<lparr>pw_slot := False\<rparr>) s)
      else (False, s))"

definition freeSlot :: "nat \<Rightarrow> server_pool \<Rightarrow> server_pool option" where
  "freeSlot p s =
     (if pw_slot (sp_store s ! p) then None else Some (upd_worker p (\<lambda>w. w\<lparr>pw_slot := True\<rparr>) s))"

text \<open>\<^verbatim>\<open>retire\<close> and \<^verbatim>\<open>release\<close> are two atomic accesses each.\<close>

definition retire_store :: "nat \<Rightarrow> server_pool \<Rightarrow> server_pool" where
  "retire_store p s = upd_worker p (\<lambda>w. w\<lparr>pw_retired := True\<rparr>) s"

definition retire_load :: "nat \<Rightarrow> server_pool \<Rightarrow> server_pool" where
  "retire_load p s = (if pw_refs (sp_store s ! p) = 0 then worker_Close p s else s)"

definition retire :: "nat \<Rightarrow> server_pool \<Rightarrow> server_pool" where
  "retire p s = retire_load p (retire_store p s)"

definition release_add :: "nat \<Rightarrow> server_pool \<Rightarrow> bool \<times> server_pool" where
  "release_add p s =
     (let s' = upd_worker p (\<lambda>w. w\<lparr>pw_refs := pw_refs w - 1\<rparr>) s
      in (pw_refs (sp_store s ! p) - 1 = 0, s'))"

definition release_load :: "nat \<Rightarrow> server_pool \<Rightarrow> server_pool" where
  "release_load p s = (if pw_retired (sp_store s ! p) then worker_Close p s else s)"

definition release :: "nat \<Rightarrow> server_pool \<Rightarrow> server_pool" where
  "release p s = (let (zero, s') = release_add p s in if zero then release_load p s' else s')"

section \<open>The pool\<close>

definition leaseWorker :: "server_pool \<Rightarrow> nat option \<times> server_pool" where
  "leaseWorker s =
     (if sp_workers s = [] then (None, s)
      else (let n = sp_next s + 1;
                p = sp_workers s ! (unat n mod length (sp_workers s))
            in (Some p, upd_worker p (\<lambda>w. w\<lparr>pw_refs := pw_refs w + 1\<rparr>) (s\<lparr>sp_next := n\<rparr>))))"

text \<open>
  \<open>build i\<close> is the error of building worker \<open>i\<close>, if any. The workers built before a failure are
  closed; they stay in the store, where nothing points to them.
\<close>

fun build_loop :: "(nat \<Rightarrow> string option) \<Rightarrow> nat \<Rightarrow> nat \<Rightarrow> nat list \<Rightarrow> server_pool \<Rightarrow>
    (string + nat list) \<times> server_pool" where
  "build_loop build i 0 ws s = (Inr ws, s)"
| "build_loop build i (Suc k) ws s =
     (case build (i + 1) of
        Some err \<Rightarrow> (Inl err, fold worker_Close ws s)
      | None \<Rightarrow>
          build_loop build (i + 1) k (ws @ [length (sp_store s)])
            (s\<lparr>sp_store := sp_store s @ [new_pworker (i + 1)]\<rparr>))"

definition buildWorkers ::
  "(nat \<Rightarrow> string option) \<Rightarrow> nat \<Rightarrow> server_pool \<Rightarrow> (string + nat list) \<times> server_pool" where
  "buildWorkers build count s = build_loop build 0 count [] s"

text \<open>The swap of \<^verbatim>\<open>Reload\<close>, before it retires the old workers one by one.\<close>

definition reload_swap :: "nat list \<Rightarrow> server_pool \<Rightarrow> nat list \<times> server_pool" where
  "reload_swap new s = (sp_workers s, s\<lparr>sp_workers := new, sp_next := 0\<rparr>)"

definition Reload ::
  "(nat \<Rightarrow> string option) \<Rightarrow> nat \<Rightarrow> server_pool \<Rightarrow> string option \<times> server_pool" where
  "Reload build count s =
     (case buildWorkers build count s of
        (Inl err, s1) \<Rightarrow> (Some (''reload: '' @ err), s1)
      | (Inr new, s1) \<Rightarrow>
          (let (old, s2) = reload_swap new s1;
               s3 = fold retire old s2
           in (None, s3\<lparr>sp_retired := sp_retired s3 @ old\<rparr>)))"

text \<open>
  \<^verbatim>\<open>waitIdle\<close> takes the token and puts it back, or gives up after five seconds; either way
  the store is as before. \<^verbatim>\<open>shutdown\<close> then closes every current and retired worker.
\<close>

definition waitIdle :: "bool \<Rightarrow> nat \<Rightarrow> server_pool \<Rightarrow> server_pool" where
  "waitIdle freed p s =
     (case tryAcquireSlot freed p s of
        (True, s') \<Rightarrow> (case freeSlot p s' of None \<Rightarrow> s' | Some s2 \<Rightarrow> s2)
      | (False, s') \<Rightarrow> s')"

fun close_workers :: "(nat \<Rightarrow> bool) \<Rightarrow> nat list \<Rightarrow> server_pool \<Rightarrow> server_pool" where
  "close_workers freed [] s = s"
| "close_workers freed (p # ps) s =
     close_workers freed ps (worker_Close p (waitIdle (freed p) p s))"

definition shutdown_workers :: "(nat \<Rightarrow> bool) \<Rightarrow> server_pool \<Rightarrow> server_pool" where
  "shutdown_workers freed s =
     (let everyone = sp_workers s @ sp_retired s
      in close_workers freed everyone (s\<lparr>sp_workers := [], sp_retired := []\<rparr>))"

section \<open>Frame facts\<close>

lemma upd_worker_frame [simp]:
  "sp_workers (upd_worker p f s) = sp_workers s"
  "sp_retired (upd_worker p f s) = sp_retired s"
  "sp_next (upd_worker p f s) = sp_next s"
  "length (sp_store (upd_worker p f s)) = length (sp_store s)"
  by (simp_all add: upd_worker_def)

lemma upd_worker_nth:
  "q < length (sp_store s) \<Longrightarrow>
   sp_store (upd_worker p f s) ! q = (if q = p then f (sp_store s ! q) else sp_store s ! q)"
  by (simp add: upd_worker_def nth_list_update)

text \<open>What an operation may do to one worker: it never reopens, un-retires or renames it.\<close>

definition grows :: "pworker \<Rightarrow> pworker \<Rightarrow> bool" where
  "grows w w' \<longleftrightarrow> pw_id w' = pw_id w \<and> (pw_retired w \<longrightarrow> pw_retired w') \<and> (pw_closed w \<longrightarrow> pw_closed w')"

lemmas worker_ops = worker_Close_def retire_store_def retire_load_def retire_def release_add_def
  release_load_def release_def Let_def

lemma fold_Close_frame [simp]:
  "sp_workers (fold worker_Close ps s) = sp_workers s"
  "sp_retired (fold worker_Close ps s) = sp_retired s"
  "sp_next (fold worker_Close ps s) = sp_next s"
  "length (sp_store (fold worker_Close ps s)) = length (sp_store s)"
  by (induction ps arbitrary: s) (simp_all add: worker_Close_def)

lemma fold_Close_nth:
  "q < length (sp_store s) \<Longrightarrow>
   sp_store (fold worker_Close ps s) ! q =
     (if q \<in> set ps then (sp_store s ! q)\<lparr>pw_closed := True\<rparr> else sp_store s ! q)"
  by (induction ps arbitrary: s) (auto simp: worker_Close_def upd_worker_nth)

text \<open>
  Building touches no existing worker and no list; what it returns are new, idle, unleased
  workers.
\<close>

definition extends_pool :: "server_pool \<Rightarrow> server_pool \<Rightarrow> bool" where
  "extends_pool s s' \<longleftrightarrow>
     sp_workers s' = sp_workers s \<and> sp_retired s' = sp_retired s \<and> sp_next s' = sp_next s
     \<and> length (sp_store s) \<le> length (sp_store s')
     \<and> (\<forall>q < length (sp_store s). sp_store s' ! q = sp_store s ! q)"

definition fresh_workers :: "server_pool \<Rightarrow> server_pool \<Rightarrow> nat list \<Rightarrow> bool" where
  "fresh_workers s s' ps \<longleftrightarrow> distinct ps
     \<and> (\<forall>q\<in>set ps. length (sp_store s) \<le> q \<and> q < length (sp_store s')
          \<and> pw_slot (sp_store s' ! q) \<and> pw_refs (sp_store s' ! q) = 0
          \<and> \<not> pw_retired (sp_store s' ! q) \<and> \<not> pw_closed (sp_store s' ! q))"

lemma extends_append:
  "extends_pool s0 s \<Longrightarrow> extends_pool s0 (s\<lparr>sp_store := sp_store s @ ws\<rparr>)"
  by (simp add: extends_pool_def nth_append)

lemma fresh_append:
  assumes "fresh_workers s0 s ws" "extends_pool s0 s"
  shows "fresh_workers s0 (s\<lparr>sp_store := sp_store s @ [new_pworker i]\<rparr>) (ws @ [length (sp_store s)])"
proof -
  have "length (sp_store s) \<notin> set ws" using assms(1) by (auto simp: fresh_workers_def)
  moreover have "(sp_store s @ [new_pworker i]) ! q = sp_store s ! q" if "q \<in> set ws" for q
    using assms(1) that by (simp add: fresh_workers_def nth_append)
  ultimately show ?thesis
    using assms by (simp add: fresh_workers_def extends_pool_def new_pworker_def ball_Un less_SucI)
qed

lemma extends_close_fresh:
  "extends_pool s0 s \<Longrightarrow> fresh_workers s0 s ws \<Longrightarrow> extends_pool s0 (fold worker_Close ws s)"
proof -
  assume e: "extends_pool s0 s" and f: "fresh_workers s0 s ws"
  have "sp_store (fold worker_Close ws s) ! q = sp_store s0 ! q" if q: "q < length (sp_store s0)" for q
  proof -
    have "q \<notin> set ws" using f q by (auto simp: fresh_workers_def)
    then show ?thesis using e q by (simp add: fold_Close_nth extends_pool_def)
  qed
  with e show ?thesis by (simp add: extends_pool_def)
qed

lemma build_loop_ok:
  "extends_pool s0 s \<Longrightarrow> fresh_workers s0 s ws \<Longrightarrow> build_loop build i k ws s = (r, s') \<Longrightarrow>
   extends_pool s0 s' \<and> (\<forall>ps. r = Inr ps \<longrightarrow> length ps = length ws + k \<and> fresh_workers s0 s' ps)"
proof (induction build i k ws s rule: build_loop.induct)
  case (1 build i ws s)
  then show ?case by auto
next
  case (2 build i k ws s)
  show ?case
  proof (cases "build (i + 1)")
    case (Some err)
    then have "s' = fold worker_Close ws s" "r = Inl err" using "2.prems"(3) by simp_all
    with extends_close_fresh [OF "2.prems"(1,2)] show ?thesis by simp
  next
    case None
    then have "build_loop build (i + 1) k (ws @ [length (sp_store s)])
        (s\<lparr>sp_store := sp_store s @ [new_pworker (i + 1)]\<rparr>) = (r, s')"
      using "2.prems"(3) by simp
    from "2.IH" [OF None extends_append [OF "2.prems"(1)]
        fresh_append [OF "2.prems"(2,1)] this]
    show ?thesis by simp
  qed
qed

lemma buildWorkers_ok:
  assumes "buildWorkers build k s = (r, s')"
  shows "extends_pool s s'"
    and "r = Inr ps \<Longrightarrow> length ps = k \<and> fresh_workers s s' ps"
  using build_loop_ok [of s s "[]" build 0 k r s'] assms
  by (simp_all add: buildWorkers_def extends_pool_def fresh_workers_def)

section \<open>Interleaved runs\<close>

text \<open>
  The pool with what is in flight: the leases held, the releases that brought a count to zero and
  have not read \<^verbatim>\<open>retired\<close> yet, and, inside the critical section of a reload, the old
  workers still to be retired and the one whose count is about to be read. A lease and a reload
  exclude each other by the pool's lock; a release takes no lock. The code appends the old workers
  to the retired list at the end of its critical section; here each is appended as it is retired,
  which nobody can observe under the lock.
\<close>

record pool_world =
  w_pool :: server_pool
  w_leases :: "nat list"
  w_checks :: "nat list"
  w_old :: "nat list"
  w_loading :: "nat option"

definition start_world :: "nat list \<Rightarrow> server_pool \<Rightarrow> pool_world" where
  "start_world ws s =
     \<lparr>w_pool = s\<lparr>sp_workers := ws\<rparr>, w_leases = [], w_checks = [], w_old = [], w_loading = None\<rparr>"

inductive pool_run :: "pool_world \<Rightarrow> bool" where
  pool_start: "buildWorkers build n empty_pool = (Inr ws, s) \<Longrightarrow> pool_run (start_world ws s)"
| pool_lease: "pool_run w \<Longrightarrow> w_old w = [] \<Longrightarrow> w_loading w = None \<Longrightarrow>
    leaseWorker (w_pool w) = (Some p, s') \<Longrightarrow>
    pool_run (w\<lparr>w_pool := s', w_leases := p # w_leases w\<rparr>)"
| pool_release_add: "pool_run w \<Longrightarrow> p \<in> set (w_leases w) \<Longrightarrow> release_add p (w_pool w) = (z, s') \<Longrightarrow>
    pool_run (w\<lparr>w_pool := s', w_leases := remove1 p (w_leases w),
                w_checks := (if z then p # w_checks w else w_checks w)\<rparr>)"
| pool_release_load: "pool_run w \<Longrightarrow> p \<in> set (w_checks w) \<Longrightarrow>
    pool_run (w\<lparr>w_pool := release_load p (w_pool w), w_checks := remove1 p (w_checks w)\<rparr>)"
| pool_reload_fails: "pool_run w \<Longrightarrow> buildWorkers build n (w_pool w) = (Inl err, s') \<Longrightarrow>
    pool_run (w\<lparr>w_pool := s'\<rparr>)"
| pool_reload_swap: "pool_run w \<Longrightarrow> w_old w = [] \<Longrightarrow> w_loading w = None \<Longrightarrow>
    buildWorkers build n (w_pool w) = (Inr new, s1) \<Longrightarrow> reload_swap new s1 = (old, s2) \<Longrightarrow>
    pool_run (w\<lparr>w_pool := s2, w_old := old\<rparr>)"
| pool_retire_store: "pool_run w \<Longrightarrow> w_old w = p # ps \<Longrightarrow> w_loading w = None \<Longrightarrow>
    pool_run (w\<lparr>w_pool := retire_store p (w_pool w), w_old := ps, w_loading := Some p\<rparr>)"
| pool_retire_load: "pool_run w \<Longrightarrow> w_loading w = Some p \<Longrightarrow>
    pool_run (w\<lparr>w_pool := (retire_load p (w_pool w))\<lparr>sp_retired := sp_retired (w_pool w) @ [p]\<rparr>,
                w_loading := None\<rparr>)"

abbreviation wk :: "pool_world \<Rightarrow> nat \<Rightarrow> pworker" where
  "wk w p \<equiv> sp_store (w_pool w) ! p"

text \<open>
  The invariant: pointers are valid; the current and the still unretired old workers are distinct
  and not retired; a count is the number of leases; and a retired worker whose count is zero is
  closed unless somebody is about to read its count or its flag.
\<close>

definition ptrs_ok :: "pool_world \<Rightarrow> bool" where
  "ptrs_ok w \<longleftrightarrow>
     (\<forall>p. p \<in> set (w_leases w) \<or> p \<in> set (w_checks w) \<or> p \<in> set (sp_workers (w_pool w))
        \<or> p \<in> set (w_old w) \<or> w_loading w = Some p \<longrightarrow> p < length (sp_store (w_pool w)))"

definition lists_ok :: "pool_world \<Rightarrow> bool" where
  "lists_ok w \<longleftrightarrow> distinct (sp_workers (w_pool w) @ w_old w)
     \<and> (\<forall>p. p \<in> set (sp_workers (w_pool w)) \<or> p \<in> set (w_old w) \<longrightarrow> \<not> pw_retired (wk w p))"

definition refs_ok :: "pool_world \<Rightarrow> bool" where
  "refs_ok w \<longleftrightarrow>
     (\<forall>p < length (sp_store (w_pool w)). pw_refs (wk w p) = of_nat (count_list (w_leases w) p))"

definition leak_ok :: "pool_world \<Rightarrow> bool" where
  "leak_ok w \<longleftrightarrow>
     (\<forall>p < length (sp_store (w_pool w)).
        pw_retired (wk w p) \<and> pw_refs (wk w p) = 0 \<and> p \<notin> set (w_checks w) \<and> w_loading w \<noteq> Some p
        \<longrightarrow> pw_closed (wk w p))"

definition run_inv :: "pool_world \<Rightarrow> bool" where
  "run_inv w \<longleftrightarrow> ptrs_ok w \<and> lists_ok w \<and> refs_ok w \<and> leak_ok w"

lemmas run_inv_defs = run_inv_def ptrs_ok_def lists_ok_def refs_ok_def leak_ok_def

lemma count_remove1: "p \<in> set xs \<Longrightarrow> count_list (remove1 p xs) q = (if q = p then count_list xs q - 1 else count_list xs q)"
  by (induction xs) (auto simp: count_list_0_iff)

lemma count_pos: "p \<in> set xs \<Longrightarrow> 0 < count_list xs p"
  using count_list_0_iff [of xs p] by (cases "count_list xs p") auto

lemma leaseWorker_in:
  assumes "leaseWorker s = (Some p, s')"
  shows "p \<in> set (sp_workers s)" and "sp_store s' = sp_store (upd_worker p (\<lambda>w. w\<lparr>pw_refs := pw_refs w + 1\<rparr>) s)"
    and "sp_workers s' = sp_workers s" and "sp_retired s' = sp_retired s"
  using assms by (auto simp: leaseWorker_def Let_def upd_worker_def split: if_splits)

lemma run_inv_lease:
  assumes "run_inv w" and l: "leaseWorker (w_pool w) = (Some p, s')"
  shows "run_inv (w\<lparr>w_pool := s', w_leases := p # w_leases w\<rparr>)"
proof -
  note f = leaseWorker_in [OF l]
  have p: "p < length (sp_store (w_pool w))" "\<not> pw_retired (wk w p)"
    using assms(1) f(1) by (auto simp: run_inv_defs)
  show ?thesis unfolding run_inv_def
  proof (intro conjI)
    show "ptrs_ok (w\<lparr>w_pool := s', w_leases := p # w_leases w\<rparr>)"
      using assms(1) p by (auto simp: run_inv_def ptrs_ok_def f)
    show "lists_ok (w\<lparr>w_pool := s', w_leases := p # w_leases w\<rparr>)"
      using assms(1) by (auto simp: run_inv_def ptrs_ok_def lists_ok_def f upd_worker_nth)
    show "refs_ok (w\<lparr>w_pool := s', w_leases := p # w_leases w\<rparr>)"
      using assms(1) by (auto simp: run_inv_def refs_ok_def f upd_worker_nth)
    show "leak_ok (w\<lparr>w_pool := s', w_leases := p # w_leases w\<rparr>)"
      using assms(1) p by (auto simp: run_inv_def leak_ok_def f upd_worker_nth)
  qed
qed

lemma run_inv_release_add:
  assumes "run_inv w" and p: "p \<in> set (w_leases w)" and r: "release_add p (w_pool w) = (z, s')"
  shows "run_inv (w\<lparr>w_pool := s', w_leases := remove1 p (w_leases w),
                   w_checks := (if z then p # w_checks w else w_checks w)\<rparr>)" (is "run_inv ?w")
proof -
  have s': "s' = upd_worker p (\<lambda>w. w\<lparr>pw_refs := pw_refs w - 1\<rparr>) (w_pool w)"
    and z: "z \<longleftrightarrow> pw_refs (wk w p) - 1 = 0"
    using r by (auto simp: release_add_def Let_def)
  have lt: "p < length (sp_store (w_pool w))" using assms(1) p by (auto simp: run_inv_defs)
  have c: "of_nat (count_list (w_leases w) p - Suc 0) = (of_nat (count_list (w_leases w) p) :: 32 word) - 1"
    using count_pos [OF p] by (simp add: of_nat_diff)
  show ?thesis unfolding run_inv_def
  proof (intro conjI)
    show "ptrs_ok ?w" using assms(1) lt
      by (auto simp: run_inv_def ptrs_ok_def s' dest: notin_set_remove1)
    show "lists_ok ?w"
      using assms(1) by (auto simp: run_inv_def ptrs_ok_def lists_ok_def s' upd_worker_nth)
    show "refs_ok ?w"
      using assms(1) by (auto simp: run_inv_def refs_ok_def s' upd_worker_nth count_remove1 [OF p] c)
    show "leak_ok ?w"
      using assms(1) by (auto simp: run_inv_def leak_ok_def s' upd_worker_nth z)
  qed
qed

lemma run_inv_release_load:
  assumes "run_inv w" and p: "p \<in> set (w_checks w)"
  shows "run_inv (w\<lparr>w_pool := release_load p (w_pool w), w_checks := remove1 p (w_checks w)\<rparr>)"
    (is "run_inv ?w")
proof -
  have *: "(q \<in> set (remove1 p (w_checks w))) = (q \<in> set (w_checks w))" if "q \<noteq> p" for q
    using that by (rule in_set_remove1)
  show ?thesis unfolding run_inv_def
  proof (intro conjI)
    show "ptrs_ok ?w" using assms(1)
      by (auto simp: run_inv_def ptrs_ok_def release_load_def worker_Close_def dest: notin_set_remove1)
    show "lists_ok ?w"
      using assms(1) by (auto simp: run_inv_def ptrs_ok_def lists_ok_def release_load_def worker_Close_def upd_worker_nth)
    show "refs_ok ?w"
      using assms(1) by (auto simp: run_inv_def refs_ok_def release_load_def worker_Close_def upd_worker_nth)
    show "leak_ok ?w" unfolding leak_ok_def
    proof (intro allI impI)
      fix q assume q: "q < length (sp_store (w_pool ?w))"
        and a: "pw_retired (wk ?w q) \<and> pw_refs (wk ?w q) = 0 \<and> q \<notin> set (w_checks ?w) \<and> w_loading ?w \<noteq> Some q"
      show "pw_closed (wk ?w q)"
      proof (cases "q = p")
        case True
        with a q show ?thesis by (auto simp: release_load_def worker_Close_def upd_worker_nth)
      next
        case False
        with a q assms(1) * [OF False] show ?thesis
          by (auto simp: run_inv_def leak_ok_def release_load_def worker_Close_def upd_worker_nth)
      qed
    qed
  qed
qed

lemma run_inv_build:
  assumes "run_inv w" and b: "buildWorkers build n (w_pool w) = (r, s')"
  shows "ptrs_ok (w\<lparr>w_pool := s'\<rparr>)" and "lists_ok (w\<lparr>w_pool := s'\<rparr>)"
proof -
  note e = buildWorkers_ok(1) [OF b]
  show "ptrs_ok (w\<lparr>w_pool := s'\<rparr>)"
    using assms(1) e by (auto simp: run_inv_def ptrs_ok_def extends_pool_def dest: less_le_trans)
  show "lists_ok (w\<lparr>w_pool := s'\<rparr>)"
    using assms(1) e by (auto simp: run_inv_def ptrs_ok_def lists_ok_def extends_pool_def)
qed

text \<open>A new worker has no lease, whether or not the build went through.\<close>

lemma build_loop_idle:
  "build_loop build i k ws s = (r, s') \<Longrightarrow> \<forall>q \<in> {m..<length (sp_store s)}.
     pw_refs (sp_store s ! q) = 0 \<and> \<not> pw_retired (sp_store s ! q) \<Longrightarrow>
   \<forall>q \<in> {m..<length (sp_store s')}. pw_refs (sp_store s' ! q) = 0 \<and> \<not> pw_retired (sp_store s' ! q)"
proof (induction build i k ws s rule: build_loop.induct)
  case (2 build i k ws s)
  show ?case
  proof (cases "build (i + 1)")
    case (Some err)
    with "2.prems" show ?thesis by (auto simp: fold_Close_nth split: if_splits)
  next
    case None
    have "\<forall>q \<in> {m..<length (sp_store (s\<lparr>sp_store := sp_store s @ [new_pworker (i + 1)]\<rparr>))}.
        pw_refs (sp_store (s\<lparr>sp_store := sp_store s @ [new_pworker (i + 1)]\<rparr>) ! q) = 0
        \<and> \<not> pw_retired (sp_store (s\<lparr>sp_store := sp_store s @ [new_pworker (i + 1)]\<rparr>) ! q)"
      using "2.prems"(2) by (auto simp: nth_append new_pworker_def)
    with "2.IH" [OF None] "2.prems"(1) None show ?thesis by simp
  qed
qed simp

lemma buildWorkers_idle:
  "buildWorkers build k s = (r, s') \<Longrightarrow> length (sp_store s) \<le> q \<Longrightarrow> q < length (sp_store s') \<Longrightarrow>
   pw_refs (sp_store s' ! q) = 0 \<and> \<not> pw_retired (sp_store s' ! q)"
  using build_loop_idle [of build 0 k "[]" s r s' "length (sp_store s)"] by (simp add: buildWorkers_def)

lemma refs_ok_build:
  assumes "run_inv w" and b: "buildWorkers build n (w_pool w) = (r, s')"
  shows "refs_ok (w\<lparr>w_pool := s'\<rparr>)" and "leak_ok (w\<lparr>w_pool := s'\<rparr>)"
proof -
  note e = buildWorkers_ok(1) [OF b]
  have free: "count_list (w_leases w) q = 0" if "\<not> q < length (sp_store (w_pool w))" for q
    using assms(1) that by (auto simp: run_inv_def ptrs_ok_def count_list_0_iff)
  show "refs_ok (w\<lparr>w_pool := s'\<rparr>)" unfolding refs_ok_def
  proof (intro allI impI)
    fix q assume q: "q < length (sp_store (w_pool (w\<lparr>w_pool := s'\<rparr>)))"
    show "pw_refs (wk (w\<lparr>w_pool := s'\<rparr>) q) = of_nat (count_list (w_leases (w\<lparr>w_pool := s'\<rparr>)) q)"
      using assms(1) e free [of q] buildWorkers_idle [OF b, of q] q
      by (cases "q < length (sp_store (w_pool w))") (auto simp: run_inv_def refs_ok_def extends_pool_def)
  qed
  show "leak_ok (w\<lparr>w_pool := s'\<rparr>)" unfolding leak_ok_def
  proof (intro allI impI)
    fix q assume q: "q < length (sp_store (w_pool (w\<lparr>w_pool := s'\<rparr>)))"
      and a: "pw_retired (wk (w\<lparr>w_pool := s'\<rparr>) q) \<and> pw_refs (wk (w\<lparr>w_pool := s'\<rparr>) q) = 0
        \<and> q \<notin> set (w_checks (w\<lparr>w_pool := s'\<rparr>)) \<and> w_loading (w\<lparr>w_pool := s'\<rparr>) \<noteq> Some q"
    show "pw_closed (wk (w\<lparr>w_pool := s'\<rparr>) q)"
      using assms(1) e buildWorkers_idle [OF b, of q] q a
      by (cases "q < length (sp_store (w_pool w))") (auto simp: run_inv_def leak_ok_def extends_pool_def)
  qed
qed

lemma run_inv_build_all: "run_inv w \<Longrightarrow> buildWorkers build n (w_pool w) = (r, s') \<Longrightarrow> run_inv (w\<lparr>w_pool := s'\<rparr>)"
  using run_inv_build refs_ok_build unfolding run_inv_def [of "w\<lparr>w_pool := s'\<rparr>"] by blast

lemma run_inv_swap:
  assumes "run_inv w" "w_old w = []"
    and b: "buildWorkers build n (w_pool w) = (Inr new, s1)" and r: "reload_swap new s1 = (old, s2)"
  shows "run_inv (w\<lparr>w_pool := s2, w_old := old\<rparr>)" (is "run_inv ?w")
proof -
  note i = run_inv_build_all [OF assms(1) b]
  note f = buildWorkers_ok(2) [OF b refl]
  have s2: "s2 = s1\<lparr>sp_workers := new, sp_next := 0\<rparr>" and old: "old = sp_workers s1"
    using r by (simp_all add: reload_swap_def)
  have old_lt: "p < length (sp_store (w_pool w))" if "p \<in> set old" for p
    using assms(1) buildWorkers_ok(1) [OF b] that
    by (auto simp: run_inv_def ptrs_ok_def old extends_pool_def)
  have new_in: "length (sp_store (w_pool w)) \<le> p \<and> p < length (sp_store s1) \<and> \<not> pw_retired (sp_store s1 ! p)"
    if "p \<in> set new" for p using f that by (auto simp: fresh_workers_def)
  show ?thesis unfolding run_inv_def
  proof (intro conjI)
    show "ptrs_ok ?w" using i new_in by (auto simp: run_inv_def ptrs_ok_def s2 old)
    have "distinct new" "distinct old" "set new \<inter> set old = {}"
      using f i old_lt new_in by (fastforce simp: fresh_workers_def run_inv_def lists_ok_def old)+
    then show "lists_ok ?w" using i new_in
      by (auto simp: run_inv_def lists_ok_def s2 old)
    show "refs_ok ?w" using i by (simp add: run_inv_def refs_ok_def s2)
    show "leak_ok ?w" using i by (simp add: run_inv_def leak_ok_def s2)
  qed
qed

lemma run_inv_retire_store:
  assumes "run_inv w" "w_old w = p # ps" "w_loading w = None"
  shows "run_inv (w\<lparr>w_pool := retire_store p (w_pool w), w_old := ps, w_loading := Some p\<rparr>)"
    (is "run_inv ?w")
  unfolding run_inv_def
proof (intro conjI)
  have p: "p \<notin> set (sp_workers (w_pool w))" "p \<notin> set ps"
    using assms by (auto simp: run_inv_def lists_ok_def)
  show "ptrs_ok ?w" using assms by (auto simp: run_inv_def ptrs_ok_def retire_store_def)
  show "lists_ok ?w" using assms p
    by (auto simp: run_inv_def ptrs_ok_def lists_ok_def retire_store_def upd_worker_nth)
  show "refs_ok ?w" using assms
    by (auto simp: run_inv_def refs_ok_def retire_store_def upd_worker_nth)
  show "leak_ok ?w" using assms
    by (auto simp: run_inv_def leak_ok_def retire_store_def upd_worker_nth)
qed

lemma run_inv_retire_load:
  assumes "run_inv w" "w_loading w = Some p"
  shows "run_inv (w\<lparr>w_pool := (retire_load p (w_pool w))\<lparr>sp_retired := sp_retired (w_pool w) @ [p]\<rparr>,
                   w_loading := None\<rparr>)"
    (is "run_inv ?w")
  unfolding run_inv_def
proof (intro conjI)
  show "ptrs_ok ?w" using assms by (auto simp: run_inv_def ptrs_ok_def retire_load_def worker_Close_def)
  show "lists_ok ?w" using assms
    by (auto simp: run_inv_def ptrs_ok_def lists_ok_def retire_load_def worker_Close_def upd_worker_nth)
  show "refs_ok ?w" using assms
    by (auto simp: run_inv_def refs_ok_def retire_load_def worker_Close_def upd_worker_nth)
  show "leak_ok ?w" using assms
    by (auto simp: run_inv_def leak_ok_def retire_load_def worker_Close_def upd_worker_nth)
qed

lemma run_inv_start:
  assumes "buildWorkers build n empty_pool = (Inr ws, s)"
  shows "run_inv (start_world ws s)"
  using buildWorkers_ok(2) [OF assms refl] buildWorkers_idle [OF assms]
  by (auto simp: run_inv_defs start_world_def fresh_workers_def empty_pool_def)

lemma pool_run_inv: "pool_run w \<Longrightarrow> run_inv w"
proof (induction rule: pool_run.induct)
  case (pool_reload_fails w build n err s')
  then show ?case by (intro run_inv_build_all) simp_all
qed (simp_all add: run_inv_start run_inv_lease run_inv_release_add run_inv_release_load run_inv_swap
    run_inv_retire_store run_inv_retire_load del: empty_pool_def)

section \<open>Sequential runs\<close>

text \<open>
  The same operations with \<^verbatim>\<open>release\<close> and \<^verbatim>\<open>Reload\<close> executed whole; the counter is the
  number of leases taken, which bounds the reference counts.
\<close>

inductive pool_seq :: "nat \<Rightarrow> server_pool \<Rightarrow> nat list \<Rightarrow> bool" where
  seq_start: "buildWorkers build n empty_pool = (Inr ws, s) \<Longrightarrow>
    pool_seq 0 (s\<lparr>sp_workers := ws\<rparr>) []"
| seq_lease: "pool_seq k s ls \<Longrightarrow> leaseWorker s = (Some p, s') \<Longrightarrow> pool_seq (Suc k) s' (p # ls)"
| seq_release: "pool_seq k s ls \<Longrightarrow> p \<in> set ls \<Longrightarrow> pool_seq k (release p s) (remove1 p ls)"
| seq_reload: "pool_seq k s ls \<Longrightarrow> pool_seq k (snd (Reload build n s)) ls"

definition seq_inv :: "nat \<Rightarrow> server_pool \<Rightarrow> nat list \<Rightarrow> bool" where
  "seq_inv k s ls \<longleftrightarrow> length ls \<le> k
     \<and> (\<forall>p. p \<in> set ls \<or> p \<in> set (sp_workers s) \<or> p \<in> set (sp_retired s) \<longrightarrow> p < length (sp_store s))
     \<and> distinct (sp_workers s)
     \<and> (\<forall>p\<in>set (sp_workers s). \<not> pw_retired (sp_store s ! p) \<and> \<not> pw_closed (sp_store s ! p))
     \<and> (\<forall>p < length (sp_store s). pw_refs (sp_store s ! p) = of_nat (count_list ls p))
     \<and> (\<forall>p\<in>set ls. \<not> pw_closed (sp_store s ! p))
     \<and> set ls \<subseteq> set (sp_workers s) \<union> set (sp_retired s)"

lemma fold_retire_frame [simp]:
  "sp_workers (fold retire ps s) = sp_workers s"
  "sp_retired (fold retire ps s) = sp_retired s"
  "sp_next (fold retire ps s) = sp_next s"
  "length (sp_store (fold retire ps s)) = length (sp_store s)"
  by (induction ps arbitrary: s) (simp_all add: worker_ops)

lemma retire_nth:
  "q < length (sp_store s) \<Longrightarrow>
   sp_store (retire p s) ! q =
     (if q = p then (sp_store s ! q)\<lparr>pw_retired := True,
        pw_closed := pw_closed (sp_store s ! q) \<or> pw_refs (sp_store s ! q) = 0\<rparr> else sp_store s ! q)"
  by (simp add: worker_ops upd_worker_nth)

lemma retire_length [simp]: "length (sp_store (retire p s)) = length (sp_store s)"
  by (simp add: worker_ops)

lemma fold_retire_nth:
  "q < length (sp_store s) \<Longrightarrow>
   sp_store (fold retire ps s) ! q =
     (if q \<in> set ps then (sp_store s ! q)\<lparr>pw_retired := True,
        pw_closed := pw_closed (sp_store s ! q) \<or> pw_refs (sp_store s ! q) = 0\<rparr> else sp_store s ! q)"
  by (induction ps arbitrary: s) (auto simp: retire_nth)

lemma count_nonzero:
  "p \<in> set ls \<Longrightarrow> length ls < 2 ^ 32 \<Longrightarrow> (of_nat (count_list ls p) :: 32 word) \<noteq> 0"
proof
  assume p: "p \<in> set ls" and l: "length ls < 2 ^ 32" and z: "(of_nat (count_list ls p) :: 32 word) = 0"
  have "count_list ls p \<le> length ls" by (rule count_le_length)
  then have "unat (of_nat (count_list ls p) :: 32 word) = count_list ls p"
    using l by (simp add: unat_of_nat take_bit_nat_eq_self)
  with z count_pos [OF p] show False by simp
qed

lemma release_nth:
  "q < length (sp_store s) \<Longrightarrow>
   sp_store (release p s) ! q =
     (if q = p then (sp_store s ! q)\<lparr>pw_refs := pw_refs (sp_store s ! q) - 1,
        pw_closed := pw_closed (sp_store s ! q)
          \<or> (pw_refs (sp_store s ! q) - 1 = 0 \<and> pw_retired (sp_store s ! q))\<rparr> else sp_store s ! q)"
  by (simp add: worker_ops upd_worker_nth)

lemma release_frame [simp]:
  "sp_workers (release p s) = sp_workers s" "sp_retired (release p s) = sp_retired s"
  "length (sp_store (release p s)) = length (sp_store s)"
  by (simp_all add: worker_ops)

lemma seq_inv_release:
  assumes i: "seq_inv k s ls" and p: "p \<in> set ls" and k: "k < 2 ^ 32"
  shows "seq_inv k (release p s) (remove1 p ls)"
proof -
  have sub: "set (remove1 p ls) \<subseteq> set ls" by (rule set_remove1_subset)
  have "length ls \<le> k" using i by (simp add: seq_inv_def)
  then have len: "length (remove1 p ls) < 2 ^ 32" "length (remove1 p ls) \<le> k"
    using k p by (simp_all add: length_remove1)
  have c: "of_nat (count_list ls p - Suc 0) = (of_nat (count_list ls p) :: 32 word) - 1"
    using count_pos [OF p] by (simp add: of_nat_diff)
  have refs: "pw_refs (sp_store (release p s) ! q) = of_nat (count_list (remove1 p ls) q)"
    if "q < length (sp_store s)" for q
    using i that by (auto simp: seq_inv_def release_nth count_remove1 [OF p] c)
  have open_leased: "\<not> pw_closed (sp_store (release p s) ! q)" if q: "q \<in> set (remove1 p ls)" for q
  proof -
    have lt: "q < length (sp_store s)" and nc: "\<not> pw_closed (sp_store s ! q)"
      using i q sub by (auto simp: seq_inv_def)
    have "pw_refs (sp_store (release p s) ! q) \<noteq> 0"
      using refs [OF lt] count_nonzero [OF q len(1)] by simp
    with lt nc show ?thesis by (auto simp: release_nth)
  qed
  have "\<not> pw_retired (sp_store (release p s) ! q) \<and> \<not> pw_closed (sp_store (release p s) ! q)"
    if "q \<in> set (sp_workers s)" for q
    using i that by (auto simp: seq_inv_def release_nth)
  with i sub len refs open_leased show ?thesis unfolding seq_inv_def by auto
qed

lemma seq_inv_lease:
  assumes i: "seq_inv k s ls" and l: "leaseWorker s = (Some p, s')"
  shows "seq_inv (Suc k) s' (p # ls)"
  using i leaseWorker_in [OF l] by (auto simp: seq_inv_def upd_worker_nth)

lemma Reload_ok:
  assumes "Reload build n s = (None, s')"
  obtains new s1 where "buildWorkers build n s = (Inr new, s1)"
    and "s' = (fold retire (sp_workers s) (s1\<lparr>sp_workers := new, sp_next := 0\<rparr>))
               \<lparr>sp_retired := sp_retired s @ sp_workers s\<rparr>"
proof (cases "buildWorkers build n s")
  case (Pair r s1)
  note e = buildWorkers_ok(1) [OF Pair]
  with assms Pair that show ?thesis
    by (cases r) (auto simp: Reload_def reload_swap_def Let_def extends_pool_def)
qed

lemma Reload_fails:
  assumes "Reload build n s = (Some err, s')"
  obtains e where "buildWorkers build n s = (Inl e, s')" "err = ''reload: '' @ e"
  using assms by (auto simp: Reload_def reload_swap_def split: prod.splits sum.splits)

lemma seq_inv_free: "seq_inv k s ls \<Longrightarrow> \<not> q < length (sp_store s) \<Longrightarrow> count_list ls q = 0"
  by (auto simp: seq_inv_def count_list_0_iff)

lemma seq_inv_extend:
  assumes i: "seq_inv k s ls" and b: "buildWorkers build n s = (r, s')"
  shows "seq_inv k s' ls"
proof -
  note x = buildWorkers_ok(1) [OF b]
  have "pw_refs (sp_store s' ! q) = of_nat (count_list ls q)" if "q < length (sp_store s')" for q
    using i x seq_inv_free [OF i, of q] buildWorkers_idle [OF b, of q] that
    by (cases "q < length (sp_store s)") (auto simp: seq_inv_def extends_pool_def)
  moreover have "q < length (sp_store s') \<and> sp_store s' ! q = sp_store s ! q"
    if "q < length (sp_store s)" for q
    using x that by (simp add: extends_pool_def)
  ultimately show ?thesis using i x unfolding seq_inv_def extends_pool_def by metis
qed

lemma seq_inv_swap:
  assumes i: "seq_inv k s1 ls" and k: "k < 2 ^ 32"
    and d: "distinct new"
    and fresh: "\<And>q. q \<in> set new \<Longrightarrow> q < length (sp_store s1) \<and> q \<notin> set (sp_workers s1)
      \<and> \<not> pw_retired (sp_store s1 ! q) \<and> \<not> pw_closed (sp_store s1 ! q)"
  shows "seq_inv k ((fold retire (sp_workers s1) (s1\<lparr>sp_workers := new, sp_next := 0\<rparr>))
           \<lparr>sp_retired := sp_retired s1 @ sp_workers s1\<rparr>) ls" (is "seq_inv k ?s ls")
proof -
  have len: "length (sp_store ?s) = length (sp_store s1)" by simp
  have w: "sp_workers ?s = new" "sp_retired ?s = sp_retired s1 @ sp_workers s1" by simp_all
  have nth: "sp_store ?s ! q =
      (if q \<in> set (sp_workers s1) then (sp_store s1 ! q)\<lparr>pw_retired := True,
         pw_closed := pw_closed (sp_store s1 ! q) \<or> pw_refs (sp_store s1 ! q) = 0\<rparr>
       else sp_store s1 ! q)" if "q < length (sp_store s1)" for q
    using that by (simp add: fold_retire_nth)
  have refs: "pw_refs (sp_store ?s ! q) = of_nat (count_list ls q)" if "q < length (sp_store s1)" for q
    using i that by (simp add: seq_inv_def fold_retire_nth)
  have leased: "\<not> pw_closed (sp_store ?s ! q)" if q: "q \<in> set ls" for q
  proof -
    have ql: "q < length (sp_store s1)" and nc: "\<not> pw_closed (sp_store s1 ! q)" and l: "length ls \<le> k"
      using i q by (auto simp: seq_inv_def)
    have "pw_refs (sp_store ?s ! q) \<noteq> 0"
      using refs [OF ql] count_nonzero [OF q] l k by simp
    with nth [OF ql] nc show ?thesis by (auto split: if_splits)
  qed
  have new: "\<not> pw_retired (sp_store ?s ! q) \<and> \<not> pw_closed (sp_store ?s ! q)" if "q \<in> set new" for q
    using fresh [OF that] nth [of q] by simp
  show ?thesis unfolding seq_inv_def len w
  proof (intro conjI)
    show "\<forall>p. p \<in> set ls \<or> p \<in> set new \<or> p \<in> set (sp_retired s1 @ sp_workers s1) \<longrightarrow> p < length (sp_store s1)"
      using i fresh by (auto simp: seq_inv_def)
    show "set ls \<subseteq> set new \<union> set (sp_retired s1 @ sp_workers s1)" using i by (auto simp: seq_inv_def)
    show "length ls \<le> k" using i by (simp add: seq_inv_def)
    show "\<forall>p < length (sp_store s1). pw_refs (sp_store ?s ! p) = of_nat (count_list ls p)"
      using refs by blast
    show "\<forall>p\<in>set ls. \<not> pw_closed (sp_store ?s ! p)" using leased by blast
    show "\<forall>p\<in>set new. \<not> pw_retired (sp_store ?s ! p) \<and> \<not> pw_closed (sp_store ?s ! p)" using new by blast
  qed (rule d)
qed

lemma seq_inv_reload:
  assumes i: "seq_inv k s ls" and k: "k < 2 ^ 32"
  shows "seq_inv k (snd (Reload build n s)) ls"
proof (cases "Reload build n s")
  case (Pair r s')
  show ?thesis
  proof (cases r)
    case (Some err)
    with Pair show ?thesis using seq_inv_extend [OF i] by (auto elim!: Reload_fails)
  next
    case None
    with Pair obtain new s1 where b: "buildWorkers build n s = (Inr new, s1)"
      and s': "s' = (fold retire (sp_workers s) (s1\<lparr>sp_workers := new, sp_next := 0\<rparr>))
               \<lparr>sp_retired := sp_retired s @ sp_workers s\<rparr>"
      by (auto elim: Reload_ok)
    note x = buildWorkers_ok(1) [OF b] and f = buildWorkers_ok(2) [OF b refl]
    have e: "sp_workers s = sp_workers s1" "sp_retired s = sp_retired s1"
      using x by (simp_all add: extends_pool_def)
    have "q < length (sp_store s1) \<and> q \<notin> set (sp_workers s1)
        \<and> \<not> pw_retired (sp_store s1 ! q) \<and> \<not> pw_closed (sp_store s1 ! q)" if q: "q \<in> set new" for q
    proof -
      have "length (sp_store s) \<le> q" using f q by (simp add: fresh_workers_def)
      then have "q \<notin> set (sp_workers s)" using i by (auto simp: seq_inv_def)
      with f q show ?thesis by (simp add: fresh_workers_def e)
    qed
    moreover have "distinct new" using f by (simp add: fresh_workers_def)
    ultimately show ?thesis
      using seq_inv_swap [OF seq_inv_extend [OF i b] k] by (simp add: Pair s' e)
  qed
qed

lemma seq_inv_start:
  assumes "buildWorkers build n empty_pool = (Inr ws, s)"
  shows "seq_inv 0 (s\<lparr>sp_workers := ws\<rparr>) []"
  using buildWorkers_ok(2) [OF assms refl] buildWorkers_ok(1) [OF assms] buildWorkers_idle [OF assms]
  by (auto simp: seq_inv_def fresh_workers_def extends_pool_def empty_pool_def)

lemma pool_seq_inv: "pool_seq k s ls \<Longrightarrow> k < 2 ^ 32 \<Longrightarrow> seq_inv k s ls"
  by (induction rule: pool_seq.induct)
    (simp_all add: seq_inv_start seq_inv_lease seq_inv_release seq_inv_reload)

section \<open>Round robin\<close>

fun lease_many :: "nat \<Rightarrow> server_pool \<Rightarrow> nat list \<times> server_pool" where
  "lease_many 0 s = ([], s)"
| "lease_many (Suc k) s =
     (case leaseWorker s of
        (None, s1) \<Rightarrow> ([], s1)
      | (Some p, s1) \<Rightarrow> (let (ps, s2) = lease_many k s1 in (p # ps, s2)))"

lemma unat_suc: "unat (n :: 64 word) + 1 < 2 ^ 64 \<Longrightarrow> unat (n + 1) = unat n + 1"
  using unat_add_lem [of n 1] by simp

lemma lease_many_round_robin:
  "sp_workers s = ws \<Longrightarrow> ws \<noteq> [] \<Longrightarrow> unat (sp_next s) + k < 2 ^ 64 \<Longrightarrow>
   fst (lease_many k s) = map (\<lambda>i. ws ! ((unat (sp_next s) + 1 + i) mod length ws)) [0..<k]"
proof (induction k arbitrary: s)
  case (Suc k)
  let ?s1 = "snd (leaseWorker s)"
  have n: "unat (sp_next s + 1) = unat (sp_next s) + 1" using Suc.prems(3) by (intro unat_suc) simp
  have l: "leaseWorker s = (Some (ws ! ((unat (sp_next s) + 1) mod length ws)), ?s1)"
    and w: "sp_workers ?s1 = ws" "sp_next ?s1 = sp_next s + 1"
    using Suc.prems(1,2) by (simp_all add: leaseWorker_def Let_def n)
  have "fst (lease_many k ?s1) = map (\<lambda>i. ws ! ((unat (sp_next s) + 1 + 1 + i) mod length ws)) [0..<k]"
    using Suc.IH [OF w(1) Suc.prems(2)] Suc.prems(3) by (simp add: w(2) n)
  then have "fst (lease_many (Suc k) s) = ws ! ((unat (sp_next s) + 1) mod length ws)
      # map (\<lambda>i. ws ! ((unat (sp_next s) + 1 + 1 + i) mod length ws)) [0..<k]"
    by (subst lease_many.simps, subst l) (simp add: split_beta)
  also have "\<dots> = map (\<lambda>i. ws ! ((unat (sp_next s) + 1 + i) mod length ws)) [0..<Suc k]"
    by (simp add: upt_conv_Cons map_Suc_upt [symmetric] comp_def del: upt_Suc)
  finally show ?case .
qed simp

section \<open>Shutdown\<close>

lemma waitIdle_frame [simp]:
  "sp_workers (waitIdle f p s) = sp_workers s" "sp_retired (waitIdle f p s) = sp_retired s"
  "length (sp_store (waitIdle f p s)) = length (sp_store s)"
  by (auto simp: waitIdle_def tryAcquireSlot_def freeSlot_def split: option.split)

lemma waitIdle_closed: "q < length (sp_store s) \<Longrightarrow>
  pw_closed (sp_store (waitIdle f p s) ! q) = pw_closed (sp_store s ! q)"
  by (auto simp: waitIdle_def tryAcquireSlot_def freeSlot_def upd_worker_nth split: option.split)

lemma close_workers_frame [simp]:
  "sp_workers (close_workers f ps s) = sp_workers s" "sp_retired (close_workers f ps s) = sp_retired s"
  "length (sp_store (close_workers f ps s)) = length (sp_store s)"
  by (induction ps arbitrary: s) (simp_all add: worker_Close_def)

lemma close_workers_closed:
  "q < length (sp_store s) \<Longrightarrow>
   pw_closed (sp_store (close_workers f ps s) ! q) \<longleftrightarrow> q \<in> set ps \<or> pw_closed (sp_store s ! q)"
  by (induction ps arbitrary: s) (auto simp: worker_Close_def upd_worker_nth waitIdle_closed)

section \<open>A reload in slow motion\<close>

text \<open>One worker, leased and released; before the release reads \<^verbatim>\<open>retired\<close> the worker is
  leased again and a reload retires it.\<close>

definition one_worker :: server_pool where
  "one_worker = \<lparr>sp_store = [new_pworker 1], sp_workers = [0], sp_retired = [], sp_next = 0\<rparr>"

lemma build_one: "buildWorkers (\<lambda>i. None) 1 empty_pool = (Inr [0], one_worker\<lparr>sp_workers := []\<rparr>)"
  by (simp add: buildWorkers_def empty_pool_def one_worker_def One_nat_def)

lemma seq_one: "pool_seq 0 one_worker []"
  using seq_start [OF build_one] by (simp add: one_worker_def)

definition leased_again :: pool_world where
  "leased_again =
     \<lparr>w_pool = \<lparr>sp_store = [(new_pworker 1)\<lparr>pw_refs := 1\<rparr>], sp_workers = [0], sp_retired = [], sp_next = 2\<rparr>,
      w_leases = [0], w_checks = [0], w_old = [], w_loading = None\<rparr>"

lemma run_leased_again: "pool_run leased_again"
proof -
  let ?w0 = "start_world [0] (one_worker\<lparr>sp_workers := []\<rparr>)"
  have r0: "pool_run ?w0" by (rule pool_start [OF build_one])
  let ?s1 = "\<lparr>sp_store = [(new_pworker 1)\<lparr>pw_refs := 1\<rparr>], sp_workers = [0], sp_retired = [], sp_next = 1\<rparr>"
  have "leaseWorker (w_pool ?w0) = (Some 0, ?s1)"
    by (simp add: start_world_def one_worker_def leaseWorker_def Let_def upd_worker_def new_pworker_def)
  from pool_lease [OF r0 _ _ this]
  have r1: "pool_run (?w0\<lparr>w_pool := ?s1, w_leases := [0]\<rparr>)" by (simp add: start_world_def)
  let ?s2 = "\<lparr>sp_store = [new_pworker 1], sp_workers = [0], sp_retired = [], sp_next = 1\<rparr>"
  have "release_add 0 ?s1 = (True, ?s2)"
    by (simp add: release_add_def Let_def upd_worker_def new_pworker_def)
  with pool_release_add [OF r1, of 0 True ?s2]
  have r2: "pool_run (?w0\<lparr>w_pool := ?s2, w_leases := [], w_checks := [0]\<rparr>)"
    by (simp add: start_world_def)
  have "leaseWorker ?s2 = (Some 0, w_pool leased_again)"
    by (simp add: leased_again_def leaseWorker_def Let_def upd_worker_def new_pworker_def)
  with pool_lease [OF r2, of 0 "w_pool leased_again"] show ?thesis
    by (simp add: start_world_def leased_again_def)
qed

definition reloaded :: pool_world where
  "reloaded =
     \<lparr>w_pool = \<lparr>sp_store = [(new_pworker 1)\<lparr>pw_refs := 1, pw_retired := True\<rparr>, new_pworker 1],
                sp_workers = [1], sp_retired = [0], sp_next = 0\<rparr>,
      w_leases = [0], w_checks = [0], w_old = [], w_loading = None\<rparr>"

lemma run_reloaded: "pool_run reloaded"
proof -
  let ?s1 = "\<lparr>sp_store = [(new_pworker 1)\<lparr>pw_refs := 1\<rparr>, new_pworker 1],
              sp_workers = [0], sp_retired = [], sp_next = 2\<rparr>"
  let ?s2 = "?s1\<lparr>sp_workers := [1], sp_next := 0\<rparr>"
  have b: "buildWorkers (\<lambda>i. None) 1 (w_pool leased_again) = (Inr [1], ?s1)"
    by (simp add: buildWorkers_def leased_again_def One_nat_def)
  have s: "reload_swap [1] ?s1 = ([0], ?s2)" by (simp add: reload_swap_def)
  from pool_reload_swap [OF run_leased_again _ _ b s]
  have r: "pool_run (leased_again\<lparr>w_pool := ?s2, w_old := [0]\<rparr>)" by (simp add: leased_again_def)
  from pool_retire_load [OF pool_retire_store [OF r]] show ?thesis
    by (simp add: leased_again_def reloaded_def retire_store_def retire_load_def upd_worker_def)
qed

section \<open>Properties\<close>

text \<open>C5: A superseded worker does not leak: in every interleaving of leases, releases and
  reloads, a retired worker without a lease is closed, unless a release or a reload is just about
  to read its flag or count (and will close it then).\<close>

theorem retired_worker_is_closed:
  assumes "pool_run w" and "p < length (sp_store (w_pool w))" and "pw_retired (wk w p)"
    and "p \<notin> set (w_leases w)" and "p \<notin> set (w_checks w)" and "w_loading w \<noteq> Some p"
  shows "pw_closed (wk w p)"
proof -
  have "refs_ok w" "leak_ok w" using pool_run_inv [OF assms(1)] by (simp_all add: run_inv_def)
  moreover have "count_list (w_leases w) p = 0" using assms(4) by (simp add: count_list_0_iff)
  ultimately show ?thesis using assms(2,3,5,6) by (simp add: refs_ok_def leak_ok_def)
qed

theorem retired_worker_is_closed_witness:
  "pw_closed (wk (reloaded\<lparr>w_pool := snd (release_add 0 (release_load 0 (w_pool reloaded))),
      w_leases := [], w_checks := []\<rparr>) 0)"
proof -
  have "pool_run (reloaded\<lparr>w_pool := release_load 0 (w_pool reloaded), w_checks := []\<rparr>)"
    using pool_release_load [OF run_reloaded, of 0] by (simp add: reloaded_def)
  from pool_release_add [OF this, of 0]
  have "pool_run (reloaded\<lparr>w_pool := snd (release_add 0 (release_load 0 (w_pool reloaded))),
      w_leases := [], w_checks := [0]\<rparr>)"
    by (simp add: reloaded_def release_load_def release_add_def Let_def worker_Close_def upd_worker_def new_pworker_def)
  from pool_release_load [OF this, of 0]
  have "pool_run (reloaded\<lparr>w_pool := snd (release_add 0 (release_load 0 (w_pool reloaded))),
      w_leases := [], w_checks := []\<rparr>)"
    by (simp add: reloaded_def release_load_def release_add_def Let_def worker_Close_def upd_worker_def new_pworker_def)
  from retired_worker_is_closed [OF this, of 0] show ?thesis
    by (simp add: reloaded_def release_load_def release_add_def Let_def worker_Close_def upd_worker_def new_pworker_def)
qed

text \<open>The lease does not protect against every reload: the two accesses of
  \<^verbatim>\<open>release\<close> leave a window in which the worker can be leased again and retired, and then
  the first release closes the Lua state under the second lease.\<close>

theorem release_race_closes_leased:
  "\<exists>w p. pool_run w \<and> p \<in> set (w_leases w) \<and> pw_closed (wk w p)"
proof -
  have "pool_run (reloaded\<lparr>w_pool := release_load 0 (w_pool reloaded), w_checks := []\<rparr>)"
    using pool_release_load [OF run_reloaded, of 0] by (simp add: reloaded_def)
  moreover have "pw_closed (sp_store (release_load 0 (w_pool reloaded)) ! 0)"
    by (simp add: reloaded_def release_load_def worker_Close_def upd_worker_def)
  ultimately show ?thesis
    by (intro exI [of _ "reloaded\<lparr>w_pool := release_load 0 (w_pool reloaded), w_checks := []\<rparr>"]
        exI [of _ 0]) (simp add: reloaded_def)
qed

text \<open>C1: With whole releases and reloads the lease is safe: while fewer than 2^32 leases were
  taken, a leased worker is never closed, whatever reloads happened since, and the workers of the
  pool are open.\<close>

theorem leased_worker_stays_open:
  assumes "pool_seq k s ls" and "k < 2 ^ 32" and "p \<in> set ls \<or> p \<in> set (sp_workers s)"
  shows "\<not> pw_closed (sp_store s ! p)"
  using pool_seq_inv [OF assms(1,2)] assms(3) by (auto simp: seq_inv_def)

theorem leased_worker_stays_open_witness:
  "\<not> pw_closed (sp_store (snd (Reload (\<lambda>i. None) 1 (snd (leaseWorker one_worker)))) ! 0)"
proof -
  have "leaseWorker one_worker = (Some 0, snd (leaseWorker one_worker))"
    by (simp add: one_worker_def leaseWorker_def Let_def)
  from seq_reload [OF seq_lease [OF seq_one this]]
  have "pool_seq 1 (snd (Reload (\<lambda>i. None) 1 (snd (leaseWorker one_worker)))) [0]" by simp
  from leased_worker_stays_open [OF this, of 0] show ?thesis by simp
qed

text \<open>A failed reload changes nothing that is in use: the pool, the retired list and the
  cursor stay, and no existing worker is touched; its error is the build's.\<close>

theorem Reload_error_keeps_pool:
  assumes "Reload build n s = (Some err, s')"
  shows "sp_workers s' = sp_workers s \<and> sp_retired s' = sp_retired s \<and> sp_next s' = sp_next s
         \<and> (\<forall>p < length (sp_store s). sp_store s' ! p = sp_store s ! p)"
  using assms buildWorkers_ok(1) by (auto elim!: Reload_fails simp: extends_pool_def)

theorem Reload_error_keeps_pool_witness:
  "sp_workers (snd (Reload (\<lambda>i. if i = 2 then Some ''syntax error'' else None) 2 one_worker)) = [0]"
proof -
  have "Reload (\<lambda>i. if i = 2 then Some ''syntax error'' else None) 2 one_worker =
     (Some ''reload: syntax error'',
      snd (Reload (\<lambda>i. if i = 2 then Some ''syntax error'' else None) 2 one_worker))"
    by (simp add: Reload_def buildWorkers_def numeral_2_eq_2)
  from Reload_error_keeps_pool [OF this] show ?thesis by (simp add: one_worker_def)
qed

text \<open>Leasing is round robin: until the 64-bit cursor wraps, the leases between two reloads
  visit the workers cyclically, starting one past the cursor.\<close>

theorem leaseWorker_round_robin:
  assumes "sp_workers s = ws" and "ws \<noteq> []" and "unat (sp_next s) + k < 2 ^ 64"
  shows "fst (lease_many k s) = map (\<lambda>i. ws ! ((unat (sp_next s) + 1 + i) mod length ws)) [0..<k]"
  using assms by (rule lease_many_round_robin)

theorem leaseWorker_round_robin_witness:
  "fst (lease_many 4 \<lparr>sp_store = [new_pworker 1, new_pworker 2, new_pworker 3],
      sp_workers = [0, 1, 2], sp_retired = [], sp_next = 0\<rparr>) = [1, 2, 0, 1]"
proof -
  have u: "[0..<4] = [0, 1, 2, 3 :: nat]" by (simp add: upt_rec)
  show ?thesis
    by (subst leaseWorker_round_robin [OF refl]) (simp_all add: u)
qed

text \<open>Shutdown closes every worker somebody could still reach: afterwards the lists are empty
  and each worker that was current, retired or leased is closed, whether or not its slot came
  free in time.\<close>

theorem shutdown_closes_all:
  assumes "pool_seq k s ls" and "k < 2 ^ 32"
  shows "sp_workers (shutdown_workers freed s) = [] \<and> sp_retired (shutdown_workers freed s) = []
         \<and> (\<forall>p. p \<in> set (sp_workers s) \<or> p \<in> set (sp_retired s) \<or> p \<in> set ls \<longrightarrow>
               pw_closed (sp_store (shutdown_workers freed s) ! p))"
proof -
  have "seq_inv k s ls" using assms by (rule pool_seq_inv)
  then show ?thesis
    by (auto simp: seq_inv_def shutdown_workers_def Let_def close_workers_closed)
qed

theorem shutdown_closes_all_witness:
  "pw_closed (sp_store (shutdown_workers (\<lambda>p. False) one_worker) ! 0)"
  using shutdown_closes_all [OF seq_one, of "\<lambda>p. False"] by (simp add: one_worker_def)

end
