(* ===== verification/Http_Router.thy ===== *)
theory Http_Router
  imports Script_Errors Json_Lua Conn_Hubs
begin

text \<open>
  The declarative routes of serve mode, \<^verbatim>\<open>internal/server/router.go\<close>, and the values that
  pass between a request and a Lua handler: the request table and the decoding of the handler's
  result, \<^verbatim>\<open>internal/server/worker.go\<close>. The radix tree is a library: \<open>tree_handle\<close>
  registers a route (a conflict leaves whatever tree the library left) and \<open>tree_lookup\<close> finds the
  index the registered stub records and the path parameters.
\<close>

section \<open>Requests and responses\<close>

record http_request =
  rq_Method :: string
  rq_Path :: string
  rq_Query :: string
  rq_QueryValues :: "(string \<times> string list) list"
  rq_Headers :: "(string \<times> string) list"
  rq_Body :: string
  rq_RemoteAddr :: string
  rq_TLS :: bool

record http_response =
  Status :: int
  Headers :: "(string \<times> string) list option"
  Body :: string

text \<open>The world of a serve worker: its script and the hubs it shares with the others.\<close>

record serve_world = script_world +
  sw_ws :: ws_hub
  sw_tcp :: tcp_hub

fun string_list_table :: "nat \<Rightarrow> nat \<Rightarrow> string list \<Rightarrow> lua_state \<Rightarrow> lua_state" where
  "string_list_table a i [] L = L"
| "string_list_table a i (s # ss) L = string_list_table a (Suc i) ss (RawSetInt a i (LString s) L)"

fun query_loop :: "nat \<Rightarrow> (string \<times> string list) list \<Rightarrow> lua_state \<Rightarrow> lua_state" where
  "query_loop a [] L = L"
| "query_loop a ((k, vals) # kvs) L =
     query_loop a kvs
       (case vals of
          [] \<Rightarrow> RawSetString a k (LString []) L
        | [v] \<Rightarrow> RawSetString a k (LString v) L
        | _ \<Rightarrow> (let (L1, l) = NewTable L
               in RawSetString a k (LTable l) (string_list_table l 1 vals L1)))"

definition queryValuesTable :: "(string \<times> string list) list \<Rightarrow> lua_state \<Rightarrow> lua_state \<times> nat" where
  "queryValuesTable values L = (let (L1, a) = NewTable L in (query_loop a values L1, a))"

fun set_strings :: "nat \<Rightarrow> (string \<times> string) list \<Rightarrow> lua_state \<Rightarrow> lua_state" where
  "set_strings a [] L = L"
| "set_strings a (kv # kvs) L = set_strings a kvs (RawSetString a (fst kv) (LString (snd kv)) L)"

text \<open>The request table; a routed request also has its path parameters.\<close>

definition request_table ::
  "(string \<times> string) list option \<Rightarrow> http_request \<Rightarrow> lua_state \<Rightarrow> lua_state \<times> nat" where
  "request_table params req L =
     (let (L1, a) = NewTable L;
          L2 = RawSetString a ''method'' (LString (rq_Method req)) L1;
          L3 = RawSetString a ''path'' (LString (rq_Path req)) L2;
          L4 = RawSetString a ''query_raw'' (LString (rq_Query req)) L3;
          (L5, q) = queryValuesTable (rq_QueryValues req) L4;
          L6 = RawSetString a ''query'' (LTable q) L5;
          L7 = RawSetString a ''body'' (LString (rq_Body req)) L6;
          L8 = RawSetString a ''remote_addr'' (LString (rq_RemoteAddr req)) L7;
          L9 = RawSetString a ''tls'' (LBool (rq_TLS req)) L8;
          L10 = (case params of
                   None \<Rightarrow> L9
                 | Some ps \<Rightarrow> (let (M, p) = NewTable L9
                             in RawSetString a ''params'' (LTable p) (set_strings p ps M)));
          (L11, h) = NewTable L10
      in (RawSetString a ''headers'' (LTable h) (set_strings h (rq_Headers req) L11), a))"

definition msgLuaTable :: "string \<Rightarrow> string \<Rightarrow> string \<Rightarrow> lua_state \<Rightarrow> lua_state \<times> nat" where
  "msgLuaTable typ dat clientID L =
     (let (L1, a) = NewTable L
      in (RawSetString a ''client_id'' (LString clientID)
            (RawSetString a ''data'' (LString dat) (RawSetString a ''type'' (LString typ) L1)), a))"

definition kNULLValue :: "lua_state \<Rightarrow> lua_value" where
  "kNULLValue L = (case GetGlobal L ''K'' of LTable a \<Rightarrow> RawGetString L a ''NULL'' | _ \<Rightarrow> LNil)"

definition content_type :: string where "content_type = ''content-type''"

definition json_body ::
  "(go_float \<Rightarrow> string + string) \<Rightarrow> (lua_value \<Rightarrow> string) \<Rightarrow> lua_state \<Rightarrow> lua_value \<Rightarrow> http_response \<Rightarrow>
   http_response" where
  "json_body num sh L j resp =
     (case JSONStringifyLua num sh L j (kNULLValue L) of
        Inl e \<Rightarrow> resp\<lparr>Status := 500, Body := e\<rparr>
      | Inr t \<Rightarrow>
          (let hs = (case Headers resp of None \<Rightarrow> [] | Some hs \<Rightarrow> hs)
           in resp\<lparr>Body := t,
                Headers := Some (if map_of hs content_type = None
                                 then AList.update content_type ''application/json'' hs else hs)\<rparr>))"

definition decode_table ::
  "(go_float \<Rightarrow> string + string) \<Rightarrow> (lua_value \<Rightarrow> string) \<Rightarrow> lua_state \<Rightarrow> nat \<Rightarrow> http_response" where
  "decode_table num sh L a =
     (let r0 = \<lparr>Status = 0, Headers = None, Body = []\<rparr>;
          r1 = (case RawGetString L a ''status'' of LNumber f \<Rightarrow> r0\<lparr>Status := go_int f\<rparr> | _ \<Rightarrow> r0);
          r2 = (case RawGetString L a ''headers'' of
                  LTable h \<Rightarrow>
                    r1\<lparr>Headers := Some (store_all
                        (map (\<lambda>kv. (lv_string sh (fst kv), lv_string sh (snd kv))) (for_each L h)))\<rparr>
                | _ \<Rightarrow> r1);
          b = RawGetString L a ''body''; j = RawGetString L a ''json''
      in if b \<noteq> LNil then r2\<lparr>Body := lv_string sh b\<rparr>
         else if j \<noteq> LNil then json_body num sh L j r2
         else r2)"

definition decodeHTTPResponse ::
  "(go_float \<Rightarrow> string + string) \<Rightarrow> (lua_value \<Rightarrow> string) \<Rightarrow> lua_state \<Rightarrow> lua_value \<Rightarrow> http_response" where
  "decodeHTTPResponse num sh L ret =
     (case ret of
        LNil \<Rightarrow> \<lparr>Status = 200, Headers = None, Body = []\<rparr>
      | LString s \<Rightarrow> \<lparr>Status = 200, Headers = Some [(content_type, ''text/plain'')], Body = s\<rparr>
      | LNumber f \<Rightarrow> \<lparr>Status = go_int f, Headers = None, Body = []\<rparr>
      | LTable a \<Rightarrow> decode_table num sh L a
      | _ \<Rightarrow> \<lparr>Status = 0, Headers = None, Body = []\<rparr>)"

definition normalizeHTTPResponse :: "http_response \<Rightarrow> http_response" where
  "normalizeHTTPResponse resp =
     (case Headers resp of None \<Rightarrow> resp\<lparr>Headers := Some []\<rparr> | Some hs \<Rightarrow> resp)"

text \<open>The defaults \<^verbatim>\<open>CallHTTP\<close> and the route handler fill in at the end.\<close>

definition default_response :: "http_response \<Rightarrow> http_response" where
  "default_response resp =
     normalizeHTTPResponse (if Status resp = 0 then resp\<lparr>Status := 200\<rparr> else resp)"

section \<open>The router\<close>

record http_route =
  rt_Method :: string
  rt_Path :: string
  rt_Handler :: string

datatype http_middleware = MwName string | MwFn nat

record 'tree http_router =
  rt_tree :: 'tree
  rt_routes :: "http_route list"
  rt_mw :: "http_middleware list"

text \<open>One row of \<^verbatim>\<open>k.http_routes\<close>: rows that are no tables or lack a field are skipped.\<close>

definition route_row :: "(lua_value \<Rightarrow> string) \<Rightarrow> lua_state \<Rightarrow> lua_value \<Rightarrow> http_route option" where
  "route_row sh L v =
     (case v of
        LTable r \<Rightarrow>
          (let m = to_upper (LVAsString sh (RawGetString L r ''method''));
               p = LVAsString sh (RawGetString L r ''path'');
               h = LVAsString sh (RawGetString L r ''handler'')
           in if m = [] \<or> p = [] \<or> h = [] then None
              else Some \<lparr>rt_Method = m, rt_Path = p, rt_Handler = h\<rparr>)
      | _ \<Rightarrow> None)"

fun route_loop ::
  "('tree \<Rightarrow> string \<Rightarrow> string \<Rightarrow> nat \<Rightarrow> 'tree) \<Rightarrow> (lua_value \<Rightarrow> string) \<Rightarrow> lua_state \<Rightarrow> lua_value list \<Rightarrow>
   'tree http_router \<Rightarrow> 'tree http_router" where
  "route_loop tree_handle sh L [] rt = rt"
| "route_loop tree_handle sh L (v # vs) rt =
     (case route_row sh L v of
        None \<Rightarrow> route_loop tree_handle sh L vs rt
      | Some r \<Rightarrow>
          route_loop tree_handle sh L vs
            (rt\<lparr>rt_routes := rt_routes rt @ [r],
                rt_tree := tree_handle (rt_tree rt) (rt_Method r) (rt_Path r) (length (rt_routes rt))\<rparr>))"

fun middleware_list :: "lua_value list \<Rightarrow> http_middleware list" where
  "middleware_list [] = []"
| "middleware_list (LString s # vs) = MwName s # middleware_list vs"
| "middleware_list (LFunction f # vs) = MwFn f # middleware_list vs"
| "middleware_list (v # vs) = middleware_list vs"

text \<open>
  \<^verbatim>\<open>newHTTPRouter\<close>: the outer None is the panic of the unchecked type assertion on the
  global \<^verbatim>\<open>k\<close>, the inner None a script without routes.
\<close>

definition newHTTPRouter ::
  "'tree \<Rightarrow> ('tree \<Rightarrow> string \<Rightarrow> string \<Rightarrow> nat \<Rightarrow> 'tree) \<Rightarrow> (lua_value \<Rightarrow> string) \<Rightarrow> lua_state \<Rightarrow>
   'tree http_router option option" where
  "newHTTPRouter tree_new tree_handle sh L =
     (case GetGlobal L ''k'' of
        LTable k \<Rightarrow>
          Some (case RawGetString L k ''http_routes'' of
             LTable t \<Rightarrow>
               (let rt = route_loop tree_handle sh L (map snd (for_each L t))
                           \<lparr>rt_tree = tree_new, rt_routes = [], rt_mw = []\<rparr>
                in if rt_routes rt = [] then None
                   else (case RawGetString L k ''http_middleware'' of
                           LTable m \<Rightarrow> Some (rt\<lparr>rt_mw := middleware_list (map snd (for_each L m))\<rparr>)
                         | _ \<Rightarrow> Some rt))
           | _ \<Rightarrow> None)
      | _ \<Rightarrow> None)"

definition Match ::
  "('tree \<Rightarrow> string \<Rightarrow> string \<Rightarrow> (nat \<times> (string \<times> string) list) option) \<Rightarrow> 'tree http_router option \<Rightarrow>
   string \<Rightarrow> string \<Rightarrow> (nat \<times> (string \<times> string) list) option" where
  "Match tree_lookup rt meth path =
     (case rt of
        None \<Rightarrow> None
      | Some r \<Rightarrow>
          (case tree_lookup (rt_tree r) (to_upper meth) path of
             None \<Rightarrow> None
           | Some (i, ps) \<Rightarrow> if length (rt_routes r) \<le> i then None else Some (i, ps)))"

definition RouteHandler :: "lua_state \<Rightarrow> 'tree http_router \<Rightarrow> nat \<Rightarrow> nat option" where
  "RouteHandler L rt i =
     (if length (rt_routes rt) \<le> i then None
      else (case GetGlobal L (rt_Handler (rt_routes rt ! i)) of LFunction f \<Rightarrow> Some f | _ \<Rightarrow> None))"

definition MiddlewareFn :: "lua_state \<Rightarrow> 'tree http_router \<Rightarrow> nat \<Rightarrow> nat option" where
  "MiddlewareFn L rt i =
     (if length (rt_mw rt) \<le> i then None
      else (case rt_mw rt ! i of
              MwFn f \<Rightarrow> Some f
            | MwName n \<Rightarrow> (case GetGlobal L n of LFunction f \<Rightarrow> Some f | _ \<Rightarrow> None)))"

definition MiddlewareCount :: "'tree http_router \<Rightarrow> nat" where
  "MiddlewareCount rt = length (rt_mw rt)"

section \<open>Facts\<close>

lemma default_response_ok: "Status (default_response r) \<noteq> 0 \<and> Headers (default_response r) \<noteq> None"
  by (auto simp: default_response_def normalizeHTTPResponse_def split: option.split)

lemma normalize_status [simp]: "Status (normalizeHTTPResponse r) = Status r"
  by (simp add: normalizeHTTPResponse_def split: option.split)

text \<open>Every registered route is a complete row with an upper-case method, at its own index.\<close>

definition routes_ok :: "'tree http_router \<Rightarrow> bool" where
  "routes_ok rt \<longleftrightarrow> list_all (\<lambda>r. rt_Method r \<noteq> [] \<and> rt_Path r \<noteq> [] \<and> rt_Handler r \<noteq> []
     \<and> to_upper (rt_Method r) = rt_Method r) (rt_routes rt)"

lemma upper_char_idem: "upper_char (upper_char c) = upper_char c"
proof (cases "is_lower c")
  case True
  then have "byte_of c - 32 < 256" unfolding is_lower_def by linarith
  then have "(byte_of c - 32) mod 256 = byte_of c - 32" by simp
  with True have "\<not> is_lower (upper_char c)" by (auto simp: is_lower_def upper_char_def)
  then show ?thesis by (simp add: upper_char_def)
qed (simp add: upper_char_def)

lemma to_upper_idem [simp]: "to_upper (to_upper s) = to_upper s"
  by (simp add: to_upper_def upper_char_idem)

lemma route_row_ok:
  "route_row sh L v = Some r \<Longrightarrow>
   rt_Method r \<noteq> [] \<and> rt_Path r \<noteq> [] \<and> rt_Handler r \<noteq> [] \<and> to_upper (rt_Method r) = rt_Method r"
  by (auto simp: route_row_def Let_def split: lua_value.splits if_splits)

lemma route_loop_ok: "routes_ok rt \<Longrightarrow> routes_ok (route_loop tree_handle sh L vs rt)"
  by (induction tree_handle sh L vs rt rule: route_loop.induct)
    (auto simp: routes_ok_def dest: route_row_ok split: option.split)

lemma route_loop_routes:
  "rt_routes (route_loop tree_handle sh L vs rt) = rt_routes rt @ List.map_filter (route_row sh L) vs"
  by (induction tree_handle sh L vs rt rule: route_loop.induct)
    (auto simp: List.map_filter_simps split: option.split)

end
