(* ===== verification/Http_Worker.thy ===== *)
theory Http_Worker
  imports Http_Router Worker_Pool Mqtt_Topics Klog_Text
begin

text \<open>
  A serve worker at work, \<^verbatim>\<open>internal/server/worker.go\<close>, and the request handlers around
  it, \<^verbatim>\<open>internal/server/server.go\<close>. Running Lua is a parameter: \<open>call\<close> is a protected
  call with one result (an error text or the value), \<open>resume\<close> the first resume of a new coroutine;
  both may change the script and the hubs. The worker's slot serialises these calls, so a
  call is one step on the worker's world.
\<close>

type_synonym lua_call = "nat \<Rightarrow> lua_value list \<Rightarrow> serve_world \<Rightarrow> (string + lua_value) \<times> serve_world"

type_synonym lua_resume = "nat \<Rightarrow> lua_value list \<Rightarrow> serve_world \<Rightarrow> resume_result \<times> serve_world"

record worker_handlers =
  HandleHTTP :: "nat option"
  HandleWS :: "nat option"
  HandleTCP :: "nat option"
  Init :: "nat option"
  Shutdown :: "nat option"

record 'tree worker_code =
  wc_handlers :: worker_handlers
  wc_router :: "'tree http_router option"

definition worker_notifyError :: "lua_call \<Rightarrow> string \<Rightarrow> serve_world \<Rightarrow> serve_world" where
  "worker_notifyError call err w = fireError (\<lambda>f args v. snd (call f args v)) KErrorGeneric err w"

section \<open>Building a worker\<close>

definition global_fn :: "lua_state \<Rightarrow> string \<Rightarrow> nat option" where
  "global_fn L name = (case GetGlobal L name of LFunction f \<Rightarrow> Some f | _ \<Rightarrow> None)"

text \<open>
  \<^verbatim>\<open>NewWorker\<close> in the state after the bindings were installed: load, run the chunk, take the
  handlers from the globals, run \<^verbatim>\<open>main\<close>, build the router. The result None is a panic.
\<close>

definition NewWorker ::
  "(string \<Rightarrow> string + nat) \<Rightarrow> lua_call \<Rightarrow> (nat \<Rightarrow> serve_world \<Rightarrow> string option \<times> serve_world) \<Rightarrow>
   'tree \<Rightarrow> ('tree \<Rightarrow> string \<Rightarrow> string \<Rightarrow> nat \<Rightarrow> 'tree) \<Rightarrow> (lua_value \<Rightarrow> string) \<Rightarrow> string \<Rightarrow> serve_world \<Rightarrow>
   (string + 'tree worker_code) option \<times> serve_world" where
  "NewWorker load call run_main tree_new tree_handle sh path w =
     (case load path of
        Inl err \<Rightarrow> (Some (Inl err), w)
      | Inr chunk \<Rightarrow>
          (case call chunk [] w of
             (Inl err, w1) \<Rightarrow> (Some (Inl err), w1)
           | (Inr _, w1) \<Rightarrow>
               (let hs = \<lparr>HandleHTTP = global_fn (lua w1) ''handle_http'',
                          HandleWS = global_fn (lua w1) ''handle_ws'',
                          HandleTCP = global_fn (lua w1) ''handle_tcp'',
                          Init = global_fn (lua w1) ''init'',
                          Shutdown = global_fn (lua w1) ''shutdown''\<rparr>
                in case GetGlobal (lua w1) ''main'' of
                     LNil \<Rightarrow> (Some (Inl ''main function not found''), w1)
                   | LFunction m \<Rightarrow>
                       (case run_main m w1 of
                          (Some err, w2) \<Rightarrow> (Some (Inl err), w2)
                        | (None, w2) \<Rightarrow>
                            (case newHTTPRouter tree_new tree_handle sh (lua w2) of
                               None \<Rightarrow> (None, w2)
                             | Some rt \<Rightarrow>
                                 (Some (Inr \<lparr>wc_handlers = hs, wc_router = rt\<rparr>), w2)))
                   | _ \<Rightarrow> (Some (Inl ''main is not a function''), w1))))"

section \<open>HTTP\<close>

text \<open>The middleware chain: a result other than nil ends the request.\<close>

datatype mw_result = MwContinue | MwRespond http_response | MwFail string

fun mw_loop ::
  "lua_call \<Rightarrow> (go_float \<Rightarrow> string + string) \<Rightarrow> (lua_value \<Rightarrow> string) \<Rightarrow> 'tree http_router \<Rightarrow> nat \<Rightarrow>
   nat list \<Rightarrow> serve_world \<Rightarrow> mw_result \<times> serve_world" where
  "mw_loop call num sh rt req [] w = (MwContinue, w)"
| "mw_loop call num sh rt req (i # is) w =
     (case MiddlewareFn (lua w) rt i of
        None \<Rightarrow> mw_loop call num sh rt req is w
      | Some f \<Rightarrow>
          (case call f [LTable req] w of
             (Inl err, w1) \<Rightarrow> (MwFail err, w1)
           | (Inr ret, w1) \<Rightarrow>
               (if ret \<noteq> LNil
                then (MwRespond (normalizeHTTPResponse (decodeHTTPResponse num sh (lua w1) ret)), w1)
                else mw_loop call num sh rt req is w1)))"

definition error_response :: "string \<Rightarrow> http_response" where
  "error_response err = \<lparr>Status = 500, Headers = None, Body = err\<rparr>"

definition callRoutedHTTP ::
  "lua_call \<Rightarrow> (go_float \<Rightarrow> string + string) \<Rightarrow> (lua_value \<Rightarrow> string) \<Rightarrow>
   ('tree \<Rightarrow> string \<Rightarrow> string \<Rightarrow> (nat \<times> (string \<times> string) list) option) \<Rightarrow> 'tree http_router \<Rightarrow>
   http_request \<Rightarrow> serve_world \<Rightarrow> (http_response \<times> string option) option \<times> serve_world" where
  "callRoutedHTTP call num sh tree_lookup rt req w =
     (case Match tree_lookup (Some rt) (rq_Method req) (rq_Path req) of
        None \<Rightarrow> (None, w)
      | Some (idx, params) \<Rightarrow>
          (let (L1, a) = request_table (Some params) req (lua w);
               (r, w2) = mw_loop call num sh rt a [0..<MiddlewareCount rt] (w\<lparr>lua := L1\<rparr>)
           in case r of
                MwFail err \<Rightarrow> (Some (error_response err, Some err), w2)
              | MwRespond resp \<Rightarrow> (Some (resp, None), w2)
              | MwContinue \<Rightarrow>
                  (case RouteHandler (lua w2) rt idx of
                     None \<Rightarrow>
                       (Some (\<lparr>Status = 500, Headers = Some [], Body = ''route handler not found''\<rparr>,
                              Some ''route handler not found''), w2)
                   | Some f \<Rightarrow>
                       (case call f [LTable a] w2 of
                          (Inl err, w3) \<Rightarrow> (Some (error_response err, Some err), w3)
                        | (Inr ret, w3) \<Rightarrow>
                            (Some (default_response (decodeHTTPResponse num sh (lua w3) ret), None), w3)))))"

definition busy_response :: http_response where
  "busy_response = \<lparr>Status = 503, Headers = Some [(''Retry-After'', ''1'')],
     Body = ''worker busy, retry after 1s''\<rparr>"

text \<open>\<open>acquired\<close>: whether the slot came free within the bounded wait.\<close>

definition CallHTTP ::
  "lua_call \<Rightarrow> (go_float \<Rightarrow> string + string) \<Rightarrow> (lua_value \<Rightarrow> string) \<Rightarrow>
   ('tree \<Rightarrow> string \<Rightarrow> string \<Rightarrow> (nat \<times> (string \<times> string) list) option) \<Rightarrow> bool \<Rightarrow> 'tree worker_code \<Rightarrow>
   http_request \<Rightarrow> serve_world \<Rightarrow> (http_response \<times> string option) \<times> serve_world" where
  "CallHTTP call num sh tree_lookup acquired wc req w =
     (if \<not> acquired then ((busy_response, Some ''worker busy''), w)
      else
        (let (routed, w1) = (case wc_router wc of
               None \<Rightarrow> (None, w)
             | Some rt \<Rightarrow> callRoutedHTTP call num sh tree_lookup rt req w)
         in case routed of
              Some (resp, Some err) \<Rightarrow> ((resp, Some err), worker_notifyError call err w1)
            | Some (resp, None) \<Rightarrow> ((resp, None), w1)
            | None \<Rightarrow>
                (case HandleHTTP (wc_handlers wc) of
                   None \<Rightarrow>
                     ((\<lparr>Status = 404, Headers = None, Body = ''no handle_http callback''\<rparr>, None), w1)
                 | Some f \<Rightarrow>
                     (let (L1, a) = request_table None req (lua w1)
                      in case call f [LTable a] (w1\<lparr>lua := L1\<rparr>) of
                           (Inl err, w2) \<Rightarrow> ((error_response err, Some err), worker_notifyError call err w2)
                         | (Inr ret, w2) \<Rightarrow>
                             ((default_response (decodeHTTPResponse num sh (lua w2) ret), None), w2)))))"

section \<open>WebSocket, TCP, MQTT, init and shutdown\<close>

record conn_message =
  cm_Type :: string
  cm_Data :: string
  cm_ClientID :: string

definition first_ret :: "lua_value list \<Rightarrow> lua_value" where
  "first_ret ret = (case ret of [] \<Rightarrow> LNil | v # vs \<Rightarrow> v)"

definition CallWS ::
  "lua_call \<Rightarrow> lua_resume \<Rightarrow> (lua_value \<Rightarrow> string) \<Rightarrow> 'tree worker_code \<Rightarrow> conn_message \<Rightarrow> nat option \<Rightarrow>
   serve_world \<Rightarrow> serve_world" where
  "CallWS call resume sh wc msg ws w =
     (case HandleWS (wc_handlers wc) of
        None \<Rightarrow> w
      | Some f \<Rightarrow>
          (let (L1, a) = msgLuaTable (cm_Type msg) (cm_Data msg) (cm_ClientID msg) (lua w)
           in case resume f [LTable a] (w\<lparr>lua := L1\<rparr>) of
                (ResumeError err, w1) \<Rightarrow> worker_notifyError call err w1
              | (ResumeYield, w1) \<Rightarrow> w1
              | (ResumeOK ret, w1) \<Rightarrow>
                  (case ws of
                     None \<Rightarrow> w1
                   | Some p \<Rightarrow>
                       (if first_ret ret \<noteq> LNil
                        then w1\<lparr>sw_ws := snd (ws_push p (lv_string sh (first_ret ret)) (sw_ws w1))\<rparr>
                        else w1))))"

definition CallTCP ::
  "lua_call \<Rightarrow> lua_resume \<Rightarrow> (lua_value \<Rightarrow> string) \<Rightarrow> 'tree worker_code \<Rightarrow> conn_message \<Rightarrow> nat option \<Rightarrow>
   serve_world \<Rightarrow> serve_world" where
  "CallTCP call resume sh wc msg tcp w =
     (case HandleTCP (wc_handlers wc) of
        None \<Rightarrow> w
      | Some f \<Rightarrow>
          (let (L1, a) = msgLuaTable (cm_Type msg) (cm_Data msg) (cm_ClientID msg) (lua w)
           in case resume f [LTable a] (w\<lparr>lua := L1\<rparr>) of
                (ResumeError err, w1) \<Rightarrow> worker_notifyError call err w1
              | (ResumeYield, w1) \<Rightarrow> w1
              | (ResumeOK ret, w1) \<Rightarrow>
                  (case tcp of
                     None \<Rightarrow> w1
                   | Some p \<Rightarrow>
                       (if first_ret ret \<noteq> LNil
                        then w1\<lparr>sw_tcp := snd (tcp_push p (lv_string sh (first_ret ret)) (sw_tcp w1))\<rparr>
                        else w1))))"

text \<open>The coroutine's error text when a handler of \<^verbatim>\<open>DispatchMQTT\<close> fails.\<close>

definition CallMQTT ::
  "lua_resume \<Rightarrow> mqtt_handler list \<Rightarrow> string \<Rightarrow> string \<Rightarrow> serve_world \<Rightarrow> serve_world \<times> mqtt_effect list" where
  "CallMQTT resume hs topic payload w =
     DispatchMQTT (\<lambda>v name. global_fn (lua v) name)
       (\<lambda>v f t p. case resume f [LString t, LString p] v of
           (ResumeError err, v1) \<Rightarrow> (v1, Some err)
         | (_, v1) \<Rightarrow> (v1, None))
       hs topic payload w"

record serve_config =
  sc_Host :: string
  sc_Port :: int
  sc_Workers :: int
  sc_Mode :: string

definition config_table :: "serve_config \<Rightarrow> lua_state \<Rightarrow> lua_state \<times> nat" where
  "config_table cfg L =
     (let (L1, a) = NewTable L
      in (RawSetString a ''mode'' (LString (sc_Mode cfg))
           (RawSetString a ''workers'' (LNumber (float_of_int (sc_Workers cfg)))
             (RawSetString a ''port'' (LNumber (float_of_int (sc_Port cfg)))
               (RawSetString a ''host'' (LString (sc_Host cfg)) L1))), a))"

definition CallInit ::
  "lua_call \<Rightarrow> lua_resume \<Rightarrow> 'tree worker_code \<Rightarrow> serve_config \<Rightarrow> serve_world \<Rightarrow>
   string option \<times> serve_world" where
  "CallInit call resume wc cfg w =
     (case Init (wc_handlers wc) of
        None \<Rightarrow> (None, w)
      | Some f \<Rightarrow>
          (let (L1, a) = config_table cfg (lua w)
           in case resume f [LTable a] (w\<lparr>lua := L1\<rparr>) of
                (ResumeError err, w1) \<Rightarrow> (Some (''init error: '' @ err), worker_notifyError call err w1)
              | (_, w1) \<Rightarrow> (None, w1)))"

definition CallShutdown :: "lua_call \<Rightarrow> lua_resume \<Rightarrow> 'tree worker_code \<Rightarrow> serve_world \<Rightarrow> serve_world" where
  "CallShutdown call resume wc w =
     (case Shutdown (wc_handlers wc) of
        None \<Rightarrow> w
      | Some f \<Rightarrow>
          (case resume f [] w of
             (ResumeError err, w1) \<Rightarrow> worker_notifyError call err w1
           | (_, w1) \<Rightarrow> w1))"

section \<open>The HTTP handler of the server\<close>

record http_stats =
  ActiveConns :: int
  RequestsTotal :: int
  ErrorsTotal :: int
  LatencySumMs :: int
  LatencyCount :: int

record http_log =
  hl_RemoteAddr :: string
  hl_Message :: string
  hl_Data :: string

record http_server =
  hs_stats :: http_stats
  hs_pool :: server_pool
  hs_log :: "http_log list option"

definition quoted :: "string \<Rightarrow> string" where
  "quoted s = CHR 0x22 # s @ [CHR 0x22]"

text \<open>One structured log row per answered request, when logging is enabled.\<close>

definition emitHTTPLog :: "http_request \<Rightarrow> int \<Rightarrow> int \<Rightarrow> http_server \<Rightarrow> http_server" where
  "emitHTTPLog req dur_ms status s =
     (case hs_log s of
        None \<Rightarrow> s
      | Some rows \<Rightarrow>
          (let ms = (if dur_ms < 1 then 1 else dur_ms);
               row = \<lparr>hl_RemoteAddr = rq_RemoteAddr req,
                      hl_Message = rq_Method req @ '' '' @ rq_Path req @ '' -> '' @ itoa status,
                      hl_Data = ''{'' @ quoted ''method'' @ '':'' @ jsonQuote (rq_Method req) @ '',''
                        @ quoted ''path'' @ '':'' @ jsonQuote (rq_Path req) @ '',''
                        @ quoted ''status'' @ '':'' @ itoa status @ '',''
                        @ quoted ''duration_ms'' @ '':'' @ itoa ms @ ''}''\<rparr>
           in s\<lparr>hs_log := Some (rows @ [row])\<rparr>))"

definition single_quoted :: "string \<Rightarrow> string" where
  "single_quoted s = CHR 0x27 # s @ [CHR 0x27]"

definition security_headers :: "(string \<times> string) list" where
  "security_headers =
     [(''Content-Security-Policy'', ''default-src '' @ single_quoted ''self'' @ ''; frame-ancestors ''
         @ single_quoted ''none'' @ ''; base-uri '' @ single_quoted ''self''),
      (''X-Content-Type-Options'', ''nosniff''),
      (''X-Frame-Options'', ''DENY''),
      (''Referrer-Policy'', ''strict-origin-when-cross-origin'')]"

text \<open>
  \<^verbatim>\<open>http.CanonicalHeaderKey\<close>: a key made of token characters gets an upper-case letter
  first and after each hyphen, and lower case elsewhere; any other key is left alone.
\<close>

definition token_char :: "char \<Rightarrow> bool" where
  "token_char c \<longleftrightarrow> is_digit c \<or> is_lower c \<or> is_upper c
     \<or> c \<in> set ''!#$%&*+-.^_|~'' \<or> c = CHR 0x27 \<or> c = CHR 0x60"

fun canon_loop :: "bool \<Rightarrow> string \<Rightarrow> string" where
  "canon_loop up [] = []"
| "canon_loop up (c # cs) =
     (if up then upper_char c else lower_char c) # canon_loop (c = CHR ''-'') cs"

definition canon_header :: "string \<Rightarrow> string" where
  "canon_header k = (if list_all token_char k then canon_loop True k else k)"

definition set_header :: "string \<Rightarrow> string \<Rightarrow> (string \<times> string) list \<Rightarrow> (string \<times> string) list" where
  "set_header k v hs = AList.update (canon_header k) v hs"

record written =
  wr_Status :: int
  wr_Headers :: "(string \<times> string) list"
  wr_Body :: string

text \<open>\<^verbatim>\<open>http.Error\<close>\<close>

definition http_Error :: "(string \<times> string) list \<Rightarrow> string \<Rightarrow> int \<Rightarrow> written" where
  "http_Error hs msg code =
     \<lparr>wr_Status = code,
      wr_Headers = set_header ''X-Content-Type-Options'' ''nosniff''
        (set_header ''Content-Type'' ''text/plain; charset=utf-8''
          (AList.delete ''Content-Length'' hs)),
      wr_Body = msg @ [CHR 0x0A]\<rparr>"

text \<open>
  Writing a response: \<^verbatim>\<open>WriteHeader\<close> panics outside three digits (None, the connection is
  dropped), an informational status is followed by an implicit 200, and some statuses have no body.
\<close>

definition write_response :: "(string \<times> string) list \<Rightarrow> http_response \<Rightarrow> written option" where
  "write_response hs resp =
     (let st = Status resp;
          hs' = fold (\<lambda>kv. set_header (fst kv) (snd kv)) (case Headers resp of None \<Rightarrow> [] | Some l \<Rightarrow> l) hs;
          final = (if 100 \<le> st \<and> st \<le> 199 \<and> st \<noteq> 101 then 200 else st)
      in if st < 100 \<or> 999 < st then None
         else Some \<lparr>wr_Status = final, wr_Headers = hs',
                    wr_Body = (if final = 101 \<or> final = 204 \<or> final = 304 then [] else Body resp)\<rparr>)"

definition count_error :: "http_server \<Rightarrow> http_server" where
  "count_error s = s\<lparr>hs_stats := (hs_stats s)\<lparr>ErrorsTotal := ErrorsTotal (hs_stats s) + 1\<rparr>\<rparr>"

definition begin_request :: "http_server \<Rightarrow> http_server" where
  "begin_request s =
     s\<lparr>hs_stats := (hs_stats s)\<lparr>ActiveConns := ActiveConns (hs_stats s) + 1,
                                RequestsTotal := RequestsTotal (hs_stats s) + 1\<rparr>\<rparr>"

definition end_request :: "int \<Rightarrow> http_server \<Rightarrow> http_server" where
  "end_request dur_ms s =
     (let st = (hs_stats s)\<lparr>ActiveConns := ActiveConns (hs_stats s) - 1\<rparr>
      in s\<lparr>hs_stats := (if 0 \<le> dur_ms
             then st\<lparr>LatencySumMs := LatencySumMs st + dur_ms, LatencyCount := LatencyCount st + 1\<rparr>
             else st)\<rparr>)"

text \<open>
  \<^verbatim>\<open>handleHTTP\<close>: \<open>callhttp\<close> is \<^verbatim>\<open>CallHTTP\<close> of the leased worker, \<open>body\<close> the outcome
  of reading the body under its limit. The two deferred calls, the release of the lease and the
  statistics, run on every path, also when writing the response panics.
\<close>

definition serve_leased ::
  "(nat \<Rightarrow> http_request \<Rightarrow> 'w \<Rightarrow> (http_response \<times> string option) \<times> 'w) \<Rightarrow> (string + string) \<Rightarrow> int \<Rightarrow>
   nat \<Rightarrow> http_request \<Rightarrow> http_server \<Rightarrow> 'w \<Rightarrow> written option \<times> http_server \<times> 'w" where
  "serve_leased callhttp body dur_ms p req s w =
     (case body of
        Inl err \<Rightarrow>
          (Some (http_Error security_headers ''body too large or read error'' 400),
           emitHTTPLog req dur_ms 400 (count_error s), w)
      | Inr dat \<Rightarrow>
          (case callhttp p (req\<lparr>rq_Body := dat\<rparr>) w of
             ((resp, Some err), w1) \<Rightarrow>
               (Some (http_Error security_headers err 500), emitHTTPLog req dur_ms 500 (count_error s), w1)
           | ((resp, None), w1) \<Rightarrow>
               (case write_response security_headers resp of
                  None \<Rightarrow> (None, s, w1)
                | Some out \<Rightarrow> (Some out, emitHTTPLog req dur_ms (Status resp) s, w1))))"

definition handleHTTP ::
  "(nat \<Rightarrow> http_request \<Rightarrow> 'w \<Rightarrow> (http_response \<times> string option) \<times> 'w) \<Rightarrow> (string + string) \<Rightarrow> int \<Rightarrow>
   http_request \<Rightarrow> http_server \<Rightarrow> 'w \<Rightarrow> written option \<times> http_server \<times> 'w" where
  "handleHTTP callhttp body dur_ms req s w =
     (let s0 = begin_request s in
      case leaseWorker (hs_pool s0) of
        (None, _) \<Rightarrow>
          (Some (http_Error security_headers ''no available workers'' 503),
           end_request dur_ms (emitHTTPLog req dur_ms 503 (count_error s0)), w)
      | (Some p, pool1) \<Rightarrow>
          (let (out, s1, w1) = serve_leased callhttp body dur_ms p req (s0\<lparr>hs_pool := pool1\<rparr>) w
           in (out, end_request dur_ms (s1\<lparr>hs_pool := release p (hs_pool s1)\<rparr>), w1)))"

section \<open>One WebSocket connection\<close>

text \<open>
  \<^verbatim>\<open>handleWSUpgrade\<close> from the accepted upgrade to its deferred cleanup: \<open>callws\<close> is
  \<^verbatim>\<open>CallWS\<close> of the leased worker, \<open>frames\<close> the inbound frames until the read fails.
\<close>

datatype ws_frame = TextFrame string | BinaryFrame string

fun frame_message :: "string \<Rightarrow> ws_frame \<Rightarrow> conn_message" where
  "frame_message i (TextFrame d) = \<lparr>cm_Type = ''text'', cm_Data = d, cm_ClientID = i\<rparr>"
| "frame_message i (BinaryFrame d) = \<lparr>cm_Type = ''binary'', cm_Data = d, cm_ClientID = i\<rparr>"

fun ws_read_loop ::
  "(conn_message \<Rightarrow> nat option \<Rightarrow> serve_world \<Rightarrow> serve_world) option \<Rightarrow> string \<Rightarrow> nat \<Rightarrow> ws_frame list \<Rightarrow>
   serve_world \<Rightarrow> serve_world" where
  "ws_read_loop handler i ws [] w = w"
| "ws_read_loop handler i ws (f # fs) w =
     ws_read_loop handler i ws fs
       (case handler of None \<Rightarrow> w | Some call \<Rightarrow> call (frame_message i f) (Some ws) w)"

definition ws_note :: "string \<Rightarrow> string \<Rightarrow> conn_message" where
  "ws_note typ i = \<lparr>cm_Type = typ, cm_Data = [], cm_ClientID = i\<rparr>"

definition handleWSUpgrade ::
  "(nat \<Rightarrow> conn_message \<Rightarrow> nat option \<Rightarrow> serve_world \<Rightarrow> serve_world) \<Rightarrow> bool \<Rightarrow> string \<Rightarrow> ws_frame list \<Rightarrow>
   server_pool \<Rightarrow> serve_world \<Rightarrow> server_pool \<times> serve_world" where
  "handleWSUpgrade callws accepted connID frames pool w =
     (if \<not> accepted then (pool, w)
      else
        (let (hub1, ws) = ws_Register connID (sw_ws w);
             w1 = w\<lparr>sw_ws := hub1\<rparr>;
             (leased, pool1) = leaseWorker pool;
             handler = map_option callws leased;
             tell = (\<lambda>typ v. case handler of None \<Rightarrow> v | Some call \<Rightarrow> call (ws_note typ connID) (Some ws) v);
             w2 = tell ''open'' w1;
             w3 = ws_read_loop handler connID ws frames w2;
             w4 = tell ''close'' w3;
             pool2 = (case leased of None \<Rightarrow> pool1 | Some p \<Rightarrow> release p pool1)
         in (pool2, w4\<lparr>sw_ws := ws_Unregister connID (sw_ws w4)\<rparr>)))"

section \<open>Facts\<close>

lemma release_refs:
  "q < length (sp_store s) \<Longrightarrow>
   pw_refs (sp_store (release p s) ! q) =
     (if q = p then pw_refs (sp_store s ! q) - 1 else pw_refs (sp_store s ! q))"
  by (simp add: release_nth)

lemma lease_release_refs:
  assumes "leaseWorker s = (Some p, s')" and "q < length (sp_store s)"
  shows "pw_refs (sp_store (release p s') ! q) = pw_refs (sp_store s ! q)"
    and "length (sp_store (release p s')) = length (sp_store s)"
  using assms leaseWorker_in(2) [OF assms(1)] by (simp_all add: release_refs upd_worker_nth)

lemma lease_release_frame:
  assumes "leaseWorker s = (Some p, s')"
  shows "sp_workers (release p s') = sp_workers s" "sp_retired (release p s') = sp_retired s"
  using leaseWorker_in(3,4) [OF assms] by simp_all

lemma emitHTTPLog_frame [simp]:
  "hs_stats (emitHTTPLog req d st s) = hs_stats s" "hs_pool (emitHTTPLog req d st s) = hs_pool s"
  by (simp_all add: emitHTTPLog_def Let_def split: option.split)

lemma emitHTTPLog_rows:
  "map_option length (hs_log (emitHTTPLog req d st s)) = map_option (\<lambda>l. length l + 1) (hs_log s)"
  by (simp add: emitHTTPLog_def Let_def split: option.split)

lemma request_frames [simp]:
  "hs_pool (begin_request s) = hs_pool s" "hs_log (begin_request s) = hs_log s"
  "hs_pool (end_request d s) = hs_pool s" "hs_log (end_request d s) = hs_log s"
  "hs_pool (count_error s) = hs_pool s" "hs_log (count_error s) = hs_log s"
  "ActiveConns (hs_stats (begin_request s)) = ActiveConns (hs_stats s) + 1"
  "RequestsTotal (hs_stats (begin_request s)) = RequestsTotal (hs_stats s) + 1"
  "ErrorsTotal (hs_stats (begin_request s)) = ErrorsTotal (hs_stats s)"
  "ActiveConns (hs_stats (end_request d s)) = ActiveConns (hs_stats s) - 1"
  "RequestsTotal (hs_stats (end_request d s)) = RequestsTotal (hs_stats s)"
  "ErrorsTotal (hs_stats (end_request d s)) = ErrorsTotal (hs_stats s)"
  "ActiveConns (hs_stats (count_error s)) = ActiveConns (hs_stats s)"
  "RequestsTotal (hs_stats (count_error s)) = RequestsTotal (hs_stats s)"
  "ErrorsTotal (hs_stats (count_error s)) = ErrorsTotal (hs_stats s) + 1"
  by (simp_all add: begin_request_def end_request_def count_error_def Let_def)

text \<open>What serving on a leased worker leaves alone.\<close>

lemma serve_leased_frame:
  assumes "serve_leased callhttp body d p req s w = (out, s1, w1)"
  shows "hs_pool s1 = hs_pool s" and "ActiveConns (hs_stats s1) = ActiveConns (hs_stats s)"
    and "RequestsTotal (hs_stats s1) = RequestsTotal (hs_stats s)"
    and "ErrorsTotal (hs_stats s1) \<in> {ErrorsTotal (hs_stats s), ErrorsTotal (hs_stats s) + 1}"
    and "map_option length (hs_log s1) =
           map_option (\<lambda>l. length l + (if out = None then 0 else 1)) (hs_log s)"
  using assms
  by (auto simp: serve_leased_def emitHTTPLog_rows split: sum.splits prod.splits option.splits)

lemma ws_Get_Unregister: "ws_Get (ws_Unregister i h) i = None"
  by (rule ws_registry.get_drop_same)

section \<open>Properties\<close>

text \<open>C12: The books balance on every path of the request handler, also when no worker is free, the
  body cannot be read, the script fails or writing the response panics: one request is counted, the
  number of active requests and every lease count return to what they were, at most one error is
  counted, and an answered request has exactly one log row.\<close>

theorem handleHTTP_accounts:
  assumes "handleHTTP callhttp body d req s w = (out, s', w')"
  shows "RequestsTotal (hs_stats s') = RequestsTotal (hs_stats s) + 1
    \<and> ActiveConns (hs_stats s') = ActiveConns (hs_stats s)
    \<and> ErrorsTotal (hs_stats s') \<in> {ErrorsTotal (hs_stats s), ErrorsTotal (hs_stats s) + 1}
    \<and> sp_workers (hs_pool s') = sp_workers (hs_pool s)
    \<and> (\<forall>q < length (sp_store (hs_pool s)).
         pw_refs (sp_store (hs_pool s') ! q) = pw_refs (sp_store (hs_pool s) ! q))
    \<and> map_option length (hs_log s') =
        map_option (\<lambda>l. length l + (if out = None then 0 else 1)) (hs_log s)"
proof (cases "fst (leaseWorker (hs_pool s))")
  case None
  then obtain q where "leaseWorker (hs_pool (begin_request s)) = (None, q)"
    by (cases "leaseWorker (hs_pool s)") simp
  with assms show ?thesis by (auto simp: handleHTTP_def Let_def emitHTTPLog_rows)
next
  case (Some p)
  then obtain pool1 where l: "leaseWorker (hs_pool s) = (Some p, pool1)"
    by (cases "leaseWorker (hs_pool s)") simp
  obtain s1 where v: "serve_leased callhttp body d p req ((begin_request s)\<lparr>hs_pool := pool1\<rparr>) w = (out, s1, w')"
    and s': "s' = end_request d (s1\<lparr>hs_pool := release p (hs_pool s1)\<rparr>)"
    using assms l by (auto simp: handleHTTP_def Let_def split: prod.splits)
  show ?thesis
    using serve_leased_frame [OF v] lease_release_refs [OF l] lease_release_frame [OF l]
    by (simp add: s')
qed

definition idle_server :: http_server where
  "idle_server =
     \<lparr>hs_stats = \<lparr>ActiveConns = 0, RequestsTotal = 0, ErrorsTotal = 0, LatencySumMs = 0, LatencyCount = 0\<rparr>,
      hs_pool = \<lparr>sp_store = [new_pworker 1], sp_workers = [0], sp_retired = [], sp_next = 0\<rparr>,
      hs_log = Some []\<rparr>"

definition get_request :: http_request where
  "get_request = \<lparr>rq_Method = ''GET'', rq_Path = ''/'', rq_Query = [], rq_QueryValues = [], rq_Headers = [],
     rq_Body = [], rq_RemoteAddr = [], rq_TLS = False\<rparr>"

theorem handleHTTP_accounts_witness:
  "RequestsTotal (hs_stats (fst (snd
     (handleHTTP (\<lambda>p rq w. ((busy_response, Some ''worker busy''), w)) (Inr []) 3 get_request idle_server ())))) = 1"
proof -
  have "RequestsTotal (hs_stats s') = 1"
    if "handleHTTP (\<lambda>p rq w. ((busy_response, Some ''worker busy''), w)) (Inr []) 3 get_request
      idle_server () = (out, s', w')" for out s' w'
    using handleHTTP_accounts [OF that] by (simp add: idle_server_def)
  then show ?thesis
    by (cases "handleHTTP (\<lambda>p rq w. ((busy_response, Some ''worker busy''), w)) (Inr []) 3 get_request
      idle_server ()") auto
qed

text \<open>A busy worker is not reported as busy: the 503 response with \<^verbatim>\<open>Retry-After\<close> that
  \<^verbatim>\<open>CallHTTP\<close> builds after its bounded wait comes with an error, and the handler answers 500
  with the error text and without that header.\<close>

theorem busy_worker_answers_500:
  assumes "sp_workers (hs_pool s) \<noteq> []"
  shows "\<exists>out. fst (handleHTTP (\<lambda>p. CallHTTP call num sh tree_lookup False (code p)) (Inr dat) d req s w) = Some out
    \<and> wr_Status out = 500 \<and> wr_Body out = ''worker busy'' @ [CHR 0x0A]
    \<and> map_of (wr_Headers out) ''Retry-After'' = None"
proof -
  have d: "Retry = ''Retry-After'' \<Longrightarrow> Retry \<notin> set (map fst (wr_Headers (http_Error security_headers msg 500)))" for Retry msg
    by (simp add: http_Error_def security_headers_def set_header_def canon_header_def token_char_def
        is_lower_def is_upper_def is_digit_def upper_char_def lower_char_def)
  then have "map_of (wr_Headers (http_Error security_headers msg 500)) ''Retry-After'' = None" for msg
    by (simp add: map_of_eq_None_iff)
  moreover obtain p pool1 where "leaseWorker (hs_pool (begin_request s)) = (Some p, pool1)"
    using assms by (auto simp: leaseWorker_def Let_def)
  ultimately show ?thesis
    by (simp add: handleHTTP_def Let_def serve_leased_def CallHTTP_def split_beta) (simp add: http_Error_def)
qed

theorem busy_worker_answers_500_witness:
  "\<exists>out. fst (handleHTTP (\<lambda>p. CallHTTP (\<lambda>f a w. (Inr LNil, w)) (\<lambda>f. Inr []) (\<lambda>v. []) (\<lambda>t m q. None) False
       \<lparr>wc_handlers = \<lparr>HandleHTTP = None, HandleWS = None, HandleTCP = None, Init = None, Shutdown = None\<rparr>,
        wc_router = (None :: unit http_router option)\<rparr>) (Inr []) 500 get_request idle_server w) = Some out
     \<and> wr_Status out = 500"
  using busy_worker_answers_500 [of idle_server "\<lambda>f a w. (Inr LNil, w)" "\<lambda>f. Inr []" "\<lambda>v. []" "\<lambda>t m q. None"
      "\<lambda>p. \<lparr>wc_handlers = \<lparr>HandleHTTP = None, HandleWS = None, HandleTCP = None, Init = None, Shutdown = None\<rparr>,
        wc_router = (None :: unit http_router option)\<rparr>" "[]" 500 get_request w]
  by (auto simp: idle_server_def)

text \<open>The router decides alone which handler runs: for a request that matches a declared route
  the outcome does not depend on \<^verbatim>\<open>handle_http\<close>, and for any other request it does not
  depend on the routes.\<close>

theorem CallHTTP_route_precedence:
  assumes "wc_router wc = Some rt"
  shows "(Match tree_lookup (Some rt) (rq_Method req) (rq_Path req) \<noteq> None \<longrightarrow>
            CallHTTP call num sh tree_lookup acq (wc\<lparr>wc_handlers := (wc_handlers wc)\<lparr>HandleHTTP := h\<rparr>\<rparr>) req w
              = CallHTTP call num sh tree_lookup acq wc req w)
       \<and> (Match tree_lookup (Some rt) (rq_Method req) (rq_Path req) = None \<longrightarrow>
            CallHTTP call num sh tree_lookup acq (wc\<lparr>wc_router := None\<rparr>) req w
              = CallHTTP call num sh tree_lookup acq wc req w)"
proof (intro conjI impI)
  assume "Match tree_lookup (Some rt) (rq_Method req) (rq_Path req) \<noteq> None"
  then have "\<exists>r w'. callRoutedHTTP call num sh tree_lookup rt req w = (Some r, w')"
    by (auto simp: callRoutedHTTP_def Let_def split_beta split: mw_result.split option.split sum.split prod.split)
  then show "CallHTTP call num sh tree_lookup acq (wc\<lparr>wc_handlers := (wc_handlers wc)\<lparr>HandleHTTP := h\<rparr>\<rparr>) req w
      = CallHTTP call num sh tree_lookup acq wc req w"
    using assms by (auto simp: CallHTTP_def)
next
  assume "Match tree_lookup (Some rt) (rq_Method req) (rq_Path req) = None"
  then have "callRoutedHTTP call num sh tree_lookup rt req w = (None, w)" by (simp add: callRoutedHTTP_def)
  then show "CallHTTP call num sh tree_lookup acq (wc\<lparr>wc_router := None\<rparr>) req w
      = CallHTTP call num sh tree_lookup acq wc req w"
    using assms by (simp add: CallHTTP_def)
qed

definition one_route :: "unit http_router" where
  "one_route = \<lparr>rt_tree = (), rt_routes = [\<lparr>rt_Method = ''GET'', rt_Path = ''/'', rt_Handler = ''h''\<rparr>],
     rt_mw = [MwFn 7]\<rparr>"

definition routed_code :: "unit worker_code" where
  "routed_code = \<lparr>wc_handlers = \<lparr>HandleHTTP = Some 1, HandleWS = None, HandleTCP = None, Init = None,
     Shutdown = None\<rparr>, wc_router = Some one_route\<rparr>"

definition serve_start :: serve_world where
  "serve_start = \<lparr>lua = blank_state, onErr = LNil, onErrBusy = False, cache_code = LNil, cache_msg = LNil,
     sw_ws = NewWSHub, sw_tcp = NewTCPHub\<rparr>"

theorem CallHTTP_route_precedence_witness:
  "CallHTTP call num sh (\<lambda>t m p. Some (0, [])) True
     (routed_code\<lparr>wc_handlers := (wc_handlers routed_code)\<lparr>HandleHTTP := None\<rparr>\<rparr>) get_request serve_start
   = CallHTTP call num sh (\<lambda>t m p. Some (0, [])) True routed_code get_request serve_start"
  using CallHTTP_route_precedence [of routed_code one_route "\<lambda>t m p. Some (0, [])" get_request call num sh True None
      serve_start]
  by (simp add: routed_code_def one_route_def Match_def)

end
