(* ===== verification/Form_Tables.thy ===== *)
theory Form_Tables
  imports Script_Errors
begin

text \<open>
  How \<^verbatim>\<open>internal/session/session.go\<close> finds its way in the script's form tables: a form is a
  global table with the sub-tables \<^verbatim>\<open>controls\<close> and \<^verbatim>\<open>handlers\<close>. Every lookup gives up when a
  step is missing or is not a table. The printer of numbers, tables and functions is the
  parameter \<open>sh\<close>.
\<close>

section \<open>Lookups\<close>

fun table_of :: "lua_value \<Rightarrow> nat option" where
  "table_of (LTable a) = Some a"
| "table_of v = None"

fun function_of :: "lua_value \<Rightarrow> nat option" where
  "function_of (LFunction f) = Some f"
| "function_of v = None"

definition sub_table :: "lua_state \<Rightarrow> string \<Rightarrow> nat \<Rightarrow> nat option" where
  "sub_table L k a = table_of (RawGetString L a k)"

definition form_table :: "lua_state \<Rightarrow> string \<Rightarrow> nat option" where
  "form_table L form = table_of (GetGlobal L form)"

definition controlTable :: "lua_state \<Rightarrow> string \<Rightarrow> string \<Rightarrow> nat option" where
  "controlTable L form ctrl =
     Option.bind (Option.bind (form_table L form) (sub_table L ''controls'')) (sub_table L ctrl)"

definition getControl :: "lua_state \<Rightarrow> string \<Rightarrow> string \<Rightarrow> nat option" where
  "getControl L form ctrl = controlTable L form ctrl"

definition controlType :: "(lua_value \<Rightarrow> string) \<Rightarrow> lua_state \<Rightarrow> string \<Rightarrow> string \<Rightarrow> string" where
  "controlType sh L form ctrl =
     (case controlTable L form ctrl of
        None \<Rightarrow> []
      | Some a \<Rightarrow> lv_string sh (RawGetString L a ''type''))"

definition isLooperControl :: "(lua_value \<Rightarrow> string) \<Rightarrow> lua_state \<Rightarrow> string \<Rightarrow> string \<Rightarrow> bool" where
  "isLooperControl sh L form ctrl \<longleftrightarrow> controlType sh L form ctrl = ''looper''"

definition isChartControl :: "(lua_value \<Rightarrow> string) \<Rightarrow> lua_state \<Rightarrow> string \<Rightarrow> string \<Rightarrow> bool" where
  "isChartControl sh L form ctrl \<longleftrightarrow> controlType sh L form ctrl = ''chart''"

definition isLoginControl :: "(lua_value \<Rightarrow> string) \<Rightarrow> lua_state \<Rightarrow> string \<Rightarrow> string \<Rightarrow> bool" where
  "isLoginControl sh L form ctrl \<longleftrightarrow> controlType sh L form ctrl = ''login''"

definition isTreeControl :: "(lua_value \<Rightarrow> string) \<Rightarrow> lua_state \<Rightarrow> string \<Rightarrow> string \<Rightarrow> bool" where
  "isTreeControl sh L form ctrl \<longleftrightarrow> controlType sh L form ctrl = ''tree''"

definition isTabControl :: "(lua_value \<Rightarrow> string) \<Rightarrow> lua_state \<Rightarrow> string \<Rightarrow> string \<Rightarrow> bool" where
  "isTabControl sh L form ctrl \<longleftrightarrow> controlType sh L form ctrl = ''tab''"

definition isAIChatControl :: "(lua_value \<Rightarrow> string) \<Rightarrow> lua_state \<Rightarrow> string \<Rightarrow> string \<Rightarrow> bool" where
  "isAIChatControl sh L form ctrl \<longleftrightarrow> controlType sh L form ctrl = ''ai_chat''"

definition isTopbarControl :: "(lua_value \<Rightarrow> string) \<Rightarrow> lua_state \<Rightarrow> string \<Rightarrow> string \<Rightarrow> bool" where
  "isTopbarControl sh L form ctrl \<longleftrightarrow> controlType sh L form ctrl = ''topbar''"

definition isSidebarControl :: "(lua_value \<Rightarrow> string) \<Rightarrow> lua_state \<Rightarrow> string \<Rightarrow> string \<Rightarrow> bool" where
  "isSidebarControl sh L form ctrl \<longleftrightarrow> controlType sh L form ctrl = ''sidebar''"

text \<open>The handler of an event: \<^verbatim>\<open>form.handlers[key][event]\<close>, when it is a function.\<close>

definition handlers_of :: "lua_state \<Rightarrow> string \<Rightarrow> string \<Rightarrow> nat option" where
  "handlers_of L form key =
     Option.bind (Option.bind (form_table L form) (sub_table L ''handlers'')) (sub_table L key)"

definition form_handler :: "lua_state \<Rightarrow> string \<Rightarrow> string \<Rightarrow> string \<Rightarrow> nat option" where
  "form_handler L form key event =
     Option.bind (handlers_of L form key) (\<lambda>a. function_of (RawGetString L a event))"

section \<open>Control values\<close>

text \<open>
  A value of None is a Go nil, which the page produces by an event without value: it is not
  Lua's nil and goes into the table as it is. What that does to the table is \<open>set_go_nil\<close>.
\<close>

definition store_value ::
  "(nat \<Rightarrow> string \<Rightarrow> lua_state \<Rightarrow> lua_state) \<Rightarrow> nat \<Rightarrow> lua_value option \<Rightarrow> lua_state \<Rightarrow> lua_state" where
  "store_value set_go_nil a v L =
     (case v of None \<Rightarrow> set_go_nil a ''value'' L | Some x \<Rightarrow> RawSetString a ''value'' x L)"

definition updateSingleControlValue ::
  "(nat \<Rightarrow> string \<Rightarrow> lua_state \<Rightarrow> lua_state) \<Rightarrow> string \<Rightarrow> string \<Rightarrow> lua_value option \<Rightarrow> lua_state \<Rightarrow> lua_state" where
  "updateSingleControlValue set_go_nil form ctrl v L =
     (case controlTable L form ctrl of None \<Rightarrow> L | Some a \<Rightarrow> store_value set_go_nil a v L)"

definition updateControlValue ::
  "(nat \<Rightarrow> string \<Rightarrow> lua_state \<Rightarrow> lua_state) \<Rightarrow> (lua_value \<Rightarrow> string) \<Rightarrow> string \<Rightarrow> string \<Rightarrow> lua_value option \<Rightarrow>
   lua_state \<Rightarrow> lua_state" where
  "updateControlValue set_go_nil sh form ctrl v L =
     (case v of
        Some (LTable t) \<Rightarrow>
          fold (\<lambda>(k, x). updateSingleControlValue set_go_nil form (lv_string sh k) (Some x)) (for_each L t) L
      | _ \<Rightarrow> updateSingleControlValue set_go_nil form ctrl v L)"

section \<open>What the lookups depend on\<close>

lemma table_of_Some [simp]: "table_of v = Some a \<longleftrightarrow> v = LTable a"
  by (cases v) auto

lemma function_of_Some [simp]: "function_of v = Some f \<longleftrightarrow> v = LFunction f"
  by (cases v) auto

lemma form_table_RawSetString [simp]: "form_table (RawSetString a k v L) form = form_table L form"
  by (simp add: form_table_def)

lemma controlTable_Some:
  "controlTable L form ctrl = Some a \<longleftrightarrow>
     (\<exists>f c. GetGlobal L form = LTable f \<and> RawGetString L f ''controls'' = LTable c
            \<and> RawGetString L c ctrl = LTable a)"
  by (auto simp: controlTable_def form_table_def sub_table_def bind_eq_Some_conv)

text \<open>
  Storing a plain value under \<open>value\<close> leaves the form structure alone, provided no table on
  the way uses the key \<open>value\<close> for a control or a sub-table: the control names differ from it.
\<close>

lemma controlTable_other_key:
  "k \<noteq> ''controls'' \<Longrightarrow> k \<noteq> ctrl \<Longrightarrow> controlTable (RawSetString a k v L) form ctrl = controlTable L form ctrl"
  by (simp add: controlTable_def form_table_def sub_table_def cong: bind_option_cong)

lemma controlType_other_key:
  "k \<noteq> ''controls'' \<Longrightarrow> k \<noteq> ctrl \<Longrightarrow> k \<noteq> ''type'' \<Longrightarrow>
   controlType sh (RawSetString a k v L) form ctrl = controlType sh L form ctrl"
  by (simp add: controlType_def controlTable_other_key split: option.split)

lemma updateSingleControlValue_read:
  "controlTable L form ctrl = Some a \<Longrightarrow>
   RawGetString (updateSingleControlValue gn form ctrl (Some x) L) a ''value'' = x"
  by (simp add: updateSingleControlValue_def store_value_def)

end
