(* ===== verification/Login_Check.thy ===== *)
theory Login_Check
  imports Form_Tables
begin

text \<open>
  Verifying a login, \<^verbatim>\<open>internal/bindings/login.go\<close>: the options of the control, the
  user query and the password check. Parameters are \<open>sh\<close>, the printer of numbers and tables,
  \<open>pf\<close>, \<^verbatim>\<open>strconv.ParseFloat\<close>, \<open>lower\<close>, \<^verbatim>\<open>strings.ToLower\<close>, the digests, and the
  database: a handle has a driver name and answers a query with an error or with rows.
\<close>

section \<open>Options\<close>

record login_options =
  lo_DB :: string
  lo_Table :: string
  lo_LoginColumn :: string
  lo_PasswordColumn :: string
  lo_SaltColumn :: string
  lo_Hash :: string
  lo_StaticSalt :: string
  lo_Iterations :: int
  lo_KeyLen :: int
  lo_ErrorMessage :: string
  lo_MaxAttempts :: int

definition ident_char :: "char \<Rightarrow> bool" where
  "ident_char c \<longleftrightarrow> is_lower c \<or> is_upper c \<or> is_digit c \<or> c = CHR ''_''"

definition isValidIdentifier :: "string \<Rightarrow> bool" where
  "isValidIdentifier s \<longleftrightarrow> s \<noteq> [] \<and> list_all ident_char s"

definition text_option :: "(lua_value \<Rightarrow> string) \<Rightarrow> lua_state \<Rightarrow> nat \<Rightarrow> string \<Rightarrow> string \<Rightarrow> string" where
  "text_option sh L a k dflt =
     (let v = RawGetString L a k in if v \<noteq> LNil \<and> lv_string sh v \<noteq> [] then lv_string sh v else dflt)"

definition int_option ::
  "(string \<Rightarrow> go_float option) \<Rightarrow> lua_state \<Rightarrow> nat \<Rightarrow> string \<Rightarrow> int \<Rightarrow> int" where
  "int_option pf L a k dflt =
     (let v = RawGetString L a k in if v \<noteq> LNil then go_int (LVAsNumber pf v) else dflt)"

definition read_login_options ::
  "(string \<Rightarrow> string) \<Rightarrow> (string \<Rightarrow> go_float option) \<Rightarrow> (lua_value \<Rightarrow> string) \<Rightarrow> lua_state \<Rightarrow> nat \<Rightarrow> login_options" where
  "read_login_options lower pf sh L a =
     \<lparr>lo_DB = text_option sh L a ''db'' [],
      lo_Table = text_option sh L a ''table'' ''users'',
      lo_LoginColumn = text_option sh L a ''login_column'' ''login'',
      lo_PasswordColumn = text_option sh L a ''password_column'' ''password'',
      lo_SaltColumn = text_option sh L a ''salt_column'' [],
      lo_Hash = (let v = RawGetString L a ''hash'' in
                 if v \<noteq> LNil \<and> lv_string sh v \<noteq> [] then lower (lv_string sh v) else ''pbkdf2''),
      lo_StaticSalt = text_option sh L a ''salt'' [],
      lo_Iterations = int_option pf L a ''iterations'' 100000,
      lo_KeyLen = int_option pf L a ''keylen'' 32,
      lo_ErrorMessage = text_option sh L a ''error_message'' ''Invalid login or password'',
      lo_MaxAttempts = int_option pf L a ''attempts'' 3\<rparr>"

definition LoginOptsFromTable ::
  "(string \<Rightarrow> string) \<Rightarrow> (string \<Rightarrow> go_float option) \<Rightarrow> (lua_value \<Rightarrow> string) \<Rightarrow> lua_state \<Rightarrow> nat \<Rightarrow>
   string + login_options" where
  "LoginOptsFromTable lower pf sh L a =
     (let o1 = read_login_options lower pf sh L a in
      if lo_DB o1 = [] then
        Inl (''login control requires '' @ CHR 0x27 # ''db'' @ CHR 0x27 # '' option (named handle or k.connect_db id)'')
      else if \<not> isValidIdentifier (lo_Table o1) then Inl (''invalid table name: '' @ lo_Table o1)
      else if \<not> isValidIdentifier (lo_LoginColumn o1) then Inl (''invalid login_column: '' @ lo_LoginColumn o1)
      else if \<not> isValidIdentifier (lo_PasswordColumn o1) then Inl (''invalid password_column: '' @ lo_PasswordColumn o1)
      else if lo_SaltColumn o1 \<noteq> [] \<and> \<not> isValidIdentifier (lo_SaltColumn o1) then
        Inl (''invalid salt_column: '' @ lo_SaltColumn o1)
      else if lo_Hash o1 \<noteq> ''pbkdf2'' \<and> lo_Hash o1 \<noteq> ''sha256'' \<and> lo_Hash o1 \<noteq> ''plain'' then
        Inl (''unsupported hash algorithm: '' @ lo_Hash o1 @ '' (must be pbkdf2, sha256, or plain)'')
      else if lo_Hash o1 = ''pbkdf2'' \<and> lo_StaticSalt o1 = [] \<and> lo_SaltColumn o1 = [] then
        Inl (''hash=pbkdf2 requires either '' @ CHR 0x27 # ''salt'' @ CHR 0x27 # '' or '' @ CHR 0x27 # ''salt_column'' @ CHR 0x27 # '' option'')
      else Inr (if lo_Hash o1 = ''pbkdf2''
                then o1\<lparr>lo_Iterations := (if lo_Iterations o1 \<le> 0 then 100000 else lo_Iterations o1),
                        lo_KeyLen := (if lo_KeyLen o1 \<le> 0 then 32 else lo_KeyLen o1)\<rparr>
                else o1))"

section \<open>The user query\<close>

type_synonym db_row = "(string \<times> go_value) list"

record db_handle =
  dh_driver :: string
  dh_query :: "string \<Rightarrow> string \<Rightarrow> string + db_row list"

definition Placeholder :: "string \<Rightarrow> int \<Rightarrow> string" where
  "Placeholder driver n =
     (if driver = ''pgx'' then CHR ''$'' # itoa n
      else if driver = ''sqlserver'' then ''@p'' @ itoa n else ''?'')"

definition login_query :: "login_options \<Rightarrow> string \<Rightarrow> string" where
  "login_query opts driver =
     ''SELECT * FROM '' @ lo_Table opts @ '' WHERE '' @ lo_LoginColumn opts @ '' = '' @ Placeholder driver 1"

definition LookupLoginUser ::
  "(string \<Rightarrow> string) \<Rightarrow> (string \<Rightarrow> go_float option) \<Rightarrow> (lua_value \<Rightarrow> string) \<Rightarrow> (string \<Rightarrow> db_handle option) \<Rightarrow>
   lua_state \<Rightarrow> nat \<Rightarrow> string \<Rightarrow> string + db_row option" where
  "LookupLoginUser lower pf sh db L a login =
     (case LoginOptsFromTable lower pf sh L a of
        Inl err \<Rightarrow> Inl err
      | Inr opts \<Rightarrow>
          (case db (lo_DB opts) of
             None \<Rightarrow> Inl (''db handle not found: '' @ lo_DB opts)
           | Some h \<Rightarrow>
               (case dh_query h (login_query opts (dh_driver h)) login of
                  Inl err \<Rightarrow> Inl err
                | Inr [] \<Rightarrow> Inr None
                | Inr (row # rows) \<Rightarrow> Inr (Some row))))"

section \<open>The password check\<close>

text \<open>The digests: \<open>pbkdf2\<close> on password, salt, rounds and length, and \<open>sha256\<close>, as bytes.\<close>

definition hex_byte :: "char \<Rightarrow> string" where
  "hex_byte c = [''0123456789abcdef'' ! (byte_of c div 16), ''0123456789abcdef'' ! (byte_of c mod 16)]"

definition hex_encode :: "string \<Rightarrow> string" where
  "hex_encode s = concat (map hex_byte s)"

definition text_field :: "db_row \<Rightarrow> string \<Rightarrow> string option" where
  "text_field row k = (case map_of row k of Some (GString s) \<Rightarrow> Some s | _ \<Rightarrow> None)"

definition login_salt :: "login_options \<Rightarrow> db_row \<Rightarrow> string" where
  "login_salt opts row =
     (if lo_StaticSalt opts \<noteq> [] then lo_StaticSalt opts
      else if lo_SaltColumn opts \<noteq> [] then (case text_field row (lo_SaltColumn opts) of Some s \<Rightarrow> s | None \<Rightarrow> [])
      else [])"

definition VerifyLoginPassword ::
  "(string \<Rightarrow> string) \<Rightarrow> (string \<Rightarrow> go_float option) \<Rightarrow> (lua_value \<Rightarrow> string) \<Rightarrow>
   (string \<Rightarrow> string \<Rightarrow> int \<Rightarrow> int \<Rightarrow> string) \<Rightarrow> (string \<Rightarrow> string) \<Rightarrow> lua_state \<Rightarrow> nat \<Rightarrow> db_row \<Rightarrow> string \<Rightarrow> bool" where
  "VerifyLoginPassword lower pf sh pbkdf2 sha256 L a row password =
     (case LoginOptsFromTable lower pf sh L a of
        Inl err \<Rightarrow> False
      | Inr opts \<Rightarrow>
          (case text_field row (lo_PasswordColumn opts) of
             None \<Rightarrow> False
           | Some stored \<Rightarrow>
               (let salt = login_salt opts row in
                if lo_Hash opts = ''pbkdf2'' then
                  salt \<noteq> [] \<and>
                  stored = hex_encode (pbkdf2 password salt (lo_Iterations opts) (lo_KeyLen opts))
                else if lo_Hash opts = ''sha256'' then stored = hex_encode (sha256 (password @ salt))
                else if lo_Hash opts = ''plain'' then stored = password
                else False)))"

text \<open>
  \<^verbatim>\<open>LoginUserFromRow\<close> copies the whole row; \<open>stringify\<close> prints the types the local
  \<^verbatim>\<open>GoValueToLua\<close> does not know.
\<close>

fun row_value :: "(go_value \<Rightarrow> string) \<Rightarrow> go_value \<Rightarrow> lua_value" where
  "row_value stringify GNil = LNil"
| "row_value stringify (GBool b) = LBool b"
| "row_value stringify (GInt n) = LNumber (float_of_int n)"
| "row_value stringify (GInt64 n) = LNumber (float_of_int n)"
| "row_value stringify (GFloat f) = LNumber f"
| "row_value stringify (GString s) = LString s"
| "row_value stringify v = LString (stringify v)"

definition LoginUserFromRow :: "(go_value \<Rightarrow> string) \<Rightarrow> db_row \<Rightarrow> lua_state \<Rightarrow> lua_state \<times> nat" where
  "LoginUserFromRow stringify row L =
     (let (L1, a) = NewTable L
      in (fold (\<lambda>(k, v). RawSetString a k (row_value stringify v)) row L1, a))"

section \<open>Lemmas\<close>

lemma login_options_valid:
  assumes "LoginOptsFromTable lower pf sh L a = Inr opts"
  shows "isValidIdentifier (lo_Table opts)" "isValidIdentifier (lo_LoginColumn opts)"
    "isValidIdentifier (lo_PasswordColumn opts)"
    "lo_SaltColumn opts \<noteq> [] \<Longrightarrow> isValidIdentifier (lo_SaltColumn opts)"
    "lo_Hash opts \<in> {''pbkdf2'', ''sha256'', ''plain''}"
    "lo_Hash opts = ''pbkdf2'' \<Longrightarrow> 0 < lo_KeyLen opts"
  using assms
  by (auto simp: LoginOptsFromTable_def Let_def split: if_splits)

lemma space_not_ident: "isValidIdentifier s \<Longrightarrow> CHR '' '' \<notin> set s"
  by (auto simp: isValidIdentifier_def list_all_iff ident_char_def is_lower_def is_upper_def is_digit_def)

lemma space_not_placeholder: "CHR '' '' \<notin> set (Placeholder driver 1)"
proof -
  have "itoa 1 = ''1''" by code_simp
  then show ?thesis by (simp add: Placeholder_def)
qed

lemma length_hex_encode [simp]: "length (hex_encode s) = 2 * length s"
  by (induction s) (simp_all add: hex_encode_def hex_byte_def)

lemma hex_encode_Nil_iff [simp]: "hex_encode s = [] \<longleftrightarrow> s = []" "[] = hex_encode s \<longleftrightarrow> s = []"
  by (cases s; simp add: hex_encode_def hex_byte_def)+

section \<open>Properties\<close>

text \<open>A login cannot inject SQL: whatever the control table holds, a query is issued only with
  a table and a column name made of letters, digits and underscores, so its text is always the
  same eight words, and the login itself travels as the query's argument only.\<close>

theorem login_query_is_fixed:
  assumes "LoginOptsFromTable lower pf sh L a = Inr opts"
  shows "split_on CHR '' '' (login_query opts driver) =
           [''SELECT'', ''*'', ''FROM'', lo_Table opts, ''WHERE'', lo_LoginColumn opts, ''='',
            Placeholder driver 1]
         \<and> list_all ident_char (lo_Table opts) \<and> list_all ident_char (lo_LoginColumn opts)
         \<and> (\<forall>db login. LookupLoginUser lower pf sh db L a login =
              (case db (lo_DB opts) of
                 None \<Rightarrow> Inl (''db handle not found: '' @ lo_DB opts)
               | Some h \<Rightarrow>
                   (case dh_query h (login_query opts (dh_driver h)) login of
                      Inl err \<Rightarrow> Inl err
                    | Inr rows \<Rightarrow> Inr (if rows = [] then None else Some (hd rows)))))"
proof (intro conjI allI)
  note v = login_options_valid [OF assms]
  let ?words = "[''SELECT'', ''*'', ''FROM'', lo_Table opts, ''WHERE'', lo_LoginColumn opts, ''='',
            Placeholder driver 1]"
  have "login_query opts driver = join_with '' '' ?words" by (simp add: login_query_def)
  moreover have "\<forall>w\<in>set ?words. CHR '' '' \<notin> set w"
    using v(1,2) by (simp add: space_not_ident space_not_placeholder)
  ultimately show "split_on CHR '' '' (login_query opts driver) = ?words"
    using split_join_with [of ?words "CHR '' ''"] by simp
  show "list_all ident_char (lo_Table opts)" "list_all ident_char (lo_LoginColumn opts)"
    using v(1,2) by (simp_all add: isValidIdentifier_def)
qed (simp add: LookupLoginUser_def assms split: option.split sum.split list.split)

definition login_control :: "string \<Rightarrow> lua_state" where
  "login_control hash =
     RawSetString 0 ''hash'' (LString hash)
       (RawSetString 0 ''salt'' (LString ''pepper'') (RawSetString 0 ''db'' (LString ''main'')
         (fst (NewTable blank_state))))"

lemma login_control_options:
  "LoginOptsFromTable (\<lambda>s. s) (\<lambda>s. None) (\<lambda>v. []) (login_control ''sha256'') 0 =
     Inr \<lparr>lo_DB = ''main'', lo_Table = ''users'', lo_LoginColumn = ''login'', lo_PasswordColumn = ''password'',
       lo_SaltColumn = [], lo_Hash = ''sha256'', lo_StaticSalt = ''pepper'', lo_Iterations = 100000,
       lo_KeyLen = 32, lo_ErrorMessage = ''Invalid login or password'', lo_MaxAttempts = 3\<rparr>"
  by code_simp

theorem login_query_is_fixed_witness:
  "split_on CHR '' '' (login_query \<lparr>lo_DB = ''main'', lo_Table = ''users'', lo_LoginColumn = ''login'',
       lo_PasswordColumn = ''password'', lo_SaltColumn = [], lo_Hash = ''sha256'', lo_StaticSalt = ''pepper'',
       lo_Iterations = 100000, lo_KeyLen = 32, lo_ErrorMessage = ''Invalid login or password'',
       lo_MaxAttempts = 3\<rparr> ''pgx'')
     = [''SELECT'', ''*'', ''FROM'', ''users'', ''WHERE'', ''login'', ''='', Placeholder ''pgx'' 1]"
  using login_query_is_fixed [OF login_control_options, of "''pgx''"] by simp

text \<open>An account without a secret stays closed under both digests, because a digest in
  hexadecimal is never empty, but the method \<^verbatim>\<open>plain\<close> lets an empty password in.\<close>

theorem empty_secret_login:
  assumes opts: "LoginOptsFromTable lower pf sh L a = Inr opts"
    and row: "text_field row (lo_PasswordColumn opts) = Some []"
    and pbkdf2: "\<And>p s n k. length (pbkdf2 p s n k) = nat k"
    and sha256: "\<And>m. length (sha256 m) = 32"
  shows "VerifyLoginPassword lower pf sh pbkdf2 sha256 L a row password
           \<longleftrightarrow> lo_Hash opts = ''plain'' \<and> password = []"
proof -
  have "pbkdf2 p s n (lo_KeyLen opts) \<noteq> []" if "lo_Hash opts = ''pbkdf2''" for p s n
    using login_options_valid(6) [OF opts that] pbkdf2 [of p s n "lo_KeyLen opts"] by auto
  moreover have "sha256 m \<noteq> []" for m using sha256 [of m] by auto
  ultimately show ?thesis
    by (auto simp: VerifyLoginPassword_def opts row Let_def)
qed

theorem empty_secret_login_witness:
  "\<not> VerifyLoginPassword (\<lambda>s. s) (\<lambda>s. None) (\<lambda>v. []) (\<lambda>p s n k. replicate (nat k) CHR ''x'')
      (\<lambda>m. replicate 32 CHR ''x'') (login_control ''sha256'') 0 [(''password'', GString [])] []"
  using empty_secret_login [OF login_control_options, of "[(''password'', GString [])]"
      "\<lambda>p s n k. replicate (nat k) CHR ''x''" "\<lambda>m. replicate 32 CHR ''x''" "[]"]
  by (simp add: text_field_def)

end
