(* ===== verification/Session_State.thy ===== *)
theory Session_State
  imports Form_Tables Outbox_Router
begin

text \<open>
  The state of the per-tab actor, \<^verbatim>\<open>internal/session/session.go\<close> and
  \<^verbatim>\<open>internal/session/types.go\<close>: its inbox and outbox, the coroutines suspended on an
  answer, the form stack and the timers. A wall-clock identifier is its prefix and the
  \<^verbatim>\<open>UnixNano\<close> reading, which every request takes as an argument.

  Posting to the inbox blocks while the 64 places are taken, so an operation of the actor
  itself that posts can block forever: the outcome \<open>Stuck\<close>. A failed type assertion ends the
  process: \<open>Panicked\<close>.
\<close>

section \<open>Outcomes\<close>

datatype 'a outcome = Done 'a | Stuck | Panicked

fun andThen :: "'a outcome \<Rightarrow> ('a \<Rightarrow> 'b outcome) \<Rightarrow> 'b outcome" where
  "andThen (Done x) f = f x"
| "andThen Stuck f = Stuck"
| "andThen Panicked f = Panicked"

lemma andThen_Done: "andThen r f = Done y \<longleftrightarrow> (\<exists>x. r = Done x \<and> f x = Done y)"
  by (cases r) auto

section \<open>Messages\<close>

datatype inbox_type =
    InboxNone | InboxWSEvent | InboxTimer | InboxAsyncDone | InboxMsgboxChoice
  | InboxPopupChoice | InboxPopupDismiss | InboxClipboardResp | InboxFilePickerResp
  | InboxQuery | InboxSleepDone | InboxTabulatorDataResp | InboxTabulatorSelectionResp
  | InboxTabulatorAjaxRequest | InboxLooperScrollRequest | InboxLooperRefreshRequest
  | InboxChartImageResp | InboxFormEvent | InboxExec | InboxSelectionResp
  | InboxFilePickerSaveResp | InboxGridFormOpen | InboxGridFormSave | InboxGridFormCancel
  | InboxGridRowDelete | InboxGridBatchDelete | InboxGridGetSelected | InboxGridGetSelectedResp
  | InboxGridGetRow | InboxGridGetRowResp | InboxGridDeleteRow | InboxGridDeleteRowResp
  | InboxGridBatchDeleteReq | InboxGridBatchDeleteResp | InboxGridInsertRow
  | InboxGridInsertRowResp | InboxGridUpdateRow | InboxGridUpdateRowResp
  | InboxTreeDataRequest | InboxTabChange | InboxAIChatSend | InboxAIChatStop
  | InboxAIChatEvent | InboxAIToolCall

text \<open>
  \<^verbatim>\<open>raw\<close> and \<^verbatim>\<open>data\<close> are \<^verbatim>\<open>interface{}\<close> fields: \<open>im_raw\<close> is decoded JSON, \<open>im_exec\<close>
  the payload of \<^verbatim>\<open>inboxExec\<close>, \<open>im_lua\<close> the Lua values a grid request carries, \<open>im_data\<close>
  a completed operation. \<open>im_value\<close> is None for a Go nil.
\<close>

record exec_call =
  ec_op :: string
  ec_fn :: nat
  ec_args :: "go_value list"

record async_done =
  ad_op :: string
  ad_result :: go_value
  ad_error :: "string option"

record inbox_msg =
  im_typ :: inbox_type
  im_form :: string
  im_ctrl :: string
  im_event :: string
  im_value :: "lua_value option"
  im_raw :: go_value
  im_timer :: string
  im_data :: "async_done option"
  im_respID :: string
  im_resp :: string
  im_selectRows :: "int list"
  im_exec :: "exec_call option"
  im_lua :: "(string \<times> lua_value) list"

definition inbox_msg_of :: "inbox_type \<Rightarrow> inbox_msg" where
  "inbox_msg_of t = \<lparr>im_typ = t, im_form = [], im_ctrl = [], im_event = [], im_value = None,
     im_raw = GNil, im_timer = [], im_data = None, im_respID = [], im_resp = [],
     im_selectRows = [], im_exec = None, im_lua = []\<rparr>"

section \<open>The session\<close>

text \<open>
  A timer object fires while armed; between firing and the end of its callback it is neither
  armed nor idle. The history \<open>trace\<close> records which coroutine was registered and resumed under
  which identifier; no operation reads it.
\<close>

record async_op =
  op_co :: nat
  op_cancel :: bool
  op_conv :: "nat option"
  op_pickMode :: string

datatype timer_phase = Armed | Firing | Idle

record stimer =
  tm_msg :: inbox_msg
  tm_ms :: int
  tm_repeats :: bool
  tm_phase :: timer_phase

datatype session_event =
    Registered string nat
  | Resumed string nat
  | Cancelled nat
  | GridRegistered string nat
  | Slept string nat
  | Woken string nat
  | FormStored string nat
  | FormResumed string nat
  | ToolReply nat "string + go_value"

record session =
  world :: script_world
  inbox :: "inbox_msg list"
  outbox :: "outbox_msg list"
  ended :: bool
  formStack :: "string list"
  formCoros :: "(string \<times> nat) list"
  timers :: "(string \<times> nat) list"
  idleTimers :: "(string \<times> nat) list"
  timer_objs :: "stimer list"
  asyncOps :: "(string \<times> async_op) list"
  gridAsyncOps :: "(string \<times> nat) list"
  sleepOps :: "(string \<times> nat) list"
  clientW :: int
  clientH :: int
  clientLocale :: string
  suspendedForm :: string
  pendingToolCalls :: "(nat \<times> nat) list"
  trace :: "session_event list"

definition session_cap :: nat where "session_cap = 64"

definition NewSession :: "script_world \<Rightarrow> session" where
  "NewSession w = \<lparr>world = w, inbox = [], outbox = [], ended = False, formStack = [],
     formCoros = [], timers = [], idleTimers = [], timer_objs = [], asyncOps = [],
     gridAsyncOps = [], sleepOps = [], clientW = 0, clientH = 0, clientLocale = [],
     suspendedForm = [], pendingToolCalls = [], trace = []\<rparr>"

definition record_event :: "session_event \<Rightarrow> session \<Rightarrow> session" where
  "record_event e s = s\<lparr>trace := trace s @ [e]\<rparr>"

section \<open>Outbox and inbox\<close>

text \<open>
  \<^verbatim>\<open>SendOutbox\<close> drops a message when the 64 places are taken. \<open>send_blocking\<close> is the plain
  channel send of the error paths: the sender waits for the page to read, so a message past
  the capacity is one the actor still holds.
\<close>

definition outbox_offer :: "outbox_msg \<Rightarrow> session \<Rightarrow> bool \<times> session" where
  "outbox_offer m s =
     (if length (outbox s) < session_cap then (True, s\<lparr>outbox := outbox s @ [m]\<rparr>) else (False, s))"

definition SendOutbox :: "outbox_msg \<Rightarrow> session \<Rightarrow> session" where
  "SendOutbox m s = snd (outbox_offer m s)"

definition send_blocking :: "outbox_msg \<Rightarrow> session \<Rightarrow> session" where
  "send_blocking m s = s\<lparr>outbox := outbox s @ [m]\<rparr>"

interpretation session_outq: bounded_queue outbox outbox_offer session_cap
  by unfold_locales (auto simp: outbox_offer_def)

text \<open>
  The posts select between the inbox and the closed \<^verbatim>\<open>done\<close> channel; a full inbox blocks the
  poster, which is only fatal for the actor itself.
\<close>

definition inbox_offer :: "inbox_msg \<Rightarrow> session \<Rightarrow> bool \<times> session" where
  "inbox_offer m s =
     (if length (inbox s) < session_cap then (True, s\<lparr>inbox := inbox s @ [m]\<rparr>) else (False, s))"

interpretation session_inq: bounded_queue inbox inbox_offer session_cap
  by unfold_locales (auto simp: inbox_offer_def)

definition post :: "inbox_msg \<Rightarrow> session \<Rightarrow> session outcome" where
  "post m s = (case inbox_offer m s of
                 (True, s') \<Rightarrow> Done s'
               | (False, s') \<Rightarrow> (if ended s then Done s else Stuck))"

definition error_out :: "string \<Rightarrow> string \<Rightarrow> outbox_msg" where
  "error_out msg stack = empty_msg\<lparr>Type := ''error'', Msg := msg, Stack := stack\<rparr>"

definition ctrl_selector :: "string \<Rightarrow> string \<Rightarrow> string" where
  "ctrl_selector form ctrl = ''#c:'' @ form @ '':'' @ ctrl"

section \<open>Posts of the page\<close>

definition PostFormEvent :: "string \<Rightarrow> string \<Rightarrow> session \<Rightarrow> session outcome" where
  "PostFormEvent form event = post ((inbox_msg_of InboxFormEvent)\<lparr>im_form := form, im_event := event\<rparr>)"

definition PostEvent :: "string \<Rightarrow> string \<Rightarrow> string \<Rightarrow> lua_value option \<Rightarrow> session \<Rightarrow> session outcome" where
  "PostEvent form ctrl event value = post ((inbox_msg_of InboxWSEvent)\<lparr>im_form := form, im_ctrl := ctrl, im_event := event, im_value := value\<rparr>)"

definition PostEventAny :: "string \<Rightarrow> string \<Rightarrow> string \<Rightarrow> go_value \<Rightarrow> session \<Rightarrow> session outcome" where
  "PostEventAny form ctrl event value = post ((inbox_msg_of InboxWSEvent)\<lparr>im_form := form, im_ctrl := ctrl, im_event := event, im_raw := value\<rparr>)"

definition PostTimer :: "string \<Rightarrow> session \<Rightarrow> session outcome" where
  "PostTimer timerID = post ((inbox_msg_of InboxTimer)\<lparr>im_timer := timerID\<rparr>)"

definition HandleMsgboxChoice :: "string \<Rightarrow> go_value \<Rightarrow> string \<Rightarrow> session \<Rightarrow> session outcome" where
  "HandleMsgboxChoice msgboxID value choice = post ((inbox_msg_of InboxMsgboxChoice)\<lparr>im_respID := msgboxID, im_resp := choice, im_raw := value\<rparr>)"

definition HandlePopupChoice :: "string \<Rightarrow> go_value \<Rightarrow> session \<Rightarrow> session outcome" where
  "HandlePopupChoice popupID value = post ((inbox_msg_of InboxPopupChoice)\<lparr>im_respID := popupID, im_raw := value\<rparr>)"

definition DismissPopup :: "string \<Rightarrow> session \<Rightarrow> session outcome" where
  "DismissPopup popupID = post ((inbox_msg_of InboxPopupDismiss)\<lparr>im_respID := popupID\<rparr>)"

definition PostClipboardResp :: "string \<Rightarrow> string \<Rightarrow> session \<Rightarrow> session outcome" where
  "PostClipboardResp reqID value = post ((inbox_msg_of InboxClipboardResp)\<lparr>im_respID := reqID, im_resp := value\<rparr>)"

definition PostFilePickerResp :: "string \<Rightarrow> string \<Rightarrow> session \<Rightarrow> session outcome" where
  "PostFilePickerResp reqID value = post ((inbox_msg_of InboxFilePickerResp)\<lparr>im_respID := reqID, im_resp := value\<rparr>)"

definition PostFilePickerSaveResp :: "string \<Rightarrow> string \<Rightarrow> session \<Rightarrow> session outcome" where
  "PostFilePickerSaveResp reqID value = post ((inbox_msg_of InboxFilePickerSaveResp)\<lparr>im_respID := reqID, im_resp := value\<rparr>)"

definition PostTabulatorDataResp :: "string \<Rightarrow> string \<Rightarrow> session \<Rightarrow> session outcome" where
  "PostTabulatorDataResp reqID value = post ((inbox_msg_of InboxTabulatorDataResp)\<lparr>im_respID := reqID, im_resp := value\<rparr>)"

definition PostChartImageResp :: "string \<Rightarrow> string \<Rightarrow> session \<Rightarrow> session outcome" where
  "PostChartImageResp reqID value = post ((inbox_msg_of InboxChartImageResp)\<lparr>im_respID := reqID, im_resp := value\<rparr>)"

definition PostTabulatorSelectionResp :: "string \<Rightarrow> int list \<Rightarrow> session \<Rightarrow> session outcome" where
  "PostTabulatorSelectionResp reqID rows = post ((inbox_msg_of InboxTabulatorSelectionResp)\<lparr>im_respID := reqID, im_selectRows := rows\<rparr>)"

definition PostSelectionResp :: "string \<Rightarrow> (string \<times> go_value) list \<Rightarrow> session \<Rightarrow> session outcome" where
  "PostSelectionResp reqID value = post ((inbox_msg_of InboxSelectionResp)\<lparr>im_respID := reqID, im_raw := GMap value\<rparr>)"

definition PostTabulatorAjaxRequest :: "string \<Rightarrow> string \<Rightarrow> go_value \<Rightarrow> session \<Rightarrow> session outcome" where
  "PostTabulatorAjaxRequest form ctrl value = post ((inbox_msg_of InboxTabulatorAjaxRequest)\<lparr>im_form := form, im_ctrl := ctrl, im_raw := value\<rparr>)"

definition PostLooperScrollRequest :: "string \<Rightarrow> string \<Rightarrow> go_value \<Rightarrow> session \<Rightarrow> session outcome" where
  "PostLooperScrollRequest form ctrl value = post ((inbox_msg_of InboxLooperScrollRequest)\<lparr>im_form := form, im_ctrl := ctrl, im_raw := value\<rparr>)"

definition PostGridFormOpen :: "string \<Rightarrow> string \<Rightarrow> go_value \<Rightarrow> session \<Rightarrow> session outcome" where
  "PostGridFormOpen form ctrl value = post ((inbox_msg_of InboxGridFormOpen)\<lparr>im_form := form, im_ctrl := ctrl, im_raw := value\<rparr>)"

definition PostGridFormSave :: "string \<Rightarrow> string \<Rightarrow> go_value \<Rightarrow> session \<Rightarrow> session outcome" where
  "PostGridFormSave form ctrl value = post ((inbox_msg_of InboxGridFormSave)\<lparr>im_form := form, im_ctrl := ctrl, im_raw := value\<rparr>)"

definition PostGridRowDelete :: "string \<Rightarrow> string \<Rightarrow> go_value \<Rightarrow> session \<Rightarrow> session outcome" where
  "PostGridRowDelete form ctrl value = post ((inbox_msg_of InboxGridRowDelete)\<lparr>im_form := form, im_ctrl := ctrl, im_raw := value\<rparr>)"

definition PostGridBatchDelete :: "string \<Rightarrow> string \<Rightarrow> go_value \<Rightarrow> session \<Rightarrow> session outcome" where
  "PostGridBatchDelete form ctrl value = post ((inbox_msg_of InboxGridBatchDelete)\<lparr>im_form := form, im_ctrl := ctrl, im_raw := value\<rparr>)"

definition PostLooperRefreshRequest :: "string \<Rightarrow> string \<Rightarrow> session \<Rightarrow> session outcome" where
  "PostLooperRefreshRequest form ctrl = post ((inbox_msg_of InboxLooperRefreshRequest)\<lparr>im_form := form, im_ctrl := ctrl\<rparr>)"

definition PostTreeDataRequest :: "string \<Rightarrow> string \<Rightarrow> session \<Rightarrow> session outcome" where
  "PostTreeDataRequest form ctrl = post ((inbox_msg_of InboxTreeDataRequest)\<lparr>im_form := form, im_ctrl := ctrl\<rparr>)"

definition PostGridFormCancel :: "string \<Rightarrow> string \<Rightarrow> session \<Rightarrow> session outcome" where
  "PostGridFormCancel form ctrl = post ((inbox_msg_of InboxGridFormCancel)\<lparr>im_form := form, im_ctrl := ctrl\<rparr>)"

section \<open>Requests of the script\<close>

text \<open>Each stores the suspended coroutine under a new identifier and asks the page for the answer.\<close>

definition stamp :: "string \<Rightarrow> int \<Rightarrow> string" where
  "stamp prefix now = prefix @ itoa now"

definition register :: "string \<Rightarrow> async_op \<Rightarrow> session \<Rightarrow> session" where
  "register rid op s = record_event (Registered rid (op_co op)) (s\<lparr>asyncOps := AList.update rid op (asyncOps s)\<rparr>)"

definition plain_op :: "nat \<Rightarrow> bool \<Rightarrow> async_op" where
  "plain_op co cancel = \<lparr>op_co = co, op_cancel = cancel, op_conv = None, op_pickMode = []\<rparr>"

definition msgboxKind :: "string \<Rightarrow> string" where
  "msgboxKind kind =
     (if kind = ''warn'' then ''warning'' else if kind = ''error'' then ''danger'' else kind)"

text \<open>The markup of a message box or popup is the argument \<open>html\<close>, given its identifier.\<close>

definition ShowMsgbox ::
  "int \<Rightarrow> nat \<Rightarrow> bool \<Rightarrow> string \<Rightarrow> string \<Rightarrow> (string \<Rightarrow> string) \<Rightarrow> session \<Rightarrow> session" where
  "ShowMsgbox now co cancel optID kind html s =
     (let rid = (if optID = [] then stamp ''msgbox_'' now else optID)
      in SendOutbox (empty_msg\<lparr>Type := ''msgbox'', ID := rid, Kind := msgboxKind kind, HTML := html rid\<rparr>)
           (register rid (plain_op co cancel) s))"

definition ShowPopup :: "int \<Rightarrow> nat \<Rightarrow> bool \<Rightarrow> string \<Rightarrow> (string \<Rightarrow> string) \<Rightarrow> session \<Rightarrow> session" where
  "ShowPopup now co cancel optID html s =
     (let rid = (if optID = [] then stamp ''popup_'' now else optID)
      in SendOutbox (empty_msg\<lparr>Type := ''popup'', ID := rid, HTML := html rid\<rparr>)
           (register rid (plain_op co cancel) s))"

definition RequestClipboardGet :: "int \<Rightarrow> nat \<Rightarrow> bool \<Rightarrow> session \<Rightarrow> session" where
  "RequestClipboardGet now co cancel s =
     SendOutbox (empty_msg\<lparr>Type := ''clipboard_get'', ID := stamp ''clipboard_'' now\<rparr>)
       (register (stamp ''clipboard_'' now) (plain_op co cancel) s)"

definition RequestTabulatorGetData :: "int \<Rightarrow> nat \<Rightarrow> bool \<Rightarrow> string \<Rightarrow> string \<Rightarrow> session \<Rightarrow> session" where
  "RequestTabulatorGetData now co cancel form ctrl s =
     SendOutbox (empty_msg\<lparr>Type := ''tabulator_get_data'', Form := form, Ctrl := ctrl, ID := stamp ''getdata_'' now\<rparr>)
       (register (stamp ''getdata_'' now) (plain_op co cancel) s)"

definition RequestTabulatorGetSelection :: "int \<Rightarrow> nat \<Rightarrow> bool \<Rightarrow> string \<Rightarrow> string \<Rightarrow> session \<Rightarrow> session" where
  "RequestTabulatorGetSelection now co cancel form ctrl s =
     SendOutbox (empty_msg\<lparr>Type := ''tabulator_get_selection'', Form := form, Ctrl := ctrl, ID := stamp ''getsel_'' now\<rparr>)
       (register (stamp ''getsel_'' now) (plain_op co cancel) s)"

definition RequestChartGetImage :: "int \<Rightarrow> nat \<Rightarrow> bool \<Rightarrow> string \<Rightarrow> string \<Rightarrow> session \<Rightarrow> session" where
  "RequestChartGetImage now co cancel form ctrl s =
     SendOutbox (empty_msg\<lparr>Type := ''chart_get_image'', Form := form, Ctrl := ctrl, ID := stamp ''chartimg_'' now\<rparr>)
       (register (stamp ''chartimg_'' now) (plain_op co cancel) s)"

definition RequestSelection :: "int \<Rightarrow> nat \<Rightarrow> bool \<Rightarrow> string \<Rightarrow> string \<Rightarrow> session \<Rightarrow> session" where
  "RequestSelection now co cancel form ctrl s =
     SendOutbox (empty_msg\<lparr>Type := ''get_selection'', Form := form, Ctrl := ctrl, ID := stamp ''sel_'' now\<rparr>)
       (register (stamp ''sel_'' now) (plain_op co cancel) s)"

definition RequestFilePicker :: "int \<Rightarrow> nat \<Rightarrow> bool \<Rightarrow> string \<Rightarrow> bool \<Rightarrow> session \<Rightarrow> session" where
  "RequestFilePicker now co cancel accept multiple s =
     SendOutbox (empty_msg\<lparr>Type := ''pick_file'', ID := stamp ''filepicker_'' now,
                            Accept := accept, Multiple := multiple\<rparr>)
       (register (stamp ''filepicker_'' now) ((plain_op co cancel)\<lparr>op_pickMode := ''open''\<rparr>) s)"

text \<open>\<open>json\<close> is the object of mode, filename and data as \<^verbatim>\<open>json.Marshal\<close> prints it.\<close>

definition RequestFilePickerSave :: "int \<Rightarrow> nat \<Rightarrow> bool \<Rightarrow> string \<Rightarrow> string \<Rightarrow> session \<Rightarrow> session" where
  "RequestFilePickerSave now co cancel mode json s =
     SendOutbox (empty_msg\<lparr>Type := ''pick_file_save'', ID := stamp ''filepicker_'' now, Data := json\<rparr>)
       (register (stamp ''filepicker_'' now) ((plain_op co cancel)\<lparr>op_pickMode := mode\<rparr>) s)"

text \<open>\<^verbatim>\<open>RunAsync\<close> stores the coroutine; its worker goroutine posts the completion later.\<close>

definition RunAsync :: "int \<Rightarrow> nat \<Rightarrow> bool \<Rightarrow> nat option \<Rightarrow> session \<Rightarrow> session" where
  "RunAsync now co cancel conv s =
     register (stamp ''async_'' now) ((plain_op co cancel)\<lparr>op_conv := conv\<rparr>) s"

definition async_completed :: "string \<Rightarrow> string + go_value \<Rightarrow> session \<Rightarrow> session outcome" where
  "async_completed rid r =
     post ((inbox_msg_of InboxAsyncDone)\<lparr>im_data := Some
       (case r of Inl err \<Rightarrow> \<lparr>ad_op = rid, ad_result = GNil, ad_error = Some err\<rparr>
                | Inr v \<Rightarrow> \<lparr>ad_op = rid, ad_result = v, ad_error = None\<rparr>)\<rparr>)"

text \<open>
  \<^verbatim>\<open>RequestExec\<close> puts the Lua arguments into an \<^verbatim>\<open>[]interface{}\<close>, where each keeps its own
  dynamic type: for the conversion back it is a value printed by \<^verbatim>\<open>%v\<close>.
\<close>

definition RequestExec ::
  "(lua_value \<Rightarrow> string) \<Rightarrow> int \<Rightarrow> nat \<Rightarrow> bool \<Rightarrow> nat \<Rightarrow> lua_value list \<Rightarrow> session \<Rightarrow> session outcome" where
  "RequestExec sh now co cancel fn args s =
     (let rid = stamp ''exec_'' now
      in post ((inbox_msg_of InboxExec)\<lparr>im_exec := Some \<lparr>ec_op = rid, ec_fn = fn,
                  ec_args = map (\<lambda>v. GOther (lv_string sh v)) args\<rparr>\<rparr>)
           (register rid (plain_op co cancel) s))"

definition ScheduleSleep :: "int \<Rightarrow> nat \<Rightarrow> session \<Rightarrow> session" where
  "ScheduleSleep now co s =
     record_event (Slept (stamp ''sleep_'' now) co)
       (s\<lparr>sleepOps := AList.update (stamp ''sleep_'' now) co (sleepOps s)\<rparr>)"

definition sleep_over :: "string \<Rightarrow> session \<Rightarrow> session outcome" where
  "sleep_over rid = post ((inbox_msg_of InboxSleepDone)\<lparr>im_respID := rid\<rparr>)"

section \<open>Grid requests\<close>

text \<open>A grid request keeps its coroutine in its own map and posts itself to the actor; an insert's
  payload is a map, whose Lua values are in \<open>im_lua\<close>.\<close>

definition grid_request :: "string \<Rightarrow> inbox_msg \<Rightarrow> nat \<Rightarrow> session \<Rightarrow> session outcome" where
  "grid_request rid m co s =
     post (m\<lparr>im_respID := rid\<rparr>)
       (record_event (GridRegistered rid co) (s\<lparr>gridAsyncOps := AList.update rid co (gridAsyncOps s)\<rparr>))"

definition grid_msg :: "inbox_type \<Rightarrow> string \<Rightarrow> string \<Rightarrow> (string \<times> lua_value) list \<Rightarrow> inbox_msg" where
  "grid_msg t form ctrl vs = (inbox_msg_of t)\<lparr>im_form := form, im_ctrl := ctrl, im_lua := vs\<rparr>"

definition RequestGridGetSelected :: "int \<Rightarrow> nat \<Rightarrow> string \<Rightarrow> string \<Rightarrow> session \<Rightarrow> session outcome" where
  "RequestGridGetSelected now co form ctrl =
     grid_request (stamp ''grid_sel_'' now) (grid_msg InboxGridGetSelected form ctrl []) co"

definition RequestGridGetRow ::
  "int \<Rightarrow> nat \<Rightarrow> string \<Rightarrow> string \<Rightarrow> lua_value \<Rightarrow> session \<Rightarrow> session outcome" where
  "RequestGridGetRow now co form ctrl pk =
     grid_request (stamp ''grid_row_'' now) (grid_msg InboxGridGetRow form ctrl [(''pk'', pk)]) co"

definition RequestGridDeleteRow ::
  "int \<Rightarrow> nat \<Rightarrow> string \<Rightarrow> string \<Rightarrow> lua_value \<Rightarrow> session \<Rightarrow> session outcome" where
  "RequestGridDeleteRow now co form ctrl pk =
     grid_request (stamp ''grid_del_'' now) (grid_msg InboxGridDeleteRow form ctrl [(''pk'', pk)]) co"

definition RequestGridBatchDelete ::
  "int \<Rightarrow> nat \<Rightarrow> string \<Rightarrow> string \<Rightarrow> lua_value list \<Rightarrow> session \<Rightarrow> session outcome" where
  "RequestGridBatchDelete now co form ctrl pks =
     grid_request (stamp ''grid_bdel_'' now) (grid_msg InboxGridBatchDeleteReq form ctrl (map (Pair ''pks'') pks)) co"

definition RequestGridInsertRow ::
  "int \<Rightarrow> nat \<Rightarrow> string \<Rightarrow> string \<Rightarrow> (string \<times> lua_value) list \<Rightarrow> session \<Rightarrow> session outcome" where
  "RequestGridInsertRow now co form ctrl vals =
     grid_request (stamp ''grid_ins_'' now)
       ((grid_msg InboxGridInsertRow form ctrl vals)\<lparr>im_raw := GMap []\<rparr>) co"

definition RequestGridUpdateRow ::
  "int \<Rightarrow> nat \<Rightarrow> string \<Rightarrow> string \<Rightarrow> lua_value \<Rightarrow> (string \<times> lua_value) list \<Rightarrow> session \<Rightarrow> session outcome" where
  "RequestGridUpdateRow now co form ctrl pk vals =
     grid_request (stamp ''grid_upd_'' now) (grid_msg InboxGridUpdateRow form ctrl ((''pk'', pk) # vals)) co"

text \<open>
  The six answers, \<^verbatim>\<open>PostGrid...Resp\<close>: the stored coroutine is dropped from the map, and a
  message of the answer's type is posted when there was one.
\<close>

definition grid_respond :: "inbox_type \<Rightarrow> string \<Rightarrow> go_value \<Rightarrow> session \<Rightarrow> session outcome" where
  "grid_respond t rid payload s =
     (if rid \<in> fst ` set (gridAsyncOps s)
      then post ((inbox_msg_of t)\<lparr>im_respID := rid, im_raw := payload\<rparr>)
             (s\<lparr>gridAsyncOps := AList.delete rid (gridAsyncOps s)\<rparr>)
      else Done s)"

definition ok_error :: "bool \<Rightarrow> string \<Rightarrow> go_value" where
  "ok_error b err = GMap [(''ok'', GBool b), (''error'', GString err)]"

definition PostGridGetSelectedResp :: "string \<Rightarrow> go_value \<Rightarrow> session \<Rightarrow> session outcome" where
  "PostGridGetSelectedResp = grid_respond InboxGridGetSelectedResp"

definition PostGridGetRowResp :: "string \<Rightarrow> go_value \<Rightarrow> session \<Rightarrow> session outcome" where
  "PostGridGetRowResp = grid_respond InboxGridGetRowResp"

definition PostGridDeleteRowResp :: "string \<Rightarrow> bool \<Rightarrow> string \<Rightarrow> session \<Rightarrow> session outcome" where
  "PostGridDeleteRowResp rid b err = grid_respond InboxGridDeleteRowResp rid (ok_error b err)"

definition PostGridBatchDeleteResp :: "string \<Rightarrow> bool \<Rightarrow> string \<Rightarrow> session \<Rightarrow> session outcome" where
  "PostGridBatchDeleteResp rid b err = grid_respond InboxGridBatchDeleteResp rid (ok_error b err)"

definition PostGridInsertRowResp :: "string \<Rightarrow> go_value \<Rightarrow> string \<Rightarrow> session \<Rightarrow> session outcome" where
  "PostGridInsertRowResp rid pk err =
     grid_respond InboxGridInsertRowResp rid (GMap [(''pk'', pk), (''error'', GString err)])"

definition PostGridUpdateRowResp :: "string \<Rightarrow> bool \<Rightarrow> string \<Rightarrow> session \<Rightarrow> session outcome" where
  "PostGridUpdateRowResp rid b err = grid_respond InboxGridUpdateRowResp rid (ok_error b err)"

section \<open>Timers\<close>

definition new_timer :: "stimer \<Rightarrow> session \<Rightarrow> session \<times> nat" where
  "new_timer t s = (s\<lparr>timer_objs := timer_objs s @ [t]\<rparr>, length (timer_objs s))"

definition set_phase :: "nat \<Rightarrow> timer_phase \<Rightarrow> session \<Rightarrow> session" where
  "set_phase p ph s =
     (if p < length (timer_objs s)
      then s\<lparr>timer_objs := (timer_objs s)[p := (timer_objs s ! p)\<lparr>tm_phase := ph\<rparr>]\<rparr> else s)"

text \<open>\<^verbatim>\<open>Timer.Stop\<close> has no effect on a callback that has started.\<close>

definition timer_Stop :: "nat \<Rightarrow> session \<Rightarrow> session" where
  "timer_Stop p s =
     (if p < length (timer_objs s) \<and> tm_phase (timer_objs s ! p) = Armed then set_phase p Idle s else s)"

definition stop_found :: "nat option \<Rightarrow> session \<Rightarrow> session" where
  "stop_found p s = (case p of None \<Rightarrow> s | Some q \<Rightarrow> timer_Stop q s)"

definition StartTimer :: "string \<Rightarrow> int \<Rightarrow> bool \<Rightarrow> session \<Rightarrow> session" where
  "StartTimer tid ms repeats s =
     (let s1 = stop_found (map_of (timers s) tid) s;
          (s2, p) = new_timer \<lparr>tm_msg = (inbox_msg_of InboxTimer)\<lparr>im_timer := tid\<rparr>, tm_ms = ms,
                               tm_repeats = repeats, tm_phase = Armed\<rparr> s1
      in s2\<lparr>timers := AList.update tid p (timers s2)\<rparr>)"

definition StopTimer :: "string \<Rightarrow> session \<Rightarrow> session" where
  "StopTimer tid s =
     (case map_of (timers s) tid of
        None \<Rightarrow> s
      | Some p \<Rightarrow> (timer_Stop p s)\<lparr>timers := AList.delete tid (timers s)\<rparr>)"

text \<open>A timer expires, and its callback posts and then re-arms a repeating timer.\<close>

definition timer_fire :: "nat \<Rightarrow> session \<Rightarrow> session option" where
  "timer_fire p s =
     (if p < length (timer_objs s) \<and> tm_phase (timer_objs s ! p) = Armed
      then Some (set_phase p Firing s) else None)"

definition timer_callback :: "nat \<Rightarrow> session \<Rightarrow> session outcome" where
  "timer_callback p s =
     andThen (post (tm_msg (timer_objs s ! p)) s)
       (\<lambda>s1. Done (set_phase p (if tm_repeats (timer_objs s ! p) then Armed else Idle) s1))"

text \<open>The idle timer of a form runs once, when the form has an \<^verbatim>\<open>on_idle\<close> handler.\<close>

definition idle_delay :: "lua_state \<Rightarrow> nat \<Rightarrow> int" where
  "idle_delay L a = (case RawGetString L a ''idle_ms'' of LNumber n \<Rightarrow> go_int n | _ \<Rightarrow> 1000)"

definition startIdleTimer :: "string \<Rightarrow> session \<Rightarrow> session" where
  "startIdleTimer form s =
     (let s1 = stop_found (map_of (idleTimers s) form) s; L = lua (world s)
      in case form_table L form of
           None \<Rightarrow> s1
         | Some a \<Rightarrow>
             (case handlers_of L form ''@form'' of
                None \<Rightarrow> s1
              | Some h \<Rightarrow>
                  (if RawGetString L h ''on_idle'' = LNil then s1
                   else
                     (let (s2, p) = new_timer
                            \<lparr>tm_msg = (inbox_msg_of InboxFormEvent)\<lparr>im_form := form, im_event := ''on_idle''\<rparr>,
                             tm_ms = idle_delay L a, tm_repeats = False, tm_phase = Armed\<rparr> s1
                      in s2\<lparr>idleTimers := AList.update form p (idleTimers s2)\<rparr>))))"

definition stopIdleTimer :: "string \<Rightarrow> session \<Rightarrow> session" where
  "stopIdleTimer form s =
     (case map_of (idleTimers s) form of
        None \<Rightarrow> s
      | Some p \<Rightarrow> (timer_Stop p s)\<lparr>idleTimers := AList.delete form (idleTimers s)\<rparr>)"

section \<open>The form stack\<close>

definition PushForm :: "string \<Rightarrow> session \<Rightarrow> session" where
  "PushForm name s = startIdleTimer name (s\<lparr>formStack := formStack s @ [name]\<rparr>)"

definition PopForm :: "session \<Rightarrow> session \<times> string" where
  "PopForm s =
     (if formStack s = [] then (s, [])
      else
        (let name = last (formStack s);
             s1 = stopIdleTimer name (s\<lparr>formStack := butlast (formStack s)\<rparr>)
         in (if formStack s1 \<noteq> [] then startIdleTimer (last (formStack s1)) s1 else s1, name)))"

definition TopForm :: "session \<Rightarrow> string" where
  "TopForm s = (if formStack s = [] then [] else last (formStack s))"

definition StoreFormCoro :: "string \<Rightarrow> nat \<Rightarrow> session \<Rightarrow> session" where
  "StoreFormCoro name co s =
     record_event (FormStored name co) (s\<lparr>formCoros := AList.update name co (formCoros s)\<rparr>)"

section \<open>Client information, closing\<close>

definition SetClientInfo :: "int \<Rightarrow> int \<Rightarrow> string \<Rightarrow> session \<Rightarrow> session" where
  "SetClientInfo w h locale s =
     s\<lparr>clientW := w, clientH := h, clientLocale := (if locale \<noteq> [] then locale else clientLocale s)\<rparr>"

definition ClientInfo :: "session \<Rightarrow> int \<times> int \<times> string" where
  "ClientInfo s = (clientW s, clientH s, clientLocale s)"

text \<open>Closing stops the named timers, not the idle timers; a second close panics.\<close>

definition Close :: "session \<Rightarrow> session outcome" where
  "Close s =
     (if ended s then Panicked
      else Done ((fold timer_Stop (map snd (timers s)) s)\<lparr>ended := True\<rparr>))"

fun teardown_loop :: "nat \<Rightarrow> session \<Rightarrow> session outcome" where
  "teardown_loop 0 s = Done s"
| "teardown_loop (Suc n) s =
     (let (s1, name) = PopForm s
      in andThen (PostFormEvent name ''close_form'' s1) (teardown_loop n))"

definition teardown :: "session \<Rightarrow> session outcome" where
  "teardown s =
     andThen (teardown_loop (length (formStack s)) s)
       (\<lambda>s1. Done (if ended s1 then s1 else send_blocking (empty_msg\<lparr>Type := ''quit''\<rparr>) s1))"

end
