(* ===== verification/Session_Actor.thy ===== *)
theory Session_Actor
  imports Session_State Login_Check
begin

text \<open>
  The handlers of the per-tab actor, \<^verbatim>\<open>internal/session/session.go\<close>. The Lua engine and
  the database are the fields of an \<open>engine\<close>. A turn of the engine, one resume of a coroutine,
  is the list of what the script did to the session and to the interpreter, in order, ended by
  the result; a form coroutine resumed from inside a turn has its own turn nested in it.
\<close>

section \<open>Turns of the engine\<close>

datatype resume_target = Fresh nat | Suspended nat

datatype act =
    SetWorld script_world
  | Send outbox_msg
  | CallMsgbox int nat bool string string "string \<Rightarrow> string"
  | CallPopup int nat bool string "string \<Rightarrow> string"
  | CallClipboard int nat bool
  | CallTableData int nat bool string string
  | CallTableSelection int nat bool string string
  | CallChartImage int nat bool string string
  | CallSelection int nat bool string string
  | CallPickFile int nat bool string bool
  | CallPickSave int nat bool string string
  | CallAsync int nat bool "nat option"
  | CallExec int nat bool nat "lua_value list"
  | CallSleep int nat
  | CallGridSelected int nat string string
  | CallGridRow int nat string string lua_value
  | CallGridDelete int nat string string lua_value
  | CallGridBatch int nat string string "lua_value list"
  | CallGridInsert int nat string string "(string \<times> lua_value) list"
  | CallGridUpdate int nat string string lua_value "(string \<times> lua_value) list"
  | CallStartTimer string int bool
  | CallStopTimer string
  | CallPostEvent string string string lua_value
  | CallPostFormEvent string string
  | CallPushForm string
  | CallPopForm
  | CallStoreFormCoro string nat
  | CallResumeForm string turn
  | ToolStarted nat nat
and turn = Turn resume_result "act list"

record engine =
  eng_turn :: "resume_target \<Rightarrow> lua_value option list \<Rightarrow> session \<Rightarrow> turn"
  eng_pcall :: "nat \<Rightarrow> lua_value list \<Rightarrow> session \<Rightarrow> lua_value list option \<times> act list"
  eng_hook :: "nat \<Rightarrow> lua_value list \<Rightarrow> script_world \<Rightarrow> script_world"
  eng_show :: "lua_value \<Rightarrow> string"
  eng_show_go :: "go_value \<Rightarrow> string"
  eng_parse :: "string \<Rightarrow> go_float option"
  eng_stack :: "script_world \<Rightarrow> string"
  eng_set_nil :: "nat \<Rightarrow> string \<Rightarrow> lua_state \<Rightarrow> lua_state"
  eng_conv :: "nat \<Rightarrow> go_value \<Rightarrow> lua_state \<Rightarrow> lua_state \<times> lua_value"
  eng_depth :: nat
  eng_json :: "string \<Rightarrow> go_value option"
  eng_lower :: "string \<Rightarrow> string"
  eng_pbkdf2 :: "string \<Rightarrow> string \<Rightarrow> int \<Rightarrow> int \<Rightarrow> string"
  eng_sha256 :: "string \<Rightarrow> string"
  eng_db :: "string \<Rightarrow> db_handle option"
  eng_render :: "lua_state \<Rightarrow> nat \<Rightarrow> string"
  eng_grid_link :: "lua_state \<Rightarrow> nat \<Rightarrow> string + string \<times> string \<times> string"
  eng_grid_write :: "inbox_type \<Rightarrow> string \<times> string \<times> string \<Rightarrow> inbox_msg \<Rightarrow> string option"
  eng_grid_row :: "string \<times> string \<times> string \<Rightarrow> inbox_msg \<Rightarrow> go_value"
  eng_page :: "inbox_msg \<Rightarrow> session \<Rightarrow> act list"

definition set_lua :: "lua_state \<Rightarrow> session \<Rightarrow> session" where
  "set_lua L s = s\<lparr>world := (world s)\<lparr>lua := L\<rparr>\<rparr>"

definition notifyError :: "engine \<Rightarrow> string \<Rightarrow> session \<Rightarrow> session" where
  "notifyError e err s = s\<lparr>world := fireError (eng_hook e) KErrorGeneric err (world s)\<rparr>"

text \<open>Taking the coroutine of a shown form out of the map.\<close>

definition take_form_coro :: "string \<Rightarrow> session \<Rightarrow> nat \<Rightarrow> session" where
  "take_form_coro name s co =
     record_event (FormResumed name co) (s\<lparr>formCoros := AList.delete name (formCoros s)\<rparr>)"

definition form_resumed :: "engine \<Rightarrow> resume_result \<times> session \<Rightarrow> bool \<times> session" where
  "form_resumed e rs =
     (case fst rs of
        ResumeError err \<Rightarrow> (False, notifyError e err (snd rs))
      | _ \<Rightarrow> (True, (snd rs)\<lparr>suspendedForm := []\<rparr>))"

fun perform :: "engine \<Rightarrow> act \<Rightarrow> session \<Rightarrow> session outcome"
and perform_all :: "engine \<Rightarrow> act list \<Rightarrow> session \<Rightarrow> session outcome"
and run_turn :: "engine \<Rightarrow> turn \<Rightarrow> session \<Rightarrow> (resume_result \<times> session) outcome" where
  "perform e (SetWorld w) s = Done (s\<lparr>world := w\<rparr>)"
| "perform e (Send m) s = Done (SendOutbox m s)"
| "perform e (CallMsgbox now co cn optID kind html) s = Done (ShowMsgbox now co cn optID kind html s)"
| "perform e (CallPopup now co cn optID html) s = Done (ShowPopup now co cn optID html s)"
| "perform e (CallClipboard now co cn) s = Done (RequestClipboardGet now co cn s)"
| "perform e (CallTableData now co cn f c) s = Done (RequestTabulatorGetData now co cn f c s)"
| "perform e (CallTableSelection now co cn f c) s = Done (RequestTabulatorGetSelection now co cn f c s)"
| "perform e (CallChartImage now co cn f c) s = Done (RequestChartGetImage now co cn f c s)"
| "perform e (CallSelection now co cn f c) s = Done (RequestSelection now co cn f c s)"
| "perform e (CallPickFile now co cn acc mult) s = Done (RequestFilePicker now co cn acc mult s)"
| "perform e (CallPickSave now co cn mode json) s = Done (RequestFilePickerSave now co cn mode json s)"
| "perform e (CallAsync now co cn conv) s = Done (RunAsync now co cn conv s)"
| "perform e (CallExec now co cn fn args) s = RequestExec (eng_show e) now co cn fn args s"
| "perform e (CallSleep now co) s = Done (ScheduleSleep now co s)"
| "perform e (CallGridSelected now co f c) s = RequestGridGetSelected now co f c s"
| "perform e (CallGridRow now co f c pk) s = RequestGridGetRow now co f c pk s"
| "perform e (CallGridDelete now co f c pk) s = RequestGridDeleteRow now co f c pk s"
| "perform e (CallGridBatch now co f c pks) s = RequestGridBatchDelete now co f c pks s"
| "perform e (CallGridInsert now co f c vals) s = RequestGridInsertRow now co f c vals s"
| "perform e (CallGridUpdate now co f c pk vals) s = RequestGridUpdateRow now co f c pk vals s"
| "perform e (CallStartTimer tid ms again) s = Done (StartTimer tid ms again s)"
| "perform e (CallStopTimer tid) s = Done (StopTimer tid s)"
| "perform e (CallPostEvent f c ev v) s = PostEvent f c ev (Some v) s"
| "perform e (CallPostFormEvent f ev) s = PostFormEvent f ev s"
| "perform e (CallPushForm name) s = Done (PushForm name s)"
| "perform e CallPopForm s = Done (fst (PopForm s))"
| "perform e (CallStoreFormCoro name co) s = Done (StoreFormCoro name co s)"
| "perform e (CallResumeForm name t) s =
     (case map_of (formCoros s) name of
        None \<Rightarrow> Done s
      | Some co \<Rightarrow> andThen (run_turn e t (take_form_coro name s co)) (\<lambda>rs. Done (snd (form_resumed e rs))))"
| "perform e (ToolStarted co chan) s = Done (s\<lparr>pendingToolCalls := AList.update co chan (pendingToolCalls s)\<rparr>)"
| "perform_all e [] s = Done s"
| "perform_all e (a # as) s = andThen (perform e a s) (perform_all e as)"
| "run_turn e (Turn r as) s = andThen (perform_all e as s) (\<lambda>s1. Done (r, s1))"

definition resume :: "engine \<Rightarrow> resume_target \<Rightarrow> lua_value option list \<Rightarrow> session \<Rightarrow> (resume_result \<times> session) outcome" where
  "resume e target args s = run_turn e (eng_turn e target args s) s"

definition ResumeFormCoroWith :: "engine \<Rightarrow> string \<Rightarrow> lua_value \<Rightarrow> session \<Rightarrow> (bool \<times> session) outcome" where
  "ResumeFormCoroWith e name v s =
     (case map_of (formCoros s) name of
        None \<Rightarrow> Done (False, s)
      | Some co \<Rightarrow>
          andThen (resume e (Suspended co) [Some v] (take_form_coro name s co)) (\<lambda>rs. Done (form_resumed e rs)))"

definition ResumeFormCoro :: "engine \<Rightarrow> string \<Rightarrow> session \<Rightarrow> (bool \<times> session) outcome" where
  "ResumeFormCoro e name = ResumeFormCoroWith e name LNil"

section \<open>Running handlers\<close>

definition to_lua :: "engine \<Rightarrow> go_value \<Rightarrow> session \<Rightarrow> session \<times> lua_value" where
  "to_lua e g s = (let (L, v) = toLuaValue (eng_parse e) (eng_show_go e) g (lua (world s)) in (set_lua L s, v))"

definition handler_error :: "engine \<Rightarrow> string \<Rightarrow> session \<Rightarrow> session" where
  "handler_error e err s =
     (let s1 = notifyError e err s in send_blocking (error_out err (eng_stack e (world s1))) s1)"

definition runFormHandler ::
  "engine \<Rightarrow> string \<Rightarrow> string \<Rightarrow> string \<Rightarrow> lua_value option list \<Rightarrow> session \<Rightarrow> (bool \<times> session) outcome" where
  "runFormHandler e form key event args s =
     (case form_handler (lua (world s)) form key event of
        None \<Rightarrow> Done (False, s)
      | Some fn \<Rightarrow>
          andThen (resume e (Fresh fn) args s)
            (\<lambda>(r, s1). Done (True, case r of ResumeError err \<Rightarrow> handler_error e err s1 | _ \<Rightarrow> s1)))"

definition runOptFunction :: "engine \<Rightarrow> nat \<Rightarrow> lua_value option list \<Rightarrow> session \<Rightarrow> session outcome" where
  "runOptFunction e fn args s =
     andThen (resume e (Fresh fn) args s)
       (\<lambda>(r, s1). Done (case r of ResumeError err \<Rightarrow> handler_error e err s1 | _ \<Rightarrow> s1))"

definition runFormHandlerSync ::
  "engine \<Rightarrow> string \<Rightarrow> string \<Rightarrow> string \<Rightarrow> lua_value list \<Rightarrow> session \<Rightarrow> (lua_value list option \<times> session) outcome" where
  "runFormHandlerSync e form key event args s =
     (case form_handler (lua (world s)) form key event of
        None \<Rightarrow> Done (None, s)
      | Some fn \<Rightarrow>
          (let (rets, as) = eng_pcall e fn args s
           in andThen (perform_all e as s) (\<lambda>s1. Done (rets, s1))))"

text \<open>First the control's own handler, then the form's.\<close>

definition dispatch ::
  "engine \<Rightarrow> inbox_msg \<Rightarrow> lua_value option list \<Rightarrow> lua_value option list \<Rightarrow> session \<Rightarrow> session outcome" where
  "dispatch e m args fallback s =
     andThen (runFormHandler e (im_form m) (im_ctrl m) (im_event m) args s)
       (\<lambda>(ran, s1). if ran then Done s1
          else andThen (runFormHandler e (im_form m) ''@form'' (im_event m) fallback s1) (\<lambda>(_, s2). Done s2))"

section \<open>Login\<close>

definition handleLoginError :: "engine \<Rightarrow> string \<Rightarrow> string \<Rightarrow> nat \<Rightarrow> string \<Rightarrow> session \<Rightarrow> session outcome" where
  "handleLoginError e form ctrl a dflt s =
     (let L = lua (world s);
          attempt = wrap64 (int_option (eng_parse e) L a ''attempt'' 0 + 1);
          maxAttempts = int_option (eng_parse e) L a ''attempts'' 3;
          msg = text_option (eng_show e) L a ''error_message'' dflt;
          loginVal = RawGetString L a ''login_value'';
          login = (if loginVal \<noteq> LNil then lv_string (eng_show e) loginVal else []);
          exhausted = maxAttempts \<le> attempt;
          L1 = RawSetString a ''password_value'' (LString [])
                 (RawSetString a ''login_value'' (LString login)
                   (RawSetString a ''error'' (LString msg)
                     (RawSetString a ''attempt'' (LNumber (float_of_int attempt)) L)));
          L2 = (if exhausted then RawSetString a ''attempt'' (LNumber (float_of_int 0)) L1 else L1);
          left = (if exhausted then 0 else wrap64 (maxAttempts - attempt));
          s1 = SendOutbox (empty_msg\<lparr>Type := ''update_control'', Form := form, Ctrl := ctrl,
                 Selector := ctrl_selector form ctrl, HTML := eng_render e L2 a\<rparr>) (set_lua L2 s)
      in andThen (runFormHandler e form ctrl ''on_login_error''
                    [Some (LString msg), Some (LNumber (float_of_int left))] s1)
           (\<lambda>(_, s2). Done s2))"

definition login_accepted :: "engine \<Rightarrow> string \<Rightarrow> string \<Rightarrow> nat \<Rightarrow> db_row \<Rightarrow> session \<Rightarrow> session outcome" where
  "login_accepted e form ctrl a row s =
     (let L1 = RawSetString a ''password_value'' (LString [])
                 (RawSetString a ''login_value'' (LString [])
                   (RawSetString a ''attempt'' (LNumber (float_of_int 0))
                     (RawSetString a ''error'' (LString []) (lua (world s)))));
          (L2, u) = LoginUserFromRow (eng_show_go e) row L1;
          L3 = RawSetString a ''user'' (LTable u) L2
      in andThen (runFormHandler e form ctrl ''on_login'' [Some (LTable u)] (set_lua L3 s)) (\<lambda>(_, s1). Done s1))"

definition verified_login :: "engine \<Rightarrow> lua_state \<Rightarrow> nat \<Rightarrow> db_row option \<Rightarrow> string \<Rightarrow> bool" where
  "verified_login e L a found password =
     (case found of
        None \<Rightarrow> False
      | Some row \<Rightarrow> VerifyLoginPassword (eng_lower e) (eng_parse e) (eng_show e) (eng_pbkdf2 e) (eng_sha256 e) L a row password)"

definition handleLoginSubmit :: "engine \<Rightarrow> string \<Rightarrow> string \<Rightarrow> string \<Rightarrow> string \<Rightarrow> session \<Rightarrow> session outcome" where
  "handleLoginSubmit e form ctrl login password s =
     andThen (runFormHandlerSync e form ctrl ''on_login_submit'' [LString login, LString password] s)
       (\<lambda>(_, s1).
          let L = lua (world s1) in
          case getControl L form ctrl of
            None \<Rightarrow> Done s1
          | Some a \<Rightarrow>
              (case LookupLoginUser (eng_lower e) (eng_parse e) (eng_show e) (eng_db e) L a login of
                 Inl err \<Rightarrow> handleLoginError e form ctrl a ''Login error'' s1
               | Inr found \<Rightarrow>
                   (if verified_login e L a found password
                    then login_accepted e form ctrl a (case found of None \<Rightarrow> [] | Some row \<Rightarrow> row) s1
                    else handleLoginError e form ctrl a ''Invalid login or password'' s1)))"

section \<open>Browser events\<close>

definition event_value :: "engine \<Rightarrow> inbox_msg \<Rightarrow> session \<Rightarrow> session \<times> lua_value option" where
  "event_value e m s =
     (if im_raw m = GNil then (s, im_value m)
      else (let (s1, v) = to_lua e (im_raw m) s in (s1, Some v)))"

definition has_field :: "lua_state \<Rightarrow> lua_value option \<Rightarrow> string \<Rightarrow> bool" where
  "has_field L v k = (case v of Some (LTable t) \<Rightarrow> RawGetString L t k \<noteq> LNil | _ \<Rightarrow> False)"

definition aiChatDispatch :: "lua_state \<Rightarrow> inbox_msg \<Rightarrow> bool" where
  "aiChatDispatch L m \<longleftrightarrow>
     im_event m \<in> {''ai_chat_send'', ''ai_chat_close''} \<and>
     (case form_table L (im_form m) of None \<Rightarrow> False | Some a \<Rightarrow> RawGetString L a ''ai_transcript'' \<noteq> LNil)"

text \<open>Which kind of control the event belongs to; several may hold, the order below decides.\<close>

record ws_flags =
  fl_looper :: bool
  fl_chart :: bool
  fl_login :: bool
  fl_tree :: bool
  fl_tab :: bool
  fl_layout :: bool
  fl_ai :: bool
  fl_ai_control :: bool

definition ws_flags_of :: "(lua_value \<Rightarrow> string) \<Rightarrow> lua_state \<Rightarrow> inbox_msg \<Rightarrow> lua_value option \<Rightarrow> ws_flags" where
  "ws_flags_of sh L m v =
     (let ev = im_event m; f = im_form m; c = im_ctrl m in
      \<lparr>fl_looper = ev \<in> {''onselect'', ''onclick''} \<and> isLooperControl sh L f c \<and> has_field L v ''line_idx'',
       fl_chart = ev \<in> {''chart_click'', ''chart_hover'', ''chart_legend_click''} \<and> isChartControl sh L f c
                  \<and> has_field L v ''dataset_index'',
       fl_login = ev \<in> {''on_login_submit'', ''on_login_cancel''} \<and> isLoginControl sh L f c,
       fl_tree = ev \<in> {''on_click'', ''on_select'', ''on_expand''} \<and> isTreeControl sh L f c
                 \<and> (has_field L v ''node'' \<or> has_field L v ''node_id''),
       fl_tab = ev = ''onchange'' \<and> isTabControl sh L f c \<and> has_field L v ''index'',
       fl_layout = (ev = ''logout'' \<and> isTopbarControl sh L f c) \<or> (ev = ''sidebar_select'' \<and> isSidebarControl sh L f c),
       fl_ai = ev \<in> {''ai_chat_send'', ''ai_chat_close''} \<and> aiChatDispatch L m,
       fl_ai_control = ev \<in> {''ai_chat_send'', ''ai_chat_stop''} \<and> c \<noteq> [] \<and> isAIChatControl sh L f c\<rparr>)"

definition is_control_value :: "ws_flags \<Rightarrow> bool" where
  "is_control_value fl \<longleftrightarrow> \<not> (fl_looper fl \<or> fl_chart fl \<or> fl_login fl \<or> fl_tree fl \<or> fl_tab fl
     \<or> fl_layout fl \<or> fl_ai fl \<or> fl_ai_control fl)"

text \<open>The assertion \<^verbatim>\<open>value.(*lua.LTable)\<close>.\<close>

definition with_table :: "lua_value option \<Rightarrow> (nat \<Rightarrow> session outcome) \<Rightarrow> session outcome" where
  "with_table v f = (case v of Some (LTable t) \<Rightarrow> f t | _ \<Rightarrow> Panicked)"

definition tab_event :: "engine \<Rightarrow> inbox_msg \<Rightarrow> lua_value option \<Rightarrow> nat \<Rightarrow> session \<Rightarrow> session outcome" where
  "tab_event e m v t s =
     (let L = lua (world s);
          newIdx = go_int (LVAsNumber (eng_parse e) (RawGetString L t ''index''));
          (oldIdx, s1) = (case controlTable L (im_form m) (im_ctrl m) of
              None \<Rightarrow> (1, s)
            | Some a \<Rightarrow> (int_option (eng_parse e) L a ''current_tab'' 1,
                         set_lua (RawSetString a ''current_tab'' (LNumber (float_of_int newIdx)) L) s))
      in dispatch e m [Some (LNumber (float_of_int newIdx)), Some (LNumber (float_of_int oldIdx))] [v] s1)"

definition tree_select :: "engine \<Rightarrow> inbox_msg \<Rightarrow> lua_value option \<Rightarrow> nat \<Rightarrow> session \<Rightarrow> session outcome" where
  "tree_select e m v t s =
     (let L = lua (world s);
          node = RawGetString L t ''node'';
          s1 = (if node \<noteq> LNil
                then (case controlTable L (im_form m) (im_ctrl m) of
                        None \<Rightarrow> s
                      | Some a \<Rightarrow> set_lua (RawSetString a ''value'' node L) s)
                else s)
      in dispatch e m [Some node] [v] s1)"

definition sidebar_select :: "engine \<Rightarrow> inbox_msg \<Rightarrow> lua_value option \<Rightarrow> nat \<Rightarrow> session \<Rightarrow> session outcome" where
  "sidebar_select e m v t s =
     (let L = lua (world s); item = RawGetString L t ''item'';
          ran = (case controlTable L (im_form m) (im_ctrl m) of
                   None \<Rightarrow> Done s
                 | Some a \<Rightarrow> (case RawGetString L a ''on_select'' of
                                LFunction fn \<Rightarrow> runOptFunction e fn [Some item] s
                              | _ \<Rightarrow> Done s))
      in andThen ran (\<lambda>s1. let L1 = lua (world s1) in
           dispatch e m [Some (RawGetString L1 t ''action''), Some item, Some (RawGetString L1 t ''index'')] [v] s1))"

definition handleAIChatClose :: "engine \<Rightarrow> string \<Rightarrow> session \<Rightarrow> session outcome" where
  "handleAIChatClose e form s =
     (case form_table (lua (world s)) form of
        None \<Rightarrow> Done s
      | Some f \<Rightarrow>
          (let (s1, t) = (case RawGetString (lua (world s)) f ''ai_transcript'' of
                  LTable a \<Rightarrow> (s, a)
                | _ \<Rightarrow> (let (L1, a) = NewTable (lua (world s)) in (set_lua L1 s, a)))
           in andThen (ResumeFormCoroWith e form (LTable t) s1) (\<lambda>(_, s2). Done s2)))"

definition ws_switch :: "engine \<Rightarrow> ws_flags \<Rightarrow> inbox_msg \<Rightarrow> lua_value option \<Rightarrow> session \<Rightarrow> session outcome" where
  "ws_switch e fl m v s =
     (let L = lua (world s); ev = im_event m; get = (\<lambda>t k. Some (RawGetString L t k)) in
      if fl_looper fl \<and> ev = ''onselect'' then
        with_table v (\<lambda>t. dispatch e m [get t ''line_idx''] [v] s)
      else if fl_looper fl \<and> ev = ''onclick'' then
        with_table v (\<lambda>t.
          let c = RawGetString L t ''ctrl_name''
          in dispatch e m [Some (if c = LNil then LString [] else c), get t ''line_idx''] [v] s)
      else if fl_chart fl \<and> ev = ''chart_legend_click'' then
        with_table v (\<lambda>t. dispatch e m [get t ''dataset_index''] [v] s)
      else if fl_chart fl then
        with_table v (\<lambda>t. dispatch e m [get t ''dataset_index'', get t ''index'', get t ''value''] [v] s)
      else if fl_tab fl then with_table v (\<lambda>t. tab_event e m v t s)
      else if fl_login fl \<and> ev = ''on_login_submit'' then
        with_table v (\<lambda>t. handleLoginSubmit e (im_form m) (im_ctrl m)
          (lv_string (eng_show e) (RawGetString L t ''login''))
          (lv_string (eng_show e) (RawGetString L t ''password'')) s)
      else if fl_login fl \<and> ev = ''on_login_cancel'' then dispatch e m [] [] s
      else if fl_tree fl \<and> ev = ''on_expand'' then
        with_table v (\<lambda>t. dispatch e m [get t ''node_id'', get t ''expanded''] [v] s)
      else if fl_tree fl \<and> ev = ''on_select'' then with_table v (\<lambda>t. tree_select e m v t s)
      else if fl_tree fl then with_table v (\<lambda>t. dispatch e m [get t ''node''] [v] s)
      else if fl_layout fl \<and> ev = ''logout'' then dispatch e m [] [v] s
      else if fl_layout fl \<and> ev = ''sidebar_select'' then with_table v (\<lambda>t. sidebar_select e m v t s)
      else if fl_ai fl \<and> ev = ''ai_chat_send'' then with_table v (\<lambda>t. perform_all e (eng_page e m s) s)
      else if fl_ai fl \<and> ev = ''ai_chat_close'' then handleAIChatClose e (im_form m) s
      else if fl_ai_control fl \<and> ev = ''ai_chat_send'' then with_table v (\<lambda>t. perform_all e (eng_page e m s) s)
      else if fl_ai_control fl \<and> ev = ''ai_chat_stop'' then perform_all e (eng_page e m s) s
      else dispatch e m [v] [v] s)"

definition handleWSEvent :: "engine \<Rightarrow> inbox_msg \<Rightarrow> session \<Rightarrow> session outcome" where
  "handleWSEvent e m s =
     (let (s1, v) = event_value e m s;
          fl = ws_flags_of (eng_show e) (lua (world s1)) m v;
          s2 = (if is_control_value fl \<and> v \<noteq> Some LNil
                then set_lua (updateControlValue (eng_set_nil e) (eng_show e) (im_form m) (im_ctrl m) v
                                (lua (world s1))) s1
                else s1)
      in ws_switch e fl m v s2)"

end
