(* ===== verification/Session_Inbox.thy ===== *)
theory Session_Inbox
  imports Session_Actor
begin

text \<open>
  The rest of the actor of \<^verbatim>\<open>internal/session/session.go\<close>: form events, timers, the resumption
  of suspended coroutines with the answers of the page, the grid requests, and
  \<^verbatim>\<open>handleInbox\<close>, which takes one message. The handlers of table and looper paging, of the
  grid's modal forms, of tree data, of queries and of the AI chat are not modelled: what they do
  to the session is the field \<open>eng_page\<close> of the engine, a list of the same acts a script has.
\<close>

section \<open>Form events, timers and executed functions\<close>

text \<open>\<^verbatim>\<open>cancelAIChatTurns\<close>, which \<^verbatim>\<open>close_form\<close> runs first, cancels the workers of the form's chats.\<close>

definition handleFormEvent :: "engine \<Rightarrow> string \<Rightarrow> string \<Rightarrow> session \<Rightarrow> session outcome" where
  "handleFormEvent e form event s =
     andThen (runFormHandler e form ''@form'' event [Some (LString event)] s) (\<lambda>(_, s1). Done s1)"

definition runTimerHandler :: "engine \<Rightarrow> nat \<Rightarrow> lua_value \<Rightarrow> session \<Rightarrow> session outcome" where
  "runTimerHandler e fn v s =
     andThen (resume e (Fresh fn) [Some v] s)
       (\<lambda>(r, s1). Done (case r of
            ResumeError err \<Rightarrow>
              (let s2 = notifyError e err s1 in SendOutbox (error_out err (eng_stack e (world s2))) s2)
          | _ \<Rightarrow> s1))"

definition timer_event :: "string \<Rightarrow> inbox_msg" where
  "timer_event tid = (inbox_msg_of InboxWSEvent)\<lparr>im_form := ''timer'', im_event := ''timer('' @ tid @ '')'',
     im_value := Some (LString tid)\<rparr>"

definition handleTimer :: "engine \<Rightarrow> string \<Rightarrow> session \<Rightarrow> session outcome" where
  "handleTimer e tid s =
     (case GetGlobal (lua (world s)) tid of
        LFunction fn \<Rightarrow> runTimerHandler e fn (LString tid) s
      | _ \<Rightarrow> handleWSEvent e (timer_event tid) s)"

section \<open>Resuming with an answer\<close>

text \<open>
  The answers share one shape: take the operation out of the map, build the value, resume. A
  coroutine that suspends again has its cancel function called.
\<close>

definition take_op :: "string \<Rightarrow> async_op \<Rightarrow> session \<Rightarrow> session" where
  "take_op rid op s =
     record_event (Resumed rid (op_co op)) (s\<lparr>asyncOps := AList.delete rid (asyncOps s)\<rparr>)"

definition after_resume :: "engine \<Rightarrow> async_op \<Rightarrow> resume_result \<times> session \<Rightarrow> session" where
  "after_resume e op rs =
     (case fst rs of
        ResumeError err \<Rightarrow> notifyError e err (snd rs)
      | ResumeYield \<Rightarrow> (if op_cancel op then record_event (Cancelled (op_co op)) (snd rs) else snd rs)
      | ResumeOK _ \<Rightarrow> snd rs)"

definition resume_op ::
  "engine \<Rightarrow> string \<Rightarrow> (lua_state \<Rightarrow> lua_state \<times> lua_value) \<Rightarrow> session \<Rightarrow> session outcome" where
  "resume_op e rid mk s =
     (case map_of (asyncOps s) rid of
        None \<Rightarrow> Done s
      | Some op \<Rightarrow>
          (let s1 = take_op rid op s;
               (L, v) = mk (lua (world s1))
           in andThen (resume e (Suspended (op_co op)) [Some v] (set_lua L s1))
                (\<lambda>rs. Done (after_resume e op rs))))"

definition resumeAsyncResp :: "engine \<Rightarrow> string \<Rightarrow> lua_value \<Rightarrow> session \<Rightarrow> session outcome" where
  "resumeAsyncResp e rid v = resume_op e rid (\<lambda>L. (L, v))"

definition text_or_nil :: "string \<Rightarrow> lua_value" where
  "text_or_nil s = (if s = [] then LNil else LString s)"

definition resumeChartImageResp :: "engine \<Rightarrow> string \<Rightarrow> string \<Rightarrow> session \<Rightarrow> session outcome" where
  "resumeChartImageResp e rid dataURL = resume_op e rid (\<lambda>L. (L, text_or_nil dataURL))"

definition string_field :: "(string \<times> go_value) list \<Rightarrow> string \<Rightarrow> string" where
  "string_field kvs k = (case map_of kvs k of Some (GString s) \<Rightarrow> s | _ \<Rightarrow> [])"

definition float_field :: "(string \<times> go_value) list \<Rightarrow> string \<Rightarrow> go_float" where
  "float_field kvs k = (case map_of kvs k of Some (GFloat f) \<Rightarrow> f | _ \<Rightarrow> float_zero)"

fun file_table :: "go_value \<Rightarrow> lua_state \<Rightarrow> lua_state \<times> nat" where
  "file_table f L =
     (let kvs = (case f of GMap kvs \<Rightarrow> kvs | _ \<Rightarrow> []); (L1, a) = NewTable L
      in (RawSetString a ''data'' (LString (string_field kvs ''data''))
           (RawSetString a ''type'' (LString (string_field kvs ''type''))
             (RawSetString a ''size'' (LNumber (float_field kvs ''size''))
               (RawSetString a ''name'' (LString (string_field kvs ''name'')) L1))), a))"

fun file_list :: "nat \<Rightarrow> nat \<Rightarrow> go_value list \<Rightarrow> lua_state \<Rightarrow> lua_state" where
  "file_list t i [] L = L"
| "file_list t i (f # fs) L =
     (let (L1, a) = file_table f L in file_list t (Suc i) fs (RawSetInt t i (LTable a) L1))"

text \<open>
  \<^verbatim>\<open>json.Unmarshal\<close> into a list of objects accepts a list of objects and nulls; anything else
  is an error, which gives an empty table.
\<close>

fun is_object :: "go_value \<Rightarrow> bool" where
  "is_object (GMap kvs) = True"
| "is_object GNil = True"
| "is_object v = False"

definition parseFilePickerJSON :: "engine \<Rightarrow> string \<Rightarrow> lua_state \<Rightarrow> lua_state \<times> lua_value" where
  "parseFilePickerJSON e text L =
     (if text = [] \<or> text = ''null'' then (L, LNil)
      else
        (let (L1, t) = NewTable L
         in case eng_json e text of
              Some (GList fs) \<Rightarrow> (if list_all is_object fs then (file_list t 1 fs L1, LTable t) else (L1, LTable t))
            | _ \<Rightarrow> (L1, LTable t)))"

definition resumeFilePickerResp :: "engine \<Rightarrow> string \<Rightarrow> string \<Rightarrow> session \<Rightarrow> session outcome" where
  "resumeFilePickerResp e rid text = resume_op e rid (parseFilePickerJSON e text)"

definition save_result :: "engine \<Rightarrow> string \<Rightarrow> lua_state \<Rightarrow> lua_state \<times> lua_value" where
  "save_result e text L =
     (case (if text = [] then None else eng_json e text) of
        Some v \<Rightarrow>
          (if is_object v then
             (let kvs = (case v of GMap kvs \<Rightarrow> kvs | _ \<Rightarrow> []); (L1, a) = NewTable L;
                  put = (\<lambda>k L. case map_of kvs k of Some (GString s) \<Rightarrow> RawSetString a k (LString s) L | _ \<Rightarrow> L)
              in (put ''name'' (put ''path'' L1), LTable a))
           else (L, LNil))
      | None \<Rightarrow> (L, LNil))"

definition resumeFilePickerSaveResp :: "engine \<Rightarrow> string \<Rightarrow> string \<Rightarrow> session \<Rightarrow> session outcome" where
  "resumeFilePickerSaveResp e rid text = resume_op e rid (save_result e text)"

definition resumeTabulatorDataResp :: "engine \<Rightarrow> string \<Rightarrow> string \<Rightarrow> session \<Rightarrow> session outcome" where
  "resumeTabulatorDataResp e rid text =
     resume_op e rid (\<lambda>L. case (if text = [] then None else eng_json e text) of
         None \<Rightarrow> (L, LNil)
       | Some v \<Rightarrow> toLuaValue (eng_parse e) (eng_show_go e) v L)"

definition row_numbers :: "int list \<Rightarrow> lua_state \<Rightarrow> lua_state \<times> lua_value" where
  "row_numbers rows L =
     (let (L1, t) = NewTable L
      in (fold (\<lambda>(i, r). RawSetInt t i (LNumber (float_of_int r))) (zip [1..<Suc (length rows)] rows) L1, LTable t))"

definition resumeTabulatorSelectionResp :: "engine \<Rightarrow> string \<Rightarrow> int list \<Rightarrow> session \<Rightarrow> session outcome" where
  "resumeTabulatorSelectionResp e rid rows = resume_op e rid (row_numbers rows)"

definition resumeSleep :: "engine \<Rightarrow> string \<Rightarrow> session \<Rightarrow> session outcome" where
  "resumeSleep e rid s =
     (case map_of (sleepOps s) rid of
        None \<Rightarrow> Done s
      | Some co \<Rightarrow>
          andThen (resume e (Suspended co) [Some LNil]
                    (record_event (Woken rid co) (s\<lparr>sleepOps := AList.delete rid (sleepOps s)\<rparr>)))
            (\<lambda>(r, s1). Done (case r of ResumeError err \<Rightarrow> notifyError e err s1 | _ \<Rightarrow> s1)))"

definition handleSelectionResp :: "engine \<Rightarrow> string \<Rightarrow> go_value \<Rightarrow> session \<Rightarrow> session outcome" where
  "handleSelectionResp e rid raw s =
     (if map_of (asyncOps s) rid = None then Done s
      else (let (s1, v) = to_lua e raw s in resumeAsyncResp e rid v s1))"

section \<open>Completed operations\<close>

text \<open>The agent worker waiting on a tool call gets the result of the coroutine it waits for.\<close>

definition tool_reply :: "nat \<Rightarrow> string + go_value \<Rightarrow> session \<Rightarrow> session" where
  "tool_reply co r s =
     (case map_of (pendingToolCalls s) co of
        None \<Rightarrow> s
      | Some chan \<Rightarrow>
          record_event (ToolReply chan r) (s\<lparr>pendingToolCalls := AList.delete co (pendingToolCalls s)\<rparr>))"

definition first_result :: "lua_value list \<Rightarrow> lua_value" where
  "first_result rets = (case rets of [] \<Rightarrow> LNil | v # vs \<Rightarrow> v)"

definition converted :: "engine \<Rightarrow> nat option \<Rightarrow> go_value \<Rightarrow> lua_state \<Rightarrow> lua_state \<times> lua_value" where
  "converted e conv g L =
     (if g = GNil then (L, LNil)
      else case conv of None \<Rightarrow> GoValueToLua g L | Some c \<Rightarrow> eng_conv e c g L)"

definition async_value :: "engine \<Rightarrow> async_op \<Rightarrow> async_done \<Rightarrow> session \<Rightarrow> session \<times> lua_value" where
  "async_value e op d s =
     (let err = (case ad_error d of None \<Rightarrow> [] | Some t \<Rightarrow> t) in
      if err \<noteq> [] then
        (s\<lparr>world := fireError (eng_hook e) (classifyError (Some (ErrText err))) err (world s)\<rparr>, LNil)
      else (let (L, v) = converted e (op_conv op) (ad_result d) (lua (world s)) in (set_lua L s, v)))"

definition async_finished :: "engine \<Rightarrow> async_op \<Rightarrow> resume_result \<times> session \<Rightarrow> session outcome" where
  "async_finished e op rs =
     (let s = snd rs in
      case fst rs of
        ResumeError err \<Rightarrow> Done (handler_error e err (tool_reply (op_co op) (Inl err) s))
      | ResumeYield \<Rightarrow> Done (if op_cancel op then record_event (Cancelled (op_co op)) s else s)
      | ResumeOK rets \<Rightarrow>
          (if map_of (pendingToolCalls s) (op_co op) = None then Done s
           else (case luaValueToGo (eng_show e) (eng_depth e) (lua (world s)) (first_result rets) of
                   None \<Rightarrow> Panicked
                 | Some g \<Rightarrow> Done (tool_reply (op_co op) (Inr g) s))))"

definition handleAsyncDone :: "engine \<Rightarrow> async_done option \<Rightarrow> session \<Rightarrow> session outcome" where
  "handleAsyncDone e data s =
     (case data of
        None \<Rightarrow> Done s
      | Some d \<Rightarrow>
          (case map_of (asyncOps s) (ad_op d) of
             None \<Rightarrow> Done s
           | Some op \<Rightarrow>
               (let (s1, v) = async_value e op d (take_op (ad_op d) op s)
                in andThen (resume e (Suspended (op_co op)) [Some v] s1) (async_finished e op))))"

section \<open>k.exec\<close>

fun exec_args :: "engine \<Rightarrow> go_value list \<Rightarrow> session \<Rightarrow> session \<times> lua_value list" where
  "exec_args e [] s = (s, [])"
| "exec_args e (g # gs) s =
     (let (s1, v) = to_lua e g s; (s2, vs) = exec_args e gs s1 in (s2, v # vs))"

definition exec_result :: "lua_value list \<Rightarrow> lua_state \<Rightarrow> lua_state \<times> lua_value" where
  "exec_result rets L =
     (case rets of
        [] \<Rightarrow> (L, LNil)
      | [v] \<Rightarrow> (L, v)
      | _ \<Rightarrow> (let (L1, t) = NewTable L
              in (fold (\<lambda>(i, v). RawSetInt t i v) (zip [1..<Suc (length rets)] rets) L1, LTable t)))"

text \<open>A function that suspends counts as finished: the caller gets what it yielded, no value.\<close>

definition exec_finish :: "engine \<Rightarrow> string \<Rightarrow> resume_result \<times> session \<Rightarrow> session outcome" where
  "exec_finish e rid rs =
     (case fst rs of
        ResumeError err \<Rightarrow> resumeAsyncResp e rid LNil (notifyError e err (snd rs))
      | ResumeYield \<Rightarrow> resumeAsyncResp e rid LNil (snd rs)
      | ResumeOK rets \<Rightarrow>
          (let (L, v) = exec_result rets (lua (world (snd rs)))
           in resumeAsyncResp e rid v (set_lua L (snd rs))))"

definition handleExec :: "engine \<Rightarrow> exec_call option \<Rightarrow> session \<Rightarrow> session outcome" where
  "handleExec e call s =
     (case call of
        None \<Rightarrow> Done s
      | Some x \<Rightarrow>
          (let (s1, args) = exec_args e (ec_args x) s in
           if map_of (asyncOps s1) (ec_op x) = None then Done s1
           else andThen (resume e (Fresh (ec_fn x)) (map Some args) s1) (exec_finish e (ec_op x))))"

section \<open>Grid requests\<close>

definition gridMeta :: "engine \<Rightarrow> string \<Rightarrow> string \<Rightarrow> lua_state \<Rightarrow> string + string \<times> string \<times> string" where
  "gridMeta e form ctrl L =
     (case controlTable L form ctrl of
        None \<Rightarrow> Inl ''grid control not found''
      | Some a \<Rightarrow>
          (if lv_string (eng_show e) (RawGetString L a ''type'') \<noteq> ''grid'' then Inl ''not a grid control''
           else eng_grid_link e L a))"

definition gridRefresh :: "string \<Rightarrow> string \<Rightarrow> session \<Rightarrow> session" where
  "gridRefresh form ctrl = SendOutbox (empty_msg\<lparr>Type := ''tabulator_refresh'', Form := form, Ctrl := ctrl,
     Selector := ctrl_selector form ctrl\<rparr>)"

definition handleGridGetSelected :: "engine \<Rightarrow> inbox_msg \<Rightarrow> session \<Rightarrow> session outcome" where
  "handleGridGetSelected e m s =
     (case gridMeta e (im_form m) (im_ctrl m) (lua (world s)) of
        Inl reason \<Rightarrow> PostGridGetSelectedResp (im_respID m) GNil s
      | Inr meta \<Rightarrow> Done (SendOutbox (empty_msg\<lparr>Type := ''tabulator_get_selection'', Form := im_form m,
                            Ctrl := im_ctrl m, Selector := ctrl_selector (im_form m) (im_ctrl m)\<rparr>) s))"

definition handleGridGetSelectedResp :: "inbox_msg \<Rightarrow> session \<Rightarrow> session outcome" where
  "handleGridGetSelectedResp m = PostGridGetSelectedResp (im_respID m) (im_raw m)"

definition no_payload :: "inbox_msg \<Rightarrow> bool" where
  "no_payload m \<longleftrightarrow> im_lua m = [] \<and> im_raw m = GNil"

definition handleGridGetRow :: "engine \<Rightarrow> inbox_msg \<Rightarrow> session \<Rightarrow> session outcome" where
  "handleGridGetRow e m s =
     (case gridMeta e (im_form m) (im_ctrl m) (lua (world s)) of
        Inl reason \<Rightarrow> PostGridGetRowResp (im_respID m) GNil s
      | Inr meta \<Rightarrow>
          PostGridGetRowResp (im_respID m) (if no_payload m then GNil else eng_grid_row e meta m) s)"

definition handleGridGetRowResp :: "inbox_msg \<Rightarrow> session \<Rightarrow> session outcome" where
  "handleGridGetRowResp m =
     PostGridGetRowResp (im_respID m) (case im_raw m of GMap kvs \<Rightarrow> GMap kvs | _ \<Rightarrow> GNil)"

text \<open>
  The writing requests: without a grid the reason is answered, a missing payload and a failed
  statement are answered with an error, a success refreshes the grid first.
\<close>

definition grid_write ::
  "engine \<Rightarrow> (bool \<Rightarrow> string \<Rightarrow> session \<Rightarrow> session outcome) \<Rightarrow> bool \<Rightarrow> string \<Rightarrow> inbox_msg \<Rightarrow> session \<Rightarrow> session outcome" where
  "grid_write e answer valid complaint m s =
     (case gridMeta e (im_form m) (im_ctrl m) (lua (world s)) of
        Inl reason \<Rightarrow> answer False reason s
      | Inr meta \<Rightarrow>
          (if \<not> valid then answer False complaint s
           else (case eng_grid_write e (im_typ m) meta m of
                   Some err \<Rightarrow> answer False err s
                 | None \<Rightarrow> answer True [] (gridRefresh (im_form m) (im_ctrl m) s))))"

definition is_map :: "go_value \<Rightarrow> bool" where
  "is_map g = (case g of GMap kvs \<Rightarrow> True | _ \<Rightarrow> False)"

definition handleGridDeleteRow :: "engine \<Rightarrow> inbox_msg \<Rightarrow> session \<Rightarrow> session outcome" where
  "handleGridDeleteRow e m =
     grid_write e (PostGridDeleteRowResp (im_respID m)) (\<not> no_payload m) ''no pk provided'' m"

definition handleGridBatchDeleteReq :: "engine \<Rightarrow> inbox_msg \<Rightarrow> session \<Rightarrow> session outcome" where
  "handleGridBatchDeleteReq e m =
     grid_write e (PostGridBatchDeleteResp (im_respID m))
       (im_lua m \<noteq> [] \<or> (case im_raw m of GList gs \<Rightarrow> gs \<noteq> [] | _ \<Rightarrow> False)) ''no pks provided'' m"

text \<open>The answer to an insert is the primary key: \<^verbatim>\<open>true\<close> after a success, nil otherwise.\<close>

definition handleGridInsertRow :: "engine \<Rightarrow> inbox_msg \<Rightarrow> session \<Rightarrow> session outcome" where
  "handleGridInsertRow e m =
     grid_write e (\<lambda>b err. PostGridInsertRowResp (im_respID m) (if b then GBool True else GNil) err)
       (is_map (im_raw m)) ''invalid data'' m"

definition update_payload :: "inbox_msg \<Rightarrow> bool" where
  "update_payload m \<longleftrightarrow> im_lua m \<noteq> [] \<or>
     (case im_raw m of
        GMap kvs \<Rightarrow> (case map_of kvs ''data'' of Some d \<Rightarrow> is_map d | None \<Rightarrow> False)
                     \<and> (case map_of kvs ''pk'' of Some v \<Rightarrow> v \<noteq> GNil | None \<Rightarrow> False)
      | _ \<Rightarrow> False)"

definition handleGridUpdateRow :: "engine \<Rightarrow> inbox_msg \<Rightarrow> session \<Rightarrow> session outcome" where
  "handleGridUpdateRow e m =
     grid_write e (PostGridUpdateRowResp (im_respID m)) (update_payload m)
       (if is_map (im_raw m) then ''invalid pk or data'' else ''invalid data'') m"

text \<open>
  The four answers with a success flag: the inner variable of \<^verbatim>\<open>if v, ok := ...\<close> shadows the
  flag, so what is forwarded is always \<^verbatim>\<open>false\<close>.
\<close>

definition answer_error :: "inbox_msg \<Rightarrow> string" where
  "answer_error m = (case im_raw m of GMap kvs \<Rightarrow> string_field kvs ''error'' | _ \<Rightarrow> [])"

definition handleGridDeleteRowResp :: "inbox_msg \<Rightarrow> session \<Rightarrow> session outcome" where
  "handleGridDeleteRowResp m = PostGridDeleteRowResp (im_respID m) False (answer_error m)"

definition handleGridBatchDeleteResp :: "inbox_msg \<Rightarrow> session \<Rightarrow> session outcome" where
  "handleGridBatchDeleteResp m = PostGridBatchDeleteResp (im_respID m) False (answer_error m)"

definition handleGridInsertRowResp :: "inbox_msg \<Rightarrow> session \<Rightarrow> session outcome" where
  "handleGridInsertRowResp m =
     PostGridInsertRowResp (im_respID m)
       (case im_raw m of GMap kvs \<Rightarrow> (case map_of kvs ''pk'' of Some v \<Rightarrow> v | None \<Rightarrow> GNil) | _ \<Rightarrow> GNil)
       (answer_error m)"

definition handleGridUpdateRowResp :: "inbox_msg \<Rightarrow> session \<Rightarrow> session outcome" where
  "handleGridUpdateRowResp m = PostGridUpdateRowResp (im_respID m) False (answer_error m)"

section \<open>One message\<close>

definition handleInbox :: "engine \<Rightarrow> inbox_msg \<Rightarrow> session \<Rightarrow> session outcome" where
  "handleInbox e m s =
     (case im_typ m of
        InboxWSEvent \<Rightarrow> handleWSEvent e m s
      | InboxTimer \<Rightarrow> handleTimer e (im_timer m) s
      | InboxAsyncDone \<Rightarrow> handleAsyncDone e (im_data m) s
      | InboxMsgboxChoice \<Rightarrow>
          (if im_raw m \<noteq> GNil
           then (let (s1, v) = to_lua e (im_raw m) s in resumeAsyncResp e (im_respID m) v s1)
           else resumeAsyncResp e (im_respID m) (LString (im_resp m)) s)
      | InboxPopupChoice \<Rightarrow>
          (let (s1, v) = to_lua e (im_raw m) s in resumeAsyncResp e (im_respID m) v s1)
      | InboxPopupDismiss \<Rightarrow> resumeAsyncResp e (im_respID m) LNil s
      | InboxClipboardResp \<Rightarrow> resumeAsyncResp e (im_respID m) (LString (im_resp m)) s
      | InboxFilePickerResp \<Rightarrow> resumeFilePickerResp e (im_respID m) (im_resp m) s
      | InboxFilePickerSaveResp \<Rightarrow> resumeFilePickerSaveResp e (im_respID m) (im_resp m) s
      | InboxSleepDone \<Rightarrow> resumeSleep e (im_respID m) s
      | InboxTabulatorDataResp \<Rightarrow> resumeTabulatorDataResp e (im_respID m) (im_resp m) s
      | InboxTabulatorSelectionResp \<Rightarrow> resumeTabulatorSelectionResp e (im_respID m) (im_selectRows m) s
      | InboxChartImageResp \<Rightarrow> resumeChartImageResp e (im_respID m) (im_resp m) s
      | InboxFormEvent \<Rightarrow> handleFormEvent e (im_form m) (im_event m) s
      | InboxExec \<Rightarrow> handleExec e (im_exec m) s
      | InboxSelectionResp \<Rightarrow> handleSelectionResp e (im_respID m) (im_raw m) s
      | InboxGridGetSelected \<Rightarrow> handleGridGetSelected e m s
      | InboxGridGetSelectedResp \<Rightarrow> handleGridGetSelectedResp m s
      | InboxGridGetRow \<Rightarrow> handleGridGetRow e m s
      | InboxGridGetRowResp \<Rightarrow> handleGridGetRowResp m s
      | InboxGridDeleteRow \<Rightarrow> handleGridDeleteRow e m s
      | InboxGridDeleteRowResp \<Rightarrow> handleGridDeleteRowResp m s
      | InboxGridBatchDeleteReq \<Rightarrow> handleGridBatchDeleteReq e m s
      | InboxGridBatchDeleteResp \<Rightarrow> handleGridBatchDeleteResp m s
      | InboxGridInsertRow \<Rightarrow> handleGridInsertRow e m s
      | InboxGridInsertRowResp \<Rightarrow> handleGridInsertRowResp m s
      | InboxGridUpdateRow \<Rightarrow> handleGridUpdateRow e m s
      | InboxGridUpdateRowResp \<Rightarrow> handleGridUpdateRowResp m s
      | InboxNone \<Rightarrow> Done s
      | InboxTabChange \<Rightarrow> Done s
      | _ \<Rightarrow> perform_all e (eng_page e m s) s)"

end
