(* ===== verification/Session_Run.thy ===== *)
theory Session_Run
  imports Session_Inbox
begin

text \<open>
  Runs of the actor. Messages arrive in any order and at any time, from the page, from worker
  goroutines or from timers; the actor takes them one by one; the main coroutine and the
  transport's direct messages act in between; the page drains the outbox. An invariant is proved
  once for all operations: the locale \<open>session_invariant\<close> asks only that the elementary updates
  of the session keep it.
\<close>

inductive session_run :: "engine \<Rightarrow> session \<Rightarrow> session \<Rightarrow> bool" for e where
  run_start: "session_run e s s"
| run_take: "session_run e s0 s \<Longrightarrow> inbox s = m # q \<Longrightarrow> handleInbox e m (s\<lparr>inbox := q\<rparr>) = Done s' \<Longrightarrow>
    session_run e s0 s'"
| run_direct: "session_run e s0 s \<Longrightarrow> handleInbox e m s = Done s' \<Longrightarrow> session_run e s0 s'"
| run_post: "session_run e s0 s \<Longrightarrow> post m s = Done s' \<Longrightarrow> session_run e s0 s'"
| run_main: "session_run e s0 s \<Longrightarrow> perform_all e acts s = Done s' \<Longrightarrow> session_run e s0 s'"
| run_drain: "session_run e s0 s \<Longrightarrow> outbox s = m # q \<Longrightarrow> session_run e s0 (s\<lparr>outbox := q\<rparr>)"
| run_fire: "session_run e s0 s \<Longrightarrow> timer_fire p s = Some s' \<Longrightarrow> session_run e s0 s'"
| run_callback: "session_run e s0 s \<Longrightarrow> timer_callback p s = Done s' \<Longrightarrow> session_run e s0 s'"
| run_client: "session_run e s0 s \<Longrightarrow> session_run e s0 (SetClientInfo w h loc s)"
| run_close: "session_run e s0 s \<Longrightarrow> Close s = Done s' \<Longrightarrow> session_run e s0 s'"

section \<open>Partial results\<close>

text \<open>What holds of the session an operation ends in, if it ends.\<close>

definition after :: "'a outcome \<Rightarrow> ('a \<Rightarrow> bool) \<Rightarrow> bool" where
  "after r P = (case r of Done x \<Rightarrow> P x | Stuck \<Rightarrow> True | Panicked \<Rightarrow> True)"

lemma after_Done [simp]: "after (Done x) P = P x"
  and after_Stuck [simp]: "after Stuck P"
  and after_Panicked [simp]: "after Panicked P"
  by (simp_all add: after_def)

lemma after_andThen [simp]: "after (andThen r f) P = after r (\<lambda>x. after (f x) P)"
  by (cases r) simp_all

lemma after_mono: "after r P \<Longrightarrow> (\<And>x. P x \<Longrightarrow> Q x) \<Longrightarrow> after r Q"
  by (cases r) simp_all

lemma afterD: "after r P \<Longrightarrow> r = Done x \<Longrightarrow> P x"
  by simp

section \<open>Invariants of the elementary updates\<close>

locale session_invariant =
  fixes I :: "session \<Rightarrow> bool"
  assumes world_upd: "I s \<Longrightarrow> I (s\<lparr>world := w\<rparr>)"
    and outbox_upd: "I s \<Longrightarrow> I (s\<lparr>outbox := out\<rparr>)"
    and inbox_upd: "I s \<Longrightarrow> I (s\<lparr>inbox := ms\<rparr>)"
    and timers_upd: "I s \<Longrightarrow> I (s\<lparr>timers := ts\<rparr>)"
    and idle_upd: "I s \<Longrightarrow> I (s\<lparr>idleTimers := ts\<rparr>)"
    and objs_upd: "I s \<Longrightarrow> I (s\<lparr>timer_objs := os\<rparr>)"
    and stack_upd: "I s \<Longrightarrow> I (s\<lparr>formStack := fs\<rparr>)"
    and suspended_upd: "I s \<Longrightarrow> I (s\<lparr>suspendedForm := f\<rparr>)"
    and client_upd: "I s \<Longrightarrow> I (s\<lparr>clientW := i, clientH := j, clientLocale := l\<rparr>)"
    and ended_upd: "I s \<Longrightarrow> I (s\<lparr>ended := b\<rparr>)"
    and tools_upd: "I s \<Longrightarrow> I (s\<lparr>pendingToolCalls := tc\<rparr>)"
    and registered: "I s \<Longrightarrow> I (register rid op s)"
    and taken: "I s \<Longrightarrow> map_of (asyncOps s) rid = Some op \<Longrightarrow> I (take_op rid op s)"
    and slept: "I s \<Longrightarrow> I (ScheduleSleep now co s)"
    and woken: "I s \<Longrightarrow> map_of (sleepOps s) rid = Some co \<Longrightarrow>
      I (record_event (Woken rid co) (s\<lparr>sleepOps := AList.delete rid (sleepOps s)\<rparr>))"
    and grid_added: "I s \<Longrightarrow>
      I (record_event (GridRegistered rid co) (s\<lparr>gridAsyncOps := AList.update rid co (gridAsyncOps s)\<rparr>))"
    and grid_removed: "I s \<Longrightarrow> I (s\<lparr>gridAsyncOps := AList.delete rid (gridAsyncOps s)\<rparr>)"
    and form_stored: "I s \<Longrightarrow> I (StoreFormCoro name co s)"
    and form_taken: "I s \<Longrightarrow> map_of (formCoros s) name = Some co \<Longrightarrow> I (take_form_coro name s co)"
    and cancelled: "I s \<Longrightarrow> I (record_event (Cancelled co) s)"
    and replied: "I s \<Longrightarrow> I (record_event (ToolReply chan r) s)"
begin

lemmas quiet = world_upd outbox_upd inbox_upd timers_upd idle_upd objs_upd stack_upd suspended_upd
  client_upd ended_upd tools_upd

lemma I_SendOutbox: "I s \<Longrightarrow> I (SendOutbox m s)"
  by (simp add: SendOutbox_def outbox_offer_def outbox_upd)

lemma I_send_blocking: "I s \<Longrightarrow> I (send_blocking m s)"
  by (simp add: send_blocking_def outbox_upd)

lemma I_post: "I s \<Longrightarrow> after (post m s) I"
  by (simp add: post_def inbox_offer_def inbox_upd)

lemma I_set_lua: "I s \<Longrightarrow> I (set_lua L s)"
  by (simp add: set_lua_def world_upd)

lemma I_notifyError: "I s \<Longrightarrow> I (notifyError e err s)"
  by (simp add: notifyError_def world_upd)

lemma I_handler_error: "I s \<Longrightarrow> I (handler_error e err s)"
  by (simp add: handler_error_def Let_def I_send_blocking I_notifyError)

lemma I_set_phase: "I s \<Longrightarrow> I (set_phase p ph s)"
  by (simp add: set_phase_def objs_upd)

lemma I_timer_Stop: "I s \<Longrightarrow> I (timer_Stop p s)"
  by (simp add: timer_Stop_def I_set_phase)

lemma I_stop_found: "I s \<Longrightarrow> I (stop_found p s)"
  by (cases p) (simp_all add: stop_found_def I_timer_Stop)

lemma I_StartTimer: "I s \<Longrightarrow> I (StartTimer tid ms again s)"
  by (simp add: StartTimer_def Let_def new_timer_def timers_upd objs_upd I_stop_found)

lemma I_StopTimer: "I s \<Longrightarrow> I (StopTimer tid s)"
  by (simp add: StopTimer_def timers_upd I_timer_Stop split: option.split)

lemma I_startIdleTimer: "I s \<Longrightarrow> I (startIdleTimer form s)"
  by (simp add: startIdleTimer_def Let_def new_timer_def idle_upd objs_upd I_stop_found split: option.split)

lemma I_stopIdleTimer: "I s \<Longrightarrow> I (stopIdleTimer form s)"
  by (simp add: stopIdleTimer_def idle_upd I_timer_Stop split: option.split)

lemma I_PushForm: "I s \<Longrightarrow> I (PushForm name s)"
  by (simp add: PushForm_def I_startIdleTimer stack_upd)

lemma I_PopForm: "I s \<Longrightarrow> I (fst (PopForm s))"
  by (simp add: PopForm_def Let_def I_startIdleTimer I_stopIdleTimer stack_upd)

lemma I_grid_request: "I s \<Longrightarrow> after (grid_request rid m co s) I"
  unfolding grid_request_def by (intro I_post grid_added)

lemma I_grid_respond: "I s \<Longrightarrow> after (grid_respond t rid g s) I"
  unfolding grid_respond_def by (simp add: I_post grid_removed)

lemma I_form_resumed: "I s \<Longrightarrow> I (snd (form_resumed e (r, s)))"
  by (simp add: form_resumed_def I_notifyError suspended_upd split: resume_result.split)

lemmas requests =
  ShowMsgbox_def ShowPopup_def RequestClipboardGet_def RequestTabulatorGetData_def
  RequestTabulatorGetSelection_def RequestChartGetImage_def RequestSelection_def
  RequestFilePicker_def RequestFilePickerSave_def RunAsync_def

lemmas grid_requests =
  RequestGridGetSelected_def RequestGridGetRow_def RequestGridDeleteRow_def
  RequestGridBatchDelete_def RequestGridInsertRow_def RequestGridUpdateRow_def

lemma I_RequestExec: "I s \<Longrightarrow> after (RequestExec sh now co cn fn args s) I"
  unfolding RequestExec_def Let_def by (intro I_post registered)

text \<open>The rule of composition, for operations with and without a result.\<close>

lemma I_bind: "after r I \<Longrightarrow> (\<And>s. I s \<Longrightarrow> after (f s) P) \<Longrightarrow> after (andThen r f) P"
  by (auto elim: after_mono)

lemma I_bind_pair:
  "after r (\<lambda>p. I (snd p)) \<Longrightarrow> (\<And>x s. I s \<Longrightarrow> after (f (x, s)) P) \<Longrightarrow> after (andThen r f) P"
  by (auto elim: after_mono)

lemma I_turns:
  "I s \<Longrightarrow> after (perform e a s) I"
  "I s \<Longrightarrow> after (perform_all e as s) I"
  "I s \<Longrightarrow> after (run_turn e t s) (\<lambda>p. I (snd p))"
proof (induction e a s and e as s and e t s rule: perform_perform_all_run_turn.induct)
  case (28 e name t s)
  show ?case
  proof (cases "map_of (formCoros s) name")
    case (Some co)
    have "after (run_turn e t (take_form_coro name s co)) (\<lambda>p. I (snd p))"
      using 28(1) [OF Some] form_taken [OF 28(2) Some] .
    then have "after (run_turn e t (take_form_coro name s co)) (\<lambda>p. I (snd (form_resumed e p)))"
      by (rule after_mono) (simp add: I_form_resumed [of "snd p" e "fst p" for p, simplified])
    with Some show ?thesis by simp
  qed (use 28(2) in simp)
next
  case (31 e a as s)
  from 31(1) [OF 31(3)] show ?case by (simp, rule after_mono) (rule 31(2))
next
  case (32 e r as s)
  from 32(1) [OF 32(2)] show ?case by simp
qed (simp_all add: requests grid_requests Let_def PostEvent_def PostFormEvent_def
       world_upd tools_upd registered slept form_stored I_SendOutbox I_RequestExec I_grid_request
       I_StartTimer I_StopTimer I_post I_PushForm I_PopForm)

lemma I_resume: "I s \<Longrightarrow> after (resume e target args s) (\<lambda>p. I (snd p))"
  unfolding resume_def by (rule I_turns(3))

lemma I_ResumeFormCoroWith: "I s \<Longrightarrow> after (ResumeFormCoroWith e name v s) (\<lambda>p. I (snd p))"
  unfolding ResumeFormCoroWith_def
  by (auto split: option.split simp del: after_andThen intro!: I_bind_pair I_resume form_taken I_form_resumed)

lemma I_to_lua: "I s \<Longrightarrow> I (fst (to_lua e g s))"
  by (simp add: to_lua_def I_set_lua split: prod.split)

lemma I_runFormHandler: "I s \<Longrightarrow> after (runFormHandler e f k ev args s) (\<lambda>p. I (snd p))"
  unfolding runFormHandler_def
  by (auto split: option.split resume_result.split simp del: after_andThen
      intro!: I_bind_pair I_resume I_handler_error)

lemma I_runOptFunction: "I s \<Longrightarrow> after (runOptFunction e fn args s) I"
  unfolding runOptFunction_def
  by (auto split: resume_result.split simp del: after_andThen intro!: I_bind_pair I_resume I_handler_error)

lemma I_runFormHandlerSync: "I s \<Longrightarrow> after (runFormHandlerSync e f k ev args s) (\<lambda>p. I (snd p))"
  unfolding runFormHandlerSync_def
  by (auto split: option.split prod.split simp del: after_andThen intro!: I_bind I_turns(2))

lemma I_dispatch: "I s \<Longrightarrow> after (dispatch e m args fb s) I"
  unfolding dispatch_def
  by (auto simp del: after_andThen intro!: I_bind_pair I_runFormHandler)

lemma I_handleLoginError: "I s \<Longrightarrow> after (handleLoginError e f c a d s) I"
  unfolding handleLoginError_def Let_def
  by (auto simp del: after_andThen intro!: I_bind_pair I_runFormHandler I_SendOutbox I_set_lua)

lemma I_login_accepted: "I s \<Longrightarrow> after (login_accepted e f c a row s) I"
  unfolding login_accepted_def Let_def
  by (auto simp del: after_andThen split: prod.split intro!: I_bind_pair I_runFormHandler I_set_lua)

lemma I_handleLoginSubmit: "I s \<Longrightarrow> after (handleLoginSubmit e f c l p s) I"
  unfolding handleLoginSubmit_def Let_def
  by (auto simp del: after_andThen split: option.split sum.split
      intro!: I_bind_pair I_runFormHandlerSync I_handleLoginError I_login_accepted)

lemma I_with_table: "(\<And>t. after (f t) I) \<Longrightarrow> after (with_table v f) I"
  by (simp add: with_table_def split: option.split lua_value.split)

lemma I_tab_event: "I s \<Longrightarrow> after (tab_event e m v t s) I"
  unfolding tab_event_def Let_def
  by (auto split: prod.splits option.splits intro!: I_dispatch I_set_lua)

lemma I_tree_select: "I s \<Longrightarrow> after (tree_select e m v t s) I"
  unfolding tree_select_def Let_def
  by (auto split: option.split intro!: I_dispatch I_set_lua)

lemma I_sidebar_select: "I s \<Longrightarrow> after (sidebar_select e m v t s) I"
  unfolding sidebar_select_def Let_def
  by (auto simp del: after_andThen split: option.split lua_value.split intro!: I_bind I_dispatch I_runOptFunction)

lemma I_handleAIChatClose: "I s \<Longrightarrow> after (handleAIChatClose e f s) I"
  unfolding handleAIChatClose_def Let_def
  by (auto simp del: after_andThen split: option.split prod.splits lua_value.splits
      intro!: I_bind_pair I_ResumeFormCoroWith I_set_lua)

lemma I_ws_switch: "I s \<Longrightarrow> after (ws_switch e fl m v s) I"
  unfolding ws_switch_def Let_def
  by (simp add: I_with_table I_dispatch I_tab_event I_handleLoginSubmit I_tree_select I_sidebar_select
      I_turns I_handleAIChatClose)

lemma I_event_value: "I s \<Longrightarrow> I (fst (event_value e m s))"
  using I_to_lua [of s e "im_raw m"] by (auto simp: event_value_def split: prod.split)

lemma I_handleWSEvent: "I s \<Longrightarrow> after (handleWSEvent e m s) I"
  using I_event_value [of s e m]
  by (auto simp: handleWSEvent_def Let_def split: prod.split intro!: I_ws_switch I_set_lua)

lemma I_handleTimer: "I s \<Longrightarrow> after (handleTimer e tid s) I"
  unfolding handleTimer_def runTimerHandler_def Let_def
  by (auto simp del: after_andThen split: lua_value.split resume_result.split
      intro!: I_handleWSEvent I_bind_pair I_resume I_SendOutbox I_notifyError)

lemma I_after_resume: "I s \<Longrightarrow> I (after_resume e op (r, s))"
  by (simp add: after_resume_def I_notifyError cancelled split: resume_result.split)

lemma I_resume_op: "I s \<Longrightarrow> after (resume_op e rid mk s) I"
  unfolding resume_op_def Let_def
  by (auto simp del: after_andThen split: option.split prod.split
      intro!: I_bind_pair I_resume I_set_lua taken I_after_resume)

lemmas answers =
  resumeAsyncResp_def resumeChartImageResp_def resumeFilePickerResp_def resumeFilePickerSaveResp_def
  resumeTabulatorDataResp_def resumeTabulatorSelectionResp_def

lemma I_resumeSleep: "I s \<Longrightarrow> after (resumeSleep e rid s) I"
  unfolding resumeSleep_def
  by (auto simp del: after_andThen split: option.split resume_result.split
      intro!: I_bind_pair I_resume woken I_notifyError)

lemma I_handleSelectionResp: "I s \<Longrightarrow> after (handleSelectionResp e rid g s) I"
  using I_to_lua [of s e g]
  by (auto simp: handleSelectionResp_def answers intro!: I_resume_op split: prod.split)

lemma I_tool_reply: "I s \<Longrightarrow> I (tool_reply co r s)"
  by (simp add: tool_reply_def replied tools_upd split: option.split)

lemma I_async_value: "I s \<Longrightarrow> I (fst (async_value e op d s))"
  by (simp add: async_value_def Let_def world_upd I_set_lua split: prod.split)

lemma I_async_finished: "I s \<Longrightarrow> after (async_finished e op (r, s)) I"
  by (simp add: async_finished_def Let_def I_handler_error I_tool_reply cancelled
      split: resume_result.split option.split)

lemma I_handleAsyncDone: "I s \<Longrightarrow> after (handleAsyncDone e data s) I"
proof (cases data)
  case (Some d)
  assume "I s"
  show ?thesis
  proof (cases "map_of (asyncOps s) (ad_op d)")
    case (Some op)
    have "I (fst (async_value e op d (take_op (ad_op d) op s)))"
      by (intro I_async_value taken \<open>I s\<close> Some)
    then show ?thesis
      using Some \<open>data = Some d\<close>
      by (auto simp: handleAsyncDone_def simp del: after_andThen split: prod.split
          intro!: I_bind_pair I_resume I_async_finished)
  qed (use \<open>I s\<close> \<open>data = Some d\<close> in \<open>simp add: handleAsyncDone_def\<close>)
qed (simp add: handleAsyncDone_def)

lemma I_exec_args: "I s \<Longrightarrow> I (fst (exec_args e gs s))"
proof (induction gs arbitrary: s)
  case (Cons g gs)
  from Cons.IH [OF I_to_lua [OF Cons.prems, of e g]] show ?case by (auto split: prod.split)
qed simp

lemma I_handleExec: "I s \<Longrightarrow> after (handleExec e call s) I"
proof (cases call)
  case (Some x)
  assume "I s"
  from I_exec_args [OF this, of e "ec_args x"] show ?thesis
    by (auto simp: handleExec_def exec_finish_def Some answers simp del: after_andThen split: prod.split resume_result.split
        intro!: I_bind_pair I_resume I_resume_op I_notifyError I_set_lua)
qed (simp add: handleExec_def)

lemmas grid_answers =
  PostGridGetSelectedResp_def PostGridGetRowResp_def PostGridDeleteRowResp_def
  PostGridBatchDeleteResp_def PostGridInsertRowResp_def PostGridUpdateRowResp_def

lemmas grid_handlers =
  handleGridGetSelectedResp_def handleGridGetRow_def handleGridGetRowResp_def
  handleGridDeleteRow_def handleGridDeleteRowResp_def handleGridBatchDeleteReq_def
  handleGridBatchDeleteResp_def handleGridInsertRow_def handleGridInsertRowResp_def
  handleGridUpdateRow_def handleGridUpdateRowResp_def

lemma I_grid_write:
  "I s \<Longrightarrow> (\<And>b err s. I s \<Longrightarrow> after (answer b err s) I) \<Longrightarrow> after (grid_write e answer v c m s) I"
  by (simp add: grid_write_def gridRefresh_def I_SendOutbox split: sum.split option.split)

lemma I_handleInbox: "I s \<Longrightarrow> after (handleInbox e m s) I"
  using I_to_lua [of s e "im_raw m"]
  by (auto simp: handleInbox_def handleFormEvent_def handleGridGetSelected_def I_handleWSEvent
      I_handleTimer I_handleAsyncDone answers I_resume_op I_resumeSleep I_handleExec
      I_handleSelectionResp grid_handlers grid_answers I_grid_respond I_grid_write I_SendOutbox I_turns
      simp del: after_andThen split: inbox_type.split prod.split sum.split
      intro!: I_bind_pair I_runFormHandler)

theorem invariant_run: "session_run e s0 s \<Longrightarrow> I s0 \<Longrightarrow> I s"
proof (induction rule: session_run.induct)
  case (run_take s0 s m q s')
  then have "after (handleInbox e m (s\<lparr>inbox := q\<rparr>)) I" by (intro I_handleInbox inbox_upd) simp
  with run_take show ?case by simp
next
  case (run_callback s0 s p s')
  then have "I s" by blast
  then have "after (timer_callback p s) I"
    unfolding timer_callback_def by (auto simp del: after_andThen intro!: I_bind I_post I_set_phase)
  then show ?case by (rule afterD) (rule run_callback)
next
  case (run_close s0 s s')
  have "I (fold timer_Stop ps t)" if "I t" for ps t
    using that by (induction ps arbitrary: t) (simp_all add: I_timer_Stop)
  with run_close show ?case by (auto simp: Close_def ended_upd split: if_splits)
qed (auto simp: outbox_upd client_upd SetClientInfo_def timer_fire_def I_set_phase
      dest: afterD [OF I_handleInbox] afterD [OF I_post] afterD [OF I_turns(2)] split: if_splits)

end

end
