(* ===== verification/Session_Properties.thy ===== *)
theory Session_Properties
  imports Session_Run
begin

text \<open>
  What the actor guarantees to the coroutines it suspends, as invariants of its runs, and how
  single messages behave. The engine is arbitrary throughout: scripts may do anything in a turn.
\<close>

section \<open>Registered, then resumed at most once\<close>

definition registrations :: "session \<Rightarrow> (string \<times> nat) list" where
  "registrations s =
     List.map_filter (\<lambda>x. case x of Registered rid co \<Rightarrow> Some (rid, co) | _ \<Rightarrow> None) (trace s)"

definition resumptions :: "session \<Rightarrow> (string \<times> nat) list" where
  "resumptions s =
     List.map_filter (\<lambda>x. case x of Resumed rid co \<Rightarrow> Some (rid, co) | _ \<Rightarrow> None) (trace s)"

definition sleeps :: "session \<Rightarrow> (string \<times> nat) list" where
  "sleeps s = List.map_filter (\<lambda>x. case x of Slept rid co \<Rightarrow> Some (rid, co) | _ \<Rightarrow> None) (trace s)"

definition wakes :: "session \<Rightarrow> (string \<times> nat) list" where
  "wakes s = List.map_filter (\<lambda>x. case x of Woken rid co \<Rightarrow> Some (rid, co) | _ \<Rightarrow> None) (trace s)"

lemmas histories = registrations_def resumptions_def sleeps_def wakes_def record_event_def

lemma map_filter_append [simp]: "List.map_filter f (xs @ ys) = List.map_filter f xs @ List.map_filter f ys"
  by (simp add: List.map_filter_def)

lemma map_filter_Cons_Nil [simp]:
  "List.map_filter f [] = []"
  "List.map_filter f (x # xs) = (case f x of None \<Rightarrow> List.map_filter f xs | Some y \<Rightarrow> y # List.map_filter f xs)"
  by (simp_all add: List.map_filter_def split: option.split)

text \<open>While identifiers are not reused, the waiting coroutines are the registered less the resumed ones.\<close>

definition exactly_once ::
  "(string \<Rightarrow> nat option) \<Rightarrow> (string \<times> nat) list \<Rightarrow> (string \<times> nat) list \<Rightarrow> bool" where
  "exactly_once waiting regs ress \<longleftrightarrow>
     (distinct (map fst regs) \<longrightarrow>
        distinct (map fst ress) \<and> set ress \<subseteq> set regs
        \<and> (\<forall>rid co. waiting rid = Some co \<longleftrightarrow> (rid, co) \<in> set regs - set ress))"

lemma once_register:
  assumes "exactly_once waiting regs ress"
  shows "exactly_once (waiting(rid \<mapsto> co)) (regs @ [(rid, co)]) ress"
  unfolding exactly_once_def
proof (intro impI)
  assume "distinct (map fst (regs @ [(rid, co)]))"
  then have d: "distinct (map fst regs)" and new: "\<And>c. (rid, c) \<notin> set regs" by force+
  with assms have "distinct (map fst ress)" and sub: "set ress \<subseteq> set regs"
    and wait: "\<And>r c. waiting r = Some c \<longleftrightarrow> (r, c) \<in> set regs - set ress"
    unfolding exactly_once_def by blast+
  moreover have "(rid, c) \<notin> set ress" for c using new sub by blast
  ultimately show "distinct (map fst ress) \<and> set ress \<subseteq> set (regs @ [(rid, co)])
      \<and> (\<forall>r c. (waiting(rid \<mapsto> co)) r = Some c \<longleftrightarrow> (r, c) \<in> set (regs @ [(rid, co)]) - set ress)"
    using new by auto
qed

lemma once_resume:
  assumes "exactly_once waiting regs ress" and "waiting rid = Some co"
  shows "exactly_once (waiting(rid := None)) regs (ress @ [(rid, co)])"
  unfolding exactly_once_def
proof (intro impI)
  assume d: "distinct (map fst regs)"
  with assms(1) have dr: "distinct (map fst ress)" and sub: "set ress \<subseteq> set regs"
    and wait: "\<And>r c. waiting r = Some c \<longleftrightarrow> (r, c) \<in> set regs - set ress"
    unfolding exactly_once_def by blast+
  have here: "(rid, co) \<in> set regs" "(rid, co) \<notin> set ress" using assms(2) wait by blast+
  have one: "c = co" if "(rid, c) \<in> set regs" for c
    using d here(1) that by (metis Some_eq_map_of_iff option.inject)
  then have "rid \<notin> fst ` set ress" using sub here(2) by force
  then have "distinct (map fst (ress @ [(rid, co)]))" using dr by simp
  moreover have "set (ress @ [(rid, co)]) \<subseteq> set regs" using sub here(1) by simp
  moreover have "(waiting(rid := None)) r = Some c \<longleftrightarrow> (r, c) \<in> set regs - set (ress @ [(rid, co)])" for r c
  proof (cases "r = rid")
    case True
    then show ?thesis using one by auto
  qed (use wait [of r c] in auto)
  ultimately show "distinct (map fst (ress @ [(rid, co)])) \<and> set (ress @ [(rid, co)]) \<subseteq> set regs
      \<and> (\<forall>r c. (waiting(rid := None)) r = Some c \<longleftrightarrow> (r, c) \<in> set regs - set (ress @ [(rid, co)]))"
    by blast
qed

definition waiting_async :: "session \<Rightarrow> string \<Rightarrow> nat option" where
  "waiting_async s = (\<lambda>rid. map_option op_co (map_of (asyncOps s) rid))"

definition async_once :: "session \<Rightarrow> bool" where
  "async_once s \<longleftrightarrow> exactly_once (waiting_async s) (registrations s) (resumptions s)"

lemma waiting_register: "waiting_async (register rid op s) = (waiting_async s)(rid \<mapsto> op_co op)"
  by (simp add: waiting_async_def register_def record_event_def fun_eq_iff)

lemma waiting_take: "waiting_async (take_op rid op s) = (waiting_async s)(rid := None)"
  by (simp add: waiting_async_def take_op_def record_event_def fun_eq_iff delete_conv)

interpretation async_run: session_invariant async_once
proof unfold_locales
  show "async_once (register rid op s)" if "async_once s" for s rid op
    using once_register that unfolding async_once_def waiting_register
    by (simp add: register_def histories)
  show "async_once (take_op rid op s)" if "async_once s" "map_of (asyncOps s) rid = Some op" for s rid op
    using once_resume [of "waiting_async s" "registrations s" "resumptions s" rid "op_co op"] that
    unfolding async_once_def waiting_take by (simp add: take_op_def histories waiting_async_def)
qed (simp_all add: async_once_def waiting_async_def histories ScheduleSleep_def StoreFormCoro_def
      take_form_coro_def cong: option.case_cong)

definition sleep_once :: "session \<Rightarrow> bool" where
  "sleep_once s \<longleftrightarrow> exactly_once (map_of (sleepOps s)) (sleeps s) (wakes s)"

interpretation sleep_run: session_invariant sleep_once
proof unfold_locales
  show "sleep_once (ScheduleSleep now co s)" if "sleep_once s" for s now co
    using once_register [OF that [unfolded sleep_once_def], of "stamp ''sleep_'' now" co]
    by (simp add: sleep_once_def ScheduleSleep_def histories)
  show "sleep_once (record_event (Woken rid co) (s\<lparr>sleepOps := AList.delete rid (sleepOps s)\<rparr>))"
    if "sleep_once s" "map_of (sleepOps s) rid = Some co" for s rid co
    using once_resume [OF that(1) [unfolded sleep_once_def] that(2)]
    by (simp add: sleep_once_def histories delete_conv)
qed (simp_all add: sleep_once_def histories register_def take_op_def StoreFormCoro_def take_form_coro_def)

section \<open>Who may be resumed\<close>

fun waits_in :: "session_event \<Rightarrow> nat set" where
  "waits_in (Registered r co) = {co}"
| "waits_in (Slept r co) = {co}"
| "waits_in (FormStored r co) = {co}"
| "waits_in x = {}"

fun woken_in :: "session_event \<Rightarrow> nat set" where
  "woken_in (Resumed r co) = {co}"
| "woken_in (Woken r co) = {co}"
| "woken_in (FormResumed r co) = {co}"
| "woken_in x = {}"

definition waiters :: "session \<Rightarrow> nat set" where
  "waiters s = (\<Union>x\<in>set (trace s). waits_in x)"

definition woken_up :: "session \<Rightarrow> nat set" where
  "woken_up s = (\<Union>x\<in>set (trace s). woken_in x)"

definition only_waiting :: "session \<Rightarrow> bool" where
  "only_waiting s \<longleftrightarrow>
     woken_up s \<subseteq> waiters s \<and> op_co ` snd ` set (asyncOps s) \<subseteq> waiters s
     \<and> snd ` set (sleepOps s) \<subseteq> waiters s \<and> snd ` set (formCoros s) \<subseteq> waiters s"

lemma values_update: "snd ` set (AList.update k v xs) \<subseteq> insert v (snd ` set xs)"
  by (auto dest: alist_update_cases)

lemma values_delete: "snd ` set (AList.delete k xs) \<subseteq> snd ` set xs"
  by (auto dest: alist_delete_sub)

lemma values_found: "map_of xs k = Some v \<Longrightarrow> v \<in> snd ` set xs"
  by (force dest: map_of_SomeD)

lemma images_mono: "A \<subseteq> B \<Longrightarrow> B \<subseteq> C \<Longrightarrow> A \<subseteq> C" "A \<subseteq> B \<Longrightarrow> f ` B \<subseteq> C \<Longrightarrow> f ` A \<subseteq> C"
  by auto

lemma only_waiting_step:
  assumes "only_waiting s" and "trace s' = trace s @ [x]" and "woken_in x \<subseteq> waiters s"
    and "op_co ` snd ` set (asyncOps s') \<subseteq> waits_in x \<union> op_co ` snd ` set (asyncOps s)"
    and "snd ` set (sleepOps s') \<subseteq> waits_in x \<union> snd ` set (sleepOps s)"
    and "snd ` set (formCoros s') \<subseteq> waits_in x \<union> snd ` set (formCoros s)"
  shows "only_waiting s'"
proof -
  have e: "waiters s' = waits_in x \<union> waiters s" "woken_up s' = woken_in x \<union> woken_up s"
    using assms(2) by (auto simp: waiters_def woken_up_def)
  have w: "woken_up s \<subseteq> waiters s" "op_co ` snd ` set (asyncOps s) \<subseteq> waiters s"
      "snd ` set (sleepOps s) \<subseteq> waiters s" "snd ` set (formCoros s) \<subseteq> waiters s"
    using assms(1) by (simp_all add: only_waiting_def)
  show ?thesis
    unfolding only_waiting_def e
    by (intro conjI order_trans [OF assms(4)] order_trans [OF assms(5)] order_trans [OF assms(6)]
        Un_mono order_refl w Un_least le_supI2 assms(3))
qed

interpretation waiting_run: session_invariant only_waiting
proof unfold_locales
  fix s assume I: "only_waiting s"
  then have w: "op_co ` snd ` set (asyncOps s) \<subseteq> waiters s"
      "snd ` set (sleepOps s) \<subseteq> waiters s" "snd ` set (formCoros s) \<subseteq> waiters s"
    by (simp_all add: only_waiting_def)
  show "only_waiting (register rid op s)" for rid op
    by (rule only_waiting_step [OF I, of _ "Registered rid (op_co op)"])
      (simp_all add: register_def record_event_def order_trans [OF image_mono [OF values_update]] subset_insertI)
  show "only_waiting (ScheduleSleep now co s)" for now co
    by (rule only_waiting_step [OF I, of _ "Slept (stamp ''sleep_'' now) co"])
      (simp_all add: ScheduleSleep_def record_event_def values_update subset_insertI)
  show "only_waiting (StoreFormCoro name co s)" for name co
    by (rule only_waiting_step [OF I, of _ "FormStored name co"])
      (simp_all add: StoreFormCoro_def record_event_def values_update subset_insertI)
  show "only_waiting (take_op rid op s)" if "map_of (asyncOps s) rid = Some op" for rid op
    by (rule only_waiting_step [OF I, of _ "Resumed rid (op_co op)"])
      (use w(1) values_found [OF that] in
        \<open>auto simp: take_op_def record_event_def image_mono [OF values_delete] dest: alist_delete_sub\<close>)
  show "only_waiting (record_event (Woken rid co) (s\<lparr>sleepOps := AList.delete rid (sleepOps s)\<rparr>))"
    if "map_of (sleepOps s) rid = Some co" for rid co
    by (rule only_waiting_step [OF I, of _ "Woken rid co"])
      (use w(2) values_found [OF that] in \<open>auto simp: record_event_def dest: alist_delete_sub\<close>)
  show "only_waiting (take_form_coro name s co)" if "map_of (formCoros s) name = Some co" for name co
    by (rule only_waiting_step [OF I, of _ "FormResumed name co"])
      (use w(3) values_found [OF that] in \<open>auto simp: take_form_coro_def record_event_def dest: alist_delete_sub\<close>)
qed (simp_all add: only_waiting_def waiters_def woken_up_def record_event_def)

lemma NewSession_invariants:
  "async_once (NewSession w)" "sleep_once (NewSession w)" "only_waiting (NewSession w)"
  by (simp_all add: async_once_def sleep_once_def exactly_once_def only_waiting_def waiting_async_def
      histories NewSession_def woken_up_def waiters_def)

section \<open>An engine for the witnesses\<close>

text \<open>Every turn ends at once with no result; the database knows no handle.\<close>

definition quiet_script :: script_world where
  "quiet_script = \<lparr>lua = blank_state, onErr = LNil, onErrBusy = False, cache_code = LNil, cache_msg = LString []\<rparr>"

definition idle_engine :: engine where
  "idle_engine =
     \<lparr>eng_turn = (\<lambda>t args s. Turn (ResumeOK []) []), eng_pcall = (\<lambda>f args s. (None, [])),
      eng_hook = (\<lambda>f args w. w), eng_show = (\<lambda>v. ''table''), eng_show_go = (\<lambda>g. []),
      eng_parse = (\<lambda>s. None), eng_stack = (\<lambda>w. []), eng_set_nil = (\<lambda>a k L. L),
      eng_conv = (\<lambda>c g L. (L, LNil)), eng_depth = 8, eng_json = (\<lambda>s. None), eng_lower = (\<lambda>s. s),
      eng_pbkdf2 = (\<lambda>p s n k. []), eng_sha256 = (\<lambda>m. []), eng_db = (\<lambda>h. None),
      eng_render = (\<lambda>L a. []), eng_grid_link = (\<lambda>L a. Inl ''no link''),
      eng_grid_write = (\<lambda>t meta m. None), eng_grid_row = (\<lambda>meta m. GNil), eng_page = (\<lambda>m s. [])\<rparr>"

lemma idle_resume [simp]: "resume idle_engine t args s = Done (ResumeOK [], s)"
  by (simp add: resume_def idle_engine_def)

section \<open>Properties of runs\<close>

text \<open>C2: A suspended coroutine is resumed at most once and never forgotten: in every run, while no
  request identifier is used twice, each resumption answers one registration, no registration is
  answered twice, and the coroutines still waiting are exactly the registered ones that were not
  resumed; the same holds of the sleeping coroutines.\<close>

theorem answers_resume_once:
  assumes "session_run e (NewSession w) s"
    and "distinct (map fst (registrations s))" and "distinct (map fst (sleeps s))"
  shows "distinct (map fst (resumptions s)) \<and> set (resumptions s) \<subseteq> set (registrations s)
    \<and> (\<forall>rid co. (\<exists>op. map_of (asyncOps s) rid = Some op \<and> op_co op = co)
                  \<longleftrightarrow> (rid, co) \<in> set (registrations s) - set (resumptions s))
    \<and> distinct (map fst (wakes s)) \<and> set (wakes s) \<subseteq> set (sleeps s)
    \<and> (\<forall>rid co. map_of (sleepOps s) rid = Some co \<longleftrightarrow> (rid, co) \<in> set (sleeps s) - set (wakes s))"
  using async_run.invariant_run [OF assms(1) NewSession_invariants(1)]
    sleep_run.invariant_run [OF assms(1) NewSession_invariants(2)] assms(2,3)
  by (simp add: async_once_def sleep_once_def exactly_once_def waiting_async_def)

definition clipboard_answer :: inbox_msg where
  "clipboard_answer = (inbox_msg_of InboxClipboardResp)\<lparr>im_respID := ''clipboard_7'', im_resp := ''text''\<rparr>"

definition asked :: session where
  "asked = RequestClipboardGet 7 1 False (NewSession quiet_script)"

definition answered :: session where
  "answered = set_lua (lua (world asked)) (take_op ''clipboard_7'' (plain_op 1 False) asked)"

lemma answered_run: "session_run idle_engine (NewSession quiet_script) answered"
proof -
  have "session_run idle_engine (NewSession quiet_script) asked"
    by (rule run_main [OF run_start, of _ "[CallClipboard 7 1 False]"]) (simp add: asked_def)
  then show ?thesis
  proof (rule run_direct)
    have "itoa 7 = ''7''" by code_simp
    then show "handleInbox idle_engine clipboard_answer asked = Done answered"
      by (simp add: handleInbox_def clipboard_answer_def inbox_msg_of_def resumeAsyncResp_def resume_op_def
          asked_def answered_def RequestClipboardGet_def stamp_def register_def record_event_def
          SendOutbox_def outbox_offer_def NewSession_def session_cap_def Let_def plain_op_def
          after_resume_def take_op_def)
  qed
qed

lemma answered_history:
  "registrations answered = [(''clipboard_7'', 1)]" "resumptions answered = [(''clipboard_7'', 1)]"
  "sleeps answered = []"
proof -
  have "itoa 7 = ''7''" by code_simp
  then show "registrations answered = [(''clipboard_7'', 1)]" "resumptions answered = [(''clipboard_7'', 1)]"
    "sleeps answered = []"
    by (simp_all add: histories answered_def asked_def take_op_def set_lua_def RequestClipboardGet_def
        stamp_def register_def SendOutbox_def outbox_offer_def NewSession_def session_cap_def plain_op_def)
qed

theorem answers_resume_once_witness:
  "map_of (asyncOps answered) ''clipboard_7'' = None"
  using answers_resume_once [OF answered_run] unfolding answered_history
  by (cases "map_of (asyncOps answered) ''clipboard_7''") auto

text \<open>A coroutine that waits on a grid request is never resumed: whatever the page answers, a
  coroutine that no other kind of request registered is resumed by nothing the actor does.\<close>

theorem grid_requests_never_resume:
  assumes "session_run e (NewSession w) s" and "GridRegistered rid co \<in> set (trace s)"
    and "\<forall>r. Registered r co \<notin> set (trace s) \<and> Slept r co \<notin> set (trace s) \<and> FormStored r co \<notin> set (trace s)"
  shows "\<forall>r. Resumed r co \<notin> set (trace s) \<and> Woken r co \<notin> set (trace s) \<and> FormResumed r co \<notin> set (trace s)"
proof -
  have "only_waiting s"
    by (rule waiting_run.invariant_run [OF assms(1) NewSession_invariants(3)])
  moreover have "co \<notin> waiters s"
  proof
    assume "co \<in> waiters s"
    then obtain x where "x \<in> set (trace s)" "co \<in> waits_in x" by (auto simp: waiters_def)
    with assms(3) show False by (cases x) auto
  qed
  ultimately have "co \<notin> woken_up s" by (auto simp: only_waiting_def)
  then show ?thesis by (force simp: woken_up_def)
qed

definition grid_asked :: session where
  "grid_asked = (case RequestGridGetRow 7 3 ''f'' ''g'' (LString ''k'') (NewSession quiet_script) of
     Done s \<Rightarrow> s | _ \<Rightarrow> NewSession quiet_script)"

lemma grid_asked_done:
  "RequestGridGetRow 7 3 ''f'' ''g'' (LString ''k'') (NewSession quiet_script) = Done grid_asked"
  "trace grid_asked = [GridRegistered (stamp ''grid_row_'' 7) 3]"
  by (simp_all add: grid_asked_def RequestGridGetRow_def grid_request_def post_def inbox_offer_def
      record_event_def NewSession_def session_cap_def)

theorem grid_requests_never_resume_witness:
  "\<forall>r. Resumed r 3 \<notin> set (trace grid_asked) \<and> Woken r 3 \<notin> set (trace grid_asked)
       \<and> FormResumed r 3 \<notin> set (trace grid_asked)"
proof (rule grid_requests_never_resume [of idle_engine quiet_script])
  show "session_run idle_engine (NewSession quiet_script) grid_asked"
    by (rule run_main [OF run_start, of _ "[CallGridRow 7 3 ''f'' ''g'' (LString ''k'')]"])
      (simp add: grid_asked_done)
qed (simp_all add: grid_asked_done(2))

section \<open>Grid answers\<close>

definition grid_answer_types :: "inbox_type set" where
  "grid_answer_types = {InboxGridGetSelectedResp, InboxGridGetRowResp, InboxGridDeleteRowResp,
     InboxGridBatchDeleteResp, InboxGridInsertRowResp, InboxGridUpdateRowResp}"

lemma grid_answer_ignored:
  "im_typ m \<in> grid_answer_types \<Longrightarrow> im_respID m \<notin> fst ` set (gridAsyncOps s) \<Longrightarrow> handleInbox e m s = Done s"
  by (auto simp: grid_answer_types_def handleInbox_def handleGridGetSelectedResp_def
      handleGridGetRowResp_def handleGridDeleteRowResp_def handleGridBatchDeleteResp_def
      handleGridInsertRowResp_def handleGridUpdateRowResp_def PostGridGetSelectedResp_def
      PostGridGetRowResp_def PostGridDeleteRowResp_def PostGridBatchDeleteResp_def
      PostGridInsertRowResp_def PostGridUpdateRowResp_def grid_respond_def)

lemma post_room: "length (inbox s) < session_cap \<Longrightarrow> post m s = Done (s\<lparr>inbox := inbox s @ [m]\<rparr>)"
  by (simp add: post_def inbox_offer_def)

end
