(* ===== verification/Session_Messages.thy ===== *)
theory Session_Messages
  imports Session_Properties
begin

text \<open>
  What single messages and calls do, whatever the engine: the grid requests that nobody
  answers, the arguments of \<^verbatim>\<open>k.exec\<close>, the browser events that end the process, the login
  counter, and timers stopped too late.
\<close>

section \<open>Grid requests are answered in vain\<close>

text \<open>
  A request is answered in vain when, on an otherwise empty inbox, the actor takes the request,
  then the answer it posted, and ends with the coroutine out of every map and no event beyond
  its registration.
\<close>

definition answered_in_vain :: "engine \<Rightarrow> act \<Rightarrow> nat \<Rightarrow> session \<Rightarrow> bool" where
  "answered_in_vain e a co s \<longleftrightarrow>
     (\<exists>rid s1 m1 s2 m2 s3.
        perform e a s = Done s1 \<and> inbox s1 = [m1] \<and>
        handleInbox e m1 (s1\<lparr>inbox := []\<rparr>) = Done s2 \<and> inbox s2 = [m2] \<and>
        handleInbox e m2 (s2\<lparr>inbox := []\<rparr>) = Done s3 \<and> inbox s3 = [] \<and>
        trace s3 = trace s @ [GridRegistered rid co] \<and> rid \<notin> fst ` set (gridAsyncOps s3) \<and>
        asyncOps s3 = asyncOps s \<and> sleepOps s3 = sleepOps s \<and> formCoros s3 = formCoros s)"

lemma SendOutbox_outbox: "\<exists>out. SendOutbox m s = s\<lparr>outbox := out\<rparr>"
proof (cases "length (outbox s) < session_cap")
  case False
  then have "SendOutbox m s = s\<lparr>outbox := outbox s\<rparr>" by (simp add: SendOutbox_def outbox_offer_def)
  then show ?thesis ..
qed (auto simp: SendOutbox_def outbox_offer_def)

definition answers_as :: "inbox_type \<Rightarrow> string \<Rightarrow> session outcome \<Rightarrow> session \<Rightarrow> bool" where
  "answers_as t rid r s \<longleftrightarrow> (\<exists>g out. r = grid_respond t rid g (s\<lparr>outbox := out\<rparr>))"

lemma answers_as_respond [simp]: "answers_as t rid (grid_respond t rid g s) s"
  unfolding answers_as_def by (rule exI [of _ g], rule exI [of _ "outbox s"]) simp

lemma answers_as_refresh [simp]: "answers_as t rid (grid_respond t rid g (gridRefresh f c s)) s"
proof -
  obtain out where "gridRefresh f c s = s\<lparr>outbox := out\<rparr>"
    unfolding gridRefresh_def using SendOutbox_outbox by blast
  then show ?thesis unfolding answers_as_def by (metis (no_types))
qed

lemma answers_as_write:
  assumes "\<And>b err s. \<exists>g. answer b err s = grid_respond t rid g s"
  shows "answers_as t rid (grid_write e answer v c m s) s"
proof -
  have "answers_as t rid (answer b err s) s" "answers_as t rid (answer b err (gridRefresh f c' s)) s" for b err f c'
    using assms [of b err s] assms [of b err "gridRefresh f c' s"] by (metis answers_as_respond answers_as_refresh)+
  then show ?thesis by (simp add: grid_write_def split: sum.split option.split)
qed

lemma delete_gone: "rid \<notin> fst ` set (AList.delete rid xs)"
  by (auto simp: AList.delete_eq)

lemma grid_respond_found:
  assumes "rid \<in> fst ` set (gridAsyncOps t)" and "inbox t = []"
  shows "grid_respond ty rid g t =
    Done (t\<lparr>gridAsyncOps := AList.delete rid (gridAsyncOps t), inbox := [(inbox_msg_of ty)\<lparr>im_respID := rid, im_raw := g\<rparr>]\<rparr>)"
  using assms by (simp add: grid_respond_def post_def inbox_offer_def session_cap_def)

lemma grid_in_vain:
  assumes call: "perform e a s = grid_request rid m co s" and empty: "inbox s = []"
    and ty: "ty \<in> grid_answer_types"
    and answer: "\<And>t. answers_as ty rid (handleInbox e (m\<lparr>im_respID := rid\<rparr>) t) t"
  shows "answered_in_vain e a co s"
proof -
  define t where "t = record_event (GridRegistered rid co) (s\<lparr>gridAsyncOps := AList.update rid co (gridAsyncOps s)\<rparr>)"
  have t: "inbox t = []" "gridAsyncOps t = AList.update rid co (gridAsyncOps s)"
      "trace t = trace s @ [GridRegistered rid co]" "asyncOps t = asyncOps s" "sleepOps t = sleepOps s"
      "formCoros t = formCoros s"
    using empty by (simp_all add: t_def record_event_def)
  have key: "rid \<in> fst ` set (gridAsyncOps t)"
    unfolding t(2) by (metis domI dom_map_of_conv_image_fst fun_upd_same map_of_update)
  obtain g out where h: "handleInbox e (m\<lparr>im_respID := rid\<rparr>) t = grid_respond ty rid g (t\<lparr>outbox := out\<rparr>)"
    using answer unfolding answers_as_def by blast
  define m1 where "m1 = m\<lparr>im_respID := rid\<rparr>"
  define m2 where "m2 = (inbox_msg_of ty)\<lparr>im_respID := rid, im_raw := g\<rparr>"
  define s1 where "s1 = t\<lparr>inbox := [m1]\<rparr>"
  define s2 where "s2 = t\<lparr>outbox := out, gridAsyncOps := AList.delete rid (gridAsyncOps t), inbox := [m2]\<rparr>"
  have p: "perform e a s = Done s1" "inbox s1 = [m1]" "s1\<lparr>inbox := []\<rparr> = t"
    using t(1) unfolding call grid_request_def t_def [symmetric] s1_def m1_def
    by (simp_all add: post_room session_cap_def)
  have q: "handleInbox e m1 t = Done s2" "inbox s2 = [m2]"
    unfolding m1_def h s2_def m2_def by (simp_all add: grid_respond_found key t(1))
  have r: "handleInbox e m2 (s2\<lparr>inbox := []\<rparr>) = Done (s2\<lparr>inbox := []\<rparr>)"
    by (rule grid_answer_ignored) (use ty in \<open>simp_all add: m2_def s2_def inbox_msg_of_def delete_gone\<close>)
  have z: "trace (s2\<lparr>inbox := []\<rparr>) = trace s @ [GridRegistered rid co]"
      "rid \<notin> fst ` set (gridAsyncOps (s2\<lparr>inbox := []\<rparr>))" "asyncOps (s2\<lparr>inbox := []\<rparr>) = asyncOps s"
      "sleepOps (s2\<lparr>inbox := []\<rparr>) = sleepOps s" "formCoros (s2\<lparr>inbox := []\<rparr>) = formCoros s" "inbox (s2\<lparr>inbox := []\<rparr>) = []"
    using t by (simp_all add: s2_def delete_gone)
  from p q r z show ?thesis unfolding answered_in_vain_def by metis
qed

lemma grid_msg_typ [simp]: "im_typ (grid_msg t f c vs) = t" "im_typ (m\<lparr>im_raw := r\<rparr>) = im_typ m"
    "im_typ (m\<lparr>im_respID := rid\<rparr>) = im_typ m"
  by (simp_all add: grid_msg_def inbox_msg_of_def)

lemma grid_handlers_answer:
  "im_typ m = InboxGridGetRow \<Longrightarrow> answers_as InboxGridGetRowResp (im_respID m) (handleInbox e m t) t"
  "im_typ m = InboxGridDeleteRow \<Longrightarrow> answers_as InboxGridDeleteRowResp (im_respID m) (handleInbox e m t) t"
  "im_typ m = InboxGridBatchDeleteReq \<Longrightarrow> answers_as InboxGridBatchDeleteResp (im_respID m) (handleInbox e m t) t"
  "im_typ m = InboxGridUpdateRow \<Longrightarrow> answers_as InboxGridUpdateRowResp (im_respID m) (handleInbox e m t) t"
  by (auto simp: handleInbox_def handleGridGetRow_def handleGridDeleteRow_def handleGridBatchDeleteReq_def
      handleGridUpdateRow_def PostGridGetRowResp_def PostGridDeleteRowResp_def PostGridBatchDeleteResp_def
      PostGridUpdateRowResp_def split: sum.split intro!: answers_as_write)

lemma grid_insert_answers:
  "im_typ m = InboxGridInsertRow \<Longrightarrow> answers_as InboxGridInsertRowResp (im_respID m) (handleInbox e m t) t"
  by (auto simp: handleInbox_def handleGridInsertRow_def PostGridInsertRowResp_def intro!: answers_as_write)

text \<open>C11: The five grid calls that read or change a row never return to the script: on an idle
  session the actor takes the request, the database statement runs, the answer it posts is
  ignored, and afterwards no map holds the coroutine any more and nothing has resumed it.\<close>

theorem grid_calls_never_return:
  assumes "inbox s = []"
  shows "answered_in_vain e (CallGridRow now co form ctrl pk) co s
    \<and> answered_in_vain e (CallGridDelete now co form ctrl pk) co s
    \<and> answered_in_vain e (CallGridBatch now co form ctrl pks) co s
    \<and> answered_in_vain e (CallGridInsert now co form ctrl vals) co s
    \<and> answered_in_vain e (CallGridUpdate now co form ctrl pk vals) co s"
proof -
  note answer = grid_handlers_answer [where m = "(m :: inbox_msg)\<lparr>im_respID := r\<rparr>" for m r, simplified]
    grid_insert_answers [where m = "(m :: inbox_msg)\<lparr>im_respID := r\<rparr>" for m r, simplified]
  have "perform e (CallGridRow now co form ctrl pk) s
      = grid_request (stamp ''grid_row_'' now) (grid_msg InboxGridGetRow form ctrl [(''pk'', pk)]) co s"
    "perform e (CallGridDelete now co form ctrl pk) s
      = grid_request (stamp ''grid_del_'' now) (grid_msg InboxGridDeleteRow form ctrl [(''pk'', pk)]) co s"
    "perform e (CallGridBatch now co form ctrl pks) s
      = grid_request (stamp ''grid_bdel_'' now) (grid_msg InboxGridBatchDeleteReq form ctrl (map (Pair ''pks'') pks)) co s"
    "perform e (CallGridUpdate now co form ctrl pk vals) s
      = grid_request (stamp ''grid_upd_'' now) (grid_msg InboxGridUpdateRow form ctrl ((''pk'', pk) # vals)) co s"
    "perform e (CallGridInsert now co form ctrl vals) s
      = grid_request (stamp ''grid_ins_'' now) ((grid_msg InboxGridInsertRow form ctrl vals)\<lparr>im_raw := GMap []\<rparr>) co s"
    by (simp_all add: RequestGridGetRow_def RequestGridDeleteRow_def RequestGridBatchDelete_def
      RequestGridUpdateRow_def RequestGridInsertRow_def)
  note vain = this [THEN grid_in_vain, OF assms]
  show ?thesis
    by (intro conjI vain(1) [OF _ answer(1)] vain(2) [OF _ answer(2)] vain(3) [OF _ answer(3)]
        vain(4) [OF _ answer(4)] vain(5) [OF _ answer(5)]) (simp_all add: grid_answer_types_def)
qed

theorem grid_calls_never_return_witness:
  "answered_in_vain idle_engine (CallGridRow 7 3 ''f'' ''g'' (LString ''k'')) 3 (NewSession quiet_script)"
  using grid_calls_never_return [of "NewSession quiet_script" idle_engine 7 3 "''f''" "''g''" "LString ''k''"]
  by (simp add: NewSession_def)

section \<open>The arguments of k.exec\<close>

lemma inbox_empty_update: "inbox s = [] \<Longrightarrow> s\<lparr>inbox := []\<rparr> = s"
  by simp

lemma exec_args_text:
  "exec_args e (map (\<lambda>v. GOther (lv_string (eng_show e) v)) args) s
     = (s, map (\<lambda>v. LString (lv_string (eng_show e) v)) args)"
  by (induction args) (simp_all add: to_lua_def set_lua_def)

text \<open>The function that \<^verbatim>\<open>k.exec\<close> runs never sees the arguments it was given: on an idle
  session it is called with the printed text of each, numbers, booleans and tables included, and
  its first results are then handed to the waiting caller.\<close>

theorem exec_args_become_text:
  assumes "inbox s = []"
  shows "andThen (perform e (CallExec now co cn fn args) s)
           (\<lambda>s1. handleInbox e (hd (inbox s1)) (s1\<lparr>inbox := tl (inbox s1)\<rparr>))
       = andThen (resume e (Fresh fn) (map (\<lambda>v. Some (LString (lv_string (eng_show e) v))) args)
                    (register (stamp ''exec_'' now) (plain_op co cn) s))
           (exec_finish e (stamp ''exec_'' now))"
proof -
  let ?rid = "stamp ''exec_'' now"
  let ?s = "register ?rid (plain_op co cn) s"
  have found: "map_of (asyncOps ?s) ?rid \<noteq> None" by (simp add: register_def record_event_def)
  have "inbox ?s = []" using assms by (simp add: register_def record_event_def)
  moreover have "(if map_of (asyncOps ?s) ?rid = None then a else b) = b" for a b :: "session outcome"
    using found by (rule if_not_P)
  ultimately show ?thesis
    by (simp add: RequestExec_def Let_def post_room session_cap_def handleInbox_def inbox_msg_of_def
        handleExec_def exec_args_text comp_def inbox_empty_update del: not_None_eq split del: if_split)
qed

theorem exec_args_become_text_witness:
  "andThen (perform idle_engine (CallExec 7 1 False 4 [LBool True, LNumber (float_of_int 2)]) (NewSession quiet_script))
     (\<lambda>s1. handleInbox idle_engine (hd (inbox s1)) (s1\<lparr>inbox := tl (inbox s1)\<rparr>))
   = Done (after_resume idle_engine (plain_op 1 False) (ResumeOK [],
       take_op (stamp ''exec_'' 7) (plain_op 1 False)
         (register (stamp ''exec_'' 7) (plain_op 1 False) (NewSession quiet_script))))"
  by (subst exec_args_become_text)
    (simp_all add: NewSession_def exec_finish_def exec_result_def resumeAsyncResp_def resume_op_def
      register_def record_event_def take_op_def set_lua_def)

section \<open>Events that end the process\<close>

lemma andThen_Panicked: "andThen r f = Panicked \<longleftrightarrow> r = Panicked \<or> (\<exists>x. r = Done x \<and> f x = Panicked)"
  by (cases r) auto

lemma post_not_Panicked [simp]: "post m s \<noteq> Panicked"
  by (simp add: post_def split: prod.split bool.split)

lemma perform_not_Panicked [simp]:
  "perform e a s \<noteq> Panicked" "perform_all e as s \<noteq> Panicked" "run_turn e t s \<noteq> Panicked"
  by (induction e a s and e as s and e t s rule: perform_perform_all_run_turn.induct)
    (auto simp: andThen_Panicked RequestExec_def Let_def grid_request_def PostEvent_def PostFormEvent_def
      RequestGridGetSelected_def RequestGridGetRow_def RequestGridDeleteRow_def RequestGridBatchDelete_def
      RequestGridInsertRow_def RequestGridUpdateRow_def split: option.split)

lemma resume_not_Panicked [simp]: "resume e t args s \<noteq> Panicked"
  by (simp add: resume_def)

lemma handlers_not_Panicked [simp]:
  "runFormHandler e f k ev args s \<noteq> Panicked" "runOptFunction e fn args s \<noteq> Panicked"
  "runFormHandlerSync e f k ev vs s \<noteq> Panicked" "ResumeFormCoroWith e f v s \<noteq> Panicked"
  by (auto simp: runFormHandler_def runOptFunction_def runFormHandlerSync_def ResumeFormCoroWith_def
      andThen_Panicked Let_def split: option.split prod.split)

lemma dispatch_not_Panicked [simp]: "dispatch e m args fallback s \<noteq> Panicked"
  by (auto simp: dispatch_def andThen_Panicked)

lemma login_not_Panicked [simp]: "handleLoginSubmit e f c l p s \<noteq> Panicked"
  by (auto simp: handleLoginSubmit_def handleLoginError_def login_accepted_def andThen_Panicked Let_def
      split: option.split sum.split prod.split)

lemma branches_not_Panicked [simp]:
  "tab_event e m v t s \<noteq> Panicked" "tree_select e m v t s \<noteq> Panicked" "sidebar_select e m v t s \<noteq> Panicked"
  "handleAIChatClose e f s \<noteq> Panicked"
  by (auto simp: tab_event_def tree_select_def sidebar_select_def handleAIChatClose_def andThen_Panicked Let_def
      split: option.split prod.split lua_value.split)

lemma with_table_Panicked:
  "(\<And>t. f t \<noteq> Panicked) \<Longrightarrow> with_table v f = Panicked \<longleftrightarrow> (\<forall>t. v \<noteq> Some (LTable t))"
  by (auto simp: with_table_def split: option.split lua_value.split)

text \<open>The kinds of event whose handler needs a table, and does not check that it has one.\<close>

definition needs_table :: "ws_flags \<Rightarrow> string \<Rightarrow> bool" where
  "needs_table fl ev \<longleftrightarrow> (fl_login fl \<and> ev = ''on_login_submit'') \<or> (fl_layout fl \<and> ev = ''sidebar_select'')
     \<or> ((fl_ai fl \<or> fl_ai_control fl) \<and> ev = ''ai_chat_send'')"

lemma has_field_table: "has_field L v k \<Longrightarrow> \<exists>t. v = Some (LTable t)"
  by (auto simp: has_field_def split: option.splits lua_value.splits)

lemma flags_table:
  assumes "fl = ws_flags_of sh L m v" and "fl_looper fl \<or> fl_chart fl \<or> fl_tree fl \<or> fl_tab fl"
  shows "\<exists>t. v = Some (LTable t)"
  using assms by (auto simp: ws_flags_of_def Let_def dest: has_field_table)

lemma if_not_Panicked: "x \<noteq> Panicked \<Longrightarrow> y \<noteq> Panicked \<Longrightarrow> (if b then x else y) \<noteq> Panicked"
  by simp

lemma ws_switch_table: "ws_switch e fl m (Some (LTable t)) s \<noteq> Panicked"
  unfolding ws_switch_def with_table_def Let_def by (intro if_not_Panicked) simp_all

lemma ws_switch_no_table:
  assumes "\<forall>t. v \<noteq> Some (LTable t)" and "\<not> fl_looper fl" "\<not> fl_chart fl" "\<not> fl_tree fl" "\<not> fl_tab fl"
  shows "ws_switch e fl m v s = Panicked \<longleftrightarrow> needs_table fl (im_event m)"
proof -
  have "with_table v f = Panicked" for f
    using assms(1) by (simp add: with_table_def split: option.split lua_value.split)
  then show ?thesis
    using assms(2-) by (simp add: ws_switch_def needs_table_def Let_def, blast)
qed

text \<open>C18: A browser event ends the whole process exactly when it is a login, a sidebar choice or an
  AI chat message for a control of that kind and its value is not an object: those handlers assert
  the type of the value without checking it; every other event, whatever it carries, does not.\<close>

theorem malformed_event_crashes:
  assumes "event_value e m s = (s1, v)" and "fl = ws_flags_of (eng_show e) (lua (world s1)) m v"
  shows "handleWSEvent e m s = Panicked \<longleftrightarrow> needs_table fl (im_event m) \<and> (\<forall>t. v \<noteq> Some (LTable t))"
proof -
  obtain s2 where h: "handleWSEvent e m s = ws_switch e fl m v s2"
    by (simp add: handleWSEvent_def assms(1) assms(2) [symmetric])
  show ?thesis
  proof (cases "\<exists>t. v = Some (LTable t)")
    case True
    then show ?thesis using ws_switch_table by (auto simp: h)
  next
    case False
    with flags_table [OF assms(2)] show ?thesis
      unfolding h using ws_switch_no_table [of v fl e m s2] by blast
  qed
qed

definition login_page :: script_world where
  "login_page = quiet_script\<lparr>lua :=
     RawSetString 0 ''controls'' (LTable 1) (RawSetString 1 ''login1'' (LTable 2)
       (RawSetString 2 ''type'' (LString ''login'') (SetGlobal ''home'' (LTable 0) blank_state)))\<rparr>"

definition valueless_login :: inbox_msg where
  "valueless_login = (inbox_msg_of InboxWSEvent)\<lparr>im_form := ''home'', im_ctrl := ''login1'', im_event := ''on_login_submit''\<rparr>"

theorem malformed_event_crashes_witness:
  "handleWSEvent idle_engine valueless_login (NewSession login_page) = Panicked"
  by (subst malformed_event_crashes [OF _ refl, of _ _ _ "NewSession login_page" None])
    (simp_all add: event_value_def valueless_login_def inbox_msg_of_def needs_table_def ws_flags_of_def Let_def
      isLoginControl_def controlType_def controlTable_def form_table_def sub_table_def NewSession_def login_page_def
      GetGlobal_def SetGlobal_def)

section \<open>The login counter\<close>

text \<open>Failed logins are counted in a circle and never refused: with \<open>limit\<close> attempts configured and
  \<open>n\<close> already counted, the counter becomes \<open>n + 1\<close> modulo \<open>limit\<close> and the error handler is told the
  rest; after the last attempt the counter is zero again.\<close>

theorem login_attempts_cycle:
  assumes "RawGetString (lua (world s)) a ''attempts'' = LNumber (float_of_int limit)"
    and "RawGetString (lua (world s)) a ''attempt'' = LNumber (float_of_int n)"
    and "0 \<le> n" and "n < limit" and "limit \<le> 2 ^ 53"
  shows "\<exists>msg s1. handleLoginError e form ctrl a dflt s
         = andThen (runFormHandler e form ctrl ''on_login_error''
                     [Some (LString msg), Some (LNumber (float_of_int (limit - (n + 1))))] s1) (\<lambda>(_, s2). Done s2)
       \<and> RawGetString (lua (world s1)) a ''attempt'' = LNumber (float_of_int ((n + 1) mod limit))"
proof -
  have opts: "int_option (eng_parse e) (lua (world s)) a ''attempts'' 3 = limit"
    "int_option (eng_parse e) (lua (world s)) a ''attempt'' 0 = n"
    using assms by (simp_all add: int_option_def go_int_float_of_int)
  have small: "wrap64 (n + 1) = n + 1" "wrap64 (limit - (n + 1)) = limit - (n + 1)"
    using assms(3-5) by (simp_all add: wrap64_id in_int64_def min_int64_def max_int64_def)
  have wraps: "limit \<le> n + 1 \<longleftrightarrow> n + 1 = limit" "(n + 1) mod limit = (if n + 1 = limit then 0 else n + 1)"
    using assms(3,4) by auto
  define L where "L = lua (world s)"
  show ?thesis
    unfolding handleLoginError_def Let_def L_def [symmetric] opts [folded L_def] small wraps
    by (intro exI conjI, rule arg_cong2 [where f = andThen])
      (rule arg_cong2 [where f = "runFormHandler e form ctrl ''on_login_error''"], auto simp: set_lua_def SendOutbox_def outbox_offer_def)
qed

definition third_failure :: session where
  "third_failure = NewSession (quiet_script\<lparr>lua :=
     RawSetString 2 ''attempts'' (LNumber (float_of_int 3)) (RawSetString 2 ''attempt'' (LNumber (float_of_int 2)) blank_state)\<rparr>)"

theorem login_attempts_cycle_witness:
  "\<exists>msg s1. handleLoginError idle_engine ''home'' ''login1'' 2 ''no'' third_failure
     = andThen (runFormHandler idle_engine ''home'' ''login1'' ''on_login_error''
                 [Some (LString msg), Some (LNumber (float_of_int 0))] s1) (\<lambda>(_, s2). Done s2)
     \<and> RawGetString (lua (world s1)) 2 ''attempt'' = LNumber (float_of_int 0)"
  using login_attempts_cycle [of third_failure 2 3 2 idle_engine "''home''" "''login1''" "''no''"]
  by (simp add: third_failure_def NewSession_def)

section \<open>Timers stopped too late\<close>

lemma timer_objs_updates [simp]:
  "p < length (timer_objs s) \<Longrightarrow> timer_objs (set_phase p ph s) = (timer_objs s)[p := (timer_objs s ! p)\<lparr>tm_phase := ph\<rparr>]"
  "timers (set_phase p ph s) = timers s" "inbox (set_phase p ph s) = inbox s"
  by (simp_all add: set_phase_def)

lemma timer_Stop_simps [simp]:
  "timers (timer_Stop p s) = timers s" "inbox (timer_Stop p s) = inbox s"
  "tm_phase (timer_objs s ! p) = Armed \<Longrightarrow> timer_Stop p s = set_phase p Idle s"
  "tm_phase (timer_objs s ! p) \<noteq> Armed \<Longrightarrow> timer_Stop p s = s"
  by (simp_all add: timer_Stop_def set_phase_def)

text \<open>Stopping a timer is only final while its callback is not running. A stopped timer that was
  armed cannot expire any more; a repeating timer stopped between its expiry and the end of its
  callback is armed again by that callback, under no name, and no later stop reaches it.\<close>

theorem StopTimer_too_late:
  assumes "map_of (timers s) tid = Some p" and "p < length (timer_objs s)"
    and "tm_phase (timer_objs s ! p) = Armed" and "length (inbox s) < session_cap"
  shows "timer_fire p (StopTimer tid s) = None
    \<and> (\<exists>s1 s2. timer_fire p s = Some s1 \<and> timer_callback p (StopTimer tid s1) = Done s2
         \<and> map_of (timers s2) tid = None \<and> StopTimer tid s2 = s2
         \<and> (timer_fire p s2 \<noteq> None \<longleftrightarrow> tm_repeats (timer_objs s ! p)))"
proof
  have gone: "map_of (AList.delete tid xs) tid = None" for xs :: "(string \<times> nat) list"
    by (simp add: delete_conv')
  show "timer_fire p (StopTimer tid s) = None"
    using assms by (simp add: StopTimer_def timer_fire_def)
  define s1 where "s1 = set_phase p Firing s"
  define s2 where "s2 = set_phase p (if tm_repeats (timer_objs s ! p) then Armed else Idle)
      (s1\<lparr>timers := AList.delete tid (timers s), inbox := inbox s @ [tm_msg (timer_objs s ! p)]\<rparr>)"
  have "timer_fire p s = Some s1" using assms by (simp add: timer_fire_def s1_def)
  moreover have "timer_callback p (StopTimer tid s1) = Done s2"
    using assms by (simp add: StopTimer_def timer_callback_def s1_def s2_def post_room)
  moreover have "map_of (timers s2) tid = None" by (simp add: s2_def gone)
  moreover from this have "StopTimer tid s2 = s2" by (simp add: StopTimer_def)
  moreover have "timer_fire p s2 \<noteq> None \<longleftrightarrow> tm_repeats (timer_objs s ! p)"
    using assms(2) by (simp add: timer_fire_def s2_def s1_def)
  ultimately show "\<exists>s1 s2. timer_fire p s = Some s1 \<and> timer_callback p (StopTimer tid s1) = Done s2
         \<and> map_of (timers s2) tid = None \<and> StopTimer tid s2 = s2
         \<and> (timer_fire p s2 \<noteq> None \<longleftrightarrow> tm_repeats (timer_objs s ! p))"
    by blast
qed

theorem StopTimer_too_late_witness:
  "\<exists>s1 s2. timer_fire 0 (StartTimer ''tick'' 5 True (NewSession quiet_script)) = Some s1
     \<and> timer_callback 0 (StopTimer ''tick'' s1) = Done s2 \<and> timer_fire 0 s2 \<noteq> None"
  using StopTimer_too_late [of "StartTimer ''tick'' 5 True (NewSession quiet_script)" "''tick''" 0]
  by (auto simp: StartTimer_def NewSession_def stop_found_def new_timer_def session_cap_def)

section \<open>Closing every form\<close>

lemma startIdleTimer_keeps [simp]:
  "inbox (startIdleTimer f s) = inbox s" "formStack (startIdleTimer f s) = formStack s" "ended (startIdleTimer f s) = ended s"
  by (auto simp: startIdleTimer_def stop_found_def timer_Stop_def set_phase_def new_timer_def Let_def split: option.split)

lemma stopIdleTimer_keeps [simp]:
  "inbox (stopIdleTimer f s) = inbox s" "formStack (stopIdleTimer f s) = formStack s" "ended (stopIdleTimer f s) = ended s"
  by (auto simp: stopIdleTimer_def timer_Stop_def set_phase_def split: option.split)

lemma PopForm_keeps:
  "formStack s \<noteq> [] \<Longrightarrow> inbox (fst (PopForm s)) = inbox s"
  "formStack s \<noteq> [] \<Longrightarrow> formStack (fst (PopForm s)) = butlast (formStack s)"
  "formStack s \<noteq> [] \<Longrightarrow> ended (fst (PopForm s)) = ended s"
  "formStack s \<noteq> [] \<Longrightarrow> snd (PopForm s) = last (formStack s)"
  by (simp_all add: PopForm_def Let_def)

definition close_events :: "string list \<Rightarrow> inbox_msg list" where
  "close_events fs = map (\<lambda>f. (inbox_msg_of InboxFormEvent)\<lparr>im_form := f, im_event := ''close_form''\<rparr>) (rev fs)"

lemma teardown_loop_posts:
  assumes "n = length (formStack s)" and "length (inbox s) + n \<le> session_cap"
  shows "\<exists>s'. teardown_loop n s = Done s' \<and> formStack s' = [] \<and> inbox s' = inbox s @ close_events (formStack s)
              \<and> ended s' = ended s"
  using assms
proof (induction n arbitrary: s)
  case (Suc n)
  then have ne: "formStack s \<noteq> []" and room: "length (inbox s) < session_cap" by auto
  have size: "length (formStack s) - Suc 0 = n" "Suc (length (inbox s) + n) \<le> session_cap"
    using Suc.prems by simp_all
  let ?s = "fst (PopForm s)"
  let ?m = "(inbox_msg_of InboxFormEvent)\<lparr>im_form := last (formStack s), im_event := ''close_form''\<rparr>"
  let ?t = "?s\<lparr>inbox := inbox s @ [?m]\<rparr>"
  have "teardown_loop (Suc n) s = teardown_loop n ?t"
    using room ne by (simp add: case_prod_beta Let_def PostFormEvent_def PopForm_keeps post_room)
  moreover obtain s' where "teardown_loop n ?t = Done s'" "formStack s' = []" "ended s' = ended s"
      "inbox s' = inbox ?t @ close_events (butlast (formStack s))"
    using Suc.IH [of ?t] size ne by (auto simp: PopForm_keeps)
  moreover have "close_events (formStack s) = ?m # close_events (butlast (formStack s))"
    using ne by (cases "formStack s" rule: rev_exhaust) (simp_all add: close_events_def)
  ultimately show ?case by simp
qed (simp add: close_events_def)

text \<open>Tearing a session down empties the form stack and posts one \<^verbatim>\<open>close_form\<close> event per open
  form, the top form first, followed by the page's \<^verbatim>\<open>quit\<close>, while the inbox has room for them.\<close>

theorem teardown_closes_forms:
  assumes "length (inbox s) + length (formStack s) \<le> session_cap" and "\<not> ended s"
  shows "\<exists>s'. teardown s = Done s' \<and> formStack s' = [] \<and> inbox s' = inbox s @ close_events (formStack s)
              \<and> Type (last (outbox s')) = ''quit''"
  using teardown_loop_posts [OF refl assms(1)] assms(2)
  by (auto simp: teardown_def send_blocking_def)

theorem teardown_closes_forms_witness:
  "\<exists>s'. teardown (NewSession quiet_script\<lparr>formStack := [''home'', ''edit'']\<rparr>) = Done s'
        \<and> inbox s' = close_events [''home'', ''edit'']"
  using teardown_closes_forms [of "NewSession quiet_script\<lparr>formStack := [''home'', ''edit'']\<rparr>"]
  by (auto simp: NewSession_def session_cap_def)

end
