(* ===== verification/Line_Diff.thy ===== *)
theory Line_Diff
  imports Go_Text "HOL-Library.Sublist"
begin

text \<open>
  \<^verbatim>\<open>Diff\<close> of \<^verbatim>\<open>internal/format/format.go\<close>: the line diff that \<^verbatim>\<open>check -d\<close> prints. The
  table of common-subsequence lengths is built from the last line backwards, the walk reads it
  from the front and emits kept, added and removed lines, and runs of changed lines become hunks.
\<close>

section \<open>The table\<close>

text \<open>One row from the row below it; \<open>rn\<close> starts at the column of the first line of the second list.\<close>

fun lcs_row :: "string \<Rightarrow> string list \<Rightarrow> nat list \<Rightarrow> nat list" where
  "lcs_row x [] rn = [0]"
| "lcs_row x (y # ys) rn =
     (let r = lcs_row x ys (tl rn)
      in (if x = y then hd (tl rn) + 1 else if hd r \<le> hd rn then hd rn else hd r) # r)"

fun lcs_table :: "string list \<Rightarrow> string list \<Rightarrow> nat list list" where
  "lcs_table [] b = [replicate (Suc (length b)) 0]"
| "lcs_table (x # xs) b = (let t = lcs_table xs b in lcs_row x b (hd t) # t)"

section \<open>The walk\<close>

text \<open>Line numbers count from 1; 0 marks the side a line is not on.\<close>

datatype dkind = Kept | Added | Removed

record dline =
  dl_kind :: dkind
  dl_text :: string
  dl_a :: nat
  dl_b :: nat

function walk :: "nat list list \<Rightarrow> string list \<Rightarrow> string list \<Rightarrow> nat \<Rightarrow> nat \<Rightarrow> nat \<Rightarrow> nat \<Rightarrow> dline list" where
  "walk dp a b i j aNo bNo =
     (if i < length a \<and> j < length b \<and> a ! i = b ! j then
        \<lparr>dl_kind = Kept, dl_text = a ! i, dl_a = aNo + 1, dl_b = bNo + 1\<rparr>
          # walk dp a b (i + 1) (j + 1) (aNo + 1) (bNo + 1)
      else if j < length b \<and> (length a \<le> i \<or> dp ! (i + 1) ! j \<le> dp ! i ! (j + 1)) then
        \<lparr>dl_kind = Added, dl_text = b ! j, dl_a = 0, dl_b = bNo + 1\<rparr> # walk dp a b i (j + 1) aNo (bNo + 1)
      else if i < length a then
        \<lparr>dl_kind = Removed, dl_text = a ! i, dl_a = aNo + 1, dl_b = 0\<rparr> # walk dp a b (i + 1) j (aNo + 1) bNo
      else [])"
  by pat_completeness auto
termination
  by (relation "measure (\<lambda>(dp, a, b, i, j, _). (length a - i) + (length b - j))") auto

declare walk.simps [simp del]

definition diff_lines :: "string list \<Rightarrow> string list \<Rightarrow> dline list" where
  "diff_lines a b = walk (lcs_table a b) a b 0 0 0 0"

section \<open>Hunks and text\<close>

definition changed :: "dline \<Rightarrow> bool" where
  "changed d \<longleftrightarrow> dl_kind d \<noteq> Kept"

function hunks :: "dline list \<Rightarrow> dline list list" where
  "hunks dl =
     (case dropWhile (\<lambda>d. \<not> changed d) dl of
        [] \<Rightarrow> []
      | d # ds \<Rightarrow> takeWhile changed (d # ds) # hunks (dropWhile changed (d # ds)))"
  by pat_completeness auto
termination
proof (relation "measure length")
  fix dl :: "dline list" and d ds
  assume e: "dropWhile (\<lambda>d. \<not> changed d) dl = d # ds"
  then have "changed d" using hd_dropWhile [of "\<lambda>d. \<not> changed d" dl] by (simp add: e)
  moreover have "length (d # ds) \<le> length dl"
    unfolding e [symmetric] by (rule length_dropWhile_le)
  ultimately show "(dropWhile changed (d # ds), dl) \<in> measure length"
    using length_dropWhile_le [of changed ds] by simp
qed simp

declare hunks.simps [simp del]

text \<open>The range \<^verbatim>\<open>aS, aE\<close> of a run over one side: the numbers that are not zero.\<close>

definition widen :: "nat \<Rightarrow> nat \<times> nat \<Rightarrow> nat \<times> nat" where
  "widen k r =
     (if k = 0 then r
      else if fst r = 0 then (k, k)
      else (if k < fst r then k else fst r, if snd r < k then k else snd r))"

definition side_range :: "(dline \<Rightarrow> nat) \<Rightarrow> dline list \<Rightarrow> nat \<times> nat" where
  "side_range f run = fold (\<lambda>d r. widen (f d) r) run (0, 0)"

definition range_count :: "nat \<times> nat \<Rightarrow> nat" where
  "range_count r = (if 0 < fst r then snd r - fst r + 1 else 0)"

definition kind_char :: "dkind \<Rightarrow> char" where
  "kind_char k = (case k of Kept \<Rightarrow> CHR '' '' | Added \<Rightarrow> CHR ''+'' | Removed \<Rightarrow> CHR ''-'')"

definition hunk_text :: "dline list \<Rightarrow> string" where
  "hunk_text run =
     (let ra = side_range dl_a run; rb = side_range dl_b run
      in ''@@ -'' @ itoa (int (fst ra)) @ '','' @ itoa (int (range_count ra))
         @ '' +'' @ itoa (int (fst rb)) @ '','' @ itoa (int (range_count rb)) @ '' @@'' @ [CHR 0x0A]
         @ concat (map (\<lambda>d. kind_char (dl_kind d) # dl_text d @ [CHR 0x0A]) run))"

text \<open>\<^verbatim>\<open>strings.Split\<close> at newlines, without the empty piece after a final newline.\<close>

definition text_lines :: "string \<Rightarrow> string list" where
  "text_lines s =
     (let a = split_on (CHR 0x0A) s in if a \<noteq> [] \<and> last a = [] then butlast a else a)"

definition Diff :: "string \<Rightarrow> string \<Rightarrow> string \<Rightarrow> string" where
  "Diff path before after =
     (if before = after then []
      else ''--- '' @ path @ [CHR 0x0A] @ ''+++ '' @ path @ [CHR 0x0A]
           @ concat (map hunk_text (hunks (diff_lines (text_lines before) (text_lines after)))))"

section \<open>The walk is an edit script\<close>

text \<open>Whatever the table holds, the walk spells out both sides from where it stands.\<close>

definition side_text :: "dkind \<Rightarrow> dline list \<Rightarrow> string list" where
  "side_text k dl = map dl_text (filter (\<lambda>d. dl_kind d \<noteq> k) dl)"

lemma side_text_simps [simp]:
  "side_text k [] = []"
  "side_text k (d # ds) = (if dl_kind d = k then side_text k ds else dl_text d # side_text k ds)"
  by (simp_all add: side_text_def)

abbreviation same_line :: "string list \<Rightarrow> string list \<Rightarrow> nat \<Rightarrow> nat \<Rightarrow> bool" where
  "same_line a b i j \<equiv> i < length a \<and> j < length b \<and> a ! i = b ! j"

abbreviation take_added :: "nat list list \<Rightarrow> string list \<Rightarrow> string list \<Rightarrow> nat \<Rightarrow> nat \<Rightarrow> bool" where
  "take_added dp a b i j \<equiv> j < length b \<and> (length a \<le> i \<or> dp ! (i + 1) ! j \<le> dp ! i ! (j + 1))"

lemma walk_same: "same_line a b i j \<Longrightarrow>
    walk dp a b i j p q = \<lparr>dl_kind = Kept, dl_text = a ! i, dl_a = p + 1, dl_b = q + 1\<rparr>
      # walk dp a b (i + 1) (j + 1) (p + 1) (q + 1)"
  by (rule trans [OF walk.simps], rule if_P)

lemma walk_add: "\<not> same_line a b i j \<Longrightarrow> take_added dp a b i j \<Longrightarrow>
    walk dp a b i j p q = \<lparr>dl_kind = Added, dl_text = b ! j, dl_a = 0, dl_b = q + 1\<rparr> # walk dp a b i (j + 1) p (q + 1)"
  by (rule trans [OF walk.simps], rule trans [OF if_not_P], assumption, rule if_P)

lemma walk_remove: "\<not> same_line a b i j \<Longrightarrow> \<not> take_added dp a b i j \<Longrightarrow> i < length a \<Longrightarrow>
    walk dp a b i j p q = \<lparr>dl_kind = Removed, dl_text = a ! i, dl_a = p + 1, dl_b = 0\<rparr> # walk dp a b (i + 1) j (p + 1) q"
  by (rule trans [OF walk.simps], rule trans [OF if_not_P], assumption, rule trans [OF if_not_P], assumption, rule if_P)

lemma walk_end: "\<not> j < length b \<Longrightarrow> \<not> i < length a \<Longrightarrow> walk dp a b i j p q = []"
  by (rule trans [OF walk.simps]) simp

lemma walk_cases:
  obtains (same) "same_line a b i j" | (add) "\<not> same_line a b i j" "take_added dp a b i j"
    | (remove) "\<not> same_line a b i j" "\<not> take_added dp a b i j" "i < length a"
    | (stop) "\<not> j < length b" "\<not> i < length a"
  by linarith

lemma walk_spells: "side_text Added (walk dp a b i j p q) = drop i a \<and> side_text Removed (walk dp a b i j p q) = drop j b"
proof (induction dp a b i j p q rule: walk.induct)
  case (1 dp a b i j p q)
  show ?case
  proof (cases rule: walk_cases [where i = i and a = a and j = j and b = b and dp = dp])
    case same
    then have "drop i a = a ! i # drop (Suc i) a" "drop j b = a ! i # drop (Suc j) b"
      using Cons_nth_drop_Suc [of i a] Cons_nth_drop_Suc [of j b] by simp_all
    with "1.IH"(1) [OF same] same show ?thesis by (simp add: walk_same)
  next
    case add
    with "1.IH"(2) [OF add] show ?thesis by (simp add: walk_add [OF add] Cons_nth_drop_Suc)
  next
    case remove
    with "1.IH"(3) [OF remove] show ?thesis by (simp add: walk_remove [OF remove] Cons_nth_drop_Suc)
  next
    case stop
    then show ?thesis by (simp add: walk_end)
  qed
qed

section \<open>The table holds the lengths of longest common subsequences\<close>

fun lcs :: "string list \<Rightarrow> string list \<Rightarrow> nat" where
  "lcs [] b = 0"
| "lcs (x # xs) [] = 0"
| "lcs (x # xs) (y # ys) = (if x = y then lcs xs ys + 1 else max (lcs xs (y # ys)) (lcs (x # xs) ys))"

fun suffixes_of :: "'a list \<Rightarrow> 'a list list" where
  "suffixes_of [] = [[]]"
| "suffixes_of (y # ys) = (y # ys) # suffixes_of ys"

lemma nth_suffixes_of: "j \<le> length b \<Longrightarrow> j < length (suffixes_of b) \<and> suffixes_of b ! j = drop j b"
proof (induction b arbitrary: j)
  case (Cons y ys)
  then show ?case by (cases j) auto
qed simp

lemma lcs_Nil [simp]: "lcs a [] = 0"
  by (cases a) simp_all

lemma hd_suffixes [simp]: "hd (map f (suffixes_of ys)) = f ys"
  by (cases ys) simp_all

lemma lcs_row_suffixes: "lcs_row x b (map (lcs xs) (suffixes_of b)) = map (lcs (x # xs)) (suffixes_of b)"
  by (induction b) (auto simp: Let_def)

lemma hd_lcs_table: "hd (lcs_table a b) = map (lcs a) (suffixes_of b)"
proof (induction a)
  case Nil
  have "map (lcs []) (suffixes_of b) = replicate (Suc (length b)) 0"
    by (induction b) simp_all
  then show ?case by (simp only: lcs_table.simps list.sel)
qed (simp add: Let_def lcs_row_suffixes)

lemma lcs_table_row: "i \<le> length a \<Longrightarrow> lcs_table a b ! i = map (lcs (drop i a)) (suffixes_of b)"
proof (induction a arbitrary: i)
  case Nil
  then show ?case using hd_lcs_table [of "[]" b] by simp
next
  case (Cons x xs)
  then show ?case
    by (cases i) (auto simp: Let_def hd_lcs_table lcs_row_suffixes)
qed

lemma lcs_table_entry:
  "i \<le> length a \<Longrightarrow> j \<le> length b \<Longrightarrow> lcs_table a b ! i ! j = lcs (drop i a) (drop j b)"
  using nth_suffixes_of [of j b] by (simp add: lcs_table_row)

lemma lcs_upper: "subseq zs a \<Longrightarrow> subseq zs b \<Longrightarrow> length zs \<le> lcs a b"
proof (induction a b arbitrary: zs rule: lcs.induct)
  case (3 x xs y ys)
  show ?case
  proof (cases zs)
    case (Cons z us)
    show ?thesis
    proof (cases "x = y")
      case True
      then have "subseq us xs" "subseq us ys"
        using "3.prems" Cons by (auto simp: subseq_Cons2_iff dest: subseq_Cons' split: if_splits)
      with "3.IH"(1) [OF True] True Cons show ?thesis by simp
    next
      case False
      have "subseq zs xs \<or> subseq zs ys"
        using "3.prems" False Cons by (auto split: if_splits)
      with "3.IH"(2,3) [OF False] "3.prems" False show ?thesis
        by (auto simp: le_max_iff_disj)
    qed
  qed simp
qed simp_all

definition kept :: "dline list \<Rightarrow> string list" where
  "kept dl = map dl_text (filter (\<lambda>d. dl_kind d = Kept) dl)"

lemma kept_simps [simp]:
  "kept [] = []"
  "kept (d # ds) = (if dl_kind d = Kept then dl_text d # kept ds else kept ds)"
  by (simp_all add: kept_def)

lemma kept_subseq: "subseq (kept dl) (side_text Added dl)" "subseq (kept dl) (side_text Removed dl)"
  by (induction dl) auto

lemma walk_keeps_lcs:
  "i \<le> length a \<Longrightarrow> j \<le> length b \<Longrightarrow>
   length (kept (walk (lcs_table a b) a b i j p q)) = lcs (drop i a) (drop j b)"
proof (induction "lcs_table a b" a b i j p q rule: walk.induct)
  case (1 a b i j p q)
  have a: "i < length a \<Longrightarrow> drop i a = a ! i # drop (Suc i) a" and b: "j < length b \<Longrightarrow> drop j b = b ! j # drop (Suc j) b"
    by (simp_all add: Cons_nth_drop_Suc)
  show ?case
  proof (cases rule: walk_cases [where i = i and a = a and j = j and b = b and dp = "lcs_table a b"])
    case same
    with "1.hyps"(1) [OF same] a b show ?thesis by (simp add: walk_same)
  next
    case add
    show ?thesis
    proof (cases "i < length a")
      case True
      with add have "lcs (drop (Suc i) a) (drop j b) \<le> lcs (drop i a) (drop (Suc j) b)" "a ! i \<noteq> b ! j"
        using lcs_table_entry [of "Suc i" a j b] lcs_table_entry [of i a "Suc j" b] by auto
      with "1.hyps"(2) [OF add] "1.prems" add True a b show ?thesis by (simp add: walk_add [OF add])
    next
      case False
      with "1.hyps"(2) [OF add] "1.prems" add show ?thesis unfolding walk_add [OF add] by simp
    qed
  next
    case remove
    show ?thesis
    proof (cases "j < length b")
      case True
      with remove have "lcs (drop i a) (drop (Suc j) b) < lcs (drop (Suc i) a) (drop j b)" "a ! i \<noteq> b ! j"
        using lcs_table_entry [of "Suc i" a j b] lcs_table_entry [of i a "Suc j" b] by auto
      with "1.hyps"(3) [OF remove] "1.prems" remove(3) True a b show ?thesis by (simp add: walk_remove [OF remove])
    next
      case False
      with "1.hyps"(3) [OF remove] "1.prems" remove(3) show ?thesis unfolding walk_remove [OF remove] by simp
    qed
  next
    case stop
    then show ?thesis by (simp add: walk_end)
  qed
qed

text \<open>C13: The diff is a shortest edit script: the lines it keeps and removes are the old text in order,
  the lines it keeps and adds are the new text in order, and no common subsequence of the two texts
  is longer than the lines it keeps.\<close>

theorem diff_is_shortest_script:
  "side_text Added (diff_lines a b) = a \<and> side_text Removed (diff_lines a b) = b
   \<and> subseq (kept (diff_lines a b)) a \<and> subseq (kept (diff_lines a b)) b
   \<and> (subseq zs a \<longrightarrow> subseq zs b \<longrightarrow> length zs \<le> length (kept (diff_lines a b)))"
  using walk_spells [of "lcs_table a b" a b 0 0 0 0] kept_subseq [of "diff_lines a b"]
    walk_keeps_lcs [of 0 a 0 b 0 0] lcs_upper [of zs a b]
  by (simp add: diff_lines_def)

theorem diff_is_shortest_script_witness:
  "3 \<le> length (kept (diff_lines [''a'', ''b'', ''c'', ''d''] [''x'', ''b'', ''c'', ''y'', ''d'']))"
  using diff_is_shortest_script [of "[''a'', ''b'', ''c'', ''d'']" "[''x'', ''b'', ''c'', ''y'', ''d'']" "[''b'', ''c'', ''d'']"]
  by simp

section \<open>Hunk headers\<close>

text \<open>The line numbers a run has on one side.\<close>

definition numbers :: "(dline \<Rightarrow> nat) \<Rightarrow> dline list \<Rightarrow> nat list" where
  "numbers f dl = filter (\<lambda>k. k \<noteq> 0) (map f dl)"

lemma numbers_simps [simp]:
  "numbers f [] = []"
  "numbers f (d # ds) = (if f d = 0 then numbers f ds else f d # numbers f ds)"
  "numbers f (xs @ ys) = numbers f xs @ numbers f ys"
  by (simp_all add: numbers_def)

lemma walk_numbers:
  "i \<le> length a \<Longrightarrow> j \<le> length b \<Longrightarrow> p = i \<Longrightarrow> q = j \<Longrightarrow>
   numbers dl_a (walk dp a b i j p q) = [Suc i..<Suc (length a)] \<and> numbers dl_b (walk dp a b i j p q) = [Suc j..<Suc (length b)]"
proof (induction dp a b i j p q rule: walk.induct)
  case (1 dp a b i j p q)
  have up: "k < n \<Longrightarrow> [Suc k..<Suc n] = Suc k # [Suc (Suc k)..<Suc n]" for k n :: nat
    by (simp add: upt_rec)
  show ?case
  proof (cases rule: walk_cases [where i = i and a = a and j = j and b = b and dp = dp])
    case same
    with "1.IH"(1) [OF same] "1.prems" show ?thesis unfolding walk_same [OF same] by (simp add: up del: upt_Suc)
  next
    case add
    with "1.IH"(2) [OF add] "1.prems" show ?thesis unfolding walk_add [OF add] by (simp add: up del: upt_Suc)
  next
    case remove
    with "1.IH"(3) [OF remove] "1.prems" show ?thesis unfolding walk_remove [OF remove] by (simp add: up del: upt_Suc)
  next
    case stop
    with "1.prems" show ?thesis by (simp add: walk_end)
  qed
qed

text \<open>A line that has a number on a side is that line of the side.\<close>

definition placed :: "string list \<Rightarrow> string list \<Rightarrow> dline \<Rightarrow> bool" where
  "placed a b d \<longleftrightarrow> (dl_a d = 0 \<longleftrightarrow> dl_kind d = Added) \<and> (dl_b d = 0 \<longleftrightarrow> dl_kind d = Removed)
     \<and> (dl_a d \<noteq> 0 \<longrightarrow> dl_text d = a ! (dl_a d - 1)) \<and> (dl_b d \<noteq> 0 \<longrightarrow> dl_text d = b ! (dl_b d - 1))"

lemma walk_placed: "p = i \<Longrightarrow> q = j \<Longrightarrow> \<forall>d\<in>set (walk dp a b i j p q). placed a b d"
proof (induction dp a b i j p q rule: walk.induct)
  case (1 dp a b i j p q)
  show ?case
  proof (cases rule: walk_cases [where i = i and a = a and j = j and b = b and dp = dp])
    case same
    with "1.IH"(1) [OF same] "1.prems" show ?thesis unfolding walk_same [OF same] by (simp add: placed_def)
  next
    case add
    with "1.IH"(2) [OF add] "1.prems" show ?thesis unfolding walk_add [OF add] by (simp add: placed_def)
  next
    case remove
    with "1.IH"(3) [OF remove] "1.prems" show ?thesis unfolding walk_remove [OF remove] by (simp add: placed_def)
  qed (simp add: walk_end)
qed

lemma hunks_runs: "run \<in> set (hunks dl) \<Longrightarrow> \<exists>xs zs. dl = xs @ run @ zs \<and> list_all changed run"
proof (induction dl rule: hunks.induct)
  case (1 dl)
  show ?case
  proof (cases "dropWhile (\<lambda>d. \<not> changed d) dl")
    case Nil
    with "1.prems" show ?thesis by (simp add: hunks.simps [of dl])
  next
    case (Cons d ds)
    define run1 rest where "run1 = takeWhile changed (d # ds)" and "rest = dropWhile changed (d # ds)"
    have "run1 @ rest = d # ds" unfolding run1_def rest_def by (rule takeWhile_dropWhile_id)
    then have "takeWhile (\<lambda>d. \<not> changed d) dl @ run1 @ rest = dl"
      using takeWhile_dropWhile_id [of "\<lambda>d. \<not> changed d" dl] by (simp only: Cons)
    then obtain pre where dl: "dl = pre @ run1 @ rest" by (rule that [OF sym])
    have all: "list_all changed run1"
      using set_takeWhileD [of _ changed "d # ds"] by (auto simp: list_all_iff run1_def)
    from "1.prems" consider "run = run1" | "run \<in> set (hunks rest)"
      unfolding hunks.simps [of dl] Cons run1_def rest_def by auto
    then show ?thesis
    proof cases
      case 1
      then show ?thesis using dl all by blast
    next
      case 2
      obtain xs zs where "rest = xs @ run @ zs" "list_all changed run"
        using "1.IH" [OF Cons] 2 unfolding rest_def by blast
      with dl show ?thesis by (metis append.assoc)
    qed
  qed
qed

lemma upt_piece: "[m..<n] = xs @ ys @ zs \<Longrightarrow> ys = [m + length xs..<m + length xs + length ys]"
proof -
  assume e: "[m..<n] = xs @ ys @ zs"
  have "ys = take (length ys) (drop (length xs) [m..<n])" by (simp add: e)
  moreover have "m + length xs + length ys \<le> n \<or> ys = []"
    using arg_cong [OF e, of length] by (cases ys) auto
  ultimately show ?thesis by (auto simp: take_upt)
qed

lemma number_piece: "[Suc 0..<Suc l] = xs @ ys @ zs \<Longrightarrow> \<exists>m n. ys = [Suc m..<Suc m + n] \<and> m + n \<le> l"
proof -
  assume e: "[Suc 0..<Suc l] = xs @ ys @ zs"
  have "ys = [Suc (length xs)..<Suc (length xs) + length ys]" using upt_piece [OF e] by simp
  moreover have "length xs + length ys \<le> l" using arg_cong [OF e, of length] by (simp del: upt_Suc)
  ultimately show ?thesis by blast
qed

lemma side_range_numbers: "side_range f run = fold widen (numbers f run) (0, 0)"
proof -
  have "fold (\<lambda>d r. widen (f d) r) run r = fold widen (numbers f run) r" for r
    by (induction run arbitrary: r) (simp_all add: widen_def)
  then show ?thesis by (simp add: side_range_def)
qed

lemma fold_widen: "0 < m \<Longrightarrow> m \<le> k \<Longrightarrow> fold widen [Suc k..<Suc k + n] (m, k) = (m, k + n)"
proof (induction n arbitrary: k)
  case (Suc n)
  have "[Suc k..<Suc k + Suc n] = Suc k # [Suc (Suc k)..<Suc (Suc k) + n]"
    by (simp add: upt_conv_Cons)
  with Suc.IH [of "Suc k"] Suc.prems show ?case by (simp add: widen_def del: upt_Suc)
qed simp

lemma side_range_upt:
  assumes "numbers f run = [Suc m..<Suc m + n]"
  shows "side_range f run = (if n = 0 then (0, 0) else (Suc m, m + n))"
proof (cases n)
  case (Suc k)
  have "[Suc m..<Suc m + n] = Suc m # [Suc (Suc m)..<Suc (Suc m) + k]"
    by (simp add: Suc upt_conv_Cons)
  then show ?thesis using fold_widen [of "Suc m" "Suc m" k] assms Suc
    by (simp add: side_range_numbers widen_def del: upt_Suc)
qed (simp add: side_range_numbers assms)

definition slice :: "nat \<times> nat \<Rightarrow> 'a list \<Rightarrow> 'a list" where
  "slice r xs = take (range_count r) (drop (fst r - 1) xs)"

lemma texts_by_number:
  assumes "numbers f run = [Suc m..<Suc m + n]" and "m + n \<le> length ls"
    and "\<forall>d\<in>set run. f d \<noteq> 0 \<longrightarrow> dl_text d = ls ! (f d - 1)"
  shows "map dl_text (filter (\<lambda>d. f d \<noteq> 0) run) = slice (side_range f run) ls"
proof -
  have "map dl_text (filter (\<lambda>d. f d \<noteq> 0) run) = map (\<lambda>k. ls ! (k - 1)) (numbers f run)"
    using assms(3) by (induction run) auto
  also have "\<dots> = map (\<lambda>k. ls ! k) [m..<m + n]"
    unfolding assms(1) by (rule nth_equalityI) (simp_all del: upt_Suc)
  also have "\<dots> = take n (drop m ls)"
    using assms(2) by (simp add: list_eq_iff_nth_eq)
  finally show ?thesis
    unfolding side_range_upt [OF assms(1)] by (simp add: slice_def range_count_def)
qed

text \<open>The header of a hunk points at its lines: in each hunk of the diff the removed lines are
  exactly the lines of the old text at the header's first range, and the added lines exactly the
  lines of the new text at its second range.\<close>

theorem hunk_ranges_exact:
  assumes "run \<in> set (hunks (diff_lines a b))"
  shows "map dl_text (filter (\<lambda>d. dl_kind d = Removed) run) = slice (side_range dl_a run) a
    \<and> map dl_text (filter (\<lambda>d. dl_kind d = Added) run) = slice (side_range dl_b run) b"
proof -
  obtain xs zs where dl: "diff_lines a b = xs @ run @ zs" and ch: "list_all changed run"
    using hunks_runs [OF assms] by blast
  have pl: "\<forall>d\<in>set run. placed a b d"
    using walk_placed [OF refl refl, of "lcs_table a b" a b 0 0] dl by (simp add: diff_lines_def)
  have "numbers dl_a (diff_lines a b) = [Suc 0..<Suc (length a)]" "numbers dl_b (diff_lines a b) = [Suc 0..<Suc (length b)]"
    using walk_numbers [OF _ _ refl refl, of 0 a 0 b "lcs_table a b"] by (simp_all add: diff_lines_def del: upt_Suc)
  note nums = this [unfolded dl numbers_simps, symmetric]
  obtain m n where a: "numbers dl_a run = [Suc m..<Suc m + n]" "m + n \<le> length a"
    using number_piece [OF nums(1)] by blast
  obtain m' n' where b: "numbers dl_b run = [Suc m'..<Suc m' + n']" "m' + n' \<le> length b"
    using number_piece [OF nums(2)] by blast
  have "dl_kind d = Removed \<longleftrightarrow> dl_a d \<noteq> 0" "dl_kind d = Added \<longleftrightarrow> dl_b d \<noteq> 0" if "d \<in> set run" for d
    using that pl ch by (cases "dl_kind d"; force simp: placed_def list_all_iff changed_def)+
  then have "filter (\<lambda>d. dl_kind d = Removed) run = filter (\<lambda>d. dl_a d \<noteq> 0) run"
    "filter (\<lambda>d. dl_kind d = Added) run = filter (\<lambda>d. dl_b d \<noteq> 0) run"
    by (simp_all cong: filter_cong)
  then show ?thesis
    using texts_by_number [OF a] texts_by_number [OF b] pl by (simp add: placed_def)
qed

theorem hunk_ranges_exact_witness:
  "map dl_text (filter (\<lambda>d. dl_kind d = Removed)
     [\<lparr>dl_kind = Added, dl_text = ''c'', dl_a = 0, dl_b = 2\<rparr>, \<lparr>dl_kind = Removed, dl_text = ''b'', dl_a = 2, dl_b = 0\<rparr>])
   = slice (2, 2) [''a'', ''b'']"
proof -
  have "hunks (diff_lines [''a'', ''b''] [''a'', ''c''])
      = [[\<lparr>dl_kind = Added, dl_text = ''c'', dl_a = 0, dl_b = 2\<rparr>, \<lparr>dl_kind = Removed, dl_text = ''b'', dl_a = 2, dl_b = 0\<rparr>]]"
    by code_simp
  with hunk_ranges_exact [of "[\<lparr>dl_kind = Added, dl_text = ''c'', dl_a = 0, dl_b = 2\<rparr>,
      \<lparr>dl_kind = Removed, dl_text = ''b'', dl_a = 2, dl_b = 0\<rparr>]" "[''a'', ''b'']" "[''a'', ''c'']"]
  show ?thesis by (simp add: side_range_def widen_def)
qed

section \<open>A difference that is not shown\<close>

lemma length_by_kind:
  "length (side_text k dl) + length (filter (\<lambda>d. dl_kind d = k) dl) = length dl"
  by (induction dl) auto

lemma diff_same: "hunks (diff_lines a a) = []"
proof -
  define dl where "dl = diff_lines a a"
  have sides: "side_text Added dl = a" "side_text Removed dl = a"
    using walk_spells [of "lcs_table a a" a a 0 0 0 0] by (simp_all add: dl_def diff_lines_def)
  have "length a \<le> length (kept dl)"
    using walk_keeps_lcs [of 0 a 0 a 0 0] lcs_upper [of a a a] by (simp add: dl_def diff_lines_def)
  moreover have "length dl = length (kept dl) + length (filter (\<lambda>d. dl_kind d = Added) dl)
      + length (filter (\<lambda>d. dl_kind d = Removed) dl)"
  proof (induction dl)
    case (Cons d ds)
    then show ?case by (cases "dl_kind d") auto
  qed simp
  ultimately have "length (filter (\<lambda>d. dl_kind d = Added) dl) = 0" "length (filter (\<lambda>d. dl_kind d = Removed) dl) = 0"
    using length_by_kind [of Added dl, unfolded sides] length_by_kind [of Removed dl, unfolded sides] by linarith+
  then have "\<forall>d\<in>set dl. \<not> changed d"
    unfolding changed_def length_0_conv filter_empty_conv by (metis dkind.exhaust)
  then have none: "dropWhile (\<lambda>d. \<not> changed d) dl = []" by simp
  show ?thesis unfolding dl_def [symmetric] hunks.simps [of dl] none by simp
qed

lemma split_on_snoc: "split_on c (s @ [c]) = split_on c s @ [[]]"
  by (induction s) (auto split: list.split simp: Cons_eq_append_conv)

lemma last_split_on: "s \<noteq> [] \<Longrightarrow> last s \<noteq> c \<Longrightarrow> last (split_on c s) \<noteq> []"
proof (induction s)
  case (Cons x xs)
  obtain y ys where e: "split_on c xs = y # ys" by (cases "split_on c xs") auto
  show ?case
  proof (cases "xs = []")
    case False
    with Cons e show ?thesis by (cases ys) auto
  qed (use Cons in auto)
qed simp

text \<open>A missing final newline is not shown: for a text without one, the diff against the same text
  with a final newline, which is what the formatter produces, is the two header lines alone, though
  the texts differ.\<close>

theorem diff_hides_final_newline:
  assumes "s \<noteq> []" and "last s \<noteq> CHR 0x0A"
  shows "Diff path s (s @ [CHR 0x0A]) = ''--- '' @ path @ [CHR 0x0A] @ ''+++ '' @ path @ [CHR 0x0A]"
proof -
  have "text_lines (s @ [CHR 0x0A]) = split_on (CHR 0x0A) s" "text_lines s = split_on (CHR 0x0A) s"
    using last_split_on [OF assms] by (simp_all add: text_lines_def split_on_snoc)
  then show ?thesis by (simp add: Diff_def diff_same)
qed

theorem diff_hides_final_newline_witness:
  "Diff ''a.lua'' ''x'' (''x'' @ [CHR 0x0A]) = ''--- a.lua'' @ [CHR 0x0A] @ ''+++ a.lua'' @ [CHR 0x0A]"
  using diff_hides_final_newline [of "''x''" "''a.lua''"] by simp

end
