(* ===== verification/Script_Format.thy ===== *)
theory Script_Format
  imports Kalua_Prelude
begin

text \<open>
  The formatter of Lua scripts, \<^verbatim>\<open>internal/format/printer.go\<close> and \<^verbatim>\<open>Format\<close> of
  \<^verbatim>\<open>internal/format/format.go\<close>. The tokens come from the lexer of the Lua package, with their
  exact text and line; the printer re-emits the texts with its own white space.
\<close>

section \<open>Tokens and the printer's state\<close>

datatype tok_type =
    TChr char | TThen | TDo | TRepeat | TEnd | TUntil | TElseIf | TElse | TFunction
  | TIdent | TNumber | TString | TTrue | TFalse | TNil | T2Colon | TComment | TOther nat

record ftoken =
  ft_type :: tok_type
  ft_raw :: string
  ft_line :: int

record printer =
  out_text :: string
  blockDepth :: nat
  bracketDepth :: nat
  fnParens :: nat
  prev_type :: tok_type
  prevMinusUnary :: bool
  is_first :: bool
  lastLine :: int

definition new_printer :: printer where
  "new_printer = \<lparr>out_text = [], blockDepth = 0, bracketDepth = 0, fnParens = 0, prev_type = TOther 0,
     prevMinusUnary = False, is_first = True, lastLine = 0\<rparr>"

definition indent :: "printer \<Rightarrow> string" where
  "indent p = replicate (2 * (blockDepth p + bracketDepth p)) (CHR '' '')"

section \<open>Spacing rules\<close>

definition isOperandEnd :: "tok_type \<Rightarrow> bool" where
  "isOperandEnd t \<longleftrightarrow> t \<in> {TIdent, TNumber, TString, TTrue, TFalse, TNil, TChr (CHR '')''), TChr (CHR '']''), TChr (CHR ''}'')}"

definition isOpener :: "tok_type \<Rightarrow> bool" where
  "isOpener t \<longleftrightarrow> t \<in> {TChr (CHR ''{''), TChr (CHR ''(''), TChr (CHR ''[''), TThen, TDo, TRepeat}"

definition suppressBlank :: "tok_type \<Rightarrow> bool" where
  "suppressBlank t \<longleftrightarrow> t \<in> {TEnd, TElse, TElseIf, TUntil, TChr (CHR '')''), TChr (CHR '']''), TChr (CHR ''}'')}"

definition forcedNewline :: "tok_type \<Rightarrow> bool" where
  "forcedNewline t \<longleftrightarrow> t \<in> {TEnd, TElse, TElseIf, TUntil}"

definition spaceNeeded :: "tok_type \<Rightarrow> tok_type \<Rightarrow> bool \<Rightarrow> bool" where
  "spaceNeeded prev cur minusUnary =
     (if cur \<in> {TChr (CHR '',''), TChr (CHR '';''), TChr (CHR '')''), TChr (CHR '']''), TChr (CHR ''}''),
                TChr (CHR ''.''), TChr (CHR '':''), T2Colon} then False
      else if prev \<in> {TChr (CHR ''(''), TChr (CHR ''[''), TChr (CHR ''{''), TChr (CHR '':''), TChr (CHR ''.''),
                     T2Colon, TChr (CHR ''#'')} then False
      else if prev = TChr (CHR ''-'') then \<not> minusUnary
      else if cur \<in> {TChr (CHR ''(''), TChr (CHR ''{''), TChr (CHR ''['')} then
        \<not> (isOperandEnd prev \<or> prev = TFunction \<or> prev = TChr (CHR ''#'') \<or> (prev = TChr (CHR ''-'') \<and> minusUnary))
      else True)"

definition endLine :: "ftoken \<Rightarrow> int" where
  "endLine t = ft_line t + int (count_list (ft_raw t) (CHR 0x0A))"

section \<open>Printing\<close>

text \<open>The structural counters, before the token is written.\<close>

definition restructure :: "tok_type \<Rightarrow> printer \<Rightarrow> printer" where
  "restructure t p =
     (if t \<in> {TThen, TDo, TRepeat} then p\<lparr>blockDepth := blockDepth p + 1\<rparr>
      else if t \<in> {TEnd, TUntil, TElseIf, TElse} then
        (if 0 < blockDepth p then p\<lparr>blockDepth := blockDepth p - 1\<rparr> else p)
      else if t = TFunction then p\<lparr>fnParens := fnParens p + 1\<rparr>
      else if t \<in> {TChr (CHR ''(''), TChr (CHR ''[''), TChr (CHR ''{'')} then p\<lparr>bracketDepth := bracketDepth p + 1\<rparr>
      else if t = TChr (CHR '')'') then
        (let p1 = (if 0 < bracketDepth p then p\<lparr>bracketDepth := bracketDepth p - 1\<rparr> else p)
         in if 0 < fnParens p1 then p1\<lparr>fnParens := fnParens p1 - 1, blockDepth := blockDepth p1 + 1\<rparr> else p1)
      else if t \<in> {TChr (CHR '']''), TChr (CHR ''}'')} then
        (if 0 < bracketDepth p then p\<lparr>bracketDepth := bracketDepth p - 1\<rparr> else p)
      else p)"

text \<open>The white space in front of a token.\<close>

definition lead :: "printer \<Rightarrow> ftoken \<Rightarrow> string" where
  "lead p t =
     (let newLine = (\<not> is_first p \<and> (forcedNewline (ft_type t) \<or> lastLine p < ft_line t)) in
      if newLine then
        (if 2 \<le> ft_line t - lastLine p \<and> \<not> suppressBlank (ft_type t) \<and> \<not> isOpener (prev_type p)
         then [CHR 0x0A] else [])
        @ [CHR 0x0A] @ indent p
      else if \<not> is_first p \<and> spaceNeeded (prev_type p) (ft_type t) (prevMinusUnary p) then '' ''
      else [])"

definition emit :: "ftoken \<Rightarrow> printer \<Rightarrow> printer" where
  "emit t p =
     p\<lparr>out_text := out_text p @ lead p t @ ft_raw t, lastLine := endLine t, prev_type := ft_type t,
       prevMinusUnary := (ft_type t = TChr (CHR ''-'') \<and> \<not> isOperandEnd (prev_type p)), is_first := False\<rparr>"

definition print_token :: "ftoken \<Rightarrow> printer \<Rightarrow> printer" where
  "print_token t p =
     (let p1 = emit t (restructure (ft_type t) p)
      in if ft_type t = TElse then p1\<lparr>blockDepth := blockDepth p1 + 1\<rparr> else p1)"

definition trim_newlines :: "string \<Rightarrow> string" where
  "trim_newlines s = rev (dropWhile (\<lambda>c. c = CHR 0x0A) (rev s))"

definition finish :: "string \<Rightarrow> string" where
  "finish s = (let t = trim_newlines s in if t = [] then [] else t @ [CHR 0x0A])"

definition print_tokens :: "ftoken list \<Rightarrow> string" where
  "print_tokens toks = finish (out_text (fold print_token toks new_printer))"

definition Format :: "(string \<Rightarrow> string + ftoken list) \<Rightarrow> (string \<Rightarrow> string option) \<Rightarrow> string \<Rightarrow> string + string" where
  "Format tokenize parse_error src =
     (if trim_space src = [] then Inr src
      else case tokenize src of
             Inl err \<Rightarrow> Inl err
           | Inr toks \<Rightarrow>
               (let out = print_tokens toks in
                case parse_error out of
                  Some err \<Rightarrow> Inl (''formatter produced invalid Lua: '' @ err)
                | None \<Rightarrow> Inr out))"

section \<open>Only white space is added\<close>

lemma structure_out [simp]:
  "out_text (restructure t p) = out_text p" "lastLine (restructure t p) = lastLine p"
  "prev_type (restructure t p) = prev_type p" "prevMinusUnary (restructure t p) = prevMinusUnary p"
  "is_first (restructure t p) = is_first p"
  by (simp_all add: restructure_def Let_def)

lemma lead_blank: "set (lead p t) \<subseteq> {CHR '' '', CHR 0x0A}"
  by (auto simp: lead_def Let_def indent_def)

lemma print_token_out [simp]:
  "out_text (print_token t p) = out_text p @ lead (restructure (ft_type t) p) t @ ft_raw t"
  "lastLine (print_token t p) = endLine t" "prev_type (print_token t p) = ft_type t"
  "is_first (print_token t p) = False"
  by (simp_all add: print_token_def emit_def Let_def)

definition solid :: "string \<Rightarrow> string" where
  "solid s = filter (\<lambda>c. c \<noteq> CHR '' '' \<and> c \<noteq> CHR 0x0A) s"

lemma solid_append [simp]: "solid (a @ b) = solid a @ solid b"
  by (simp add: solid_def)

lemma solid_blank: "set s \<subseteq> {CHR '' '', CHR 0x0A} \<Longrightarrow> solid s = []"
  by (auto simp: solid_def filter_empty_conv)

lemma solid_finish: "solid (finish s) = solid s"
proof -
  have "s = trim_newlines s @ rev (takeWhile (\<lambda>c. c = CHR 0x0A) (rev s))"
    unfolding trim_newlines_def rev_append [symmetric] takeWhile_dropWhile_id by simp
  moreover have "solid (rev (takeWhile (\<lambda>c. c = CHR 0x0A) (rev s))) = []"
    by (rule solid_blank) (auto dest: set_takeWhileD)
  ultimately have "solid s = solid (trim_newlines s)" by (metis append_Nil2 solid_append)
  then show ?thesis by (auto simp: finish_def Let_def solid_def)
qed

lemma solid_print: "solid (out_text (fold print_token toks p)) = solid (out_text p) @ concat (map (solid \<circ> ft_raw) toks)"
  by (induction toks arbitrary: p) (simp_all add: solid_blank lead_blank)

text \<open>Formatting only moves white space: leaving out spaces and newlines, the output is the texts
  of the tokens, all of them and in order.\<close>

theorem format_keeps_text:
  "solid (print_tokens toks) = concat (map (solid \<circ> ft_raw) toks)"
proof -
  have "solid (out_text new_printer) = []" by (simp add: new_printer_def solid_def)
  then show ?thesis by (simp add: print_tokens_def solid_finish solid_print)
qed

section \<open>Printing what was printed\<close>

text \<open>The same tokens at the lines they have in the output.\<close>

fun relined :: "ftoken list \<Rightarrow> printer \<Rightarrow> ftoken list" where
  "relined [] p = []"
| "relined (t # ts) p =
     t\<lparr>ft_line := 1 + int (count_list (out_text p @ lead (restructure (ft_type t) p) t) (CHR 0x0A))\<rparr>
       # relined ts (print_token t p)"

definition in_output :: "ftoken list \<Rightarrow> ftoken list" where
  "in_output toks = relined toks new_printer"

text \<open>The printer before a token, when the token's predecessor ends where the output ends.\<close>

definition at_end :: "printer \<Rightarrow> printer" where
  "at_end p = p\<lparr>lastLine := 1 + int (count_list (out_text p) (CHR 0x0A))\<rparr>"

lemma structure_lastLine: "restructure t (p\<lparr>lastLine := n\<rparr>) = (restructure t p)\<lparr>lastLine := n\<rparr>"
  by (simp add: restructure_def Let_def)

lemma indent_lastLine [simp]: "indent (p\<lparr>lastLine := n\<rparr>) = indent p"
  by (simp add: indent_def)

lemma count_indent [simp]: "count_list (indent p) (CHR 0x0A) = 0"
  by (simp add: indent_def count_list_0_iff)

lemma count_list_append: "count_list (xs @ ys) c = count_list xs c + count_list ys c"
  by (induction xs) auto

text \<open>The white space in front of a token is determined by the newlines it contains.\<close>

lemma lead_again:
  "lead (p\<lparr>lastLine := n\<rparr>) (t\<lparr>ft_line := n + int (count_list (lead p t) (CHR 0x0A))\<rparr>) = lead p t"
  by (auto simp: lead_def Let_def count_list_append)

lemma print_again:
  assumes "is_first p \<Longrightarrow> out_text p = []"
  shows "out_text (fold print_token (relined toks p) (at_end p)) = out_text (fold print_token toks p)"
  using assms
proof (induction toks arbitrary: p)
  case Nil
  then show ?case by (simp add: at_end_def)
next
  case (Cons t ts)
  define q where "q = restructure (ft_type t) p"
  define t' where "t' = t\<lparr>ft_line := 1 + int (count_list (out_text p @ lead q t) (CHR 0x0A))\<rparr>"
  have q: "restructure (ft_type t') (at_end p) = q\<lparr>lastLine := 1 + int (count_list (out_text p) (CHR 0x0A))\<rparr>"
    by (simp add: at_end_def structure_lastLine q_def t'_def)
  have l: "lead (restructure (ft_type t') (at_end p)) t' = lead q t"
    unfolding q using lead_again [of "1 + int (count_list (out_text p) (CHR 0x0A))" q t]
    by (simp add: t'_def count_list_append add.assoc)
  have "emit t' (restructure (ft_type t') (at_end p)) = at_end (emit t q)"
    unfolding emit_def l unfolding q
    by (simp add: t'_def at_end_def q_def endLine_def count_list_append)
  then have "print_token t' (at_end p) = at_end (print_token t p)"
    by (simp add: print_token_def Let_def q_def [symmetric]) (simp add: t'_def at_end_def)
  moreover have "relined (t # ts) p = t' # relined ts (print_token t p)"
    by (simp add: t'_def q_def)
  ultimately show ?case
    using Cons.IH [of "print_token t p"] by simp
qed

text \<open>C14: Formatting is idempotent, as far as the lexer reads the output back: if lexing the formatted
  text gives the same tokens at the lines the printer put them, formatting it again changes
  nothing.\<close>

theorem format_idempotent:
  assumes "Format tokenize parse_error src = Inr out" and "tokenize src = Inr toks" and "trim_space src \<noteq> []"
    and "tokenize out = Inr (in_output toks)"
  shows "Format tokenize parse_error out = Inr out"
proof -
  have out: "out = print_tokens toks" and ok: "parse_error out = None"
    using assms(1-3) by (auto simp: Format_def Let_def split: option.splits)
  have "print_tokens (in_output toks) = print_tokens toks"
  proof -
    have same: "fold print_token ts (p\<lparr>lastLine := n\<rparr>) = fold print_token ts p \<or> ts = []"
      if "is_first p" for ts p n
    proof (cases ts)
      case (Cons t r)
      have "print_token t (p\<lparr>lastLine := n\<rparr>) = print_token t p"
        using that by (simp add: print_token_def emit_def structure_lastLine lead_def Let_def)
      then show ?thesis by (simp add: Cons)
    qed simp
    have "out_text (fold print_token (in_output toks) new_printer) = out_text (fold print_token toks new_printer)"
      using print_again [of new_printer toks] same [of new_printer "in_output toks" 1]
      by (auto simp: in_output_def at_end_def new_printer_def)
    then show ?thesis by (simp add: print_tokens_def)
  qed
  with assms(4) ok show ?thesis
    by (simp add: Format_def Let_def out)
qed

text \<open>A script whose two statements share a line in the source.\<close>

definition tiny :: "ftoken list" where
  "tiny = [\<lparr>ft_type = TIdent, ft_raw = ''f'', ft_line = 1\<rparr>, \<lparr>ft_type = TChr (CHR ''(''), ft_raw = ''('', ft_line = 1\<rparr>,
     \<lparr>ft_type = TChr (CHR '')''), ft_raw = '')'', ft_line = 1\<rparr>]"

definition tiny_lexer :: "string \<Rightarrow> string + ftoken list" where
  "tiny_lexer s = (if filter (\<lambda>c. \<not> is_space c) s = ''f()'' then Inr tiny else Inl ''error'')"

lemma tiny_output: "in_output tiny = tiny" "print_tokens tiny = ''f()'' @ [CHR 0x0A]"
  by code_simp+

theorem format_idempotent_witness:
  "Format tiny_lexer (\<lambda>s. None) '' f ( )'' = Inr (''f()'' @ [CHR 0x0A])
   \<and> Format tiny_lexer (\<lambda>s. None) (''f()'' @ [CHR 0x0A]) = Inr (''f()'' @ [CHR 0x0A])"
proof
  have space: "trim_space '' f ( )'' \<noteq> []" by code_simp
  have lex: "tiny_lexer '' f ( )'' = Inr tiny" "tiny_lexer (''f()'' @ [CHR 0x0A]) = Inr (in_output tiny)"
    unfolding tiny_output by (simp_all add: tiny_lexer_def is_space_def)
  show once: "Format tiny_lexer (\<lambda>s. None) '' f ( )'' = Inr (''f()'' @ [CHR 0x0A])"
    using space lex(1) by (simp add: Format_def tiny_output)
  show "Format tiny_lexer (\<lambda>s. None) (''f()'' @ [CHR 0x0A]) = Inr (''f()'' @ [CHR 0x0A])"
    by (rule format_idempotent [OF once lex(1) space lex(2)])
qed

section \<open>Two minus signs\<close>

text \<open>The formatter turns a double negation into a comment: a minus sign that follows no operand
  and stands on the line of the minus sign before it, itself unary, is written right behind it, so
  that \<^verbatim>\<open>local y = - -x\<close> becomes \<^verbatim>\<open>local y = --x\<close>, whose end the lexer skips.\<close>

theorem double_minus_becomes_comment:
  assumes "\<not> is_first p" and "\<not> isOperandEnd (prev_type p)"
    and "ft_type t = TChr (CHR ''-'')" "ft_raw t = ''-''" and "ft_type u = TChr (CHR ''-'')" "ft_raw u = ''-''"
    and "ft_line u = ft_line t"
  shows "\<exists>before. out_text (fold print_token [t, u] p) = out_text p @ before @ ''--''"
proof -
  define q where "q = print_token t p"
  have "prev_type q = TChr (CHR ''-'')" "\<not> is_first q" by (simp_all add: q_def assms(3))
  moreover have "prevMinusUnary q"
    using assms(2,3) by (simp add: q_def print_token_def emit_def)
  moreover have "lastLine q = ft_line u"
    using assms(4,7) by (simp add: q_def endLine_def)
  ultimately have "lead (restructure (ft_type u) q) u = []"
    using assms(5) by (simp add: lead_def forcedNewline_def spaceNeeded_def)
  then have "out_text (print_token u q) = out_text p @ lead (restructure (ft_type t) p) t @ ''--''"
    using assms(4,6) by (simp add: q_def)
  then show ?thesis by (simp add: q_def)
qed

definition negation :: "ftoken list" where
  "negation = [\<lparr>ft_type = TOther 1, ft_raw = ''local'', ft_line = 1\<rparr>, \<lparr>ft_type = TIdent, ft_raw = ''y'', ft_line = 1\<rparr>,
     \<lparr>ft_type = TChr (CHR ''=''), ft_raw = ''='', ft_line = 1\<rparr>]"

definition minus_sign :: ftoken where
  "minus_sign = \<lparr>ft_type = TChr (CHR ''-''), ft_raw = ''-'', ft_line = 1\<rparr>"

theorem double_minus_becomes_comment_witness:
  "\<exists>before. out_text (fold print_token (negation @ [minus_sign, minus_sign]) new_printer)
     = ''local y ='' @ before @ ''--''"
proof -
  define p where "p = fold print_token negation new_printer"
  have p: "\<not> is_first p" "\<not> isOperandEnd (prev_type p)" "out_text p = ''local y =''"
    unfolding p_def by code_simp+
  show ?thesis
    using double_minus_becomes_comment [OF p(1,2), of minus_sign minus_sign] p(3)
    by (simp add: minus_sign_def p_def)
qed

end
