(* ===== verification/Builder_Merge.thy ===== *)
theory Builder_Merge
  imports Lua_Value "HOL-Library.Sublist"
begin

text \<open>
  The documents of the form builder, \<^verbatim>\<open>internal/builder/model.go\<close>, and \<^verbatim>\<open>MergeDocument\<close> of
  \<^verbatim>\<open>internal/builder/merge.go\<close>, which lays a generated document over the open one. A nil
  pointer in a list is None; Go maps are association lists; \<open>q\<close> is the \<^verbatim>\<open>%q\<close> printer of
  messages and \<open>dec\<close> the decimal one.
\<close>

section \<open>Documents\<close>

record border =
  bd_width :: int
  bd_color :: string

record cell_def =
  cd_id :: string
  cd_width :: int
  cd_bg :: string
  cd_border :: "border option"
  cd_align :: string

record ctl =
  ct_name :: string
  ct_type :: string
  ct_opts :: "(string \<times> go_value) list"
  ct_inline :: "(string \<times> string) list"

record form_doc =
  fm_name :: string
  fm_title :: string
  fm_layout :: string
  fm_align :: string
  fm_gap :: "int option"
  fm_cells :: "cell_def option list"
  fm_controls :: "ctl option list"
  fm_handlers :: "(string \<times> string list) list"
  fm_bodies :: "(string \<times> string) list"
  fm_notes :: "string list"
  fm_modal :: bool
  fm_gap_x :: go_float
  fm_gap_y :: go_float
  fm_lines :: "int list list"
  fm_indent :: string
  fm_has_show :: bool
  fm_orphans :: "string list"

record document =
  dc_version :: int
  dc_forms :: "form_doc option list"
  dc_active :: string
  dc_notes :: "string list"

definition DocVersion :: int where "DocVersion = 3"

definition builder_types :: "string list" where
  "builder_types = [''label'', ''textbox'', ''button'', ''combo'', ''list'', ''table'', ''checkbox'', ''radio'',
     ''looper'', ''chart'', ''image'', ''tree'', ''tab'', ''topbar'', ''sidebar'', ''footer'', ''ai_chat'']"

definition empty_form :: form_doc where
  "empty_form = \<lparr>fm_name = [], fm_title = [], fm_layout = [], fm_align = [], fm_gap = None, fm_cells = [],
     fm_controls = [], fm_handlers = [], fm_bodies = [], fm_notes = [], fm_modal = False, fm_gap_x = float_zero,
     fm_gap_y = float_zero, fm_lines = [], fm_indent = [], fm_has_show = False, fm_orphans = []\<rparr>"

definition NewEmptyDoc :: document where
  "NewEmptyDoc = \<lparr>dc_version = DocVersion,
     dc_forms = [Some (empty_form\<lparr>fm_name := ''main'', fm_layout := ''vertical'', fm_align := ''left''\<rparr>)],
     dc_active = ''main'', dc_notes = []\<rparr>"

fun findForm :: "form_doc option list \<Rightarrow> string \<Rightarrow> form_doc option" where
  "findForm [] name = None"
| "findForm (f # fs) name =
     (case f of Some g \<Rightarrow> (if fm_name g = name then Some g else findForm fs name) | None \<Rightarrow> findForm fs name)"

definition firstForm :: "document \<Rightarrow> form_doc option" where
  "firstForm d = (if dc_forms d = [] then None else hd (dc_forms d))"

definition activeForm :: "document \<Rightarrow> form_doc option" where
  "activeForm d =
     (case (if dc_active d = [] then None else findForm (dc_forms d) (dc_active d)) of
        Some f \<Rightarrow> Some f
      | None \<Rightarrow> firstForm d)"

section \<open>Validation\<close>

text \<open>\<^verbatim>\<open>^[A-Za-z_][A-Za-z0-9_]*$\<close>\<close>

definition ident_start :: "char \<Rightarrow> bool" where
  "ident_start c \<longleftrightarrow> is_lower c \<or> is_upper c \<or> c = CHR ''_''"

definition is_ident :: "string \<Rightarrow> bool" where
  "is_ident s = (case s of [] \<Rightarrow> False | c # cs \<Rightarrow> ident_start c \<and> list_all (\<lambda>x. ident_start x \<or> is_digit x) cs)"

definition Validate_control :: "(string \<Rightarrow> string) \<Rightarrow> ctl \<Rightarrow> string list" where
  "Validate_control q c =
     (if is_ident (ct_name c) then [] else [''control '' @ q (ct_name c) @ '': name is not a valid Lua identifier''])
     @ (if ct_type c \<in> set builder_types then []
        else [''control '' @ q (ct_name c) @ '': unknown type '' @ q (ct_type c)])"

fun validate_cells :: "(string \<Rightarrow> string) \<Rightarrow> (int \<Rightarrow> string) \<Rightarrow> string list \<Rightarrow> cell_def option list \<Rightarrow> string list" where
  "validate_cells q dec seen [] = []"
| "validate_cells q dec seen (None # cs) = ''grid cell with empty id'' # validate_cells q dec seen cs"
| "validate_cells q dec seen (Some c # cs) =
     (if cd_id c = [] then ''grid cell with empty id'' # validate_cells q dec seen cs
      else (if is_ident (cd_id c) then [] else [''cell '' @ q (cd_id c) @ '' is not a valid Lua identifier''])
           @ (if cd_width c < 1 \<or> 12 < cd_width c
              then [''cell '' @ q (cd_id c) @ '': width '' @ dec (cd_width c) @ '' must be 1..12''] else [])
           @ (if cd_id c \<in> set seen then [''duplicate cell id '' @ q (cd_id c)] else [])
           @ validate_cells q dec (cd_id c # seen) cs)"

fun validate_controls :: "(string \<Rightarrow> string) \<Rightarrow> string list \<Rightarrow> ctl option list \<Rightarrow> string list" where
  "validate_controls q seen [] = []"
| "validate_controls q seen (None # cs) = ''null control in form.controls'' # validate_controls q seen cs"
| "validate_controls q seen (Some c # cs) =
     (if ct_name c = [] then ''control with empty name'' # validate_controls q seen cs
      else Validate_control q c
           @ (if ct_name c \<in> set seen then [''duplicate control name '' @ q (ct_name c)] else [])
           @ validate_controls q (ct_name c # seen) cs)"

definition Validate_form :: "(string \<Rightarrow> string) \<Rightarrow> (int \<Rightarrow> string) \<Rightarrow> form_doc \<Rightarrow> string list" where
  "Validate_form q dec f =
     (if fm_name f = [] then [''form.name is required''] else [])
     @ (if fm_name f \<noteq> [] \<and> \<not> is_ident (fm_name f)
        then [''form.name '' @ q (fm_name f) @ '' is not a valid Lua identifier''] else [])
     @ (if fm_layout f \<noteq> [] \<and> fm_layout f \<noteq> ''vertical'' \<and> fm_layout f \<noteq> ''grid''
        then [''form.layout '' @ q (fm_layout f) @ '' must be 'vertical' or 'grid'' @ [CHR 0x27]] else [])
     @ (if fm_align f \<noteq> [] \<and> fm_align f \<noteq> ''left'' \<and> fm_align f \<noteq> ''center'' \<and> fm_align f \<noteq> ''right''
        then [''form.align '' @ q (fm_align f) @ '' must be left|center|right''] else [])
     @ validate_cells q dec [] (fm_cells f) @ validate_controls q [] (fm_controls f)"

fun validate_forms :: "(string \<Rightarrow> string) \<Rightarrow> (int \<Rightarrow> string) \<Rightarrow> string list \<Rightarrow> form_doc option list \<Rightarrow> string list" where
  "validate_forms q dec seen [] = []"
| "validate_forms q dec seen (None # fs) = ''null form in forms'' # validate_forms q dec seen fs"
| "validate_forms q dec seen (Some f # fs) =
     Validate_form q dec f
     @ (if fm_name f \<in> set seen then [''duplicate form name '' @ q (fm_name f)] else [])
     @ validate_forms q dec (fm_name f # seen) fs"

definition Validate :: "(string \<Rightarrow> string) \<Rightarrow> (int \<Rightarrow> string) \<Rightarrow> document \<Rightarrow> string list" where
  "Validate q dec d =
     (if dc_forms d = [] then [''missing 'forms'' @ [CHR 0x27]]
      else (if dc_version d \<noteq> DocVersion
            then [''unsupported version '' @ dec (dc_version d) @ '' (expected '' @ dec DocVersion @ '')''] else [])
           @ (if dc_active d \<noteq> [] \<and> findForm (dc_forms d) (dc_active d) = None
              then [''form '' @ q (dc_active d) @ '' is not in forms''] else [])
           @ validate_forms q dec [] (dc_forms d))"

section \<open>Merging\<close>

text \<open>Copying one map over another.\<close>

definition overlay :: "('k \<times> 'v) list \<Rightarrow> ('k \<times> 'v) list \<Rightarrow> ('k \<times> 'v) list" where
  "overlay base gen = fold (\<lambda>(k, v) m. AList.update k v m) gen base"

definition mergeStrings :: "('k \<times> 'v) list \<Rightarrow> ('k \<times> 'v) list \<Rightarrow> ('k \<times> 'v) list" where
  "mergeStrings base gen = (if gen = [] then base else if base = [] then gen else overlay base gen)"

definition mergeControl :: "ctl \<Rightarrow> ctl \<Rightarrow> ctl" where
  "mergeControl base gen =
     \<lparr>ct_name = ct_name gen, ct_type = (if ct_type gen = [] then ct_type base else ct_type gen),
      ct_opts = overlay (overlay [] (ct_opts base)) (ct_opts gen),
      ct_inline = overlay (overlay [] (ct_inline base)) (ct_inline gen)\<rparr>"

fun index_controls :: "ctl option list \<Rightarrow> ctl option list \<times> (string \<times> nat) list \<Rightarrow> ctl option list \<times> (string \<times> nat) list" where
  "index_controls [] st = st"
| "index_controls (None # cs) (out, ix) = index_controls cs (out @ [None], ix)"
| "index_controls (Some c # cs) (out, ix) =
     index_controls cs (out @ [Some c], AList.update (ct_name c) (length out) ix)"

fun overlay_controls :: "ctl option list \<Rightarrow> ctl option list \<times> (string \<times> nat) list \<Rightarrow> ctl option list" where
  "overlay_controls [] (out, ix) = out"
| "overlay_controls (None # cs) (out, ix) = overlay_controls cs (out, ix)"
| "overlay_controls (Some c # cs) (out, ix) =
     (if ct_name c = [] then overlay_controls cs (out, ix)
      else case Option.bind (map_of ix (ct_name c)) (\<lambda>i. map_option (Pair i) (out ! i)) of
             Some (i, b) \<Rightarrow> overlay_controls cs (out[i := Some (mergeControl b c)], ix)
           | None \<Rightarrow> overlay_controls cs (out @ [Some c], AList.update (ct_name c) (length out) ix))"

definition mergeControls :: "ctl option list \<Rightarrow> ctl option list \<Rightarrow> ctl option list" where
  "mergeControls base gen = overlay_controls gen (index_controls base ([], []))"

fun cells_in :: "cell_def option list \<Rightarrow> string list \<times> (string \<times> cell_def) list \<Rightarrow> string list \<times> (string \<times> cell_def) list" where
  "cells_in [] st = st"
| "cells_in (None # cs) st = cells_in cs st"
| "cells_in (Some c # cs) (order, byID) =
     (if cd_id c = [] then cells_in cs (order, byID)
      else cells_in cs (if map_of byID (cd_id c) = None then order @ [cd_id c] else order, AList.update (cd_id c) c byID))"

definition mergeCells :: "cell_def option list \<Rightarrow> cell_def option list \<Rightarrow> cell_def option list" where
  "mergeCells base gen =
     (let (order, byID) = cells_in gen (cells_in base ([], [])) in map (map_of byID) order)"

definition merge_note :: string where
  "merge_note = ''Merged AI changes into the existing form (no controls removed).''"

definition mergeForm :: "form_doc \<Rightarrow> form_doc \<Rightarrow> form_doc" where
  "mergeForm base gen =
     empty_form
       \<lparr>fm_name := fm_name base,
        fm_title := (if fm_title gen \<noteq> [] then fm_title gen else fm_title base),
        fm_layout := (if fm_layout gen \<noteq> [] then fm_layout gen else fm_layout base),
        fm_align := (if fm_align gen \<noteq> [] then fm_align gen else fm_align base),
        fm_gap := (if fm_gap gen \<noteq> None then fm_gap gen else fm_gap base),
        fm_cells := mergeCells (fm_cells base) (fm_cells gen),
        fm_controls := mergeControls (fm_controls base) (fm_controls gen),
        fm_handlers := mergeStrings (fm_handlers base) (fm_handlers gen),
        fm_bodies := mergeStrings (fm_bodies base) (fm_bodies gen),
        fm_notes := fm_notes base @ [merge_note] @ fm_notes gen,
        fm_lines := fm_lines base, fm_indent := fm_indent base, fm_has_show := fm_has_show base,
        fm_orphans := fm_orphans base\<rparr>"

fun forms_in :: "form_doc option list \<Rightarrow> string list \<times> (string \<times> form_doc) list \<Rightarrow> string list \<times> (string \<times> form_doc) list" where
  "forms_in [] st = st"
| "forms_in (None # fs) st = forms_in fs st"
| "forms_in (Some f # fs) (order, byName) =
     (if fm_name f = [] then forms_in fs (order, byName)
      else forms_in fs (order @ [fm_name f], AList.update (fm_name f) f byName))"

fun forms_over :: "form_doc option list \<Rightarrow> string list \<times> (string \<times> form_doc) list \<Rightarrow> string list \<times> (string \<times> form_doc) list" where
  "forms_over [] st = st"
| "forms_over (None # fs) st = forms_over fs st"
| "forms_over (Some f # fs) (order, byName) =
     (if fm_name f = [] then forms_over fs (order, byName)
      else case map_of byName (fm_name f) of
             Some b \<Rightarrow> forms_over fs (order, AList.update (fm_name f) (mergeForm b f) byName)
           | None \<Rightarrow> forms_over fs (order @ [fm_name f], AList.update (fm_name f) f byName))"

definition added_notes :: "(string \<Rightarrow> string) \<Rightarrow> form_doc option list \<Rightarrow> form_doc option list \<Rightarrow> string list" where
  "added_notes q base gen =
     concat (map (\<lambda>f. case f of
         None \<Rightarrow> []
       | Some g \<Rightarrow> (if fm_name g = [] \<or> findForm base (fm_name g) \<noteq> None then []
                   else [''Added form '' @ q (fm_name g) @ '' from the AI result.''])) gen)"

definition MergeDocument :: "(string \<Rightarrow> string) \<Rightarrow> document option \<Rightarrow> document option \<Rightarrow> document option" where
  "MergeDocument q base gen =
     (case (base, gen) of
        (None, _) \<Rightarrow> gen
      | (_, None) \<Rightarrow> base
      | (Some b, Some g) \<Rightarrow>
          (let (order, byName) = forms_over (dc_forms g) (forms_in (dc_forms b) ([], []));
               forms = map (map_of byName) order
           in Some \<lparr>dc_version = DocVersion, dc_forms = forms,
                    dc_active = (if dc_active b = []
                                 then (case (if forms = [] then None else hd forms) of None \<Rightarrow> [] | Some f \<Rightarrow> fm_name f)
                                 else dc_active b),
                    dc_notes = added_notes q (dc_forms b) (dc_forms g)\<rparr>))"

section \<open>Lists merged by a key\<close>

text \<open>
  Controls, cells and forms are merged alike: a generated item with the key of a present one is
  combined with it in its place, any other is added at the end.
\<close>

definition upsert :: "('a \<Rightarrow> string) \<Rightarrow> ('a \<Rightarrow> 'a \<Rightarrow> 'a) \<Rightarrow> 'a \<Rightarrow> 'a list \<Rightarrow> 'a list" where
  "upsert key comb g xs =
     (if key g \<in> key ` set xs then map (\<lambda>x. if key x = key g then comb x g else x) xs else xs @ [g])"

text \<open>The Go representation of such a list: the order of the keys, and a map.\<close>

definition tabled :: "('a \<Rightarrow> string) \<Rightarrow> string list \<Rightarrow> (string \<times> 'a) list \<Rightarrow> 'a list \<Rightarrow> bool" where
  "tabled key order m xs \<longleftrightarrow> order = map key xs \<and> distinct order
     \<and> (\<forall>x\<in>set xs. map_of m (key x) = Some x) \<and> dom (map_of m) = key ` set xs"

locale keyed_merge =
  fixes key :: "'a \<Rightarrow> string" and comb :: "'a \<Rightarrow> 'a \<Rightarrow> 'a"
  assumes key_comb: "key b = key g \<Longrightarrow> key (comb b g) = key g"
begin

lemma keys_upsert:
  "map key (upsert key comb g xs) = map key xs @ (if key g \<in> key ` set xs then [] else [key g])"
  by (auto simp: upsert_def key_comb)

lemma keys_fold:
  "distinct (map key gs) \<Longrightarrow>
   map key (fold (upsert key comb) gs xs) = map key xs @ filter (\<lambda>k. k \<notin> key ` set xs) (map key gs)"
proof (induction gs arbitrary: xs)
  case (Cons g gs)
  have "key ` set (upsert key comb g xs) = insert (key g) (key ` set xs)"
    using arg_cong [OF keys_upsert, of set g xs] by (auto split: if_splits)
  moreover have "filter (\<lambda>k. k \<noteq> key g \<and> k \<notin> key ` set xs) (map key gs) = filter (\<lambda>k. k \<notin> key ` set xs) (map key gs)"
    using Cons.prems by (auto intro!: filter_cong)
  ultimately show ?case using Cons by (auto simp: keys_upsert)
qed simp

lemma distinct_upsert: "distinct (map key xs) \<Longrightarrow> distinct (map key (upsert key comb g xs))"
  by (auto simp: keys_upsert)

lemma distinct_fold: "distinct (map key xs) \<Longrightarrow> distinct (map key (fold (upsert key comb) gs xs))"
  by (induction gs arbitrary: xs) (simp_all add: distinct_upsert)

lemma all_fold:
  "list_all P xs \<Longrightarrow> list_all P gs \<Longrightarrow> (\<And>b g. P b \<Longrightarrow> P g \<Longrightarrow> key b = key g \<Longrightarrow> P (comb b g)) \<Longrightarrow>
   list_all P (fold (upsert key comb) gs xs)"
proof (induction gs arbitrary: xs)
  case (Cons g gs)
  have "list_all P (upsert key comb g xs)"
    using Cons.prems by (auto simp: upsert_def list_all_iff)
  with Cons show ?case by simp
qed simp

lemma nth_upsert: "i < length xs \<Longrightarrow>
    upsert key comb g xs ! i = (if key (xs ! i) = key g then comb (xs ! i) g else xs ! i)"
proof -
  assume i: "i < length xs"
  show ?thesis
  proof (cases "key g \<in> key ` set xs")
    case False
    then have "key (xs ! i) \<noteq> key g" using i by (metis image_eqI nth_mem)
    with False i show ?thesis by (simp add: upsert_def nth_append)
  qed (simp add: upsert_def i)
qed

lemma length_upsert: "length xs \<le> length (upsert key comb g xs)"
  by (simp add: upsert_def)

text \<open>What becomes of an item that was there: combined with its counterpart, or kept.\<close>

lemma nth_fold:
  "i < length xs \<Longrightarrow> distinct (map key gs) \<Longrightarrow>
   fold (upsert key comb) gs xs ! i =
     (case find (\<lambda>g. key g = key (xs ! i)) gs of None \<Rightarrow> xs ! i | Some g \<Rightarrow> comb (xs ! i) g)"
proof (induction gs arbitrary: xs)
  case (Cons g gs)
  let ?ys = "upsert key comb g xs"
  have i: "i < length ?ys" using Cons.prems(1) length_upsert [of xs g] by simp
  show ?case
  proof (cases "key g = key (xs ! i)")
    case True
    then have y: "?ys ! i = comb (xs ! i) g" "key (?ys ! i) = key g"
      using Cons.prems(1) by (simp_all add: nth_upsert key_comb)
    have "find (\<lambda>h. key h = key g) gs = None"
      using Cons.prems(2) by (simp add: find_None_iff) (metis image_eqI)
    with Cons.IH [OF i] Cons.prems(2) y True show ?thesis by simp
  next
    case False
    then have "?ys ! i = xs ! i" using Cons.prems(1) by (simp add: nth_upsert)
    then show ?thesis using Cons.IH [OF i] Cons.prems(2) False by (simp cong: option.case_cong)
  qed
qed simp

lemma tabled_found:
  assumes t: "tabled key order m xs" and b: "map_of m (key g) = Some b"
  shows "tabled key order (AList.update (key g) (comb b g) m) (upsert key comb g xs)"
proof -
  have order: "order = map key xs" and val: "x \<in> set xs \<Longrightarrow> map_of m (key x) = Some x"
    and dom: "dom (map_of m) = key ` set xs" for x
    using t by (auto simp: tabled_def)
  have uniq: "x = b" if "x \<in> set xs" "key x = key g" for x
    using val [OF that(1)] that(2) b by simp
  have "key g \<in> key ` set xs" using b dom by (metis domI)
  then have up: "upsert key comb g xs = map (\<lambda>x. if key x = key g then comb b g else x) xs"
    using uniq by (auto simp: upsert_def)
  obtain x where x: "x \<in> set xs" "key x = key g" using \<open>key g \<in> key ` set xs\<close> by auto
  then have kb: "key b = key g" using uniq by blast
  have "map key (upsert key comb g xs) = order"
    unfolding keys_upsert order using \<open>key g \<in> key ` set xs\<close> by simp
  moreover have "map_of (AList.update (key g) (comb b g) m) (key y) = Some y" if "y \<in> set (upsert key comb g xs)" for y
    using that val kb unfolding up by (auto simp: key_comb)
  moreover have "dom (map_of (AList.update (key g) (comb b g) m)) = key ` set (upsert key comb g xs)"
    using \<open>key g \<in> key ` set xs\<close> dom calculation(1) order by (metis dom_fun_upd image_set insert_absorb map_of_update option.distinct(1))
  moreover have "distinct order" using t unfolding tabled_def by blast
  ultimately show ?thesis unfolding tabled_def by blast
qed

lemma tabled_new:
  assumes "tabled key order m xs" and "map_of m (key g) = None"
  shows "tabled key (order @ [key g]) (AList.update (key g) g m) (upsert key comb g xs)"
proof -
  have "key g \<notin> key ` set xs" using assms by (auto simp: tabled_def)
  then show ?thesis using assms by (auto simp: tabled_def upsert_def)
qed

lemma tabled_out: "tabled key order m xs \<Longrightarrow> map (map_of m) order = map Some xs"
  by (auto simp: tabled_def)

lemma fold_fresh: "distinct (map key (xs @ gs)) \<Longrightarrow> fold (upsert key comb) gs xs = xs @ gs"
proof (induction gs arbitrary: xs)
  case (Cons g gs)
  then have "upsert key comb g xs = xs @ [g]" by (auto simp: upsert_def)
  with Cons.IH [of "xs @ [g]"] Cons.prems show ?case by simp
qed simp

end

interpretation control_merge: keyed_merge ct_name mergeControl
  by unfold_locales (simp add: mergeControl_def)

interpretation cell_merge: keyed_merge cd_id "\<lambda>b g. g"
  by unfold_locales simp

interpretation form_merge: keyed_merge fm_name mergeForm
  by unfold_locales (simp add: mergeForm_def)

section \<open>The three merges\<close>

definition indexed :: "ctl list \<Rightarrow> (string \<times> nat) list \<Rightarrow> bool" where
  "indexed xs ix \<longleftrightarrow> distinct (map ct_name xs) \<and> (\<forall>n i. map_of ix n = Some i \<longleftrightarrow> i < length xs \<and> ct_name (xs ! i) = n)"

lemma indexed_snoc: "indexed xs ix \<Longrightarrow> ct_name c \<notin> ct_name ` set xs \<Longrightarrow>
    indexed (xs @ [c]) (AList.update (ct_name c) (length xs) ix)"
  by (auto simp: indexed_def nth_append less_Suc_eq) (metis nth_mem image_eqI)+

lemma indexed_update: "indexed xs ix \<Longrightarrow> i < length xs \<Longrightarrow> ct_name (xs ! i) = ct_name c \<Longrightarrow>
    indexed (xs[i := c]) ix"
  by (simp add: indexed_def map_update nth_list_update) (metis length_map list_update_id nth_map)

lemma index_controls_map:
  "indexed xs ix \<Longrightarrow> distinct (map ct_name (xs @ bs)) \<Longrightarrow>
   \<exists>ix'. index_controls (map Some bs) (map Some xs, ix) = (map Some (xs @ bs), ix') \<and> indexed (xs @ bs) ix'"
proof (induction bs arbitrary: xs ix)
  case (Cons b bs)
  have "indexed (xs @ [b]) (AList.update (ct_name b) (length xs) ix)"
    using Cons.prems by (auto intro: indexed_snoc)
  from Cons.IH [OF this] Cons.prems show ?case by simp
qed simp

lemma overlay_controls_fold:
  "indexed xs ix \<Longrightarrow> \<forall>g\<in>set gs. ct_name g \<noteq> [] \<Longrightarrow>
   overlay_controls (map Some gs) (map Some xs, ix) = map Some (fold (upsert ct_name mergeControl) gs xs)"
proof (induction gs arbitrary: xs ix)
  case (Cons g gs)
  show ?case
  proof (cases "map_of ix (ct_name g)")
    case None
    have new: "ct_name g \<notin> ct_name ` set xs"
    proof
      assume "ct_name g \<in> ct_name ` set xs"
      then obtain i where "i < length xs" "ct_name (xs ! i) = ct_name g" by (auto simp: in_set_conv_nth)
      then have "map_of ix (ct_name g) = Some i" using Cons.prems(1) unfolding indexed_def by blast
      with None show False by simp
    qed
    with Cons.IH [OF indexed_snoc [OF Cons.prems(1) new]] Cons.prems None show ?thesis
      by (simp add: upsert_def)
  next
    case (Some i)
    then have i: "i < length xs" "ct_name (xs ! i) = ct_name g" and d: "distinct (map ct_name xs)"
      using Cons.prems(1) by (auto simp: indexed_def)
    have "upsert ct_name mergeControl g xs = xs[i := mergeControl (xs ! i) g]"
    proof (rule nth_equalityI)
      fix j
      assume "j < length (upsert ct_name mergeControl g xs)"
      moreover have "ct_name g \<in> ct_name ` set xs" using i by (metis image_eqI nth_mem)
      ultimately have j: "j < length xs" by (simp add: upsert_def)
      have "ct_name (xs ! j) = ct_name g \<longleftrightarrow> j = i"
        using d i j by (metis length_map nth_eq_iff_index_eq nth_map)
      then show "upsert ct_name mergeControl g xs ! j = xs[i := mergeControl (xs ! i) g] ! j"
        using j by (auto simp: control_merge.nth_upsert nth_list_update)
    qed (use i in \<open>auto simp: upsert_def, metis image_eqI nth_mem\<close>)
    moreover have "indexed (xs[i := mergeControl (xs ! i) g]) ix"
      using indexed_update [OF Cons.prems(1) i(1)] i(2) by (simp add: mergeControl_def)
    ultimately show ?thesis
      using Cons.IH [of "xs[i := mergeControl (xs ! i) g]" ix] Cons.prems(2) Some i(1)
      by (simp add: map_update)
  qed
qed simp

lemma mergeControls_fold:
  assumes "distinct (map ct_name bs)" and "\<forall>g\<in>set gs. ct_name g \<noteq> []"
  shows "mergeControls (map Some bs) (map Some gs) = map Some (fold (upsert ct_name mergeControl) gs bs)"
proof -
  have "indexed [] []" by (simp add: indexed_def)
  from index_controls_map [OF this, of bs] assms show ?thesis
    by (auto simp: mergeControls_def overlay_controls_fold)
qed

lemma cells_in_fold:
  "tabled cd_id order m xs \<Longrightarrow> \<forall>g\<in>set gs. cd_id g \<noteq> [] \<Longrightarrow>
   \<exists>order' m'. cells_in (map Some gs) (order, m) = (order', m') \<and> tabled cd_id order' m' (fold (upsert cd_id (\<lambda>b g. g)) gs xs)"
proof (induction gs arbitrary: order m xs)
  case (Cons g gs)
  show ?case
  proof (cases "map_of m (cd_id g)")
    case None
    from Cons.IH [OF cell_merge.tabled_new [OF Cons.prems(1) None]] Cons.prems(2) None show ?thesis by simp
  next
    case (Some b)
    from Cons.IH [OF cell_merge.tabled_found [OF Cons.prems(1) Some]] Cons.prems(2) Some show ?thesis by simp
  qed
qed simp

lemma mergeCells_fold:
  assumes "distinct (map cd_id bs)" and "\<forall>g\<in>set (bs @ gs). cd_id g \<noteq> []"
  shows "mergeCells (map Some bs) (map Some gs) = map Some (fold (upsert cd_id (\<lambda>b g. g)) gs bs)"
proof -
  have start: "tabled cd_id [] [] []" by (simp add: tabled_def)
  obtain o1 m1 where one: "cells_in (map Some bs) ([], []) = (o1, m1)" "tabled cd_id o1 m1 bs"
    using cells_in_fold [OF start, of bs] cell_merge.fold_fresh [of "[]" bs] assms by auto
  obtain o2 m2 where "cells_in (map Some gs) (o1, m1) = (o2, m2)" "tabled cd_id o2 m2 (fold (upsert cd_id (\<lambda>b g. g)) gs bs)"
    using cells_in_fold [OF one(2), of gs] assms(2) by auto
  then show ?thesis by (simp add: mergeCells_def one(1) cell_merge.tabled_out)
qed

lemma forms_in_tabled:
  "tabled fm_name order m xs \<Longrightarrow> distinct (map fm_name (xs @ bs)) \<Longrightarrow> \<forall>b\<in>set bs. fm_name b \<noteq> [] \<Longrightarrow>
   \<exists>order' m'. forms_in (map Some bs) (order, m) = (order', m') \<and> tabled fm_name order' m' (xs @ bs)"
proof (induction bs arbitrary: order m xs)
  case (Cons b bs)
  have "map_of m (fm_name b) = None"
    using Cons.prems(1,2) by (auto simp: tabled_def domIff [symmetric])
  from form_merge.tabled_new [OF Cons.prems(1) this]
  have "tabled fm_name (order @ [fm_name b]) (AList.update (fm_name b) b m) (xs @ [b])"
    using Cons.prems(2) by (simp add: upsert_def)
  from Cons.IH [OF this] Cons.prems show ?case by simp
qed simp

lemma forms_over_fold:
  "tabled fm_name order m xs \<Longrightarrow> \<forall>g\<in>set gs. fm_name g \<noteq> [] \<Longrightarrow>
   \<exists>order' m'. forms_over (map Some gs) (order, m) = (order', m')
     \<and> tabled fm_name order' m' (fold (upsert fm_name mergeForm) gs xs)"
proof (induction gs arbitrary: order m xs)
  case (Cons g gs)
  show ?case
  proof (cases "map_of m (fm_name g)")
    case None
    from Cons.IH [OF form_merge.tabled_new [OF Cons.prems(1) None]] Cons.prems(2) None show ?thesis by simp
  next
    case (Some b)
    from Cons.IH [OF form_merge.tabled_found [OF Cons.prems(1) Some]] Cons.prems(2) Some show ?thesis by simp
  qed
qed simp

lemma MergeDocument_fold:
  assumes "dc_forms b = map Some bs" "dc_forms g = map Some gs"
    and "distinct (map fm_name bs)" and "\<forall>f\<in>set (bs @ gs). fm_name f \<noteq> []"
  shows "\<exists>d. MergeDocument q (Some b) (Some g) = Some d \<and> dc_version d = DocVersion
     \<and> dc_forms d = map Some (fold (upsert fm_name mergeForm) gs bs)
     \<and> dc_active d = (if dc_active b = [] then (case fold (upsert fm_name mergeForm) gs bs of [] \<Rightarrow> [] | f # fs \<Rightarrow> fm_name f)
                      else dc_active b)
     \<and> dc_notes d = added_notes q (dc_forms b) (dc_forms g)"
proof -
  have start: "tabled fm_name [] [] []" by (simp add: tabled_def)
  obtain o1 m1 where one: "forms_in (map Some bs) ([], []) = (o1, m1)" "tabled fm_name o1 m1 bs"
    using forms_in_tabled [OF start, of bs] assms(3,4) by auto
  obtain o2 m2 where two: "forms_over (map Some gs) (o1, m1) = (o2, m2)"
      "tabled fm_name o2 m2 (fold (upsert fm_name mergeForm) gs bs)"
    using forms_over_fold [OF one(2), of gs] assms(4) by auto
  have forms: "map (map_of m2) o2 = map Some (fold (upsert fm_name mergeForm) gs bs)"
    using two(2) by (rule form_merge.tabled_out)
  show ?thesis
    by (simp add: MergeDocument_def assms(1,2) one(1) two(1) forms split: list.split)
qed

section \<open>Valid documents\<close>

lemma is_ident_Nil [simp]: "\<not> is_ident []"
  by (simp add: is_ident_def)

definition control_ok :: "ctl \<Rightarrow> bool" where
  "control_ok c \<longleftrightarrow> is_ident (ct_name c) \<and> ct_type c \<in> set builder_types"

definition cell_ok :: "cell_def \<Rightarrow> bool" where
  "cell_ok c \<longleftrightarrow> is_ident (cd_id c) \<and> 1 \<le> cd_width c \<and> cd_width c \<le> 12"

definition form_ok :: "form_doc \<Rightarrow> bool" where
  "form_ok f \<longleftrightarrow> is_ident (fm_name f) \<and> fm_layout f \<in> {[], ''vertical'', ''grid''}
     \<and> fm_align f \<in> {[], ''left'', ''center'', ''right''}
     \<and> (\<exists>xs. fm_cells f = map Some xs \<and> list_all cell_ok xs \<and> distinct (map cd_id xs))
     \<and> (\<exists>xs. fm_controls f = map Some xs \<and> list_all control_ok xs \<and> distinct (map ct_name xs))"

lemma ok_named: "control_ok c \<Longrightarrow> ct_name c \<noteq> []" "cell_ok d \<Longrightarrow> cd_id d \<noteq> []" "form_ok f \<Longrightarrow> fm_name f \<noteq> []"
  by (auto simp: control_ok_def cell_ok_def form_ok_def)

lemma Validate_control_iff [simp]: "Validate_control q c = [] \<longleftrightarrow> control_ok c"
  by (simp add: Validate_control_def control_ok_def)

lemma map_Some_Cons: "(\<exists>xs. x # ys = map Some xs \<and> P xs) \<longleftrightarrow> (\<exists>y zs. x = Some y \<and> ys = map Some zs \<and> P (y # zs))"
  by (metis list.simps(9) map_eq_Cons_conv)

lemma validate_controls_iff:
  "validate_controls q seen cs = [] \<longleftrightarrow>
     (\<exists>xs. cs = map Some xs \<and> list_all control_ok xs \<and> distinct (map ct_name xs) \<and> ct_name ` set xs \<inter> set seen = {})"
proof (induction q seen cs rule: validate_controls.induct)
  case (3 q seen c cs)
  show ?case
    unfolding map_Some_Cons using "3.IH" ok_named(1) [of c] by auto
qed auto

lemma validate_cells_iff:
  "validate_cells q dec seen cs = [] \<longleftrightarrow>
     (\<exists>xs. cs = map Some xs \<and> list_all cell_ok xs \<and> distinct (map cd_id xs) \<and> cd_id ` set xs \<inter> set seen = {})"
proof (induction q dec seen cs rule: validate_cells.induct)
  case (3 q dec seen c cs)
  show ?case
    unfolding map_Some_Cons using "3.IH" cell_ok_def [of c] by auto
qed auto

lemma Validate_form_iff: "Validate_form q dec f = [] \<longleftrightarrow> form_ok f"
  by (auto simp: Validate_form_def form_ok_def validate_controls_iff validate_cells_iff)

lemma validate_forms_iff:
  "validate_forms q dec seen fs = [] \<longleftrightarrow>
     (\<exists>xs. fs = map Some xs \<and> list_all form_ok xs \<and> distinct (map fm_name xs) \<and> fm_name ` set xs \<inter> set seen = {})"
proof (induction q dec seen fs rule: validate_forms.induct)
  case (3 q dec seen f fs)
  show ?case
    unfolding map_Some_Cons using "3.IH" by (auto simp: Validate_form_iff)
qed auto

lemma findForm_iff: "findForm (map Some xs) n = None \<longleftrightarrow> n \<notin> fm_name ` set xs"
  by (induction xs) auto

lemma Validate_iff:
  "Validate q dec d = [] \<longleftrightarrow> dc_version d = DocVersion
     \<and> (\<exists>xs. xs \<noteq> [] \<and> dc_forms d = map Some xs \<and> list_all form_ok xs \<and> distinct (map fm_name xs)
            \<and> (dc_active d = [] \<or> dc_active d \<in> fm_name ` set xs))"
proof -
  have "findForm (dc_forms d) (dc_active d) = None \<longleftrightarrow> dc_active d \<notin> fm_name ` set xs" if "dc_forms d = map Some xs" for xs
    by (simp add: that findForm_iff)
  then show ?thesis by (auto simp add: Validate_def validate_forms_iff simp del: not_None_eq)
qed

lemma mergeControl_ok: "control_ok b \<Longrightarrow> control_ok g \<Longrightarrow> control_ok (mergeControl b g)"
  by (simp add: control_ok_def mergeControl_def)

lemma mergeForm_ok:
  assumes "form_ok b" and "form_ok g"
  shows "form_ok (mergeForm b g)"
proof -
  obtain bc gc where c: "fm_cells b = map Some bc" "fm_cells g = map Some gc" "list_all cell_ok bc" "list_all cell_ok gc"
      "distinct (map cd_id bc)" "distinct (map cd_id gc)"
    using assms by (auto simp: form_ok_def)
  obtain bs gs where s: "fm_controls b = map Some bs" "fm_controls g = map Some gs" "list_all control_ok bs"
      "list_all control_ok gs" "distinct (map ct_name bs)"
    using assms by (auto simp: form_ok_def)
  have cells: "mergeCells (map Some bc) (map Some gc) = map Some (fold (upsert cd_id (\<lambda>b g. g)) gc bc)"
    using c ok_named(2) by (intro mergeCells_fold) (auto simp: list_all_iff)
  have controls: "mergeControls (map Some bs) (map Some gs) = map Some (fold (upsert ct_name mergeControl) gs bs)"
    using s ok_named(1) by (intro mergeControls_fold) (auto simp: list_all_iff)
  have cells_ok: "list_all cell_ok (fold (upsert cd_id (\<lambda>b g. g)) gc bc)"
    using c(3,4) by (rule cell_merge.all_fold)
  have controls_ok: "list_all control_ok (fold (upsert ct_name mergeControl) gs bs)"
    using s(3,4) mergeControl_ok by (rule control_merge.all_fold)
  show ?thesis
    unfolding form_ok_def
  proof (intro conjI)
    show "\<exists>xs. fm_cells (mergeForm b g) = map Some xs \<and> list_all cell_ok xs \<and> distinct (map cd_id xs)"
      using cells_ok cell_merge.distinct_fold [OF c(5), of gc] by (auto simp: mergeForm_def c(1,2) cells)
    show "\<exists>xs. fm_controls (mergeForm b g) = map Some xs \<and> list_all control_ok xs \<and> distinct (map ct_name xs)"
      using controls_ok control_merge.distinct_fold [OF s(5), of gs] by (auto simp: mergeForm_def s(1,2) controls)
  qed (use assms in \<open>auto simp: form_ok_def mergeForm_def\<close>)
qed

text \<open>C4: Applying a generated document keeps the builder's document valid: if both documents pass
  validation, so does the merged one.\<close>

theorem merge_keeps_valid:
  assumes "Validate q dec b = []" and "Validate q dec g = []"
  shows "\<exists>d. MergeDocument q (Some b) (Some g) = Some d \<and> Validate q dec d = []"
proof -
  obtain bs where b: "bs \<noteq> []" "dc_forms b = map Some bs" "list_all form_ok bs" "distinct (map fm_name bs)"
      "dc_active b = [] \<or> dc_active b \<in> fm_name ` set bs"
    using assms(1) by (auto simp: Validate_iff)
  obtain gs where g: "dc_forms g = map Some gs" "list_all form_ok gs" "distinct (map fm_name gs)"
    using assms(2) by (auto simp: Validate_iff)
  let ?fs = "fold (upsert fm_name mergeForm) gs bs"
  obtain d where d: "MergeDocument q (Some b) (Some g) = Some d" "dc_version d = DocVersion" "dc_forms d = map Some ?fs"
      "dc_active d = (if dc_active b = [] then (case ?fs of [] \<Rightarrow> [] | f # fs \<Rightarrow> fm_name f) else dc_active b)"
    using MergeDocument_fold [OF b(2) g(1) b(4), of q] b(3) g(2) ok_named(3) by (auto simp: list_all_iff)
  have names: "map fm_name ?fs = map fm_name bs @ filter (\<lambda>k. k \<notin> fm_name ` set bs) (map fm_name gs)"
    using g(3) by (rule form_merge.keys_fold)
  then have ne: "?fs \<noteq> []" using b(1) by auto
  have "fm_name ` set bs \<subseteq> fm_name ` set ?fs"
    using arg_cong [OF names, of set] by auto
  then have "dc_active d = [] \<or> dc_active d \<in> fm_name ` set ?fs"
    using b(5) d(4) ne by (auto split: list.splits)
  moreover have "list_all form_ok ?fs"
    using b(3) g(2) mergeForm_ok by (rule form_merge.all_fold)
  ultimately have "Validate q dec d = []"
    unfolding Validate_iff using d(2,3) ne form_merge.distinct_fold [OF b(4), of gs] by blast
  with d(1) show ?thesis by blast
qed

definition plain_doc :: "string \<Rightarrow> bool \<Rightarrow> document" where
  "plain_doc ctrl modal = \<lparr>dc_version = 3,
     dc_forms = [Some (empty_form\<lparr>fm_name := ''main'', fm_modal := modal,
       fm_controls := [Some \<lparr>ct_name = ctrl, ct_type = ''button'', ct_opts = [(''label'', GString ctrl)], ct_inline = []\<rparr>]\<rparr>)],
     dc_active = ''main'', dc_notes = [''hand edited'']\<rparr>"

lemma plain_doc_valid: "Validate id (\<lambda>n. []) (plain_doc ''ok'' True) = []" "Validate id (\<lambda>n. []) (plain_doc ''cancel'' False) = []"
  by code_simp+

theorem merge_keeps_valid_witness:
  "\<exists>d. MergeDocument id (Some (plain_doc ''ok'' True)) (Some (plain_doc ''cancel'' False)) = Some d \<and> Validate id (\<lambda>n. []) d = []"
  by (rule merge_keeps_valid [OF plain_doc_valid])

section \<open>What a merge keeps and loses\<close>

definition control_names :: "form_doc \<Rightarrow> string list" where
  "control_names f = map (\<lambda>c. case c of None \<Rightarrow> [] | Some x \<Rightarrow> ct_name x) (fm_controls f)"

lemma overlay_keys: "dom (map_of (overlay b g)) = dom (map_of b) \<union> dom (map_of g)"
proof (induction g arbitrary: b)
  case (Cons kv g)
  obtain k v where "kv = (k, v)" by (cases kv)
  with Cons.IH [of "AList.update k v b"] show ?case by (auto simp: overlay_def dom_if split: if_splits)
qed (simp add: overlay_def)

lemma mergeControls_names:
  assumes "form_ok b" and "form_ok g"
  shows "control_names (mergeForm b g) = control_names b @ filter (\<lambda>n. n \<notin> set (control_names b)) (control_names g)"
proof -
  obtain bs where b: "fm_controls b = map Some bs" "list_all control_ok bs" "distinct (map ct_name bs)"
    using assms(1) by (auto simp: form_ok_def)
  obtain gs where g: "fm_controls g = map Some gs" "list_all control_ok gs" "distinct (map ct_name gs)"
    using assms(2) by (auto simp: form_ok_def)
  have "fm_controls (mergeForm b g) = map Some (fold (upsert ct_name mergeControl) gs bs)"
    using b g ok_named(1) by (auto simp: mergeForm_def list_all_iff intro!: mergeControls_fold)
  moreover have "case_option [] ct_name \<circ> Some = (ct_name :: ctl \<Rightarrow> string)" by (simp add: fun_eq_iff)
  ultimately show ?thesis
    using control_merge.keys_fold [OF g(3), of bs] by (simp add: control_names_def b(1) g(1))
qed

lemma mergeControl_options:
  "dom (map_of (ct_opts b)) \<subseteq> dom (map_of (ct_opts (mergeControl b g)))"
  "dom (map_of (ct_inline b)) \<subseteq> dom (map_of (ct_inline (mergeControl b g)))"
  by (simp_all add: mergeControl_def overlay_keys)

text \<open>A merge removes no form and no control and moves none: the forms of the merged document are
  the open forms in their order followed by the generated forms of new names, and each open form
  keeps its controls in front, in order, followed by the new ones.\<close>

theorem merge_never_removes:
  assumes "Validate q dec b = []" and "Validate q dec g = []"
    and "dc_forms b = map Some bs" and "dc_forms g = map Some gs"
  shows "\<exists>d fs. MergeDocument q (Some b) (Some g) = Some d \<and> dc_forms d = map Some fs
    \<and> map fm_name fs = map fm_name bs @ filter (\<lambda>n. n \<notin> fm_name ` set bs) (map fm_name gs)
    \<and> (\<forall>i<length bs. prefix (control_names (bs ! i)) (control_names (fs ! i)))"
proof -
  have inj: "xs = bs" if "map Some xs = map Some bs" for xs using that by (simp add: inj_map_eq_map)
  have inj': "xs = gs" if "map Some xs = map Some gs" for xs using that by (simp add: inj_map_eq_map)
  have b: "list_all form_ok bs" "distinct (map fm_name bs)"
    using assms(1,3) unfolding Validate_iff by (metis inj)+
  have g: "list_all form_ok gs" "distinct (map fm_name gs)"
    using assms(2,4) unfolding Validate_iff by (metis inj')+
  let ?fs = "fold (upsert fm_name mergeForm) gs bs"
  obtain d where d: "MergeDocument q (Some b) (Some g) = Some d" "dc_forms d = map Some ?fs"
    using MergeDocument_fold [OF assms(3,4) b(2), of q] b(1) g(1) ok_named(3) by (auto simp: list_all_iff)
  have "prefix (control_names (bs ! i)) (control_names (?fs ! i))" if i: "i < length bs" for i
  proof (cases "find (\<lambda>h. fm_name h = fm_name (bs ! i)) gs")
    case (Some h)
    then have "h \<in> set gs" by (auto simp: find_Some_iff)
    with mergeControls_names [of "bs ! i" h] b(1) g(1) i have
      "prefix (control_names (bs ! i)) (control_names (mergeForm (bs ! i) h))"
      by (simp add: list_all_iff)
    with form_merge.nth_fold [OF i g(2)] Some show ?thesis by simp
  qed (use form_merge.nth_fold [OF i g(2)] in simp)
  with d form_merge.keys_fold [OF g(2), of bs] show ?thesis by blast
qed

theorem merge_never_removes_witness:
  "\<exists>d fs. MergeDocument id (Some (plain_doc ''ok'' True)) (Some (plain_doc ''cancel'' False)) = Some d
     \<and> dc_forms d = map Some fs \<and> map fm_name fs = [''main''] \<and> prefix [''ok''] (control_names (fs ! 0))"
  using merge_never_removes [OF plain_doc_valid,
      of "[the (hd (dc_forms (plain_doc ''ok'' True)))]" "[the (hd (dc_forms (plain_doc ''cancel'' False)))]"]
  by (simp add: plain_doc_def control_names_def)

text \<open>A merge drops settings of the open document that nothing in the generated one replaces: a form
  that occurs in both loses its modal flag and its two gaps, and the notes of the document are gone,
  whatever they were.\<close>

theorem merge_drops_settings:
  assumes "Validate q dec b = []" and "Validate q dec g = []"
    and "dc_forms b = map Some bs" and "dc_forms g = map Some gs"
    and "i < length bs" and "fm_name (bs ! i) \<in> fm_name ` set gs"
  shows "\<exists>d f. MergeDocument q (Some b) (Some g) = Some d \<and> dc_forms d ! i = Some f
    \<and> fm_name f = fm_name (bs ! i) \<and> \<not> fm_modal f \<and> fm_gap_x f = float_zero \<and> fm_gap_y f = float_zero
    \<and> dc_notes d = added_notes q (dc_forms b) (dc_forms g)"
proof -
  have b: "list_all form_ok bs" "distinct (map fm_name bs)"
    using assms(1,3) unfolding Validate_iff by (auto simp: inj_map_eq_map)
  have g: "list_all form_ok gs" "distinct (map fm_name gs)"
    using assms(2,4) unfolding Validate_iff by (auto simp: inj_map_eq_map)
  let ?fs = "fold (upsert fm_name mergeForm) gs bs"
  obtain d where d: "MergeDocument q (Some b) (Some g) = Some d" "dc_forms d = map Some ?fs"
      "dc_notes d = added_notes q (dc_forms b) (dc_forms g)"
    using MergeDocument_fold [OF assms(3,4) b(2), of q] b(1) g(1) ok_named(3) by (auto simp: list_all_iff)
  obtain h where "find (\<lambda>h. fm_name h = fm_name (bs ! i)) gs = Some h"
    using assms(6) by (cases "find (\<lambda>h. fm_name h = fm_name (bs ! i)) gs") (auto simp: find_None_iff)
  then have "?fs ! i = mergeForm (bs ! i) h" using form_merge.nth_fold [OF assms(5) g(2)] by simp
  moreover have "length bs \<le> length ?fs"
    using arg_cong [OF form_merge.keys_fold [OF g(2), of bs], of length] by simp
  ultimately show ?thesis
    using d assms(5) by (intro exI [of _ d] exI [of _ "mergeForm (bs ! i) h"]) (simp add: mergeForm_def empty_form_def)
qed

theorem merge_drops_settings_witness:
  "\<exists>d f. MergeDocument id (Some (plain_doc ''ok'' True)) (Some (plain_doc ''cancel'' False)) = Some d
     \<and> dc_forms d ! 0 = Some f \<and> fm_name f = ''main'' \<and> \<not> fm_modal f \<and> dc_notes d = []"
  using merge_drops_settings [OF plain_doc_valid,
      of "[the (hd (dc_forms (plain_doc ''ok'' True)))]" "[the (hd (dc_forms (plain_doc ''cancel'' False)))]" 0]
  by (auto simp: plain_doc_def added_notes_def)

end
