(* ===== verification/Lua_Printer.thy ===== *)
theory Lua_Printer
  imports Builder_Merge Go_Text
begin

text \<open>
  \<^verbatim>\<open>internal/builder/lua_printer.go\<close>: the printer that turns the handlers of an imported form
  back into Lua text. The syntax trees are those of the Lua parser's \<^verbatim>\<open>ast\<close> package; an absent
  expression is None.
\<close>

section \<open>Syntax trees\<close>

type_synonym par_list = "(string list \<times> bool) option"

datatype expr =
    StringE string | NumberE string | TrueE | FalseE | NilE | IdentE string | Comma3E
  | AttrGetE expr "expr option"
  | TableE "(expr option \<times> expr) list"
  | CallE "expr option" "expr option" string "expr list"
  | FunctionE par_list "stmt list"
  | LogicalE string expr expr
  | RelationalE string expr expr
  | ConcatE expr expr
  | ArithE string expr expr
  | MinusE expr
  | NotE expr
  | LenE expr
and stmt =
    LocalAssign "string list" "expr list"
  | AssignS "expr list" "expr list"
  | CallS expr
  | DoS "stmt list"
  | WhileS expr "stmt list"
  | RepeatS expr "stmt list"
  | IfS expr "stmt list" "stmt list"
  | NumForS string expr expr "expr option" "stmt list"
  | GenForS "string list" "expr list" "stmt list"
  | FuncDefS func_name par_list "stmt list"
  | ReturnS "expr list"
  | BreakS
  | LabelS string
  | GotoS string
and func_name = FuncName "expr option" "expr option" string

section \<open>Pieces of text\<close>

definition quote_byte :: "char \<Rightarrow> string" where
  "quote_byte c =
     (if c = CHR 0x5C then [CHR 0x5C, CHR 0x5C]
      else if c = CHR 0x22 then [CHR 0x5C, CHR 0x22]
      else if c = CHR 0x0A then [CHR 0x5C, CHR ''n'']
      else if c = CHR 0x09 then [CHR 0x5C, CHR ''t'']
      else if c = CHR 0x0D then [CHR 0x5C, CHR ''r'']
      else [c])"

definition luaQuote :: "string \<Rightarrow> string" where
  "luaQuote s = [CHR 0x22] @ concat (map quote_byte s) @ [CHR 0x22]"

definition luaKey :: "string \<Rightarrow> string" where
  "luaKey k = (if is_ident k then k else ''['' @ luaQuote k @ '']'')"

definition keyName :: "expr \<Rightarrow> string" where
  "keyName e = (case e of IdentE v \<Rightarrow> v | StringE v \<Rightarrow> v | _ \<Rightarrow> [])"

definition padOf :: "nat \<Rightarrow> string" where
  "padOf n = concat (replicate n ''  '')"

definition parList :: "par_list \<Rightarrow> string" where
  "parList p = (case p of None \<Rightarrow> [] | Some (names, vargs) \<Rightarrow> join_with '', '' (names @ (if vargs then [''...''] else [])))"

definition unaryOperand :: "string \<Rightarrow> string" where
  "unaryOperand s =
     (if list_ex (\<lambda>c. c = CHR '' '' \<or> c = CHR 0x09 \<or> c = CHR 0x0A) s then ''('' @ s @ '')'' else s)"

abbreviation nl :: string where "nl \<equiv> [CHR 0x0A]"

section \<open>Printing\<close>

text \<open>\<open>PrintKeyed\<close> prints the entries of a table that has a key somewhere, counting the others.\<close>

function (sequential) PrintExpr :: "expr \<Rightarrow> string"
and PrintOpt :: "expr option \<Rightarrow> string"
and PrintArgs :: "expr list \<Rightarrow> string list"
and PrintKeyed :: "nat \<Rightarrow> (expr option \<times> expr) list \<Rightarrow> string list"
and PrintPlain :: "(expr option \<times> expr) list \<Rightarrow> string list"
and PrintStmt :: "stmt \<Rightarrow> nat \<Rightarrow> string"
and PrintStmts :: "stmt list \<Rightarrow> nat \<Rightarrow> string"
and PrintElse :: "stmt list \<Rightarrow> nat \<Rightarrow> string"
and printFuncName :: "func_name \<Rightarrow> string" where
  "PrintExpr (StringE v) = luaQuote v"
| "PrintExpr (NumberE v) = v"
| "PrintExpr TrueE = ''true''"
| "PrintExpr FalseE = ''false''"
| "PrintExpr NilE = ''nil''"
| "PrintExpr (IdentE v) = v"
| "PrintExpr Comma3E = ''...''"
| "PrintExpr (AttrGetE ob None) = PrintExpr ob"
| "PrintExpr (AttrGetE ob (Some k)) =
     PrintExpr ob @ (if keyName k = [] then ''['' @ PrintExpr k @ '']''
                     else if is_ident (keyName k) then ''.'' @ keyName k
                     else ''['' @ luaQuote (keyName k) @ '']'')"
| "PrintExpr (TableE fs) =
     (if fs = [] then ''{}''
      else if list_all (\<lambda>f. fst f = None) fs then ''{'' @ join_with '', '' (PrintPlain fs) @ ''}''
      else ''{'' @ join_with '', '' (PrintKeyed 0 fs) @ ''}'')"
| "PrintExpr (CallE f (Some r) m args) =
     (if m \<noteq> [] then PrintExpr r @ '':'' @ m @ ''('' @ join_with '', '' (PrintArgs args) @ '')''
      else PrintOpt f @ ''('' @ join_with '', '' (PrintArgs args) @ '')'')"
| "PrintExpr (CallE f None m args) = PrintOpt f @ ''('' @ join_with '', '' (PrintArgs args) @ '')''"
| "PrintExpr (FunctionE p b) = ''function('' @ parList p @ '')'' @ nl @ PrintStmts b 1 @ ''end''"
| "PrintExpr (LogicalE op l r) = PrintExpr l @ '' '' @ op @ '' '' @ PrintExpr r"
| "PrintExpr (RelationalE op l r) = PrintExpr l @ '' '' @ op @ '' '' @ PrintExpr r"
| "PrintExpr (ConcatE l r) = PrintExpr l @ '' .. '' @ PrintExpr r"
| "PrintExpr (ArithE op l r) = PrintExpr l @ '' '' @ op @ '' '' @ PrintExpr r"
| "PrintExpr (MinusE e) = '' -'' @ unaryOperand (PrintExpr e)"
| "PrintExpr (NotE e) = ''not '' @ unaryOperand (PrintExpr e)"
| "PrintExpr (LenE e) = ''#'' @ unaryOperand (PrintExpr e)"
| "PrintOpt None = ''nil''"
| "PrintOpt (Some e) = PrintExpr e"
| "PrintArgs [] = []"
| "PrintArgs (e # es) = PrintExpr e # PrintArgs es"
| "PrintKeyed i [] = []"
| "PrintKeyed i ((None, v) # fs) = (''['' @ itoa (int (Suc i)) @ ''] = '' @ PrintExpr v) # PrintKeyed (Suc i) fs"
| "PrintKeyed i ((Some k, v) # fs) =
     ((if keyName k \<noteq> [] then luaKey (keyName k) else ''['' @ PrintExpr k @ '']'') @ '' = '' @ PrintExpr v) # PrintKeyed i fs"
| "PrintPlain [] = []"
| "PrintPlain ((k, v) # fs) = PrintExpr v # PrintPlain fs"
| "PrintStmt (LocalAssign ns es) n =
     padOf n @ ''local '' @ join_with '', '' ns @ (if es = [] then [] else '' = '' @ join_with '', '' (PrintArgs es)) @ nl"
| "PrintStmt (AssignS ls rs) n = padOf n @ join_with '', '' (PrintArgs ls) @ '' = '' @ join_with '', '' (PrintArgs rs) @ nl"
| "PrintStmt (CallS e) n = padOf n @ PrintExpr e @ nl"
| "PrintStmt (DoS b) n = padOf n @ ''do'' @ nl @ PrintStmts b (n + 1) @ padOf n @ ''end'' @ nl"
| "PrintStmt (WhileS c b) n =
     padOf n @ ''while '' @ PrintExpr c @ '' do'' @ nl @ PrintStmts b (n + 1) @ padOf n @ ''end'' @ nl"
| "PrintStmt (RepeatS c b) n =
     padOf n @ ''repeat'' @ nl @ PrintStmts b (n + 1) @ padOf n @ ''until '' @ PrintExpr c @ nl"
| "PrintStmt (IfS c t e) n =
     padOf n @ ''if '' @ PrintExpr c @ '' then'' @ nl @ PrintStmts t (n + 1) @ PrintElse e n @ padOf n @ ''end'' @ nl"
| "PrintStmt (NumForS v i l st b) n =
     padOf n @ ''for '' @ v @ '' = '' @ PrintExpr i @ '', '' @ PrintExpr l
     @ (if st = None then [] else '', '' @ PrintOpt st) @ '' do'' @ nl @ PrintStmts b (n + 1) @ padOf n @ ''end'' @ nl"
| "PrintStmt (GenForS ns es b) n =
     padOf n @ ''for '' @ join_with '', '' ns @ '' in '' @ join_with '', '' (PrintArgs es) @ '' do'' @ nl
     @ PrintStmts b (n + 1) @ padOf n @ ''end'' @ nl"
| "PrintStmt (FuncDefS f p b) n =
     padOf n @ ''function '' @ printFuncName f @ ''('' @ parList p @ '')'' @ nl @ PrintStmts b (n + 1) @ padOf n @ ''end'' @ nl"
| "PrintStmt (ReturnS es) n = padOf n @ ''return '' @ join_with '', '' (PrintArgs es) @ nl"
| "PrintStmt BreakS n = padOf n @ ''break'' @ nl"
| "PrintStmt (LabelS l) n = padOf n @ ''::'' @ l @ ''::'' @ nl"
| "PrintStmt (GotoS l) n = padOf n @ ''goto '' @ l @ nl"
| "PrintStmts [] n = []"
| "PrintStmts (s # ss) n = PrintStmt s n @ PrintStmts ss n"
| "PrintElse [] n = []"
| "PrintElse [IfS c t e] n =
     padOf n @ ''elseif '' @ PrintExpr c @ '' then'' @ nl @ PrintStmts t (n + 1) @ PrintElse e n"
| "PrintElse b n = padOf n @ ''else'' @ nl @ PrintStmts b (n + 1)"
| "printFuncName (FuncName f (Some r) m) = (if m \<noteq> [] then PrintExpr r @ '':'' @ m else PrintOpt f)"
| "printFuncName (FuncName f None m) = PrintOpt f"
  by pat_completeness auto
termination by size_change

definition PrintFunction :: "par_list \<Rightarrow> stmt list \<Rightarrow> string" where
  "PrintFunction p b = ''function('' @ parList p @ '')'' @ nl @ PrintStmts b 1 @ ''end''"

section \<open>What the text does not tell apart\<close>

text \<open>A handler that indexes a table by a variable does not survive the builder: reading or
  initialising a table at a variable prints like reading or initialising the field of that name,
  while the parser reads the text back as the field.\<close>

theorem index_printed_as_field:
  assumes "i \<noteq> []"
  shows "PrintExpr (AttrGetE t (Some (IdentE i))) = PrintExpr (AttrGetE t (Some (StringE i)))
    \<and> PrintExpr (TableE [(Some (IdentE i), v)]) = PrintExpr (TableE [(Some (StringE i), v)])
    \<and> (is_ident i \<longrightarrow> PrintExpr (AttrGetE t (Some (IdentE i))) = PrintExpr t @ ''.'' @ i)"
  using assms by (simp add: keyName_def)

theorem index_printed_as_field_witness:
  "PrintExpr (AttrGetE (IdentE ''rows'') (Some (IdentE ''n''))) = ''rows.n''"
proof -
  have "is_ident ''n''" by code_simp
  then have "PrintExpr (AttrGetE (IdentE ''rows'') (Some (IdentE ''n''))) = PrintExpr (IdentE ''rows'') @ ''.'' @ ''n''"
    using index_printed_as_field [of "''n''" "IdentE ''rows''" NilE] by blast
  then show ?thesis by simp
qed

text \<open>The value of an expression of sums and products, for comparing what two trees mean.\<close>

fun number_value :: "expr \<Rightarrow> int option" where
  "number_value (NumberE v) = parse_int64 v"
| "number_value (ArithE op l r) =
     Option.bind (number_value l) (\<lambda>x. Option.bind (number_value r) (\<lambda>y.
       if op = ''+'' then Some (x + y) else if op = ''*'' then Some (x * y) else None))"
| "number_value e = None"

text \<open>The printer drops the grouping of binary operators: for any two operators and any operands
  the tree grouped to the left and the one grouped to the right print alike, so for instance a
  product of a sum comes back as a sum of a product, with another value.\<close>

theorem printer_drops_grouping:
  "PrintExpr (ArithE m (ArithE p a b) c) = PrintExpr (ArithE p a (ArithE m b c))
   \<and> PrintExpr (LogicalE m (LogicalE p a b) c) = PrintExpr (LogicalE p a (LogicalE m b c))
   \<and> PrintExpr (RelationalE m (ConcatE a b) c) = PrintExpr (ConcatE a (RelationalE m b c))
   \<and> number_value (ArithE ''*'' (ArithE ''+'' (NumberE ''1'') (NumberE ''2'')) (NumberE ''3'')) = Some 9
   \<and> number_value (ArithE ''+'' (NumberE ''1'') (ArithE ''*'' (NumberE ''2'') (NumberE ''3''))) = Some 7"
proof -
  have "parse_int64 ''1'' = Some 1" "parse_int64 ''2'' = Some 2" "parse_int64 ''3'' = Some 3" by code_simp+
  then show ?thesis by simp
qed

section \<open>Quoted strings\<close>

lemma unquote_byte: "unquote (quote_byte c @ t) = map_option (\<lambda>p. (c # fst p, snd p)) (unquote t)"
  by (simp add: quote_byte_def)

lemma unquote_bytes:
  "unquote (concat (map quote_byte s) @ CHR 0x22 # rest) = Some (s, rest)"
  by (induction s) (simp_all add: unquote_byte)

text \<open>String literals are printed faithfully: a reader that undoes the five escapes gets the bytes of
  every string back and continues right behind the closing quote.\<close>

theorem luaQuote_reads_back:
  "PrintExpr (StringE s) = CHR 0x22 # tl (luaQuote s) \<and> unquote (tl (luaQuote s) @ rest) = Some (s, rest)"
  by (simp add: luaQuote_def unquote_bytes)

section \<open>Chains of conditions\<close>

text \<open>A chain \<^verbatim>\<open>if ... elseif ... else ... end\<close> and the nested conditionals the parser makes of it.\<close>

fun chain :: "(expr \<times> stmt list) list \<Rightarrow> stmt list \<Rightarrow> stmt list" where
  "chain [] final = final"
| "chain ((c, b) # cs) final = [IfS c b (chain cs final)]"

definition plain_else :: "stmt list \<Rightarrow> bool" where
  "plain_else b \<longleftrightarrow> (\<forall>c t e. b \<noteq> [IfS c t e])"

lemma PrintElse_plain: "plain_else b \<Longrightarrow> PrintElse b n = (if b = [] then [] else padOf n @ ''else'' @ nl @ PrintStmts b (n + 1))"
  by (cases "(b, n)" rule: PrintElse.cases) (auto simp: plain_else_def)

text \<open>A chain of conditions is printed as one chain: each condition with \<^verbatim>\<open>elseif\<close> at the indentation
  of the first, each body one level deeper, and a single \<^verbatim>\<open>end\<close>.\<close>

theorem chain_printed_flat:
  assumes "plain_else final"
  shows "PrintStmts (chain ((c, b) # cs) final) n =
    padOf n @ ''if '' @ PrintExpr c @ '' then'' @ nl @ PrintStmts b (n + 1)
    @ concat (map (\<lambda>(c, b). padOf n @ ''elseif '' @ PrintExpr c @ '' then'' @ nl @ PrintStmts b (n + 1)) cs)
    @ (if final = [] then [] else padOf n @ ''else'' @ nl @ PrintStmts final (n + 1))
    @ padOf n @ ''end'' @ nl"
proof -
  have "PrintElse (chain cs final) n =
      concat (map (\<lambda>(c, b). padOf n @ ''elseif '' @ PrintExpr c @ '' then'' @ nl @ PrintStmts b (n + 1)) cs)
      @ (if final = [] then [] else padOf n @ ''else'' @ nl @ PrintStmts final (n + 1))"
    by (induction cs) (auto simp: PrintElse_plain assms)
  then show ?thesis by simp
qed

theorem chain_printed_flat_witness:
  "PrintStmts (chain [(TrueE, [BreakS]), (FalseE, [])] [GotoS ''x'']) 0 =
     ''if true then'' @ nl @ ''  break'' @ nl @ ''elseif false then'' @ nl @ ''else'' @ nl @ ''  goto x'' @ nl @ ''end'' @ nl"
  by (subst chain_printed_flat) (simp_all add: plain_else_def padOf_def)

end
