(* ===== verification/Sql_Text.thy ===== *)
theory Sql_Text
  imports Login_Check
begin

text \<open>
  The SQL text that the database-linked controls build: placeholders and identifiers of
  \<^verbatim>\<open>internal/bindings/db.go\<close>, the WHERE, ORDER BY and paging clauses of
  \<^verbatim>\<open>internal/bindings/tabledb.go\<close>. Values travel as parameters next to the text.
\<close>

section \<open>Identifiers, placeholders, statements\<close>

definition placeholders :: "string \<Rightarrow> nat \<Rightarrow> nat \<Rightarrow> string" where
  "placeholders driver n k = join_with '', '' (map (\<lambda>i. Placeholder driver (int (n + i))) [0..<k])"

definition LimitClause :: "string \<Rightarrow> int \<Rightarrow> int \<Rightarrow> string" where
  "LimitClause driver count offset =
     (if driver = ''sqlserver''
      then '' OFFSET '' @ itoa offset @ '' ROWS FETCH NEXT '' @ itoa count @ '' ROWS ONLY''
      else '' LIMIT '' @ itoa count @ '' OFFSET '' @ itoa offset)"

text \<open>\<^verbatim>\<open>strings.Fields\<close>\<close>

fun go_fields :: "string \<Rightarrow> string \<Rightarrow> string list" where
  "go_fields w [] = (if w = [] then [] else [rev w])"
| "go_fields w (c # cs) =
     (if is_space c then (if w = [] then go_fields [] cs else rev w # go_fields [] cs) else go_fields (c # w) cs)"

definition strings_Fields :: "string \<Rightarrow> string list" where
  "strings_Fields = go_fields []"

definition trim_set :: "char set \<Rightarrow> string \<Rightarrow> string" where
  "trim_set cs s = rev (dropWhile (\<lambda>c. c \<in> cs) (rev (dropWhile (\<lambda>c. c \<in> cs) s)))"

definition trim_right_set :: "char set \<Rightarrow> string \<Rightarrow> string" where
  "trim_right_set cs s = rev (dropWhile (\<lambda>c. c \<in> cs) (rev s))"

definition starts_with :: "string \<Rightarrow> string \<Rightarrow> bool" where
  "starts_with p s \<longleftrightarrow> take (length p) s = p"

definition cut_scheme :: "string \<Rightarrow> string \<Rightarrow> string" where
  "cut_scheme p s = drop (length p) s"

definition parseDSN :: "string \<Rightarrow> string \<times> string" where
  "parseDSN dsn =
     (if starts_with ''postgres://'' dsn then (''pgx'', dsn)
      else if starts_with ''postgresql://'' dsn then (''pgx'', dsn)
      else if starts_with ''postgres:'' dsn then (''pgx'', ''postgres://'' @ cut_scheme ''postgres:'' dsn)
      else if starts_with ''sqlserver://'' dsn then (''sqlserver'', dsn)
      else if starts_with ''sqlserver:'' dsn then (''sqlserver'', ''sqlserver://'' @ cut_scheme ''sqlserver:'' dsn)
      else if starts_with ''mysql://'' dsn then (''mysql'', cut_scheme ''mysql://'' dsn)
      else if starts_with ''mysql:'' dsn then (''mysql'', cut_scheme ''mysql:'' dsn)
      else if starts_with ''sqlite://'' dsn then (''sqlite'', cut_scheme ''sqlite://'' dsn)
      else if starts_with ''sqlite:'' dsn then (''sqlite'', cut_scheme ''sqlite:'' dsn)
      else ([], []))"

text \<open>\<^verbatim>\<open>isReadOnlyQuery\<close>: leading line comments are skipped, then the first keyword decides.\<close>

definition skip_line :: "string \<Rightarrow> string option" where
  "skip_line t = (case dropWhile (\<lambda>c. c \<noteq> CHR 0x0A) t of [] \<Rightarrow> None | _ # r \<Rightarrow> Some (trim_space r))"

definition read_keyword :: "string \<Rightarrow> string \<Rightarrow> bool" where
  "read_keyword lower kw \<longleftrightarrow> starts_with kw lower \<and>
     (case drop (length kw) lower of
        [] \<Rightarrow> True
      | c # _ \<Rightarrow> c \<in> {CHR '' '', CHR 0x09, CHR 0x0A, CHR 0x0D, CHR ''(''})"

definition read_statement :: "string \<Rightarrow> bool" where
  "read_statement t =
     (let u = trim_right_set {CHR '' '', CHR 0x09, CHR 0x0D, CHR 0x0A, CHR '';''} t
      in u \<noteq> [] \<and> list_ex (read_keyword (to_lower u)) [''select'', ''with'', ''pragma'', ''explain'', ''show''])"

function read_only_from :: "string \<Rightarrow> bool" where
  "read_only_from t =
     (if starts_with ''--'' t then (case skip_line t of None \<Rightarrow> False | Some r \<Rightarrow> read_only_from r)
      else read_statement t)"
  by pat_completeness auto

lemma skip_line_shorter: "skip_line t = Some r \<Longrightarrow> length r < length t"
proof -
  assume "skip_line t = Some r"
  then obtain c u where u: "dropWhile (\<lambda>c. c \<noteq> CHR 0x0A) t = c # u" and r: "r = trim_space u"
    by (auto simp: skip_line_def split: list.splits)
  have "length (c # u) \<le> length t" unfolding u [symmetric] by (rule length_dropWhile_le)
  then show ?thesis using length_trim_space_le [of u] by (simp add: r)
qed

termination read_only_from
  by (relation "measure length") (auto dest: skip_line_shorter)

declare read_only_from.simps [simp del]

definition isReadOnlyQuery :: "string \<Rightarrow> bool" where
  "isReadOnlyQuery q = read_only_from (trim_space q)"

section \<open>Conditions\<close>

definition luaValueToGo_sql :: "(lua_value \<Rightarrow> string) \<Rightarrow> lua_value \<Rightarrow> go_value" where
  "luaValueToGo_sql sh v =
     (case v of LNil \<Rightarrow> GNil | LBool b \<Rightarrow> GBool b | LNumber n \<Rightarrow> GFloat n | LString s \<Rightarrow> GString s | _ \<Rightarrow> GString (lv_string sh v))"

text \<open>Clauses so far, their parameters and the next placeholder number.\<close>

type_synonym clauses = "string list \<times> go_value list \<times> nat"

definition equals_clause :: "string \<Rightarrow> string \<Rightarrow> string \<Rightarrow> nat \<Rightarrow> string" where
  "equals_clause driver col op n = col @ '' '' @ op @ '' '' @ Placeholder driver (int n)"

fun where_pairs :: "string \<Rightarrow> (string \<Rightarrow> bool) \<Rightarrow> (string \<times> go_value) list \<Rightarrow> clauses \<Rightarrow> clauses" where
  "where_pairs driver keep [] st = st"
| "where_pairs driver keep ((col, v) # kvs) (cs, ps, n) =
     (if keep col \<and> isValidIdentifier col
      then where_pairs driver keep kvs (cs @ [equals_clause driver col ''='' n], ps @ [v], n + 1)
      else where_pairs driver keep kvs (cs, ps, n))"

definition where_text :: "string list \<Rightarrow> string" where
  "where_text cs = (if cs = [] then [] else '' WHERE '' @ join_with '' AND '' cs)"

definition buildWhereClause ::
  "(lua_value \<Rightarrow> string) \<Rightarrow> string \<Rightarrow> lua_state \<Rightarrow> nat \<Rightarrow> nat \<Rightarrow> string \<times> go_value list" where
  "buildWhereClause sh driver L whr n =
     (let (cs, ps, _) = where_pairs driver (\<lambda>_. True)
            (map (\<lambda>(k, v). (lv_string sh k, luaValueToGo_sql sh v)) (for_each L whr)) ([], [], n)
      in (where_text cs, ps))"

record filter_spec =
  fs_Field :: string
  fs_Op :: string
  fs_Value :: string

definition in_items :: "string \<Rightarrow> string list" where
  "in_items v = filter (\<lambda>s. s \<noteq> []) (map trim_space (split_on (CHR '','') v))"

text \<open>The comparison an operator name stands for, and the value it binds.\<close>

definition comparison :: "string \<Rightarrow> string \<Rightarrow> (string \<times> string) option" where
  "comparison op v =
     (if op \<in> {''='', ''equals''} then Some (''='', v)
      else if op \<in> {''!='', ''<>'', ''notequals''} then Some (''<>'', v)
      else if op \<in> {''<'', ''less''} then Some (''<'', v)
      else if op \<in> {''<='', ''lessequal'', ''lte''} then Some (''<='', v)
      else if op \<in> {''>'', ''greater''} then Some (''>'', v)
      else if op \<in> {''>='', ''greaterequal'', ''gte''} then Some (''>='', v)
      else if op \<in> {''like'', ''contains''} then Some (''LIKE'', ''%'' @ v @ ''%'')
      else if op = ''starts'' then Some (''LIKE'', v @ ''%'')
      else if op = ''ends'' then Some (''LIKE'', ''%'' @ v)
      else None)"

definition filter_op :: "filter_spec \<Rightarrow> string" where
  "filter_op f = to_lower (trim_space (fs_Op f))"

definition buildFilterClause :: "string \<Rightarrow> string list \<Rightarrow> filter_spec \<Rightarrow> nat \<Rightarrow> (string \<times> go_value list \<times> nat) option" where
  "buildFilterClause driver wl f n =
     (if fs_Field f \<notin> set wl \<or> \<not> isValidIdentifier (fs_Field f) then None
      else case comparison (filter_op f) (fs_Value f) of
             Some (op, v) \<Rightarrow> Some (equals_clause driver (fs_Field f) op n, [GString v], n + 1)
           | None \<Rightarrow>
               (if filter_op f = ''in'' then
                  (let items = in_items (fs_Value f) in
                   if items = [] then Some (''1 = 0'', [], n)
                   else Some (fs_Field f @ '' IN ('' @ placeholders driver n (length items) @ '')'',
                              map GString items, n + length items))
                else None))"

fun filter_clauses :: "string \<Rightarrow> string list \<Rightarrow> filter_spec list \<Rightarrow> clauses \<Rightarrow> clauses" where
  "filter_clauses driver wl [] st = st"
| "filter_clauses driver wl (f # fs) (cs, ps, n) =
     (case buildFilterClause driver wl f n of
        None \<Rightarrow> filter_clauses driver wl fs (cs, ps, n)
      | Some (c, vs, n') \<Rightarrow> filter_clauses driver wl fs (cs @ [c], ps @ vs, n'))"

section \<open>Order\<close>

definition direction :: "string \<Rightarrow> string" where
  "direction d = (let u = to_upper d in if u \<noteq> ''ASC'' \<and> u \<noteq> ''DESC'' then ''ASC'' else u)"

definition base_order :: "string \<Rightarrow> string option" where
  "base_order part =
     (case strings_Fields (trim_space part) of
        [] \<Rightarrow> None
      | [f] \<Rightarrow> (if isValidIdentifier f then Some f else None)
      | f # d # _ \<Rightarrow> (if isValidIdentifier f then Some (f @ '' '' @ direction d) else None))"

definition base_orders :: "string \<Rightarrow> string list" where
  "base_orders spec = (if spec = [] then [] else List.map_filter base_order (split_on (CHR '','') spec))"

definition sort_orders :: "string list \<Rightarrow> (string \<times> string) list \<Rightarrow> string list" where
  "sort_orders wl ss =
     map (\<lambda>(f, d). f @ '' '' @ direction d) (filter (\<lambda>(f, d). f \<in> set wl \<and> isValidIdentifier f) ss)"

definition order_text :: "string list \<Rightarrow> string" where
  "order_text os = (if os = [] then [] else '' ORDER BY '' @ join_with '', '' os)"

section \<open>What the text can hold\<close>

text \<open>The characters of a statement the bindings assemble, and its placeholder marks.\<close>

definition sql_char :: "char \<Rightarrow> bool" where
  "sql_char c \<longleftrightarrow> ident_char c \<or> c \<in> set '' ,=<>()?$@''"

definition marks :: "string \<Rightarrow> nat" where
  "marks s = length (filter (\<lambda>c. c \<in> set ''?$@'') s)"

lemmas sql_chars = sql_char_def ident_char_def is_lower_def is_upper_def is_digit_def

lemma marks_simps [simp]: "marks [] = 0" "marks (s @ t) = marks s + marks t"
  "marks (c # s) = (if c \<in> set ''?$@'' then Suc (marks s) else marks s)"
  by (simp_all add: marks_def)

lemma sql_char_ident: "list_all ident_char s \<Longrightarrow> list_all sql_char s"
  by (auto simp: list_all_iff sql_char_def)

lemma marks_ident: "list_all ident_char s \<Longrightarrow> marks s = 0"
  by (auto simp: list_all_iff marks_def filter_empty_conv ident_char_def is_lower_def is_upper_def is_digit_def)

lemma ident_digits: "list_all is_digit s \<Longrightarrow> list_all ident_char s"
  by (auto simp: list_all_iff ident_char_def)

lemma ident_valid: "isValidIdentifier s \<Longrightarrow> list_all ident_char s"
  by (simp add: isValidIdentifier_def)

lemma sql_char_simps [simp]: "sql_char CHR '' ''" "sql_char CHR '',''" "sql_char CHR ''=''" "sql_char CHR ''<''"
  "sql_char CHR ''>''" "sql_char CHR ''(''" "sql_char CHR '')''" "sql_char CHR ''?''" "sql_char CHR ''$''"
  "sql_char CHR ''@''"
  by (simp_all add: sql_char_def)

text \<open>A piece of statement text with its number of marks.\<close>

definition plain_sql :: "string \<Rightarrow> nat \<Rightarrow> bool" where
  "plain_sql s k \<longleftrightarrow> list_all sql_char s \<and> marks s = k"

lemma plain_ident [intro]: "list_all ident_char s \<Longrightarrow> plain_sql s 0"
  by (simp add: plain_sql_def sql_char_ident marks_ident)

lemma plain_append [intro]: "plain_sql s k \<Longrightarrow> plain_sql t m \<Longrightarrow> k + m = n \<Longrightarrow> plain_sql (s @ t) n"
  by (simp add: plain_sql_def)

lemma plain_Placeholder [intro, simp]: "plain_sql (Placeholder driver (int n)) (Suc 0)"
  using sql_char_ident [OF ident_digits, of "itoa (int n)"] marks_ident [OF ident_digits, of "itoa (int n)"]
  by (simp add: plain_sql_def Placeholder_def itoa_digits) (simp add: sql_char_def ident_char_def is_lower_def)

lemma plain_join:
  assumes "plain_sql sep 0" "\<forall>s\<in>set ss. list_all sql_char s"
  shows "plain_sql (join_with sep ss) (sum_list (map marks ss))"
  using assms(2)
proof (induction ss)
  case (Cons s ss)
  then show ?case using assms(1) by (cases ss) (auto simp: plain_sql_def)
qed (simp add: plain_sql_def)

lemma plain_space [simp]: "plain_sql ''  '' 0" "plain_sql '' AND '' 0" "plain_sql '', '' 0" "plain_sql '' WHERE '' 0"
  "plain_sql '' ORDER BY '' 0"
  by (simp_all add: plain_sql_def sql_chars)

text \<open>Conditions: every value bound has one mark in the text, and the numbering follows.\<close>

definition clauses_ok :: "clauses \<Rightarrow> bool" where
  "clauses_ok st = (case st of (cs, ps, n) \<Rightarrow>
     (\<forall>c\<in>set cs. list_all sql_char c) \<and> sum_list (map marks cs) = length ps \<and> n = Suc (length ps))"

lemma plain_equals_clause:
  assumes "isValidIdentifier col" "op \<in> set [''='', ''<>'', ''<'', ''<='', ''>'', ''>='', ''LIKE'']"
  shows "plain_sql (equals_clause driver col op n) 1"
proof -
  have "plain_sql (col @ CHR '' '' # op @ CHR '' '' # []) 0"
    using assms(2) ident_valid [OF assms(1)]
    by (auto simp: plain_sql_def sql_char_ident marks_ident)
       (simp_all add: sql_chars)
  then have "plain_sql ((col @ CHR '' '' # op @ CHR '' '' # []) @ Placeholder driver (int n)) 1"
    by (rule plain_append) simp_all
  then show ?thesis by (simp add: equals_clause_def)
qed

lemma comparison_op: "comparison op v = Some (opr, w) \<Longrightarrow> opr \<in> set [''='', ''<>'', ''<'', ''<='', ''>'', ''>='', ''LIKE'']"
  by (auto simp: comparison_def split: if_splits)

lemma plain_placeholders: "plain_sql (placeholders driver n k) k"
proof -
  have "plain_sql (placeholders driver n k)
      (sum_list (map marks (map (\<lambda>i. Placeholder driver (int (n + i))) [0..<k])))"
    unfolding placeholders_def
    by (rule plain_join)
       (use plain_Placeholder in \<open>auto simp: plain_sql_def simp del: plain_Placeholder of_nat_add\<close>)
  moreover have "marks (Placeholder driver (int m)) = 1" for m
    using plain_Placeholder [of driver m] by (simp add: plain_sql_def)
  ultimately show ?thesis by (simp add: sum_list_triv o_def del: of_nat_add)
qed

lemma clauses_ok_where_pairs: "clauses_ok st \<Longrightarrow> clauses_ok (where_pairs driver keep kvs st)"
proof (induction driver keep kvs st rule: where_pairs.induct)
  case (2 driver keep col v kvs cs ps n)
  then show ?case
    using plain_equals_clause [of col "''=''" driver n] by (auto simp: clauses_ok_def plain_sql_def)
qed simp

lemma filter_clause_ok:
  assumes "buildFilterClause driver wl f n = Some (c, vs, n')"
  shows "plain_sql c (length vs)" "n' = n + length vs"
proof -
  have v: "isValidIdentifier (fs_Field f)"
    using assms by (auto simp: buildFilterClause_def split: if_splits)
  have inn: "plain_sql (fs_Field f @ '' IN ('' @ placeholders driver n k @ '')'') k" for k
    using ident_valid [OF v] plain_placeholders [of driver n k]
    by (simp add: plain_sql_def sql_char_ident marks_ident) (simp add: sql_chars)
  have one: "plain_sql ''1 = 0'' 0"
    by (simp add: plain_sql_def sql_chars)
  show "plain_sql c (length vs)" "n' = n + length vs"
    using assms v one inn [of "length (in_items (fs_Value f))"]
      plain_equals_clause [OF v comparison_op, of "filter_op f" "fs_Value f"]
    by (auto simp: buildFilterClause_def Let_def simp del: append_Cons split: if_splits option.splits)
qed

lemma clauses_ok_filters: "clauses_ok st \<Longrightarrow> clauses_ok (filter_clauses driver wl fs st)"
proof (induction driver wl fs st rule: filter_clauses.induct)
  case (2 driver wl f fs cs ps n)
  show ?case
  proof (cases "buildFilterClause driver wl f n")
    case None
    then show ?thesis using 2 by simp
  next
    case (Some r)
    obtain c vs n' where r: "r = (c, vs, n')" by (cases r)
    have "clauses_ok (cs @ [c], ps @ vs, n')"
      using 2(3) filter_clause_ok [of driver wl f n c vs n'] Some r by (auto simp: clauses_ok_def plain_sql_def)
    then show ?thesis using 2(2) Some r by simp
  qed
qed simp

lemma plain_where_text: "clauses_ok (cs, ps, n) \<Longrightarrow> plain_sql (where_text cs) (length ps)"
proof -
  assume ok: "clauses_ok (cs, ps, n)"
  then have "plain_sql (join_with '' AND '' cs) (length ps)"
    using plain_join [of "'' AND ''" cs] by (auto simp: clauses_ok_def)
  then show ?thesis
    using ok plain_append [of "'' WHERE ''" 0] by (auto simp: where_text_def clauses_ok_def plain_sql_def sql_chars)
qed

lemma ident_direction: "direction d = ''ASC'' \<or> direction d = ''DESC''"
  by (simp add: direction_def Let_def)

lemma plain_order: "isValidIdentifier f \<Longrightarrow> plain_sql (f @ '' '' @ direction d) 0"
  using ident_direction [of d] ident_valid [of f]
  by (auto simp: plain_sql_def sql_char_ident marks_ident) (simp_all add: sql_chars)

lemma plain_base_order: "base_order part = Some t \<Longrightarrow> plain_sql t 0"
  using plain_order by (auto simp: base_order_def ident_valid split: list.splits if_splits simp del: append_Cons)

lemma plain_orders:
  "t \<in> set (base_orders spec @ sort_orders wl ss) \<Longrightarrow> plain_sql t 0"
  using plain_base_order plain_order
  by (auto simp: base_orders_def sort_orders_def List.map_filter_def simp del: append_Cons split: if_splits)

lemma plain_order_text:
  assumes "\<And>t. t \<in> set os \<Longrightarrow> plain_sql t 0"
  shows "plain_sql (order_text os) 0"
proof -
  have "plain_sql (join_with '', '' os) (sum_list (map marks os))"
    by (rule plain_join) (use assms in \<open>auto simp: plain_sql_def\<close>)
  moreover have "sum_list (map marks os) = 0"
    using assms by (auto simp: plain_sql_def)
  ultimately show ?thesis using plain_append [of "'' ORDER BY ''" 0] by (auto simp: order_text_def plain_sql_def sql_chars)
qed

end
