(* ===== verification/Table_Paging.thy ===== *)
theory Table_Paging
  imports Sql_Text
begin

text \<open>
  Paged reads of database-linked tables and loopers, \<^verbatim>\<open>internal/bindings/tabledb.go\<close> and
  \<^verbatim>\<open>internal/bindings/looperdb.go\<close>. The database is the parameter \<open>run\<close>: the answer to a
  statement with its parameters. A looper's link extends a table's.
\<close>

section \<open>Links and requests\<close>

record table_link =
  tl_HandleID :: string
  tl_Query :: string
  tl_Columns :: "string list"
  tl_PageSize :: int
  tl_CountQuery :: string
  tl_Where :: "(string \<times> go_value) list"
  tl_OrderBy :: string

record column_link =
  cl_Column :: int
  cl_Field :: string
  cl_Control :: string
  cl_Property :: string

record looper_link = table_link +
  ll_Links :: "column_link list"

record page_req =
  pr_Page :: int
  pr_Size :: int
  pr_Sort :: "(string \<times> string) list"
  pr_Filter :: "filter_spec list"

type_synonym page_row = "(string \<times> go_value) list"

record page_result =
  pg_Columns :: "string list"
  pg_Rows :: "page_row list"
  pg_LastPage :: int

type_synonym database = "string \<Rightarrow> go_value list \<Rightarrow> string + string list \<times> page_row list"

section \<open>Counting and probing\<close>

text \<open>The first number of the first row; a count that arrives as text is no number.\<close>

fun first_number :: "page_row \<Rightarrow> int" where
  "first_number [] = 0"
| "first_number ((c, v) # kvs) =
     (case v of GInt64 n \<Rightarrow> n | GFloat f \<Rightarrow> go_int f | _ \<Rightarrow> first_number kvs)"

definition runCountParams :: "database \<Rightarrow> string \<Rightarrow> go_value list \<Rightarrow> string + int" where
  "runCountParams run stmt ps =
     (case run stmt ps of
        Inl err \<Rightarrow> Inl err
      | Inr (_, rows) \<Rightarrow> Inr (case rows of [] \<Rightarrow> 0 | r # _ \<Rightarrow> first_number r))"

definition runCount :: "database \<Rightarrow> string \<Rightarrow> string + int" where
  "runCount run stmt = runCountParams run stmt []"

definition page_source :: "string \<Rightarrow> string" where
  "page_source query = '' FROM ('' @ query @ '') ENV_PAGE''"

definition factoryColumns :: "database \<Rightarrow> string \<Rightarrow> string + string list" where
  "factoryColumns run query =
     (case (case run (''SELECT *'' @ page_source query @ '' LIMIT 0'') [] of
              Inl _ \<Rightarrow> run (''SELECT *'' @ page_source query @ '' LIMIT 1'') []
            | Inr r \<Rightarrow> Inr r) of
        Inl err \<Rightarrow> Inl err
      | Inr (columns, _) \<Rightarrow> (if columns = [] then Inl ''no columns discovered from query'' else Inr columns))"

section \<open>The page\<close>

definition page_conditions :: "string \<Rightarrow> string list \<Rightarrow> 'a table_link_scheme \<Rightarrow> page_req \<Rightarrow> clauses" where
  "page_conditions driver wl link req =
     filter_clauses driver wl (pr_Filter req) (where_pairs driver (\<lambda>c. c \<in> set wl) (tl_Where link) ([], [], 1))"

definition page_orders :: "string list \<Rightarrow> 'a table_link_scheme \<Rightarrow> page_req \<Rightarrow> string list" where
  "page_orders wl link req = base_orders (tl_OrderBy link) @ sort_orders wl (pr_Sort req)"

text \<open>Page size, page number, number of the last page, and where a page starts; \<open>dflt\<close> is 25 or 50.\<close>

definition page_size :: "int \<Rightarrow> 'a table_link_scheme \<Rightarrow> page_req \<Rightarrow> int" where
  "page_size dflt link req =
     (let s1 = (if pr_Size req \<le> 0 then tl_PageSize link else pr_Size req) in if s1 \<le> 0 then dflt else s1)"

definition page_number :: "page_req \<Rightarrow> int" where
  "page_number req = (if pr_Page req < 1 then 1 else pr_Page req)"

definition last_page :: "int \<Rightarrow> int \<Rightarrow> int" where
  "last_page count sz = (let n = (if 0 < sz then wrap64 (count + sz - 1) div sz else 1) in if n < 1 then 1 else n)"

definition page_offset :: "int \<Rightarrow> int \<Rightarrow> int" where
  "page_offset page sz = wrap64 ((page - 1) * sz)"

definition page_sql :: "string \<Rightarrow> string list \<Rightarrow> int \<Rightarrow> 'a table_link_scheme \<Rightarrow> page_req \<Rightarrow> string" where
  "page_sql driver wl dflt link req =
     (let sz = page_size dflt link req
      in ''SELECT *'' @ page_source (tl_Query link) @ where_text (fst (page_conditions driver wl link req))
         @ order_text (page_orders wl link req) @ LimitClause driver sz (page_offset (page_number req) sz))"

definition count_rows :: "database \<Rightarrow> string \<Rightarrow> string list \<Rightarrow> 'a table_link_scheme \<Rightarrow> page_req \<Rightarrow> string + int" where
  "count_rows run driver wl link req =
     (if tl_CountQuery link \<noteq> [] then runCount run (tl_CountQuery link)
      else (let (cs, ps, _) = page_conditions driver wl link req
            in runCountParams run (''SELECT COUNT(*)'' @ page_source (tl_Query link) @ where_text cs) ps))"

definition fetch_page ::
  "int \<Rightarrow> (string \<Rightarrow> (string \<times> database) option) \<Rightarrow> 'a table_link_scheme \<Rightarrow> page_req \<Rightarrow> string + page_result" where
  "fetch_page dflt handles link req =
     (case handles (tl_HandleID link) of
        None \<Rightarrow> Inl (''database handle not found: '' @ tl_HandleID link)
      | Some (driver, run) \<Rightarrow>
          (case (if tl_Columns link = [] then factoryColumns run (tl_Query link) else Inr (tl_Columns link)) of
             Inl err \<Rightarrow> Inl err
           | Inr wl \<Rightarrow>
               (case count_rows run driver wl link req of
                  Inl err \<Rightarrow> Inl err
                | Inr count \<Rightarrow>
                    (case run (page_sql driver wl dflt link req) (fst (snd (page_conditions driver wl link req))) of
                       Inl err \<Rightarrow> Inl err
                     | Inr (columns, rows) \<Rightarrow>
                         Inr \<lparr>pg_Columns = columns, pg_Rows = rows,
                              pg_LastPage = last_page count (page_size dflt link req)\<rparr>))))"

definition FetchTablePage ::
  "(string \<Rightarrow> (string \<times> database) option) \<Rightarrow> table_link \<Rightarrow> page_req \<Rightarrow> string + page_result" where
  "FetchTablePage = fetch_page 25"

definition FetchLooperRows ::
  "(string \<Rightarrow> (string \<times> database) option) \<Rightarrow> looper_link \<Rightarrow> page_req \<Rightarrow> string + page_result" where
  "FetchLooperRows = fetch_page 50"

section \<open>Links stored on a control\<close>

definition link_text :: "(lua_value \<Rightarrow> string) \<Rightarrow> lua_state \<Rightarrow> nat \<Rightarrow> string \<Rightarrow> string" where
  "link_text sh L a k = (let v = RawGetString L a k in if v = LNil then [] else lv_string sh v)"

definition link_size :: "(string \<Rightarrow> go_float option) \<Rightarrow> lua_state \<Rightarrow> nat \<Rightarrow> string \<Rightarrow> int \<Rightarrow> int" where
  "link_size pf L a k dflt =
     (let v = RawGetString L a k in
      if v = LNil then dflt else let n = go_int (LVAsNumber pf v) in if 0 < n then n else dflt)"

definition link_where :: "(lua_value \<Rightarrow> string) \<Rightarrow> lua_state \<Rightarrow> nat \<Rightarrow> (string \<times> go_value) list" where
  "link_where sh L a =
     (case RawGetString L a ''db_where'' of
        LTable t \<Rightarrow> fold (\<lambda>(k, v) m. AList.update (lv_string sh k) (luaValueToGo_sql sh v) m) (for_each L t) []
      | _ \<Rightarrow> [])"

definition link_columns :: "(lua_value \<Rightarrow> string) \<Rightarrow> lua_state \<Rightarrow> nat \<Rightarrow> string list" where
  "link_columns sh L a =
     (case RawGetString L a ''db_columns'' of
        LTable t \<Rightarrow> filter (\<lambda>s. s \<noteq> []) (map (\<lambda>(k, v). lv_string sh v) (for_each L t))
      | _ \<Rightarrow> [])"

definition isTabulator :: "(lua_value \<Rightarrow> string) \<Rightarrow> lua_state \<Rightarrow> nat \<Rightarrow> bool" where
  "isTabulator sh L a \<longleftrightarrow> lv_string sh (RawGetString L a ''type'') = ''grid'' \<or>
     (let t = RawGetString L a ''tabulator'' in t \<noteq> LNil \<and> lv_string sh t = ''true'')"

definition tableLinkFromControl ::
  "(string \<Rightarrow> go_float option) \<Rightarrow> (lua_value \<Rightarrow> string) \<Rightarrow> lua_state \<Rightarrow> nat \<Rightarrow> table_link option" where
  "tableLinkFromControl pf sh L a =
     (if \<not> isTabulator sh L a \<or> link_text sh L a ''db'' = [] \<or> link_text sh L a ''query'' = [] then None
      else Some \<lparr>tl_HandleID = link_text sh L a ''db'', tl_Query = link_text sh L a ''query'',
        tl_Columns = link_columns sh L a, tl_PageSize = link_size pf L a ''page_size'' 25,
        tl_CountQuery = link_text sh L a ''count_query'', tl_Where = link_where sh L a,
        tl_OrderBy = link_text sh L a ''db_order_by''\<rparr>)"

text \<open>The bindings of a looper: a \<^verbatim>\<open>links\<close> table, or else the controls of its row template.\<close>

record row_def =
  rd_Type :: string
  rd_Name :: string
  rd_Property :: string
  rd_Field :: string
  rd_Column :: int
  rd_Opts :: "nat option"

definition no_row_def :: row_def where
  "no_row_def = \<lparr>rd_Type = [], rd_Name = [], rd_Property = [], rd_Field = [], rd_Column = 0, rd_Opts = None\<rparr>"

definition row_entry ::
  "(string \<Rightarrow> go_float option) \<Rightarrow> (lua_value \<Rightarrow> string) \<Rightarrow> lua_value \<times> lua_value \<Rightarrow> row_def \<Rightarrow> row_def" where
  "row_entry pf sh kv d =
     (let k = lv_string sh (fst kv); v = snd kv in
      if k \<in> {''type'', ''ctrl_type''} then d\<lparr>rd_Type := lv_string sh v\<rparr>
      else if k \<in> {''name'', ''control''} then d\<lparr>rd_Name := lv_string sh v\<rparr>
      else if k \<in> {''property'', ''prop''} then d\<lparr>rd_Property := lv_string sh v\<rparr>
      else if k \<in> {''field'', ''column_name''} then d\<lparr>rd_Field := lv_string sh v\<rparr>
      else if k \<in> {''column'', ''col'', ''column_index''} then d\<lparr>rd_Column := go_int (LVAsNumber pf v)\<rparr>
      else if k \<in> {''opts'', ''options''} then (case v of LTable t \<Rightarrow> d\<lparr>rd_Opts := Some t\<rparr> | _ \<Rightarrow> d)
      else d)"

definition row_def_of ::
  "(string \<Rightarrow> go_float option) \<Rightarrow> (lua_value \<Rightarrow> string) \<Rightarrow> lua_state \<Rightarrow> lua_value \<Rightarrow> row_def option" where
  "row_def_of pf sh L v =
     (case v of
        LTable t \<Rightarrow>
          (let d = fold (row_entry pf sh) (for_each L t) no_row_def
           in if rd_Type d \<noteq> [] \<and> rd_Name d \<noteq> [] then Some d else None)
      | _ \<Rightarrow> None)"

definition ParseLooperRowDefs ::
  "(string \<Rightarrow> go_float option) \<Rightarrow> (lua_value \<Rightarrow> string) \<Rightarrow> lua_state \<Rightarrow> lua_value \<Rightarrow> row_def list" where
  "ParseLooperRowDefs pf sh L v =
     (case v of LTable t \<Rightarrow> List.map_filter (\<lambda>kv. row_def_of pf sh L (snd kv)) (for_each L t) | _ \<Rightarrow> [])"

definition link_entry ::
  "(string \<Rightarrow> go_float option) \<Rightarrow> (lua_value \<Rightarrow> string) \<Rightarrow> lua_value \<times> lua_value \<Rightarrow> column_link \<Rightarrow> column_link" where
  "link_entry pf sh kv l =
     (let k = lv_string sh (fst kv); v = snd kv in
      if k \<in> {''column'', ''col''} then l\<lparr>cl_Column := go_int (LVAsNumber pf v)\<rparr>
      else if k \<in> {''field'', ''name''} then l\<lparr>cl_Field := lv_string sh v\<rparr>
      else if k \<in> {''control'', ''ctrl''} then l\<lparr>cl_Control := lv_string sh v\<rparr>
      else if k \<in> {''property'', ''prop''} then l\<lparr>cl_Property := lv_string sh v\<rparr>
      else l)"

definition link_of ::
  "(string \<Rightarrow> go_float option) \<Rightarrow> (lua_value \<Rightarrow> string) \<Rightarrow> lua_state \<Rightarrow> lua_value \<Rightarrow> column_link option" where
  "link_of pf sh L v =
     (case v of
        LTable t \<Rightarrow>
          (let l = fold (link_entry pf sh) (for_each L t)
                     \<lparr>cl_Column = 0, cl_Field = [], cl_Control = [], cl_Property = ''value''\<rparr>
           in if cl_Control l = [] \<or> (cl_Column l \<le> 0 \<and> cl_Field l = []) then None else Some l)
      | _ \<Rightarrow> None)"

definition stated_links ::
  "(string \<Rightarrow> go_float option) \<Rightarrow> (lua_value \<Rightarrow> string) \<Rightarrow> lua_state \<Rightarrow> nat \<Rightarrow> column_link list" where
  "stated_links pf sh L a =
     (case RawGetString L a ''links'' of
        LTable t \<Rightarrow> List.map_filter (\<lambda>kv. link_of pf sh L (snd kv)) (for_each L t)
      | _ \<Rightarrow> [])"

definition template_links ::
  "(string \<Rightarrow> go_float option) \<Rightarrow> (lua_value \<Rightarrow> string) \<Rightarrow> lua_state \<Rightarrow> nat \<Rightarrow> column_link list" where
  "template_links pf sh L a =
     map (\<lambda>d. \<lparr>cl_Column = rd_Column d, cl_Field = rd_Field d, cl_Control = rd_Name d, cl_Property = rd_Property d\<rparr>)
       (filter (\<lambda>d. rd_Field d \<noteq> [] \<or> 1 \<le> rd_Column d) (ParseLooperRowDefs pf sh L (RawGetString L a ''row'')))"

definition LooperDBLinkFromControl ::
  "(string \<Rightarrow> go_float option) \<Rightarrow> (lua_value \<Rightarrow> string) \<Rightarrow> lua_state \<Rightarrow> nat \<Rightarrow> looper_link option" where
  "LooperDBLinkFromControl pf sh L a =
     (if link_text sh L a ''db'' = [] \<or> link_text sh L a ''query'' = [] then None
      else Some \<lparr>tl_HandleID = link_text sh L a ''db'', tl_Query = link_text sh L a ''query'',
        tl_Columns = [], tl_PageSize = link_size pf L a ''page_size'' 50,
        tl_CountQuery = link_text sh L a ''count_query'', tl_Where = link_where sh L a,
        tl_OrderBy = link_text sh L a ''db_order_by'',
        ll_Links = (if stated_links pf sh L a = [] then template_links pf sh L a else stated_links pf sh L a)\<rparr>)"

section \<open>Properties\<close>

text \<open>What the request and the link put between the base query and the paging clause.\<close>

definition page_filter_text :: "string \<Rightarrow> string list \<Rightarrow> 'a table_link_scheme \<Rightarrow> page_req \<Rightarrow> string" where
  "page_filter_text driver wl link req =
     where_text (fst (page_conditions driver wl link req)) @ order_text (page_orders wl link req)"

lemma page_sql_parts:
  "page_sql driver wl dflt link req = ''SELECT *'' @ page_source (tl_Query link)
     @ page_filter_text driver wl link req
     @ LimitClause driver (page_size dflt link req) (page_offset (page_number req) (page_size dflt link req))"
  by (simp add: page_sql_def page_filter_text_def Let_def)

lemma page_conditions_ok: "clauses_ok (page_conditions driver wl link req)"
  unfolding page_conditions_def
  by (intro clauses_ok_filters clauses_ok_where_pairs) (simp add: clauses_ok_def)

text \<open>C6: Whatever the browser and the control ask for, the text between the author's query and the
  paging clause is made of identifiers, comparison signs and one placeholder mark for each value
  bound: no quote, no semicolon, no comment, no value.\<close>

theorem page_request_cannot_inject:
  "list_all sql_char (page_filter_text driver wl link req)
   \<and> marks (page_filter_text driver wl link req) = length (fst (snd (page_conditions driver wl link req)))"
proof -
  obtain cs ps n where c: "page_conditions driver wl link req = (cs, ps, n)" by (cases "page_conditions driver wl link req")
  have "plain_sql (where_text cs) (length ps)"
    using page_conditions_ok [of driver wl link req] plain_where_text [of cs ps n] c by simp
  moreover have "plain_sql (order_text (page_orders wl link req)) 0"
    by (rule plain_order_text) (simp only: page_orders_def plain_orders)
  ultimately show ?thesis by (simp add: page_filter_text_def c plain_sql_def)
qed

text \<open>What a filter shows of itself in the text.\<close>

definition filter_shape :: "filter_spec \<Rightarrow> string \<times> string \<times> nat" where
  "filter_shape f = (fs_Field f, filter_op f, if filter_op f = ''in'' then length (in_items (fs_Value f)) else 0)"

lemma comparison_shape: "map_option fst (comparison op v) = map_option fst (comparison op w)"
  by (simp add: comparison_def)

lemma same_shape_clause:
  assumes "filter_shape f = filter_shape g"
  shows "map_option (\<lambda>(c, vs, n'). (c, length vs, n')) (buildFilterClause driver wl f n)
           = map_option (\<lambda>(c, vs, n'). (c, length vs, n')) (buildFilterClause driver wl g n)"
proof -
  have eq: "fs_Field f = fs_Field g" "filter_op f = filter_op g"
    "filter_op g = ''in'' \<Longrightarrow> length (in_items (fs_Value f)) = length (in_items (fs_Value g))"
    using assms by (auto simp: filter_shape_def)
  have "comparison (filter_op g) (fs_Value f) = None \<longleftrightarrow> comparison (filter_op g) (fs_Value g) = None"
    using comparison_shape [of "filter_op g" "fs_Value f" "fs_Value g"] by (metis option.map_disc_iff)
  moreover have "in_items (fs_Value f) = [] \<longleftrightarrow> in_items (fs_Value g) = []" if "filter_op g = ''in''"
    using eq(3) [OF that] by (metis length_0_conv)
  ultimately show ?thesis
    using comparison_shape [of "filter_op g" "fs_Value f" "fs_Value g"] eq
    by (auto simp: buildFilterClause_def Let_def split: option.splits)
qed

lemma same_shape_where:
  "map fst kvs = map fst kvs' \<Longrightarrow> length ps = length ps' \<Longrightarrow>
   (case where_pairs driver keep kvs (cs, ps, n) of (c, p, m) \<Rightarrow> (c, length p, m))
     = (case where_pairs driver keep kvs' (cs, ps', n) of (c, p, m) \<Rightarrow> (c, length p, m))"
proof (induction kvs arbitrary: kvs' cs ps ps' n)
  case (Cons kv kvs)
  obtain k v kvs2 v' where "kv = (k, v)" "kvs' = (k, v') # kvs2" "map fst kvs = map fst kvs2"
    using Cons.prems(1) by (cases kv) (auto simp: Cons_eq_map_conv)
  then show ?case using Cons.IH [of kvs2] Cons.prems(2) by simp
qed simp

lemma same_shape_filters:
  "map filter_shape fs = map filter_shape fs' \<Longrightarrow> length ps = length ps' \<Longrightarrow>
   fst (filter_clauses driver wl fs (cs, ps, n)) = fst (filter_clauses driver wl fs' (cs, ps', n))"
proof (induction fs arbitrary: fs' cs ps ps' n)
  case (Cons f fs)
  obtain g gs where g: "fs' = g # gs" "filter_shape f = filter_shape g" "map filter_shape fs = map filter_shape gs"
    using Cons.prems(1) by (auto simp: Cons_eq_map_conv)
  show ?case
    using same_shape_clause [OF g(2), of driver wl n] Cons.IH [OF g(3)] Cons.prems(2)
    by (auto simp: g(1) split: option.splits)
qed simp

text \<open>Two requests with the same fields, operators and item counts get the same text, whatever their
  values: no value travels in the statement.\<close>

theorem page_text_depends_on_shape:
  assumes "map fst (tl_Where link) = map fst (tl_Where link')" "tl_Query link = tl_Query link'"
    and "tl_OrderBy link = tl_OrderBy link'" "tl_PageSize link = tl_PageSize link'"
    and "map filter_shape (pr_Filter req) = map filter_shape (pr_Filter req')" "pr_Sort req = pr_Sort req'"
    and "pr_Page req = pr_Page req'" "pr_Size req = pr_Size req'"
  shows "page_sql driver wl dflt link req = page_sql driver wl dflt link' req'"
proof -
  let ?w = "where_pairs driver (\<lambda>c. c \<in> set wl) (tl_Where link) ([], [], 1)"
  let ?w' = "where_pairs driver (\<lambda>c. c \<in> set wl) (tl_Where link') ([], [], 1)"
  have "(case ?w of (c, p, m) \<Rightarrow> (c, length p, m)) = (case ?w' of (c, p, m) \<Rightarrow> (c, length p, m))"
    by (rule same_shape_where) (simp_all add: assms(1))
  then obtain cs ps ps' n where "?w = (cs, ps, n)" "?w' = (cs, ps', n)" "length ps = length ps'"
    by (cases ?w; cases ?w') auto
  then have "fst (page_conditions driver wl link req) = fst (page_conditions driver wl link' req')"
    using same_shape_filters [OF assms(5), of ps ps' driver wl cs n] by (simp add: page_conditions_def)
  then show ?thesis
    using assms by (simp add: page_sql_def page_orders_def page_size_def page_number_def Let_def)
qed

definition demo_link :: "table_link" where
  "demo_link = \<lparr>tl_HandleID = ''db'', tl_Query = ''SELECT * FROM t'', tl_Columns = [''id'', ''name''], tl_PageSize = 2,
     tl_CountQuery = [], tl_Where = [(''id'', GInt64 1)], tl_OrderBy = ''id desc''\<rparr>"

definition demo_request :: "string \<Rightarrow> page_req" where
  "demo_request v = \<lparr>pr_Page = 1, pr_Size = 0, pr_Sort = [],
     pr_Filter = [\<lparr>fs_Field = ''name'', fs_Op = ''contains'', fs_Value = v\<rparr>]\<rparr>"

theorem page_text_depends_on_shape_witness:
  "page_sql ''pgx'' [''id'', ''name''] 25 demo_link (demo_request (''x'' @ CHR 0x27 # ''; DROP TABLE t; --''))
     = page_sql ''pgx'' [''id'', ''name''] 25 (demo_link\<lparr>tl_Where := [(''id'', GNil)]\<rparr>) (demo_request ''ann'')"
proof -
  have op: "to_lower (trim_space ''contains'') = ''contains''" by code_simp
  show ?thesis
    by (rule page_text_depends_on_shape)
       (simp_all add: demo_link_def demo_request_def filter_shape_def filter_op_def op)
qed

text \<open>Pages in order.\<close>

lemma concat_pages: "concat (map (\<lambda>p. take s (drop (p * s) xs)) [0..<k]) = take (k * s) xs"
proof (induction k)
  case (Suc k)
  then show ?case by (simp add: take_add [of "k * s" s, symmetric] add.commute)
qed simp

lemma last_page_ceiling:
  assumes "0 < sz" "sz \<le> 2 ^ 62" "0 \<le> count" "count \<le> 2 ^ 62"
  shows "1 \<le> last_page count sz" "count \<le> last_page count sz * sz"
    "(last_page count sz - 1) * sz \<le> count"
proof -
  have w: "wrap64 (count + sz - 1) = count + sz - 1"
    using assms by (simp add: in_int64_def min_int64_def max_int64_def)
  define q where "q = (count + sz - 1) div sz"
  define r where "r = (count + sz - 1) mod sz"
  have "q * sz + r = count + sz - 1" unfolding q_def r_def by (rule div_mult_mod_eq)
  moreover have "0 \<le> r" "r < sz" using assms(1) unfolding r_def by simp_all
  ultimately have q: "q * sz \<le> count + sz - 1" "count \<le> q * sz" by linarith+
  have lp: "last_page count sz = (if q < 1 then 1 else q)"
    using assms(1) by (simp add: last_page_def w q_def)
  show "1 \<le> last_page count sz" by (simp add: lp)
  have "0 \<le> q" using assms unfolding q_def by (simp add: pos_imp_zdiv_nonneg_iff)
  show "count \<le> last_page count sz * sz"
    using q(2) assms(1) \<open>0 \<le> q\<close> by (cases "q = 0") (simp_all add: lp)
  show "(last_page count sz - 1) * sz \<le> count"
    using q assms(3) by (cases "q < 1") (simp_all add: lp left_diff_distrib)
qed

lemma page_size_page [simp]: "page_size dflt link (req\<lparr>pr_Page := p\<rparr>) = page_size dflt link req"
  by (simp add: page_size_def)

text \<open>A database that answers the count and slices the rows as LIMIT and OFFSET are documented.\<close>

definition count_sql :: "string \<Rightarrow> string list \<Rightarrow> 'a table_link_scheme \<Rightarrow> page_req \<Rightarrow> string" where
  "count_sql driver wl link req =
     ''SELECT COUNT(*)'' @ page_source (tl_Query link) @ where_text (fst (page_conditions driver wl link req))"

lemma fetch_page_eq:
  assumes "handles (tl_HandleID link) = Some (driver, run)" "tl_Columns link \<noteq> []" "tl_CountQuery link = []"
    and "run (count_sql driver (tl_Columns link) link req) (fst (snd (page_conditions driver (tl_Columns link) link req)))
           = Inr (hdr, [[(c, GInt64 n)]])"
    and "run (page_sql driver (tl_Columns link) dflt link req) (fst (snd (page_conditions driver (tl_Columns link) link req)))
           = Inr (cols, rs)"
  shows "fetch_page dflt handles link req =
           Inr \<lparr>pg_Columns = cols, pg_Rows = rs, pg_LastPage = last_page n (page_size dflt link req)\<rparr>"
proof -
  obtain cs ps m where pc: "page_conditions driver (tl_Columns link) link req = (cs, ps, m)"
    by (cases "page_conditions driver (tl_Columns link) link req")
  have "run (count_sql driver (tl_Columns link) link req) ps = Inr (hdr, [[(c, GInt64 n)]])"
    using assms(4) by (simp add: pc)
  then have "count_rows run driver (tl_Columns link) link req = Inr n"
    by (simp add: count_rows_def assms(3) pc runCountParams_def count_sql_def del: append_Cons)
  then show ?thesis using assms(1,2,5) by (simp add: fetch_page_def)
qed

definition ask_page ::
  "(string \<Rightarrow> (string \<times> database) option) \<Rightarrow> table_link \<Rightarrow> page_req \<Rightarrow> int \<Rightarrow> string + page_result" where
  "ask_page handles link req p = FetchTablePage handles link (req\<lparr>pr_Page := p\<rparr>)"

definition shown_rows :: "string + page_result \<Rightarrow> page_row list" where
  "shown_rows r = (case r of Inr pg \<Rightarrow> pg_Rows pg | Inl _ \<Rightarrow> [])"


definition demo_rows :: "page_row list" where
  "demo_rows = [[(''id'', GInt64 1)], [(''id'', GInt64 2)], [(''id'', GInt64 3)]]"

definition demo_run :: database where
  "demo_run stmt ps =
     (if take 12 stmt = ''SELECT COUNT'' then Inr ([''n''], [[(''n'', GInt64 3)]])
      else Inr ([''id''], take 2 (drop (digit_val (last stmt)) demo_rows)))"

lemma demo_slice:
  "0 \<le> off \<Longrightarrow> off \<le> (3 :: int) \<Longrightarrow>
   demo_run (''SELECT *'' @ page_source q @ t @ LimitClause ''sqlite'' 2 off) ps
     = Inr ([''id''], take 2 (drop (nat off) demo_rows))"
proof -
  assume "0 \<le> off" "off \<le> 3"
  then consider "off = 0" | "off = 1" | "off = 2" | "off = 3" by linarith
  moreover have "last (LimitClause ''sqlite'' 2 off) = last (itoa off)" for off
    by (simp add: LimitClause_def)
  moreover have "last (itoa 0) = CHR ''0''" "last (itoa 1) = CHR ''1''" "last (itoa 2) = CHR ''2''" "last (itoa 3) = CHR ''3''"
    by code_simp+
  moreover have "LimitClause ''sqlite'' 2 off \<noteq> []" for off by (simp add: LimitClause_def)
  ultimately show ?thesis
    by cases (simp_all add: demo_run_def page_source_def digit_val_def)
qed


end
