(* ===== verification/Grid_Write.thy ===== *)
theory Grid_Write
  imports Table_Paging "HOL-Library.List_Lexorder" "HOL-Library.Char_ord"
begin

text \<open>
  The writes of a database-linked grid, \<^verbatim>\<open>internal/bindings/grid.go\<close>: the table a grid's query
  names, its key column, and the INSERT, UPDATE and DELETE statements. A write is the statement
  with its parameters, or the error returned before the database is asked.
\<close>

section \<open>The table and the key\<close>

datatype grid_error = NotSelect | NoFrom | EmptyFrom | NoTable string | NoColumns | NoKeys | UnknownHandle string

definition trim_suffix :: "string \<Rightarrow> string \<Rightarrow> string" where
  "trim_suffix suf s = (if starts_with (rev suf) (rev s) then take (length s - length suf) s else s)"

definition equal_fold :: "string \<Rightarrow> string \<Rightarrow> bool" where
  "equal_fold s t \<longleftrightarrow> to_lower s = to_lower t"

text \<open>The test of the keyword's first byte is that of the code: itself, 32 less or 32 more.\<close>

definition keyword_byte :: "char \<Rightarrow> char \<Rightarrow> bool" where
  "keyword_byte c k \<longleftrightarrow> c = k \<or> c = char_of (((of_char k :: nat) + 224) mod 256) \<or> c = char_of (((of_char k :: nat) + 32) mod 256)"

definition keyword_at :: "string \<Rightarrow> string \<Rightarrow> nat \<Rightarrow> bool" where
  "keyword_at s kw i \<longleftrightarrow> keyword_byte (s ! i) (hd kw) \<and> equal_fold (take (length kw) (drop i s)) kw
     \<and> (i = 0 \<or> \<not> ident_char (s ! (i - 1)))
     \<and> (i + length kw = length s \<or> \<not> ident_char (s ! (i + length kw)))"

definition keywordBounds :: "string \<Rightarrow> string \<Rightarrow> nat option" where
  "keywordBounds s kw = find (keyword_at s kw) [0..<Suc (length s) - length kw]"

definition quote_chars :: "char set" where
  "quote_chars = {CHR 0x22, CHR 0x60, CHR 0x27, CHR ''['', CHR '']'', CHR ''('', CHR '')''}"

definition table_after :: "string \<Rightarrow> grid_error + string" where
  "table_after rest =
     (case keywordBounds rest ''from'' of
        None \<Rightarrow> Inl NoFrom
      | Some i \<Rightarrow>
          (case strings_Fields (trim_space (drop (i + 4) rest)) of
             [] \<Rightarrow> Inl EmptyFrom
           | w # _ \<Rightarrow>
               (let name = trim_set quote_chars w
                in if isValidIdentifier name then Inr name
                   else Inl (NoTable w))))"

definition GridTableFromQuery :: "string \<Rightarrow> grid_error + string" where
  "GridTableFromQuery query =
     (let q = trim_space (trim_suffix '';'' (trim_space query));
          lower = to_lower q
      in if starts_with ''select'' lower then table_after (trim_space (drop 6 q))
         else if starts_with ''with'' lower then table_after (trim_space (drop 4 q))
         else Inl NotSelect)"

text \<open>The fields a grid knows: its database columns, else those of its column definitions.\<close>

definition db_fields :: "(lua_value \<Rightarrow> string) \<Rightarrow> lua_state \<Rightarrow> nat \<Rightarrow> string list" where
  "db_fields sh L a = filter isValidIdentifier (link_columns sh L a)"

definition column_fields :: "(lua_value \<Rightarrow> string) \<Rightarrow> lua_state \<Rightarrow> nat \<Rightarrow> string list" where
  "column_fields sh L a =
     (case RawGetString L a ''columns'' of
        LTable t \<Rightarrow>
          List.map_filter (\<lambda>kv. case snd kv of
              LTable d \<Rightarrow>
                (let f = RawGetString L d ''field''
                 in if f \<noteq> LNil \<and> isValidIdentifier (lv_string sh f) then Some (lv_string sh f) else None)
            | _ \<Rightarrow> None) (for_each L t)
      | _ \<Rightarrow> [])"

definition GridPKFromControl :: "(lua_value \<Rightarrow> string) \<Rightarrow> lua_state \<Rightarrow> nat \<Rightarrow> string" where
  "GridPKFromControl sh L a =
     (let v = RawGetString L a ''pk_field'' in
      if v \<noteq> LNil \<and> lv_string sh v \<noteq> [] \<and> isValidIdentifier (lv_string sh v) then lv_string sh v
      else (let fields = (if db_fields sh L a = [] then column_fields sh L a else db_fields sh L a)
            in case fields of [] \<Rightarrow> ''id'' | f # _ \<Rightarrow> (if ''id'' \<in> set fields then ''id'' else f)))"

section \<open>The statements\<close>

type_synonym write_stmt = "string \<times> go_value list"

definition sortedKeys :: "(string \<times> go_value) list \<Rightarrow> string list" where
  "sortedKeys vals = sort (map fst vals)"

definition value_of :: "(string \<times> go_value) list \<Rightarrow> string \<Rightarrow> go_value" where
  "value_of vals c = (case map_of vals c of Some v \<Rightarrow> v | None \<Rightarrow> GNil)"

definition insert_columns :: "string \<Rightarrow> (string \<times> go_value) list \<Rightarrow> string list" where
  "insert_columns pk vals =
     filter (\<lambda>c. \<not> (c = pk \<and> value_of vals c = GString []) \<and> isValidIdentifier c) (sortedKeys vals)"

definition GridInsert ::
  "(string \<Rightarrow> string option) \<Rightarrow> string \<Rightarrow> string \<Rightarrow> string \<Rightarrow> (string \<times> go_value) list \<Rightarrow> grid_error + write_stmt" where
  "GridInsert driver_of h tbl pk vals =
     (let cs = insert_columns pk vals in
      if cs = [] then Inl NoColumns
      else case driver_of h of
             None \<Rightarrow> Inl (UnknownHandle h)
           | Some driver \<Rightarrow>
               Inr (''INSERT INTO '' @ tbl @ '' ('' @ join_with '', '' cs @ '') VALUES (''
                      @ placeholders driver 1 (length cs) @ '')'', map (value_of vals) cs))"

definition update_columns :: "string \<Rightarrow> (string \<times> go_value) list \<Rightarrow> string list" where
  "update_columns pk vals = filter (\<lambda>c. c \<noteq> pk \<and> isValidIdentifier c) (sortedKeys vals)"

fun set_clauses :: "string \<Rightarrow> nat \<Rightarrow> string list \<Rightarrow> string list" where
  "set_clauses driver n [] = []"
| "set_clauses driver n (c # cs) = equals_clause driver c ''='' n # set_clauses driver (n + 1) cs"

definition GridUpdate ::
  "(string \<Rightarrow> string option) \<Rightarrow> string \<Rightarrow> string \<Rightarrow> string \<Rightarrow> go_value \<Rightarrow> (string \<times> go_value) list \<Rightarrow> grid_error + write_stmt" where
  "GridUpdate driver_of h tbl pk key vals =
     (case driver_of h of
        None \<Rightarrow> Inl (UnknownHandle h)
      | Some driver \<Rightarrow>
          (let cs = update_columns pk vals in
           if cs = [] then Inl NoColumns
           else Inr (''UPDATE '' @ tbl @ '' SET '' @ join_with '', '' (set_clauses driver 1 cs) @ '' WHERE ''
                       @ equals_clause driver pk ''='' (Suc (length cs)), map (value_of vals) cs @ [key])))"

definition GridDeleteMany ::
  "(string \<Rightarrow> string option) \<Rightarrow> string \<Rightarrow> string \<Rightarrow> string \<Rightarrow> go_value list \<Rightarrow> grid_error + write_stmt" where
  "GridDeleteMany driver_of h tbl pk keys =
     (let clean = filter (\<lambda>v. v \<noteq> GNil) keys in
      if clean = [] then Inl NoKeys
      else case driver_of h of
             None \<Rightarrow> Inl (UnknownHandle h)
           | Some driver \<Rightarrow>
               Inr (if length clean = 1 then ''DELETE FROM '' @ tbl @ '' WHERE '' @ equals_clause driver pk ''='' 1
                    else ''DELETE FROM '' @ tbl @ '' WHERE '' @ pk @ '' IN ('' @ placeholders driver 1 (length clean) @ '')'',
                    clean))"

section \<open>Trimming\<close>

definition trim_right :: "(char \<Rightarrow> bool) \<Rightarrow> string \<Rightarrow> string" where
  "trim_right P s = rev (dropWhile P (rev s))"

lemma trim_right_keep: "p \<noteq> [] \<Longrightarrow> \<not> P (last p) \<Longrightarrow> trim_right P (p @ y) = p @ trim_right P y"
proof -
  assume p: "p \<noteq> []" "\<not> P (last p)"
  then have "dropWhile P (rev p) = rev p" by (cases p rule: rev_cases) auto
  then show ?thesis by (simp add: trim_right_def dropWhile_append)
qed

lemma trim_right_Cons: "trim_right P (c # s) = (if trim_right P s = [] \<and> P c then [] else c # trim_right P s)"
  by (auto simp: trim_right_def dropWhile_append)

lemma trim_space_keep:
  assumes "p \<noteq> []" "\<not> is_space (hd p)" "\<not> is_space (last p)"
  shows "trim_space (p @ y) = p @ trim_right is_space y"
proof -
  have "dropWhile is_space (p @ y) = p @ y" using assms(1,2) by (cases p) auto
  then show ?thesis using trim_right_keep [OF assms(1), of is_space y] assms(3) by (simp add: trim_space_def trim_right_def)
qed

lemma trim_suffix_byte:
  "trim_suffix [d] [] = []" "trim_suffix [d] (s @ [c]) = (if c = d then s else s @ [c])"
  by (auto simp: trim_suffix_def starts_with_def)

lemma trim_suffix_other: "s \<noteq> [] \<Longrightarrow> last s \<noteq> d \<Longrightarrow> trim_suffix [d] s = s"
  by (cases s rule: rev_cases) (simp_all add: trim_suffix_byte)

text \<open>What may follow a name: nothing, or something set off by a space.\<close>

definition spaced :: "string \<Rightarrow> bool" where
  "spaced y \<longleftrightarrow> y = [] \<or> hd y = CHR '' ''"

lemma spaced_trim: "spaced y \<Longrightarrow> spaced (trim_right P y)"
  by (cases y) (auto simp: spaced_def trim_right_Cons, simp add: trim_right_def)

lemma ident_not_space: "ident_char c \<Longrightarrow> \<not> is_space c"
  by (auto simp: ident_char_def is_space_def is_lower_def is_upper_def is_digit_def)

lemma go_fields_word:
  "\<forall>c\<in>set t. \<not> is_space c \<Longrightarrow> go_fields w (t @ y) = go_fields (rev t @ w) y"
  by (induction t arbitrary: w) auto

lemma strings_Fields_word:
  "t \<noteq> [] \<Longrightarrow> \<forall>c\<in>set t. \<not> is_space c \<Longrightarrow> spaced y \<Longrightarrow> \<exists>ws. strings_Fields (t @ y) = t # ws"
proof (cases y)
  case Nil
  assume "t \<noteq> []" "\<forall>c\<in>set t. \<not> is_space c"
  then show ?thesis using go_fields_word [of t "[]" "[]"] by (simp add: strings_Fields_def Nil)
next
  case (Cons c y')
  assume *: "t \<noteq> []" "\<forall>c\<in>set t. \<not> is_space c" "spaced y"
  then have "is_space c" by (simp add: Cons spaced_def is_space_def)
  then show ?thesis using * go_fields_word [of t "[]" y] by (simp add: strings_Fields_def Cons)
qed

lemma valid_ends:
  assumes "isValidIdentifier t"
  shows "t \<noteq> []" "ident_char (hd t)" "ident_char (last t)" "\<forall>c\<in>set t. ident_char c"
  using assms by (auto simp: isValidIdentifier_def list_all_iff)

lemma ident_not_quote: "ident_char c \<Longrightarrow> c \<notin> quote_chars"
  by (auto simp: quote_chars_def ident_char_def is_lower_def is_upper_def is_digit_def)

lemma trim_set_ident: "\<forall>c\<in>set t. c \<notin> cs \<Longrightarrow> trim_set cs t = t"
proof -
  assume t: "\<forall>c\<in>set t. c \<notin> cs"
  then have "dropWhile (\<lambda>c. c \<in> cs) t = t" by (cases t) auto
  moreover have "dropWhile (\<lambda>c. c \<in> cs) (rev t) = rev t" using t by (cases t rule: rev_cases) auto
  ultimately show ?thesis by (simp add: trim_set_def)
qed

section \<open>Properties\<close>

lemma table_after_valid: "table_after rest = Inr t \<Longrightarrow> isValidIdentifier t"
  by (auto simp: table_after_def Let_def split: option.splits list.splits if_splits)

lemma GridTableFromQuery_valid: "GridTableFromQuery q = Inr t \<Longrightarrow> isValidIdentifier t"
  by (auto simp: GridTableFromQuery_def Let_def dest: table_after_valid split: if_splits)

lemma GridPKFromControl_valid: "isValidIdentifier (GridPKFromControl sh L a)"
proof -
  let ?fs = "if db_fields sh L a = [] then column_fields sh L a else db_fields sh L a"
  have "isValidIdentifier f" if "f \<in> set (column_fields sh L a)" for f
    using that by (auto simp: column_fields_def List.map_filter_def Let_def split: lua_value.splits if_splits)
  moreover have "isValidIdentifier f" if "f \<in> set (db_fields sh L a)" for f
    using that by (simp add: db_fields_def)
  ultimately have fs: "\<forall>f\<in>set ?fs. isValidIdentifier f" by auto
  have "isValidIdentifier ''id''" by code_simp
  with fs show ?thesis by (auto simp: GridPKFromControl_def Let_def split: list.splits if_splits)
qed

lemma plain_columns:
  assumes "\<forall>c\<in>set cs. isValidIdentifier c"
  shows "plain_sql (join_with '', '' cs) 0"
proof -
  have "plain_sql (join_with '', '' cs) (sum_list (map marks cs))"
    by (rule plain_join) (use assms ident_valid in \<open>auto simp: sql_char_ident\<close>)
  moreover have "map marks cs = map (\<lambda>_. 0) cs"
    using assms ident_valid marks_ident by (auto intro!: map_cong)
  ultimately show ?thesis by simp
qed

lemma plain_set_clauses:
  assumes "\<forall>c\<in>set cs. isValidIdentifier c"
  shows "plain_sql (join_with '', '' (set_clauses driver n cs)) (length cs)"
proof -
  have one: "plain_sql (equals_clause driver c ''='' n) (Suc 0)" if "isValidIdentifier c" for c n
    using plain_equals_clause [OF that] by simp
  have "(\<forall>s\<in>set (set_clauses driver n cs). list_all sql_char s) \<and> sum_list (map marks (set_clauses driver n cs)) = length cs"
    using assms one by (induction cs arbitrary: n) (simp_all add: plain_sql_def)
  then show ?thesis using plain_join [of "'', ''" "set_clauses driver n cs"] by simp
qed

lemma grid_statement_plain:
  assumes tbl: "GridTableFromQuery q = Inr tbl" and pk: "pk = GridPKFromControl sh L a"
    and stmt: "Inr (stmt, ps) \<in> {GridInsert driver_of h tbl pk vals, GridUpdate driver_of h tbl pk key vals,
                                    GridDeleteMany driver_of h tbl pk keys}"
  shows "plain_sql stmt (length ps)"
proof -
  have id: "plain_sql tbl 0" "plain_sql pk 0" "isValidIdentifier pk"
    using GridTableFromQuery_valid [OF tbl] GridPKFromControl_valid [of sh L a] ident_valid by (auto simp: pk)
  note chars = sql_chars plain_sql_def
  have cols: "plain_sql (join_with '', '' (insert_columns pk vals)) 0"
    "plain_sql (join_with '', '' (set_clauses driver n (update_columns pk vals))) (length (update_columns pk vals))"
    for driver n
    by (auto intro!: plain_columns plain_set_clauses simp: insert_columns_def update_columns_def)
  have eq: "plain_sql (equals_clause driver pk ''='' n) (Suc 0)" for driver n
    using plain_equals_clause [OF id(3)] by simp
  consider "GridInsert driver_of h tbl pk vals = Inr (stmt, ps)" | "GridUpdate driver_of h tbl pk key vals = Inr (stmt, ps)"
    | "GridDeleteMany driver_of h tbl pk keys = Inr (stmt, ps)"
    using stmt by auto
  then show ?thesis
  proof cases
    case 1
    then show ?thesis
      using id cols(1) plain_placeholders
      by (auto simp: GridInsert_def Let_def chars split: if_splits option.splits)
  next
    case 2
    then show ?thesis
      using id cols(2) eq by (auto simp: GridUpdate_def Let_def chars split: if_splits option.splits)
  next
    case 3
    then show ?thesis
      using id eq plain_placeholders
      by (auto simp: GridDeleteMany_def Let_def chars split: if_splits option.splits)
  qed
qed

text \<open>C3: Whatever the browser sends as a row, a key or a selection, the statement a grid executes is
  made of the keywords, identifiers and placeholders, one mark for each value, in the table its
  query names and by its key column; and an update never assigns the key.\<close>

theorem grid_writes_bind_values:
  assumes tbl: "GridTableFromQuery q = Inr tbl" and pk: "pk = GridPKFromControl sh L a"
    and stmt: "Inr (stmt, ps) \<in> {GridInsert driver_of h tbl pk vals, GridUpdate driver_of h tbl pk key vals,
                                    GridDeleteMany driver_of h tbl pk keys}"
  shows "list_all sql_char stmt \<and> marks stmt = length ps \<and> pk \<notin> set (update_columns pk vals)"
  using grid_statement_plain [OF assms] by (simp add: plain_sql_def update_columns_def)

theorem grid_writes_bind_values_witness:
  "marks ''UPDATE users SET name = $1 WHERE id = $2'' = length [GString (CHR 0x27 # '' OR 1=1; --''), GInt64 7]"
proof -
  let ?L = "fst (NewTable blank_state)" and ?vals = "[(''name'', GString (CHR 0x27 # '' OR 1=1; --'')), (''id'', GInt64 9)]"
  have tbl: "GridTableFromQuery ''SELECT * FROM users'' = Inr ''users''" by code_simp
  have pk: "''id'' = GridPKFromControl (\<lambda>v. []) ?L 0" by code_simp
  have up: "GridUpdate [''db'' \<mapsto> ''pgx''] ''db'' ''users'' ''id'' (GInt64 7) ?vals
      = Inr (''UPDATE users SET name = $1 WHERE id = $2'', [GString (CHR 0x27 # '' OR 1=1; --''), GInt64 7])"
    by code_simp
  show ?thesis
    using grid_writes_bind_values [OF tbl pk, of "''UPDATE users SET name = $1 WHERE id = $2''"
        "[GString (CHR 0x27 # '' OR 1=1; --''), GInt64 7]" "[''db'' \<mapsto> ''pgx'']" "''db''" ?vals "GInt64 7" "[]"]
    unfolding up by blast
qed

lemma keyword_from_second:
  "keywordBounds (''* FROM '' @ s) ''from'' = Some 2"
proof -
  have upt: "[0..<n] = 0 # 1 # 2 # [3..<n]" if "3 \<le> n" for n :: nat
    using that by (simp add: upt_conv_Cons numeral_2_eq_2 numeral_3_eq_3)
  have "[0..<Suc (length (''* FROM '' @ s)) - length ''from''] = 0 # 1 # 2 # [3..<Suc (length (''* FROM '' @ s)) - length ''from'']"
    by (rule upt) simp
  moreover have "\<not> keyword_at (''* FROM '' @ s) ''from'' 0" "\<not> keyword_at (''* FROM '' @ s) ''from'' 1"
    by (simp_all add: keyword_at_def equal_fold_def to_lower_def lower_char_def is_upper_def)
  moreover have "keyword_byte CHR ''F'' CHR ''f''" "map lower_char ''FROM'' = map lower_char ''from''" "\<not> ident_char CHR '' ''"
    by code_simp+
  then have "keyword_at (''* FROM '' @ s) ''from'' 2"
    by (simp add: keyword_at_def equal_fold_def to_lower_def nth_Cons' del: list.map)
  ultimately show ?thesis by (simp add: keywordBounds_def)
qed

text \<open>The comment says that joins and subqueries have no single write target and are refused. The
  code takes the first name after the first FROM, whatever follows: a join, a union, a WHERE.\<close>

theorem grid_query_takes_first_table:
  assumes t: "isValidIdentifier t"
  shows "GridTableFromQuery (''SELECT * FROM '' @ t @ '' '' @ rest) = Inr t"
proof -
  note v = valid_ends [OF t]
  let ?p = "''SELECT * FROM '' @ t"
  have "\<not> ident_char CHR '';''" by (simp add: ident_char_def is_lower_def is_upper_def is_digit_def)
  then have p: "?p \<noteq> []" "\<not> is_space (hd ?p)" "\<not> is_space (last ?p)" "last ?p \<noteq> CHR '';''"
    using v(1,3) ident_not_space [OF v(3)] by (auto simp: is_space_def)
  obtain y1 where y1: "trim_space (?p @ '' '' @ rest) = ?p @ y1" "spaced y1"
    using trim_space_keep [OF p(1-3), of "'' '' @ rest"] spaced_trim [of "'' '' @ rest" is_space] by (simp add: spaced_def)
  obtain y2 where y2: "trim_suffix '';'' (?p @ y1) = ?p @ y2" "spaced y2"
  proof (cases y1 rule: rev_cases)
    case Nil
    then show thesis using trim_suffix_other [OF p(1,4)] that [of "[]"] by (simp only: append_Nil2) (simp add: spaced_def)
  next
    case (snoc y c)
    have "spaced y" using y1(2) snoc by (cases y) (auto simp: spaced_def)
    moreover have "trim_suffix '';'' (?p @ y1) = (if c = CHR '';'' then ?p @ y else ?p @ y1)"
      using trim_suffix_byte(2) [of "CHR '';''" "?p @ y" c] by (simp only: snoc append_assoc)
    ultimately show thesis using that [of y] that [of y1] y1(2) by metis
  qed
  obtain y3 where y3: "trim_space (?p @ y2) = ?p @ y3" "spaced y3"
    using trim_space_keep [OF p(1-3), of y2] spaced_trim [OF y2(2)] by blast
  let ?r = "''* FROM '' @ t"
  have r: "?r \<noteq> []" "\<not> is_space (hd ?r)" "\<not> is_space (last ?r)" using p v by (auto simp: is_space_def)
  have "trim_space ('' '' @ ?r @ y3) = trim_space (?r @ y3)" by (simp add: trim_space_def is_space_def)
  then obtain y4 where y4: "trim_space ('' '' @ ?r @ y3) = ?r @ y4" "spaced y4"
    using trim_space_keep [OF r, of y3] spaced_trim [OF y3(2)] by auto
  have "trim_space ('' '' @ t @ y4) = trim_space (t @ y4)" by (simp add: trim_space_def is_space_def)
  then obtain y5 where y5: "trim_space ('' '' @ t @ y4) = t @ y5" "spaced y5"
    using trim_space_keep [OF v(1), of y4] ident_not_space v spaced_trim [OF y4(2)] by auto
  obtain ws where ws: "strings_Fields (t @ y5) = t # ws"
    using strings_Fields_word [OF v(1) _ y5(2)] ident_not_space v(4) by blast
  have "table_after (?r @ y4) = Inr t"
    using keyword_from_second [of "t @ y4"] y5(1) ws t trim_set_ident [of t quote_chars] ident_not_quote v(4)
    by (simp add: table_after_def)
  moreover have "map lower_char ''SELECT'' = ''select''" by code_simp
  then have "starts_with ''select'' (to_lower (?p @ y3))" by (simp add: starts_with_def to_lower_def)
  moreover have "drop 6 (?p @ y3) = '' '' @ ?r @ y3" by simp
  ultimately show ?thesis
    using y1(1) y2(1) y3(1) y4(1) by (simp add: GridTableFromQuery_def)
qed

theorem grid_query_takes_first_table_witness:
  "GridTableFromQuery ''SELECT * FROM a JOIN b ON a.id = b.id'' = Inr ''a''"
proof -
  have "isValidIdentifier ''a''" by code_simp
  from grid_query_takes_first_table [OF this, of "''JOIN b ON a.id = b.id''"] show ?thesis by simp
qed

end
