(* ===== verification/Tree_Build.thy ===== *)
theory Tree_Build
  imports Table_Paging Lua_Tree
begin

text \<open>
  The tree control, \<^verbatim>\<open>internal/bindings/tree.go\<close>: its link, the query that loads all rows,
  and the assembly of the rows into nested Lua tables by their parent references. The assembly
  recurses without a bound in the code; here it carries fuel, one unit for each level.
\<close>

section \<open>The link and the rows\<close>

record tree_link =
  tr_HandleID :: string
  tr_Table :: string
  tr_Where :: string
  tr_OrderBy :: string
  tr_IDField :: string
  tr_ParentField :: string
  tr_LabelField :: string
  tr_MaxNodes :: int

definition field_or :: "string \<Rightarrow> string \<Rightarrow> string" where
  "field_or s dflt = (if s = [] then dflt else s)"

definition TreeLinkFromControl ::
  "(string \<Rightarrow> go_float option) \<Rightarrow> (lua_value \<Rightarrow> string) \<Rightarrow> lua_state \<Rightarrow> nat \<Rightarrow> tree_link option" where
  "TreeLinkFromControl pf sh L a =
     (let link = \<lparr>tr_HandleID = link_text sh L a ''db'', tr_Table = link_text sh L a ''table'',
            tr_Where = link_text sh L a ''where'', tr_OrderBy = link_text sh L a ''order_by'',
            tr_IDField = field_or (link_text sh L a ''id_field'') ''id'',
            tr_ParentField = field_or (link_text sh L a ''parent_field'') ''parent_id'',
            tr_LabelField = link_text sh L a ''label_field'', tr_MaxNodes = link_size pf L a ''max_nodes'' 5000\<rparr>
      in if tr_HandleID link = [] \<or> tr_Table link = [] \<or> tr_LabelField link = [] then None
         else if list_all isValidIdentifier [tr_Table link, tr_IDField link, tr_ParentField link, tr_LabelField link]
         then Some link else None)"

definition tree_sql :: "tree_link \<Rightarrow> string" where
  "tree_sql link = ''SELECT * FROM '' @ tr_Table link
     @ (if tr_Where link = [] then [] else '' WHERE '' @ tr_Where link)
     @ (if tr_OrderBy link = [] then [] else '' ORDER BY '' @ tr_OrderBy link)"

datatype tree_error = NoHandle string | QueryFailed string | TooManyRows nat int

definition FetchTreeRows ::
  "(string \<Rightarrow> (string \<times> database) option) \<Rightarrow> tree_link \<Rightarrow> tree_error + string list \<times> page_row list" where
  "FetchTreeRows handles link =
     (case handles (tr_HandleID link) of
        None \<Rightarrow> Inl (NoHandle (tr_HandleID link))
      | Some (_, run) \<Rightarrow>
          (case run (tree_sql link) [] of
             Inl err \<Rightarrow> Inl (QueryFailed err)
           | Inr (columns, rows) \<Rightarrow>
               (if tr_MaxNodes link < int (length rows) then Inl (TooManyRows (length rows) (tr_MaxNodes link))
                else Inr (columns, rows))))"

section \<open>Keys and values\<close>

text \<open>\<open>sv\<close> is Go's \<^verbatim>\<open>%v\<close> for the values not spelled out here.\<close>

definition value_text :: "(go_value \<Rightarrow> string) \<Rightarrow> go_value \<Rightarrow> string" where
  "value_text sv v =
     (case v of GString s \<Rightarrow> s | GInt n \<Rightarrow> itoa n | GInt64 n \<Rightarrow> itoa n
      | GBool b \<Rightarrow> (if b then ''true'' else ''false'') | _ \<Rightarrow> sv v)"

definition idKey :: "(go_value \<Rightarrow> string) \<Rightarrow> go_value \<Rightarrow> string" where
  "idKey sv v = (if v = GNil then [] else value_text sv v)"

definition luaValueFromGo :: "(go_value \<Rightarrow> string) \<Rightarrow> go_value \<Rightarrow> lua_value" where
  "luaValueFromGo sv v =
     (case v of GNil \<Rightarrow> LNil | GString s \<Rightarrow> LString s | GBool b \<Rightarrow> LBool b | GFloat f \<Rightarrow> LNumber f
      | GInt n \<Rightarrow> LNumber (float_of_int n) | GInt64 n \<Rightarrow> LNumber (float_of_int n) | _ \<Rightarrow> LString (sv v))"

definition row_field :: "page_row \<Rightarrow> string \<Rightarrow> go_value" where
  "row_field row f = (case map_of row f of Some v \<Rightarrow> v | None \<Rightarrow> GNil)"

definition id_of :: "(go_value \<Rightarrow> string) \<Rightarrow> tree_link \<Rightarrow> page_row \<Rightarrow> string" where
  "id_of sv link row = idKey sv (row_field row (tr_IDField link))"

definition parent_of :: "(go_value \<Rightarrow> string) \<Rightarrow> tree_link \<Rightarrow> page_row \<Rightarrow> string" where
  "parent_of sv link row = idKey sv (row_field row (tr_ParentField link))"

section \<open>Assembly\<close>

text \<open>The indices of the rows below a key, and those of the roots, in row order.\<close>

definition tree_children :: "(go_value \<Rightarrow> string) \<Rightarrow> tree_link \<Rightarrow> page_row list \<Rightarrow> string \<Rightarrow> nat list" where
  "tree_children sv link rows k =
     filter (\<lambda>i. parent_of sv link (rows ! i) \<noteq> [] \<and> parent_of sv link (rows ! i) = k) [0..<length rows]"

definition tree_roots :: "(go_value \<Rightarrow> string) \<Rightarrow> tree_link \<Rightarrow> page_row list \<Rightarrow> nat list" where
  "tree_roots sv link rows =
     filter (\<lambda>i. parent_of sv link (rows ! i) = []
               \<or> parent_of sv link (rows ! i) \<notin> id_of sv link ` set rows) [0..<length rows]"

definition node_fields :: "(go_value \<Rightarrow> string) \<Rightarrow> tree_link \<Rightarrow> page_row \<Rightarrow> nat \<Rightarrow> lua_state \<Rightarrow> lua_state" where
  "node_fields sv link row node L =
     RawSetString node ''label'' (luaValueFromGo sv (row_field row (tr_LabelField link)))
       (RawSetString node ''parent_id'' (luaValueFromGo sv (row_field row (tr_ParentField link)))
         (RawSetString node ''id'' (luaValueFromGo sv (row_field row (tr_IDField link)))
           (fold (\<lambda>(k, v). RawSetString node k (luaValueFromGo sv v)) row L)))"

fun fill_table ::
  "(nat \<Rightarrow> lua_state \<Rightarrow> (lua_state \<times> nat) option) \<Rightarrow> nat list \<Rightarrow> nat \<Rightarrow> nat \<Rightarrow> lua_state \<Rightarrow> lua_state option" where
  "fill_table mk [] j t L = Some L"
| "fill_table mk (i # is) j t L =
     (case mk i L of None \<Rightarrow> None | Some (L1, a) \<Rightarrow> fill_table mk is (j + 1) t (RawSetInt t j (LTable a) L1))"

fun build_node ::
  "(go_value \<Rightarrow> string) \<Rightarrow> tree_link \<Rightarrow> page_row list \<Rightarrow> nat \<Rightarrow> nat \<Rightarrow> lua_state \<Rightarrow> (lua_state \<times> nat) option" where
  "build_node sv link rows 0 i L = None"
| "build_node sv link rows (Suc k) i L =
     (let (L1, node) = NewTable L;
          L2 = node_fields sv link (rows ! i) node L1;
          kids = tree_children sv link rows (id_of sv link (rows ! i))
      in if kids = [] then Some (L2, node)
         else (let (L3, kt) = NewTable L2 in
               case fill_table (build_node sv link rows k) kids 1 kt L3 of
                 None \<Rightarrow> None
               | Some L4 \<Rightarrow> Some (RawSetString node ''_children'' (LTable kt) L4, node)))"

definition BuildTree ::
  "(go_value \<Rightarrow> string) \<Rightarrow> tree_link \<Rightarrow> page_row list \<Rightarrow> nat \<Rightarrow> lua_state \<Rightarrow> (lua_state \<times> nat \<times> nat) option" where
  "BuildTree sv link rows k L =
     (let (L1, t) = NewTable L in
      case fill_table (build_node sv link rows k) (tree_roots sv link rows) 1 t L1 of
        None \<Rightarrow> None
      | Some L2 \<Rightarrow> Some (L2, t, length rows))"

section \<open>The forest of the rows\<close>

text \<open>What the nested tables should hold: the index of a row and the trees of its children.\<close>

datatype ttree = TNode nat "ttree list"

fun collect_opt :: "('a \<Rightarrow> 'b option) \<Rightarrow> 'a list \<Rightarrow> 'b list option" where
  "collect_opt f [] = Some []"
| "collect_opt f (x # xs) =
     (case f x of None \<Rightarrow> None | Some y \<Rightarrow> (case collect_opt f xs of None \<Rightarrow> None | Some ys \<Rightarrow> Some (y # ys)))"

fun grow :: "(nat \<Rightarrow> nat list) \<Rightarrow> nat \<Rightarrow> nat \<Rightarrow> ttree option" where
  "grow kids 0 i = None"
| "grow kids (Suc k) i = (case collect_opt (grow kids k) (kids i) of None \<Rightarrow> None | Some ts \<Rightarrow> Some (TNode i ts))"

fun rows_in :: "ttree \<Rightarrow> nat list" where
  "rows_in (TNode i ts) = i # concat (map rows_in ts)"

section \<open>Who is below whom\<close>

definition below :: "(nat \<Rightarrow> nat list) \<Rightarrow> (nat \<times> nat) set" where
  "below kids = {(i, j). j \<in> set (kids i)}"

lemma collect_opt_Some: "collect_opt f xs = Some ys \<Longrightarrow> list_all2 (\<lambda>x y. f x = Some y) xs ys"
  by (induction xs arbitrary: ys) (auto split: option.splits)

lemma collect_opt_None: "collect_opt f xs = None \<longleftrightarrow> (\<exists>x\<in>set xs. f x = None)"
  by (induction xs) (auto split: option.splits)

lemma grow_cycle: "(i, i) \<in> (below kids)\<^sup>+ \<Longrightarrow> grow kids k i = None"
proof (induction k arbitrary: i)
  case (Suc k)
  obtain j where j: "(i, j) \<in> below kids" "(j, i) \<in> (below kids)\<^sup>*"
    using Suc.prems by (auto dest: tranclD)
  then have "(j, j) \<in> (below kids)\<^sup>+" by (metis rtrancl_into_trancl1)
  with Suc.IH j(1) show ?case by (auto simp: below_def collect_opt_None split: option.split)
qed simp

text \<open>Without enough fuel there is a path as long as the fuel.\<close>

lemma grow_None_path:
  "grow kids k i = None \<Longrightarrow> \<exists>p. p 0 = i \<and> (\<forall>m<k. (p m, p (Suc m)) \<in> below kids)"
proof (induction k arbitrary: i)
  case (Suc k)
  then obtain j where "j \<in> set (kids i)" "grow kids k j = None"
    by (auto simp: collect_opt_None split: option.splits)
  with Suc.IH [of j] obtain p where p: "p 0 = j" "\<forall>m<k. (p m, p (Suc m)) \<in> below kids" "(i, j) \<in> below kids"
    by (auto simp: below_def)
  define q where "q m = (case m of 0 \<Rightarrow> i | Suc m' \<Rightarrow> p m')" for m
  have "q 0 = i \<and> (\<forall>m<Suc k. (q m, q (Suc m)) \<in> below kids)"
    using p by (auto simp: q_def less_Suc_eq_0_disj split: nat.split)
  then show ?case by blast
qed auto

lemma rows_in_grow:
  "grow kids k i = Some t \<Longrightarrow> set (rows_in t) = {j. (i, j) \<in> (below kids)\<^sup>*}"
proof (induction k arbitrary: i t)
  case (Suc k)
  obtain ts where t: "t = TNode i ts" and ts: "list_all2 (\<lambda>x y. grow kids k x = Some y) (kids i) ts"
    using Suc.prems by (auto dest: collect_opt_Some split: option.splits)
  have "set (concat (map rows_in ts)) = (\<Union>x\<in>set (kids i). {j. (x, j) \<in> (below kids)\<^sup>*})"
    using ts
  proof (induction rule: list_all2_induct)
    case (Cons x xs y ys)
    then show ?case using Suc.IH [of x y] by simp
  qed simp
  moreover have "{j. (i, j) \<in> (below kids)\<^sup>*} = insert i (\<Union>x\<in>set (kids i). {j. (x, j) \<in> (below kids)\<^sup>*})"
    by (auto simp: below_def elim: converse_rtranclE intro: converse_rtrancl_into_rtrancl)
  ultimately show ?case by (simp add: t)
qed simp

lemma distinct_concat_list_all2:
  assumes "list_all2 P xs ts" "distinct xs"
    and "\<And>x t. x \<in> set xs \<Longrightarrow> P x t \<Longrightarrow> distinct (f t) \<and> set (f t) = S x"
    and "\<And>x y. x \<in> set xs \<Longrightarrow> y \<in> set xs \<Longrightarrow> x \<noteq> y \<Longrightarrow> S x \<inter> S y = {}"
  shows "distinct (concat (map f ts)) \<and> set (concat (map f ts)) = (\<Union>x\<in>set xs. S x)"
  using assms
proof (induction rule: list_all2_induct)
  case (Cons x xs t ts)
  have ih: "distinct (concat (map f ts)) \<and> set (concat (map f ts)) = (\<Union>x\<in>set xs. S x)"
    by (rule Cons.IH) (use Cons.prems in auto)
  moreover have "S x \<inter> S y = {}" if "y \<in> set xs" for y
    by (rule Cons.prems(3)) (use Cons.prems(1) that in auto)
  moreover have "distinct (f t) \<and> set (f t) = S x"
    by (rule Cons.prems(2)) (use Cons.hyps(1) in auto)
  ultimately show ?case by auto
qed simp

lemma distinct_rows_in:
  assumes kids: "\<And>i. distinct (kids i)" and one: "single_valued ((below kids)\<inverse>)"
  shows "grow kids k i = Some t \<Longrightarrow> distinct (rows_in t)"
proof (induction k arbitrary: i t)
  case (Suc k)
  obtain ts where t: "t = TNode i ts" and ts: "list_all2 (\<lambda>x y. grow kids k x = Some y) (kids i) ts"
    using Suc.prems by (auto dest: collect_opt_Some split: option.splits)
  have free: "(i, i) \<notin> (below kids)\<^sup>+" using Suc.prems grow_cycle [of i kids "Suc k"] by auto
  let ?S = "\<lambda>x. {j. (x, j) \<in> (below kids)\<^sup>*}"
  have up: "(x, i) \<in> (below kids)\<^sup>*" if xy: "(x, y) \<in> (below kids)\<^sup>*" "x \<noteq> y" "y \<in> set (kids i)" for x y
  proof -
    obtain z where "(x, z) \<in> (below kids)\<^sup>*" "(z, y) \<in> below kids"
      using xy(1,2) by (auto elim: rtranclE)
    moreover have "z = i" using one \<open>(z, y) \<in> below kids\<close> xy(3) by (auto simp: single_valued_def below_def)
    ultimately show ?thesis by simp
  qed
  have apart: "?S x \<inter> ?S y = {}" if "x \<in> set (kids i)" "y \<in> set (kids i)" "x \<noteq> y" for x y
  proof (rule ccontr)
    assume "?S x \<inter> ?S y \<noteq> {}"
    then obtain j where "(j, x) \<in> ((below kids)\<inverse>)\<^sup>*" "(j, y) \<in> ((below kids)\<inverse>)\<^sup>*"
      by (auto simp: rtrancl_converse)
    then have "(x, y) \<in> (below kids)\<^sup>* \<or> (y, x) \<in> (below kids)\<^sup>*"
      using single_valued_confluent [OF one] by (auto simp: rtrancl_converse)
    then have "(x, i) \<in> (below kids)\<^sup>* \<or> (y, i) \<in> (below kids)\<^sup>*" using up that by metis
    moreover have "(i, x) \<in> below kids" "(i, y) \<in> below kids" using that by (simp_all add: below_def)
    ultimately show False using free by (metis rtrancl_into_trancl2)
  qed
  have "distinct (concat (map rows_in ts)) \<and> set (concat (map rows_in ts)) = (\<Union>x\<in>set (kids i). ?S x)"
    by (rule distinct_concat_list_all2 [OF ts kids]) (use Suc.IH rows_in_grow apart in auto)
  moreover have "i \<notin> (\<Union>x\<in>set (kids i). ?S x)"
    using free by (auto simp: below_def) (metis (mono_tags, lifting) below_def case_prodI mem_Collect_eq rtrancl_into_trancl2)
  ultimately show ?case by (simp add: t)
qed simp

section \<open>What the tables hold\<close>

definition node_value :: "(go_value \<Rightarrow> string) \<Rightarrow> tree_link \<Rightarrow> page_row \<Rightarrow> string \<Rightarrow> lua_value" where
  "node_value sv link row k =
     luaValueFromGo sv (row_field row (if k = ''label'' then tr_LabelField link
       else if k = ''parent_id'' then tr_ParentField link else if k = ''id'' then tr_IDField link else k))"

lemma fold_row_fields:
  "distinct (map fst row) \<Longrightarrow>
   RawGetString (fold (\<lambda>(k, v). RawSetString a k (luaValueFromGo sv v)) row L) a f
     = (case map_of row f of Some v \<Rightarrow> luaValueFromGo sv v | None \<Rightarrow> RawGetString L a f)"
proof (induction row arbitrary: L)
  case (Cons kv row)
  obtain k v where kv: "kv = (k, v)" by (cases kv)
  have "k \<notin> fst ` set row" using Cons.prems by (simp add: kv)
  then have "map_of row k = None" by (simp add: map_of_eq_None_iff)
  then show ?case using Cons by (simp add: kv split: option.split)
qed simp

lemma node_fields_value:
  assumes "alist_wf row" "table_at L a = empty_table"
  shows "RawGetString (node_fields sv link row a L) a k = node_value sv link row k"
proof -
  have "RawGetString L a f = LNil" for f using assms(2) by (simp add: RawGetString_def empty_table_def)
  moreover have nil: "luaValueFromGo sv GNil = LNil" by (simp add: luaValueFromGo_def)
  ultimately have "RawGetString (fold (\<lambda>(k, v). RawSetString a k (luaValueFromGo sv v)) row L) a f
      = luaValueFromGo sv (row_field row f)" for f
    using assms(1) by (simp add: fold_row_fields alist_wf_def row_field_def nil split: option.split)
  then show ?thesis by (simp add: node_fields_def node_value_def RawGet_RawSet)
qed

lemma fold_fields_grown:
  "heap_ok L \<Longrightarrow> a < next_addr L \<Longrightarrow>
   grown_but a L (fold (\<lambda>(k, v). RawSetString a k (luaValueFromGo sv v)) row L)"
proof (induction row arbitrary: L)
  case Nil
  then show ?case by (simp add: grown_but_refl)
next
  case (Cons kv row)
  let ?L1 = "RawSetString a (fst kv) (luaValueFromGo sv (snd kv)) L"
  have "grown_but a L ?L1" using Cons.prems by (rule grown_but_RawSet)
  moreover have "grown_but a ?L1 (fold (\<lambda>(k, v). RawSetString a k (luaValueFromGo sv v)) row ?L1)"
    using Cons.prems by (intro Cons.IH) (simp_all add: heap_ok_RawSet)
  ultimately show ?case by (simp add: case_prod_unfold) (rule grown_but_trans)
qed

lemma grown_but_step:
  "grown_but a L L1 \<Longrightarrow> a < next_addr L \<Longrightarrow> grown_but a L (RawSetString a k v L1)"
  by (rule grown_but_trans, assumption, rule grown_but_RawSet) (simp_all add: grown_but_def)

lemma node_fields_grown:
  "heap_ok L \<Longrightarrow> a < next_addr L \<Longrightarrow> grown_but a L (node_fields sv link row a L)"
  unfolding node_fields_def by (intro grown_but_step fold_fields_grown)

text \<open>\<open>holds sv link rows L lo a t\<close>: the table at \<open>a\<close> has the fields of the row of \<open>t\<close> and, under
  \<^verbatim>\<open>_children\<close>, an array of tables that hold its subtrees; all addresses are from \<open>lo\<close> on.\<close>

inductive holds ::
  "(go_value \<Rightarrow> string) \<Rightarrow> tree_link \<Rightarrow> page_row list \<Rightarrow> lua_state \<Rightarrow> nat \<Rightarrow> nat \<Rightarrow> ttree \<Rightarrow> bool"
  for sv link rows L lo where
  holds_leaf: "lo \<le> a \<Longrightarrow> a < next_addr L \<Longrightarrow>
    \<forall>k. RawGetString L a k = node_value sv link (rows ! i) k \<Longrightarrow> holds sv link rows L lo a (TNode i [])"
| holds_inner: "lo \<le> a \<Longrightarrow> a < next_addr L \<Longrightarrow>
    \<forall>k. k \<noteq> ''_children'' \<longrightarrow> RawGetString L a k = node_value sv link (rows ! i) k \<Longrightarrow>
    RawGetString L a ''_children'' = LTable c \<Longrightarrow> lo \<le> c \<Longrightarrow> c < next_addr L \<Longrightarrow>
    table_at L c = \<lparr>arr = map LTable as, strs = [], others = []\<rparr> \<Longrightarrow> ts \<noteq> [] \<Longrightarrow>
    list_all2 (holds sv link rows L lo) as ts \<Longrightarrow> holds sv link rows L lo a (TNode i ts)"

lemma holds_frame:
  assumes "holds sv link rows L lo a t" "next_addr L \<le> next_addr L'" "lo' \<le> lo"
    and same: "\<And>b. lo \<le> b \<Longrightarrow> b < next_addr L \<Longrightarrow> table_at L' b = table_at L b"
  shows "holds sv link rows L' lo' a t"
  using assms(1)
proof (induction rule: holds.induct)
  case (holds_leaf a i)
  then show ?case
    using assms(2,3) same [of a] by (intro holds.holds_leaf) (auto simp: RawGetString_def)
next
  case (holds_inner a i c as ts)
  have "list_all2 (holds sv link rows L' lo') as ts"
    using holds_inner.IH by (rule list_all2_mono) simp
  with holds_inner.hyps show ?case
    using assms(2,3) same [of a] same [of c]
    by (intro holds.holds_inner [of lo' a L' sv link rows i c as ts]) (auto simp: RawGetString_def)
qed

lemma holds_grown_but:
  "list_all2 (holds sv link rows L lo) as ts \<Longrightarrow> grown_but c L L' \<Longrightarrow> c < lo \<Longrightarrow> list_all2 (holds sv link rows L' lo) as ts"
  by (erule list_all2_mono, erule holds_frame) (auto simp: grown_but_def)

text \<open>Building is growing: it returns exactly when the forest is finite, allocates only, and its
  tables hold the forest.\<close>

definition builds ::
  "(go_value \<Rightarrow> string) \<Rightarrow> tree_link \<Rightarrow> page_row list \<Rightarrow> (nat \<Rightarrow> lua_state \<Rightarrow> (lua_state \<times> nat) option) \<Rightarrow>
   nat \<Rightarrow> ttree \<Rightarrow> bool" where
  "builds sv link rows mk i t \<longleftrightarrow> (\<forall>L. heap_ok L \<longrightarrow>
     (\<exists>L' a. mk i L = Some (L', a) \<and> grown L L' \<and> holds sv link rows L' (next_addr L) a t))"

lemma fill_table_holds:
  "list_all2 (builds sv link rows mk) is ts \<Longrightarrow> heap_ok L \<Longrightarrow> c < lo \<Longrightarrow> lo \<le> next_addr L \<Longrightarrow>
   table_at L c = \<lparr>arr = map LTable as0, strs = [], others = []\<rparr> \<Longrightarrow> list_all2 (holds sv link rows L lo) as0 ts0 \<Longrightarrow>
   \<exists>L' as. fill_table mk is (Suc (length as0)) c L = Some L' \<and> grown_but c L L'
     \<and> table_at L' c = \<lparr>arr = map LTable as, strs = [], others = []\<rparr>
     \<and> list_all2 (holds sv link rows L' lo) as (ts0 @ ts)"
proof (induction "is" ts arbitrary: L as0 ts0 rule: list_all2_induct)
  case Nil
  then show ?case by (auto intro: grown_but_refl)
next
  case (Cons i "is" t ts)
  obtain L1 a where mk: "mk i L = Some (L1, a)" and g: "grown L L1" and h: "holds sv link rows L1 (next_addr L) a t"
    using Cons.hyps(1) Cons.prems(1) by (auto simp: builds_def)
  let ?L2 = "RawSetInt c (Suc (length as0)) (LTable a) L1"
  have h1: "heap_ok L1" "c < next_addr L1" "lo \<le> next_addr L1" using g Cons.prems(2,3) by (auto simp: grown_def)
  have g2: "grown_but c L1 ?L2" using h1(1,2) by (rule grown_but_RawSet)
  have t1: "table_at L1 c = \<lparr>arr = map LTable as0, strs = [], others = []\<rparr>"
    using g Cons.prems(2-4) by (simp add: grown_def)
  have "holds sv link rows L1 lo a t" by (rule holds_frame [OF h]) (use Cons.prems(3) in auto)
  then have "list_all2 (holds sv link rows L1 lo) (as0 @ [a]) (ts0 @ [t])"
    using holds_grown_but [OF Cons.prems(5) grown_imp_but [OF g] Cons.prems(2)] by (simp add: list_all2_appendI)
  then have h2: "list_all2 (holds sv link rows ?L2 lo) (as0 @ [a]) (ts0 @ [t])"
    using g2 Cons.prems(2) by (rule holds_grown_but)
  have t2: "table_at ?L2 c = \<lparr>arr = map LTable (as0 @ [a]), strs = [], others = []\<rparr>"
    using RawSetInt_append [OF t1, of "LTable a"] by simp
  have "heap_ok ?L2" "lo \<le> next_addr ?L2" using h1 by (simp_all add: heap_ok_RawSet)
  from Cons.IH [OF this(1) Cons.prems(2) this(2) t2 h2] obtain L' as where
    "fill_table mk is (Suc (length (as0 @ [a]))) c ?L2 = Some L'" "grown_but c ?L2 L'"
    "table_at L' c = \<lparr>arr = map LTable as, strs = [], others = []\<rparr>"
    "list_all2 (holds sv link rows L' lo) as ((ts0 @ [t]) @ ts)" by blast
  then show ?case
    using grown_but_trans [OF grown_but_trans [OF grown_imp_but [OF g] g2]] by (auto simp: mk)
qed

definition kids_of :: "(go_value \<Rightarrow> string) \<Rightarrow> tree_link \<Rightarrow> page_row list \<Rightarrow> nat \<Rightarrow> nat list" where
  "kids_of sv link rows i = (if i < length rows then tree_children sv link rows (id_of sv link (rows ! i)) else [])"

lemma kids_below: "j \<in> set (kids_of sv link rows i) \<Longrightarrow> j < length rows"
  by (auto simp: kids_of_def tree_children_def split: if_splits)

lemma grown_trans: "grown L L1 \<Longrightarrow> grown L1 L2 \<Longrightarrow> grown L L2"
  by (auto simp: grown_def)

lemma grown_new: "grown L L1 \<Longrightarrow> next_addr L \<le> a \<Longrightarrow> grown_but a L1 L2 \<Longrightarrow> grown L L2"
  by (auto simp: grown_def grown_but_def)

lemma children_hold:
  assumes kids: "list_all2 (builds sv link rows mk) is ts" "ts \<noteq> []"
    and L2: "heap_ok L2" "a < next_addr L2" "lo \<le> a" and v2: "\<forall>k. RawGetString L2 a k = node_value sv link (rows ! i) k"
    and n3: "NewTable L2 = (L3, c)"
  shows "\<exists>L4. fill_table mk is 1 c L3 = Some L4 \<and> grown_but a L2 (RawSetString a ''_children'' (LTable c) L4)
           \<and> holds sv link rows (RawSetString a ''_children'' (LTable c) L4) lo a (TNode i ts)"
proof -
  note f3 = NewTable_grown [OF L2(1) n3]
  have "heap_ok L3" "table_at L3 c = \<lparr>arr = map LTable [], strs = [], others = []\<rparr>"
    using f3 by (simp_all add: grown_def empty_table_def)
  from fill_table_holds [OF kids(1) this(1) _ _ this(2), of "Suc c" "[]"] obtain L4 as where
    fill: "fill_table mk is 1 c L3 = Some L4"
    and g4: "grown_but c L3 L4" and c4: "table_at L4 c = \<lparr>arr = map LTable as, strs = [], others = []\<rparr>"
    and h4: "list_all2 (holds sv link rows L4 (Suc c)) as ts"
    using f3(3) by auto
  let ?L5 = "RawSetString a ''_children'' (LTable c) L4"
  have ac: "a < c" "a < next_addr L4" "c < next_addr L4" "heap_ok L4"
    using L2(2) f3(2,3) g4 by (auto simp: grown_but_def)
  have g5: "grown_but a L4 ?L5" using ac(4,2) by (rule grown_but_RawSet)
  have gL4: "grown L2 L4" using grown_new [OF f3(1) _ g4] f3(2) by simp
  then have "table_at L4 a = table_at L2 a" using L2(2) by (simp add: grown_def)
  then have "RawGetString L4 a k = RawGetString L2 a k" for k by (simp add: RawGetString_def)
  then have v5: "\<forall>k. k \<noteq> ''_children'' \<longrightarrow> RawGetString ?L5 a k = node_value sv link (rows ! i) k"
    using v2 by simp
  have "list_all2 (holds sv link rows ?L5 lo) as ts"
    using h4 by (rule list_all2_mono, elim holds_frame) (use ac L2(3) in \<open>auto simp: table_at_RawSet\<close>)
  moreover have "table_at ?L5 c = \<lparr>arr = map LTable as, strs = [], others = []\<rparr>"
    using c4 ac(1) by (simp add: table_at_RawSet)
  ultimately have "holds sv link rows ?L5 lo a (TNode i ts)"
    using v5 ac L2(3) kids(2) by (intro holds_inner) auto
  moreover have "grown_but a L2 ?L5" using grown_but_trans [OF grown_imp_but [OF gL4] g5] .
  ultimately show ?thesis using fill by blast
qed

lemma build_node_builds:
  assumes rows: "\<forall>row\<in>set rows. alist_wf row"
  shows "grow (kids_of sv link rows) k i = Some t \<Longrightarrow> i < length rows \<Longrightarrow> builds sv link rows (build_node sv link rows k) i t"
proof (induction k arbitrary: i t)
  case (Suc k)
  obtain ts where t: "t = TNode i ts"
    and ts: "list_all2 (\<lambda>x y. grow (kids_of sv link rows) k x = Some y) (kids_of sv link rows i) ts"
    using Suc.prems(1) by (auto dest: collect_opt_Some split: option.splits)
  have kids: "list_all2 (builds sv link rows (build_node sv link rows k)) (kids_of sv link rows i) ts"
    using ts by (rule list.rel_mono_strong) (rule Suc.IH, assumption, rule kids_below)
  have ki: "tree_children sv link rows (id_of sv link (rows ! i)) = kids_of sv link rows i"
    using Suc.prems(2) by (simp add: kids_of_def)
  show ?case unfolding builds_def
  proof (intro allI impI)
    fix L assume "heap_ok L"
    obtain L1 a where n: "NewTable L = (L1, a)" by (cases "NewTable L")
    note f = NewTable_grown [OF \<open>heap_ok L\<close> n]
    define L2 where "L2 = node_fields sv link (rows ! i) a L1"
    have g2: "grown_but a L1 L2" and v2: "\<forall>k. RawGetString L2 a k = node_value sv link (rows ! i) k"
      using f node_fields_grown [of L1 a] node_fields_value [OF _ f(4), of "rows ! i"] rows Suc.prems(2)
      by (simp_all add: L2_def grown_def)
    have gL2: "grown L L2" and na: "a < next_addr L2" and h2: "heap_ok L2"
      using grown_new [OF f(1) _ g2] f(2,3) g2 by (auto simp: grown_but_def)
    show "\<exists>L' a. build_node sv link rows (Suc k) i L = Some (L', a) \<and> grown L L' \<and> holds sv link rows L' (next_addr L) a t"
    proof (cases "kids_of sv link rows i = []")
      case True
      then have "holds sv link rows L2 (next_addr L) a t"
        using ts v2 na f(2) by (auto simp: t intro: holds_leaf)
      then show ?thesis using True gL2 by (auto simp: n ki L2_def [symmetric] Let_def)
    next
      case False
      then have "ts \<noteq> []" using ts by auto
      obtain L3 c where n3: "NewTable L2 = (L3, c)" by (cases "NewTable L2")
      from children_hold [OF kids \<open>ts \<noteq> []\<close> h2 na _ v2 n3, of "next_addr L"] obtain L4 where
        fill: "fill_table (build_node sv link rows k) (kids_of sv link rows i) 1 c L3 = Some L4"
        and g5: "grown_but a L2 (RawSetString a ''_children'' (LTable c) L4)"
        and h5: "holds sv link rows (RawSetString a ''_children'' (LTable c) L4) (next_addr L) a t"
        using f(2) t by auto
      have "build_node sv link rows (Suc k) i L = Some (RawSetString a ''_children'' (LTable c) L4, a)"
        using False fill by (simp add: n n3 ki L2_def [symmetric] Let_def)
      moreover have "grown L (RawSetString a ''_children'' (LTable c) L4)"
        using grown_new [OF gL2 _ g5] f(2) by simp
      ultimately show ?thesis using h5 by blast
    qed
  qed
qed simp

lemma fill_table_None: "\<exists>i\<in>set is. \<forall>L. mk i L = None \<Longrightarrow> fill_table mk is j c L = None"
  by (induction "is" arbitrary: j L) (auto split: option.split)

lemma build_node_None:
  "grow (kids_of sv link rows) k i = None \<Longrightarrow> i < length rows \<Longrightarrow> build_node sv link rows k i L = None"
proof (induction k arbitrary: i L)
  case (Suc k)
  have ki: "tree_children sv link rows (id_of sv link (rows ! i)) = kids_of sv link rows i"
    using Suc.prems(2) by (simp add: kids_of_def)
  obtain j where j: "j \<in> set (kids_of sv link rows i)" "grow (kids_of sv link rows) k j = None"
    using Suc.prems(1) by (auto simp: collect_opt_None split: option.splits)
  then have "fill_table (build_node sv link rows k) (kids_of sv link rows i) m c L' = None" for m c L'
    using Suc.IH kids_below [OF j(1)] by (intro fill_table_None) blast
  then show ?case using j(1) by (auto simp: Let_def ki split: prod.split)
qed simp

section \<open>Properties\<close>

text \<open>A root has no row above it, and with distinct identifiers every row has at most one.\<close>

lemma below_iff:
  "(i, j) \<in> below (kids_of sv link rows) \<longleftrightarrow> i < length rows \<and>
     j < length rows \<and> parent_of sv link (rows ! j) \<noteq> [] \<and> parent_of sv link (rows ! j) = id_of sv link (rows ! i)"
  by (auto simp: below_def tree_children_def kids_of_def)

lemma root_above: "r \<in> set (tree_roots sv link rows) \<Longrightarrow> (i, r) \<notin> below (kids_of sv link rows)"
  by (auto simp: below_iff tree_roots_def)

lemma below_single:
  assumes "distinct (map (id_of sv link) rows)"
  shows "single_valued ((below (kids_of sv link rows))\<inverse>)"
  using assms by (auto simp: single_valued_def below_iff distinct_conv_nth)

text \<open>From a root, every path is shorter than the number of rows.\<close>

lemma grow_root:
  assumes ids: "distinct (map (id_of sv link) rows)" and r: "r \<in> set (tree_roots sv link rows)" and k: "length rows \<le> k"
  shows "grow (kids_of sv link rows) k r \<noteq> None"
proof
  let ?B = "below (kids_of sv link rows)"
  assume "grow (kids_of sv link rows) k r = None"
  then obtain p where p: "p 0 = r" "\<And>m. m < k \<Longrightarrow> (p m, p (Suc m)) \<in> ?B" using grow_None_path by metis
  have "p ` {..k} \<subseteq> {..<length rows}"
  proof
    fix x assume "x \<in> p ` {..k}"
    then obtain m where "m \<le> k" "x = p m" by auto
    then show "x \<in> {..<length rows}"
      using p r by (cases m) (auto simp: below_iff tree_roots_def)
  qed
  then have "card (p ` {..k}) \<le> length rows" by (metis card_lessThan card_mono finite_lessThan)
  then have "\<not> inj_on p {..k}" using card_image [of p "{..k}"] k by auto
  then obtain x y where xy: "x \<le> k" "y \<le> k" "x \<noteq> y" "p x = p y" by (auto simp: inj_on_def)
  have walk_back: "p 0 = p d" if "p m = p (m + d)" "m + d \<le> k" for m d
    using that
  proof (induction m)
    case (Suc m)
    have "(p m, p (Suc m)) \<in> ?B" "(p (m + d), p (Suc m)) \<in> ?B"
      using p(2) [of m] p(2) [of "m + d"] Suc.prems by simp_all
    then have "p m = p (m + d)" using below_single [OF ids] by (auto simp: single_valued_def)
    then show ?case using Suc.IH Suc.prems(2) by simp
  qed simp
  obtain d where d: "0 < d" "d \<le> k" "p 0 = p d"
  proof (cases "x < y")
    case True
    then show thesis using that [of "y - x"] walk_back [of x "y - x"] xy by simp
  next
    case False
    then show thesis using that [of "x - y"] walk_back [of y "x - y"] xy by simp
  qed
  have "(p (d - 1), p d) \<in> ?B" using p(2) [of "d - 1"] d(1,2) by simp
  then have "(p (d - 1), r) \<in> ?B" using d(3) p(1) by simp
  then show False using root_above [OF r] by blast
qed

lemma grow_None_above:
  "(i, j) \<in> (below kids)\<^sup>* \<Longrightarrow> \<forall>k. grow kids k j = None \<Longrightarrow> grow kids k i = None"
proof (induction arbitrary: k rule: converse_rtrancl_induct)
  case (step i i')
  then show ?case by (cases k) (auto simp: below_def collect_opt_None split: option.split)
qed simp

lemma forest_of_roots:
  assumes ids: "distinct (map (id_of sv link) rows)"
    and g: "list_all2 (\<lambda>x y. grow (kids_of sv link rows) k x = Some y) (tree_roots sv link rows) ts"
  shows "distinct (concat (map rows_in ts))
    \<and> set (concat (map rows_in ts)) = (\<Union>x\<in>set (tree_roots sv link rows). {j. (x, j) \<in> (below (kids_of sv link rows))\<^sup>*})"
proof -
  let ?kids = "kids_of sv link rows" and ?roots = "tree_roots sv link rows"
  let ?S = "\<lambda>x. {j. (x, j) \<in> (below ?kids)\<^sup>*}"
  have apart: "?S x \<inter> ?S y = {}" if xy: "x \<in> set ?roots" "y \<in> set ?roots" "x \<noteq> y" for x y
  proof -
    have end': "z = r" if "(z, r) \<in> (below ?kids)\<^sup>*" "r \<in> set ?roots" for z r
      using that root_above [OF that(2)] by (metis rtranclE)
    have "(x, y) \<in> (below ?kids)\<^sup>* \<or> (y, x) \<in> (below ?kids)\<^sup>*" if "(x, j) \<in> (below ?kids)\<^sup>*" "(y, j) \<in> (below ?kids)\<^sup>*" for j
      using single_valued_confluent [OF below_single [OF ids], of j x y] that by (auto simp: rtrancl_converse)
    then show ?thesis using end' xy by blast
  qed
  show ?thesis
  proof (rule distinct_concat_list_all2 [OF g])
    show "distinct ?roots" by (simp add: tree_roots_def)
    show "distinct (rows_in u) \<and> set (rows_in u) = ?S x" if "grow ?kids k x = Some u" for x u
      using rows_in_grow [OF that] distinct_rows_in [OF _ below_single [OF ids] that]
      by (auto simp: kids_of_def tree_children_def)
  qed (rule apart)
qed

text \<open>C24: Loading a tree always ends when the identifiers are distinct. The Lua tables then hold, with
  all their fields, exactly the rows that have a root above them, each once; and a row whose parents
  run into a cycle is not shown at all, although the comment says that no row is lost.\<close>

theorem tree_shows_rooted_rows_once:
  assumes ids: "distinct (map (id_of sv link) rows)" and rows: "\<forall>row\<in>set rows. alist_wf row"
    and L: "heap_ok L" and k: "length rows \<le> k"
  shows "\<exists>L' t as ts. BuildTree sv link rows k L = Some (L', t, length rows) \<and> grown L L'
    \<and> table_at L' t = \<lparr>arr = map LTable as, strs = [], others = []\<rparr>
    \<and> list_all2 (holds sv link rows L' (next_addr L)) as ts
    \<and> distinct (concat (map rows_in ts))
    \<and> set (concat (map rows_in ts)) = {j. \<exists>r\<in>set (tree_roots sv link rows). (r, j) \<in> (below (kids_of sv link rows))\<^sup>*}
    \<and> (\<forall>j. (j, j) \<in> (below (kids_of sv link rows))\<^sup>+ \<longrightarrow> j \<notin> set (concat (map rows_in ts)))"
proof -
  let ?kids = "kids_of sv link rows" and ?roots = "tree_roots sv link rows"
  let ?S = "\<lambda>x. {j. (x, j) \<in> (below ?kids)\<^sup>*}"
  have "collect_opt (grow ?kids k) ?roots \<noteq> None"
    using grow_root [OF ids _ k] by (simp only: collect_opt_None) blast
  then obtain ts where g: "list_all2 (\<lambda>x y. grow ?kids k x = Some y) ?roots ts"
    by (auto dest: collect_opt_Some)
  have inr: "r < length rows" if "r \<in> set ?roots" for r using that by (auto simp: tree_roots_def)
  have b: "list_all2 (builds sv link rows (build_node sv link rows k)) ?roots ts"
    using g by (rule list.rel_mono_strong) (rule build_node_builds [OF rows], assumption, rule inr)
  obtain L1 t where n: "NewTable L = (L1, t)" by (cases "NewTable L")
  note f = NewTable_grown [OF L n]
  have "heap_ok L1" "table_at L1 t = \<lparr>arr = map LTable [], strs = [], others = []\<rparr>"
    using f by (simp_all add: grown_def empty_table_def)
  from fill_table_holds [OF b this(1) _ _ this(2), of "Suc t" "[]"] obtain L' as where
    fill: "fill_table (build_node sv link rows k) ?roots 1 t L1 = Some L'" and g1: "grown_but t L1 L'"
    and t': "table_at L' t = \<lparr>arr = map LTable as, strs = [], others = []\<rparr>"
    and h: "list_all2 (holds sv link rows L' (Suc t)) as ts" using f(3) by auto
  have h': "list_all2 (holds sv link rows L' (next_addr L)) as ts"
    using h by (rule list_all2_mono, elim holds_frame) (use f(2) in auto)
  have dist: "distinct (concat (map rows_in ts)) \<and> set (concat (map rows_in ts)) = (\<Union>x\<in>set ?roots. ?S x)"
    using forest_of_roots [OF ids g] .
  have cyc: "j \<notin> ?S r" if "(j, j) \<in> (below ?kids)\<^sup>+" "r \<in> set ?roots" for j r
    using grow_None_above [of r j ?kids k] grow_cycle [OF that(1)] grow_root [OF ids that(2) k] by auto
  have "BuildTree sv link rows k L = Some (L', t, length rows)" using fill by (simp add: BuildTree_def n)
  moreover have "grown L L'" using grown_new [OF f(1) _ g1] f(2) by simp
  moreover have shown: "set (concat (map rows_in ts)) = {j. \<exists>r\<in>set ?roots. (r, j) \<in> (below ?kids)\<^sup>*}"
    unfolding dist [THEN conjunct2] by blast
  moreover have "\<forall>j. (j, j) \<in> (below ?kids)\<^sup>+ \<longrightarrow> j \<notin> set (concat (map rows_in ts))"
    unfolding shown using cyc by blast
  ultimately show ?thesis using t' h' dist [THEN conjunct1] by (intro exI conjI)
qed

definition demo_tree :: tree_link where
  "demo_tree = \<lparr>tr_HandleID = ''db'', tr_Table = ''t'', tr_Where = [], tr_OrderBy = [], tr_IDField = ''id'',
     tr_ParentField = ''parent_id'', tr_LabelField = ''label'', tr_MaxNodes = 5000\<rparr>"

definition demo_node :: "int \<Rightarrow> go_value \<Rightarrow> page_row" where
  "demo_node i p = [(''id'', GInt64 i), (''parent_id'', p), (''label'', GString ''x'')]"

lemma demo_ids:
  "id_of sv demo_tree (demo_node i p) = itoa i"
  "parent_of sv demo_tree (demo_node i p) = (if p = GNil then [] else value_text sv p)"
  by (simp_all add: id_of_def parent_of_def idKey_def row_field_def demo_tree_def demo_node_def value_text_def)

theorem tree_shows_rooted_rows_once_witness:
  "\<exists>L' t as ts. BuildTree (\<lambda>_. []) demo_tree [demo_node 1 GNil, demo_node 2 (GInt64 1), demo_node 3 (GInt64 3)] 3 blank_state
       = Some (L', t, 3) \<and> table_at L' t = \<lparr>arr = map LTable as, strs = [], others = []\<rparr>
     \<and> distinct (concat (map rows_in ts)) \<and> 2 \<notin> set (concat (map rows_in ts))"
proof -
  let ?rows = "[demo_node 1 GNil, demo_node 2 (GInt64 1), demo_node 3 (GInt64 3)]"
  have it: "itoa 1 = ''1''" "itoa 2 = ''2''" "itoa 3 = ''3''" by code_simp+
  then have ids: "distinct (map (id_of (\<lambda>_. []) demo_tree) ?rows)" by (simp add: demo_ids)
  have rows: "\<forall>row\<in>set ?rows. alist_wf row" by (simp add: alist_wf_def demo_node_def)
  have "heap_ok blank_state" by (simp add: heap_ok_def blank_state_def)
  from tree_shows_rooted_rows_once [OF ids rows this, of 3] obtain L' t as ts where
    r: "BuildTree (\<lambda>_. []) demo_tree ?rows 3 blank_state = Some (L', t, 3)"
      "table_at L' t = \<lparr>arr = map LTable as, strs = [], others = []\<rparr>" "distinct (concat (map rows_in ts))"
      "\<forall>j. (j, j) \<in> (below (kids_of (\<lambda>_. []) demo_tree ?rows))\<^sup>+ \<longrightarrow> j \<notin> set (concat (map rows_in ts))"
    by auto
  have "(2, 2) \<in> below (kids_of (\<lambda>_. []) demo_tree ?rows)"
    by (simp add: below_iff demo_ids it value_text_def numeral_2_eq_2)
  with r show ?thesis by blast
qed

text \<open>When two rows share an identifier and one of them is its own parent, the assembly never
  returns: the code recurses until its stack is exhausted.\<close>

theorem tree_self_parent_never_returns:
  assumes "r \<in> set (tree_roots sv link rows)" and "x < length rows" and "d \<noteq> []"
    and "id_of sv link (rows ! r) = d" and "id_of sv link (rows ! x) = d" and "parent_of sv link (rows ! x) = d"
  shows "BuildTree sv link rows k L = None"
proof -
  have r: "r < length rows" using assms(1) by (simp add: tree_roots_def)
  have "(x, x) \<in> (below (kids_of sv link rows))\<^sup>+" "(r, x) \<in> (below (kids_of sv link rows))\<^sup>*"
    using assms r by (auto simp: below_iff intro!: r_into_trancl r_into_rtrancl)
  then have "grow (kids_of sv link rows) k r = None" using grow_None_above grow_cycle by blast
  then have "build_node sv link rows k r L = None" for L using build_node_None r by blast
  then have "fill_table (build_node sv link rows k) (tree_roots sv link rows) j c L' = None" for j c L'
    using assms(1) by (intro fill_table_None) blast
  then show ?thesis by (simp add: BuildTree_def split: prod.split)
qed

theorem tree_self_parent_never_returns_witness:
  "BuildTree (\<lambda>_. []) demo_tree [demo_node 1 GNil, demo_node 1 (GInt64 1)] 1000 blank_state = None"
proof -
  have it: "itoa 1 = ''1''" by code_simp
  show ?thesis
    by (rule tree_self_parent_never_returns [where r = 0 and x = 1 and d = "''1''"])
       (simp_all add: tree_roots_def demo_ids it value_text_def)
qed

end
