(* ===== verification/Expr_Text.thy ===== *)
theory Expr_Text
  imports Lua_Value Go_Text
begin

text \<open>
  The string and value functions that scripts call as globals,
  \<^verbatim>\<open>internal/bindings/funcs.go\<close>, and the weak comparison they rest on,
  \<^verbatim>\<open>internal/coerce\<close>. A slice outside its string stops the call: \<open>None\<close>. Integers are the
  \<^verbatim>\<open>int\<close> arguments, whose sums wrap.
\<close>

section \<open>Slices and searches\<close>

definition go_slice :: "int \<Rightarrow> int \<Rightarrow> string \<Rightarrow> string option" where
  "go_slice a b s =
     (if 0 \<le> a \<and> a \<le> b \<and> b \<le> int (length s) then Some (take (nat b - nat a) (drop (nat a) s)) else None)"

definition glue :: "string option list \<Rightarrow> string option" where
  "glue ps = (if None \<in> set ps then None else Some (concat (map the ps)))"

definition left :: "string \<Rightarrow> int \<Rightarrow> string option" where
  "left s n =
     (let n1 = (if n < 0 then 0 else n); n2 = (if int (length s) < n1 then int (length s) else n1)
      in go_slice 0 n2 s)"

definition right :: "string \<Rightarrow> int \<Rightarrow> string option" where
  "right s n =
     (let n1 = (if n < 0 then 0 else n); n2 = (if int (length s) < n1 then int (length s) else n1)
      in go_slice (int (length s) - n2) (int (length s)) s)"

definition middle :: "string \<Rightarrow> int \<Rightarrow> int \<Rightarrow> string option" where
  "middle s start count =
     (let st1 = (if start < 1 then 1 else start);
          c1 = (if count < 0 then 0 else count);
          len = int (length s);
          st2 = (if len + 1 < st1 then len + 1 else st1);
          e1 = wrap64 (st2 + c1);
          e2 = (if len + 1 < e1 then len + 1 else e1)
      in go_slice (st2 - 1) (e2 - 1) s)"

definition extract_string :: "string \<Rightarrow> int \<Rightarrow> int \<Rightarrow> string option" where
  "extract_string s start stop =
     (let st1 = (if start < 1 then 1 else start) in
      if stop < st1 then Some []
      else (let e1 = (if int (length s) < stop then int (length s) else stop) in go_slice (st1 - 1) e1 s))"

definition set_string :: "string \<Rightarrow> int \<Rightarrow> int \<Rightarrow> string \<Rightarrow> string option" where
  "set_string s start count new =
     (let st1 = (if start < 1 then 1 else start);
          c1 = (if count < 0 then 0 else count);
          e1 = wrap64 (wrap64 (st1 + c1) - 1);
          e2 = (if int (length s) < e1 then int (length s) else e1)
      in glue [go_slice 0 (st1 - 1) s, Some new, go_slice e2 (int (length s)) s])"

text \<open>\<^verbatim>\<open>complete(s, n, pad)\<close>: the padding repeats the first byte of \<open>pad\<close>.\<close>

definition complete_str :: "string \<Rightarrow> int \<Rightarrow> string \<Rightarrow> string option" where
  "complete_str s n pad0 =
     (if n \<le> int (length s) then go_slice 0 n s
      else (let need = n - int (length s);
                pad = (if pad0 = [] then '' '' else pad0);
                times = wrap64 (wrap64 (need + int (length pad)) - 1) div int (length pad)
            in glue [Some s, if times < 0 then None else go_slice 0 need (concat (replicate (nat times) (take 1 pad)))]))"

definition starts_at :: "string \<Rightarrow> string \<Rightarrow> bool" where
  "starts_at needle s \<longleftrightarrow> take (length needle) s = needle"

fun index_from :: "string \<Rightarrow> string \<Rightarrow> nat \<Rightarrow> nat option" where
  "index_from needle [] i = (if needle = [] then Some i else None)"
| "index_from needle (c # cs) i = (if starts_at needle (c # cs) then Some i else index_from needle cs (Suc i))"

definition find_text :: "string \<Rightarrow> string \<Rightarrow> int \<Rightarrow> int" where
  "find_text s needle from0 =
     (let from1 = (if from0 < 1 then 1 else from0) in
      if int (length s) < from1 then 0
      else (case index_from needle (drop (nat (from1 - 1)) s) 0 of None \<Rightarrow> 0 | Some i \<Rightarrow> int i + from1))"

text \<open>\<^verbatim>\<open>strings.ReplaceAll\<close> and \<^verbatim>\<open>strings.Count\<close> for a needle that is not empty.\<close>

function replace_all :: "string \<Rightarrow> string \<Rightarrow> string \<Rightarrow> string" where
  "replace_all old new [] = []"
| "replace_all old new (c # cs) =
     (if old \<noteq> [] \<and> starts_at old (c # cs) then new @ replace_all old new (drop (length old) (c # cs))
      else c # replace_all old new cs)"
  by pat_completeness auto
termination by (relation "measure (\<lambda>(old, _, s). length s)") (auto simp: length_greater_0_conv [symmetric] simp del: length_greater_0_conv)

definition replace :: "string \<Rightarrow> string \<Rightarrow> string \<Rightarrow> string" where
  "replace s old new = (if old = [] then s else replace_all old new s)"

function count_all :: "string \<Rightarrow> string \<Rightarrow> nat" where
  "count_all needle [] = 0"
| "count_all needle (c # cs) =
     (if needle \<noteq> [] \<and> starts_at needle (c # cs) then Suc (count_all needle (drop (length needle) (c # cs)))
      else count_all needle cs)"
  by pat_completeness auto
termination by (relation "measure (\<lambda>(needle, s). length s)") (auto simp: length_greater_0_conv [symmetric] simp del: length_greater_0_conv)

definition string_count :: "string \<Rightarrow> string \<Rightarrow> nat" where
  "string_count s needle = (if needle = [] then 0 else count_all needle s)"

definition mltext :: "string list \<Rightarrow> string" where
  "mltext parts = join_with [CHR 0x0A] parts"

section \<open>Codes and escapes\<close>

definition ascii :: "string \<Rightarrow> nat" where
  "ascii s = (case s of [] \<Rightarrow> 0 | c # _ \<Rightarrow> of_char c)"

text \<open>\<^verbatim>\<open>string(rune(n))\<close>: the code is cut to 32 bits and encoded; what is no code point is U+FFFD.\<close>

definition wrap32 :: "int \<Rightarrow> int" where
  "wrap32 n = (n + 2 ^ 31) mod 2 ^ 32 - 2 ^ 31"

definition utf8_encode :: "int \<Rightarrow> string" where
  "utf8_encode r =
     (if r < 0 \<or> 0x10FFFF < r \<or> (0xD800 \<le> r \<and> r \<le> 0xDFFF) then rune_error
      else let n = nat r in
        if n < 0x80 then [char_of n]
        else if n < 0x800 then [char_of (0xC0 + n div 64), char_of (0x80 + n mod 64)]
        else if n < 0x10000 then [char_of (0xE0 + n div 4096), char_of (0x80 + n div 64 mod 64), char_of (0x80 + n mod 64)]
        else [char_of (0xF0 + n div 262144), char_of (0x80 + n div 4096 mod 64), char_of (0x80 + n div 64 mod 64), char_of (0x80 + n mod 64)])"

definition charact :: "int \<Rightarrow> string" where
  "charact n = utf8_encode (wrap32 n)"

definition isUnreservedByte :: "char \<Rightarrow> bool" where
  "isUnreservedByte c \<longleftrightarrow> is_lower c \<or> is_upper c \<or> is_digit c \<or> c \<in> {CHR ''-'', CHR ''_'', CHR ''.'', CHR ''~''}"

definition hex_upper :: "nat \<Rightarrow> char" where
  "hex_upper n = (if n < 10 then char_of (48 + n) else char_of (55 + n))"

definition full_encode :: "string \<Rightarrow> string" where
  "full_encode s = concat (map (\<lambda>c. if isUnreservedByte c then [c]
     else [CHR ''%'', hex_upper (of_char c div 16), hex_upper (of_char c mod 16)]) s)"

definition xml_entity :: "char \<Rightarrow> string" where
  "xml_entity c =
     (if c = CHR ''&'' then ''&amp;'' else if c = CHR ''<'' then ''&lt;'' else if c = CHR ''>'' then ''&gt;''
      else if c = CHR 0x22 then ''&quot;'' else if c = CHR 0x27 then ''&apos;'' else [c])"

definition xmlEscape :: "string \<Rightarrow> string" where
  "xmlEscape s = concat (map xml_entity s)"

text \<open>\<^verbatim>\<open>strings.NewReplacer\<close>: at each position the first matching pair in the order given.\<close>

definition xml_pairs :: "(string \<times> string) list" where
  "xml_pairs = [(''&lt;'', ''<''), (''&gt;'', ''>''), (''&quot;'', [CHR 0x22]), (''&apos;'', [CHR 0x27]), (''&amp;'', ''&'')]"

function replacer :: "(string \<times> string) list \<Rightarrow> string \<Rightarrow> string" where
  "replacer pairs [] = []"
| "replacer pairs (c # cs) =
     (case find (\<lambda>(old, _). old \<noteq> [] \<and> starts_at old (c # cs)) pairs of
        Some (old, new) \<Rightarrow> (if old = [] then [] else new @ replacer pairs (drop (length old) (c # cs)))
      | None \<Rightarrow> c # replacer pairs cs)"
  by pat_completeness auto
termination by (relation "measure (\<lambda>(pairs, s). length s)") (auto simp: length_greater_0_conv [symmetric] simp del: length_greater_0_conv)

definition xmlUnescape :: "string \<Rightarrow> string" where
  "xmlUnescape s = (if CHR ''&'' \<notin> set s then s else replacer xml_pairs s)"

section \<open>Numbers in text\<close>

function group_loop :: "string \<Rightarrow> string list" where
  "group_loop s = (if s = [] then [] else take 3 s # group_loop (drop 3 s))"
  by pat_completeness auto
termination by (relation "measure length") auto

declare group_loop.simps [simp del]

definition groupDigits :: "string \<Rightarrow> string" where
  "groupDigits s =
     (if length s \<le> 3 then s
      else (let first = length s mod 3
            in join_with '','' ((if 0 < first then [take first s] else []) @ group_loop (drop first s))))"

text \<open>The integer side of \<^verbatim>\<open>maskNumber\<close>, for the rounded magnitude \<open>n\<close>.\<close>

definition mask_integer :: "int \<Rightarrow> string \<Rightarrow> string" where
  "mask_integer n intMask =
     (let minDigits = count_list intMask (CHR ''0'');
          str = (if CHR '','' \<in> set intMask then groupDigits (itoa n) else itoa n)
      in replicate (minDigits - length str) (CHR ''0'') @ str)"

definition extractstringd :: "string \<Rightarrow> int" where
  "extractstringd s =
     (let ds = filter is_digit s in if ds = [] then 0 else if int (digits_value ds) \<le> max_int64 then int (digits_value ds) else max_int64)"

section \<open>Weak comparison\<close>

text \<open>\<open>pf\<close> is \<^verbatim>\<open>strconv.ParseFloat\<close>, \<open>sp\<close> is \<^verbatim>\<open>fmt.Sprint\<close> for numbers and the rest.\<close>

definition ParseNum :: "(string \<Rightarrow> go_float option) \<Rightarrow> string \<Rightarrow> go_float option" where
  "ParseNum pf s = (let t = trim_space s in if t = [] then None else pf t)"

definition NumOrEmpty :: "(string \<Rightarrow> go_float option) \<Rightarrow> string \<Rightarrow> go_float option" where
  "NumOrEmpty pf s = (if trim_space s = [] then Some float_zero else ParseNum pf s)"

definition numeric :: "(string \<Rightarrow> go_float option) \<Rightarrow> go_value \<Rightarrow> go_float option" where
  "numeric pf v =
     (case v of GFloat f \<Rightarrow> Some f | GInt n \<Rightarrow> Some (float_of_int n) | GInt64 n \<Rightarrow> Some (float_of_int n)
      | GString s \<Rightarrow> NumOrEmpty pf s | _ \<Rightarrow> None)"

definition Stringify :: "(go_value \<Rightarrow> string) \<Rightarrow> go_value \<Rightarrow> string" where
  "Stringify sp v =
     (case v of GNil \<Rightarrow> [] | GBool b \<Rightarrow> (if b then ''true'' else ''false'') | GString s \<Rightarrow> s | _ \<Rightarrow> sp v)"

text \<open>\<^verbatim>\<open>==\<close> on \<^verbatim>\<open>float64\<close>: NaN equals nothing.\<close>

definition float_eq :: "go_float \<Rightarrow> go_float \<Rightarrow> bool" where
  "float_eq a b \<longleftrightarrow> a \<noteq> NaN \<and> b \<noteq> NaN \<and> a = b"

definition Eq :: "(string \<Rightarrow> go_float option) \<Rightarrow> (go_value \<Rightarrow> string) \<Rightarrow> go_value \<Rightarrow> go_value \<Rightarrow> bool" where
  "Eq pf sp a b =
     (case (numeric pf a, numeric pf b) of
        (Some x, Some y) \<Rightarrow> float_eq x y
      | _ \<Rightarrow> Stringify sp a = Stringify sp b)"

definition Add :: "(go_float \<Rightarrow> go_float \<Rightarrow> go_float) \<Rightarrow> (string \<Rightarrow> go_float option) \<Rightarrow> (go_value \<Rightarrow> string) \<Rightarrow> go_value \<Rightarrow> go_value \<Rightarrow> go_value" where
  "Add fadd pf sp a b =
     (case (numeric pf a, numeric pf b) of
        (Some x, Some y) \<Rightarrow> GFloat (fadd x y)
      | _ \<Rightarrow> GString (Stringify sp a @ Stringify sp b))"

definition Truthy :: "(string \<Rightarrow> go_float option) \<Rightarrow> go_value \<Rightarrow> bool" where
  "Truthy pf v =
     (case v of
        GNil \<Rightarrow> False | GBool b \<Rightarrow> b | GFloat f \<Rightarrow> f \<noteq> float_zero | GInt n \<Rightarrow> n \<noteq> 0 | GInt64 n \<Rightarrow> n \<noteq> 0
      | GString s \<Rightarrow> s \<noteq> [] \<and> (case ParseNum pf s of Some f \<Rightarrow> f \<noteq> float_zero | None \<Rightarrow> True)
      | _ \<Rightarrow> True)"

definition ToNum :: "(string \<Rightarrow> go_float option) \<Rightarrow> go_value \<Rightarrow> go_float option" where
  "ToNum pf v = numeric pf v"

definition any_of :: "(lua_value \<Rightarrow> string) \<Rightarrow> lua_value \<Rightarrow> go_value" where
  "any_of sh lv =
     (case lv of LNil \<Rightarrow> GNil | LBool b \<Rightarrow> GBool b | LNumber n \<Rightarrow> GFloat n | LString s \<Rightarrow> GString s
      | _ \<Rightarrow> GString (lv_string sh lv))"

definition val :: "(string \<Rightarrow> go_float option) \<Rightarrow> (lua_value \<Rightarrow> string) \<Rightarrow> lua_value \<Rightarrow> go_float" where
  "val pf sh lv = (case ToNum pf (any_of sh lv) of Some n \<Rightarrow> n | None \<Rightarrow> float_zero)"

text \<open>\<^verbatim>\<open>lookup(key, k1, v1, ...)\<close>: the arguments after the key, in pairs.\<close>

fun lookup :: "(string \<Rightarrow> go_float option) \<Rightarrow> (go_value \<Rightarrow> string) \<Rightarrow> (lua_value \<Rightarrow> string) \<Rightarrow> lua_value \<Rightarrow> lua_value list \<Rightarrow> lua_value" where
  "lookup pf sp sh key (k # v # rest) =
     (if Eq pf sp (any_of sh key) (any_of sh k) then v else lookup pf sp sh key rest)"
| "lookup pf sp sh key _ = LString []"

definition iif :: "(string \<Rightarrow> go_float option) \<Rightarrow> (lua_value \<Rightarrow> string) \<Rightarrow> lua_value \<Rightarrow> lua_value \<Rightarrow> lua_value \<Rightarrow> lua_value" where
  "iif pf sh c a b = (if Truthy pf (any_of sh c) then a else b)"

section \<open>Properties of the slices\<close>

lemma glue_simps [simp]: "glue [] = Some []" "glue (None # ps) = None"
  "glue (Some s # ps) = map_option ((@) s) (glue ps)"
  by (auto simp: glue_def)

lemma glue_None: "glue ps = None \<longleftrightarrow> None \<in> set ps"
  by (simp add: glue_def)

lemma go_slice_None: "go_slice a b s = None \<longleftrightarrow> \<not> (0 \<le> a \<and> a \<le> b \<and> b \<le> int (length s))"
  by (simp add: go_slice_def)

lemma left_take: "left s n = Some (take (nat n) s)"
  by (auto simp: left_def go_slice_def Let_def)

lemma right_drop: "right s n = Some (drop (length s - nat n) s)"
  by (auto simp: right_def go_slice_def Let_def nat_diff_distrib)

definition small :: "int \<Rightarrow> bool" where
  "small n \<longleftrightarrow> \<bar>n\<bar> \<le> 2 ^ 61"

lemma small_wrap: "small a \<Longrightarrow> small b \<Longrightarrow> wrap64 (a + b) = a + b"
  by (rule wrap64_id) (auto simp: small_def abs_le_iff in_int64_def min_int64_def max_int64_def)

lemma go_slice_take: "0 \<le> a \<Longrightarrow> a \<le> b \<Longrightarrow> b \<le> int (length s) \<Longrightarrow> go_slice a b s = Some (take (nat (b - a)) (drop (nat a) s))"
  by (simp add: go_slice_def nat_diff_distrib)

lemma middle_take:
  assumes "small count" "small (int (length s) + 1)"
  shows "middle s start count = Some (take (nat count) (drop (nat start - 1) s))"
proof -
  let ?len = "int (length s)"
  define st where "st = (if ?len + 1 < (if start < 1 then 1 else start) then ?len + 1 else if start < 1 then 1 else start)"
  define c where "c = (if count < 0 then 0 else count)"
  have st: "1 \<le> st" "st \<le> ?len + 1" by (auto simp: st_def)
  have "small st" "small c" using st assms by (auto simp: small_def c_def)
  then have w: "wrap64 (st + c) = st + c" by (rule small_wrap)
  have "middle s start count = go_slice (st - 1) ((if ?len + 1 < st + c then ?len + 1 else st + c) - 1) s"
    by (simp add: middle_def st_def [symmetric] c_def [symmetric] w Let_def)
  also have "\<dots> = Some (take (nat c) (drop (nat (st - 1)) s))"
  proof (cases "?len + 1 < st + c")
    case True
    then have "take (nat (?len + 1 - st)) (drop (nat (st - 1)) s) = take (nat c) (drop (nat (st - 1)) s)"
      using st by simp
    then show ?thesis using True st by (simp add: go_slice_take)
  next
    case False
    then show ?thesis using st by (simp add: go_slice_take c_def)
  qed
  also have "drop (nat (st - 1)) s = drop (nat start - 1) s"
    by (auto simp: st_def nat_diff_distrib)
  finally show ?thesis by (auto simp: c_def)
qed

lemma extract_string_None:
  "extract_string s start stop = None \<longleftrightarrow> int (length s) + 1 < start \<and> start \<le> stop"
  by (auto simp: extract_string_def go_slice_None Let_def)

lemma set_string_None:
  assumes "small start" "small count" "small (int (length s))"
  shows "set_string s start count new = None \<longleftrightarrow> int (length s) + 1 < start"
proof -
  define st where "st = (if start < 1 then 1 else start)"
  define c where "c = (if count < 0 then 0 else count)"
  have st: "1 \<le> st" "small st" "0 \<le> c" "small c" using assms by (auto simp: small_def st_def c_def)
  have "wrap64 (st + c) = st + c" using st(2,4) by (rule small_wrap)
  moreover have "wrap64 (st + c - 1) = st + c - 1"
    using st by (intro wrap64_id) (auto simp: small_def in_int64_def min_int64_def max_int64_def)
  ultimately have "set_string s start count new =
      glue [go_slice 0 (st - 1) s, Some new, go_slice (if int (length s) < st + c - 1 then int (length s) else st + c - 1) (int (length s)) s]"
    by (simp add: set_string_def st_def [symmetric] c_def [symmetric] Let_def)
  moreover have "go_slice (if int (length s) < st + c - 1 then int (length s) else st + c - 1) (int (length s)) s \<noteq> None"
    using st by (auto simp: go_slice_None)
  ultimately have "set_string s start count new = None \<longleftrightarrow> go_slice 0 (st - 1) s = None"
    by (cases "go_slice 0 (st - 1) s") auto
  then show ?thesis by (auto simp: go_slice_None st_def)
qed

lemma complete_None:
  assumes "small n" "small (int (length pad))"
  shows "complete_str s n pad = None \<longleftrightarrow> n < 0 \<or> (int (length s) + 1 < n \<and> 1 < length pad)"
proof (cases "n \<le> int (length s)")
  case True
  then show ?thesis by (auto simp: complete_str_def go_slice_None)
next
  case False
  define p where "p = (if pad = [] then '' '' else pad)"
  define need where "need = n - int (length s)"
  define times where "times = (need + int (length p) - 1) div int (length p)"
  have need: "1 \<le> need" using False by (simp add: need_def)
  have sm: "small need" "small (int (length p))"
    using assms need False by (auto simp: small_def need_def p_def)
  have lp: "1 \<le> int (length p)" by (cases p) (auto simp: p_def split: if_splits)
  have "wrap64 (need + int (length p)) = need + int (length p)" using sm by (rule small_wrap)
  moreover have "wrap64 (need + int (length p) - 1) = need + int (length p) - 1"
    using sm need by (intro wrap64_id) (auto simp: small_def in_int64_def min_int64_def max_int64_def)
  moreover have t0: "0 \<le> times"
    unfolding times_def by (subst pos_imp_zdiv_nonneg_iff) (use need lp in linarith)+
  ultimately have eq: "complete_str s n pad = glue [Some s, go_slice 0 need (concat (replicate (nat times) (take 1 p)))]"
    using False by (simp add: complete_str_def p_def [symmetric] need_def [symmetric] times_def [symmetric] Let_def)
  have "length (concat (replicate k (take 1 p))) = k" for k
    using lp by (induction k) (auto simp: min_def)
  then have "go_slice 0 need (concat (replicate (nat times) (take 1 p))) = None \<longleftrightarrow> times < need"
    using need t0 by (simp add: go_slice_None not_le)
  then have "complete_str s n pad = None \<longleftrightarrow> times < need"
    unfolding eq glue_None by (metis list.set_intros option.distinct(1) set_ConsD empty_iff list.set(1))
  also have "\<dots> \<longleftrightarrow> 1 < need \<and> 1 < int (length p)"
  proof (cases "length p = 1")
    case True
    then show ?thesis by (simp add: times_def)
  next
    case False
    then have l2: "2 \<le> int (length p)" using lp by simp
    have le: "times * int (length p) \<le> need + int (length p) - 1"
    proof -
      have "0 \<le> (need + int (length p) - 1) mod int (length p)" by (rule pos_mod_sign) (use lp in linarith)
      then show ?thesis unfolding times_def by (simp add: minus_mod_eq_div_mult [symmetric])
    qed
    have "times < need" if "1 < need"
    proof (rule ccontr)
      assume "\<not> times < need"
      then have "need * int (length p) \<le> times * int (length p)" by (intro mult_right_mono) simp_all
      with le have "(need - 1) * (int (length p) - 1) \<le> 0" by (simp add: algebra_simps)
      moreover have "0 < (need - 1) * (int (length p) - 1)" using that l2 by simp
      ultimately show False by simp
    qed
    moreover from l2 have "p \<noteq> []" by auto
    then have "times = 1" if "need = 1" using that by (simp add: times_def)
    ultimately show ?thesis using l2 need by (cases "need = 1") auto
  qed
  finally show ?thesis using False by (auto simp: need_def p_def)
qed

text \<open>Which string functions can stop a script. \<^verbatim>\<open>left\<close>, \<^verbatim>\<open>right\<close> and
  \<^verbatim>\<open>middle\<close> never do and give the bytes they name; \<^verbatim>\<open>extract_string\<close> and
  \<^verbatim>\<open>set_string\<close> index outside the string when the start lies more than one past its end,
  and \<^verbatim>\<open>complete\<close> does for a negative length and whenever a pad of several bytes has to be
  repeated.\<close>

theorem string_functions_stop:
  assumes "small start" "small count" "small stop" "small n" "small (int (length s) + 1)" "small (int (length pad))"
  shows "left s n = Some (take (nat n) s) \<and> right s n = Some (drop (length s - nat n) s)
    \<and> middle s start count = Some (take (nat count) (drop (nat start - 1) s))
    \<and> (extract_string s start stop = None \<longleftrightarrow> int (length s) + 1 < start \<and> start \<le> stop)
    \<and> (set_string s start count new = None \<longleftrightarrow> int (length s) + 1 < start)
    \<and> (complete_str s n pad = None \<longleftrightarrow> n < 0 \<or> (int (length s) + 1 < n \<and> 1 < length pad))"
proof -
  have "small (int (length s))" using assms(5) by (simp add: small_def)
  then show ?thesis
    using assms by (simp add: left_take right_drop middle_take extract_string_None set_string_None complete_None)
qed

theorem string_functions_stop_witness:
  "middle ''kalua'' 2 3 = Some ''alu'' \<and> set_string ''kalua'' 7 1 ''x'' = None \<and> complete_str ''ab'' 5 ''xy'' = None"
  using string_functions_stop [of 2 3 0 5 "''kalua''" "''xy''"] string_functions_stop [of 7 1 0 5 "''kalua''" "''xy''" "''x''"]
    string_functions_stop [of 2 3 0 5 "''ab''" "''xy''"]
  by (simp add: small_def eval_nat_numeral)

section \<open>Properties of the escapes\<close>

lemma replacer_entity: "replacer xml_pairs (xml_entity c @ s) = c # replacer xml_pairs s"
proof -
  consider "c = CHR ''&''" | "c = CHR ''<''" | "c = CHR ''>''" | "c = CHR 0x22" | "c = CHR 0x27"
    | "c \<notin> {CHR ''&'', CHR ''<'', CHR ''>'', CHR 0x22, CHR 0x27}" by blast
  then show ?thesis by cases (simp_all add: xml_entity_def xml_pairs_def starts_at_def)
qed

text \<open>Text escaped for XML reads back unchanged, whatever it holds.\<close>

theorem xml_escape_roundtrip: "xmlUnescape (xmlEscape s) = s"
proof -
  have r: "replacer xml_pairs (xmlEscape s) = s"
    by (induction s) (simp_all add: xmlEscape_def replacer_entity)
  moreover have "xmlEscape s = s" if "CHR ''&'' \<notin> set (xmlEscape s)"
    using that by (induction s) (auto simp: xmlEscape_def xml_entity_def split: if_splits)
  ultimately show ?thesis by (simp add: xmlUnescape_def)
qed

text \<open>\<^verbatim>\<open>url.QueryUnescape\<close>, which \<^verbatim>\<open>urldecode\<close> calls.\<close>

definition hex_value :: "char \<Rightarrow> nat option" where
  "hex_value c =
     (let n = of_char c in
      if 48 \<le> n \<and> n \<le> 57 then Some (n - 48) else if 65 \<le> n \<and> n \<le> 70 then Some (n - 55)
      else if 97 \<le> n \<and> n \<le> 102 then Some (n - 87) else None)"

fun urldecode :: "string \<Rightarrow> string option" where
  "urldecode [] = Some []"
| "urldecode (c # cs) =
     (if c = CHR ''%'' then
        (case cs of
           h # l # r \<Rightarrow>
             (case (hex_value h, hex_value l) of
                (Some x, Some y) \<Rightarrow> map_option ((#) (char_of (16 * x + y))) (urldecode r)
              | _ \<Rightarrow> None)
         | _ \<Rightarrow> None)
      else map_option ((#) (if c = CHR ''+'' then CHR '' '' else c)) (urldecode cs))"

lemma hex_value_upper: "n < 16 \<Longrightarrow> hex_value (hex_upper n) = Some n"
  by (auto simp: hex_value_def hex_upper_def Let_def)

text \<open>A percent-encoded text decodes to itself, although the decoder reads a plus sign as a space.\<close>

theorem full_encode_roundtrip: "urldecode (full_encode s) = Some s"
proof (induction s)
  case (Cons c s)
  have c: "char_of (16 * (of_char c div 16 :: nat) + of_char c mod 16) = c" by simp
  have "of_char c < (256 :: nat)" by simp
  then have "of_char c div 16 < (16 :: nat)" by linarith
  then have "hex_value (hex_upper (of_char c div 16)) = Some (of_char c div 16)"
    "hex_value (hex_upper (of_char c mod 16)) = Some (of_char c mod 16)"
    by (auto intro!: hex_value_upper)
  moreover have "c \<noteq> CHR ''%'' \<and> c \<noteq> CHR ''+''" if "isUnreservedByte c"
    using that by (auto simp: isUnreservedByte_def is_lower_def is_upper_def is_digit_def)
  ultimately show ?case using Cons c by (simp add: full_encode_def)
qed (simp add: full_encode_def)

section \<open>Properties of the grouping\<close>

lemma group_loop_pieces:
  "length s mod 3 = 0 \<Longrightarrow> concat (group_loop s) = s \<and> (\<forall>g\<in>set (group_loop s). length g = 3)
     \<and> length (group_loop s) = length s div 3"
proof (induction s rule: group_loop.induct)
  case (1 s)
  show ?case
  proof (cases "s = []")
    case True
    then show ?thesis by (simp add: group_loop.simps)
  next
    case False
    then have "length s \<noteq> 0" by simp
    then have l: "3 \<le> length s" using "1.prems" by presburger
    then have l2: "length (drop 3 s) mod 3 = 0" using "1.prems" by (simp add: le_mod_geq)
    with "1.IH" [OF False l2] have ih: "concat (group_loop (drop 3 s)) = drop 3 s"
      "\<forall>g\<in>set (group_loop (drop 3 s)). length g = 3" "length (group_loop (drop 3 s)) = (length s - 3) div 3" by simp_all
    have e: "group_loop s = take 3 s # group_loop (drop 3 s)" using False by (simp add: group_loop.simps [of s])
    have "concat (group_loop s) = s" by (simp add: e ih(1))
    moreover have "length (take 3 s) = 3" using l by simp
    then have "\<forall>g\<in>set (group_loop s). length g = 3" using ih(2) e by (metis set_ConsD)
    moreover have "length (group_loop s) = length s div 3" using arg_cong [OF e, of length] ih(3) l le_div_geq [of 3 "length s"] by simp
    ultimately show ?thesis by blast
  qed
qed

definition groups :: "string \<Rightarrow> string list" where
  "groups s = (if length s \<le> 3 then [s] else (if 0 < length s mod 3 then [take (length s mod 3) s] else [])
                 @ group_loop (drop (length s mod 3) s))"

lemma groupDigits_groups: "groupDigits s = join_with '','' (groups s)"
  by (simp add: groupDigits_def groups_def Let_def)

lemma groups_pieces:
  assumes "s \<noteq> []"
  shows "concat (groups s) = s \<and> groups s \<noteq> [] \<and> 1 \<le> length (hd (groups s)) \<and> length (hd (groups s)) \<le> 3
     \<and> (\<forall>g\<in>set (tl (groups s)). length g = 3) \<and> length (groups s) = Suc ((length s - 1) div 3)"
proof (cases "length s \<le> 3")
  case True
  then have "(length s - 1) div 3 = 0" by simp
  then show ?thesis using True assms by (simp add: groups_def Suc_le_eq)
next
  case False
  define m where "m = length s mod 3"
  have m: "m < 3" "m \<le> length s" using False by (auto simp: m_def)
  have "length (drop m s) mod 3 = 0" using m(2) by (simp add: m_def mod_eq_dvd_iff_nat [symmetric] minus_mod_eq_mult_div)
  note g = group_loop_pieces [OF this]
  have len: "length (drop m s) div 3 = length s div 3"
    by (simp add: m_def minus_mod_eq_mult_div)
  show ?thesis
  proof (cases "m = 0")
    case True
    have "group_loop s \<noteq> []" using assms by (simp add: group_loop.simps [of s])
    moreover have "length s div 3 = Suc ((length s - 1) div 3)" using True False by (simp add: m_def) presburger
    ultimately show ?thesis
      using False True g len by (cases "group_loop s") (simp_all add: groups_def m_def [symmetric])
  next
    case m0: False
    have "groups s = take m s # group_loop (drop m s)" using False m0 by (simp add: groups_def m_def [symmetric])
    moreover have "length s div 3 = (length s - 1) div 3" using m0 False unfolding m_def by presburger
    moreover have "length (take m s) = m" using m(2) by simp
    ultimately show ?thesis using m0 m(1) g len by simp
  qed
qed

lemma join_comma:
  "filter (\<lambda>c. c \<noteq> CHR '','') (join_with '','' gs) = filter (\<lambda>c. c \<noteq> CHR '','') (concat gs)"
  "gs \<noteq> [] \<Longrightarrow> length (join_with '','' gs) = length (concat gs) + (length gs - 1)"
  by (induction "'',''" gs rule: join_with.induct) auto

text \<open>Grouping puts a comma before every third digit from the right and changes nothing else.\<close>

theorem grouping_inserts_commas:
  assumes "s \<noteq> []" "CHR '','' \<notin> set s"
  shows "filter (\<lambda>c. c \<noteq> CHR '','') (groupDigits s) = s
    \<and> length (groupDigits s) = length s + (length s - 1) div 3
    \<and> (\<exists>gs. groupDigits s = join_with '','' gs \<and> length (hd gs) \<in> {1..3} \<and> (\<forall>g\<in>set (tl gs). length g = 3))"
proof -
  note g = groups_pieces [OF assms(1)]
  have "filter (\<lambda>c. c \<noteq> CHR '','') s = s" using assms(2) by (auto intro!: filter_True)
  then have "filter (\<lambda>c. c \<noteq> CHR '','') (groupDigits s) = s" using g by (simp add: groupDigits_groups join_comma(1))
  moreover have "length (groupDigits s) = length s + (length s - 1) div 3"
    using g join_comma(2) [of "groups s"] by (simp add: groupDigits_groups)
  ultimately show ?thesis using g groupDigits_groups [of s] by (metis atLeastAtMost_iff)
qed

theorem grouping_inserts_commas_witness: "filter (\<lambda>c. c \<noteq> CHR '','') (groupDigits ''1234567'') = ''1234567''"
  using grouping_inserts_commas [of "''1234567''"] by simp

text \<open>The zeros of a mask count against the grouped text, commas included: five zeros and a comma print four
  digits of 1234, not five.\<close>

theorem mask_zeros_count_commas:
  "mask_integer 1234 ''00,000'' = ''1,234'' \<and> mask_integer 1234 ''00000'' = ''01234''"
proof -
  have "itoa 1234 = ''1234''" by code_simp
  then show ?thesis by (simp add: mask_integer_def groupDigits_def group_loop.simps)
qed

lemma charact_is_utf8: "0 \<le> n \<Longrightarrow> n < 256 \<Longrightarrow> length (charact n) = (if n < 128 then 1 else 2)"
  by (auto simp: charact_def wrap32_def utf8_encode_def Let_def nat_less_iff)

section \<open>Properties of the weak comparison\<close>

lemma Eq_sym: "Eq pf sp a b = Eq pf sp b a"
  by (auto simp: Eq_def float_eq_def split: option.splits)

lemma Eq_refl: "Eq pf sp a a \<longleftrightarrow> numeric pf a \<noteq> Some NaN"
  by (auto simp: Eq_def float_eq_def split: option.splits)

text \<open>Weak equality is symmetric and reflexive except at NaN, but not transitive: nil equals the empty string,
  which equals zero, and nil is not zero.\<close>

theorem weak_equality:
  assumes "sp (GFloat float_zero) \<noteq> []"
  shows "(\<forall>a b. Eq pf sp a b = Eq pf sp b a) \<and> (\<forall>a. Eq pf sp a a \<longleftrightarrow> numeric pf a \<noteq> Some NaN)
    \<and> Eq pf sp GNil (GString []) \<and> Eq pf sp (GString []) (GFloat float_zero) \<and> \<not> Eq pf sp GNil (GFloat float_zero)"
proof -
  have "Eq pf sp GNil (GString [])" "Eq pf sp (GString []) (GFloat float_zero)"
    by (simp_all add: Eq_def numeric_def NumOrEmpty_def Stringify_def float_eq_def float_zero_def trim_space_def)
  moreover have "\<not> Eq pf sp GNil (GFloat float_zero)"
    using assms by (auto simp: Eq_def numeric_def Stringify_def)
  ultimately show ?thesis using Eq_sym Eq_refl by blast
qed

theorem weak_equality_witness:
  "\<not> Eq (\<lambda>_. None) (\<lambda>_. ''0'') GNil (GFloat float_zero)"
  using weak_equality [of "\<lambda>_. ''0''" "\<lambda>_. None"] by simp

end
