(* ===== verification/Lua_Export.thy ===== *)
theory Lua_Export
  imports Lua_Printer "HOL-Library.List_Lexorder" "HOL-Library.Char_ord"
begin

text \<open>
  \<^verbatim>\<open>internal/builder/lua_export.go\<close>: the Lua text of a document, of one form, its cells,
  controls and handlers, and of a JSON value. \<open>pr\<close> says which runes beyond ASCII
  \<^verbatim>\<open>strconv.IsPrint\<close> accepts, \<open>ff\<close> is \<^verbatim>\<open>strconv.FormatFloat\<close>, \<open>now\<close> the formatted time.
\<close>

section \<open>\<^verbatim>\<open>%q\<close>\<close>

definition hex_lower :: "nat \<Rightarrow> char" where
  "hex_lower n = (if n < 10 then char_of (48 + n) else char_of (87 + n))"

fun hex_digits :: "nat \<Rightarrow> nat \<Rightarrow> string" where
  "hex_digits 0 n = []"
| "hex_digits (Suc k) n = hex_digits k (n div 16) @ [hex_lower (n mod 16)]"

text \<open>The code point of a rune given by its bytes.\<close>

definition rune_code :: "string \<Rightarrow> nat" where
  "rune_code r =
     (case map byte_of r of
        [a] \<Rightarrow> a
      | [a, b] \<Rightarrow> (a - 192) * 64 + (b - 128)
      | [a, b, c] \<Rightarrow> (a - 224) * 4096 + (b - 128) * 64 + (c - 128)
      | [a, b, c, d] \<Rightarrow> (a - 240) * 262144 + (b - 128) * 4096 + (c - 128) * 64 + (d - 128)
      | _ \<Rightarrow> 0)"

definition quote_valid :: "(nat \<Rightarrow> bool) \<Rightarrow> string \<Rightarrow> string" where
  "quote_valid pr r =
     (let n = rune_code r in
      if r = [CHR 0x22] \<or> r = [CHR 0x5C] then CHR 0x5C # r
      else if (if n < 128 then 32 \<le> n \<and> n < 127 else pr n) then r
      else if n = 7 then [CHR 0x5C, CHR ''a''] else if n = 8 then [CHR 0x5C, CHR ''b'']
      else if n = 12 then [CHR 0x5C, CHR ''f''] else if n = 10 then [CHR 0x5C, CHR ''n'']
      else if n = 13 then [CHR 0x5C, CHR ''r''] else if n = 9 then [CHR 0x5C, CHR ''t'']
      else if n = 11 then [CHR 0x5C, CHR ''v'']
      else if n < 32 \<or> n = 127 then [CHR 0x5C, CHR ''x''] @ hex_digits 2 n
      else if n < 65536 then [CHR 0x5C, CHR ''u''] @ hex_digits 4 n
      else [CHR 0x5C, CHR ''U''] @ hex_digits 8 n)"

function quote_body :: "(nat \<Rightarrow> bool) \<Rightarrow> string \<Rightarrow> string" where
  "quote_body pr [] = []"
| "quote_body pr (b # bs) =
     (let w = rune_width (b # bs)
      in if w = 0 then [CHR 0x5C, CHR ''x''] @ hex_digits 2 (byte_of b) @ quote_body pr bs
         else quote_valid pr (take w (b # bs)) @ quote_body pr (drop w (b # bs)))"
  by pat_completeness auto
termination by (relation "measure (\<lambda>(pr, s). length s)") auto

definition go_q :: "(nat \<Rightarrow> bool) \<Rightarrow> string \<Rightarrow> string" where
  "go_q pr s = [CHR 0x22] @ quote_body pr s @ [CHR 0x22]"

section \<open>Values as literals\<close>

definition formatNumber :: "(go_float \<Rightarrow> string) \<Rightarrow> go_float \<Rightarrow> string" where
  "formatNumber ff n = (if n = float_of_int (go_int n) then itoa (go_int n) else ff n)"

fun jsonToLuaLiteral :: "(go_float \<Rightarrow> string) \<Rightarrow> go_value \<Rightarrow> string" where
  "jsonToLuaLiteral ff GNil = ''nil''"
| "jsonToLuaLiteral ff (GString s) = luaQuote s"
| "jsonToLuaLiteral ff (GFloat n) = formatNumber ff n"
| "jsonToLuaLiteral ff (GBool b) = (if b then ''true'' else ''false'')"
| "jsonToLuaLiteral ff (GList vs) = ''{'' @ join_with '', '' (map (jsonToLuaLiteral ff) vs) @ ''}''"
| "jsonToLuaLiteral ff (GMap kvs) =
     ''{'' @ join_with '', '' (map (\<lambda>(k, t). luaKey k @ '' = '' @ t)
        (sort_key fst (map (\<lambda>(k, v). (k, jsonToLuaLiteral ff v)) kvs))) @ ''}''"
| "jsonToLuaLiteral ff v = ''nil''"

definition item_text :: "(string \<times> go_value) list \<Rightarrow> string \<Rightarrow> string" where
  "item_text m k = (case map_of m k of Some (GString s) \<Rightarrow> s | _ \<Rightarrow> [])"

fun item_literals :: "go_value list \<Rightarrow> string list" where
  "item_literals [] = []"
| "item_literals (GMap m # vs) =
     (let key = item_text m ''key'';
          display = (if item_text m ''display'' = [] then key else item_text m ''display'')
      in (luaKey key @ '' = '' @ luaQuote display) # item_literals vs)"
| "item_literals (v # vs) = item_literals vs"

definition itemsLuaLiteral :: "go_value \<Rightarrow> string" where
  "itemsLuaLiteral v =
     (case v of GList vs \<Rightarrow> ''{'' @ join_with '', '' (item_literals vs) @ ''}'' | _ \<Rightarrow> ''{}'')"

section \<open>Forms\<close>

definition cell_border :: "(nat \<Rightarrow> bool) \<Rightarrow> border \<Rightarrow> string" where
  "cell_border pr b =
     ''border={'' @ join_with '', ''
        ((if 0 < bd_width b then [''width='' @ itoa (bd_width b)] else [])
         @ (if bd_color b \<noteq> [] then [''color='' @ go_q pr (bd_color b)] else [])) @ ''}''"

definition cell_text :: "(nat \<Rightarrow> bool) \<Rightarrow> cell_def \<Rightarrow> string" where
  "cell_text pr c =
     ''{'' @ join_with '', ''
        ([''id='' @ go_q pr (cd_id c)]
         @ (if 0 < cd_width c then [''width='' @ itoa (cd_width c)] else [])
         @ (if cd_bg c \<noteq> [] then [''bg='' @ go_q pr (cd_bg c)] else [])
         @ (if cd_align c \<noteq> [] then [''align='' @ go_q pr (cd_align c)] else [])
         @ (case cd_border c of None \<Rightarrow> [] | Some b \<Rightarrow> [cell_border pr b])) @ ''}''"

fun cell_texts :: "(nat \<Rightarrow> bool) \<Rightarrow> cell_def option list \<Rightarrow> string list" where
  "cell_texts pr [] = []"
| "cell_texts pr (None # cs) = cell_texts pr cs"
| "cell_texts pr (Some c # cs) = (if cd_id c = [] then cell_texts pr cs else cell_text pr c # cell_texts pr cs)"

definition exportCells :: "(nat \<Rightarrow> bool) \<Rightarrow> cell_def option list \<Rightarrow> string" where
  "exportCells pr cs = ''{'' @ join_with '', '' (cell_texts pr cs) @ ''}''"

definition exportFormNew :: "(nat \<Rightarrow> bool) \<Rightarrow> form_doc \<Rightarrow> string \<Rightarrow> string" where
  "exportFormNew pr f p =
     p @ ''k.form.new('' @ go_q pr (fm_name f) @ '', {'' @ join_with '', ''
        ((if fm_title f \<noteq> [] then [''title='' @ luaQuote (fm_title f)] else [])
         @ [''layout='' @ go_q pr (if fm_layout f = [] then ''vertical'' else fm_layout f),
            ''align='' @ go_q pr (if fm_align f = [] then ''left'' else fm_align f)]
         @ (case fm_gap f of None \<Rightarrow> [] | Some g \<Rightarrow> [''gap='' @ itoa g])
         @ (if fm_cells f \<noteq> [] then [''cells='' @ exportCells pr (fm_cells f)] else [])) @ ''})'' @ nl @ nl"

definition isRuntimeDBHandle :: "go_value \<Rightarrow> bool" where
  "isRuntimeDBHandle v = (case v of GString s \<Rightarrow> take 5 s = ''db_0x'' | _ \<Rightarrow> False)"

text \<open>The options of a control in key order, the text of each that is exported.\<close>

fun option_texts :: "(go_float \<Rightarrow> string) \<Rightarrow> (string \<times> go_value) list \<Rightarrow> string list" where
  "option_texts ff [] = []"
| "option_texts ff ((k, v) # kvs) =
     (if k = ''db'' then
        (if isRuntimeDBHandle v then option_texts ff kvs
         else (''db = '' @ jsonToLuaLiteral ff v) # option_texts ff kvs)
      else if v = GNil then option_texts ff kvs
      else if k = ''items'' then (''items = '' @ itemsLuaLiteral v) # option_texts ff kvs
      else (k @ '' = '' @ jsonToLuaLiteral ff v) # option_texts ff kvs)"

definition db_exported :: "(string \<times> go_value) list \<Rightarrow> bool" where
  "db_exported opts = (case map_of opts ''db'' of None \<Rightarrow> False | Some v \<Rightarrow> \<not> isRuntimeDBHandle v)"

definition db_hinted :: "ctl \<Rightarrow> bool" where
  "db_hinted c \<longleftrightarrow>
     ((case map_of (ct_opts c) ''db'' of None \<Rightarrow> False | Some v \<Rightarrow> isRuntimeDBHandle v)
        \<or> ct_type c = ''table'' \<or> ct_type c = ''looper'')
     \<and> \<not> db_exported (ct_opts c)"

definition exportControl :: "(nat \<Rightarrow> bool) \<Rightarrow> (go_float \<Rightarrow> string) \<Rightarrow> form_doc \<Rightarrow> ctl \<Rightarrow> string \<Rightarrow> string" where
  "exportControl pr ff f c p =
     (let opts = option_texts ff (sort_key fst (ct_opts c))
            @ map (\<lambda>(k, src). k @ '' = '' @ src) (sort_key fst (ct_inline c));
          start = p @ ''k.ctrl.'' @ ct_type c @ ''('' @ go_q pr (fm_name f) @ '', '' @ go_q pr (ct_name c) @ '', {''
      in (if db_hinted c then
            p @ ''-- k.ctrl.'' @ ct_type c @ ''('' @ go_q pr (fm_name f) @ '', '' @ go_q pr (ct_name c)
              @ '', {...}) configured with a DB handle (assigned at runtime)'' @ nl
          else [])
         @ (if 3 < length opts \<or> ct_inline c \<noteq> [] then
              start @ nl @ concat (map (\<lambda>o'. p @ ''  '' @ o' @ '','' @ nl) opts) @ p @ ''})'' @ nl @ nl
            else start @ join_with '', '' opts @ ''})'' @ nl @ nl))"

section \<open>Handlers\<close>

definition handled_events :: "form_doc \<Rightarrow> string \<Rightarrow> string list" where
  "handled_events f name = (case map_of (fm_handlers f) name of None \<Rightarrow> [] | Some evs \<Rightarrow> evs)"

definition body_of :: "form_doc \<Rightarrow> string \<Rightarrow> string \<Rightarrow> string" where
  "body_of f name ev = (case map_of (fm_bodies f) (name @ ''.'' @ ev) of None \<Rightarrow> [] | Some b \<Rightarrow> b)"

text \<open>The registrations kept verbatim, as (owner, event) pairs in the order they are written.\<close>

definition captured :: "form_doc \<Rightarrow> string \<Rightarrow> (string \<times> string) list" where
  "captured f name = map (Pair name) (filter (\<lambda>ev. ev \<noteq> [] \<and> body_of f name ev \<noteq> []) (handled_events f name))"

definition captured_all :: "form_doc \<Rightarrow> (string \<times> string) list" where
  "captured_all f =
     captured f ''@form'' @ concat (map (\<lambda>c. case c of None \<Rightarrow> [] | Some c' \<Rightarrow> captured f (ct_name c')) (fm_controls f))
     @ concat (map (captured f) (sort (fm_orphans f)))"

definition exportHandlers :: "form_doc \<Rightarrow> string" where
  "exportHandlers f = concat (map (\<lambda>(name, ev). body_of f name ev @ nl) (captured_all f))"

definition hasCtrl :: "form_doc \<Rightarrow> string \<Rightarrow> bool" where
  "hasCtrl f name \<longleftrightarrow> list_ex (\<lambda>c. case c of None \<Rightarrow> False | Some c' \<Rightarrow> ct_name c' = name) (fm_controls f)"

definition defaultFormEvents :: "string list" where
  "defaultFormEvents = [''open_form'', ''after_open_form'', ''close_form'']"

definition defaultEventsForControl :: "ctl \<Rightarrow> string list" where
  "defaultEventsForControl c =
     (let t = ct_type c in
      if t = ''image'' then (if map_of (ct_opts c) ''clickable'' = Some (GBool True) then [''click''] else [])
      else if t = ''looper'' then [''onselect'', ''onclick'']
      else if t = ''chart'' then [''chart_click'', ''chart_legend_click'']
      else if t = ''tree'' then [''on_click'', ''on_select'', ''on_expand'', ''on_loaded'', ''on_error'']
      else if t = ''tab'' then [''onchange'']
      else if t = ''topbar'' then [''logout'']
      else if t = ''sidebar'' then [''sidebar_select'']
      else if t = ''ai_chat'' then [''on_send'', ''on_reply'', ''on_tool'', ''on_error'', ''on_done'']
      else if t = ''footer'' then []
      else if t = ''button'' then [''click'']
      else if t \<in> {''textbox'', ''combo'', ''list'', ''checkbox'', ''radio'', ''table''} then [''selection_change'']
      else [])"

definition hasHandler :: "form_doc \<Rightarrow> string \<Rightarrow> string \<Rightarrow> ctl option \<Rightarrow> bool" where
  "hasHandler f name event c \<longleftrightarrow>
     event \<in> set (handled_events f name)
     \<or> (case c of None \<Rightarrow> False
        | Some c' \<Rightarrow> event = ''click'' \<and> (case map_of (ct_inline c') ''onclick'' of None \<Rightarrow> False | Some s \<Rightarrow> s \<noteq> []))"

definition printHandlerStub :: "(nat \<Rightarrow> bool) \<Rightarrow> string \<Rightarrow> string \<Rightarrow> string \<Rightarrow> string \<Rightarrow> string" where
  "printHandlerStub pr p formName ctrlName event =
     (if ctrlName = ''@form'' then
        p @ ''k.form.on('' @ go_q pr formName @ '', '' @ go_q pr event @ '', function()'' @ nl
        @ p @ ''  k.print('' @ luaQuote (formName @ ''.'' @ event) @ '')'' @ nl
      else
        p @ ''k.form.on('' @ go_q pr formName @ '', '' @ go_q pr ctrlName @ '', '' @ go_q pr event @ '', function()'' @ nl
        @ p @ ''  k.print('' @ luaQuote (formName @ ''.'' @ ctrlName @ ''.'' @ event) @ '')'' @ nl)
     @ p @ ''end)'' @ nl @ nl"

text \<open>The stubs written, as (owner, event) pairs. A nil control stops the export, see \<open>exportFormLua\<close>.\<close>

definition control_stubs :: "form_doc \<Rightarrow> ctl \<Rightarrow> (string \<times> string) list" where
  "control_stubs f c =
     map (Pair (ct_name c)) (filter (\<lambda>ev. \<not> hasHandler f (ct_name c) ev (Some c)) (defaultEventsForControl c))"

definition stubs :: "form_doc \<Rightarrow> ctl list \<Rightarrow> (string \<times> string) list" where
  "stubs f cs =
     map (Pair ''@form'') (filter (\<lambda>ev. \<not> hasHandler f ''@form'' ev None) defaultFormEvents)
     @ concat (map (control_stubs f) cs)"

definition exportDefaultHandlers :: "(nat \<Rightarrow> bool) \<Rightarrow> form_doc \<Rightarrow> ctl list \<Rightarrow> string \<Rightarrow> string" where
  "exportDefaultHandlers pr f cs p = concat (map (\<lambda>(name, ev). printHandlerStub pr p (fm_name f) name ev) (stubs f cs))"

text \<open>None is the dereference of a nil control.\<close>

definition GenerateFormLua ::
  "(nat \<Rightarrow> bool) \<Rightarrow> (go_float \<Rightarrow> string) \<Rightarrow> form_doc option \<Rightarrow> string \<Rightarrow> bool \<Rightarrow> string option" where
  "GenerateFormLua pr ff fo p emitShow =
     (case fo of
        None \<Rightarrow> Some []
      | Some f \<Rightarrow>
          (if None \<in> set (fm_controls f) then None
           else let cs = map the (fm_controls f) in
             Some (exportFormNew pr f p
               @ concat (map (\<lambda>c. exportControl pr ff f c p) cs)
               @ exportHandlers f @ exportDefaultHandlers pr f cs p
               @ (if emitShow then p @ ''k.form.show('' @ go_q pr (fm_name f) @ '')'' @ nl else []))))"

fun concat_all :: "string option list \<Rightarrow> string option" where
  "concat_all [] = Some []"
| "concat_all (None # ts) = None"
| "concat_all (Some t # ts) = map_option ((@) t) (concat_all ts)"

definition ExportLua :: "(nat \<Rightarrow> bool) \<Rightarrow> (go_float \<Rightarrow> string) \<Rightarrow> string \<Rightarrow> document \<Rightarrow> string option" where
  "ExportLua pr ff now d =
     (let title = (case firstForm d of None \<Rightarrow> ''kalua-form'' | Some f \<Rightarrow> fm_name f);
          head = ''-- '' @ title @ [CHR '' '', CHR 0xE2, CHR 0x80, CHR 0x94, CHR '' ''] @ ''generated by KALUA Form Builder'' @ nl
            @ ''-- Generated '' @ now @ nl @ nl @ ''function main()'' @ nl
      in map_option (\<lambda>t. head @ t @ ''end'' @ nl)
           (concat_all (map (\<lambda>f. GenerateFormLua pr ff f ''  '' True) (dc_forms d))))"

section \<open>Reading a literal back\<close>

text \<open>
  A reader for the literals of Lua: strings, numbers, the three constants and tables, whose keys are
  names that are not reserved or strings in brackets. \<open>rd\<close> reads the text of a number.
\<close>

definition reserved :: "string set" where
  "reserved = {''and'', ''break'', ''do'', ''else'', ''elseif'', ''end'', ''false'', ''for'', ''function'', ''goto'',
     ''if'', ''in'', ''local'', ''nil'', ''not'', ''or'', ''repeat'', ''return'', ''then'', ''true'', ''until'', ''while''}"

definition word_char :: "char \<Rightarrow> bool" where
  "word_char c \<longleftrightarrow> ident_start c \<or> is_digit c"

definition num_char :: "char \<Rightarrow> bool" where
  "num_char c \<longleftrightarrow> is_digit c \<or> c = CHR ''-'' \<or> c = CHR ''.''"

definition strip :: "string \<Rightarrow> string \<Rightarrow> string option" where
  "strip pre s = (if take (length pre) s = pre then Some (drop (length pre) s) else None)"

definition of_entries :: "(string option \<times> go_value) list \<Rightarrow> go_value option" where
  "of_entries es =
     (if list_all (\<lambda>(k, v). k = None) es then Some (GList (map snd es))
      else if list_all (\<lambda>(k, v). k \<noteq> None) es then Some (GMap (map (\<lambda>(k, v). (the k, v)) es))
      else None)"

fun read_value :: "(string \<Rightarrow> go_float option) \<Rightarrow> nat \<Rightarrow> string \<Rightarrow> (go_value \<times> string) option"
and read_entry :: "(string \<Rightarrow> go_float option) \<Rightarrow> nat \<Rightarrow> string \<Rightarrow> ((string option \<times> go_value) \<times> string) option"
and read_entries :: "(string \<Rightarrow> go_float option) \<Rightarrow> nat \<Rightarrow> string \<Rightarrow> ((string option \<times> go_value) list \<times> string) option" where
  "read_value rd 0 s = None"
| "read_value rd (Suc n) s =
     (case s of
        [] \<Rightarrow> None
      | c # cs \<Rightarrow>
          if c = CHR 0x22 then map_option (\<lambda>(t, r). (GString t, r)) (unquote cs)
          else if c = CHR ''{'' then
            (case strip ''}'' cs of
               Some r \<Rightarrow> Some (GList [], r)
             | None \<Rightarrow> Option.bind (read_entries rd n cs) (\<lambda>(es, r). map_option (\<lambda>v. (v, r)) (of_entries es)))
          else if num_char c then map_option (\<lambda>f. (GFloat f, dropWhile num_char s)) (rd (takeWhile num_char s))
          else (let w = takeWhile word_char s; r = dropWhile word_char s in
            if w = ''nil'' then Some (GNil, r) else if w = ''true'' then Some (GBool True, r)
            else if w = ''false'' then Some (GBool False, r) else None))"
| "read_entry rd 0 s = None"
| "read_entry rd (Suc n) s =
     (case strip [CHR ''['', CHR 0x22] s of
        Some t \<Rightarrow> Option.bind (unquote t) (\<lambda>(k, r).
          Option.bind (strip ''] = '' r) (\<lambda>r'. map_option (\<lambda>(v, r''). ((Some k, v), r'')) (read_value rd n r')))
      | None \<Rightarrow>
          (let w = takeWhile word_char s; r = dropWhile word_char s in
           case (if is_ident w \<and> w \<notin> reserved then strip '' = '' r else None) of
             Some r' \<Rightarrow> map_option (\<lambda>(v, r''). ((Some w, v), r'')) (read_value rd n r')
           | None \<Rightarrow> map_option (\<lambda>(v, r). ((None, v), r)) (read_value rd n s)))"
| "read_entries rd 0 s = None"
| "read_entries rd (Suc n) s =
     Option.bind (read_entry rd n s) (\<lambda>(e, r).
       case strip ''}'' r of
         Some r' \<Rightarrow> Some ([e], r')
       | None \<Rightarrow> Option.bind (strip '', '' r) (\<lambda>r'. map_option (\<lambda>(es, r''). (e # es, r'')) (read_entries rd n r')))"

text \<open>What a literal can say: an empty map reads as an empty list, keys come back sorted.\<close>

fun literal_norm :: "go_value \<Rightarrow> go_value" where
  "literal_norm (GList vs) = GList (map literal_norm vs)"
| "literal_norm (GMap kvs) =
     (if kvs = [] then GList [] else GMap (sort_key fst (map (\<lambda>(k, v). (k, literal_norm v)) kvs)))"
| "literal_norm v = v"

text \<open>The values JSON decodes to, with keys that are no reserved words and numbers that read back.\<close>

fun literal_ok :: "(string \<Rightarrow> go_float option) \<Rightarrow> (go_float \<Rightarrow> string) \<Rightarrow> go_value \<Rightarrow> bool" where
  "literal_ok rd ff GNil = True"
| "literal_ok rd ff (GString s) = True"
| "literal_ok rd ff (GBool b) = True"
| "literal_ok rd ff (GFloat f) =
     (formatNumber ff f \<noteq> [] \<and> list_all num_char (formatNumber ff f) \<and> rd (formatNumber ff f) = Some f)"
| "literal_ok rd ff (GList vs) = list_all (literal_ok rd ff) vs"
| "literal_ok rd ff (GMap kvs) = list_all (\<lambda>(k, v). k \<notin> reserved \<and> literal_ok rd ff v) kvs"
| "literal_ok rd ff v = False"

definition ends :: "string \<Rightarrow> bool" where
  "ends rest \<longleftrightarrow> rest = [] \<or> hd rest = CHR '','' \<or> hd rest = CHR ''}''"

lemma ends_not: "ends rest \<Longrightarrow> rest = [] \<or> \<not> word_char (hd rest) \<and> \<not> num_char (hd rest)"
  by (auto simp: ends_def word_char_def num_char_def ident_start_def is_lower_def is_upper_def is_digit_def)

lemma take_run: "list_all P t \<Longrightarrow> rest = [] \<or> \<not> P (hd rest) \<Longrightarrow> takeWhile P (t @ rest) = t \<and> dropWhile P (t @ rest) = rest"
  by (cases rest) (auto simp: list_all_iff takeWhile_append2 dropWhile_append2)

lemma strip_append [simp]: "strip p (p @ t) = Some t"
  by (simp add: strip_def)

lemma strip_Cons [simp]: "strip [] t = Some t" "strip (c # p) [] = None"
  "strip (c # p) (d # t) = (if c = d then strip p t else None)"
  by (auto simp: strip_def)

text \<open>\<open>t\<close> reads as \<open>v\<close> once the fuel is large enough, whatever follows.\<close>

definition reads :: "(string \<Rightarrow> go_float option) \<Rightarrow> string \<Rightarrow> go_value \<Rightarrow> bool" where
  "reads rd t v \<longleftrightarrow>
     t \<noteq> [] \<and> hd t \<noteq> CHR ''['' \<and> hd t \<noteq> CHR ''}''
     \<and> (\<forall>rest. ends rest \<longrightarrow> (let w = takeWhile word_char (t @ rest) in is_ident w \<longrightarrow> w \<in> reserved))
     \<and> (\<exists>k. \<forall>n\<ge>k. \<forall>rest. ends rest \<longrightarrow> read_value rd n (t @ rest) = Some (v, rest))"

definition entry_reads :: "(string \<Rightarrow> go_float option) \<Rightarrow> string \<Rightarrow> string option \<times> go_value \<Rightarrow> bool" where
  "entry_reads rd t e \<longleftrightarrow>
     t \<noteq> [] \<and> hd t \<noteq> CHR ''}''
     \<and> (\<exists>k. \<forall>n\<ge>k. \<forall>rest. ends rest \<longrightarrow> read_entry rd n (t @ rest) = Some (e, rest))"

lemma ends_simps [simp]: "ends []" "ends (CHR '','' # r)" "ends (CHR ''}'' # r)"
  by (simp_all add: ends_def)

lemma reads_word:
  assumes "w \<in> {''nil'', ''true'', ''false''}"
  shows "reads rd w (if w = ''nil'' then GNil else GBool (w = ''true''))"
proof -
  have run: "takeWhile word_char (w @ rest) = w \<and> dropWhile word_char (w @ rest) = rest" if en: "ends rest" for rest
    using assms ends_not [OF en]
    by (intro take_run) (auto simp: word_char_def ident_start_def is_lower_def)
  have "read_value rd n (w @ rest) = Some (if w = ''nil'' then GNil else GBool (w = ''true''), rest)"
    if le: "1 \<le> n" and en: "ends rest" for n rest
  proof -
    obtain m where n: "n = Suc m" using le by (cases n) auto
    have h: "hd w \<in> {CHR ''n'', CHR ''t'', CHR ''f''}" "w \<noteq> []" using assms by auto
    then obtain c cs where c0: "w = c # cs" by (cases w) auto
    then have c: "c \<in> {CHR ''n'', CHR ''t'', CHR ''f''}" using h by simp
    then have "c \<noteq> CHR 0x22" "c \<noteq> CHR ''{''" "\<not> num_char c" by (auto simp: num_char_def is_digit_def)
    then have "read_value rd n (w @ rest) =
        (let u = takeWhile word_char (w @ rest); r = dropWhile word_char (w @ rest) in
           if u = ''nil'' then Some (GNil, r) else if u = ''true'' then Some (GBool True, r)
           else if u = ''false'' then Some (GBool False, r) else None)"
      by (simp add: n c0)
    then show ?thesis using assms unfolding Let_def run [OF en, THEN conjunct1] run [OF en, THEN conjunct2] by auto
  qed
  moreover have "w \<in> reserved" using assms by (auto simp: reserved_def)
  ultimately show ?thesis using run assms unfolding reads_def Let_def by (intro conjI exI [of _ 1]) auto
qed

lemma reads_string: "reads rd (luaQuote s) (GString s)"
proof -
  have "read_value rd n (luaQuote s @ rest) = Some (GString s, rest)" if "1 \<le> n" for n rest
    using that by (cases n) (simp_all add: luaQuote_def unquote_bytes)
  moreover have "takeWhile word_char (luaQuote s @ rest) = []" for rest
    by (simp add: luaQuote_def word_char_def ident_start_def is_lower_def is_upper_def is_digit_def)
  ultimately show ?thesis
    unfolding reads_def by (intro conjI exI [of _ 1]) (auto simp: luaQuote_def is_ident_def)
qed

lemma reads_number:
  assumes t: "t \<noteq> []" "list_all num_char t" and rd: "rd t = Some f"
  shows "reads rd t (GFloat f)"
proof -
  obtain c cs where c: "t = c # cs" "num_char c" using t by (cases t) auto
  have nw: "\<not> ident_start c" "c \<noteq> CHR 0x22" "c \<noteq> CHR ''{''" "c \<noteq> CHR ''[''" "c \<noteq> CHR ''}''"
    using c(2) by (auto simp: num_char_def is_digit_def ident_start_def is_lower_def is_upper_def)
  have "read_value rd n (t @ rest) = Some (GFloat f, rest)" if le: "1 \<le> n" and en: "ends rest" for n rest
  proof -
    obtain m where n: "n = Suc m" using le by (cases n) auto
    have "takeWhile num_char (t @ rest) = t \<and> dropWhile num_char (t @ rest) = rest"
      using ends_not [OF en] by (intro take_run t(2)) auto
    then show ?thesis using c nw rd by (simp add: n)
  qed
  moreover have "\<not> is_ident (takeWhile word_char (t @ rest))" for rest
    using nw(1) by (auto simp: c(1) is_ident_def)
  ultimately show ?thesis using nw c(1) unfolding reads_def by (intro conjI exI [of _ 1]) auto
qed

lemma entry_positional: "reads rd t v \<Longrightarrow> entry_reads rd t (None, v)"
proof -
  assume r: "reads rd t v"
  then obtain k where k: "\<And>n rest. n \<ge> k \<Longrightarrow> ends rest \<Longrightarrow> read_value rd n (t @ rest) = Some (v, rest)"
    by (auto simp: reads_def)
  obtain c cs where c: "t = c # cs" "c \<noteq> CHR ''[''" using r by (cases t) (auto simp: reads_def)
  have "read_entry rd n (t @ rest) = Some ((None, v), rest)" if le: "Suc k \<le> n" and en: "ends rest" for n rest
  proof -
    obtain m where n: "n = Suc m" "k \<le> m" using le by (cases n) auto
    have w: "is_ident (takeWhile word_char (t @ rest)) \<longrightarrow> takeWhile word_char (t @ rest) \<in> reserved"
      using r en by (auto simp: reads_def Let_def)
    have b: "strip [CHR ''['', CHR 0x22] (t @ rest) = None" using c by simp
    show ?thesis using k [OF n(2) en] w by (auto simp: n(1) b Let_def)
  qed
  then show ?thesis using r by (auto simp: entry_reads_def reads_def)
qed

lemma entry_keyed:
  assumes r: "reads rd t v" and key: "k \<notin> reserved"
  shows "entry_reads rd (luaKey k @ '' = '' @ t) (Some k, v)"
proof -
  obtain j where j: "\<And>n rest. n \<ge> j \<Longrightarrow> ends rest \<Longrightarrow> read_value rd n (t @ rest) = Some (v, rest)"
    using r by (auto simp: reads_def)
  have "read_entry rd n ((luaKey k @ '' = '' @ t) @ rest) = Some ((Some k, v), rest)" if le: "Suc j \<le> n" and en: "ends rest" for n rest
  proof -
    obtain m where n: "n = Suc m" "j \<le> m" using le by (cases n) auto
    show ?thesis
    proof (cases "is_ident k")
      case True
      then have all: "list_all word_char k" and ne: "k \<noteq> []"
        by (cases k; auto simp: is_ident_def word_char_def list_all_iff)+
      have "takeWhile word_char (k @ '' = '' @ t @ rest) = k \<and> dropWhile word_char (k @ '' = '' @ t @ rest) = '' = '' @ t @ rest"
        using all by (rule take_run) (simp add: word_char_def ident_start_def is_lower_def is_upper_def is_digit_def)
      moreover have "strip [CHR ''['', CHR 0x22] (k @ '' = '' @ t @ rest) = None"
        using True by (cases k) (auto simp: is_ident_def ident_start_def is_lower_def is_upper_def)
      ultimately show ?thesis using True key j [OF n(2) en] by (simp add: n(1) luaKey_def Let_def)
    next
      case False
      then show ?thesis using j [OF n(2) en] by (simp add: n(1) luaKey_def luaQuote_def unquote_bytes)
    qed
  qed
  moreover have "hd (luaKey k @ '' = '' @ t) \<noteq> CHR ''}''"
    by (auto simp: luaKey_def is_ident_def ident_start_def is_lower_def is_upper_def split: list.splits)
  ultimately show ?thesis unfolding entry_reads_def by (intro conjI exI [of _ "Suc j"]) auto
qed

lemma reads_empty: "reads rd ''{}'' (GList [])"
proof -
  have "read_value rd n (''{}'' @ rest) = Some (GList [], rest)" if "1 \<le> n" for n rest
    using that by (cases n) simp_all
  then show ?thesis unfolding reads_def
    by (intro conjI exI [of _ 1]) (auto simp: is_ident_def word_char_def ident_start_def is_lower_def is_upper_def is_digit_def)
qed

lemma entries_read:
  "list_all2 (entry_reads rd) ts es \<Longrightarrow> ts \<noteq> [] \<Longrightarrow>
   \<exists>k. \<forall>n\<ge>k. \<forall>rest. read_entries rd n (join_with '', '' ts @ CHR ''}'' # rest) = Some (es, rest)"
proof (induction ts es rule: list_all2_induct)
  case (Cons t ts e es)
  obtain k where k: "\<And>n rest. k \<le> n \<Longrightarrow> ends rest \<Longrightarrow> read_entry rd n (t @ rest) = Some (e, rest)"
    using Cons.hyps(1) by (auto simp: entry_reads_def)
  show ?case
  proof (cases ts)
    case Nil
    then have es: "es = []" using Cons.hyps(2) by simp
    have "read_entries rd n (join_with '', '' (t # ts) @ CHR ''}'' # rest) = Some (e # es, rest)" if "Suc k \<le> n" for n rest
      using that by (cases n) (simp_all add: Nil es k)
    then show ?thesis by blast
  next
    case (Cons u us)
    then obtain j where j: "\<And>n rest. j \<le> n \<Longrightarrow> read_entries rd n (join_with '', '' ts @ CHR ''}'' # rest) = Some (es, rest)"
      using Cons.IH by blast
    have "read_entries rd n (join_with '', '' (t # ts) @ CHR ''}'' # rest) = Some (e # es, rest)"
      if "Suc (max k j) \<le> n" for n rest
      using that j [of "n - 1" rest] by (cases n) (simp_all add: Cons k)
    then show ?thesis by blast
  qed
qed simp

lemma table_reads:
  assumes "list_all2 (entry_reads rd) ts es" "ts \<noteq> []" "of_entries es = Some v"
  shows "reads rd (''{'' @ join_with '', '' ts @ ''}'') v"
proof -
  obtain k where k: "\<And>n rest. k \<le> n \<Longrightarrow> read_entries rd n (join_with '', '' ts @ CHR ''}'' # rest) = Some (es, rest)"
    using entries_read [OF assms(1,2)] by blast
  obtain t us where t: "ts = t # us" using assms(2) by (cases ts) auto
  then have "t \<noteq> []" "hd t \<noteq> CHR ''}''" using assms(1) by (auto simp: list_all2_Cons1 entry_reads_def)
  then have s: "strip ''}'' (join_with '', '' ts @ CHR ''}'' # rest) = None" for rest
    by (cases t; cases us) (auto simp: t)
  have "read_value rd n ((''{'' @ join_with '', '' ts @ ''}'') @ rest) = Some (v, rest)" if "Suc k \<le> n" for n rest
    using that by (cases n) (simp_all add: s k assms(3))
  then show ?thesis unfolding reads_def
    by (intro conjI exI [of _ "Suc k"]) (auto simp: is_ident_def word_char_def ident_start_def is_lower_def is_upper_def is_digit_def)
qed

lemma sort_key_map: "(\<And>x. f (h x) = g x) \<Longrightarrow> sort_key f (map h xs) = map h (sort_key g xs)"
proof (induction xs)
  case (Cons x xs)
  have "insort_key f (h x) (map h ys) = map h (insort_key g x ys)" for ys
    using Cons.prems by (induction ys) auto
  with Cons show ?case by simp
qed simp

lemma list_all2_map_same: "(\<And>x. x \<in> set xs \<Longrightarrow> P (f x) (g x)) \<Longrightarrow> list_all2 P (map f xs) (map g xs)"
  by (simp add: list_all2_map1 list_all2_map2 list.rel_refl_strong)

lemma reads_literal: "literal_ok rd ff v \<Longrightarrow> reads rd (jsonToLuaLiteral ff v) (literal_norm v)"
proof (induction ff v rule: jsonToLuaLiteral.induct)
  case (1 ff)
  then show ?case using reads_word [of "''nil''" rd] by simp
next
  case (2 ff s)
  then show ?case by (simp add: reads_string)
next
  case (3 ff n)
  then show ?case by (simp add: reads_number)
next
  case (4 ff b)
  then show ?case using reads_word [of "''true''" rd] reads_word [of "''false''" rd] by simp
next
  case (5 ff vs)
  have e: "list_all2 (entry_reads rd) (map (jsonToLuaLiteral ff) vs) (map (\<lambda>v. (None, literal_norm v)) vs)"
    using 5 by (intro list_all2_map_same entry_positional) (auto simp: list_all_iff)
  show ?case
  proof (cases "vs = []")
    case False
    have "of_entries (map (\<lambda>v. (None, literal_norm v)) vs) = Some (GList (map literal_norm vs))"
      by (auto simp: of_entries_def list_all_iff)
    from table_reads [OF e _ this] False show ?thesis by simp
  qed (simp add: reads_empty)
next
  case (6 ff kvs)
  let ?sorted = "sort_key fst kvs"
  have lits: "sort_key fst (map (\<lambda>(k, v). (k, f v)) kvs) = map (\<lambda>(k, v). (k, f v)) ?sorted" for f :: "go_value \<Rightarrow> 'x"
    by (rule sort_key_map) auto
  have e: "list_all2 (entry_reads rd) (map (\<lambda>(k, v). luaKey k @ '' = '' @ jsonToLuaLiteral ff v) ?sorted)
      (map (\<lambda>(k, v). (Some k, literal_norm v)) ?sorted)"
    using 6 by (intro list_all2_map_same) (auto simp: list_all_iff intro!: entry_keyed [simplified])
  show ?case
  proof (cases "kvs = []")
    case False
    have "?sorted \<noteq> []" using False by (metis set_sort set_empty)
    moreover from this have "of_entries (map (\<lambda>(k, v). (Some k, literal_norm v)) ?sorted) = Some (literal_norm (GMap kvs))"
      using False by (cases ?sorted) (auto simp: of_entries_def list_all_iff lits)
    moreover have "map (\<lambda>(k, t). luaKey k @ '' = '' @ t) (sort_key fst (map (\<lambda>(k, v). (k, jsonToLuaLiteral ff v)) kvs))
        = map (\<lambda>(k, v). luaKey k @ '' = '' @ jsonToLuaLiteral ff v) ?sorted"
      unfolding lits by auto
    ultimately show ?thesis
      using table_reads [OF e] by (simp only: jsonToLuaLiteral.simps map_is_Nil_conv not_False_eq_True)
  qed (simp add: reads_empty)
qed simp_all



text \<open>A key that is a reserved word is written bare, which no Lua reader accepts.\<close>

lemma reserved_word: "k \<in> reserved \<Longrightarrow> is_ident k \<and> list_all word_char k"
  by (auto simp: reserved_def is_ident_def word_char_def ident_start_def is_lower_def)

theorem reserved_key_unreadable:
  assumes k: "k \<in> reserved"
  shows "jsonToLuaLiteral ff (GMap [(k, GBool True)]) = ''{'' @ k @ '' = true}''
    \<and> read_value rd n (jsonToLuaLiteral ff (GMap [(k, GBool True)])) = None"
proof -
  note w = reserved_word [OF k]
  let ?t = "k @ '' = true}''"
  have lit: "jsonToLuaLiteral ff (GMap [(k, GBool True)]) = ''{'' @ ?t" using w by (simp add: luaKey_def)
  obtain c cs where c: "k = c # cs" "ident_start c" using w by (cases k) (auto simp: is_ident_def)
  then have c': "c \<noteq> CHR 0x22" "c \<noteq> CHR ''{''" "c \<noteq> CHR ''}''" "c \<noteq> CHR ''[''" "\<not> num_char c"
    by (auto simp: ident_start_def num_char_def is_lower_def is_upper_def is_digit_def)
  have run: "takeWhile word_char ?t = k \<and> dropWhile word_char ?t = '' = true}''"
    using w by (intro take_run) (auto simp: word_char_def ident_start_def is_lower_def is_upper_def is_digit_def)
  have e: "read_value rd m ?t = None \<or> (\<exists>v. read_value rd m ?t = Some (v, '' = true}''))" for m
    using run c' c(1) by (cases m) (auto simp: Let_def)
  have b: "strip [CHR ''['', CHR 0x22] ?t = None" using c c' by simp
  have "read_entry rd m ?t = None \<or> (\<exists>e'. read_entry rd m ?t = Some (e', '' = true}''))" for m
  proof (cases m)
    case (Suc m')
    have "read_entry rd m ?t = map_option (\<lambda>(v, r). ((None, v), r)) (read_value rd m' ?t)"
      unfolding Suc read_entry.simps b using run k by (simp add: Let_def)
    then show ?thesis using e [of m'] by auto
  qed simp
  then have en: "read_entry rd m ?t = None \<or> (\<exists>e'. read_entry rd m ?t = Some (e', '' = true}''))" for m .
  have "read_entries rd (Suc m) ?t = None" for m using en [of m] by (elim disjE exE) simp_all
  then have "read_entries rd m ?t = None" for m by (cases m) simp_all
  then have "read_value rd n (''{'' @ ?t) = None" using c' c(1) by (cases n) auto
  then show ?thesis using lit by simp
qed

section \<open>Registrations\<close>

text \<open>A generated stub never registers an event that a captured handler registers, and no stub is
  written twice when the names of the controls are distinct.\<close>

lemma distinct_default_events: "distinct (defaultEventsForControl c)"
  by (simp add: defaultEventsForControl_def Let_def)

lemma captured_handled: "(name, ev) \<in> set (captured_all f) \<Longrightarrow> ev \<in> set (handled_events f name)"
  by (auto simp: captured_all_def captured_def split: option.splits)

theorem stubs_never_clobber:
  assumes "None \<notin> set (fm_controls f)"
    and "distinct (map (ct_name \<circ> the) (fm_controls f))" and "\<not> hasCtrl f ''@form''"
  defines "cs \<equiv> map the (fm_controls f)"
  shows "set (stubs f cs) \<inter> set (captured_all f) = {} \<and> distinct (stubs f cs)
    \<and> (\<forall>c\<in>set cs. \<forall>ev\<in>set (defaultEventsForControl c). hasHandler f (ct_name c) ev (Some c) \<or> (ct_name c, ev) \<in> set (stubs f cs))"
proof -
  have "(name, ev) \<notin> set (captured_all f)" if "(name, ev) \<in> set (stubs f cs)" for name ev
    using that captured_handled [of name ev f]
    by (auto simp: stubs_def control_stubs_def hasHandler_def)
  moreover have "distinct (stubs f cs)"
  proof -
    have d: "distinct (map ct_name cs)" using assms(2) by (simp add: cs_def comp_def)
    have "''@form'' \<notin> ct_name ` set cs"
      using assms(1,3) by (force simp: hasCtrl_def list_ex_iff cs_def split: option.splits)
    moreover have "distinct (concat (map (control_stubs f) cs))"
      using d by (induction cs) (auto simp: control_stubs_def distinct_map inj_on_def distinct_default_events)
    ultimately show ?thesis
      by (auto simp: stubs_def defaultFormEvents_def control_stubs_def distinct_map inj_on_def image_iff)
  qed
  moreover have "\<forall>c\<in>set cs. \<forall>ev\<in>set (defaultEventsForControl c). hasHandler f (ct_name c) ev (Some c) \<or> (ct_name c, ev) \<in> set (stubs f cs)"
    by (auto simp: stubs_def control_stubs_def)
  ultimately show ?thesis by auto
qed

end
