(* ===== verification/Source_Rebuild.thy ===== *)
theory Source_Rebuild
  imports Lua_Export "HOL-Library.Sublist"
begin

text \<open>
  \<^verbatim>\<open>internal/builder/rebuild.go\<close>: an edited document is spliced back into its Lua source, form
  by form. \<open>imp\<close> is \<^verbatim>\<open>Import\<close>, of which only the forms are used; \<open>ja\<close> and \<open>jb\<close> are the
  \<^verbatim>\<open>json.Marshal\<close> texts of the parts of an edited and of an imported form (two functions,
  because a nil and an empty Go slice have different texts and are one list here). None is the
  dereference of a nil form or control.
\<close>

section \<open>Comparing forms\<close>

record form_json =
  fj_cells :: string
  fj_controls :: string
  fj_handlers :: string
  fj_bodies :: string

definition formEqual :: "(form_doc \<Rightarrow> form_json) \<Rightarrow> (form_doc \<Rightarrow> form_json) \<Rightarrow> form_doc \<Rightarrow> form_doc \<Rightarrow> bool" where
  "formEqual ja jb a b \<longleftrightarrow>
     fm_name a = fm_name b \<and> fm_title a = fm_title b \<and> fm_layout a = fm_layout b \<and> fm_align a = fm_align b
     \<and> fm_gap a = fm_gap b
     \<and> fj_cells (ja a) = fj_cells (jb b) \<and> fj_controls (ja a) = fj_controls (jb b)
     \<and> fj_handlers (ja a) = fj_handlers (jb b) \<and> fj_bodies (ja a) = fj_bodies (jb b)"

fun rename_scan :: "form_doc list \<Rightarrow> form_doc list \<Rightarrow> int \<Rightarrow> int \<Rightarrow> int" where
  "rename_scan (c # cs) (d # ds) i diff =
     (if fm_name c \<noteq> fm_name d then (if 0 \<le> diff then -1 else rename_scan cs ds (i + 1) i)
      else rename_scan cs ds (i + 1) diff)"
| "rename_scan _ _ i diff = diff"

definition renameIndex :: "form_doc list \<Rightarrow> form_doc list \<Rightarrow> int" where
  "renameIndex cur dfs = (if length cur \<noteq> length dfs \<or> cur = [] then -1 else rename_scan cur dfs 0 (-1))"

definition docCounterpart :: "form_doc list \<Rightarrow> form_doc \<Rightarrow> nat \<Rightarrow> int \<Rightarrow> form_doc option" where
  "docCounterpart dfs sf i renIdx =
     (case findForm (map Some dfs) (fm_name sf) of
        Some f \<Rightarrow> Some f
      | None \<Rightarrow> (if int i = renIdx \<and> 0 \<le> renIdx \<and> renIdx < int (length dfs) then Some (dfs ! i) else None))"

section \<open>Lines of a form\<close>

text \<open>\<^verbatim>\<open>Lines\<close> holds pairs; lines are numbered from 1.\<close>

definition spans :: "form_doc \<Rightarrow> (int \<times> int) list" where
  "spans f = map (\<lambda>sp. (sp ! 0, sp ! 1)) (fm_lines f)"

definition formAnchor :: "form_doc \<Rightarrow> int" where
  "formAnchor sf =
     (let a = foldl (\<lambda>a (st, en). if a = 0 \<or> st < a then st else a) 0 (spans sf) in if a = 0 then 1 else a)"

definition blockIndent :: "form_doc \<Rightarrow> form_doc \<Rightarrow> string" where
  "blockIndent sf df = (if fm_indent sf \<noteq> [] then fm_indent sf else if fm_indent df \<noteq> [] then fm_indent df else ''  '')"

definition markDeleted :: "form_doc \<Rightarrow> int list" where
  "markDeleted f = concat (map (\<lambda>(st, en). [st..en]) (spans f))"

definition is_blank :: "char \<Rightarrow> bool" where
  "is_blank c \<longleftrightarrow> c = CHR '' '' \<or> c = CHR 0x09"

definition trim_blank :: "string \<Rightarrow> string" where
  "trim_blank s = rev (dropWhile is_blank (rev (dropWhile is_blank s)))"

definition line_at :: "string list \<Rightarrow> int \<Rightarrow> string option" where
  "line_at ls k = (if 1 \<le> k \<and> k \<le> int (length ls) then Some (ls ! nat (k - 1)) else None)"

fun gap_lines :: "(int \<times> int) list \<Rightarrow> int list" where
  "gap_lines ((a, b) # (c, d) # sps) = [b + 1..c - 1] @ gap_lines ((c, d) # sps)"
| "gap_lines _ = []"

definition markBlankGaps :: "form_doc \<Rightarrow> string list \<Rightarrow> int list" where
  "markBlankGaps f ls =
     filter (\<lambda>k. case line_at ls k of None \<Rightarrow> False | Some l \<Rightarrow> trim_blank l = []) (gap_lines (spans f))"

definition trimmed_lines :: "string list \<Rightarrow> string list" where
  "trimmed_lines ls = filter (\<lambda>l. l \<noteq> []) (map trim_blank ls)"

definition ownedText :: "string list \<Rightarrow> form_doc \<Rightarrow> string" where
  "ownedText ls f = join_with nl (trimmed_lines (List.map_filter (line_at ls) (markDeleted f)))"

definition sigText :: "string \<Rightarrow> string" where
  "sigText block = join_with nl (trimmed_lines (split_on (CHR 0x0A) block))"

definition names_not_in :: "ctl list \<Rightarrow> form_doc \<Rightarrow> string list" where
  "names_not_in cs f = filter (\<lambda>n. \<not> hasCtrl f n) (map ct_name cs)"

definition patchOrphans :: "form_doc \<Rightarrow> form_doc \<Rightarrow> form_doc option" where
  "patchOrphans df sf =
     (if None \<in> set (fm_controls df) \<or> None \<in> set (fm_controls sf) then None
      else let removed = names_not_in (map the (fm_controls sf)) df;
               added = names_not_in (map the (fm_controls df)) sf;
               orphans = filter (\<lambda>n. n \<noteq> ''@form'' \<and> \<not> hasCtrl df n) (map fst (fm_handlers df))
           in Some (df\<lparr>fm_orphans := (if length orphans = 1 \<and> length removed = 1 \<and> length added = 1
                \<and> hd orphans = hd removed then orphans else [])\<rparr>))"

section \<open>The splice\<close>

record splice =
  sl_del :: "int list"
  sl_ins :: "(int \<times> string list) list"
  sl_max :: int
  sl_consumed :: "bool list"

definition drop_form :: "form_doc \<Rightarrow> string list \<Rightarrow> splice \<Rightarrow> splice" where
  "drop_form sf ls st = st\<lparr>sl_del := sl_del st @ markDeleted sf @ markBlankGaps sf ls\<rparr>"

definition insert_block :: "int \<Rightarrow> string \<Rightarrow> splice \<Rightarrow> splice" where
  "insert_block a block st =
     st\<lparr>sl_ins := AList.update a ((case map_of (sl_ins st) a of None \<Rightarrow> [] | Some bs \<Rightarrow> bs) @ [block]) (sl_ins st)\<rparr>"

definition generate :: "(nat \<Rightarrow> bool) \<Rightarrow> (go_float \<Rightarrow> string) \<Rightarrow> form_doc \<Rightarrow> string \<Rightarrow> bool \<Rightarrow> string option" where
  "generate pr ff f p show' = GenerateFormLua pr ff (Some f) p show'"

definition replace_form ::
  "(nat \<Rightarrow> bool) \<Rightarrow> (go_float \<Rightarrow> string) \<Rightarrow> string list \<Rightarrow> form_doc \<Rightarrow> form_doc \<Rightarrow> splice \<Rightarrow> splice option" where
  "replace_form pr ff ls df sf st =
     Option.bind (patchOrphans df sf) (\<lambda>f.
       map_option (\<lambda>block.
           if sigText block = ownedText ls sf then st
           else drop_form sf ls (insert_block (formAnchor sf) block st))
         (generate pr ff f (blockIndent sf df) (fm_has_show sf)))"

definition splice_form ::
  "(nat \<Rightarrow> bool) \<Rightarrow> (go_float \<Rightarrow> string) \<Rightarrow> (form_doc \<Rightarrow> form_json) \<Rightarrow> (form_doc \<Rightarrow> form_json) \<Rightarrow> string list \<Rightarrow>
   form_doc list \<Rightarrow> int \<Rightarrow> nat \<Rightarrow> form_doc \<Rightarrow> splice \<Rightarrow> splice option" where
  "splice_form pr ff ja jb ls dfs renIdx i sf st =
     (if fm_lines sf = [] then Some st
      else let st1 = st\<lparr>sl_max := foldl max (sl_max st) (map snd (spans sf)),
                        sl_consumed := (sl_consumed st)[i := True]\<rparr>
           in case docCounterpart dfs sf i renIdx of
                None \<Rightarrow> Some (drop_form sf ls st1)
              | Some df \<Rightarrow> if formEqual ja jb df sf then Some st1 else replace_form pr ff ls df sf st1)"

fun splice_forms ::
  "(nat \<Rightarrow> bool) \<Rightarrow> (go_float \<Rightarrow> string) \<Rightarrow> (form_doc \<Rightarrow> form_json) \<Rightarrow> (form_doc \<Rightarrow> form_json) \<Rightarrow> string list \<Rightarrow>
   form_doc list \<Rightarrow> int \<Rightarrow> nat \<Rightarrow> form_doc list \<Rightarrow> splice \<Rightarrow> splice option" where
  "splice_forms pr ff ja jb ls dfs renIdx i [] st = Some st"
| "splice_forms pr ff ja jb ls dfs renIdx i (sf # sfs) st =
     Option.bind (splice_form pr ff ja jb ls dfs renIdx i sf st) (splice_forms pr ff ja jb ls dfs renIdx (Suc i) sfs)"

definition is_new :: "form_doc list \<Rightarrow> form_doc list \<Rightarrow> bool list \<Rightarrow> int \<Rightarrow> form_doc \<Rightarrow> bool" where
  "is_new cur dfs consumed renIdx df \<longleftrightarrow>
     \<not> list_ex (\<lambda>(sf, used). fm_name df = fm_name sf \<and> used) (zip cur consumed)
     \<and> \<not> (0 \<le> renIdx \<and> renIdx < int (length dfs) \<and> fm_name (dfs ! nat renIdx) = fm_name df)"

definition insert_pos :: "splice \<Rightarrow> int \<Rightarrow> int" where
  "insert_pos st n =
     (if 0 < sl_max st then
        (case find (\<lambda>k. k \<notin> set (sl_del st)) [sl_max st + 1..n] of
           Some k \<Rightarrow> k
         | None \<Rightarrow> (case find (\<lambda>k. k \<notin> set (sl_del st)) (rev [1..sl_max st]) of
                      Some k \<Rightarrow> k + 1
                    | None \<Rightarrow> n + 1))
      else n + 1)"

definition line_pieces :: "splice \<Rightarrow> string list \<Rightarrow> string list \<Rightarrow> int \<Rightarrow> int \<Rightarrow> string list" where
  "line_pieces st ls news pos k =
     (case map_of (sl_ins st) k of None \<Rightarrow> [] | Some blk \<Rightarrow> if blk = [] then [] else [join_with nl blk])
     @ (if k = pos then news else [])
     @ (if k \<in> set (sl_del st) then [] else [ls ! nat (k - 1)])"

definition assemble :: "splice \<Rightarrow> string list \<Rightarrow> string list \<Rightarrow> string" where
  "assemble st ls news =
     (let n = int (length ls); pos = insert_pos st n
      in join_with nl (concat (map (line_pieces st ls news pos) [1..n]) @ (if n < pos then news else [])))"

fun collect_texts :: "string option list \<Rightarrow> string list option" where
  "collect_texts [] = Some []"
| "collect_texts (None # ts) = None"
| "collect_texts (Some t # ts) = map_option ((#) t) (collect_texts ts)"

definition blank_splice :: "form_doc list \<Rightarrow> splice" where
  "blank_splice cur = \<lparr>sl_del = [], sl_ins = [], sl_max = 0, sl_consumed = replicate (length cur) False\<rparr>"

definition splice_source ::
  "(nat \<Rightarrow> bool) \<Rightarrow> (go_float \<Rightarrow> string) \<Rightarrow> (form_doc \<Rightarrow> form_json) \<Rightarrow> (form_doc \<Rightarrow> form_json) \<Rightarrow> string \<Rightarrow>
   form_doc list \<Rightarrow> form_doc list \<Rightarrow> string option" where
  "splice_source pr ff ja jb source cur dfs =
     (let ls = split_on (CHR 0x0A) source; renIdx = renameIndex cur dfs in
      Option.bind (splice_forms pr ff ja jb ls dfs renIdx 0 cur (blank_splice cur)) (\<lambda>st.
        map_option (assemble st ls)
          (collect_texts (map (\<lambda>f. generate pr ff f ''  '' True) (filter (is_new cur dfs (sl_consumed st) renIdx) dfs)))))"

definition trim_right_nl :: "string \<Rightarrow> string" where
  "trim_right_nl s = rev (dropWhile (\<lambda>c. c = CHR 0x0A) (rev s))"

definition appendMainToScript :: "(nat \<Rightarrow> bool) \<Rightarrow> (go_float \<Rightarrow> string) \<Rightarrow> string \<Rightarrow> document \<Rightarrow> string option" where
  "appendMainToScript pr ff source doc =
     map_option (\<lambda>ts. trim_right_nl source @ nl @ nl @ ''function main()'' @ nl
         @ concat (map (\<lambda>t. concat (map (\<lambda>l. l @ nl) (split_on (CHR 0x0A) t))) ts) @ ''end'' @ nl)
       (collect_texts (map (\<lambda>f. GenerateFormLua pr ff f ''  '' True) (dc_forms doc)))"

definition RebuildLua ::
  "(nat \<Rightarrow> bool) \<Rightarrow> (go_float \<Rightarrow> string) \<Rightarrow> string \<Rightarrow> (string \<Rightarrow> string + form_doc list) \<Rightarrow> (form_doc \<Rightarrow> form_json) \<Rightarrow>
   (form_doc \<Rightarrow> form_json) \<Rightarrow> string \<Rightarrow> document \<Rightarrow> (string + string) option" where
  "RebuildLua pr ff now imp ja jb source doc =
     (if source = [] then map_option Inr (ExportLua pr ff now doc)
      else case imp source of
        Inl err \<Rightarrow>
          (if contains_str ''no k.form.new call found'' err then map_option Inr (appendMainToScript pr ff source doc)
           else map_option Inr (ExportLua pr ff now doc))
      | Inr [] \<Rightarrow> map_option Inr (appendMainToScript pr ff source doc)
      | Inr (c # cs) \<Rightarrow>
          (if None \<in> set (dc_forms doc) then None
           else map_option (\<lambda>final. case imp final of
                  Inl rerr \<Rightarrow> Inl (''assembled Lua failed to re-import ('' @ rerr @ ''); change not saved'')
                | Inr _ \<Rightarrow> Inr final)
              (splice_source pr ff ja jb source (c # cs) (map the (dc_forms doc)))))"

section \<open>Lines that survive\<close>

lemma split_on_break: "split_on c (a @ c # b) = split_on c a @ split_on c b"
proof (induction a)
  case (Cons x a)
  then show ?case by (cases "split_on c a") (auto simp: split_on_not_Nil [THEN notE] Let_def split: list.splits)
qed simp

lemma split_join_pieces: "ps \<noteq> [] \<Longrightarrow> split_on c (join_with [c] ps) = concat (map (split_on c) ps)"
  by (induction "[c]" ps rule: join_with.induct) (simp_all add: split_on_break)

definition owned_or_gap :: "string list \<Rightarrow> form_doc \<Rightarrow> int set" where
  "owned_or_gap ls sf = set (markDeleted sf) \<union> set (markBlankGaps sf ls)"

text \<open>The lines of the forms that were deleted or edited.\<close>

fun touched ::
  "(form_doc \<Rightarrow> form_json) \<Rightarrow> (form_doc \<Rightarrow> form_json) \<Rightarrow> string list \<Rightarrow> form_doc list \<Rightarrow> int \<Rightarrow> nat \<Rightarrow> form_doc list \<Rightarrow> int set" where
  "touched ja jb ls dfs renIdx i [] = {}"
| "touched ja jb ls dfs renIdx i (sf # sfs) =
     (case docCounterpart dfs sf i renIdx of
        None \<Rightarrow> owned_or_gap ls sf
      | Some df \<Rightarrow> if formEqual ja jb df sf then {} else owned_or_gap ls sf)
     \<union> touched ja jb ls dfs renIdx (Suc i) sfs"

lemma sl_drop_form [simp]: "set (sl_del (drop_form sf ls st)) = set (sl_del st) \<union> owned_or_gap ls sf"
  by (auto simp: drop_form_def owned_or_gap_def)

lemma sl_insert_block [simp]: "sl_del (insert_block a b st) = sl_del st"
  by (simp add: insert_block_def)

lemma replace_form_del:
  "replace_form pr ff ls df sf st = Some st' \<Longrightarrow> set (sl_del st') \<subseteq> set (sl_del st) \<union> owned_or_gap ls sf"
  by (auto simp: replace_form_def bind_eq_Some_conv split: if_splits)

lemma splice_form_del:
  "splice_form pr ff ja jb ls dfs renIdx i sf st = Some st' \<Longrightarrow>
   set (sl_del st') \<subseteq> set (sl_del st) \<union> (case docCounterpart dfs sf i renIdx of
        None \<Rightarrow> owned_or_gap ls sf
      | Some df \<Rightarrow> if formEqual ja jb df sf then {} else owned_or_gap ls sf)"
  by (auto simp: splice_form_def Let_def split: if_splits option.splits dest!: replace_form_del)

lemma splice_forms_del:
  "splice_forms pr ff ja jb ls dfs renIdx i sfs st = Some st' \<Longrightarrow>
   set (sl_del st') \<subseteq> set (sl_del st) \<union> touched ja jb ls dfs renIdx i sfs"
proof (induction sfs arbitrary: i st)
  case (Cons sf sfs)
  then obtain st1 where "splice_form pr ff ja jb ls dfs renIdx i sf st = Some st1"
    "splice_forms pr ff ja jb ls dfs renIdx (Suc i) sfs st1 = Some st'" by (auto simp: bind_eq_Some_conv)
  from splice_form_del [OF this(1)] Cons.IH [OF this(2)] show ?case by auto
qed simp

lemma kept_lines:
  assumes "\<forall>l\<in>set ls. CHR 0x0A \<notin> set l" and "\<forall>k\<in>set ks. 1 \<le> k \<and> k \<le> int (length ls)"
  shows "subseq (map (\<lambda>k. ls ! nat (k - 1)) (filter (\<lambda>k. k \<notin> set (sl_del st)) ks))
    (concat (map (split_on (CHR 0x0A)) (concat (map (line_pieces st ls news pos) ks))))"
  using assms(2)
proof (induction ks)
  case (Cons k ks)
  let ?blk = "case map_of (sl_ins st) k of None \<Rightarrow> [] | Some blk \<Rightarrow> if blk = [] then [] else [join_with nl blk]"
  have "ls ! nat (k - 1) \<in> set ls" using Cons.prems by (intro nth_mem) auto
  then have "split_on (CHR 0x0A) (ls ! nat (k - 1)) = [ls ! nat (k - 1)]" using assms(1) by (intro split_on_id) blast
  then have "subseq (if k \<in> set (sl_del st) then [] else [ls ! nat (k - 1)])
      (concat (map (split_on (CHR 0x0A)) (line_pieces st ls news pos k)))"
    by (simp add: line_pieces_def subseq_drop_many)
  then have "subseq ((if k \<in> set (sl_del st) then [] else [ls ! nat (k - 1)])
        @ map (\<lambda>k. ls ! nat (k - 1)) (filter (\<lambda>k. k \<notin> set (sl_del st)) ks))
      (concat (map (split_on (CHR 0x0A)) (line_pieces st ls news pos k))
        @ concat (map (split_on (CHR 0x0A)) (concat (map (line_pieces st ls news pos) ks))))"
    using Cons by (intro list_emb_append_mono) auto
  then show ?case by (simp split: if_splits)
qed simp

lemma assemble_keeps:
  assumes "\<forall>l\<in>set ls. CHR 0x0A \<notin> set l"
  shows "subseq (map (\<lambda>k. ls ! nat (k - 1)) (filter (\<lambda>k. k \<notin> set (sl_del st)) [1..int (length ls)]))
    (split_on (CHR 0x0A) (assemble st ls news))"
proof -
  let ?n = "int (length ls)"
  let ?pos = "insert_pos st ?n"
  let ?front = "concat (map (line_pieces st ls news ?pos) [1..?n])"
  let ?ps = "?front @ (if ?n < ?pos then news else [])"
  have k: "subseq (map (\<lambda>k. ls ! nat (k - 1)) (filter (\<lambda>k. k \<notin> set (sl_del st)) [1..?n]))
      (concat (map (split_on (CHR 0x0A)) ?front))"
    by (rule kept_lines [OF assms]) auto
  show ?thesis
  proof (cases "?ps = []")
    case True
    then have "concat (map (split_on (CHR 0x0A)) ?front) = []" by simp
    with k show ?thesis by (metis list_emb_Nil list_emb_Nil2)
  next
    case False
    have "split_on (CHR 0x0A) (assemble st ls news) = concat (map (split_on (CHR 0x0A)) ?ps)"
      unfolding assemble_def Let_def by (rule split_join_pieces [OF False])
    then show ?thesis using k by (simp only: map_append concat_append) (rule subseq_rev_drop_many)
  qed
qed

lemma subseq_filter_mono: "(\<And>x. P x \<Longrightarrow> Q x) \<Longrightarrow> subseq (filter P xs) (filter Q xs)"
  by (induction xs) auto


section \<open>Saving without edits\<close>

definition same_form :: "(form_doc \<Rightarrow> form_json) \<Rightarrow> (form_doc \<Rightarrow> form_json) \<Rightarrow> form_doc list \<Rightarrow> form_doc \<Rightarrow> bool" where
  "same_form ja jb dfs sf \<longleftrightarrow>
     fm_lines sf \<noteq> [] \<and> (case findForm (map Some dfs) (fm_name sf) of None \<Rightarrow> False | Some df \<Rightarrow> formEqual ja jb df sf)"

lemma splice_forms_same:
  "list_all (same_form ja jb dfs) sfs \<Longrightarrow> length (sl_consumed st) = i + length sfs \<Longrightarrow>
   \<exists>st'. splice_forms pr ff ja jb ls dfs renIdx i sfs st = Some st' \<and> sl_del st' = sl_del st \<and> sl_ins st' = sl_ins st
     \<and> length (sl_consumed st') = i + length sfs
     \<and> (\<forall>j<length (sl_consumed st'). i \<le> j \<or> sl_consumed st ! j \<longrightarrow> sl_consumed st' ! j)"
proof (induction sfs arbitrary: i st)
  case (Cons sf sfs)
  let ?st1 = "st\<lparr>sl_max := foldl max (sl_max st) (map snd (spans sf)), sl_consumed := (sl_consumed st)[i := True]\<rparr>"
  have "splice_form pr ff ja jb ls dfs renIdx i sf st = Some ?st1"
    using Cons.prems(1) by (auto simp: same_form_def splice_form_def docCounterpart_def split: option.splits)
  moreover obtain st' where "splice_forms pr ff ja jb ls dfs renIdx (Suc i) sfs ?st1 = Some st'"
    "sl_del st' = sl_del st" "sl_ins st' = sl_ins st" "length (sl_consumed st') = Suc i + length sfs"
    "\<forall>j<length (sl_consumed st'). Suc i \<le> j \<or> (sl_consumed st)[i := True] ! j \<longrightarrow> sl_consumed st' ! j"
    using Cons.IH [of ?st1 "Suc i"] Cons.prems by auto
  moreover from this have "\<forall>j<length (sl_consumed st'). i \<le> j \<or> sl_consumed st ! j \<longrightarrow> sl_consumed st' ! j"
  proof (intro allI impI)
    fix j assume j: "j < length (sl_consumed st')" "i \<le> j \<or> sl_consumed st ! j"
    have "Suc i \<le> j \<or> (sl_consumed st)[i := True] ! j" using j Cons.prems(2) by (cases "j = i") auto
    then show "sl_consumed st' ! j" using \<open>\<forall>j<length (sl_consumed st'). Suc i \<le> j \<or> _ \<longrightarrow> _\<close> j(1) by blast
  qed
  ultimately show ?case by simp
qed simp

lemma assemble_untouched:
  assumes "sl_del st = []" "sl_ins st = []"
  shows "assemble st (split_on (CHR 0x0A) source) [] = source"
proof -
  let ?ls = "split_on (CHR 0x0A) source"
  have "concat (map (line_pieces st ?ls [] pos) ks) = map (\<lambda>k. ?ls ! nat (k - 1)) ks" for pos ks
    by (induction ks) (simp_all add: line_pieces_def assms)
  moreover have "map (\<lambda>k. ?ls ! nat (k - 1)) [1..int (length ?ls)] = ?ls"
    by (rule nth_equalityI) auto
  ultimately show ?thesis by (simp add: assemble_def Let_def join_split_on)
qed

text \<open>Opening a source and saving it without edits gives the source back, byte for byte.\<close>

theorem rebuild_without_edits:
  assumes "source \<noteq> []" and "imp source = Inr cur" and "cur \<noteq> []" and "None \<notin> set (dc_forms doc)"
    and same: "list_all (same_form ja jb (map the (dc_forms doc))) cur"
    and old: "\<forall>df\<in>set (map the (dc_forms doc)). fm_name df \<in> fm_name ` set cur"
  shows "RebuildLua pr ff now imp ja jb source doc = Some (Inr source)"
proof -
  let ?dfs = "map the (dc_forms doc)" and ?ls = "split_on (CHR 0x0A) source"
  obtain c cs where cur: "cur = c # cs" using assms(3) by (cases cur) auto
  obtain st where st: "splice_forms pr ff ja jb ?ls ?dfs (renameIndex cur ?dfs) 0 cur (blank_splice cur) = Some st"
    "sl_del st = []" "sl_ins st = []" "length (sl_consumed st) = length cur"
    "\<forall>j<length (sl_consumed st). sl_consumed st ! j"
    using splice_forms_same [OF same, of "blank_splice cur" 0 pr ff ?ls "renameIndex cur ?dfs"]
    by (auto simp: blank_splice_def)
  have "\<not> is_new cur ?dfs (sl_consumed st) renIdx df" if "df \<in> set ?dfs" for df renIdx
  proof -
    obtain sf where "sf \<in> set cur" "fm_name df = fm_name sf" using old \<open>df \<in> set ?dfs\<close> by blast
    then obtain j where "j < length cur" "fm_name df = fm_name (cur ! j)" by (metis in_set_conv_nth)
    then show ?thesis using st(4,5) by (auto simp: is_new_def list_ex_iff set_zip)
  qed
  then have "filter (is_new cur ?dfs (sl_consumed st) (renameIndex cur ?dfs)) ?dfs = []" by (auto intro!: filter_False)
  then have "splice_source pr ff ja jb source cur ?dfs = Some source"
    using st(1) assemble_untouched [OF st(2,3)] by (simp add: splice_source_def Let_def)
  then show ?thesis using assms(1,2,4) by (auto simp: RebuildLua_def cur)
qed

definition demo_form :: "string \<Rightarrow> int \<Rightarrow> form_doc" where
  "demo_form name k = empty_form\<lparr>fm_name := name, fm_lines := [[k, k]]\<rparr>"

definition demo_doc :: "form_doc list \<Rightarrow> document" where
  "demo_doc fs = NewEmptyDoc\<lparr>dc_forms := map Some fs\<rparr>"

definition demo_json :: "form_doc \<Rightarrow> form_json" where
  "demo_json f = \<lparr>fj_cells = [], fj_controls = [], fj_handlers = [], fj_bodies = []\<rparr>"

lemma demo_simps [simp]:
  "fm_name (demo_form name k) = name" "fm_lines (demo_form name k) = [[k, k]]" "dc_forms (demo_doc fs) = map Some fs"
  "formEqual demo_json demo_json f f" "spans (demo_form name k) = [(k, k)]" "markDeleted (demo_form name k) = [k]"
  "markBlankGaps (demo_form name k) ls = []"
  by (simp_all add: demo_form_def demo_doc_def formEqual_def spans_def markDeleted_def markBlankGaps_def)

theorem rebuild_without_edits_witness:
  "RebuildLua (\<lambda>_. True) (\<lambda>_. []) [] (\<lambda>_. Inr [demo_form ''a'' 1]) demo_json demo_json ''form a'' (demo_doc [demo_form ''a'' 1])
   = Some (Inr ''form a'')"
  by (rule rebuild_without_edits [where cur = "[demo_form ''a'' 1]"]) (simp_all add: same_form_def)

lemma demo_delete:
  "RebuildLua (\<lambda>_. True) (\<lambda>_. []) [] (\<lambda>_. Inr [demo_form ''a'' 2]) demo_json demo_json
     (''x'' @ nl @ ''form a'' @ nl @ ''y'') (demo_doc []) = Some (Inr (''x'' @ nl @ ''y''))"
  by (simp add: RebuildLua_def splice_source_def renameIndex_def splice_form_def docCounterpart_def drop_form_def
      blank_splice_def assemble_def insert_pos_def line_pieces_def upto.simps Let_def)


section \<open>What a save loses\<close>

text \<open>Two forms that share a source line: deleting one deletes the statement of the other, and the
  result parses.\<close>

theorem shared_line_lost:
  "RebuildLua (\<lambda>_. True) (\<lambda>_. []) [] (\<lambda>s. Inr [demo_form ''a'' 1, demo_form ''b'' 1, demo_form ''c'' 2]) demo_json demo_json
     (''form a form b'' @ nl @ ''form c'') (demo_doc [demo_form ''b'' 1, demo_form ''c'' 2]) = Some (Inr ''form c'')"
  by (simp add: RebuildLua_def splice_source_def renameIndex_def splice_form_def docCounterpart_def drop_form_def
      blank_splice_def assemble_def insert_pos_def line_pieces_def upto.simps is_new_def Let_def)

text \<open>The options of \<^verbatim>\<open>k.form.show\<close> are not compared, so an edit of them alone is not saved; and a
  slice that is nil on one side and empty on the other makes a form count as edited.\<close>

theorem show_options_not_compared:
  "ja (f\<lparr>fm_modal := m, fm_gap_x := x, fm_gap_y := y\<rparr>) = ja f \<Longrightarrow>
   formEqual ja jb (f\<lparr>fm_modal := m, fm_gap_x := x, fm_gap_y := y\<rparr>) sf = formEqual ja jb f sf"
  by (simp add: formEqual_def)

theorem nil_slice_counts_as_edit:
  "fj_controls (ja f) = ''[]'' \<Longrightarrow> fj_controls (jb sf) = ''null'' \<Longrightarrow> \<not> formEqual ja jb f sf"
  by (simp add: formEqual_def)

text \<open>A script without forms gets a \<^verbatim>\<open>function main()\<close> appended, whether or not it has one already, and
  nothing checks that the result parses.\<close>

theorem script_without_forms_gets_main:
  "source \<noteq> [] \<Longrightarrow> imp source = Inr [] \<Longrightarrow> None \<notin> set (map (\<lambda>f. GenerateFormLua pr ff f ''  '' True) (dc_forms doc)) \<Longrightarrow>
   \<exists>t. RebuildLua pr ff now imp ja jb source doc = Some (Inr (trim_right_nl source @ nl @ nl @ ''function main()'' @ nl @ t))"
proof -
  have "collect_texts ts \<noteq> None" if "None \<notin> set ts" for ts
    using that by (induction ts rule: collect_texts.induct) auto
  then show "source \<noteq> [] \<Longrightarrow> imp source = Inr [] \<Longrightarrow> None \<notin> set (map (\<lambda>f. GenerateFormLua pr ff f ''  '' True) (dc_forms doc)) \<Longrightarrow>
    \<exists>t. RebuildLua pr ff now imp ja jb source doc = Some (Inr (trim_right_nl source @ nl @ nl @ ''function main()'' @ nl @ t))"
    by (fastforce simp: RebuildLua_def appendMainToScript_def)
qed

end
