(* ===== verification/Expr_Dates.thy ===== *)
theory Expr_Dates
  imports Complex_Main Go_Text "HOL-Library.Signed_Division"
begin

text \<open>
  The date functions that scripts call as globals, \<^verbatim>\<open>internal/bindings/funcs.go\<close>: parsing and
  printing of dates, day arithmetic and differences, over the part of Go's \<^verbatim>\<open>time\<close> package they
  use. A time is its wall clock; the day number counts days in the proleptic Gregorian calendar. The
  arithmetic on day counts is exact, as Go's is for counts that do not leave its 64-bit seconds.
\<close>

section \<open>The calendar\<close>

record wall =
  w_year :: int
  w_month :: int
  w_day :: int
  w_hour :: int
  w_min :: int
  w_sec :: int
  w_ns :: int

definition leap :: "int \<Rightarrow> bool" where
  "leap y \<longleftrightarrow> 4 dvd y \<and> (\<not> 100 dvd y \<or> 400 dvd y)"

definition daysIn :: "int \<Rightarrow> int \<Rightarrow> int" where
  "daysIn m y = (if m = 2 then (if leap y then 29 else 28) else if m \<in> {4, 6, 9, 11} then 30 else 31)"

text \<open>Days before a year, and before a month of a year that may be a leap year.\<close>

definition year_start :: "int \<Rightarrow> int" where
  "year_start y = 365 * y + (y + 3) div 4 - (y + 99) div 100 + (y + 399) div 400"

definition month_start :: "bool \<Rightarrow> int \<Rightarrow> int" where
  "month_start lp m = (367 * m - 362) div 12 + (if m \<le> 2 then 0 else if lp then -1 else -2)"

definition day_number :: "int \<Rightarrow> int \<Rightarrow> int \<Rightarrow> int" where
  "day_number y m d = year_start y + month_start (leap y) m + (d - 1)"

text \<open>The year a day falls in: the estimate from the mean length of a year is off by one at most.\<close>

definition year_of :: "int \<Rightarrow> int" where
  "year_of n =
     (let y = 400 * n div 146097
      in if year_start (y + 1) \<le> n then y + 1 else if year_start y \<le> n then y else y - 1)"

definition month_of :: "bool \<Rightarrow> int \<Rightarrow> int" where
  "month_of lp yd = (case find (\<lambda>m. yd < month_start lp (m + 1)) [1..11] of Some m \<Rightarrow> m | None \<Rightarrow> 12)"

definition civil :: "int \<Rightarrow> int \<times> int \<times> int" where
  "civil n =
     (let y = year_of n; yd = n - year_start y; m = month_of (leap y) yd
      in (y, m, yd - month_start (leap y) m + 1))"

section \<open>Reading dates\<close>

definition getnum :: "bool \<Rightarrow> string \<Rightarrow> (int \<times> string) option" where
  "getnum fixed s =
     (case s of
        [] \<Rightarrow> None
      | c # cs \<Rightarrow>
          if \<not> is_digit c then None
          else (case cs of
                  [] \<Rightarrow> (if fixed then None else Some (int (digit_val c), cs))
                | d # r \<Rightarrow> (if is_digit d then Some (int (10 * digit_val c + digit_val d), r)
                           else if fixed then None else Some (int (digit_val c), cs))))"

definition skip_char :: "char \<Rightarrow> string \<Rightarrow> string option" where
  "skip_char c s = (case s of [] \<Rightarrow> None | x # xs \<Rightarrow> if x = c then Some xs else None)"

definition skip_spaces :: "string \<Rightarrow> string option" where
  "skip_spaces s = (if s \<noteq> [] \<and> hd s \<noteq> CHR '' '' then None else Some (dropWhile (\<lambda>c. c = CHR '' '') s))"

definition getyear :: "string \<Rightarrow> (int \<times> string) option" where
  "getyear s = (if 4 \<le> length s \<and> list_all is_digit (take 4 s) then Some (int (digits_value (take 4 s)), drop 4 s) else None)"

definition between :: "int \<Rightarrow> int \<Rightarrow> (int \<times> string) option \<Rightarrow> (int \<times> string) option" where
  "between lo hi r = (case r of Some (v, s) \<Rightarrow> if lo \<le> v \<and> v \<le> hi then Some (v, s) else None | None \<Rightarrow> None)"

text \<open>A fraction may follow the seconds although no layout asks for it: nine digits count.\<close>

definition getfraction :: "string \<Rightarrow> int \<times> string" where
  "getfraction s =
     (case s of
        p # d # r \<Rightarrow>
          (if (p = CHR ''.'' \<or> p = CHR '','') \<and> is_digit d then
             (let ds = takeWhile is_digit (d # r); used = take 9 ds
              in (int (digits_value used) * 10 ^ (9 - length used), dropWhile is_digit (d # r)))
           else (0, s))
      | _ \<Rightarrow> (0, s))"

definition parse_ymd :: "string \<Rightarrow> ((int \<times> int \<times> int) \<times> string) option" where
  "parse_ymd s =
     Option.bind (getyear s) (\<lambda>(y, s). Option.bind (skip_char (CHR ''-'') s) (\<lambda>s.
     Option.bind (between 1 12 (getnum True s)) (\<lambda>(m, s). Option.bind (skip_char (CHR ''-'') s) (\<lambda>s.
     map_option (\<lambda>(d, s). ((y, m, d), s)) (getnum True s)))))"

definition parse_hm :: "string \<Rightarrow> ((int \<times> int) \<times> string) option" where
  "parse_hm s =
     Option.bind (skip_spaces s) (\<lambda>s. Option.bind (between 0 23 (getnum False s)) (\<lambda>(h, s).
     Option.bind (skip_char (CHR '':'') s) (\<lambda>s. map_option (\<lambda>(mi, s). ((h, mi), s)) (between 0 59 (getnum True s)))))"

definition parse_s :: "string \<Rightarrow> ((int \<times> int) \<times> string) option" where
  "parse_s s =
     Option.bind (skip_char (CHR '':'') s) (\<lambda>s.
     map_option (\<lambda>(sec, s). let (ns, r) = getfraction s in ((sec, ns), r)) (between 0 59 (getnum True s)))"

definition make_wall :: "int \<times> int \<times> int \<Rightarrow> int \<times> int \<Rightarrow> int \<times> int \<Rightarrow> string \<Rightarrow> wall option" where
  "make_wall ymd hm sn rest =
     (case (ymd, hm, sn) of ((y, m, d), (h, mi), (sec, ns)) \<Rightarrow>
        if rest = [] \<and> 1 \<le> d \<and> d \<le> daysIn m y
        then Some \<lparr>w_year = y, w_month = m, w_day = d, w_hour = h, w_min = mi, w_sec = sec, w_ns = ns\<rparr> else None)"

definition parse_layout :: "nat \<Rightarrow> string \<Rightarrow> wall option" where
  "parse_layout parts s =
     Option.bind (parse_ymd s) (\<lambda>(ymd, s).
       if parts = 0 then make_wall ymd (0, 0) (0, 0) s
       else Option.bind (parse_hm s) (\<lambda>(hm, s).
         if parts = 1 then make_wall ymd hm (0, 0) s
         else Option.bind (parse_s s) (\<lambda>(sn, s). make_wall ymd hm sn s)))"

definition parseDateStr :: "string \<Rightarrow> wall option" where
  "parseDateStr s =
     (let t = trim_space s in
      case parse_layout 2 t of Some w \<Rightarrow> Some w
      | None \<Rightarrow> (case parse_layout 1 t of Some w \<Rightarrow> Some w | None \<Rightarrow> parse_layout 0 t))"

section \<open>Printing dates\<close>

definition pad_left :: "nat \<Rightarrow> int \<Rightarrow> string" where
  "pad_left k n =
     (let s = itoa \<bar>n\<bar> in (if n < 0 then ''-'' else []) @ replicate (k - length s) (CHR ''0'') @ s)"

definition iso_date :: "wall \<Rightarrow> string" where
  "iso_date w = pad_left 4 (w_year w) @ ''-'' @ pad_left 2 (w_month w) @ ''-'' @ pad_left 2 (w_day w)"

definition iso_time :: "wall \<Rightarrow> string" where
  "iso_time w = pad_left 2 (w_hour w) @ '':'' @ pad_left 2 (w_min w) @ '':'' @ pad_left 2 (w_sec w)"

definition format_token :: "wall \<Rightarrow> char \<Rightarrow> string" where
  "format_token w c =
     (if c = CHR ''Y'' then itoa (w_year w) else if c = CHR ''y'' then itoa (w_year w smod 100)
      else if c = CHR ''m'' then pad_left 2 (w_month w) else if c = CHR ''d'' then pad_left 2 (w_day w)
      else if c = CHR ''H'' then pad_left 2 (w_hour w) else if c = CHR ''M'' then pad_left 2 (w_min w)
      else if c = CHR ''S'' then pad_left 2 (w_sec w) else if c = CHR ''%'' then ''%'' else [CHR ''%'', c])"

fun formatDate :: "wall \<Rightarrow> string \<Rightarrow> string" where
  "formatDate w [] = []"
| "formatDate w [c] = [c]"
| "formatDate w (c # d # cs) =
     (if c = CHR ''%'' then format_token w d @ formatDate w cs else c # formatDate w (d # cs))"

section \<open>Arithmetic\<close>

definition ns_per_day :: int where "ns_per_day = 86400 * 10 ^ 9"

definition day_ns :: "wall \<Rightarrow> int" where
  "day_ns w = ((w_hour w * 60 + w_min w) * 60 + w_sec w) * 10 ^ 9 + w_ns w"

text \<open>The nanoseconds since 0000-01-01, and the wall clock that shows them.\<close>

definition abs_ns :: "wall \<Rightarrow> int" where
  "abs_ns w = day_number (w_year w) (w_month w) (w_day w) * ns_per_day + day_ns w"

definition wall_of :: "int \<Rightarrow> wall" where
  "wall_of t =
     (let (y, m, d) = civil (t div ns_per_day); r = t mod ns_per_day; s = r div 10 ^ 9
      in \<lparr>w_year = y, w_month = m, w_day = d, w_hour = s div 3600, w_min = s div 60 mod 60, w_sec = s mod 60,
          w_ns = r mod 10 ^ 9\<rparr>)"

text \<open>\<^verbatim>\<open>time.Date\<close> with a month and a day that may lie outside their ranges.\<close>

definition go_Date :: "int \<Rightarrow> int \<Rightarrow> int \<Rightarrow> int \<Rightarrow> int \<Rightarrow> int \<Rightarrow> int \<Rightarrow> wall" where
  "go_Date y m d h mi s ns =
     (let y' = y + (m - 1) div 12; m' = (m - 1) mod 12 + 1
      in wall_of ((day_number y' m' 1 + (d - 1)) * ns_per_day + ((h * 60 + mi) * 60 + s) * 10 ^ 9 + ns))"

definition AddDate_days :: "wall \<Rightarrow> int \<Rightarrow> wall" where
  "AddDate_days w n = go_Date (w_year w) (w_month w) (w_day w + n) (w_hour w) (w_min w) (w_sec w) (w_ns w)"

definition add_days :: "string \<Rightarrow> int \<Rightarrow> string option" where
  "add_days s n = map_option (\<lambda>w. iso_date (AddDate_days w n)) (parseDateStr s)"

definition subtract_days :: "string \<Rightarrow> int \<Rightarrow> string option" where
  "subtract_days s n = map_option (\<lambda>w. iso_date (AddDate_days w (wrap64 (- n)))) (parseDateStr s)"

text \<open>\<^verbatim>\<open>Sub\<close> saturates at the ends of a 64-bit count of nanoseconds.\<close>

definition Sub :: "wall \<Rightarrow> wall \<Rightarrow> int" where
  "Sub t u = (let d = abs_ns t - abs_ns u in if d < min_int64 then min_int64 else if max_int64 < d then max_int64 else d)"

definition round_away :: "rat \<Rightarrow> int" where
  "round_away q = (if 0 \<le> q then floor (q + 1 / 2) else - floor (- q + 1 / 2))"

text \<open>\<open>fl\<close> rounds a rational to the nearest \<^verbatim>\<open>float64\<close>.\<close>

definition ns_per_hour :: int where "ns_per_hour = 3600 * 10 ^ 9"

definition Hours :: "(rat \<Rightarrow> rat) \<Rightarrow> int \<Rightarrow> rat" where
  "Hours fl d = fl (fl (of_int (d sdiv ns_per_hour)) + fl (fl (of_int (d smod ns_per_hour)) / fl (of_int ns_per_hour)))"

definition date_diff :: "(rat \<Rightarrow> rat) \<Rightarrow> string \<Rightarrow> string \<Rightarrow> int option" where
  "date_diff fl s2 s1 =
     (case (parseDateStr s2, parseDateStr s1) of
        (Some t2, Some t1) \<Rightarrow> Some (round_away (fl (Hours fl (Sub t2 t1) / 24)))
      | _ \<Rightarrow> None)"

definition duration_of :: "int \<Rightarrow> int \<Rightarrow> int \<Rightarrow> int" where
  "duration_of h mi s = wrap64 (wrap64 (wrap64 (h * (3600 * 10 ^ 9)) + wrap64 (mi * (60 * 10 ^ 9))) + wrap64 (s * 10 ^ 9))"

definition datetime_add :: "string \<Rightarrow> int \<Rightarrow> int \<Rightarrow> int \<Rightarrow> int \<Rightarrow> string option" where
  "datetime_add s days h mi sec =
     map_option (\<lambda>w. let t = wall_of (abs_ns (AddDate_days w days) + duration_of h mi sec) in iso_date t @ '' '' @ iso_time t)
       (parseDateStr s)"

definition datetime_sub :: "string \<Rightarrow> int \<Rightarrow> int \<Rightarrow> int \<Rightarrow> int \<Rightarrow> string option" where
  "datetime_sub s days h mi sec =
     map_option (\<lambda>w. let t = wall_of (abs_ns (AddDate_days w (wrap64 (- days))) + wrap64 (- duration_of h mi sec))
                     in iso_date t @ '' '' @ iso_time t)
       (parseDateStr s)"

definition julianDay :: "wall \<Rightarrow> int" where
  "julianDay t =
     (let y = w_year t; m = w_month t; d = w_day t; a = (14 - m) sdiv 12; yy = y + 4800 - a; mm = m + 12 * a - 3
      in d + (153 * mm + 2) sdiv 5 + 365 * yy + yy sdiv 4 - yy sdiv 100 + yy sdiv 400 - 32045)"

section \<open>Reading with a format\<close>

datatype fmt_token = Tok char | Lit char

fun fmt_tokens :: "string \<Rightarrow> fmt_token list" where
  "fmt_tokens [] = []"
| "fmt_tokens [c] = [Lit c]"
| "fmt_tokens (c # d # cs) =
     (if c = CHR ''%'' then (if d \<in> set ''YymdHMS'' then Tok d else Lit d) # fmt_tokens cs
      else Lit c # fmt_tokens (d # cs))"

datatype fmt_error = ExpectedField char | ExpectedLiteral char nat

record fmt_fields =
  f_year :: int
  f_month :: int
  f_day :: int
  f_hour :: int
  f_min :: int
  f_sec :: int

definition no_fields :: fmt_fields where
  "no_fields = \<lparr>f_year = 0, f_month = 0, f_day = 0, f_hour = 0, f_min = 0, f_sec = 0\<rparr>"

definition getDayN :: "string \<Rightarrow> nat \<Rightarrow> nat \<Rightarrow> int \<Rightarrow> (int \<times> nat) option" where
  "getDayN s idx n mx =
     (if length s < idx + n then None
      else case parse_int64 (take n (drop idx s)) of
             None \<Rightarrow> None
           | Some v \<Rightarrow> (if mx < v then None else Some (v, idx + n)))"

definition field_token :: "string \<Rightarrow> char \<Rightarrow> nat \<Rightarrow> fmt_fields \<Rightarrow> (fmt_fields \<times> nat) option" where
  "field_token s c idx f =
     (if c = CHR ''Y'' then map_option (\<lambda>(v, i). (f\<lparr>f_year := v\<rparr>, i)) (getDayN s idx 4 9999)
      else if c = CHR ''y'' then map_option (\<lambda>(v, i). (f\<lparr>f_year := 2000 + v\<rparr>, i)) (getDayN s idx 2 99)
      else if c = CHR ''m'' then map_option (\<lambda>(v, i). (f\<lparr>f_month := v\<rparr>, i)) (getDayN s idx 2 12)
      else if c = CHR ''d'' then map_option (\<lambda>(v, i). (f\<lparr>f_day := v\<rparr>, i)) (getDayN s idx 2 31)
      else if c = CHR ''H'' then map_option (\<lambda>(v, i). (f\<lparr>f_hour := v\<rparr>, i)) (getDayN s idx 2 23)
      else if c = CHR ''M'' then map_option (\<lambda>(v, i). (f\<lparr>f_min := v\<rparr>, i)) (getDayN s idx 2 59)
      else if c = CHR ''S'' then map_option (\<lambda>(v, i). (f\<lparr>f_sec := v\<rparr>, i)) (getDayN s idx 2 59)
      else Some (f, idx))"

fun read_fields :: "string \<Rightarrow> fmt_token list \<Rightarrow> nat \<Rightarrow> fmt_fields \<Rightarrow> fmt_error + fmt_fields" where
  "read_fields s [] idx f = Inr f"
| "read_fields s (Tok c # ts) idx f =
     (case field_token s c idx f of None \<Rightarrow> Inl (ExpectedField c) | Some (f', i) \<Rightarrow> read_fields s ts i f')"
| "read_fields s (Lit c # ts) idx f =
     (if length s \<le> idx \<or> s ! idx \<noteq> c then Inl (ExpectedLiteral c idx) else read_fields s ts (idx + 1) f)"

text \<open>\<open>local\<close> makes a wall clock one that exists in the host's zone.\<close>

definition parseWithFormat :: "(wall \<Rightarrow> wall) \<Rightarrow> string \<Rightarrow> string \<Rightarrow> fmt_error + wall" where
  "parseWithFormat local s format =
     (case parseDateStr s of
        Some t \<Rightarrow> Inr t
      | None \<Rightarrow> (case read_fields s (fmt_tokens format) 0 no_fields of
          Inl e \<Rightarrow> Inl e
        | Inr f \<Rightarrow> Inr (local (go_Date (f_year f) (f_month f) (f_day f) (f_hour f) (f_min f) (f_sec f) 0))))"

definition strtodate :: "(wall \<Rightarrow> wall) \<Rightarrow> string \<Rightarrow> string \<Rightarrow> string option" where
  "strtodate local s format =
     (if format \<noteq> [] then (case parseWithFormat local s format of Inl e \<Rightarrow> None | Inr t \<Rightarrow> Some (iso_date t))
      else map_option iso_date (parseDateStr s))"

text \<open>The functions that read one field; the error they raise names the text.\<close>

definition day :: "string \<Rightarrow> int option" where "day s = map_option w_day (parseDateStr s)"
definition month :: "string \<Rightarrow> int option" where "month s = map_option w_month (parseDateStr s)"
definition year :: "string \<Rightarrow> int option" where "year s = map_option w_year (parseDateStr s)"
definition hour :: "string \<Rightarrow> int option" where "hour s = map_option w_hour (parseDateStr s)"
definition minute :: "string \<Rightarrow> int option" where "minute s = map_option w_min (parseDateStr s)"
definition second :: "string \<Rightarrow> int option" where "second s = map_option w_sec (parseDateStr s)"
definition julian :: "string \<Rightarrow> int option" where "julian s = map_option julianDay (parseDateStr s)"
definition todate :: "string \<Rightarrow> string option" where "todate s = map_option iso_date (parseDateStr s)"

definition week_day :: "string \<Rightarrow> int option" where
  "week_day s = map_option (\<lambda>w. (day_number (w_year w) (w_month w) (w_day w) + 6) mod 7 + 1) (parseDateStr s)"

definition time_to_string :: "string \<Rightarrow> string \<Rightarrow> string option" where
  "time_to_string s format = map_option (\<lambda>t. formatDate t format) (parseDateStr s)"

definition date_to_string :: "string \<Rightarrow> string \<Rightarrow> string option" where
  "date_to_string s format = map_option (\<lambda>t. formatDate t format) (parseDateStr s)"

section \<open>Properties of the calendar\<close>

lemma div_up:
  fixes b y :: int
  assumes "0 < b" "c = b - 1"
  shows "(y + b) div b = (y + c) div b + (if b dvd y then 1 else 0)"
proof -
  define q r where "q = y div b" and "r = y mod b"
  have y: "y = b * q + r" "0 \<le> r" "r < b" using assms(1) by (simp_all add: q_def r_def)
  have "(y + b) div b = q + 1" by (rule int_div_pos_eq [where r = r]) (use y in \<open>simp_all add: algebra_simps\<close>)
  moreover have "(y + c) div b = (if r = 0 then q else q + 1)"
  proof (cases "r = 0")
    case True
    have "(y + c) div b = q" by (rule int_div_pos_eq [where r = c]) (use True y assms in simp_all)
    then show ?thesis using True by simp
  next
    case False
    have "(y + c) div b = q + 1"
      by (rule int_div_pos_eq [where r = "r - 1"]) (use False y assms in \<open>simp_all add: algebra_simps\<close>)
    then show ?thesis using False by simp
  qed
  moreover have "b dvd y \<longleftrightarrow> r = 0" by (simp add: r_def dvd_eq_mod_eq_0)
  ultimately show ?thesis by simp
qed

lemma div_up_bounds:
  fixes b y :: int
  assumes "0 < b" "c = b - 1"
  shows "y \<le> b * ((y + c) div b)" "b * ((y + c) div b) \<le> y + c"
proof -
  have "b * ((y + c) div b) = y + c - (y + c) mod b" by (simp add: minus_mod_eq_mult_div)
  then show "y \<le> b * ((y + c) div b)" "b * ((y + c) div b) \<le> y + c"
    using pos_mod_bound [OF assms(1), of "y + c"] pos_mod_sign [OF assms(1), of "y + c"] assms(2) by linarith+
qed

lemma dvd_400: "400 dvd y \<Longrightarrow> 100 dvd y" "100 dvd y \<Longrightarrow> 4 dvd y" for y :: int
  by (auto elim: dvd_trans [rotated])

text \<open>Days before the end of year \<open>y\<close>.\<close>

lemma leap_count: "(r \<longrightarrow> q) \<Longrightarrow> (q \<longrightarrow> p) \<Longrightarrow> (if p \<and> (\<not> q \<or> r) then 366 else 365 :: int)
    = 365 + (if p then 1 else 0) - (if q then 1 else 0) + (if r then 1 else 0)"
  by (cases r; cases q; cases p; simp)

lemma leap_days: "(if leap y then 366 else 365 :: int)
    = 365 + (if 4 dvd y then 1 else 0) - (if 100 dvd y then 1 else 0) + (if 400 dvd y then 1 else 0)"
  unfolding leap_def by (rule leap_count) (use dvd_400 in blast)+

lemma div_shift: "x = z + k * b \<Longrightarrow> 0 < b \<Longrightarrow> x div b = z div b + k" for b :: int
  by simp

lemma year_end: "365 * y + 365 + (y + 4) div 4 - (y + 100) div 100 + (y + 400) div 400 = year_start y + (if leap y then 366 else 365)"
proof -
  have a: "(y + 4) div 4 = (y + 3) div 4 + (if 4 dvd y then 1 else 0)"
    and b: "(y + 100) div 100 = (y + 99) div 100 + (if 100 dvd y then 1 else 0)"
    and c: "(y + 400) div 400 = (y + 399) div 400 + (if 400 dvd y then 1 else 0)" by (rule div_up; simp)+
  define A B C where "A = (y + 3) div 4" and "B = (y + 99) div 100" and "C = (y + 399) div 400"
  show ?thesis
    unfolding leap_days a b c year_start_def A_def [symmetric] B_def [symmetric] C_def [symmetric] by simp
qed

lemma year_start_Suc: "year_start (y + 1) = year_start y + (if leap y then 366 else 365)"
proof -
  have "y + 1 + 3 = y + 4" "y + 1 + 99 = y + 100" "y + 1 + 399 = y + 400" "365 * (y + 1) = 365 * y + 365" by simp_all
  then have "year_start (y + 1) = 365 * y + 365 + (y + 4) div 4 - (y + 100) div 100 + (y + 400) div 400"
    by (simp only: year_start_def)
  then show ?thesis by (simp only: year_end)
qed

lemma year_start_bounds: "146097 * y - 396 \<le> 400 * year_start y" "400 * year_start y \<le> 146097 * y + 699"
proof -
  define A B C where "A = (y + 3) div 4" and "B = (y + 99) div 100" and "C = (y + 399) div 400"
  have b: "y \<le> 4 * A" "4 * A \<le> y + 3" "y \<le> 100 * B" "100 * B \<le> y + 99" "y \<le> 400 * C" "400 * C \<le> y + 399"
    unfolding A_def B_def C_def by (rule div_up_bounds; simp)+
  have "400 * year_start y = 146000 * y + 100 * (4 * A) - 4 * (100 * B) + 400 * C"
    unfolding year_start_def A_def [symmetric] B_def [symmetric] C_def [symmetric] by simp
  then show "146097 * y - 396 \<le> 400 * year_start y" "400 * year_start y \<le> 146097 * y + 699"
    using b by linarith+
qed

lemma year_of_bounds: "year_start (year_of n) \<le> n" "n < year_start (year_of n + 1)"
proof -
  define y where "y = 400 * n div 146097"
  define r where "r = 400 * n mod 146097"
  have "400 * n = 146097 * y + r" "0 \<le> r" "r < 146097" by (simp_all add: y_def r_def)
  then have y: "146097 * y \<le> 400 * n" "400 * n < 146097 * y + 146097" by linarith+
  have lo: "year_start (y - 1) \<le> n" using year_start_bounds(2) [of "y - 1", unfolded right_diff_distrib] y by linarith
  have hi: "n < year_start (y + 2)" using year_start_bounds(1) [of "y + 2", unfolded distrib_left] y by linarith
  have "year_of n = (if year_start (y + 1) \<le> n then y + 1 else if year_start y \<le> n then y else y - 1)"
    by (simp add: year_of_def y_def Let_def)
  then show "year_start (year_of n) \<le> n" "n < year_start (year_of n + 1)" using lo hi by (auto simp: add.commute)
qed

lemma year_start_mono: "a \<le> b \<Longrightarrow> year_start a \<le> year_start b"
proof (induction b rule: int_ge_induct)
  case (step b)
  then show ?case using year_start_Suc [of b] by (simp split: if_splits)
qed simp

lemma year_of_unique: "year_start y \<le> n \<Longrightarrow> n < year_start (y + 1) \<Longrightarrow> year_of n = y"
  using year_of_bounds [of n] year_start_mono [of "y + 1" "year_of n"] year_start_mono [of "year_of n + 1" y]
  by linarith

lemma month_start_table:
  "month_start lp 1 = 0" "month_start lp 2 = 31" "month_start lp 3 = (if lp then 60 else 59)"
  "month_start lp 4 = (if lp then 91 else 90)" "month_start lp 5 = (if lp then 121 else 120)"
  "month_start lp 6 = (if lp then 152 else 151)" "month_start lp 7 = (if lp then 182 else 181)"
  "month_start lp 8 = (if lp then 213 else 212)" "month_start lp 9 = (if lp then 244 else 243)"
  "month_start lp 10 = (if lp then 274 else 273)" "month_start lp 11 = (if lp then 305 else 304)"
  "month_start lp 12 = (if lp then 335 else 334)" "month_start lp 13 = (if lp then 366 else 365)"
  by (simp_all add: month_start_def)

lemma month_cases: "1 \<le> m \<Longrightarrow> m \<le> 12 \<Longrightarrow> m \<in> {1, 2, 3, 4, 5, 6, 7, 8, 9, 10, 11, 12 :: int}"
  by simp presburger

lemma month_start_Suc: "1 \<le> m \<Longrightarrow> m \<le> 12 \<Longrightarrow> month_start (leap y) (m + 1) = month_start (leap y) m + daysIn m y"
  by (drule month_cases, assumption) (auto simp: month_start_table daysIn_def)

lemma month_of_unique:
  assumes "1 \<le> m" "m \<le> 12" "month_start lp m \<le> yd" "yd < month_start lp (m + 1)"
  shows "month_of lp yd = m"
proof -
  have "[1..11] = [1, 2, 3, 4, 5, 6, 7, 8, 9, 10, 11 :: int]" by (simp add: upto.simps)
  then show ?thesis
    using month_cases [OF assms(1,2)] assms(3,4)
    by (elim insertE emptyE) (auto simp: month_of_def month_start_table split: if_splits)
qed

definition valid_date :: "int \<Rightarrow> int \<Rightarrow> int \<Rightarrow> bool" where
  "valid_date y m d \<longleftrightarrow> 1 \<le> m \<and> m \<le> 12 \<and> 1 \<le> d \<and> d \<le> daysIn m y"

lemma month_start_bounds: "1 \<le> m \<Longrightarrow> m \<le> 12 \<Longrightarrow> 0 \<le> month_start (leap y) m \<and> month_start (leap y) m + daysIn m y \<le> (if leap y then 366 else 365)"
  by (drule month_cases, assumption) (auto simp: month_start_table daysIn_def)

lemma civil_day_number: "valid_date y m d \<Longrightarrow> civil (day_number y m d) = (y, m, d)"
proof -
  assume v: "valid_date y m d"
  then have m: "1 \<le> m" "m \<le> 12" by (simp_all add: valid_date_def)
  let ?yd = "month_start (leap y) m + (d - 1)"
  have yd: "0 \<le> ?yd" "?yd < (if leap y then 366 else 365)"
    using month_start_bounds [OF m, of y] v by (auto simp: valid_date_def)
  then have "year_of (day_number y m d) = y"
    by (intro year_of_unique) (auto simp: day_number_def year_start_Suc)
  moreover have "month_of (leap y) ?yd = m"
    using v by (intro month_of_unique m) (auto simp: month_start_Suc [OF m] valid_date_def)
  ultimately show ?thesis by (simp add: civil_def Let_def day_number_def)
qed

lemma year_day_split:
  "0 \<le> yd \<Longrightarrow> yd < (if leap y then 366 else 365) \<Longrightarrow>
   \<exists>m. 1 \<le> m \<and> m \<le> 12 \<and> month_start (leap y) m \<le> yd \<and> yd < month_start (leap y) (m + 1)"
proof -
  assume yd: "0 \<le> yd" "yd < (if leap y then 366 else 365)"
  have "\<exists>m\<in>{1..12}. month_start (leap y) m \<le> yd \<and> yd < month_start (leap y) (m + 1)"
  proof (rule ccontr)
    assume no: "\<not> ?thesis"
    have step: "month_start (leap y) m \<le> yd \<Longrightarrow> m \<in> {1..12} \<Longrightarrow> month_start (leap y) (m + 1) \<le> yd" for m
      using no by force
    have "month_start (leap y) 1 \<le> yd" using yd(1) by (simp add: month_start_table)
    then have "month_start (leap y) 13 \<le> yd"
      using step [of 1] step [of 2] step [of 3] step [of 4] step [of 5] step [of 6] step [of 7] step [of 8]
        step [of 9] step [of 10] step [of 11] step [of 12] by simp
    then show False using yd(2) by (simp add: month_start_table split: if_splits)
  qed
  then show ?thesis by auto
qed

lemma civil_valid: "civil n = (y, m, d) \<Longrightarrow> valid_date y m d \<and> day_number y m d = n"
proof -
  assume c: "civil n = (y, m, d)"
  then have y: "y = year_of n" by (simp add: civil_def Let_def)
  define yd where "yd = n - year_start y"
  have yd: "0 \<le> yd" "yd < (if leap y then 366 else 365)"
    using year_of_bounds [of n] year_start_Suc [of y] by (auto simp: y yd_def)
  then obtain k where k: "1 \<le> k" "k \<le> 12" "month_start (leap y) k \<le> yd" "yd < month_start (leap y) (k + 1)"
    using year_day_split [OF yd] by blast
  then have "m = k" "d = yd - month_start (leap y) k + 1"
    using c month_of_unique [OF k] by (auto simp: civil_def Let_def y yd_def)
  then show ?thesis
    using k month_start_Suc [OF k(1,2), of y] by (auto simp: valid_date_def day_number_def yd_def)
qed

lemma sdiv_pos: "0 \<le> a \<Longrightarrow> 0 < b \<Longrightarrow> a sdiv b = a div b" for a b :: int
  by (cases "a = 0") (simp_all add: signed_divide_int_def)

text \<open>The Julian day number counts days: it is the calendar's day number up to a constant, so the
  number of a date and that of the day after it differ by one, across months and leap years.\<close>

theorem julianDay_counts_days:
  assumes "0 \<le> w_year w" and "valid_date (w_year w) (w_month w) (w_day w)"
  shows "julianDay w = day_number (w_year w) (w_month w) (w_day w) + 1721060"
proof -
  define y where "y = w_year w"
  have y: "0 \<le> y" using assms(1) by (simp add: y_def)
  have m: "w_month w \<in> {1, 2, 3, 4, 5, 6, 7, 8, 9, 10, 11, 12}"
    using assms(2) by (intro month_cases) (simp_all add: valid_date_def)
  have sh: "(y + 4799) div 4 = (y + 3) div 4 + 1199" "(y + 4799) div 100 = (y + 99) div 100 + 47"
    "(y + 4799) div 400 = (y + 399) div 400 + 11" "(y + 4800) div 4 = (y + 4) div 4 + 1199"
    "(y + 4800) div 100 = (y + 100) div 100 + 47" "(y + 4800) div 400 = (y + 400) div 400 + 11"
    by (rule div_shift; simp)+
  define a where "a = (14 - w_month w) div 12"
  define yy where "yy = y + 4800 - a"
  have a: "a = (if w_month w \<le> 2 then 1 else 0)" using m by (auto simp: a_def)
  have "julianDay w = w_day w + (153 * (w_month w + 12 * a - 3) + 2) div 5 + 365 * yy + yy div 4 - yy div 100 + yy div 400 - 32045"
  proof -
    have p: "0 \<le> 14 - w_month w" "0 \<le> yy" "0 \<le> 153 * (w_month w + 12 * a - 3) + 2" using m y a by (auto simp: yy_def)
    have "(14 - w_month w) sdiv 12 = a" using p(1) by (simp add: sdiv_pos a_def)
    moreover have "yy sdiv 4 = yy div 4" "yy sdiv 100 = yy div 100" "yy sdiv 400 = yy div 400"
      "(153 * (w_month w + 12 * a - 3) + 2) sdiv 5 = (153 * (w_month w + 12 * a - 3) + 2) div 5"
      by (rule sdiv_pos [OF p(2)] sdiv_pos [OF p(3)], simp)+
    ultimately show ?thesis by (simp only: julianDay_def Let_def y_def [symmetric] yy_def [symmetric])
  qed
  moreover have "(153 * (w_month w + 12 * a - 3) + 2) div 5 = month_start (leap y) (w_month w)
      + (if w_month w \<le> 2 then 306 else if leap y then - 60 else - 59)"
    using m by (elim insertE emptyE) (simp_all add: a month_start_table)
  moreover have "yy div 4 - yy div 100 + yy div 400 + 365 * yy = year_start y + 365 * 4800 + 1163
      + (if w_month w \<le> 2 then - 365 else if leap y then 1 else 0)"
  proof (cases "w_month w \<le> 2")
    case True
    then have yy: "yy = y + 4799" using a by (simp add: yy_def)
    define A B C where "A = (y + 3) div 4" and "B = (y + 99) div 100" and "C = (y + 399) div 400"
    show ?thesis
      using True unfolding yy sh year_start_def A_def [symmetric] B_def [symmetric] C_def [symmetric] by simp
  next
    case False
    then have yy: "yy = y + 4800" using a by (simp add: yy_def)
    define A B C where "A = (y + 4) div 4" and "B = (y + 100) div 100" and "C = (y + 400) div 400"
    have "365 * y + 365 + A - B + C = year_start y + (if leap y then 366 else 365)"
      using year_end [of y] by (simp only: A_def B_def C_def)
    then show ?thesis
      using False unfolding yy sh A_def [symmetric] B_def [symmetric] C_def [symmetric] by (auto split: if_splits)
  qed
  ultimately show ?thesis by (simp add: day_number_def y_def split: if_splits)
qed

section \<open>Printed dates read back\<close>

lemma digits_value_less: "list_all is_digit s \<Longrightarrow> digits_value s < 10 ^ length s"
proof (induction s)
  case (Cons c s)
  have "digit_val c \<le> 9" using Cons.prems by (auto simp: digit_val_def is_digit_def)
  then have "digit_val c * 10 ^ length s \<le> 9 * 10 ^ length s" by (rule mult_right_mono) simp
  moreover have "digits_value s < 10 ^ length s" using Cons by simp
  ultimately have "digit_val c * 10 ^ length s + digits_value s < 9 * 10 ^ length s + 10 ^ length s" by (rule add_le_less_mono)
  then show ?case by (simp add: digits_value_Cons)
qed (simp add: digits_value_def)

lemma digits_value_zeros: "digits_value (replicate k (CHR ''0'') @ s) = digits_value s"
  by (induction k) (simp_all add: digits_value_Cons digit_val_def)

lemma length_itoa_le: "0 \<le> n \<Longrightarrow> n < 10 ^ k \<Longrightarrow> 0 < k \<Longrightarrow> length (itoa n) \<le> k"
proof -
  assume n: "0 \<le> n" "n < 10 ^ k" and k: "0 < k"
  have "nat n < 10 ^ k" using n by (simp add: nat_less_iff)
  from length_itoa_loop_le [OF this, of "[]"] show ?thesis using n k by (auto simp: itoa_def)
qed

lemma pad_left_digits:
  assumes "0 \<le> n" "n < 10 ^ k" "0 < k"
  shows "length (pad_left k n) = k \<and> list_all is_digit (pad_left k n) \<and> int (digits_value (pad_left k n)) = n"
  using length_itoa_le [OF assms] itoa_digits [OF assms(1)] digits_value_itoa [OF assms(1)] assms(1)
  by (auto simp: pad_left_def Let_def digits_value_zeros list_all_iff is_digit_def [of "CHR ''0''"])

lemma pad2_pair:
  assumes "0 \<le> n" "n < 100"
  obtains a b where "pad_left 2 n = [a, b]" "is_digit a" "is_digit b" "int (10 * digit_val a + digit_val b) = n"
proof -
  have d: "length (pad_left 2 n) = 2" "list_all is_digit (pad_left 2 n)" "int (digits_value (pad_left 2 n)) = n"
    using pad_left_digits [of n 2] assms by simp_all
  obtain a b where ab: "pad_left 2 n = [a, b]" using d(1) by (auto simp: numeral_2_eq_2 length_Suc_conv)
  then show ?thesis using d(2,3) by (intro that [of a b]) (simp_all add: digits_value_Cons digits_value_def [of "[]"] algebra_simps)
qed

lemma getnum_pad: "0 \<le> n \<Longrightarrow> n < 100 \<Longrightarrow> getnum fixed (pad_left 2 n @ rest) = Some (n, rest)"
  by (erule (1) pad2_pair) (simp add: getnum_def)

lemma getyear_pad: "0 \<le> y \<Longrightarrow> y < 10000 \<Longrightarrow> getyear (pad_left 4 y @ rest) = Some (y, rest)"
  using pad_left_digits [of y 4] by (simp add: getyear_def)

definition midnight :: "int \<Rightarrow> int \<Rightarrow> int \<Rightarrow> wall" where
  "midnight y m d = \<lparr>w_year = y, w_month = m, w_day = d, w_hour = 0, w_min = 0, w_sec = 0, w_ns = 0\<rparr>"

lemma daysIn_le: "daysIn m y \<le> 31"
  by (simp add: daysIn_def)

lemma iso_date_chars: "0 \<le> y \<Longrightarrow> y < 10000 \<Longrightarrow> valid_date y m d \<Longrightarrow> \<forall>c\<in>set (iso_date (midnight y m d)). is_digit c \<or> c = CHR ''-''"
  using pad_left_digits [of y 4] pad_left_digits [of m 2] pad_left_digits [of d 2] daysIn_le [of m y]
  by (auto simp: iso_date_def midnight_def valid_date_def list_all_iff)

lemma parse_iso:
  assumes "0 \<le> y" "y < 10000" and v: "valid_date y m d"
  shows "parseDateStr (iso_date (midnight y m d)) = Some (midnight y m d)"
proof -
  let ?s = "iso_date (midnight y m d)"
  have "trim_space ?s = ?s"
    using iso_date_chars [OF assms] by (intro trim_space_id) (auto simp: is_space_def is_digit_def)
  moreover have "d < 100" "0 \<le> d" "0 \<le> m" "m < 100" using v daysIn_le [of m y] by (auto simp: valid_date_def)
  then have "parse_ymd ?s = Some ((y, m, d), [])"
    using assms(1,2) v getnum_pad [of d True "[]"]
    by (simp add: parse_ymd_def iso_date_def midnight_def getyear_pad skip_char_def getnum_pad between_def valid_date_def)
  moreover have "parse_hm [] = None" by (simp add: parse_hm_def skip_spaces_def getnum_def between_def)
  ultimately show ?thesis
    using v by (simp add: parseDateStr_def parse_layout_def make_wall_def midnight_def valid_date_def)
qed

section \<open>Adding days and counting them\<close>

lemma wall_of_midnight: "civil n = (y, m, d) \<Longrightarrow> wall_of (n * ns_per_day) = midnight y m d"
  by (simp add: wall_of_def midnight_def ns_per_day_def)

lemma AddDate_midnight:
  assumes "valid_date y m d" and "civil (day_number y m d + n) = (y', m', d')"
  shows "AddDate_days (midnight y m d) n = midnight y' m' d'"
proof -
  have m: "(m - 1) div 12 = 0" "(m - 1) mod 12 + 1 = m" using assms(1) by (auto simp: valid_date_def)
  have "day_number y m 1 = day_number y m d - (d - 1)" by (simp add: day_number_def)
  then show ?thesis using wall_of_midnight [OF assms(2)] by (simp add: AddDate_days_def go_Date_def midnight_def m)
qed

text \<open>What is needed of \<^verbatim>\<open>float64\<close>: rounding keeps whole numbers up to \<open>2 ^ 53\<close> and errs by less than a
  part in \<open>2 ^ 52\<close>.\<close>

definition rounds :: "(rat \<Rightarrow> rat) \<Rightarrow> bool" where
  "rounds fl \<longleftrightarrow>
     (\<forall>n :: int. \<bar>n\<bar> \<le> 2 ^ 53 \<longrightarrow> fl (of_int n) = of_int n) \<and> (\<forall>q. \<bar>q\<bar> \<le> 2 ^ 53 \<longrightarrow> \<bar>fl q - q\<bar> \<le> \<bar>q\<bar> / 2 ^ 52)"

lemma Sub_midnight:
  "Sub (midnight y' m' d') (midnight y m d)
   = max min_int64 (min max_int64 ((day_number y' m' d' - day_number y m d) * ns_per_day))"
  by (simp add: Sub_def abs_ns_def day_ns_def midnight_def Let_def algebra_simps min_int64_def max_int64_def)

lemma round_whole: "round_away (of_int n) = n"
proof (cases "0 \<le> n")
  case True
  then show ?thesis by (simp add: round_away_def floor_eq_iff)
next
  case False
  then have "\<not> (0 \<le> (of_int n :: rat))" by simp
  moreover have "floor (- of_int n + 1 / 2 :: rat) = - n" by (simp add: floor_eq_iff)
  ultimately show ?thesis by (simp add: round_away_def)
qed

lemma sdiv_times: "0 < h \<Longrightarrow> (k * h) sdiv h = k \<and> (k * h) smod h = 0" for h k :: int
  by (simp add: signed_divide_int_def signed_modulo_int_def sgn_mult abs_mult mult_sgn_abs)

lemma diff_whole_days:
  assumes fl: "rounds fl" and n: "\<bar>n\<bar> \<le> 106751"
  shows "round_away (fl (Hours fl (n * ns_per_day) / 24)) = n"
proof -
  have i: "fl (of_int k) = of_int k" if "\<bar>k\<bar> \<le> 2 ^ 53" for k :: int using fl that by (simp add: rounds_def)
  have e: "n * ns_per_day = (24 * n) * ns_per_hour" by (simp add: ns_per_day_def ns_per_hour_def)
  have h: "0 < ns_per_hour" "ns_per_hour \<le> 2 ^ 53" by (simp_all add: ns_per_hour_def)
  note d = sdiv_times [OF h(1), of "24 * n", folded e]
  have "fl (of_int (24 * n)) = of_int (24 * n)" "fl 0 = 0" using i [of "24 * n"] i [of 0] n by auto
  then have "Hours fl (n * ns_per_day) = of_int (24 * n)"
    unfolding Hours_def d [THEN conjunct1] d [THEN conjunct2] by simp
  then have "fl (Hours fl (n * ns_per_day) / 24) = of_int n" using i [of n] n by simp
  then show ?thesis by (simp add: round_whole)
qed

lemma rounds_near: "rounds fl \<Longrightarrow> \<bar>q\<bar> \<le> 2 ^ 30 \<Longrightarrow> \<bar>fl q - q\<bar> \<le> 1 / 1000"
proof -
  assume fl: "rounds fl" and q: "\<bar>q\<bar> \<le> 2 ^ 30"
  then have "\<bar>fl q - q\<bar> \<le> \<bar>q\<bar> / 2 ^ 52" by (simp add: rounds_def)
  also have "\<dots> \<le> 1 / 1000" using q by simp
  finally show ?thesis .
qed

lemma near_half: "\<bar>q - of_int n\<bar> < 1 / 2 \<Longrightarrow> round_away q = n"
proof (cases "0 \<le> q")
  case True
  assume "\<bar>q - of_int n\<bar> < 1 / 2"
  then have "of_int n \<le> q + 1 / 2" "q + 1 / 2 < of_int n + 1" by linarith+
  then show ?thesis using True by (simp add: round_away_def floor_eq_iff)
next
  case False
  assume "\<bar>q - of_int n\<bar> < 1 / 2"
  then have "of_int (- n) \<le> - q + 1 / 2" "- q + 1 / 2 < of_int (- n) + 1" unfolding of_int_minus by linarith+
  then have "floor (- q + 1 / 2) = - n" by (simp only: floor_eq_iff)
  then show ?thesis using False by (simp add: round_away_def)
qed

lemma hours_near:
  assumes fl: "rounds fl" and h: "\<bar>h\<bar> \<le> 2 ^ 25" and r: "\<bar>r\<bar> \<le> ns_per_hour"
    and d: "d sdiv ns_per_hour = h" "d smod ns_per_hour = r"
  shows "\<bar>fl (Hours fl d / 24) - (of_int h + of_int r / of_int ns_per_hour) / 24\<bar> \<le> 1 / 100"
proof -
  have i: "fl (of_int k) = of_int k" if "\<bar>k\<bar> \<le> 2 ^ 53" for k :: int using fl that by (simp add: rounds_def)
  define q where "q = of_int r / (of_int ns_per_hour :: rat)"
  have pos: "0 < (of_int ns_per_hour :: rat)" "ns_per_hour \<le> 2 ^ 53" "0 < ns_per_hour" by (simp_all add: ns_per_hour_def)
  have "\<bar>of_int r :: rat\<bar> \<le> of_int ns_per_hour" using r by (metis of_int_abs of_int_le_iff)
  then have q: "\<bar>q\<bar> \<le> 1" using pos(1) by (simp add: q_def)
  have "fl (of_int h) = of_int h" "fl (of_int r) = of_int r" "fl (of_int ns_per_hour) = of_int ns_per_hour"
    using h r pos(2,3) by (auto intro!: i)
  then have hr: "Hours fl d = fl (of_int h + fl q)" by (simp add: Hours_def d q_def)
  have h': "\<bar>of_int h :: rat\<bar> \<le> 2 ^ 25" using h by (metis of_int_abs of_int_le_iff of_int_numeral of_int_power)
  have n1: "\<bar>fl q - q\<bar> \<le> 1 / 1000" using q by (intro rounds_near [OF fl]) simp
  have "(2 :: rat) ^ 25 + 2 \<le> 2 ^ 30" by simp
  then have "\<bar>of_int h + fl q\<bar> \<le> 2 ^ 30" using h' n1 q by linarith
  then have n2: "\<bar>fl (of_int h + fl q) - (of_int h + fl q)\<bar> \<le> 1 / 1000" by (rule rounds_near [OF fl])
  define x where "x = fl (of_int h + fl q)"
  have x: "\<bar>x - (of_int h + q)\<bar> \<le> 2 / 1000" using n1 n2 unfolding x_def by linarith
  have "\<bar>x / 24\<bar> \<le> 2 ^ 30" using x h' q \<open>(2 :: rat) ^ 25 + 2 \<le> 2 ^ 30\<close> by linarith
  then have "\<bar>fl (x / 24) - x / 24\<bar> \<le> 1 / 1000" by (rule rounds_near [OF fl])
  moreover define z where "z = of_int h + q"
  ultimately have "\<bar>fl (x / 24) - z / 24\<bar> \<le> 1 / 100" using x by linarith
  then show ?thesis unfolding hr x_def [symmetric] q_def [symmetric] z_def .
qed

lemma diff_saturated:
  assumes "rounds fl"
  shows "round_away (fl (Hours fl max_int64 / 24)) = 106752" "round_away (fl (Hours fl min_int64 / 24)) = - 106752"
proof -
  have d: "max_int64 sdiv ns_per_hour = 2562047" "max_int64 smod ns_per_hour = 2836854775807"
    "min_int64 sdiv ns_per_hour = - 2562047" "min_int64 smod ns_per_hour = - 2836854775808"
    by (simp_all add: max_int64_def min_int64_def ns_per_hour_def signed_divide_int_def signed_modulo_int_def)
  have "\<bar>fl (Hours fl max_int64 / 24) - (of_int 2562047 + of_int 2836854775807 / of_int ns_per_hour) / 24\<bar> \<le> 1 / 100"
    by (rule hours_near [OF assms _ _ d(1,2)]) (simp_all add: ns_per_hour_def)
  moreover have "\<bar>fl (Hours fl min_int64 / 24) - (of_int (- 2562047) + of_int (- 2836854775808) / of_int ns_per_hour) / 24\<bar> \<le> 1 / 100"
    by (rule hours_near [OF assms _ _ d(3,4)]) (simp_all add: ns_per_hour_def)
  moreover define a b where "a = fl (Hours fl max_int64 / 24)" and "b = fl (Hours fl min_int64 / 24)"
  moreover have "\<bar>(of_int 2562047 + of_int 2836854775807 / of_int ns_per_hour) / 24 - 106752 :: rat\<bar> < 1 / 10"
    "\<bar>(of_int (- 2562047) + of_int (- 2836854775808) / of_int ns_per_hour) / 24 + 106752 :: rat\<bar> < 1 / 10"
    by (simp_all add: ns_per_hour_def)
  ultimately have "\<bar>a - of_int 106752\<bar> < 1 / 2" "\<bar>b - of_int (- 106752)\<bar> < 1 / 2"
    unfolding of_int_minus of_int_numeral by linarith+
  then show "round_away (fl (Hours fl max_int64 / 24)) = 106752" "round_away (fl (Hours fl min_int64 / 24)) = - 106752"
    unfolding a_def b_def using near_half by blast+
qed

lemma max_min_cases: "max lo (min hi x) = (if hi < x then max lo hi else if x < lo then lo else x)" for x :: int
  by auto

text \<open>C22: Adding days and counting them back: the count is the number of days added, up to 106752 days (292
  years) each way, where the difference of the times saturates.\<close>

theorem add_days_then_diff:
  assumes fl: "rounds fl" and v: "valid_date y m d" and y: "0 \<le> y" "y < 10000"
    and c: "civil (day_number y m d + n) = (y', m', d')" and y': "0 \<le> y'" "y' < 10000"
  shows "add_days (iso_date (midnight y m d)) n = Some (iso_date (midnight y' m' d'))
    \<and> date_diff fl (iso_date (midnight y' m' d')) (iso_date (midnight y m d)) = Some (max (- 106752) (min 106752 n))"
proof -
  have v': "valid_date y' m' d'" "day_number y' m' d' = day_number y m d + n" using civil_valid [OF c] by auto
  have add: "add_days (iso_date (midnight y m d)) n = Some (iso_date (midnight y' m' d'))"
    by (simp add: add_days_def parse_iso [OF y v] AddDate_midnight [OF v c])
  have "Sub (midnight y' m' d') (midnight y m d) = max min_int64 (min max_int64 (n * ns_per_day))"
    by (simp add: Sub_midnight v'(2))
  moreover have "round_away (fl (Hours fl (max min_int64 (min max_int64 (n * ns_per_day))) / 24)) = max (- 106752) (min 106752 n)"
  proof -
    consider "106752 \<le> n" | "n \<le> - 106752" | "\<bar>n\<bar> \<le> 106751" by linarith
    then show ?thesis
    proof cases
      case 1
      then have "max min_int64 (min max_int64 (n * ns_per_day)) = max_int64"
        by (simp add: max_min_cases min_int64_def max_int64_def ns_per_day_def)
      then show ?thesis using 1 diff_saturated(1) [OF fl] by simp
    next
      case 2
      then have "max min_int64 (min max_int64 (n * ns_per_day)) = min_int64"
        by (simp add: max_min_cases min_int64_def max_int64_def ns_per_day_def)
      then show ?thesis using 2 diff_saturated(2) [OF fl] by simp
    next
      case 3
      then have "max min_int64 (min max_int64 (n * ns_per_day)) = n * ns_per_day"
        by (simp add: max_min_cases min_int64_def max_int64_def ns_per_day_def abs_le_iff)
      then show ?thesis using 3 diff_whole_days [OF fl, of n] by (simp add: abs_le_iff)
    qed
  qed
  ultimately show ?thesis
    using add by (simp add: date_diff_def parse_iso [OF y v] parse_iso [OF y' v'(1)])
qed

lemma rounds_id: "rounds (\<lambda>q. q)"
  by (simp add: rounds_def)

theorem add_days_then_diff_witness:
  "add_days (iso_date (midnight 2024 2 28)) 2 = Some (iso_date (midnight 2024 3 1))
   \<and> date_diff (\<lambda>q. q) (iso_date (midnight 2400 1 1)) (iso_date (midnight 2000 1 1)) = Some 106752"
proof -
  have v: "valid_date 2024 2 28" "valid_date 2000 1 1" by (simp_all add: valid_date_def daysIn_def leap_def)
  have "valid_date 2024 3 1" "day_number 2024 3 1 = day_number 2024 2 28 + 2"
    "valid_date 2400 1 1" "day_number 2400 1 1 = day_number 2000 1 1 + 146097"
    by (simp_all add: valid_date_def daysIn_def day_number_def year_start_def month_start_def leap_def)
  then have "civil (day_number 2024 2 28 + 2) = (2024, 3, 1)" "civil (day_number 2000 1 1 + 146097) = (2400, 1, 1)"
    using civil_day_number by metis+
  from add_days_then_diff [OF rounds_id v(1) _ _ this(1)] add_days_then_diff [OF rounds_id v(2) _ _ this(2)]
  show ?thesis by simp
qed

section \<open>Formats\<close>

text \<open>A format whose percent signs all start a known token.\<close>

fun plain_format :: "string \<Rightarrow> bool" where
  "plain_format [] = True"
| "plain_format [c] = (c \<noteq> CHR ''%'')"
| "plain_format (c # d # cs) =
     (if c = CHR ''%'' then d \<in> set ''YmdHMS%'' \<and> plain_format cs else plain_format (d # cs))"

definition fits :: "wall \<Rightarrow> bool" where
  "fits w \<longleftrightarrow> 1000 \<le> w_year w \<and> w_year w < 10000 \<and> valid_date (w_year w) (w_month w) (w_day w)
     \<and> 0 \<le> w_hour w \<and> w_hour w < 24 \<and> 0 \<le> w_min w \<and> w_min w < 60 \<and> 0 \<le> w_sec w \<and> w_sec w < 60"

definition set_field :: "wall \<Rightarrow> fmt_fields \<Rightarrow> fmt_token \<Rightarrow> fmt_fields" where
  "set_field w f t =
     (case t of
        Lit c \<Rightarrow> f
      | Tok c \<Rightarrow>
          if c = CHR ''Y'' then f\<lparr>f_year := w_year w\<rparr> else if c = CHR ''m'' then f\<lparr>f_month := w_month w\<rparr>
          else if c = CHR ''d'' then f\<lparr>f_day := w_day w\<rparr> else if c = CHR ''H'' then f\<lparr>f_hour := w_hour w\<rparr>
          else if c = CHR ''M'' then f\<lparr>f_min := w_min w\<rparr> else if c = CHR ''S'' then f\<lparr>f_sec := w_sec w\<rparr> else f)"

lemma parse_digits: "list_all is_digit s \<Longrightarrow> s \<noteq> [] \<Longrightarrow> int (digits_value s) \<le> max_int64 \<Longrightarrow> parse_int64 s = Some (int (digits_value s))"
  by (cases s) (auto simp: parse_int64_def parse_int64_digits_def is_digit_def)

lemma getDayN_digits:
  assumes "length t = n" "0 < n" "list_all is_digit t" "int (digits_value t) = v" "v \<le> mx" "mx \<le> 9999"
  shows "getDayN (pre @ t @ rest) (length pre) n mx = Some (v, length pre + n)"
  using assms parse_digits [of t] by (auto simp: getDayN_def max_int64_def)

lemma itoa_year: "1000 \<le> y \<Longrightarrow> y < 10000 \<Longrightarrow> length (itoa y) = 4 \<and> list_all is_digit (itoa y) \<and> int (digits_value (itoa y)) = y"
proof -
  assume y: "1000 \<le> y" "y < 10000"
  then have d: "list_all is_digit (itoa y)" "digits_value (itoa y) = nat y" by (simp_all add: itoa_digits digits_value_itoa)
  have "nat y < 10 ^ length (itoa y)" using digits_value_less [OF d(1)] d(2) by simp
  moreover have "(10 :: nat) ^ 3 \<le> nat y" using y by simp
  ultimately have "(10 :: nat) ^ 3 < 10 ^ length (itoa y)" by (rule le_less_trans [rotated])
  then have "3 < length (itoa y)" by (rule power_less_imp_less_exp [rotated]) simp
  moreover have "length (itoa y) \<le> 4" using y by (intro length_itoa_le) simp_all
  ultimately show ?thesis using d y by simp
qed

lemma field_token_printed:
  assumes w: "fits w" and c: "c \<in> set ''YmdHMS''"
  shows "field_token (pre @ format_token w c @ rest) c (length pre) f
    = Some (set_field w f (Tok c), length pre + length (format_token w c))"
proof -
  have r: "0 \<le> w_month w" "w_month w \<le> 12" "0 \<le> w_day w" "w_day w \<le> 31"
    using w daysIn_le [of "w_month w" "w_year w"] by (auto simp: fits_def valid_date_def)
  have two: "getDayN (pre @ pad_left 2 v @ rest) (length pre) 2 mx = Some (v, length pre + 2) \<and> length (pad_left 2 v) = 2"
    if "0 \<le> v" "v \<le> mx" "mx < 100" for v mx
    using pad_left_digits [of v 2] that by (intro conjI getDayN_digits) auto
  have four: "getDayN (pre @ itoa (w_year w) @ rest) (length pre) 4 9999 = Some (w_year w, length pre + 4)"
    using itoa_year [of "w_year w"] w by (intro getDayN_digits) (auto simp: fits_def)
  show ?thesis
    using w r two [of "w_month w" 12] two [of "w_day w" 31] two [of "w_hour w" 23] two [of "w_min w" 59] two [of "w_sec w" 59]
      four itoa_year [of "w_year w"]
      c [simplified]
    by (elim disjE) (simp_all add: field_token_def format_token_def set_field_def fits_def)
qed

lemma read_printed:
  assumes w: "fits w"
  shows "plain_format fmt \<Longrightarrow>
    read_fields (pre @ formatDate w fmt) (fmt_tokens fmt) (length pre) f = Inr (foldl (set_field w) f (fmt_tokens fmt))"
proof (induction fmt arbitrary: pre f rule: plain_format.induct)
  case (2 c)
  then show ?case by (simp add: set_field_def)
next
  case (3 c d cs)
  show ?case
  proof (cases "c = CHR ''%''")
    case True
    then have d: "d \<in> set ''YmdHS%M''" and cs: "plain_format cs" using "3.prems" by auto
    show ?thesis
    proof (cases "d = CHR ''%''")
      case pct: True
      have "format_token w d = ''%''" using pct by (simp add: format_token_def)
      then show ?thesis
        using "3.IH"(1) [OF True cs, of "pre @ ''%''" f] True pct by (simp add: set_field_def nth_append)
    next
      case False
      then have t: "d \<in> set ''YmdHMS''" "d \<in> set ''YymdHMS''" using d by auto
      have "set_field w f (Tok d) = set_field w f (Tok d)" ..
      then show ?thesis
        using "3.IH"(1) [OF True cs, of "pre @ format_token w d" "set_field w f (Tok d)"] True t(2)
          field_token_printed [OF w t(1), of pre "formatDate w cs" f]
        by simp
    qed
  next
    case False
    then show ?thesis
      using "3.IH"(2) [OF False, of "pre @ [c]" f] "3.prems" by (simp add: set_field_def nth_append)
  qed
qed simp

lemma foldl_fields:
  "f_year (foldl (set_field w) f ts) = (if Tok (CHR ''Y'') \<in> set ts then w_year w else f_year f)"
  "f_month (foldl (set_field w) f ts) = (if Tok (CHR ''m'') \<in> set ts then w_month w else f_month f)"
  "f_day (foldl (set_field w) f ts) = (if Tok (CHR ''d'') \<in> set ts then w_day w else f_day f)"
  by (induction ts arbitrary: f) (auto simp: set_field_def split: fmt_token.splits)

lemma foldl_hms:
  "f_hour (foldl (set_field w) f ts) = (if Tok (CHR ''H'') \<in> set ts then w_hour w else f_hour f)"
  "f_min (foldl (set_field w) f ts) = (if Tok (CHR ''M'') \<in> set ts then w_min w else f_min f)"
  "f_sec (foldl (set_field w) f ts) = (if Tok (CHR ''S'') \<in> set ts then w_sec w else f_sec f)"
  by (induction ts arbitrary: f) (auto simp: set_field_def split: fmt_token.splits)

lemma go_Date_same_day:
  assumes v: "valid_date y m d" and t: "0 \<le> h" "h < 24" "0 \<le> mi" "mi < 60" "0 \<le> s" "s < 60"
  shows "iso_date (go_Date y m d h mi s 0) = iso_date (midnight y m d)"
proof -
  have m: "(m - 1) div 12 = 0" "(m - 1) mod 12 + 1 = m" using v by (auto simp: valid_date_def)
  define r where "r = ((h * 60 + mi) * 60 + s) * 10 ^ 9"
  have r: "0 \<le> r" "r < ns_per_day" using t by (auto simp: r_def ns_per_day_def)
  have "day_number y m 1 + (d - 1) = day_number y m d" by (simp add: day_number_def)
  then have "go_Date y m d h mi s 0 = wall_of (day_number y m d * ns_per_day + r)"
    by (simp add: go_Date_def m r_def)
  moreover have "(day_number y m d * ns_per_day + r) div ns_per_day = day_number y m d"
    using r by (intro int_div_pos_eq [where r = r]) (simp_all add: mult.commute)
  ultimately show ?thesis by (simp add: wall_of_def civil_day_number [OF v] Let_def iso_date_def midnight_def)
qed



text \<open>Where reading with a format differs from what the format says: a text in ISO form ignores it, fields it
  does not name count as zero and reach back into the year before, a sign is taken for a digit of a field,
  a year of two digits is printed with one when it is small, and an unknown token is printed with its
  percent sign but read without.\<close>

theorem strtodate_surprises:
  "strtodate (\<lambda>t. t) ''2024-03-04'' ''%Y-%d-%m'' = Some ''2024-03-04''"
  "strtodate (\<lambda>t. t) ''2024'' ''%Y'' = Some ''2023-11-30''"
  "strtodate (\<lambda>t. t) ''2024-1-2'' ''%Y%m%d'' = Some ''2023-10-29''"
  "date_to_string ''2005-01-02'' ''%y'' = Some ''5''"
  "date_to_string ''2005-01-02'' ''%q'' = Some ''%q''" "fmt_tokens ''%q'' = [Lit (CHR ''q'')]"
  by code_simp+

end
