(* ===== verification/Form_Build.thy ===== *)
theory Form_Build
  imports Session_Actor
begin

text \<open>
  The bindings by which a script builds and shows its forms, \<^verbatim>\<open>internal/bindings/forms.go\<close>:
  \<^verbatim>\<open>k.form\<close>, \<^verbatim>\<open>k.ctrl\<close> and \<^verbatim>\<open>k.table\<close>. A form is a global table whose sub-tables hold the
  controls, their creation order and the handlers; the session reads the same tables.

  The arguments are those the interpreter's argument checks let through: a text, a table's
  address, any value. A binding returns its results, raises, or suspends its coroutine.
  The markup of a form and of a control are the parameters \<open>rf\<close> and \<open>eng_render\<close>.
\<close>

section \<open>Results and generic writes\<close>

datatype kret = Ret "lua_value list" | Raise string | Suspend

text \<open>\<^verbatim>\<open>RawSetInt\<close> outside the array's range and \<^verbatim>\<open>RawSet\<close>, which dispatches on the key.\<close>

definition max_array_index :: int where "max_array_index = 67108864"

definition RawSetH :: "nat \<Rightarrow> lua_value \<Rightarrow> lua_value \<Rightarrow> lua_state \<Rightarrow> lua_state" where
  "RawSetH a k v L =
     (let t = table_at L a
      in set_table L a (t\<lparr>others := (if v = LNil then AList.delete k (others t) else AList.update k v (others t))\<rparr>))"

definition RawSetIndex :: "nat \<Rightarrow> int \<Rightarrow> lua_value \<Rightarrow> lua_state \<Rightarrow> lua_state" where
  "RawSetIndex a i v L =
     (if 1 \<le> i \<and> i < max_array_index then RawSetInt a (nat i) v L
      else RawSetH a (LNumber (float_of_int i)) v L)"

definition array_key :: "lua_value \<Rightarrow> int option" where
  "array_key k =
     (case k of LNumber (Fin q) \<Rightarrow> (if q = of_int (trunc_rat q) \<and> 0 < q \<and> q < of_int max_array_index then Some (trunc_rat q) else None)
      | _ \<Rightarrow> None)"

definition RawSet :: "nat \<Rightarrow> lua_value \<Rightarrow> lua_value \<Rightarrow> lua_state \<Rightarrow> lua_state" where
  "RawSet a k v L =
     (case k of
        LString s \<Rightarrow> RawSetString a s v L
      | _ \<Rightarrow> (case array_key k of Some i \<Rightarrow> RawSetIndex a i v L | None \<Rightarrow> RawSetH a k v L))"

definition copy_table :: "nat \<Rightarrow> nat \<Rightarrow> lua_state \<Rightarrow> lua_state" where
  "copy_table dst src L = fold (\<lambda>(k, v). RawSet dst k v) (for_each L src) L"

text \<open>A sub-table, created when the key holds nil; none when it holds anything but a table.\<close>

definition sub_or_new :: "nat \<Rightarrow> string \<Rightarrow> lua_state \<Rightarrow> lua_state \<times> nat option" where
  "sub_or_new a k L =
     (case RawGetString L a k of
        LNil \<Rightarrow> (let (L1, t) = NewTable L in (RawSetString a k (LTable t) L1, Some t))
      | LTable t \<Rightarrow> (L, Some t)
      | _ \<Rightarrow> (L, None))"

section \<open>Forms\<close>

definition opt_text :: "(lua_value \<Rightarrow> string) \<Rightarrow> lua_state \<Rightarrow> nat \<Rightarrow> string \<Rightarrow> string \<Rightarrow> string" where
  "opt_text sh L opts k dflt =
     (let v = RawGetString L opts k; s = (if v = LNil then [] else lv_string sh v) in if s = [] then dflt else s)"

definition set_unless_nil :: "nat \<Rightarrow> string \<Rightarrow> lua_value \<Rightarrow> lua_state \<Rightarrow> lua_state" where
  "set_unless_nil a k v L = (if v = LNil then L else RawSetString a k v L)"

definition as_text :: "(lua_value \<Rightarrow> string) \<Rightarrow> lua_value \<Rightarrow> lua_value" where
  "as_text sh v = (if v = LNil then LNil else LString (lv_string sh v))"

definition form_new :: "(lua_value \<Rightarrow> string) \<Rightarrow> string \<Rightarrow> nat \<Rightarrow> lua_state \<Rightarrow> lua_state" where
  "form_new sh name opts L =
     (let layout = opt_text sh L opts ''layout'' ''vertical''; align = opt_text sh L opts ''align'' ''left'';
          (L1, f) = NewTable L;
          L2 = RawSetString f ''name'' (LString name) L1;
          L3 = set_unless_nil f ''title'' (as_text sh (RawGetString L opts ''title'')) L2;
          L4 = RawSetString f ''align'' (LString align) (RawSetString f ''layout'' (LString layout) L3);
          L5 = set_unless_nil f ''gap'' (RawGetString L opts ''gap'') L4;
          L6 = set_unless_nil f ''cells'' (RawGetString L opts ''cells'') L5;
          (L7, c) = NewTable L6;
          (L8, h) = NewTable (RawSetString f ''controls'' (LTable c) L7)
      in SetGlobal name (LTable f) (RawSetString f ''handlers'' (LTable h) L8))"

text \<open>Storing a handler under \<open>handlers[key][event]\<close>; false when a table on the way is none.\<close>

definition store_handler :: "nat \<Rightarrow> string \<Rightarrow> string \<Rightarrow> nat \<Rightarrow> lua_state \<Rightarrow> bool \<times> lua_state" where
  "store_handler f key event fn L =
     (case sub_or_new f ''handlers'' L of
        (L1, None) \<Rightarrow> (False, L1)
      | (L1, Some h) \<Rightarrow>
          (case sub_or_new h key L1 of
             (L2, None) \<Rightarrow> (False, L2)
           | (L2, Some t) \<Rightarrow> (True, RawSetString t event (LFunction fn) L2)))"

definition registerControlHandler :: "nat \<Rightarrow> string \<Rightarrow> string \<Rightarrow> nat \<Rightarrow> lua_state \<Rightarrow> lua_state" where
  "registerControlHandler f name event fn L = snd (store_handler f name event fn L)"

definition no_form :: "string \<Rightarrow> string" where
  "no_form form = ''form '' @ form @ '' not found''"

definition on_form_table :: "string \<Rightarrow> (nat \<Rightarrow> lua_state \<Rightarrow> lua_state) \<Rightarrow> lua_state \<Rightarrow> string + lua_state" where
  "on_form_table form g L =
     (case GetGlobal L form of
        LNil \<Rightarrow> Inl (no_form form)
      | LTable f \<Rightarrow> Inr (g f L)
      | _ \<Rightarrow> Inr L)"

text \<open>The three forms of \<^verbatim>\<open>k.form.on\<close>, told apart by the number of arguments and the type of the third.\<close>

definition form_on_event :: "string \<Rightarrow> string \<Rightarrow> nat \<Rightarrow> lua_state \<Rightarrow> string + lua_state" where
  "form_on_event form event fn =
     on_form_table form (\<lambda>f L.
       (let (ok, L1) = store_handler f ''@form'' event fn L
        in if ok \<and> event = ''on_idle'' then RawSetString f ''idle_ms'' (LNumber (float_of_int 1000)) L1 else L1))"

definition form_on_idle :: "string \<Rightarrow> string \<Rightarrow> int \<Rightarrow> nat \<Rightarrow> lua_state \<Rightarrow> string + lua_state" where
  "form_on_idle form event ms fn =
     on_form_table form (\<lambda>f L.
       (let (ok, L1) = store_handler f ''@form'' event fn L
        in if ok then RawSetString f ''idle_ms'' (LNumber (float_of_int ms)) L1 else L1))"

definition form_on_control :: "string \<Rightarrow> string \<Rightarrow> string \<Rightarrow> nat \<Rightarrow> lua_state \<Rightarrow> string + lua_state" where
  "form_on_control form ctrl event fn = on_form_table form (\<lambda>f L. snd (store_handler f ctrl event fn L))"

section \<open>The gap of a shown form\<close>

text \<open>Comparisons with NaN are false, so a NaN is neither below 0 nor above 50.\<close>

fun below_zero :: "go_float \<Rightarrow> bool" where
  "below_zero (Fin q) = (q < 0)"
| "below_zero NInf = True"
| "below_zero f = False"

fun above :: "rat \<Rightarrow> go_float \<Rightarrow> bool" where
  "above r (Fin q) = (r < q)"
| "above r PInf = True"
| "above r f = False"

fun gap_range :: "rat \<Rightarrow> go_float \<Rightarrow> bool" where
  "gap_range r (Fin q) = (0 \<le> q \<and> q \<le> r)"
| "gap_range r f = False"

definition gap_entry :: "lua_value \<Rightarrow> go_float" where
  "gap_entry v = (case v of LNumber n \<Rightarrow> (if gap_range 50 n then n else Fin 5) | _ \<Rightarrow> Fin 5)"

definition parseGap :: "lua_state \<Rightarrow> lua_value \<Rightarrow> go_float \<times> go_float" where
  "parseGap L v =
     (case v of
        LNumber n \<Rightarrow>
          (let n1 = (if below_zero n then Fin 0 else n); n2 = (if above 50 n1 then Fin 50 else n1) in (n2, n2))
      | LTable t \<Rightarrow> (gap_entry (RawGetString L t ''x''), gap_entry (RawGetString L t ''y''))
      | _ \<Rightarrow> (Fin 5, Fin 5))"

section \<open>Controls\<close>

definition copy_opt :: "nat \<Rightarrow> nat \<Rightarrow> string \<times> string \<Rightarrow> lua_state \<Rightarrow> lua_state" where
  "copy_opt t opts ks L = RawSetString t (fst ks) (RawGetString L opts (snd ks)) L"

definition copy_opts :: "nat \<Rightarrow> nat \<Rightarrow> (string \<times> string) list \<Rightarrow> lua_state \<Rightarrow> lua_state" where
  "copy_opts t opts kss L = fold (copy_opt t opts) kss L"

abbreviation same :: "string list \<Rightarrow> (string \<times> string) list" where
  "same ks \<equiv> map (\<lambda>k. (k, k)) ks"

text \<open>The key on the control and the option it is read from, for every control and per type.\<close>

definition common_keys :: "(string \<times> string) list" where
  "common_keys = same [''value'', ''enabled'', ''visible'', ''class'', ''items'', ''hidden_value'',
     ''bg'', ''color'', ''font'', ''font_size'', ''style'', ''cell'', ''align'']"

definition paging_keys :: "(string \<times> string) list" where
  "paging_keys = same [''page_size'', ''count_query''] @ [(''db_where'', ''where''), (''db_order_by'', ''order_by'')]"

definition table_keys :: "(string \<times> string) list" where
  "table_keys = same [''tabulator'', ''tabulatorOptions'', ''columns'', ''data'', ''db'', ''query'', ''db_columns''] @ paging_keys"

definition looper_keys :: "(string \<times> string) list" where
  "looper_keys = same [''db'', ''query'', ''links''] @ paging_keys @ same [''columns'', ''row'']"

definition grid_keys :: "(string \<times> string) list" where
  "grid_keys = same [''db'', ''query'', ''columns'', ''data'', ''tabulatorOptions''] @ paging_keys
     @ same [''pk_field'', ''row_actions'', ''global_actions'', ''selection_mode'', ''row_click_action'',
             ''column_visibility'', ''form'']"

definition chart_keys :: "(string \<times> string) list" where
  "chart_keys = (''chart_type'', ''type'') # same [''labels'', ''datasets'', ''options'', ''width'', ''height'',
     ''responsive'', ''maintainAspectRatio'', ''legend'', ''legendPosition'', ''animation'', ''stacked'']"

definition textbox_keys :: "(string \<times> string) list" where
  "textbox_keys = same [''multiline'', ''rows'', ''cols'', ''datetime'', ''password'']"

definition image_keys :: "(string \<times> string) list" where
  "image_keys = same [''src'', ''alt'', ''width'', ''height'', ''fit'', ''clickable'']"

definition login_keys :: "(string \<times> string) list" where
  "login_keys = same [''db'', ''table'', ''login_column'', ''password_column'', ''salt_column'', ''hash'', ''salt'',
     ''iterations'', ''keylen'', ''title'', ''subtitle'', ''login_label'', ''password_label'', ''login_placeholder'',
     ''password_placeholder'', ''submit_label'', ''cancel_label'', ''error_message'', ''attempts'']"

definition tree_keys :: "(string \<times> string) list" where
  "tree_keys = same [''db'', ''table'', ''where'', ''order_by'', ''id_field'', ''parent_field'', ''label_field'',
     ''expand_all'', ''selection'', ''max_nodes'']"

definition tab_keys :: "(string \<times> string) list" where
  "tab_keys = same [''tabs'', ''tab_position'', ''swipable'']"

definition topbar_keys :: "(string \<times> string) list" where
  "topbar_keys = same [''icon'', ''title'', ''user'']"

definition sidebar_keys :: "(string \<times> string) list" where
  "sidebar_keys = same [''position'', ''width'', ''collapsed_width'', ''collapsible'', ''collapsed'', ''items'',
     ''on_select'', ''style'']"

definition footer_keys :: "(string \<times> string) list" where
  "footer_keys = same [''text'', ''version'', ''script_name'', ''links'', ''style'']"

definition type_keys :: "string \<Rightarrow> (string \<times> string) list" where
  "type_keys typ =
     (if typ = ''table'' then table_keys else if typ = ''looper'' then looper_keys
      else if typ = ''grid'' then grid_keys else if typ = ''chart'' then chart_keys
      else if typ = ''textbox'' then textbox_keys else if typ = ''label'' then same [''multiline'']
      else if typ = ''image'' then image_keys else if typ = ''login'' then login_keys
      else if typ = ''tree'' then tree_keys else if typ = ''tab'' then tab_keys
      else if typ = ''topbar'' then topbar_keys else if typ = ''sidebar'' then sidebar_keys
      else if typ = ''footer'' then footer_keys else [])"

definition label_option :: "lua_state \<Rightarrow> nat \<Rightarrow> string \<Rightarrow> lua_value" where
  "label_option L opts typ =
     (let text = RawGetString L opts ''text''; lbl = RawGetString L opts ''label''
      in if typ = ''label'' \<and> text \<noteq> LNil then text else lbl)"

text \<open>The function given as an option becomes the control's handler.\<close>

definition option_handler :: "string \<Rightarrow> (string \<times> string) option" where
  "option_handler typ =
     (if typ = ''button'' \<or> typ = ''image'' then Some (''onclick'', ''click'')
      else if typ = ''topbar'' then Some (''logout'', ''logout'') else None)"

definition handle_option :: "nat \<Rightarrow> nat \<Rightarrow> string \<Rightarrow> string \<Rightarrow> lua_state \<Rightarrow> lua_state" where
  "handle_option f opts name typ L =
     (case option_handler typ of
        None \<Rightarrow> L
      | Some (key, event) \<Rightarrow>
          (case RawGetString L opts key of LFunction fn \<Rightarrow> registerControlHandler f name event fn L | _ \<Rightarrow> L))"

definition datetime_entries :: "nat \<Rightarrow> lua_value \<Rightarrow> lua_state \<Rightarrow> lua_state" where
  "datetime_entries t dt L =
     (case dt of
        LTable d \<Rightarrow> fold (\<lambda>k L. RawSetString t (''datetime_'' @ k) (RawGetString L d k) L)
                      [''mode'', ''format'', ''min'', ''max'', ''step''] L
      | _ \<Rightarrow> (if dt \<noteq> LNil \<and> dt \<noteq> LBool False then RawSetString t ''datetime_mode'' (LString ''datetime'') L else L))"

definition form_layout :: "(lua_value \<Rightarrow> string) \<Rightarrow> lua_state \<Rightarrow> nat \<Rightarrow> string" where
  "form_layout sh L f =
     (let v = RawGetString L f ''layout'' in if v \<noteq> LNil \<and> lv_string sh v = ''grid'' then ''grid'' else ''vertical'')"

definition type_extras :: "(lua_value \<Rightarrow> string) \<Rightarrow> nat \<Rightarrow> nat \<Rightarrow> nat \<Rightarrow> string \<Rightarrow> lua_state \<Rightarrow> lua_state" where
  "type_extras sh f t opts typ L =
     (if typ = ''textbox'' then datetime_entries t (RawGetString L opts ''datetime'') L
      else if typ = ''tab'' then RawSetString t ''current_tab'' (LNumber (float_of_int 1)) L
      else if typ = ''sidebar'' then RawSetString t ''layout'' (LString (form_layout sh L f)) L
      else L)"

text \<open>The table of a new control, filled from its options.\<close>

definition fill_control ::
  "(lua_value \<Rightarrow> string) \<Rightarrow> nat \<Rightarrow> nat \<Rightarrow> nat \<Rightarrow> string \<Rightarrow> string \<Rightarrow> string \<Rightarrow> lua_state \<Rightarrow> lua_state" where
  "fill_control sh f t opts form name typ L =
     (let L1 = RawSetString t ''form'' (LString form) (RawSetString t ''type'' (LString typ)
                 (RawSetString t ''name'' (LString name) L));
          L2 = set_unless_nil t ''label'' (as_text sh (label_option L1 opts typ)) L1;
          L3 = handle_option f opts name typ (copy_opts t opts common_keys L2)
      in type_extras sh f t opts typ (copy_opts t opts (type_keys typ) L3))"

definition addControl ::
  "(lua_value \<Rightarrow> string) \<Rightarrow> string \<Rightarrow> string \<Rightarrow> string \<Rightarrow> nat \<Rightarrow> lua_state \<Rightarrow> string + lua_state" where
  "addControl sh form name typ opts =
     on_form_table form (\<lambda>f L.
       (case sub_or_new f ''controls'' L of
          (L1, None) \<Rightarrow> L1
        | (L1, Some c) \<Rightarrow>
            (case sub_or_new f ''order'' L1 of
               (L2, None) \<Rightarrow> L2
             | (L2, Some ord) \<Rightarrow>
                 (let L3 = RawSetInt ord (Suc (table_len L2 ord)) (LString name) L2;
                      (L4, t) = NewTable L3
                  in RawSetString c name (LTable t) (fill_control sh f t opts form name typ L4)))))"

text \<open>\<^verbatim>\<open>k.ctrl.footer\<close> fills in the version and the script's name when they are missing.\<close>

definition fill_missing :: "(lua_value \<Rightarrow> string) \<Rightarrow> nat \<Rightarrow> string \<Rightarrow> string \<Rightarrow> lua_state \<Rightarrow> lua_state" where
  "fill_missing sh a k text L =
     (let v = RawGetString L a k in if v = LNil \<or> lv_string sh v = [] then RawSetString a k (LString text) L else L)"

definition ctrl_footer ::
  "(lua_value \<Rightarrow> string) \<Rightarrow> string \<Rightarrow> string \<Rightarrow> string \<Rightarrow> string \<Rightarrow> nat \<Rightarrow> lua_state \<Rightarrow> string + lua_state" where
  "ctrl_footer sh version script form name opts L =
     (case addControl sh form name ''footer'' opts L of
        Inl err \<Rightarrow> Inl err
      | Inr L1 \<Rightarrow>
          Inr (case getControl L1 form name of
                 None \<Rightarrow> L1
               | Some a \<Rightarrow>
                   (let L2 = fill_missing sh a ''version'' version L1
                    in if script \<noteq> [] then fill_missing sh a ''script_name'' script L2 else L2)))"

text \<open>The functions \<^verbatim>\<open>k.ctrl.label\<close> to \<^verbatim>\<open>k.ctrl.radio\<close>.\<close>

definition ctrl_kinds :: "string list" where
  "ctrl_kinds = [''label'', ''textbox'', ''button'', ''combo'', ''list'', ''table'', ''looper'', ''grid'', ''chart'', ''image'',
     ''login'', ''tree'', ''tab'', ''topbar'', ''sidebar'', ''footer'', ''checkbox'', ''radio'']"

definition k_ctrl ::
  "(lua_value \<Rightarrow> string) \<Rightarrow> string \<Rightarrow> string \<Rightarrow> string \<Rightarrow> string \<Rightarrow> string \<Rightarrow> nat \<Rightarrow> lua_state \<Rightarrow> string + lua_state" where
  "k_ctrl sh version script kind form name opts =
     (if kind = ''footer'' then ctrl_footer sh version script form name opts else addControl sh form name kind opts)"

section \<open>Reading and changing controls\<close>

definition update_message :: "string \<Rightarrow> string \<Rightarrow> string \<Rightarrow> outbox_msg" where
  "update_message form name html =
     empty_msg\<lparr>Type := ''update_control'', Form := form, Ctrl := name, Selector := ctrl_selector form name, HTML := html\<rparr>"

definition render_message :: "string \<Rightarrow> string \<Rightarrow> outbox_msg" where
  "render_message form html = empty_msg\<lparr>Type := ''render_form'', Form := form, HTML := html\<rparr>"

definition send_control :: "engine \<Rightarrow> string \<Rightarrow> string \<Rightarrow> nat \<Rightarrow> session \<Rightarrow> session" where
  "send_control e form name a s = SendOutbox (update_message form name (eng_render e (lua (world s)) a)) s"

definition control_type :: "engine \<Rightarrow> nat \<Rightarrow> session \<Rightarrow> string" where
  "control_type e a s = lv_string (eng_show e) (RawGetString (lua (world s)) a ''type'')"

text \<open>Every operation on a control does nothing when there is no such control.\<close>

definition on_control ::
  "string \<Rightarrow> string \<Rightarrow> lua_value list \<Rightarrow> (nat \<Rightarrow> session \<Rightarrow> kret \<times> session) \<Rightarrow> session \<Rightarrow> kret \<times> session" where
  "on_control form name none g s =
     (case getControl (lua (world s)) form name of None \<Rightarrow> (Ret none, s) | Some a \<Rightarrow> g a s)"

definition edit_lua :: "(lua_state \<Rightarrow> lua_state) \<Rightarrow> session \<Rightarrow> session" where
  "edit_lua g s = set_lua (g (lua (world s))) s"

definition shown_value :: "engine \<Rightarrow> nat \<Rightarrow> session \<Rightarrow> lua_value" where
  "shown_value e a s =
     (let L = lua (world s); src = RawGetString L a ''src''
      in if control_type e a s = ''image'' \<and> src \<noteq> LNil then src else RawGetString L a ''value'')"

definition ctrl_set_value :: "engine \<Rightarrow> string \<Rightarrow> string \<Rightarrow> lua_value \<Rightarrow> session \<Rightarrow> kret \<times> session" where
  "ctrl_set_value e form name v =
     on_control form name [] (\<lambda>a s.
       if control_type e a s \<in> {''tree'', ''ai_chat''} then (Ret [], s)
       else (let s1 = edit_lua (RawSetString a ''value'' v) s;
                 s2 = (if control_type e a s1 = ''image'' then edit_lua (RawSetString a ''src'' v) s1 else s1)
             in (Ret [], send_control e form name a s2)))"

definition ctrl_get_value :: "engine \<Rightarrow> string \<Rightarrow> string \<Rightarrow> session \<Rightarrow> kret \<times> session" where
  "ctrl_get_value e form name = on_control form name [LNil] (\<lambda>a s. (Ret [shown_value e a s], s))"

definition chat_key :: "string \<Rightarrow> string option" where
  "chat_key prop = (if prop = ''title'' then Some ''ai_title'' else if prop = ''placeholder'' then Some ''ai_placeholder'' else None)"

definition ctrl_set_property ::
  "engine \<Rightarrow> (lua_state \<Rightarrow> string \<Rightarrow> string) \<Rightarrow> string \<Rightarrow> string \<Rightarrow> string \<Rightarrow> lua_value \<Rightarrow> session \<Rightarrow> kret \<times> session" where
  "ctrl_set_property e rf form name prop v =
     on_control form name [] (\<lambda>a s.
       if prop = ''cell'' then
         (let s1 = edit_lua (RawSetString a prop v) s
          in (Ret [], SendOutbox (render_message form (rf (lua (world s1)) form)) s1))
       else
         (let s1 = (if control_type e a s = ''ai_chat''
                    then (case chat_key prop of Some k \<Rightarrow> edit_lua (RawSetString a k v) s | None \<Rightarrow> s) else s)
          in (Ret [], send_control e form name a (edit_lua (RawSetString a prop v) s1))))"

definition ctrl_get_property :: "string \<Rightarrow> string \<Rightarrow> string \<Rightarrow> session \<Rightarrow> kret \<times> session" where
  "ctrl_get_property form name prop =
     on_control form name [LNil] (\<lambda>a s. (Ret [RawGetString (lua (world s)) a prop], s))"

definition ctrl_set_focus :: "string \<Rightarrow> string \<Rightarrow> session \<Rightarrow> kret \<times> session" where
  "ctrl_set_focus form name s = (Ret [], SendOutbox (empty_msg\<lparr>Type := ''focus'', Form := form, Ctrl := name\<rparr>) s)"

definition ctrl_refresh :: "engine \<Rightarrow> string \<Rightarrow> string \<Rightarrow> session \<Rightarrow> kret \<times> session" where
  "ctrl_refresh e form name = on_control form name [] (\<lambda>a s. (Ret [], send_control e form name a s))"

definition ctrl_select_text :: "string \<Rightarrow> string \<Rightarrow> session \<Rightarrow> kret \<times> session" where
  "ctrl_select_text form name =
     on_control form name [] (\<lambda>a s. (Ret [], SendOutbox (empty_msg\<lparr>Type := ''select_text'', Form := form, Ctrl := name\<rparr>) s))"

text \<open>The range as \<^verbatim>\<open>json.Marshal\<close> prints the map, its keys sorted.\<close>

definition range_json :: "int \<Rightarrow> int \<Rightarrow> string" where
  "range_json a b = ''{'' @ [CHR 0x22] @ ''from'' @ [CHR 0x22] @ '':'' @ itoa a @ '','' @ [CHR 0x22] @ ''to'' @ [CHR 0x22] @ '':'' @ itoa b @ ''}''"

definition ctrl_set_selection :: "string \<Rightarrow> string \<Rightarrow> int \<Rightarrow> int \<Rightarrow> session \<Rightarrow> kret \<times> session" where
  "ctrl_set_selection form name a b =
     on_control form name [] (\<lambda>c s.
       (Ret [], SendOutbox (empty_msg\<lparr>Type := ''select_range'', Form := form, Ctrl := name, Data := range_json a b\<rparr>) s))"

definition ctrl_get_selection :: "int \<Rightarrow> nat \<Rightarrow> string \<Rightarrow> string \<Rightarrow> session \<Rightarrow> kret \<times> session" where
  "ctrl_get_selection now co form name =
     on_control form name [LNil] (\<lambda>a s. (Suspend, RequestSelection now co False form name s))"

definition table_count :: "lua_state \<Rightarrow> lua_value \<Rightarrow> nat" where
  "table_count L v = (case v of LTable t \<Rightarrow> table_len L t | _ \<Rightarrow> 0)"

definition ctrl_get_item_count :: "engine \<Rightarrow> string \<Rightarrow> string \<Rightarrow> session \<Rightarrow> kret \<times> session" where
  "ctrl_get_item_count e form name =
     on_control form name [LNumber (float_of_int 0)] (\<lambda>a s.
       (let L = lua (world s); typ = control_type e a s;
            n = (if typ \<in> {''combo'', ''list'', ''radio''} then table_count L (RawGetString L a ''items'')
                 else if typ = ''table'' then
                   (case RawGetString L a ''rows'' of
                      LTable t \<Rightarrow> table_len L t
                    | _ \<Rightarrow> table_count L (RawGetString L a ''data''))
                 else 0)
        in (Ret [LNumber (float_of_int (int n))], s)))"

definition ctrl_execute_event :: "engine \<Rightarrow> string \<Rightarrow> string \<Rightarrow> string \<Rightarrow> session \<Rightarrow> session outcome" where
  "ctrl_execute_event e form name event s =
     (case getControl (lua (world s)) form name of
        None \<Rightarrow> Done s
      | Some a \<Rightarrow> PostEvent form name event (Some (shown_value e a s)) s)"

section \<open>Plain tables\<close>

definition not_a :: "string \<Rightarrow> string \<Rightarrow> string" where
  "not_a kind name = ''control '' @ name @ '' is not a '' @ kind"

definition table_add_line :: "engine \<Rightarrow> string \<Rightarrow> string \<Rightarrow> nat \<Rightarrow> session \<Rightarrow> kret \<times> session" where
  "table_add_line e form name vals =
     on_control form name [] (\<lambda>a s.
       if control_type e a s \<noteq> ''table'' then (Raise (not_a ''table'' name), s)
       else (case sub_or_new a ''rows'' (lua (world s)) of
               (L1, None) \<Rightarrow> (Ret [], set_lua L1 s)
             | (L1, Some rows) \<Rightarrow>
                 (let i = Suc (table_len L1 rows); (L2, row) = NewTable L1; L3 = copy_table row vals L2
                  in (Ret [], send_control e form name a (set_lua (RawSetInt rows i (LTable row) L3) s)))))"

definition rows_of :: "engine \<Rightarrow> nat \<Rightarrow> session \<Rightarrow> nat option" where
  "rows_of e a s =
     (if control_type e a s \<noteq> ''table'' then None else table_of (RawGetString (lua (world s)) a ''rows''))"

definition row_at :: "lua_state \<Rightarrow> nat \<Rightarrow> int \<Rightarrow> nat option" where
  "row_at L rows i = table_of (RawGetInt L rows i)"

definition table_delete_line :: "engine \<Rightarrow> string \<Rightarrow> string \<Rightarrow> int \<Rightarrow> session \<Rightarrow> kret \<times> session" where
  "table_delete_line e form name i =
     on_control form name [] (\<lambda>a s.
       case rows_of e a s of
         None \<Rightarrow> (Ret [], s)
       | Some rows \<Rightarrow> (Ret [], send_control e form name a (edit_lua (RawSetIndex rows i LNil) s)))"

definition table_set_column_value ::
  "engine \<Rightarrow> string \<Rightarrow> string \<Rightarrow> int \<Rightarrow> string \<Rightarrow> lua_value \<Rightarrow> session \<Rightarrow> kret \<times> session" where
  "table_set_column_value e form name i column v =
     on_control form name [] (\<lambda>a s.
       case Option.bind (rows_of e a s) (\<lambda>rows. row_at (lua (world s)) rows i) of
         None \<Rightarrow> (Ret [], s)
       | Some row \<Rightarrow> (Ret [], send_control e form name a (edit_lua (RawSetString row column v) s)))"

definition table_get_column_value :: "engine \<Rightarrow> string \<Rightarrow> string \<Rightarrow> int \<Rightarrow> string \<Rightarrow> session \<Rightarrow> kret \<times> session" where
  "table_get_column_value e form name i column =
     on_control form name [LNil] (\<lambda>a s.
       (Ret [case Option.bind (rows_of e a s) (\<lambda>rows. row_at (lua (world s)) rows i) of
               None \<Rightarrow> LNil | Some row \<Rightarrow> RawGetString (lua (world s)) row column], s))"

definition table_get_selected_column :: "string \<Rightarrow> string \<Rightarrow> session \<Rightarrow> kret \<times> session" where
  "table_get_selected_column form name = ctrl_get_property form name ''selected_column''"

definition table_set_selected_column :: "string \<Rightarrow> string \<Rightarrow> string \<Rightarrow> session \<Rightarrow> kret \<times> session" where
  "table_set_selected_column form name column =
     on_control form name [] (\<lambda>a s. (Ret [], edit_lua (RawSetString a ''selected_column'' (LString column)) s))"

section \<open>Form properties, showing and closing\<close>

definition reserved_form_keys :: "string set" where
  "reserved_form_keys = {''name'', ''controls'', ''handlers'', ''order''}"

definition fail_in :: "engine \<Rightarrow> int \<Rightarrow> string \<Rightarrow> session \<Rightarrow> kret \<times> session" where
  "fail_in e code msg s =
     (let (v, w) = env_fail (eng_hook e) code msg (world s) in (Ret [v], s\<lparr>world := w\<rparr>))"

definition k_set_property ::
  "engine \<Rightarrow> (lua_state \<Rightarrow> string \<Rightarrow> string) \<Rightarrow> string \<Rightarrow> string \<Rightarrow> lua_value \<Rightarrow> session \<Rightarrow> kret \<times> session" where
  "k_set_property e rf form prop v s =
     (if prop \<in> reserved_form_keys then
        fail_in e KErrorInvalidParam (''set_property: cannot set reserved form key: '' @ prop) s
      else case form_table (lua (world s)) form of
             None \<Rightarrow> fail_in e KErrorInvalidParam (''set_property: form not found: '' @ form) s
           | Some f \<Rightarrow>
               (let s1 = edit_lua (RawSetString f prop v) s
                in (Ret [], SendOutbox (render_message form (rf (lua (world s1)) form)) s1)))"

definition k_get_property :: "string \<Rightarrow> string \<Rightarrow> session \<Rightarrow> kret \<times> session" where
  "k_get_property form prop s =
     (Ret [case form_table (lua (world s)) form of None \<Rightarrow> LNil | Some f \<Rightarrow> RawGetString (lua (world s)) f prop], s)"

definition form_refresh :: "(lua_state \<Rightarrow> string \<Rightarrow> string) \<Rightarrow> string \<Rightarrow> session \<Rightarrow> kret \<times> session" where
  "form_refresh rf form s = (Ret [], SendOutbox (render_message form (rf (lua (world s)) form)) s)"

text \<open>\<^verbatim>\<open>k.form.clear\<close> is a stub in the code.\<close>

definition form_clear :: "string \<Rightarrow> session \<Rightarrow> kret \<times> session" where
  "form_clear form s = (Ret [], s)"

definition note_shown :: "string \<Rightarrow> bool \<Rightarrow> go_float \<times> go_float \<Rightarrow> lua_state \<Rightarrow> lua_state" where
  "note_shown form modal gap L =
     (case form_table L form of
        None \<Rightarrow> L
      | Some f \<Rightarrow> RawSetString f ''gap_y'' (LNumber (snd gap)) (RawSetString f ''gap_x'' (LNumber (fst gap))
                    (RawSetString f ''modal'' (LBool modal) L)))"

text \<open>\<open>co\<close> is the coroutine that calls; it is suspended until the form is closed.\<close>

definition form_show :: "(lua_state \<Rightarrow> string \<Rightarrow> string) \<Rightarrow> nat \<Rightarrow> string \<Rightarrow> nat \<Rightarrow> session \<Rightarrow> (kret \<times> session) outcome" where
  "form_show rf co name opts s =
     (let L = lua (world s);
          modal = RawGetString L opts ''modal'' \<notin> {LNil, LBool False};
          gap = parseGap L (RawGetString L opts ''gap'');
          s1 = StoreFormCoro name co (PushForm name (edit_lua (note_shown name modal gap) s))
      in andThen (PostFormEvent name ''open_form'' s1)
           (\<lambda>s2. andThen (PostFormEvent name ''after_open_form''
                    (SendOutbox ((render_message name (rf (lua (world s2)) name))
                       \<lparr>Modal := modal, GapX := fst gap, GapY := snd gap\<rparr>) s2))
                  (\<lambda>s3. Done (Suspend, s3))))"

definition close_message :: "string \<Rightarrow> outbox_msg" where
  "close_message name = empty_msg\<lparr>Type := ''close_form'', Form := name\<rparr>"

definition emitChartDestroys :: "engine \<Rightarrow> string \<Rightarrow> session \<Rightarrow> session" where
  "emitChartDestroys e form s =
     (let L = lua (world s); sh = eng_show e in
      case Option.bind (form_table L form) (sub_table L ''controls'') of
        None \<Rightarrow> s
      | Some c \<Rightarrow>
          fold (\<lambda>name. SendOutbox (empty_msg\<lparr>Type := ''chart_destroy'', Form := form, Ctrl := name,
                                          Selector := ctrl_selector form name\<rparr>))
            (List.map_filter (\<lambda>(k, v). case v of
                LTable a \<Rightarrow> (if lv_string sh (RawGetString L a ''type'') = ''chart'' then Some (lv_string sh k) else None)
              | _ \<Rightarrow> None) (for_each L c)) s)"

text \<open>\<^verbatim>\<open>k.form.close\<close>: the top of the stack is popped, whichever form is named.\<close>

definition resume_closed :: "engine \<Rightarrow> string \<Rightarrow> session \<Rightarrow> session outcome" where
  "resume_closed e name s =
     andThen (PostFormEvent name ''close_form'' s)
       (\<lambda>s1. andThen (ResumeFormCoro e name s1)
         (\<lambda>(_, s2). Done (emitChartDestroys e name (SendOutbox (close_message name) s2))))"

definition form_close :: "engine \<Rightarrow> string \<Rightarrow> session \<Rightarrow> session outcome" where
  "form_close e arg s =
     (let name = (if arg = [] then TopForm s else arg) in resume_closed e name (fst (PopForm s)))"

text \<open>The loop of \<^verbatim>\<open>k.form.return_to\<close>; a resumed coroutine may show further forms, so it takes fuel.\<close>

fun form_return_to :: "engine \<Rightarrow> nat \<Rightarrow> string \<Rightarrow> session \<Rightarrow> session outcome option" where
  "form_return_to e 0 name s = None"
| "form_return_to e (Suc n) name s =
     (if TopForm s = name \<or> TopForm s = [] then Some (Done s)
      else (let (s1, closed) = PopForm s in
            case resume_closed e closed s1 of
              Done s2 \<Rightarrow> form_return_to e n name s2
            | r \<Rightarrow> Some r))"

section \<open>What allocation and writes leave alone\<close>

lemma NewTable_facts:
  assumes "heap_ok L"
  shows "heap_ok (fst (NewTable L))" "snd (NewTable L) = next_addr L" "next_addr (fst (NewTable L)) = Suc (next_addr L)"
    and "RawGetString (fst (NewTable L)) b k = RawGetString L b k" "RawGetString L (next_addr L) k = LNil"
    and "globals (fst (NewTable L)) = globals L" "table_at (fst (NewTable L)) b = table_at L b"
    and "table_at L (next_addr L) = empty_table"
proof -
  have n: "map_of (heap L) (next_addr L) = None" using NewTable_fresh [OF assms] by (simp add: NewTable_def)
  then show "RawGetString L (next_addr L) k = LNil" "table_at L (next_addr L) = empty_table"
    by (simp_all add: RawGetString_def table_at_def empty_table_def)
  then show "table_at (fst (NewTable L)) b = table_at L b"
    by (simp add: NewTable_def table_at_def split: option.splits)
  show "heap_ok (fst (NewTable L))" using assms by (auto simp: heap_ok_def NewTable_def less_SucI)
  show "RawGetString (fst (NewTable L)) b k = RawGetString L b k" by (rule RawGetString_NewTable [OF assms])
qed (simp_all add: NewTable_def)

lemma arr_RawSetString [simp]: "arr (table_at (RawSetString a k v L) b) = arr (table_at L b)"
  by (simp add: RawSetString_def Let_def)

lemma GetGlobal_globals: "globals L' = globals L \<Longrightarrow> GetGlobal L' = GetGlobal L"
  by (rule ext) (simp add: GetGlobal_def)

text \<open>\<open>undisturbed P L L'\<close>: nothing is freed, and the named entries of the old tables outside \<open>P\<close> are as before.\<close>

definition undisturbed :: "(nat \<Rightarrow> string \<Rightarrow> bool) \<Rightarrow> lua_state \<Rightarrow> lua_state \<Rightarrow> bool" where
  "undisturbed P L L' \<longleftrightarrow> heap_ok L' \<and> globals L' = globals L \<and> next_addr L \<le> next_addr L'
     \<and> (\<forall>b k. b < next_addr L \<longrightarrow> \<not> P b k \<longrightarrow> RawGetString L' b k = RawGetString L b k)"

lemma kept_refl: "heap_ok L \<Longrightarrow> undisturbed P L L"
  by (simp add: undisturbed_def)

lemma kept_trans: "undisturbed P L L1 \<Longrightarrow> undisturbed P L1 L2 \<Longrightarrow> undisturbed P L L2"
  by (auto simp: undisturbed_def)

lemma kept_mono: "undisturbed P L L' \<Longrightarrow> (\<And>b k. P b k \<Longrightarrow> Q b k) \<Longrightarrow> undisturbed Q L L'"
  by (auto simp: undisturbed_def)

lemma kept_RawSetString: "heap_ok L \<Longrightarrow> a < next_addr L \<Longrightarrow> P a k \<Longrightarrow> undisturbed P L (RawSetString a k v L)"
  by (auto simp: undisturbed_def heap_ok_RawSet)

lemma kept_NewTable: "heap_ok L \<Longrightarrow> undisturbed P L (fst (NewTable L))"
  by (simp add: undisturbed_def NewTable_facts)

lemma kept_fold: "(\<And>x L'. undisturbed P L L' \<Longrightarrow> x \<in> set xs \<Longrightarrow> undisturbed P L' (g x L')) \<Longrightarrow> heap_ok L \<Longrightarrow> undisturbed P L (fold g xs L)"
proof (induction xs arbitrary: L)
  case (Cons x xs)
  have 1: "undisturbed P L (g x L)" using Cons.prems(1) [OF kept_refl [OF Cons.prems(2)]] by simp
  then have "undisturbed P (g x L) (fold g xs (g x L))"
    using Cons.prems(1) kept_trans [OF 1] by (intro Cons.IH) (auto simp: undisturbed_def)
  then show ?case using kept_trans [OF 1] by simp
qed (simp add: kept_refl)

section \<open>The handlers of a form as a map\<close>

definition handler_map :: "lua_state \<Rightarrow> nat \<Rightarrow> string \<times> string \<Rightarrow> nat option" where
  "handler_map L f ke =
     Option.bind (Option.bind (sub_table L ''handlers'' f) (sub_table L (fst ke))) (\<lambda>t. function_of (RawGetString L t (snd ke)))"

lemma form_handler_map: "form_table L form = Some f \<Longrightarrow> form_handler L form key event = handler_map L f (key, event)"
  by (simp add: form_handler_def handlers_of_def handler_map_def)

text \<open>The handler tables of a form are allocated, and no table is reached in two ways.\<close>

definition events_ok :: "lua_state \<Rightarrow> nat \<Rightarrow> nat \<Rightarrow> bool" where
  "events_ok L f h \<longleftrightarrow> h < next_addr L \<and> h \<noteq> f
     \<and> (\<forall>k. RawGetString L h k = LNil \<or> (\<exists>t. RawGetString L h k = LTable t))
     \<and> (\<forall>k t. RawGetString L h k = LTable t \<longrightarrow> t < next_addr L \<and> t \<noteq> f \<and> t \<noteq> h)
     \<and> (\<forall>k k' t. RawGetString L h k = LTable t \<longrightarrow> RawGetString L h k' = LTable t \<longrightarrow> k' = k)"

definition handlers_ok :: "lua_state \<Rightarrow> nat \<Rightarrow> bool" where
  "handlers_ok L f \<longleftrightarrow> heap_ok L \<and> f < next_addr L
     \<and> (RawGetString L f ''handlers'' = LNil \<or> (\<exists>h. RawGetString L f ''handlers'' = LTable h \<and> events_ok L f h))"

lemma events_ok_table:
  "events_ok L f h \<Longrightarrow> RawGetString L h k = LTable t \<Longrightarrow> t < next_addr L \<and> t \<noteq> f \<and> t \<noteq> h"
  by (simp add: events_ok_def)

lemma events_ok_inj:
  "events_ok L f h \<Longrightarrow> RawGetString L h k = LTable t \<Longrightarrow> RawGetString L h k' = LTable t \<Longrightarrow> k' = k"
  unfolding events_ok_def by blast

lemma events_ok_cases: "events_ok L f h \<Longrightarrow> RawGetString L h k = LNil \<or> (\<exists>t. RawGetString L h k = LTable t)"
  by (simp add: events_ok_def)

text \<open>The tables a registration may write.\<close>

definition handler_place :: "lua_state \<Rightarrow> nat \<Rightarrow> nat \<Rightarrow> string \<Rightarrow> bool" where
  "handler_place L f b k \<longleftrightarrow> (b = f \<and> k = ''handlers'')
     \<or> (\<exists>h. RawGetString L f ''handlers'' = LTable h \<and> (b = h \<or> (\<exists>key. RawGetString L h key = LTable b)))"

definition event_lookup :: "lua_state \<Rightarrow> nat \<Rightarrow> string \<times> string \<Rightarrow> nat option" where
  "event_lookup L h ke = Option.bind (sub_table L (fst ke) h) (\<lambda>t. function_of (RawGetString L t (snd ke)))"

lemma handler_map_lookup:
  "handler_map L f ke = (case RawGetString L f ''handlers'' of LTable h \<Rightarrow> event_lookup L h ke | _ \<Rightarrow> None)"
  by (simp add: handler_map_def event_lookup_def sub_table_def split: lua_value.split)

text \<open>The table of events is there, or made.\<close>

lemma events_table:
  assumes ok: "heap_ok L" "events_ok L f h" "f < next_addr L" and s: "sub_or_new h key L = (L1, ot)"
  shows "\<exists>t. ot = Some t \<and> RawGetString L1 h key = LTable t" "heap_ok L1" "events_ok L1 f h" "event_lookup L1 h = event_lookup L h"
    and "undisturbed (\<lambda>b k. b = h) L L1" "\<And>b. arr (table_at L1 b) = arr (table_at L b)"
    and "\<And>t. ot = Some t \<Longrightarrow> next_addr L \<le> t \<or> RawGetString L h key = LTable t"
    and "\<And>k u. RawGetString L1 h k = LTable u \<Longrightarrow> RawGetString L h k = LTable u \<or> next_addr L \<le> u"
proof -
  have h: "h < next_addr L" "h \<noteq> f" using ok(2) by (simp_all add: events_ok_def)
  consider (new) "RawGetString L h key = LNil" | (old) t where "RawGetString L h key = LTable t"
    using events_ok_cases [OF ok(2)] by blast
  note c = this
  note nt = NewTable_facts [OF ok(1)]
  define n where "n = next_addr L"
  have e: "L1 = RawSetString h key (LTable n) (fst (NewTable L)) \<and> ot = Some n" if "RawGetString L h key = LNil"
    using s that nt(2) by (simp add: sub_or_new_def n_def case_prod_beta)
  have hn: "n \<noteq> h" "n \<noteq> f" using h(1) ok(3) by (auto simp: n_def)
  have g: "RawGetString L1 b k = (if b = h \<and> k = key then LTable n else RawGetString L b k)"
    if "RawGetString L h key = LNil" for b k using e [OF that] by (simp add: nt(4))
  have d: "L1 = L \<and> ot = Some t" if "RawGetString L h key = LTable t" for t
    using s that by (simp add: sub_or_new_def)
  show "\<exists>t. ot = Some t \<and> RawGetString L1 h key = LTable t"
  proof (cases rule: c)
    case new
    show ?thesis using e [OF new] g [OF new] by simp
  next
    case (old t)
    then show ?thesis using d by simp
  qed
  show "next_addr L \<le> t \<or> RawGetString L h key = LTable t" if "ot = Some t" for t
  proof (cases rule: c)
    case new
    show ?thesis using e [OF new] that by (simp add: n_def)
  next
    case (old u)
    then show ?thesis using d [OF old] that by simp
  qed
  show "RawGetString L h k = LTable u \<or> next_addr L \<le> u" if "RawGetString L1 h k = LTable u" for k u
  proof (cases rule: c)
    case new
    show ?thesis using that g [OF new] by (auto simp: n_def split: if_splits)
  next
    case (old t)
    then show ?thesis using d [OF old] that by simp
  qed
  show k: "undisturbed (\<lambda>b k. b = h) L L1"
  proof (cases rule: c)
    case new
    have "undisturbed (\<lambda>b k. b = h) (fst (NewTable L)) L1"
      using e [OF new] h(1) nt(1,3) by (auto intro!: kept_RawSetString)
    then show ?thesis by (rule kept_trans [OF kept_NewTable [OF ok(1)]])
  qed (use d ok(1) in \<open>simp add: kept_refl\<close>)
  then show "heap_ok L1" by (simp add: undisturbed_def)
  show "arr (table_at L1 b) = arr (table_at L b)" for b
  proof (cases rule: c)
    case new
    show ?thesis using e [OF new] nt(7) by simp
  next
    case (old t)
    then show ?thesis using d by simp
  qed
  show "events_ok L1 f h"
  proof (cases rule: c)
    case new
    have none: "RawGetString L h k \<noteq> LTable n" for k using events_ok_table [OF ok(2)] by (auto simp: n_def)
    have na: "next_addr L1 = Suc n" using e [OF new] nt(3) by (simp add: n_def)
    have "RawGetString L1 h k = LNil \<or> (\<exists>t. RawGetString L1 h k = LTable t)" for k
      using events_ok_cases [OF ok(2), of k] by (simp add: g [OF new])
    moreover have "t < next_addr L1 \<and> t \<noteq> f \<and> t \<noteq> h" if "RawGetString L1 h k = LTable t" for k t
      using that hn events_ok_table [OF ok(2), of k t] by (auto simp: g [OF new] na n_def split: if_splits)
    moreover have "k' = k" if "RawGetString L1 h k = LTable t" "RawGetString L1 h k' = LTable t" for k k' t
      using that none events_ok_inj [OF ok(2), of k t k'] by (auto simp: g [OF new] split: if_splits)
    moreover have "h < next_addr L1" using h(1) by (simp add: na n_def)
    ultimately show ?thesis using h(2) unfolding events_ok_def by blast
  qed (use d ok(2) in simp)
  show "event_lookup L1 h = event_lookup L h"
  proof (cases rule: c)
    case new
    have n: "RawGetString L1 n k = LNil" for k using hn(1) nt(5) by (simp add: g [OF new] n_def)
    have "event_lookup L1 h ke = event_lookup L h ke" for ke
    proof (cases "fst ke = key")
      case True
      then show ?thesis using new n by (simp add: event_lookup_def sub_table_def g [OF new])
    next
      case False
      then have "sub_table L1 (fst ke) h = sub_table L (fst ke) h" by (simp add: sub_table_def g [OF new])
      moreover have "RawGetString L1 t k = RawGetString L t k" if "sub_table L (fst ke) h = Some t" for t k
        using that events_ok_table [OF ok(2), of "fst ke" t] by (simp add: sub_table_def g [OF new])
      ultimately show ?thesis by (cases "sub_table L (fst ke) h") (simp_all add: event_lookup_def)
    qed
    then show ?thesis by (rule ext)
  qed (use d in simp)
qed

lemma event_stored:
  assumes ok: "heap_ok L" "events_ok L f h" and t: "RawGetString L h key = LTable t"
  shows "event_lookup (RawSetString t event (LFunction fn) L) h = (event_lookup L h)((key, event) \<mapsto> fn)"
    and "events_ok (RawSetString t event (LFunction fn) L) f h"
proof -
  let ?L = "RawSetString t event (LFunction fn) L"
  have th: "t \<noteq> h" using events_ok_table [OF ok(2) t] by simp
  then show "events_ok ?L f h" using ok(2) by (simp add: events_ok_def)
  have "event_lookup ?L h (k, ev) = ((event_lookup L h)((key, event) \<mapsto> fn)) (k, ev)" for k ev
  proof (cases "k = key")
    case True
    then show ?thesis using th t by (simp add: event_lookup_def sub_table_def)
  next
    case False
    then have "sub_table L k h \<noteq> Some t" using events_ok_inj [OF ok(2) t, of k] by (auto simp: sub_table_def)
    then have "Option.bind (sub_table L k h) (\<lambda>a. function_of (RawGetString ?L a ev))
        = Option.bind (sub_table L k h) (\<lambda>a. function_of (RawGetString L a ev))"
      by (intro bind_option_cong) auto
    then show ?thesis using th False by (simp add: event_lookup_def sub_table_def)
  qed
  then show "event_lookup ?L h = (event_lookup L h)((key, event) \<mapsto> fn)" by (intro ext) (metis surj_pair)
qed

text \<open>Registering a handler is an update of the form's handler map.\<close>

lemma store_handler_map:
  assumes ok: "handlers_ok L f" and s: "store_handler f key event fn L = (stored, L')"
  shows "stored" "handler_map L' f = (handler_map L f)((key, event) \<mapsto> fn)" "handlers_ok L' f"
    and "undisturbed (handler_place L f) L L'" "\<And>b. arr (table_at L' b) = arr (table_at L b)"
    and "\<And>b k. handler_place L' f b k \<Longrightarrow> handler_place L f b k \<or> next_addr L \<le> b"
proof -
  have L: "heap_ok L" "f < next_addr L" using ok by (simp_all add: handlers_ok_def)
  have "\<exists>h L0. sub_or_new f ''handlers'' L = (L0, Some h) \<and> RawGetString L0 f ''handlers'' = LTable h \<and> events_ok L0 f h
      \<and> handler_map L f = event_lookup L0 h \<and> undisturbed (handler_place L f) L L0 \<and> (\<forall>b. arr (table_at L0 b) = arr (table_at L b))
      \<and> (\<forall>b k. handler_place L0 f b k \<longrightarrow> handler_place L f b k \<or> next_addr L \<le> b)"
  proof (cases "RawGetString L f ''handlers'' = LNil")
    case True
    define n where "n = next_addr L"
    define L0 where "L0 = RawSetString f ''handlers'' (LTable n) (fst (NewTable L))"
    note nt = NewTable_facts [OF L(1)]
    have none: "RawGetString L0 n k = LNil" for k using L(2) nt(5) by (simp add: L0_def n_def nt(4))
    have "sub_or_new f ''handlers'' L = (L0, Some n)"
      using True by (simp add: sub_or_new_def L0_def n_def nt(2) case_prod_beta)
    moreover have "events_ok L0 f n" using L(2) none by (simp add: events_ok_def L0_def n_def nt(3))
    moreover have "handler_map L f = event_lookup L0 n"
      using True none by (simp add: fun_eq_iff handler_map_lookup event_lookup_def sub_table_def)
    moreover have "undisturbed (handler_place L f) L L0"
      using L nt(1,3) unfolding L0_def
      by (intro kept_trans [OF kept_NewTable [OF L(1)] kept_RawSetString]) (simp_all add: handler_place_def)
    moreover have "\<forall>b. arr (table_at L0 b) = arr (table_at L b)" by (simp add: L0_def nt(7))
    moreover have "handler_place L f b k \<or> next_addr L \<le> b" if "handler_place L0 f b k" for b k
      using that none by (auto simp: handler_place_def L0_def n_def)
    ultimately show ?thesis by (intro exI [of _ n] exI [of _ L0]) (auto simp: L0_def)
  next
    case False
    then obtain h where "RawGetString L f ''handlers'' = LTable h" "events_ok L f h" using ok by (auto simp: handlers_ok_def)
    then show ?thesis
      by (intro exI [of _ h] exI [of _ L]) (simp add: sub_or_new_def fun_eq_iff handler_map_lookup kept_refl L(1))
  qed
  then obtain h L0 where 0: "sub_or_new f ''handlers'' L = (L0, Some h)" "RawGetString L0 f ''handlers'' = LTable h"
    "events_ok L0 f h" "handler_map L f = event_lookup L0 h" "undisturbed (handler_place L f) L L0"
    "\<And>b. arr (table_at L0 b) = arr (table_at L b)"
    "\<And>b k. handler_place L0 f b k \<Longrightarrow> handler_place L f b k \<or> next_addr L \<le> b" by blast
  have L0: "heap_ok L0" "f < next_addr L0" using 0(5) L(2) by (simp_all add: undisturbed_def)
  obtain L1 ot where 1: "sub_or_new h key L0 = (L1, ot)" by fastforce
  note e = events_table [OF L0(1) 0(3) L0(2) 1]
  obtain t where t: "ot = Some t" "RawGetString L1 h key = LTable t" using e(1) by blast
  note st = event_stored [OF e(2,3) t(2), of event fn]
  have L': "L' = RawSetString t event (LFunction fn) L1" "stored" using s 0(1) 1 t(1) by (simp_all add: store_handler_def)
  have hf: "h \<noteq> f" "t \<noteq> f" "t < next_addr L1" using 0(3) events_ok_table [OF e(3) t(2)] by (simp_all add: events_ok_def)
  have f: "RawGetString L' f ''handlers'' = LTable h"
    using 0(2) e(5) hf L0(2) by (simp add: L' undisturbed_def)
  show "stored" by (rule L'(2))
  have "handler_map L' f = event_lookup L' h" by (rule ext) (simp add: handler_map_lookup f)
  then show "handler_map L' f = (handler_map L f)((key, event) \<mapsto> fn)"
    using st(1) by (simp add: L'(1) 0(4) e(4))
  have keep: "undisturbed (\<lambda>b k. b = h \<or> b = t) L0 L'"
    using kept_mono [OF e(5)] hf(3) e(2) unfolding L'
    by (intro kept_trans [OF kept_mono [OF e(5)] kept_RawSetString]) simp_all
  have hp: "heap_ok L'" "f < next_addr L'" using keep L0(2) by (simp_all add: undisturbed_def)
  have ev: "events_ok L' f h" unfolding L'(1) by (rule st(2))
  show "handlers_ok L' f" unfolding handlers_ok_def using hp f ev by blast
  have h_old: "handler_place L f h k \<or> next_addr L \<le> h" for k
    using 0(2) 0(7) [of h k] by (simp add: handler_place_def)
  have t_old: "handler_place L f t k \<or> next_addr L \<le> t" for k
  proof (cases "next_addr L0 \<le> t")
    case True
    then show ?thesis using 0(5) by (simp add: undisturbed_def)
  next
    case False
    then have "RawGetString L0 h key = LTable t" using e(7) [OF t(1)] by simp
    then have "handler_place L0 f t k" using 0(2) by (auto simp: handler_place_def)
    then show ?thesis by (rule 0(7))
  qed
  have "undisturbed (\<lambda>b k. handler_place L f b k \<or> next_addr L \<le> b) L0 L'"
    by (rule kept_mono [OF keep]) (use h_old t_old in blast)
  moreover have "undisturbed (\<lambda>b k. handler_place L f b k \<or> next_addr L \<le> b) L L0"
    by (rule kept_mono [OF 0(5)]) blast
  ultimately have "undisturbed (\<lambda>b k. handler_place L f b k \<or> next_addr L \<le> b) L L'" by (rule kept_trans [rotated])
  then show "undisturbed (handler_place L f) L L'" by (simp add: undisturbed_def)
  show "arr (table_at L' b) = arr (table_at L b)" for b by (simp add: L' e(6) 0(6))
  show "handler_place L f b k \<or> next_addr L \<le> b" if p: "handler_place L' f b k" for b k
  proof -
    consider "b = f" "k = ''handlers''" | "b = h" | u where "RawGetString L' h u = LTable b"
      using p f by (auto simp: handler_place_def)
    then show ?thesis
    proof cases
      case 3
      then have "RawGetString L1 h u = LTable b"
        using events_ok_table [OF e(3) t(2)] by (simp add: L' split: if_splits)
      then have "RawGetString L0 h u = LTable b \<or> next_addr L0 \<le> b" by (rule e(8))
      then show ?thesis using 0(2) 0(7) [of b k] 0(5) by (auto simp: handler_place_def undisturbed_def)
    qed (use h_old [of k] in \<open>simp_all add: handler_place_def\<close>)
  qed
qed

section \<open>The controls of a form\<close>

definition control_map :: "lua_state \<Rightarrow> nat \<Rightarrow> string \<Rightarrow> nat option" where
  "control_map L f name = Option.bind (sub_table L ''controls'' f) (sub_table L name)"

definition order_names :: "lua_state \<Rightarrow> nat \<Rightarrow> lua_value list" where
  "order_names L f = (case RawGetString L f ''order'' of LTable od \<Rightarrow> arr (table_at L od) | _ \<Rightarrow> [])"

lemma controlTable_map: "form_table L form = Some f \<Longrightarrow> controlTable L form name = control_map L f name"
  by (simp add: controlTable_def control_map_def)

text \<open>A table of the form's own: allocated, and no part of its handlers.\<close>

definition apart :: "lua_state \<Rightarrow> nat \<Rightarrow> nat \<Rightarrow> bool" where
  "apart L f b \<longleftrightarrow> b < next_addr L \<and> b \<noteq> f \<and> (\<forall>k. \<not> handler_place L f b k)"

definition nil_or_apart :: "lua_state \<Rightarrow> nat \<Rightarrow> lua_value \<Rightarrow> bool" where
  "nil_or_apart L f v \<longleftrightarrow> v = LNil \<or> (\<exists>t. v = LTable t \<and> apart L f t)"

definition form_sound :: "lua_state \<Rightarrow> nat \<Rightarrow> bool" where
  "form_sound L f \<longleftrightarrow> handlers_ok L f
     \<and> nil_or_apart L f (RawGetString L f ''controls'') \<and> nil_or_apart L f (RawGetString L f ''order'')
     \<and> (\<forall>c k. RawGetString L f ''controls'' = LTable c \<longrightarrow> nil_or_apart L f (RawGetString L c k) \<and> RawGetString L c k \<noteq> LTable c)
     \<and> (\<exists>names. order_names L f = map LString names)"

lemma handler_place_less: "handlers_ok L f \<Longrightarrow> handler_place L f b k \<Longrightarrow> b < next_addr L"
  by (auto simp: handlers_ok_def handler_place_def events_ok_def)

lemma handler_place_self: "handlers_ok L f \<Longrightarrow> k \<noteq> ''handlers'' \<Longrightarrow> \<not> handler_place L f f k"
  by (auto simp: handlers_ok_def handler_place_def dest: events_ok_table)

lemma fresh_apart: "handlers_ok L f \<Longrightarrow> next_addr L \<le> b \<Longrightarrow> \<not> handler_place L f b k"
  using handler_place_less by fastforce

text \<open>Writes outside the handlers leave them as they are.\<close>

lemma handlers_kept:
  assumes ok: "handlers_ok L f" and k: "undisturbed P L L'" and P: "\<forall>b k. P b k \<longrightarrow> \<not> handler_place L f b k"
  shows "handlers_ok L' f" "handler_map L' f = handler_map L f" "handler_place L' f = handler_place L f"
proof -
  have place: "RawGetString L' b k = RawGetString L b k" if "handler_place L f b k" for b k
    using k P that handler_place_less [OF ok that] unfolding undisturbed_def by blast
  have fh: "RawGetString L' f ''handlers'' = RawGetString L f ''handlers''" by (rule place) (simp add: handler_place_def)
  have hk: "RawGetString L' h k = RawGetString L h k" if "RawGetString L f ''handlers'' = LTable h" for h k
    by (rule place) (simp add: handler_place_def that)
  have tk: "RawGetString L' t k = RawGetString L t k"
    if "RawGetString L f ''handlers'' = LTable h" "RawGetString L h key = LTable t" for h key t k
    by (rule place) (use that in \<open>auto simp: handler_place_def\<close>)
  have n: "next_addr L \<le> next_addr L'" "heap_ok L'" using k by (simp_all add: undisturbed_def)
  have "events_ok L' f h" if "RawGetString L f ''handlers'' = LTable h" "events_ok L f h" for h
    using that(2) n(1) unfolding events_ok_def hk [OF that(1)] by fastforce
  then show "handlers_ok L' f" using ok n unfolding handlers_ok_def fh by fastforce
  show "handler_place L' f = handler_place L f"
  proof (intro ext)
    fix b k show "handler_place L' f b k = handler_place L f b k"
      unfolding handler_place_def fh using hk by metis
  qed
  have "event_lookup L' h ke = event_lookup L h ke" if h: "RawGetString L f ''handlers'' = LTable h" for h ke
  proof (cases "sub_table L (fst ke) h")
    case (Some t)
    then have t: "RawGetString L h (fst ke) = LTable t" by (simp add: sub_table_def)
    show ?thesis using tk [OF h t] t by (simp add: event_lookup_def sub_table_def hk [OF h])
  qed (simp add: event_lookup_def sub_table_def hk [OF h])
  then show "handler_map L' f = handler_map L f"
    by (intro ext) (simp add: handler_map_lookup fh split: lua_value.split)
qed

lemma sub_or_new_kept:
  assumes L: "heap_ok L" "f < next_addr L" and s: "sub_or_new f k L = (L1, ot)"
    and v: "RawGetString L f k = LNil \<or> (\<exists>t. RawGetString L f k = LTable t \<and> t < next_addr L)"
  obtains t where "ot = Some t" "RawGetString L1 f k = LTable t" "t < next_addr L1" "undisturbed (\<lambda>b k'. b = f \<and> k' = k) L L1"
    "\<And>b. arr (table_at L1 b) = arr (table_at L b)"
    "RawGetString L f k = LTable t \<or> RawGetString L f k = LNil \<and> t = next_addr L \<and> (\<forall>k'. RawGetString L1 t k' = LNil) \<and> arr (table_at L1 t) = []"
proof (cases "RawGetString L f k = LNil")
  case True
  note nt = NewTable_facts [OF L(1)]
  have e: "L1 = RawSetString f k (LTable (next_addr L)) (fst (NewTable L))" "ot = Some (next_addr L)"
    using s True nt(2) by (simp_all add: sub_or_new_def case_prod_beta)
  show ?thesis
  proof (rule that)
    show "undisturbed (\<lambda>b k'. b = f \<and> k' = k) L L1"
      unfolding e by (rule kept_trans [OF kept_NewTable [OF L(1)] kept_RawSetString]) (use nt(1,3) L(2) in simp_all)
    show "next_addr L < next_addr L1" by (simp add: e nt(3))
    show "arr (table_at L1 b) = arr (table_at L b)" for b by (simp add: e nt(7))
    show "RawGetString L f k = LTable (next_addr L) \<or> RawGetString L f k = LNil \<and> next_addr L = next_addr L
        \<and> (\<forall>k'. RawGetString L1 (next_addr L) k' = LNil) \<and> arr (table_at L1 (next_addr L)) = []"
      using True L(2) by (simp add: e nt(4,5,7,8) empty_table_def)
  qed (simp_all add: e)
next
  case False
  then obtain t where t: "RawGetString L f k = LTable t" "t < next_addr L" using v by blast
  then have "L1 = L" "ot = Some t" using s by (simp_all add: sub_or_new_def)
  then show ?thesis using t L(1) by (intro that [of t]) (simp_all add: kept_refl)
qed

section \<open>Filling a control\<close>

lemma copy_opts_get:
  "b \<noteq> t \<or> k \<notin> fst ` set kss \<Longrightarrow> RawGetString (copy_opts t opts kss L) b k = RawGetString L b k"
  unfolding copy_opts_def by (induction kss arbitrary: L) (auto simp: copy_opt_def)

lemma copy_opts_read:
  "distinct (map fst kss) \<Longrightarrow> opts \<noteq> t \<Longrightarrow> (k, j) \<in> set kss \<Longrightarrow>
   RawGetString (copy_opts t opts kss L) t k = RawGetString L opts j"
proof (induction kss arbitrary: L)
  case (Cons x kss)
  have e: "copy_opts t opts (x # kss) L = copy_opts t opts kss (copy_opt t opts x L)" by (simp add: copy_opts_def)
  show ?case
  proof (cases "(k, j) \<in> set kss")
    case True
    then show ?thesis using Cons by (simp add: e) (simp add: copy_opt_def)
  next
    case False
    then have x: "x = (k, j)" using Cons.prems(3) by auto
    then have "k \<notin> fst ` set kss" using Cons.prems(1) by simp
    then show ?thesis using x Cons.prems(2) by (simp add: e [unfolded x] copy_opts_get) (simp add: copy_opt_def)
  qed
qed simp

lemma copy_opts_kept: "heap_ok L \<Longrightarrow> t < next_addr L \<Longrightarrow> undisturbed (\<lambda>b k. b = t) L (copy_opts t opts kss L)"
  unfolding copy_opts_def
  by (rule kept_fold) (auto simp: copy_opt_def undisturbed_def intro!: heap_ok_RawSet)

lemma copy_opts_arr [simp]: "arr (table_at (copy_opts t opts kss L) b) = arr (table_at L b)"
  unfolding copy_opts_def by (induction kss arbitrary: L) (simp_all add: copy_opt_def)

lemma datetime_kept: "heap_ok L \<Longrightarrow> t < next_addr L \<Longrightarrow> undisturbed (\<lambda>b k. b = t) L (datetime_entries t dt L)"
  unfolding datetime_entries_def
  by (auto split: lua_value.split simp: undisturbed_def heap_ok_RawSet)

lemma extras_kept: "heap_ok L \<Longrightarrow> t < next_addr L \<Longrightarrow> undisturbed (\<lambda>b k. b = t) L (type_extras sh f t opts typ L)"
  unfolding type_extras_def
  by (auto simp: datetime_kept kept_refl intro: kept_RawSetString)

definition extra_keys :: "string set" where
  "extra_keys = {''datetime_mode'', ''datetime_format'', ''datetime_min'', ''datetime_max'', ''datetime_step'',
     ''current_tab'', ''layout''}"

lemma extras_get: "k \<notin> extra_keys \<or> b \<noteq> t \<Longrightarrow> RawGetString (type_extras sh f t opts typ L) b k = RawGetString L b k"
  by (auto simp: type_extras_def datetime_entries_def extra_keys_def split: lua_value.splits)

lemma extras_arr [simp]: "arr (table_at (type_extras sh f t opts typ L) b) = arr (table_at L b)"
  by (simp add: type_extras_def datetime_entries_def split: lua_value.split)

definition with_option :: "string \<Rightarrow> string \<Rightarrow> lua_state \<Rightarrow> nat \<Rightarrow> (string \<times> string \<Rightarrow> nat option) \<Rightarrow> string \<times> string \<Rightarrow> nat option" where
  "with_option typ name L opts m =
     (case option_handler typ of
        None \<Rightarrow> m
      | Some (key, event) \<Rightarrow> (case RawGetString L opts key of LFunction fn \<Rightarrow> m((name, event) \<mapsto> fn) | _ \<Rightarrow> m))"

lemma handle_option_spec:
  assumes ok: "handlers_ok L f" and L'_def: "L' = handle_option f opts name typ L"
  shows "handlers_ok L' f" "handler_map L' f = with_option typ name L opts (handler_map L f)"
    and "undisturbed (handler_place L f) L L'" "\<And>b. arr (table_at L' b) = arr (table_at L b)"
    and "\<And>b k. handler_place L' f b k \<Longrightarrow> handler_place L f b k \<or> next_addr L \<le> b"
proof -
  have r: "undisturbed (handler_place L f) L L" using ok by (simp add: handlers_ok_def kept_refl)
  consider (same) "L' = L" "with_option typ name L opts (handler_map L f) = handler_map L f"
    | (new) key event fn where "option_handler typ = Some (key, event)" "RawGetString L opts key = LFunction fn"
    by (cases "option_handler typ"; force simp: L'_def handle_option_def with_option_def split: lua_value.splits)
  then have "handlers_ok L' f \<and> handler_map L' f = with_option typ name L opts (handler_map L f)
    \<and> undisturbed (handler_place L f) L L' \<and> (\<forall>b. arr (table_at L' b) = arr (table_at L b))
    \<and> (\<forall>b k. handler_place L' f b k \<longrightarrow> handler_place L f b k \<or> next_addr L \<le> b)"
  proof cases
    case same
    then show ?thesis using ok r by simp
  next
    case new
    then have "L' = snd (store_handler f name event fn L)"
      by (simp add: L'_def handle_option_def registerControlHandler_def)
    then obtain ok' where "store_handler f name event fn L = (ok', L')" by (metis prod.collapse)
    from store_handler_map [OF ok this] new show ?thesis by (simp add: with_option_def)
  qed
  then show "handlers_ok L' f" "handler_map L' f = with_option typ name L opts (handler_map L f)"
    "undisturbed (handler_place L f) L L'" "\<And>b. arr (table_at L' b) = arr (table_at L b)"
    "\<And>b k. handler_place L' f b k \<Longrightarrow> handler_place L f b k \<or> next_addr L \<le> b" by blast+
qed

text \<open>Filling writes the new table and, for a function given as an option, the handlers.\<close>

lemma fill_control_spec:
  assumes ok: "handlers_ok L f" and t: "t < next_addr L" "\<And>k. \<not> handler_place L f t k"
    and e: "L' = fill_control sh f t opts form name typ L"
  shows "handlers_ok L' f" "undisturbed (\<lambda>b k. b = t \<or> handler_place L f b k) L L'"
    and "\<And>b. arr (table_at L' b) = arr (table_at L b)"
    and "opts \<noteq> t \<Longrightarrow> handler_map L' f = with_option typ name L opts (handler_map L f)"
    and "\<And>b k. handler_place L' f b k \<Longrightarrow> handler_place L f b k \<or> next_addr L \<le> b"
    and "\<And>k. k \<notin> fst ` set (common_keys @ type_keys typ) \<Longrightarrow> k \<notin> insert ''label'' extra_keys \<Longrightarrow>
           RawGetString L' t k = (if k = ''form'' then LString form else if k = ''type'' then LString typ
                                  else if k = ''name'' then LString name else RawGetString L t k)"
    and "\<And>k j. opts < next_addr L \<Longrightarrow> opts \<noteq> t \<Longrightarrow> (\<And>k. \<not> handler_place L f opts k) \<Longrightarrow>
           (k, j) \<in> set (type_keys typ) \<Longrightarrow> distinct (map fst (type_keys typ)) \<Longrightarrow> k \<notin> extra_keys \<Longrightarrow>
           RawGetString L' t k = RawGetString L opts j"
proof -
  define L1 where "L1 = RawSetString t ''form'' (LString form) (RawSetString t ''type'' (LString typ)
                 (RawSetString t ''name'' (LString name) L))"
  define Ll where "Ll = set_unless_nil t ''label'' (as_text sh (label_option L1 opts typ)) L1"
  define L2 where "L2 = copy_opts t opts common_keys Ll"
  define L3 where "L3 = handle_option f opts name typ L2"
  define L4 where "L4 = copy_opts t opts (type_keys typ) L3"
  have L'e: "L' = type_extras sh f t opts typ L4"
    by (simp add: e fill_control_def L1_def Ll_def L2_def L3_def L4_def Let_def)
  have h: "heap_ok L" "f < next_addr L" using ok by (simp_all add: handlers_ok_def)
  have k1: "undisturbed (\<lambda>b k. b = t) L L1"
    unfolding L1_def using h(1) t(1) by (simp add: undisturbed_def heap_ok_RawSet)
  have "undisturbed (\<lambda>b k. b = t) L1 Ll"
    using k1 t(1) by (simp add: Ll_def set_unless_nil_def undisturbed_def heap_ok_RawSet)
  then have kl: "undisturbed (\<lambda>b k. b = t) L Ll" by (rule kept_trans [OF k1])
  then have k2: "undisturbed (\<lambda>b k. b = t) L L2"
    unfolding L2_def by (rule kept_trans) (use kl t(1) in \<open>simp add: undisturbed_def copy_opts_kept [unfolded undisturbed_def]\<close>)
  have no: "\<forall>b k. b = t \<longrightarrow> \<not> handler_place L f b k" using t(2) by simp
  note hk2 = handlers_kept [OF ok k2 no]
  note hs = handle_option_spec [OF hk2(1) L3_def]
  have t2: "t < next_addr L2" using k2 t(1) by (simp add: undisturbed_def)
  have t3: "t < next_addr L3" using hs(3) t2 by (simp add: undisturbed_def)
  have h3: "heap_ok L3" using hs(3) by (simp add: undisturbed_def)
  have k4: "undisturbed (\<lambda>b k. b = t) L3 L4" unfolding L4_def by (rule copy_opts_kept [OF h3 t3])
  have "undisturbed (\<lambda>b k. b = t) L4 L'" unfolding L'e by (rule extras_kept) (use k4 t3 in \<open>simp_all add: undisturbed_def\<close>)
  then have k5: "undisturbed (\<lambda>b k. b = t) L3 L'" by (rule kept_trans [OF k4])
  have p3: "\<forall>b k. b = t \<longrightarrow> \<not> handler_place L3 f b k"
    using hs(5) [of t] hk2(3) t(2) t2 by fastforce
  note hk3 = handlers_kept [OF hs(1) k5 p3]
  show "handlers_ok L' f" by (rule hk3(1))
  have q: "undisturbed (\<lambda>b k. b = t \<or> handler_place L f b k) L2 L3" by (rule kept_mono [OF hs(3)]) (simp add: hk2(3))
  show "undisturbed (\<lambda>b k. b = t \<or> handler_place L f b k) L L'"
    by (rule kept_trans [OF kept_mono [OF k2] kept_trans [OF q kept_mono [OF k5]]]) simp_all
  show "arr (table_at L' b) = arr (table_at L b)" for b
    by (simp add: L'e L4_def hs(4) L2_def Ll_def set_unless_nil_def L1_def)
  show "handler_place L f b k \<or> next_addr L \<le> b" if "handler_place L' f b k" for b k
    using hs(5) [of b k] that hk2(3) hk3(3) k2 by (auto simp: undisturbed_def)
  have o2: "RawGetString L2 opts k = RawGetString L opts k" if "opts \<noteq> t" for k
    using that by (simp add: L2_def copy_opts_get Ll_def set_unless_nil_def L1_def)
  show "handler_map L' f = with_option typ name L opts (handler_map L f)" if "opts \<noteq> t"
  proof -
    have "RawGetString L2 opts = RawGetString L opts" by (rule ext) (rule o2 [OF that])
    then show ?thesis unfolding hk3(2) hs(2) hk2(2) with_option_def by (simp split: option.split)
  qed
  have t23: "RawGetString L3 t k = RawGetString L2 t k" for k
    using hs(3) t2 hk2(3) t(2) by (simp add: undisturbed_def)
  show "RawGetString L' t k = (if k = ''form'' then LString form else if k = ''type'' then LString typ
                                  else if k = ''name'' then LString name else RawGetString L t k)"
    if "k \<notin> fst ` set (common_keys @ type_keys typ)" "k \<notin> insert ''label'' extra_keys" for k
  proof -
    have n: "k \<notin> fst ` set common_keys" "k \<notin> fst ` set (type_keys typ)" "k \<notin> extra_keys" using that by auto
    then have "RawGetString L' t k = RawGetString L2 t k" by (simp add: L'e extras_get L4_def copy_opts_get t23)
    also have "\<dots> = RawGetString Ll t k" using n by (simp add: L2_def copy_opts_get)
    finally have "RawGetString L' t k = RawGetString Ll t k" .
    then show ?thesis using that(2) by (simp add: Ll_def set_unless_nil_def L1_def)
  qed
  show "RawGetString L' t k = RawGetString L opts j"
    if "opts < next_addr L" "opts \<noteq> t" "\<And>k. \<not> handler_place L f opts k" "(k, j) \<in> set (type_keys typ)"
      "distinct (map fst (type_keys typ))" "k \<notin> extra_keys" for k j
  proof -
    have "opts < next_addr L2" using that(1) k2 by (simp add: undisturbed_def)
    then have "RawGetString L3 opts j = RawGetString L2 opts j" using hs(3) hk2(3) that(3) by (simp add: undisturbed_def)
    then show ?thesis
      using that by (simp add: L'e extras_get L4_def copy_opts_read o2)
  qed
qed

section \<open>Adding a control\<close>

text \<open>The entries of the order are texts, so its length is where the next name goes.\<close>

lemma table_len_names: "arr (table_at L od) = map LString names \<Longrightarrow> table_len L od = length names"
  by (cases names rule: rev_cases) (simp_all add: table_len_def)

lemma arr_append: "arr (table_at L od) = vs \<Longrightarrow> arr (table_at (RawSetInt od (Suc (length vs)) v L) od) = vs @ [v]"
  by (simp add: RawSetInt_def Let_def)

lemma arr_RawSetInt: "b \<noteq> od \<Longrightarrow> arr (table_at (RawSetInt od i v L) b) = arr (table_at L b)"
  by (simp add: table_at_RawSet)

lemma kept_RawSetInt: "heap_ok L \<Longrightarrow> a < next_addr L \<Longrightarrow> undisturbed P L (RawSetInt a i v L)"
  by (simp add: undisturbed_def heap_ok_RawSet)

definition kept_keys :: "string list" where
  "kept_keys = [''name'', ''type'', ''current_tab'', ''layout'', ''datetime_mode'', ''datetime_format'', ''datetime_min'',
     ''datetime_max'', ''datetime_step'', ''label'']"

definition keys_clear :: "string list \<Rightarrow> (string \<times> string) list \<Rightarrow> bool" where
  "keys_clear taken kss \<longleftrightarrow> distinct (map fst kss) \<and> list_all (\<lambda>ks. fst ks \<notin> set taken) kss"

lemma key_lists_clear:
  "list_all (keys_clear (''form'' # kept_keys)) [table_keys, looper_keys, chart_keys, textbox_keys, image_keys,
     tree_keys, tab_keys, topbar_keys, sidebar_keys, footer_keys, same [''multiline''], [], common_keys]"
  "keys_clear (''form'' # kept_keys) login_keys" "keys_clear kept_keys grid_keys"
  by code_simp+

lemma keys_clear_mono: "keys_clear (k # ks) kss \<Longrightarrow> keys_clear ks kss"
  by (auto simp: keys_clear_def list_all_iff)

lemma type_keys_clear: "keys_clear kept_keys (type_keys typ)" "typ \<noteq> ''grid'' \<Longrightarrow> keys_clear (''form'' # kept_keys) (type_keys typ)"
proof -
  show g: "keys_clear (''form'' # kept_keys) (type_keys typ)" if "typ \<noteq> ''grid''"
    using key_lists_clear(1,2) that unfolding type_keys_def list.pred_inject by (simp split: if_split del: list.map)
  show "keys_clear kept_keys (type_keys typ)"
    using keys_clear_mono [OF g] key_lists_clear(3) by (cases "typ = ''grid''") (simp_all add: type_keys_def)
qed

text \<open>The tables are there before the control is filled, and its name is the last of the order.\<close>

lemma control_tables:
  assumes ok: "form_sound L f" and g: "GetGlobal L form = LTable f" and a: "addControl sh form name typ opts L = Inr L'"
  obtains c od t L4 where "L' = RawSetString c name (LTable t) (fill_control sh f t opts form name typ L4)"
    "next_addr L4 = Suc t" "next_addr L \<le> t" "c < t" "od < t"
    "undisturbed (\<lambda>b k. b = f \<and> k \<in> {''controls'', ''order''}) L L4"
    "RawGetString L4 f ''controls'' = LTable c" "RawGetString L4 f ''order'' = LTable od"
    "order_names L4 f = order_names L f @ [LString name]"
    "RawGetString L f ''controls'' = LTable c \<or> RawGetString L f ''controls'' = LNil \<and> next_addr L \<le> c \<and> (\<forall>k. RawGetString L4 c k = LNil)"
    "RawGetString L f ''order'' = LTable od \<or> RawGetString L f ''order'' = LNil \<and> next_addr L \<le> od"
proof -
  have L: "heap_ok L" "f < next_addr L" using ok by (simp_all add: form_sound_def handlers_ok_def)
  have ctl: "RawGetString L f k = LNil \<or> (\<exists>t. RawGetString L f k = LTable t \<and> t < next_addr L)"
    if "k \<in> {''controls'', ''order''}" for k
    using ok that by (auto simp: form_sound_def nil_or_apart_def apart_def)
  obtain L1 oc where s1: "sub_or_new f ''controls'' L = (L1, oc)" by fastforce
  obtain c where c: "oc = Some c" "RawGetString L1 f ''controls'' = LTable c" "c < next_addr L1"
    "undisturbed (\<lambda>b k. b = f \<and> k = ''controls'') L L1" "\<And>b. arr (table_at L1 b) = arr (table_at L b)"
    "RawGetString L f ''controls'' = LTable c
       \<or> RawGetString L f ''controls'' = LNil \<and> c = next_addr L \<and> (\<forall>k. RawGetString L1 c k = LNil) \<and> arr (table_at L1 c) = []"
    by (rule sub_or_new_kept [OF L s1 ctl [of "''controls''"]]) auto
  have L1: "heap_ok L1" "f < next_addr L1" "RawGetString L1 f ''order'' = RawGetString L f ''order''" "next_addr L \<le> next_addr L1"
    using c(4) L(2) by (simp_all add: undisturbed_def)
  have ord1: "RawGetString L1 f ''order'' = LNil \<or> (\<exists>t. RawGetString L1 f ''order'' = LTable t \<and> t < next_addr L1)"
    using ctl [of "''order''"] L1(4) by (auto simp: L1(3))
  obtain L2 oo where s2: "sub_or_new f ''order'' L1 = (L2, oo)" by fastforce
  obtain od where d: "oo = Some od" "RawGetString L2 f ''order'' = LTable od" "od < next_addr L2"
    "undisturbed (\<lambda>b k. b = f \<and> k = ''order'') L1 L2" "\<And>b. arr (table_at L2 b) = arr (table_at L1 b)"
    "RawGetString L1 f ''order'' = LTable od
       \<or> RawGetString L1 f ''order'' = LNil \<and> od = next_addr L1 \<and> (\<forall>k. RawGetString L2 od k = LNil) \<and> arr (table_at L2 od) = []"
    by (rule sub_or_new_kept [OF L1(1,2) s2 ord1]) auto
  define L3 where "L3 = RawSetInt od (Suc (table_len L2 od)) (LString name) L2"
  have L2: "heap_ok L2" "next_addr L1 \<le> next_addr L2" using d(4) by (simp_all add: undisturbed_def)
  have k3: "undisturbed (\<lambda>b k. False) L2 L3" unfolding L3_def by (rule kept_RawSetInt [OF L2(1) d(3)])
  have h3: "heap_ok L3" "next_addr L3 = next_addr L2" using k3 by (simp_all add: undisturbed_def L3_def)
  note nt = NewTable_facts [OF h3(1)]
  have names: "arr (table_at L2 od) = order_names L f"
    using d(5,6) c(5) L1(3) by (auto simp: order_names_def)
  obtain ns where ns: "order_names L f = map LString ns" using ok by (auto simp: form_sound_def)
  have g4: "RawGetString (fst (NewTable L3)) b k = RawGetString L2 b k" for b k
    unfolding nt(4) by (simp add: L3_def)
  have f4: "RawGetString (fst (NewTable L3)) f k = (if k = ''controls'' then LTable c else if k = ''order'' then LTable od else RawGetString L f k)" for k
    using c(2,4) d(2,4) L(2) L1(2) by (auto simp: g4 undisturbed_def)
  show ?thesis
  proof (rule that)
    show "L' = RawSetString c name (LTable (next_addr L3)) (fill_control sh f (next_addr L3) opts form name typ (fst (NewTable L3)))"
      using a g s1 s2 c(1) d(1) nt(2) by (simp add: addControl_def on_form_table_def L3_def case_prod_beta Let_def)
    show "undisturbed (\<lambda>b k. b = f \<and> k \<in> {''controls'', ''order''}) L (fst (NewTable L3))"
      by (rule kept_trans [OF kept_mono [OF c(4)] kept_trans [OF kept_mono [OF d(4)] kept_trans [OF kept_mono [OF k3] kept_NewTable [OF h3(1)]]]])
        simp_all
    show "order_names (fst (NewTable L3)) f = order_names L f @ [LString name]"
      using arr_append [OF names, of "LString name"] table_len_names [of L2 od ns] names ns
      by (simp add: order_names_def f4 nt(7)) (simp add: L3_def)
    show "RawGetString L f ''controls'' = LTable c
        \<or> RawGetString L f ''controls'' = LNil \<and> next_addr L \<le> c \<and> (\<forall>k. RawGetString (fst (NewTable L3)) c k = LNil)"
      using c(3,6) d(4) L(2) by (auto simp: g4 undisturbed_def)
    show "RawGetString L f ''order'' = LTable od \<or> RawGetString L f ''order'' = LNil \<and> next_addr L \<le> od"
      using d(6) L1(3,4) by auto
  qed (use nt(3) h3(2) L1(4) L2(2) c(3) d(3) in \<open>simp_all add: f4\<close>)
qed

lemma not_option:
  "k \<in> {''name'', ''type''} \<or> (k = ''form'' \<and> typ \<noteq> ''grid'') \<Longrightarrow> k \<notin> fst ` set (common_keys @ type_keys typ)"
proof -
  have c: "keys_clear (''form'' # kept_keys) common_keys" using key_lists_clear(1) by simp
  have not: "k \<notin> fst ` set kss" if "keys_clear ks kss" "k \<in> set ks" for ks kss
    using that by (auto simp: keys_clear_def list_all_iff)
  assume k: "k \<in> {''name'', ''type''} \<or> (k = ''form'' \<and> typ \<noteq> ''grid'')"
  then have "k \<notin> fst ` set common_keys" using not [OF c] by (auto simp: kept_keys_def)
  moreover have "k \<notin> fst ` set (type_keys typ)"
    using k not [OF type_keys_clear(1)] not [OF type_keys_clear(2)] by (auto simp: kept_keys_def)
  ultimately show ?thesis by (simp add: image_Un)
qed

text \<open>What adding a control does to its form, in terms of the maps the session reads.\<close>

lemma addControl_steps:
  assumes ok: "form_sound L f" and g: "GetGlobal L form = LTable f"
    and op: "apart L f opts" "RawGetString L f ''controls'' \<noteq> LTable opts"
    and a: "addControl sh form name typ opts L = Inr L'"
  obtains t where "next_addr L \<le> t" "form_sound L' f" "globals L' = globals L"
    "control_map L' f = (control_map L f)(name \<mapsto> t)" "order_names L' f = order_names L f @ [LString name]"
    "handler_map L' f = with_option typ name L opts (handler_map L f)"
    "\<And>b k. b < next_addr L \<Longrightarrow> b \<noteq> f \<Longrightarrow> RawGetString L f ''controls'' \<noteq> LTable b \<Longrightarrow> \<not> handler_place L f b k \<Longrightarrow>
       RawGetString L' b k = RawGetString L b k"
    "RawGetString L' t ''name'' = LString name" "RawGetString L' t ''type'' = LString typ"
    "typ \<noteq> ''grid'' \<Longrightarrow> RawGetString L' t ''form'' = LString form"
    "\<And>k j. (k, j) \<in> set (type_keys typ) \<Longrightarrow> RawGetString L' t k = RawGetString L opts j"
    "\<exists>c. RawGetString L' f ''controls'' = LTable c \<and> (RawGetString L f ''controls'' = LTable c \<or> next_addr L \<le> c)"
    "\<And>b k. handler_place L' f b k \<Longrightarrow> handler_place L f b k \<or> next_addr L \<le> b"
proof (rule control_tables [OF ok g a])
  fix c od t L4
  define L5 where "L5 = fill_control sh f t opts form name typ L4"
  assume "L' = RawSetString c name (LTable t) (fill_control sh f t opts form name typ L4)"
    and n: "next_addr L4 = Suc t" "next_addr L \<le> t" "c < t" "od < t"
    and kA: "undisturbed (\<lambda>b k. b = f \<and> k \<in> {''controls'', ''order''}) L L4"
    and f4: "RawGetString L4 f ''controls'' = LTable c" "RawGetString L4 f ''order'' = LTable od"
    and names: "order_names L4 f = order_names L f @ [LString name]"
    and c: "RawGetString L f ''controls'' = LTable c \<or> RawGetString L f ''controls'' = LNil \<and> next_addr L \<le> c \<and> (\<forall>k. RawGetString L4 c k = LNil)"
    and od: "RawGetString L f ''order'' = LTable od \<or> RawGetString L f ''order'' = LNil \<and> next_addr L \<le> od"
  then have L'e: "L' = RawSetString c name (LTable t) L5" by (simp add: L5_def)
  have h: "handlers_ok L f" and f: "f < next_addr L" using ok by (simp_all add: form_sound_def handlers_ok_def)
  have noA: "\<forall>b k. b = f \<and> k \<in> {''controls'', ''order''} \<longrightarrow> \<not> handler_place L f b k"
    using handler_place_self [OF h] by auto
  note hA = handlers_kept [OF h kA noA]
  have tp: "\<not> handler_place L4 f t k" for k using fresh_apart [OF h n(2)] by (simp add: hA(3))
  have tl: "t < next_addr L4" by (simp add: n(1))
  note fs = fill_control_spec [OF hA(1) tl tp L5_def]
  have ap: "b < next_addr L4 \<and> b \<noteq> f \<and> (\<forall>k. \<not> handler_place L f b k)" if "b = c \<or> b = od" for b
  proof (cases "next_addr L \<le> b")
    case True
    then show ?thesis using that n f fresh_apart [OF h True] by auto
  next
    case False
    then show ?thesis using that c od n ok by (auto simp: form_sound_def nil_or_apart_def apart_def)
  qed
  have cf: "c \<noteq> f" "c \<noteq> t" "t \<noteq> f" using ap [of c] n f by auto
  have g5: "RawGetString L5 b k = RawGetString L4 b k" if "b < next_addr L4" "b \<noteq> t" "\<not> handler_place L f b k" for b k
    using fs(2) that by (simp add: undisturbed_def hA(3))
  have f5: "RawGetString L5 f k = RawGetString L4 f k" if "k \<noteq> ''handlers''" for k
    using g5 [of f k] that handler_place_self [OF h that] f n cf by simp
  have f': "RawGetString L' f ''controls'' = LTable c" "RawGetString L' f ''order'' = LTable od"
    using f5 f4 cf(1) by (simp_all add: L'e)
  have c': "RawGetString L' c k = (if k = name then LTable t else RawGetString L4 c k)" for k
    using g5 [of c k] ap [of c] cf by (simp add: L'e)
  have t': "RawGetString L' t k = RawGetString L5 t k" for k using cf by (simp add: L'e)
  have pl: "\<not> handler_place L5 f c k" for k using fs(5) [of c k] ap [of c] by (auto simp: hA(3))
  have h5: "heap_ok L5" "c < next_addr L5" using fs(2) ap [of c] by (auto simp: undisturbed_def)
  have kB: "undisturbed (\<lambda>b k. b = c) L5 L'" unfolding L'e by (rule kept_RawSetString [OF h5]) simp
  have noB: "\<forall>b k. b = c \<longrightarrow> \<not> handler_place L5 f b k" using pl by simp
  note hB = handlers_kept [OF fs(1) kB noB]
  have opl: "opts < next_addr L4" "opts \<noteq> t" "\<And>k. \<not> handler_place L4 f opts k" "opts \<noteq> f"
    using op(1) n hA(3) by (auto simp: apart_def)
  have o4: "RawGetString L4 opts = RawGetString L opts"
    using op(1) kA by (auto simp: undisturbed_def apart_def)
  have hm: "handler_map L' f = with_option typ name L opts (handler_map L f)"
    using fs(4) opl by (simp add: hB(2) hA(2) with_option_def o4 split: option.split)
  have oldc: "RawGetString L4 c k = RawGetString L c k" if "RawGetString L f ''controls'' = LTable c" for k
    using kA that ok cf(1) by (auto simp: undisturbed_def form_sound_def nil_or_apart_def apart_def)
  have cm: "control_map L' f = (control_map L f)(name \<mapsto> t)"
  proof
    fix k
    have "control_map L' f k = table_of (RawGetString L' c k)" by (simp add: control_map_def sub_table_def f')
    moreover have "control_map L f k = table_of (RawGetString L4 c k)"
      using oldc c by (auto simp: control_map_def sub_table_def)
    ultimately show "control_map L' f k = ((control_map L f)(name \<mapsto> t)) k" by (simp add: c')
  qed
  have ap': "apart L' f b" if "b < next_addr L4" "b \<noteq> f" "\<And>k. \<not> handler_place L f b k" for b
  proof -
    have "\<not> handler_place L5 f b k" for k using fs(5) [of b k] that(1) that(3) [of k] by (auto simp: hA(3))
    then show ?thesis using that(1,2) fs(2) kB by (simp add: apart_def undisturbed_def hB(3))
  qed
  have entry: "nil_or_apart L' f (RawGetString L' c k) \<and> RawGetString L' c k \<noteq> LTable c" for k
  proof (cases "k = name")
    case True
    then show ?thesis using ap' [of t] tl tp cf by (simp add: c' nil_or_apart_def hA(3))
  next
    case False
    show ?thesis
      using c
    proof
      assume l: "RawGetString L f ''controls'' = LTable c"
      then have "nil_or_apart L f (RawGetString L c k)" "RawGetString L c k \<noteq> LTable c" using ok by (auto simp: form_sound_def)
      then show ?thesis using ap' n False by (auto simp: c' oldc [OF l] nil_or_apart_def apart_def)
    qed (use False in \<open>simp add: c' nil_or_apart_def\<close>)
  qed
  have "order_names L' f = arr (table_at L' od)" "order_names L4 f = arr (table_at L4 od)"
    by (simp_all only: order_names_def f' f4 lua_value.case)
  then have nm: "order_names L' f = order_names L f @ [LString name]"
    using names by (simp add: L'e fs(3))
  obtain ns where "order_names L f = map LString ns" using ok by (auto simp: form_sound_def)
  then have "order_names L' f = map LString (ns @ [name])" by (simp add: nm)
  then have ns: "\<exists>ns. order_names L' f = map LString ns" ..
  show ?thesis
  proof (rule that [OF n(2) _ _ cm nm hm])
    show "form_sound L' f"
      unfolding form_sound_def f' using hB(1) ap' [of c] ap' [of od] ap entry ns by (auto simp: nil_or_apart_def)
    show "globals L' = globals L" using kA fs(2) kB by (simp add: undisturbed_def)
    show "RawGetString L' b k = RawGetString L b k"
      if "b < next_addr L" "b \<noteq> f" "RawGetString L f ''controls'' \<noteq> LTable b" "\<not> handler_place L f b k" for b k
    proof -
      have "b \<noteq> c" using that c by auto
      then show ?thesis using that n g5 [of b k] kA by (simp add: L'e undisturbed_def)
    qed
    show "RawGetString L' t k = RawGetString L opts j" if "(k, j) \<in> set (type_keys typ)" for k j
    proof -
      have "keys_clear kept_keys (type_keys typ)" by (rule type_keys_clear(1))
      then have "distinct (map fst (type_keys typ))" "k \<notin> extra_keys"
        using that by (auto simp: keys_clear_def list_all_iff kept_keys_def extra_keys_def)
      then show ?thesis using fs(7) [OF opl(1,2,3) that] by (simp add: t' o4)
    qed
    show "\<exists>c. RawGetString L' f ''controls'' = LTable c \<and> (RawGetString L f ''controls'' = LTable c \<or> next_addr L \<le> c)"
      using c f'(1) by blast
    show "handler_place L f b k \<or> next_addr L \<le> b" if "handler_place L' f b k" for b k
      using that fs(5) [of b k] n by (auto simp: hB(3) hA(3))
    have fixed: "RawGetString L' t k = (if k = ''form'' then LString form else if k = ''type'' then LString typ else LString name)"
      if "k \<in> {''name'', ''type''} \<or> (k = ''form'' \<and> typ \<noteq> ''grid'')" for k
      using that fs(6) [OF not_option [OF that]] by (auto simp: t' extra_keys_def)
    show "RawGetString L' t ''name'' = LString name" by (subst fixed) simp_all
    show "RawGetString L' t ''type'' = LString typ" by (subst fixed) simp_all
    show "typ \<noteq> ''grid'' \<Longrightarrow> RawGetString L' t ''form'' = LString form" by (subst fixed) simp_all
  qed
qed

section \<open>A new form and its controls\<close>

lemma form_new_form:
  assumes h: "heap_ok L" and e: "L' = form_new sh name opts L"
  obtains f c hd where "GetGlobal L' name = LTable f" "next_addr L \<le> f" "form_sound L' f" "control_map L' f = Map.empty"
    "order_names L' f = []" "handler_map L' f = Map.empty" "RawGetString L' f ''controls'' = LTable c" "next_addr L \<le> c"
    "\<And>b k. handler_place L' f b k \<Longrightarrow> next_addr L \<le> b" "next_addr L \<le> next_addr L'"
    "\<And>b k. b < next_addr L \<Longrightarrow> RawGetString L' b k = RawGetString L b k"
proof -
  define f where "f = next_addr L"
  define L5 where "L5 = (let (L1, f) = NewTable L;
          L2 = RawSetString f ''name'' (LString name) L1;
          L3 = set_unless_nil f ''title'' (as_text sh (RawGetString L opts ''title'')) L2;
          L4 = RawSetString f ''align'' (LString (opt_text sh L opts ''align'' ''left''))
                 (RawSetString f ''layout'' (LString (opt_text sh L opts ''layout'' ''vertical'')) L3)
      in set_unless_nil f ''cells'' (RawGetString L opts ''cells'') (set_unless_nil f ''gap'' (RawGetString L opts ''gap'') L4))"
  note nt = NewTable_facts [OF h]
  have k5: "undisturbed (\<lambda>b k. b = f) L L5" "next_addr L5 = Suc f" "RawGetString L5 f ''order'' = LNil"
    using nt h by (simp_all add: L5_def Let_def case_prod_beta set_unless_nil_def f_def undisturbed_def heap_ok_RawSet)
  have h5: "heap_ok L5" using k5(1) by (simp add: undisturbed_def)
  note nc = NewTable_facts [OF h5]
  define L6 where "L6 = RawSetString f ''controls'' (LTable (Suc f)) (fst (NewTable L5))"
  have k6: "undisturbed (\<lambda>b k. b = f) L5 L6" "next_addr L6 = Suc (Suc f)"
    using nc k5(2) unfolding L6_def by (simp_all add: undisturbed_def heap_ok_RawSet)
  have h6: "heap_ok L6" using k6(1) by (simp add: undisturbed_def)
  note nh = NewTable_facts [OF h6]
  define L8 where "L8 = RawSetString f ''handlers'' (LTable (Suc (Suc f))) (fst (NewTable L6))"
  have L': "L' = SetGlobal name (LTable f) L8"
    using nt(2) nc(2) nh(2) k5(2) k6(2)
    by (simp add: e form_new_def L8_def L6_def L5_def Let_def case_prod_beta f_def)
  have k8: "undisturbed (\<lambda>b k. b = f) L6 L8" "next_addr L8 = Suc (Suc (Suc f))"
    using nh k6(2) unfolding L8_def by (simp_all add: undisturbed_def heap_ok_RawSet)
  have g: "RawGetString L' b k = RawGetString L8 b k" "table_at L' b = table_at L8 b" "next_addr L' = next_addr L8" "heap L' = heap L8" for b k
    by (simp_all add: L' SetGlobal_def RawGetString_def table_at_def)
  have r6: "RawGetString L6 b k = (if b = f \<and> k = ''controls'' then LTable (Suc f) else RawGetString L5 b k)" for b k
    unfolding L6_def by (simp add: nc(4))
  have r8: "RawGetString L8 b k = (if b = f \<and> k = ''handlers'' then LTable (Suc (Suc f)) else RawGetString L6 b k)" for b k
    unfolding L8_def by (simp add: nh(4))
  have gf: "RawGetString L' f ''controls'' = LTable (Suc f)" "RawGetString L' f ''handlers'' = LTable (Suc (Suc f))" "RawGetString L' f ''order'' = LNil"
    using k5(3) by (simp_all add: g r8 r6)
  have gc: "RawGetString L' (Suc f) k = LNil" "RawGetString L' (Suc (Suc f)) k = LNil" for k
    using nc(5) nh(5) [of k] k5(2) k6(2) by (simp_all add: g r8 r6)
  have hp: "handler_place L' f b k \<longleftrightarrow> b = f \<and> k = ''handlers'' \<or> b = Suc (Suc f)" for b k
    by (auto simp: handler_place_def gf gc)
  have hk: "handlers_ok L' f"
    using k8 g(3,4) by (auto simp: handlers_ok_def heap_ok_def undisturbed_def gf gc events_ok_def)
  have fo: "form_sound L' f"
    using hk gf gc k8(2) g(3) by (simp add: form_sound_def nil_or_apart_def apart_def hp order_names_def)
  have cm: "control_map L' f = Map.empty" "handler_map L' f = Map.empty"
    by (simp_all add: fun_eq_iff control_map_def handler_map_def sub_table_def gf gc)
  have ke: "undisturbed (\<lambda>b k. b = f) L L8" by (rule kept_trans [OF k5(1) kept_trans [OF k6(1) k8(1)]])
  show ?thesis
    by (rule that [of f "Suc f"])
      (use fo cm gf hp ke g in \<open>auto simp: L' f_def undisturbed_def order_names_def\<close>)
qed

end
