(* ===== verification/Form_Properties.thy ===== *)
theory Form_Properties
  imports Form_Build Session_Messages
begin

text \<open>
  What a script that builds forms can rely on: a form lists its controls in the order of their
  creation, the session finds each control and each handler where the script put it, and how
  showing and closing move the stack of forms.
\<close>

section \<open>Building a form\<close>

type_synonym control_call = "string \<times> string \<times> nat"

fun add_controls :: "(lua_value \<Rightarrow> string) \<Rightarrow> string \<Rightarrow> control_call list \<Rightarrow> lua_state \<Rightarrow> string + lua_state" where
  "add_controls sh form [] L = Inr L"
| "add_controls sh form ((name, ty, opts) # cs) L =
     (case addControl sh form name ty opts L of Inl err \<Rightarrow> Inl err | Inr L1 \<Rightarrow> add_controls sh form cs L1)"

text \<open>The tables of a form made after \<open>n\<close> tables were there are none of these.\<close>

definition own :: "nat \<Rightarrow> lua_state \<Rightarrow> nat \<Rightarrow> bool" where
  "own n L f \<longleftrightarrow> form_sound L f \<and> n \<le> f \<and> n \<le> next_addr L \<and> (\<forall>b k. handler_place L f b k \<longrightarrow> n \<le> b)
     \<and> (\<exists>c. RawGetString L f ''controls'' = LTable c \<and> n \<le> c)"

lemma own_apart: "own n L f \<Longrightarrow> b < n \<Longrightarrow> apart L f b \<and> RawGetString L f ''controls'' \<noteq> LTable b"
  by (fastforce simp: own_def apart_def)

text \<open>A control as the options \<open>opts\<close> and the call made it.\<close>

definition holds_control :: "(nat \<Rightarrow> string \<Rightarrow> lua_value) \<Rightarrow> lua_state \<Rightarrow> control_call \<Rightarrow> nat \<Rightarrow> bool" where
  "holds_control old L call t \<longleftrightarrow> (case call of (name, ty, opts) \<Rightarrow>
     RawGetString L t ''name'' = LString name \<and> RawGetString L t ''type'' = LString ty
     \<and> (\<forall>(k, j)\<in>set (type_keys ty). RawGetString L t k = old opts j))"

lemma controls_apart:
  assumes "form_sound L f" "control_map L f k = Some t"
  shows "apart L f t \<and> RawGetString L f ''controls'' \<noteq> LTable t"
proof -
  obtain c where c: "RawGetString L f ''controls'' = LTable c" "RawGetString L c k = LTable t"
    using assms(2) by (auto simp: control_map_def sub_table_def bind_eq_Some_conv)
  then have "nil_or_apart L f (RawGetString L c k) \<and> RawGetString L c k \<noteq> LTable c"
    using assms(1) unfolding form_sound_def by blast
  then show ?thesis using c by (simp add: nil_or_apart_def)
qed

lemma own_step:
  assumes own: "own n L f" and g: "GetGlobal L form = LTable f" and n: "opts < n"
  shows "\<exists>L1. addControl sh form name ty opts L = Inr L1 \<and> own n L1 f \<and> GetGlobal L1 form = LTable f"
proof -
  obtain L1 where a: "addControl sh form name ty opts L = Inr L1"
    using g by (simp add: addControl_def on_form_table_def)
  have ok: "form_sound L f" using own by (simp add: own_def)
  note ap = own_apart [OF own n]
  obtain t where t: "next_addr L \<le> t" "form_sound L1 f" "globals L1 = globals L" "control_map L1 f name = Some t"
    "\<exists>c. RawGetString L1 f ''controls'' = LTable c \<and> (RawGetString L f ''controls'' = LTable c \<or> next_addr L \<le> c)"
    "\<And>b k. handler_place L1 f b k \<Longrightarrow> handler_place L f b k \<or> next_addr L \<le> b"
    by (rule addControl_steps [OF ok g _ _ a]) (use ap in auto)
  have "next_addr L \<le> next_addr L1" using controls_apart [OF t(2,4)] t(1) by (simp add: apart_def)
  then have "own n L1 f" using own t(2,5,6) unfolding own_def by (metis le_trans)
  then show ?thesis using a g GetGlobal_globals [OF t(3)] by simp
qed

lemma add_controls_total:
  "own n L f \<Longrightarrow> GetGlobal L form = LTable f \<Longrightarrow> \<forall>(name, ty, opts)\<in>set cs. opts < n \<Longrightarrow>
   \<exists>L'. add_controls sh form cs L = Inr L'"
proof (induction cs arbitrary: L)
  case (Cons call cs)
  obtain name ty opts where call: "call = (name, ty, opts)" by (cases call)
  then have "opts < n" using Cons.prems(3) by simp
  from own_step [OF Cons.prems(1,2) this, of sh name ty] Cons.IH Cons.prems(3) show ?case by (auto simp: call)
qed simp

lemma add_controls_steps:
  "own n L f \<Longrightarrow> GetGlobal L form = LTable f \<Longrightarrow> \<forall>(name, ty, opts)\<in>set cs. opts < n \<Longrightarrow>
   \<forall>b k. b < n \<longrightarrow> RawGetString L b k = old b k \<Longrightarrow>
   (\<forall>k t. control_map L f k = Some t \<longrightarrow> (\<exists>ty opts. m k = Some (k, ty, opts) \<and> holds_control old L (k, ty, opts) t)) \<Longrightarrow>
   dom (control_map L f) = dom m \<Longrightarrow>
   add_controls sh form cs L = Inr L' \<Longrightarrow>
   own n L' f \<and> globals L' = globals L \<and> order_names L' f = order_names L f @ map (LString \<circ> fst) cs
   \<and> (\<forall>k t. control_map L' f k = Some t \<longrightarrow>
        (\<exists>ty opts. (m ++ map_of (rev (map (\<lambda>c. (fst c, c)) cs))) k = Some (k, ty, opts) \<and> holds_control old L' (k, ty, opts) t))
   \<and> dom (control_map L' f) = dom m \<union> fst ` set cs"
proof (induction cs arbitrary: L m)
  case (Cons call cs)
  obtain name ty opts where call: "call = (name, ty, opts)" by (cases call)
  obtain L1 where a: "addControl sh form name ty opts L = Inr L1" and rest: "add_controls sh form cs L1 = Inr L'"
    using Cons.prems(7) by (simp add: call split: sum.splits)
  have ok: "form_sound L f" "opts < n" using Cons.prems(1,3) by (auto simp: own_def call)
  note ap = own_apart [OF Cons.prems(1) ok(2)]
  obtain t where t: "next_addr L \<le> t" "form_sound L1 f" "globals L1 = globals L"
    "control_map L1 f = (control_map L f)(name \<mapsto> t)" "order_names L1 f = order_names L f @ [LString name]"
    "\<And>b k. b < next_addr L \<Longrightarrow> b \<noteq> f \<Longrightarrow> RawGetString L f ''controls'' \<noteq> LTable b \<Longrightarrow> \<not> handler_place L f b k \<Longrightarrow>
       RawGetString L1 b k = RawGetString L b k"
    "RawGetString L1 t ''name'' = LString name" "RawGetString L1 t ''type'' = LString ty"
    "\<And>k j. (k, j) \<in> set (type_keys ty) \<Longrightarrow> RawGetString L1 t k = RawGetString L opts j"
    by (rule addControl_steps [OF ok(1) Cons.prems(2) _ _ a]) (use ap in blast)+
  have own1: "own n L1 f" using own_step [OF Cons.prems(1,2) ok(2), of sh name ty] a by simp
  have old1: "\<forall>b k. b < n \<longrightarrow> RawGetString L1 b k = old b k"
    using t(6) Cons.prems(4) own_apart [OF Cons.prems(1)] by (simp add: apart_def)
  let ?m = "m(name \<mapsto> call)"
  have kept1: "\<exists>ty opts. ?m k = Some (k, ty, opts) \<and> holds_control old L1 (k, ty, opts) u" if u: "control_map L1 f k = Some u" for k u
  proof (cases "k = name")
    case True
    have "RawGetString L opts j = old opts j" for j using Cons.prems(4) ok(2) by simp
    then show ?thesis using u t(4,7-9) by (auto simp: True call holds_control_def)
  next
    case False
    then have k: "control_map L f k = Some u" using u t(4) by simp
    have "RawGetString L1 u j = RawGetString L u j" for j
      using t(6) controls_apart [OF ok(1) k] by (simp add: apart_def)
    then show ?thesis using Cons.prems(5) k False by (simp add: holds_control_def)
  qed
  have dom1: "dom (control_map L1 f) = dom ?m" using t(4) Cons.prems(6) by simp
  have g1: "GetGlobal L1 form = LTable f" using Cons.prems(2) GetGlobal_globals [OF t(3)] by simp
  have m: "?m ++ map_of (rev (map (\<lambda>c. (fst c, c)) cs)) = m ++ map_of (rev (map (\<lambda>c. (fst c, c)) (call # cs)))"
    by (simp add: call map_add_upd_left flip: map_add_upd) (simp add: map_add_def fun_eq_iff split: option.split)
  show ?case
    using Cons.IH [OF own1 g1 _ old1 _ dom1 rest] Cons.prems(3) kept1 t(3,5) unfolding m by (auto simp: call)
qed simp

text \<open>The last call under each name.\<close>

definition last_calls :: "control_call list \<Rightarrow> string \<Rightarrow> control_call option" where
  "last_calls cs = map_of (rev (map (\<lambda>c. (fst c, c)) cs))"

text \<open>C27: A form made by \<^verbatim>\<open>k.form.new\<close> and a sequence of \<^verbatim>\<open>k.ctrl\<close> calls lists the names of all calls in
  their order; the session finds a control under exactly these names, and it is that of the last call
  under the name, with its type and every option of its type.\<close>

theorem form_lists_its_controls:
  assumes "heap_ok L" and "\<forall>(name, ty, opts)\<in>set cs. opts < next_addr L"
  shows "\<exists>L' f. add_controls sh form cs (form_new sh form fopts L) = Inr L' \<and> GetGlobal L' form = LTable f
     \<and> order_names L' f = map (LString \<circ> fst) cs
     \<and> {name. getControl L' form name \<noteq> None} = fst ` set cs
     \<and> (\<forall>name t. getControl L' form name = Some t \<longrightarrow>
          (\<exists>ty opts. last_calls cs name = Some (name, ty, opts) \<and> holds_control (RawGetString L) L' (name, ty, opts) t))"
proof -
  let ?L = "form_new sh form fopts L"
  obtain f c hd where f: "GetGlobal ?L form = LTable f" "next_addr L \<le> f" "form_sound ?L f" "control_map ?L f = Map.empty"
    "order_names ?L f = []" "RawGetString ?L f ''controls'' = LTable c" "next_addr L \<le> c"
    "\<And>b k. handler_place ?L f b k \<Longrightarrow> next_addr L \<le> b" "next_addr L \<le> next_addr ?L"
    "\<And>b k. b < next_addr L \<Longrightarrow> RawGetString ?L b k = RawGetString L b k"
    by (rule form_new_form [OF assms(1) refl]) blast
  have own: "own (next_addr L) ?L f" using f by (auto simp: own_def)
  obtain L' where L': "add_controls sh form cs ?L = Inr L'" using add_controls_total [OF own f(1) assms(2)] by blast
  have s: "own (next_addr L) L' f \<and> globals L' = globals ?L \<and> order_names L' f = order_names ?L f @ map (LString \<circ> fst) cs
   \<and> (\<forall>k t. control_map L' f k = Some t \<longrightarrow> (\<exists>ty opts. (Map.empty ++ last_calls cs) k = Some (k, ty, opts)
        \<and> holds_control (RawGetString L) L' (k, ty, opts) t))
   \<and> dom (control_map L' f) = {} \<union> fst ` set cs"
    using add_controls_steps [OF own f(1) assms(2) _ _ _ L', of "RawGetString L" Map.empty] f(4,10)
    by (simp add: last_calls_def)
  have g: "GetGlobal L' form = LTable f" using s GetGlobal_globals [of L' ?L] f(1) by simp
  then have "getControl L' form name = control_map L' f name" for name
    by (simp add: getControl_def controlTable_map form_table_def)
  then show ?thesis using s L' g f(5) by (auto simp: dom_def)
qed

theorem form_lists_its_controls_witness:
  "\<exists>L' f. add_controls (\<lambda>v. []) ''main'' [(''name'', ''textbox'', 0), (''save'', ''button'', 0)]
              (form_new (\<lambda>v. []) ''main'' 0 (fst (NewTable blank_state))) = Inr L'
     \<and> order_names L' f = [LString ''name'', LString ''save''] \<and> getControl L' ''main'' ''cancel'' = None"
proof -
  have h: "heap_ok (fst (NewTable blank_state))" "next_addr (fst (NewTable blank_state)) = 1"
    by (simp_all add: heap_ok_def blank_state_def NewTable_def)
  have "\<forall>(name, ty, opts)\<in>set [(''name'', ''textbox'', 0), (''save'', ''button'', 0)]. opts < next_addr (fst (NewTable blank_state))"
    by (simp add: h(2))
  from form_lists_its_controls [OF h(1) this, of "\<lambda>v. []" "''main''" 0]
  obtain L' f where r: "add_controls (\<lambda>v. []) ''main'' [(''name'', ''textbox'', 0), (''save'', ''button'', 0)]
              (form_new (\<lambda>v. []) ''main'' 0 (fst (NewTable blank_state))) = Inr L'"
    "order_names L' f = [LString ''name'', LString ''save'']" and d: "{name. getControl L' ''main'' name \<noteq> None} = {''name'', ''save''}"
    by auto
  from d have "(''cancel'' \<in> {name. getControl L' ''main'' name \<noteq> None}) = (''cancel'' \<in> {''name'', ''save''})" by (rule arg_cong)
  then have "getControl L' ''main'' ''cancel'' = None" by simp
  then show ?thesis using r by (intro exI conjI)
qed

text \<open>The owner of a control is the form it was added to, except for a grid: its key \<^verbatim>\<open>form\<close> also names
  the detail form, and the option replaces the owner, so a grid without a detail form has none.\<close>

theorem grid_forgets_form:
  assumes "form_sound L f" and "GetGlobal L form = LTable f" and "apart L f opts" "RawGetString L f ''controls'' \<noteq> LTable opts"
    and "addControl sh form name ty opts L = Inr L'"
  shows "\<exists>t. getControl L' form name = Some t
    \<and> RawGetString L' t ''form'' = (if ty = ''grid'' then RawGetString L opts ''form'' else LString form)"
proof -
  obtain t where t: "globals L' = globals L" "control_map L' f name = Some t"
    "ty \<noteq> ''grid'' \<Longrightarrow> RawGetString L' t ''form'' = LString form"
    "\<And>k j. (k, j) \<in> set (type_keys ty) \<Longrightarrow> RawGetString L' t k = RawGetString L opts j"
    by (rule addControl_steps [OF assms]) auto
  have "form_table L' form = Some f" using assms(2) GetGlobal_globals [OF t(1)] by (simp add: form_table_def)
  then have "getControl L' form name = Some t" using t(2) by (simp add: getControl_def controlTable_map)
  moreover have "(''form'', ''form'') \<in> set (type_keys ''grid'')" by code_simp
  ultimately show ?thesis using t(3,4) by auto
qed

section \<open>Registering handlers\<close>

text \<open>C28: The session finds a handler under exactly the control and event the script registered it for; no
  other handler of the form changes, and a second registration replaces the first.\<close>

theorem registered_handler_is_found:
  assumes "GetGlobal L form = LTable f" and "handlers_ok L f"
  shows "\<exists>L'. form_on_control form ctrl event fn L = Inr L' \<and> handlers_ok L' f \<and> GetGlobal L' form = LTable f
    \<and> (\<forall>c ev. form_handler L' form c ev = (if c = ctrl \<and> ev = event then Some fn else form_handler L form c ev))"
proof -
  obtain stored L' where s: "store_handler f ctrl event fn L = (stored, L')" by fastforce
  note m = store_handler_map [OF assms(2) s]
  have g: "GetGlobal L' form = LTable f" using m(4) GetGlobal_globals [of L' L] assms(1) by (simp add: undisturbed_def)
  then have "form_handler L' form c ev = handler_map L' f (c, ev)" "form_handler L form c ev = handler_map L f (c, ev)" for c ev
    using assms(1) by (simp_all add: form_handler_map form_table_def)
  then show ?thesis using m(2,3) g assms(1) s by (auto simp: form_on_control_def on_form_table_def)
qed

theorem registered_handler_is_found_witness:
  "\<exists>L'. form_on_control ''main'' ''save'' ''click'' 7 (form_new (\<lambda>v. []) ''main'' 0 (fst (NewTable blank_state))) = Inr L'
     \<and> form_handler L' ''main'' ''save'' ''click'' = Some 7 \<and> form_handler L' ''main'' ''save'' ''focus'' = None"
proof -
  let ?L = "form_new (\<lambda>v. []) ''main'' 0 (fst (NewTable blank_state))"
  have "heap_ok (fst (NewTable blank_state))" by (simp add: heap_ok_def blank_state_def NewTable_def)
  from form_new_form [OF this refl, of "\<lambda>v. []" "''main''" 0]
  obtain f where f: "GetGlobal ?L ''main'' = LTable f" "form_sound ?L f" "handler_map ?L f = Map.empty" by metis
  have "form_handler ?L ''main'' c ev = None" for c ev using f(1,3) by (simp add: form_handler_map form_table_def)
  then show ?thesis using registered_handler_is_found [OF f(1), of "''save''" "''click''" 7] f(2) by (auto simp: form_sound_def)
qed

section \<open>Closing forms\<close>

text \<open>A coroutine that does nothing to the stack and the inbox before it suspends or ends.\<close>

definition calm :: "engine \<Rightarrow> bool" where
  "calm e \<longleftrightarrow> (\<forall>name s. \<exists>b s2. ResumeFormCoro e name s = Done (b, s2)
     \<and> formStack s2 = formStack s \<and> inbox s2 = inbox s \<and> ended s2 = ended s)"

lemma SendOutbox_keeps [simp]:
  "formStack (SendOutbox m s) = formStack s" "inbox (SendOutbox m s) = inbox s" "ended (SendOutbox m s) = ended s"
  by (simp_all add: SendOutbox_def outbox_offer_def)

lemma emitChartDestroys_keeps [simp]:
  "formStack (emitChartDestroys e form s) = formStack s" "inbox (emitChartDestroys e form s) = inbox s"
  "ended (emitChartDestroys e form s) = ended s"
proof -
  have "formStack (fold (\<lambda>n. SendOutbox (g n)) ns s) = formStack s \<and> inbox (fold (\<lambda>n. SendOutbox (g n)) ns s) = inbox s
      \<and> ended (fold (\<lambda>n. SendOutbox (g n)) ns s) = ended s" for g :: "string \<Rightarrow> outbox_msg" and ns
    by (induction ns arbitrary: s) simp_all
  then show "formStack (emitChartDestroys e form s) = formStack s" "inbox (emitChartDestroys e form s) = inbox s"
    "ended (emitChartDestroys e form s) = ended s"
    by (simp_all add: emitChartDestroys_def Let_def split: option.split)
qed

lemma resume_closed_posts:
  assumes "calm e" and "length (inbox s) < session_cap"
  shows "\<exists>s'. resume_closed e name s = Done s' \<and> formStack s' = formStack s \<and> inbox s' = inbox s @ close_events [name]
     \<and> ended s' = ended s"
proof -
  let ?s1 = "s\<lparr>inbox := inbox s @ close_events [name]\<rparr>"
  have "\<exists>b s2. ResumeFormCoro e name ?s1 = Done (b, s2)
     \<and> formStack s2 = formStack ?s1 \<and> inbox s2 = inbox ?s1 \<and> ended s2 = ended ?s1"
    using assms(1) unfolding calm_def by blast
  then obtain b s2 where r: "ResumeFormCoro e name ?s1 = Done (b, s2)" "formStack s2 = formStack s"
    "inbox s2 = inbox ?s1" "ended s2 = ended s" by auto
  then show ?thesis using assms(2) by (simp add: resume_closed_def PostFormEvent_def post_room close_events_def)
qed

text \<open>Closing a form that is not on top pops the form on top: the named form is closed on the page and
  its caller resumed, but it stays on the stack.\<close>

theorem close_pops_top:
  assumes "calm e" and "length (inbox s) < session_cap" and "formStack s = below_it @ [name, upper]" and "name \<noteq> []"
  shows "\<exists>s'. form_close e name s = Done s' \<and> formStack s' = below_it @ [name] \<and> TopForm s' = name
     \<and> inbox s' = inbox s @ close_events [name]"
proof -
  have p: "formStack (fst (PopForm s)) = below_it @ [name]" "inbox (fst (PopForm s)) = inbox s"
    using assms(3) by (simp_all add: PopForm_keeps butlast_append)
  obtain s' where r: "resume_closed e name (fst (PopForm s)) = Done s'" "formStack s' = below_it @ [name]"
    "inbox s' = inbox s @ close_events [name]"
    using resume_closed_posts [OF assms(1), of "fst (PopForm s)" name] assms(2) p by auto
  then show ?thesis using assms(4) by (intro exI [of _ s']) (simp add: form_close_def TopForm_def)
qed

lemma idle_calm: "calm idle_engine"
  by (simp add: calm_def ResumeFormCoro_def ResumeFormCoroWith_def form_resumed_def take_form_coro_def record_event_def
      split: option.split) blast

theorem close_pops_top_witness:
  "\<exists>s'. form_close idle_engine ''home'' (NewSession quiet_script\<lparr>formStack := [''home'', ''edit'']\<rparr>) = Done s'
     \<and> formStack s' = [''home'']"
  using close_pops_top [OF idle_calm, of "NewSession quiet_script\<lparr>formStack := [''home'', ''edit'']\<rparr>" "[]" "''home''" "''edit''"]
  by (auto simp: NewSession_def session_cap_def)

text \<open>The forms above one on the stack, from the top down.\<close>

definition above_it :: "string \<Rightarrow> string list \<Rightarrow> string list" where
  "above_it name stack = rev (takeWhile (\<lambda>f. f \<noteq> name) (rev stack))"

text \<open>Returning to a form closes the forms above it, the top form first; with no such form, every form.\<close>

theorem return_to_closes_above:
  assumes "calm e" and "[] \<notin> set (formStack s)" and "length (inbox s) + length (above_it name (formStack s)) \<le> session_cap"
    and "length (above_it name (formStack s)) < n"
  shows "\<exists>s'. form_return_to e n name s = Some (Done s') \<and> formStack s' @ above_it name (formStack s) = formStack s
     \<and> inbox s' = inbox s @ close_events (above_it name (formStack s))"
  using assms(2-)
proof (induction n arbitrary: s)
  case (Suc n)
  show ?case
  proof (cases "formStack s" rule: rev_cases)
    case Nil
    then show ?thesis by (simp add: TopForm_def above_it_def close_events_def)
  next
    case (snoc fs upper)
    show ?thesis
    proof (cases "upper = name")
      case True
      then show ?thesis by (simp add: snoc TopForm_def above_it_def close_events_def)
    next
      case False
      have ab: "above_it name (formStack s) = above_it name fs @ [upper]" using False by (simp add: snoc above_it_def)
      have p: "formStack (fst (PopForm s)) = fs" "inbox (fst (PopForm s)) = inbox s" "snd (PopForm s) = upper"
        using snoc by (simp_all add: PopForm_keeps)
      obtain s2 where 2: "resume_closed e upper (fst (PopForm s)) = Done s2" "formStack s2 = fs"
        "inbox s2 = inbox s @ close_events [upper]"
        using resume_closed_posts [OF assms(1), of "fst (PopForm s)" upper] Suc.prems(2) p ab by auto
      have "\<exists>s'. form_return_to e n name s2 = Some (Done s') \<and> formStack s' @ above_it name (formStack s2) = formStack s2
         \<and> inbox s' = inbox s2 @ close_events (above_it name (formStack s2))"
        using Suc.prems 2 ab by (intro Suc.IH) (auto simp: snoc close_events_def)
      moreover have "form_return_to e (Suc n) name s = form_return_to e n name s2"
        using False Suc.prems(1) p(3) 2(1) by (auto simp: snoc TopForm_def Let_def case_prod_beta)
      ultimately show ?thesis using 2 ab by (auto simp: snoc close_events_def)
    qed
  qed
qed simp

theorem return_to_closes_above_witness:
  "\<exists>s'. form_return_to idle_engine 3 ''home'' (NewSession quiet_script\<lparr>formStack := [''home'', ''list'', ''edit'']\<rparr>) = Some (Done s')
     \<and> inbox s' = close_events [''list'', ''edit'']"
  using return_to_closes_above [OF idle_calm, of "NewSession quiet_script\<lparr>formStack := [''home'', ''list'', ''edit'']\<rparr>" "''home''" 3]
  by (auto simp: NewSession_def session_cap_def above_it_def)

section \<open>Gaps\<close>

definition gap_ok :: "go_float \<Rightarrow> bool" where
  "gap_ok g \<longleftrightarrow> g = NaN \<or> (\<exists>q. g = Fin q \<and> 0 \<le> q \<and> q \<le> 50)"

text \<open>A gap is between 0 and 50 per cent, unless the script gave the number NaN, which passes both tests.\<close>

theorem parseGap_bounds: "gap_ok (fst (parseGap L v)) \<and> gap_ok (snd (parseGap L v)) \<and> (parseGap L (LNumber NaN) = (NaN, NaN))"
proof -
  have "gap_ok (gap_entry x)" for x
    by (cases x) (auto simp: gap_entry_def gap_ok_def split: go_float.split elim: gap_range.elims)
  moreover have "gap_ok (let n1 = (if below_zero n then Fin 0 else n) in if above 50 n1 then Fin 50 else n1)" for n
    by (cases n) (auto simp: gap_ok_def)
  ultimately show ?thesis by (simp add: parseGap_def Let_def split: lua_value.split) (simp add: gap_ok_def)
qed

end
