(* ===== verification/Grid_Forms.thy ===== *)
theory Grid_Forms
  imports Form_Build Grid_Write Session_Inbox
begin

text \<open>
  The rest of \<^verbatim>\<open>internal/bindings/grid.go\<close>: the \<^verbatim>\<open>k.grid\<close> calls of a script, and the detail form a
  grid opens for one row: a form the script defined, one written inline in the grid's options, or
  one made from its columns. The markup is the parameter \<open>rf\<close>, Go's \<^verbatim>\<open>%q\<close> the parameter \<open>qt\<close>.
\<close>

section \<open>Calls of the script\<close>

definition on_grid ::
  "engine \<Rightarrow> string \<Rightarrow> string \<Rightarrow> lua_value list \<Rightarrow> (nat \<Rightarrow> session \<Rightarrow> (kret \<times> session) outcome) \<Rightarrow> session \<Rightarrow> (kret \<times> session) outcome" where
  "on_grid e form name none g s =
     (case getControl (lua (world s)) form name of
        None \<Rightarrow> Done (Ret none, s)
      | Some a \<Rightarrow> (if control_type e a s \<noteq> ''grid'' then Done (Raise (not_a ''grid'' name), s) else g a s))"

definition source_keys :: "(string \<times> string) list" where
  "source_keys = same [''db'', ''query'', ''columns''] @ paging_keys @ same [''pk_field'', ''selection_mode'']"

definition copy_given :: "nat \<Rightarrow> nat \<Rightarrow> (string \<times> string) list \<Rightarrow> lua_state \<Rightarrow> lua_state" where
  "copy_given a opts kss L = fold (\<lambda>(k, j) L. set_unless_nil a k (RawGetString L opts j) L) kss L"

definition grid_set_db_source :: "engine \<Rightarrow> string \<Rightarrow> string \<Rightarrow> nat \<Rightarrow> session \<Rightarrow> (kret \<times> session) outcome" where
  "grid_set_db_source e form name opts =
     on_grid e form name [] (\<lambda>a s. Done (Ret [], gridRefresh form name (edit_lua (copy_given a opts source_keys) s)))"

definition grid_refresh :: "engine \<Rightarrow> string \<Rightarrow> string \<Rightarrow> session \<Rightarrow> (kret \<times> session) outcome" where
  "grid_refresh e form name = on_grid e form name [] (\<lambda>a s. Done (Ret [], gridRefresh form name s))"

text \<open>The asynchronous calls make a new coroutine \<open>co\<close>, which the request stores, and yield.\<close>

definition suspended :: "session outcome \<Rightarrow> (kret \<times> session) outcome" where
  "suspended r = andThen r (\<lambda>s. Done (Suspend, s))"

definition grid_get_selected :: "engine \<Rightarrow> int \<Rightarrow> nat \<Rightarrow> string \<Rightarrow> string \<Rightarrow> session \<Rightarrow> (kret \<times> session) outcome" where
  "grid_get_selected e now co form name =
     on_grid e form name [LNil] (\<lambda>a s. suspended (andThen (RequestGridGetSelected now co form name s)
       (\<lambda>s1. Done (edit_lua (RawSetString a ''_grid_sel_req'' (LString (stamp ''grid_sel_'' now))) s1))))"

definition grid_get_row :: "engine \<Rightarrow> int \<Rightarrow> nat \<Rightarrow> string \<Rightarrow> string \<Rightarrow> lua_value \<Rightarrow> session \<Rightarrow> (kret \<times> session) outcome" where
  "grid_get_row e now co form name pk =
     on_grid e form name [LNil] (\<lambda>a s. suspended (RequestGridGetRow now co form name pk s))"

definition grid_delete_row :: "engine \<Rightarrow> int \<Rightarrow> nat \<Rightarrow> string \<Rightarrow> string \<Rightarrow> lua_value \<Rightarrow> session \<Rightarrow> (kret \<times> session) outcome" where
  "grid_delete_row e now co form name pk =
     on_grid e form name [LBool False] (\<lambda>a s. suspended (RequestGridDeleteRow now co form name pk s))"

definition grid_batch_delete :: "engine \<Rightarrow> int \<Rightarrow> nat \<Rightarrow> string \<Rightarrow> string \<Rightarrow> nat \<Rightarrow> session \<Rightarrow> (kret \<times> session) outcome" where
  "grid_batch_delete e now co form name pks =
     on_grid e form name [LBool False]
       (\<lambda>a s. suspended (RequestGridBatchDelete now co form name (map snd (for_each (lua (world s)) pks)) s))"

definition row_values :: "engine \<Rightarrow> nat \<Rightarrow> lua_state \<Rightarrow> (string \<times> lua_value) list" where
  "row_values e t L = fold (\<lambda>(k, v). AList.update (lv_string (eng_show e) k) v) (for_each L t) []"

definition grid_insert_row :: "engine \<Rightarrow> int \<Rightarrow> nat \<Rightarrow> string \<Rightarrow> string \<Rightarrow> nat \<Rightarrow> session \<Rightarrow> (kret \<times> session) outcome" where
  "grid_insert_row e now co form name data =
     on_grid e form name [LNil]
       (\<lambda>a s. suspended (RequestGridInsertRow now co form name (row_values e data (lua (world s))) s))"

definition grid_update_row :: "engine \<Rightarrow> int \<Rightarrow> nat \<Rightarrow> string \<Rightarrow> string \<Rightarrow> lua_value \<Rightarrow> nat \<Rightarrow> session \<Rightarrow> (kret \<times> session) outcome" where
  "grid_update_row e now co form name pk data =
     on_grid e form name [LBool False]
       (\<lambda>a s. suspended (RequestGridUpdateRow now co form name pk (row_values e data (lua (world s))) s))"

section \<open>The name and the gap of the detail form\<close>

definition GridFormModalName :: "(lua_value \<Rightarrow> string) \<Rightarrow> lua_state \<Rightarrow> nat \<Rightarrow> string \<Rightarrow> string \<Rightarrow> string" where
  "GridFormModalName sh L a form name =
     (let v = RawGetString L a ''form''; own = ''__kgrid_'' @ form @ ''_'' @ name in
      if v \<noteq> LNil \<and> table_of v = None \<and> lv_string sh v \<noteq> [] then lv_string sh v else own)"

fun positive :: "go_float \<Rightarrow> bool" where
  "positive (Fin q) = (0 < q)"
| "positive PInf = True"
| "positive f = False"

fun not_positive :: "go_float \<Rightarrow> bool" where
  "not_positive (Fin q) = (q \<le> 0)"
| "not_positive NInf = True"
| "not_positive f = False"

definition GridFormGap :: "(string \<Rightarrow> go_float option) \<Rightarrow> lua_state \<Rightarrow> nat \<Rightarrow> go_float \<times> go_float" where
  "GridFormGap pf L a =
     (let v = RawGetString L a ''form_gap''; n = LVAsNumber pf v in
      if v = LNil then (Fin 10, Fin 10)
      else if positive n then (n, n)
      else case v of
             LTable t \<Rightarrow>
               (let x0 = LVAsNumber pf (RawGetString L t ''x''); y0 = LVAsNumber pf (RawGetString L t ''y'');
                    x = (if not_positive x0 then Fin 10 else x0)
                in (x, if not_positive y0 then x else y0))
           | _ \<Rightarrow> (Fin 10, Fin 10))"

section \<open>Making the detail form\<close>

text \<open>
  \<^verbatim>\<open>ensureGridForm\<close> stores Go's nil, not Lua's, under four keys. Reading such a key back gives
  something that is not Lua's nil, and calling a method on it panics. Nil reads are as if the key
  were absent but for \<open>title\<close>, on which the renderer calls \<^verbatim>\<open>String\<close>; whether it is still Go's nil is
  the boolean the makers of a form return.
\<close>

definition ensureGridForm :: "string \<Rightarrow> lua_state \<Rightarrow> lua_state \<times> nat" where
  "ensureGridForm name L =
     (let (L1, f) = (case form_table L name of
            Some f \<Rightarrow> (L, f)
          | None \<Rightarrow> (let (L0, f) = NewTable L in (SetGlobal name (LTable f) L0, f)))
      in (fold (\<lambda>k. RawSetString f k LNil) [''controls'', ''order'', ''title'', ''gap''] L1, f))"

definition must_add :: "(lua_value \<Rightarrow> string) \<Rightarrow> string \<Rightarrow> string \<Rightarrow> string \<Rightarrow> nat \<Rightarrow> lua_state \<Rightarrow> lua_state" where
  "must_add sh form name kind opts L = (case addControl sh form name kind opts L of Inr L1 \<Rightarrow> L1 | Inl err \<Rightarrow> L)"

definition inline_control :: "(lua_value \<Rightarrow> string) \<Rightarrow> string \<Rightarrow> lua_value \<Rightarrow> lua_state \<Rightarrow> lua_state" where
  "inline_control sh form v L =
     (case v of
        LTable cd \<Rightarrow>
          (let kind = lv_string sh (RawGetString L cd ''type''); cname = lv_string sh (RawGetString L cd ''name'') in
           if kind = [] \<or> cname = [] then L
           else (let (L1, opts) = NewTable L;
                     L2 = (case RawGetString L1 cd ''opts'' of LTable ot \<Rightarrow> copy_table opts ot L1 | _ \<Rightarrow> L1)
                 in must_add sh form cname kind opts (set_unless_nil opts ''label'' (RawGetString L2 cd ''label'') L2)))
      | _ \<Rightarrow> L)"

definition materializeGridForm :: "(lua_value \<Rightarrow> string) \<Rightarrow> string \<Rightarrow> nat \<Rightarrow> lua_state \<Rightarrow> bool \<times> lua_state" where
  "materializeGridForm sh name d L =
     (let (L1, f) = ensureGridForm name L; t = RawGetString L1 d ''title'';
          titled = (t \<noteq> LNil \<and> lv_string sh t \<noteq> []);
          L2 = (if titled then RawSetString f ''title'' t L1 else L1);
          L3 = set_unless_nil f ''gap'' (RawGetString L2 d ''gap'') L2
      in (\<not> titled, case RawGetString L3 d ''controls'' of
                        LTable c \<Rightarrow> fold (\<lambda>kv. inline_control sh name (snd kv)) (for_each L3 c) L3
                      | _ \<Rightarrow> L3))"

text \<open>The columns and their titles; a title given twice counts for both.\<close>

definition column_title :: "(lua_value \<Rightarrow> string) \<Rightarrow> lua_state \<Rightarrow> lua_value \<Rightarrow> (string \<times> string) option" where
  "column_title sh L v =
     (case v of
        LTable d \<Rightarrow>
          (let f = lv_string sh (RawGetString L d ''field''); t = RawGetString L d ''title'' in
           if f = [] \<or> \<not> isValidIdentifier f then None
           else Some (f, if t \<noteq> LNil \<and> lv_string sh t \<noteq> [] then lv_string sh t else f))
      | _ \<Rightarrow> None)"

definition auto_fields :: "(lua_value \<Rightarrow> string) \<Rightarrow> lua_state \<Rightarrow> nat \<Rightarrow> (string \<times> string) list" where
  "auto_fields sh L a =
     (let db = map (\<lambda>s. (s, s)) (db_fields sh L a);
          fts = (if db \<noteq> [] then db
                 else case RawGetString L a ''columns'' of
                        LTable t \<Rightarrow> List.map_filter (\<lambda>kv. column_title sh L (snd kv)) (for_each L t)
                      | _ \<Rightarrow> [])
      in map (\<lambda>(f, t). (f, the (map_of (rev fts) f))) fts)"

definition auto_control :: "(lua_value \<Rightarrow> string) \<Rightarrow> string \<Rightarrow> string \<times> string \<Rightarrow> lua_state \<Rightarrow> lua_state" where
  "auto_control sh form ft L =
     (let (L1, opts) = NewTable L
      in must_add sh form (fst ft) ''textbox'' opts (RawSetString opts ''label'' (LString (snd ft)) L1))"

definition materializeGridAutoForm :: "(lua_value \<Rightarrow> string) \<Rightarrow> string \<Rightarrow> nat \<Rightarrow> lua_state \<Rightarrow> lua_state" where
  "materializeGridAutoForm sh name a L =
     (let (L1, f) = ensureGridForm name L; L2 = RawSetString f ''title'' (LString ''Record Details'') L1
      in fold (auto_control sh name) (auto_fields sh L2 a) L2)"

definition auto_form ::
  "(lua_state \<Rightarrow> string \<Rightarrow> string) \<Rightarrow> (lua_value \<Rightarrow> string) \<Rightarrow> string \<Rightarrow> string \<Rightarrow> string \<Rightarrow> nat \<Rightarrow> lua_state \<Rightarrow>
   (string + string \<times> string) \<times> lua_state" where
  "auto_form rf sh form name modal a L =
     (let L1 = materializeGridAutoForm sh modal a L in
      if form_table L1 modal = None then (Inl (''grid '' @ form @ ''/'' @ name @ '' has no formable columns''), L1)
      else (Inr (modal, rf L1 modal), L1))"

definition BuildGridForm ::
  "(string \<Rightarrow> string) \<Rightarrow> (lua_state \<Rightarrow> string \<Rightarrow> string) \<Rightarrow> (lua_value \<Rightarrow> string) \<Rightarrow> string \<Rightarrow> string \<Rightarrow> nat \<Rightarrow> lua_state \<Rightarrow>
   ((string + string \<times> string) \<times> lua_state) outcome" where
  "BuildGridForm qt rf sh form name a L =
     (let modal = GridFormModalName sh L a form name in
      case RawGetString L a ''form'' of
        LTable d \<Rightarrow>
          (let (untitled, L1) = materializeGridForm sh modal d L
           in if untitled then Panicked else Done (Inr (modal, rf L1 modal), L1))
      | v \<Rightarrow>
          (if v \<noteq> LNil \<and> lv_string sh v \<noteq> [] then
             (let ref = lv_string sh v in
              Done (if form_table L ref = None then Inl (''referenced form '' @ qt ref @ '' is not defined'')
                    else Inr (ref, rf L ref), L))
           else Done (auto_form rf sh form name modal a L)))"

section \<open>Where the detail form goes wrong\<close>

text \<open>An inline form without a title stops the actor; the refusal of a grid without columns is never
  reached, because the form it looks for was made just before; and a column without a field becomes a
  text box of the name \<open>nil\<close>.\<close>

theorem inline_form_needs_title:
  "RawGetString L a ''form'' = LTable d \<Longrightarrow> form_table L (GridFormModalName sh L a form name) = Some f \<Longrightarrow> d \<noteq> f \<Longrightarrow>
   RawGetString L d ''title'' = LNil \<Longrightarrow> BuildGridForm qt rf sh form name a L = Panicked"
  by (simp add: BuildGridForm_def materializeGridForm_def ensureGridForm_def Let_def)

theorem missing_field_named_nil:
  "RawGetString L d ''field'' = LNil \<Longrightarrow> RawGetString L d ''title'' = LNil \<Longrightarrow> column_title sh L (LTable d) = Some (''nil'', ''nil'')"
proof -
  have "isValidIdentifier ''nil''" by code_simp
  then show "RawGetString L d ''field'' = LNil \<Longrightarrow> RawGetString L d ''title'' = LNil \<Longrightarrow>
    column_title sh L (LTable d) = Some (''nil'', ''nil'')" by (simp add: column_title_def Let_def)
qed

section \<open>A form made from the columns\<close>

text \<open>Allocation and writes to new tables leave a form as it is.\<close>

lemma form_sound_new:
  assumes ok: "form_sound L f" and k: "undisturbed (\<lambda>b k. next_addr L \<le> b) L L'"
    and arrs: "\<And>b. b < next_addr L \<Longrightarrow> arr (table_at L' b) = arr (table_at L b)"
  shows "form_sound L' f" "control_map L' f = control_map L f" "order_names L' f = order_names L f" "handler_place L' f = handler_place L f"
proof -
  have h: "handlers_ok L f" and f: "f < next_addr L" using ok by (simp_all add: form_sound_def handlers_ok_def)
  have "\<forall>b k. next_addr L \<le> b \<longrightarrow> \<not> handler_place L f b k" using fresh_apart [OF h] by blast
  note hk = handlers_kept [OF h k this]
  have g: "RawGetString L' b k = RawGetString L b k" if "b < next_addr L" for b k using k that by (simp add: undisturbed_def)
  have ap: "apart L' f b" if "apart L f b" for b using that k by (simp add: apart_def hk(3) undisturbed_def)
  then have nap: "nil_or_apart L' f v" if "nil_or_apart L f v" for v using that by (auto simp: nil_or_apart_def)
  have ot: "RawGetString L f ''order'' = LTable od \<Longrightarrow> od < next_addr L" for od
    using ok by (auto simp: form_sound_def nil_or_apart_def apart_def)
  have ct: "RawGetString L f ''controls'' = LTable c \<Longrightarrow> c < next_addr L" for c
    using ok by (auto simp: form_sound_def nil_or_apart_def apart_def)
  show on: "order_names L' f = order_names L f"
    using arrs ot by (auto simp: order_names_def g [OF f] split: lua_value.split)
  show "handler_place L' f = handler_place L f" by (rule hk(3))
  show "control_map L' f = control_map L f"
  proof
    fix name
    show "control_map L' f name = control_map L f name"
    proof (cases "table_of (RawGetString L f ''controls'')")
      case (Some c)
      then show ?thesis using g [OF ct [of c]] by (simp add: control_map_def sub_table_def g [OF f])
    qed (simp add: control_map_def sub_table_def g [OF f])
  qed
  have "nil_or_apart L f (RawGetString L c k) \<and> RawGetString L c k \<noteq> LTable c" if "RawGetString L f ''controls'' = LTable c" for c k
    using ok that unfolding form_sound_def by blast
  then have "nil_or_apart L' f (RawGetString L' c k) \<and> RawGetString L' c k \<noteq> LTable c" if "RawGetString L f ''controls'' = LTable c" for c k
    using that nap g [OF ct [OF that]] by simp
  then show "form_sound L' f"
    using ok hk(1) nap on unfolding form_sound_def g [OF f] by metis
qed

lemma label_opts:
  assumes "form_sound L f" and n: "NewTable L = (L1, opts)"
    and L2: "L2 = RawSetString opts ''label'' (LString lbl) L1"
  shows "form_sound L2 f" "control_map L2 f = control_map L f" "order_names L2 f = order_names L f" "globals L2 = globals L"
    and "apart L2 f opts" "RawGetString L2 f ''controls'' \<noteq> LTable opts"
proof -
  have h: "handlers_ok L f" "heap_ok L" and f: "f < next_addr L"
    using assms(1) by (simp_all add: form_sound_def handlers_ok_def)
  note nt = NewTable_facts [OF h(2), unfolded n fst_conv snd_conv]
  have k: "undisturbed (\<lambda>b k. next_addr L \<le> b) L L2"
    unfolding L2 using nt by (auto simp: undisturbed_def intro: heap_ok_RawSet)
  have "arr (table_at L2 b) = arr (table_at L b)" for b by (simp add: L2 nt(7))
  note s = form_sound_new [OF assms(1) k this]
  show "form_sound L2 f" "control_map L2 f = control_map L f" "order_names L2 f = order_names L f" "globals L2 = globals L"
    using s k by (simp_all add: undisturbed_def)
  show "apart L2 f opts"
    using nt(2,3) f fresh_apart [OF h(1)] unfolding apart_def s(4) by (simp add: L2)
  show "RawGetString L2 f ''controls'' \<noteq> LTable opts"
    using assms(1) f nt(2) by (auto simp: L2 nt(4) form_sound_def nil_or_apart_def apart_def)
qed

lemma auto_control_step:
  assumes "form_sound L f" and "GetGlobal L form = LTable f"
  shows "\<exists>t. form_sound (auto_control sh form ft L) f \<and> GetGlobal (auto_control sh form ft L) form = LTable f
    \<and> control_map (auto_control sh form ft L) f = (control_map L f)(fst ft \<mapsto> t)
    \<and> order_names (auto_control sh form ft L) f = order_names L f @ [LString (fst ft)]"
proof -
  obtain L1 opts where n: "NewTable L = (L1, opts)" by fastforce
  let ?L = "RawSetString opts ''label'' (LString (snd ft)) L1"
  note l = label_opts [OF assms(1) n refl, of "snd ft"]
  have g: "GetGlobal ?L form = LTable f" using assms(2) GetGlobal_globals [OF l(4)] by simp
  obtain L' where a: "addControl sh form (fst ft) ''textbox'' opts ?L = Inr L'"
    using g by (simp add: addControl_def on_form_table_def)
  have e: "auto_control sh form ft L = L'" by (simp add: auto_control_def n must_add_def a)
  obtain t where "form_sound L' f" "globals L' = globals ?L" "control_map L' f = (control_map ?L f)(fst ft \<mapsto> t)"
    "order_names L' f = order_names ?L f @ [LString (fst ft)]"
    by (rule addControl_steps [OF l(1) g l(5,6) a]) blast
  then show ?thesis unfolding e l(2,3) using g GetGlobal_globals [of L' ?L] by auto
qed

lemma auto_controls:
  "form_sound L f \<Longrightarrow> GetGlobal L form = LTable f \<Longrightarrow>
   form_sound (fold (auto_control sh form) fts L) f \<and> GetGlobal (fold (auto_control sh form) fts L) form = LTable f
   \<and> order_names (fold (auto_control sh form) fts L) f = order_names L f @ map (LString \<circ> fst) fts
   \<and> dom (control_map (fold (auto_control sh form) fts L) f) = dom (control_map L f) \<union> fst ` set fts"
proof (induction fts arbitrary: L)
  case (Cons ft fts)
  obtain t where "form_sound (auto_control sh form ft L) f" "GetGlobal (auto_control sh form ft L) form = LTable f"
    "control_map (auto_control sh form ft L) f = (control_map L f)(fst ft \<mapsto> t)"
    "order_names (auto_control sh form ft L) f = order_names L f @ [LString (fst ft)]"
    using auto_control_step [OF Cons.prems] by blast
  then show ?case using Cons.IH by auto
qed simp

text \<open>The form before its controls are made, when its name was free.\<close>

definition titled_form :: "string \<Rightarrow> lua_state \<Rightarrow> lua_state" where
  "titled_form modal L = (let (L1, f) = ensureGridForm modal L in RawSetString f ''title'' (LString ''Record Details'') L1)"

lemma titled_form_sound:
  assumes "heap_ok L" and "form_table L modal = None"
  shows "\<exists>f. form_sound (titled_form modal L) f \<and> GetGlobal (titled_form modal L) modal = LTable f
    \<and> control_map (titled_form modal L) f = Map.empty \<and> order_names (titled_form modal L) f = []"
proof -
  let ?f = "next_addr L" and ?L = "titled_form modal L"
  note nt = NewTable_facts [OF assms(1)]
  have heap: "heap (SetGlobal g v L) = heap L" "next_addr (SetGlobal g v L) = next_addr L" for g v L by (simp_all add: SetGlobal_def)
  have get: "RawGetString (SetGlobal g v L) b k = RawGetString L b k" for g v L b k
    by (simp add: SetGlobal_def RawGetString_def table_at_def)
  have "heap_ok (SetGlobal modal (LTable ?f) (fst (NewTable L)))" using nt(1) by (simp add: heap_ok_def heap)
  then have na: "next_addr ?L = Suc ?f" and hp: "heap_ok ?L"
    using assms nt(2,3) by (simp_all add: titled_form_def ensureGridForm_def Let_def case_prod_beta heap heap_ok_RawSet)
  have r: "RawGetString ?L ?f k = (if k = ''title'' then LString ''Record Details'' else LNil)" for k
    using assms nt(2,5) by (simp add: titled_form_def ensureGridForm_def Let_def case_prod_beta get nt(4))
  have g: "GetGlobal ?L modal = LTable ?f"
    using assms nt(2) by (simp add: titled_form_def ensureGridForm_def Let_def case_prod_beta)
  have "form_sound ?L ?f" using hp na by (simp add: form_sound_def handlers_ok_def r nil_or_apart_def order_names_def)
  then show ?thesis using g by (intro exI [of _ ?f]) (simp add: r control_map_def sub_table_def order_names_def fun_eq_iff)
qed

text \<open>A grid without a form of its own gets a text box per column, in the order of the columns; no grid
  is refused for want of columns.\<close>

theorem auto_form_has_box_per_column:
  assumes "heap_ok L" and "RawGetString L a ''form'' = LNil" and "form_table L (''__kgrid_'' @ form @ ''_'' @ name) = None"
  shows "\<exists>L' f modal. BuildGridForm qt rf sh form name a L = Done (Inr (modal, rf L' modal), L') \<and> GetGlobal L' modal = LTable f
    \<and> order_names L' f = map (LString \<circ> fst) (auto_fields sh (titled_form modal L) a)
    \<and> {c. getControl L' modal c \<noteq> None} = fst ` set (auto_fields sh (titled_form modal L) a)"
proof -
  let ?m = "''__kgrid_'' @ form @ ''_'' @ name"
  let ?L = "materializeGridAutoForm sh ?m a L"
  obtain f where f: "form_sound (titled_form ?m L) f" "GetGlobal (titled_form ?m L) ?m = LTable f"
    "control_map (titled_form ?m L) f = Map.empty" "order_names (titled_form ?m L) f = []"
    using titled_form_sound [OF assms(1,3)] by blast
  have "?L = fold (auto_control sh ?m) (auto_fields sh (titled_form ?m L) a) (titled_form ?m L)"
    by (simp add: materializeGridAutoForm_def titled_form_def case_prod_beta Let_def)
  then have c: "form_sound ?L f" "GetGlobal ?L ?m = LTable f" "order_names ?L f = map (LString \<circ> fst) (auto_fields sh (titled_form ?m L) a)"
    "dom (control_map ?L f) = fst ` set (auto_fields sh (titled_form ?m L) a)"
    using auto_controls [OF f(1,2), of sh "auto_fields sh (titled_form ?m L) a"] f(3,4) by simp_all
  have "GridFormModalName sh L a form name = ?m" by (simp add: GridFormModalName_def assms(2))
  moreover have "form_table ?L ?m = Some f" using c(2) by (simp add: form_table_def)
  ultimately have "BuildGridForm qt rf sh form name a L = Done (Inr (?m, rf ?L ?m), ?L)"
    and "{c. getControl ?L ?m c \<noteq> None} = dom (control_map ?L f)"
    using assms(2) by (simp_all add: BuildGridForm_def auto_form_def Let_def getControl_def controlTable_map dom_def)
  then show ?thesis using c by (intro exI [of _ ?L] exI [of _ f] exI [of _ ?m]) simp
qed

end
