(* ===== verification/Html_Text.thy ===== *)
theory Html_Text
  imports Lua_Tree
begin

text \<open>
  Escaping: Go's \<^verbatim>\<open>html.EscapeString\<close>, through which \<^verbatim>\<open>internal/bindings/render.go\<close>
  (\<^verbatim>\<open>escText\<close>, \<^verbatim>\<open>escAttr\<close>) and \<^verbatim>\<open>internal/session/session.go\<close> put text into
  markup, the escaping of \<^verbatim>\<open>jsonEscape\<close>, and \<^verbatim>\<open>luaTableToJSON\<close>, the writer of table and chart
  data. A reader of markup that keeps the tags and drops texts and attribute values states what
  escaped text cannot change.
\<close>

section \<open>Escaping\<close>

definition html_char :: "char \<Rightarrow> string" where
  "html_char c =
     (if c = CHR ''&'' then ''&amp;''
      else if c = CHR 0x27 then ''&#39;''
      else if c = CHR ''<'' then ''&lt;''
      else if c = CHR ''>'' then ''&gt;''
      else if c = CHR 0x22 then ''&#34;''
      else [c])"

definition html_escape :: "string \<Rightarrow> string" where
  "html_escape s = concat (map html_char s)"

definition escText :: "string \<Rightarrow> string" where "escText = html_escape"

definition escAttr :: "string \<Rightarrow> string" where "escAttr = html_escape"

text \<open>An attribute with a value written as it is, and one with an escaped value.\<close>

definition raw_attribute :: "string \<Rightarrow> string \<Rightarrow> string" where
  "raw_attribute k v = CHR '' '' # k @ ''='' @ [CHR 0x22] @ v @ [CHR 0x22]"

definition attribute :: "string \<Rightarrow> string \<Rightarrow> string" where
  "attribute k v = raw_attribute k (html_escape v)"

definition renderAttrs :: "string \<Rightarrow> string \<Rightarrow> string" where
  "renderAttrs form name = attribute ''data-k-form'' form @ attribute ''data-k-ctrl'' name"

text \<open>The backslash is replaced first, so the replacements do not interfere.\<close>

definition json_esc_char :: "char \<Rightarrow> string" where
  "json_esc_char c =
     (if c = CHR 0x5C then [CHR 0x5C, CHR 0x5C]
      else if c = CHR 0x22 then [CHR 0x5C, CHR 0x22]
      else if c = CHR 0x0A then [CHR 0x5C, CHR ''n'']
      else if c = CHR 0x0D then [CHR 0x5C, CHR ''r'']
      else if c = CHR 0x09 then [CHR 0x5C, CHR ''t'']
      else [c])"

definition jsonEscape :: "string \<Rightarrow> string" where
  "jsonEscape s = concat (map json_esc_char s)"

definition plain_quote :: "string \<Rightarrow> string" where
  "plain_quote s = CHR 0x22 # jsonEscape s @ [CHR 0x22]"

section \<open>Tables as JSON\<close>

text \<open>
  A table is an array when its keys, truncated to integers, come as 1, 2, 3 and so on; the fuel
  bounds the depth of nested tables, and a table inside itself has no text: the recursion of the
  code does not end.
\<close>

fun counts_up :: "int \<Rightarrow> lua_value list \<Rightarrow> bool" where
  "counts_up n [] = True"
| "counts_up n (k # ks) = (case k of LNumber f \<Rightarrow> go_int f = n \<and> counts_up (n + 1) ks | _ \<Rightarrow> False)"

definition table_json :: "(lua_value \<Rightarrow> string) \<Rightarrow> (lua_value \<times> lua_value) list \<Rightarrow> string list \<Rightarrow> string" where
  "table_json sh kvs vs =
     (if counts_up 1 (map fst kvs) then ''['' @ join_with '','' vs @ '']''
      else ''{'' @ join_with '',''
             (map (\<lambda>((k, _), v). plain_quote (lv_string sh k) @ '':'' @ v) (zip kvs vs)) @ ''}'')"

fun luaValueJSON :: "(lua_value \<Rightarrow> string) \<Rightarrow> nat \<Rightarrow> lua_state \<Rightarrow> lua_value \<Rightarrow> string option" where
  "luaValueJSON sh 0 L v = None"
| "luaValueJSON sh (Suc n) L v =
     (case v of
        LTable a \<Rightarrow>
          (let kvs = for_each L a
           in map_option (table_json sh kvs) (those (map (\<lambda>kv. luaValueJSON sh n L (snd kv)) kvs)))
      | LNil \<Rightarrow> Some ''null''
      | LNumber f \<Rightarrow> Some (lv_string sh v)
      | LBool b \<Rightarrow> Some (lv_string sh v)
      | _ \<Rightarrow> Some (plain_quote (lv_string sh v)))"

definition luaTableToJSON :: "(lua_value \<Rightarrow> string) \<Rightarrow> nat \<Rightarrow> lua_state \<Rightarrow> nat \<Rightarrow> string option" where
  "luaTableToJSON sh n L a = luaValueJSON sh n L (LTable a)"

section \<open>Reading markup\<close>

text \<open>
  Outside a tag, inside one, and inside a double-quoted attribute value; the characters of tags,
  attribute values left out, are the output.
\<close>

datatype place = InText | InTag | InValue

fun scan_char :: "place \<Rightarrow> char \<Rightarrow> place \<times> string" where
  "scan_char InText c = (if c = CHR ''<'' then (InTag, ''<'') else (InText, []))"
| "scan_char InTag c = (if c = CHR ''>'' then (InText, ''>'') else if c = CHR 0x22 then (InValue, [c]) else (InTag, [c]))"
| "scan_char InValue c = (if c = CHR 0x22 then (InTag, [c]) else (InValue, []))"

fun scan :: "place \<Rightarrow> string \<Rightarrow> place \<times> string" where
  "scan p [] = (p, [])"
| "scan p (c # s) = (let (q, t) = scan_char p c; (r, u) = scan q s in (r, t @ u))"

definition tags :: "string \<Rightarrow> string" where
  "tags s = snd (scan InText s)"

text \<open>A text that leaves the reader where it was and is not read.\<close>

definition inert :: "place \<Rightarrow> string \<Rightarrow> bool" where
  "inert p s \<longleftrightarrow> scan p s = (p, [])"

lemma scan_append: "scan p (s @ t) = (let (q, u) = scan p s; (r, v) = scan q t in (r, u @ v))"
  by (induction s arbitrary: p) (auto simp: case_prod_beta Let_def)

lemma scan_inert: "inert p s \<Longrightarrow> scan p (s @ t) = scan p t"
  by (simp add: scan_append inert_def case_prod_beta)

lemma inert_concat: "(\<And>s. s \<in> set ss \<Longrightarrow> inert p s) \<Longrightarrow> inert p (concat ss)"
  by (induction ss) (auto simp: inert_def scan_append)

lemma inert_html_char: "p \<noteq> InTag \<Longrightarrow> inert p (html_char c)"
  by (cases p) (auto simp: html_char_def inert_def)

lemma inert_escape [simp]: "p \<noteq> InTag \<Longrightarrow> inert p (html_escape s)"
  by (auto simp: html_escape_def intro!: inert_concat inert_html_char)

lemma inert_Nil [simp]: "inert p []"
  by (simp add: inert_def)

text \<open>What the reader sees of an element's parts.\<close>

definition plain_name :: "string \<Rightarrow> bool" where
  "plain_name k \<longleftrightarrow> CHR 0x22 \<notin> set k \<and> CHR ''>'' \<notin> set k"

lemma scan_name: "plain_name k \<Longrightarrow> scan InTag k = (InTag, k)"
  by (induction k) (auto simp: plain_name_def)

lemma scan_text [simp]: "scan InText (html_escape s @ t) = scan InText t" "scan InText (html_escape s) = (InText, [])"
  "scan InValue (html_escape s @ t) = scan InValue t" "scan InValue (html_escape s) = (InValue, [])"
  using inert_escape [of InText s] inert_escape [of InValue s]
    scan_inert [OF inert_escape [of InText s]] scan_inert [OF inert_escape [of InValue s]]
  by (simp_all only: inert_def place.distinct simp_thms)

lemma scan_quote [simp]: "scan InTag (CHR 0x22 # s) = (let (q, t) = scan InValue s in (q, CHR 0x22 # t))"
  "scan InValue (CHR 0x22 # s) = (let (q, t) = scan InTag s in (q, CHR 0x22 # t))"
  by (simp_all add: case_prod_beta Let_def)

lemma scan_raw_attribute:
  "plain_name k \<Longrightarrow> inert InValue v \<Longrightarrow> scan InTag (raw_attribute k v) = (InTag, CHR '' '' # k @ ''='' @ [CHR 0x22, CHR 0x22])"
  by (simp add: raw_attribute_def scan_append scan_name inert_def)

lemma scan_attribute: "plain_name k \<Longrightarrow> scan InTag (attribute k v) = (InTag, CHR '' '' # k @ ''='' @ [CHR 0x22, CHR 0x22])"
  by (simp add: attribute_def scan_raw_attribute)

text \<open>Place and output separately, for the markup of a whole element.\<close>

lemma seen:
  "fst (scan p (c # s)) = fst (scan (fst (scan_char p c)) s)"
  "snd (scan p (c # s)) = snd (scan_char p c) @ snd (scan (fst (scan_char p c)) s)"
  "fst (scan p (s @ t)) = fst (scan (fst (scan p s)) t)"
  "snd (scan p (s @ t)) = snd (scan p s) @ snd (scan (fst (scan p s)) t)"
  by (simp_all add: scan_append case_prod_beta Let_def)

lemma seen_attribute:
  "plain_name k \<Longrightarrow> fst (scan InTag (attribute k v)) = InTag"
  "plain_name k \<Longrightarrow> snd (scan InTag (attribute k v)) = CHR '' '' # k @ ''='' @ [CHR 0x22, CHR 0x22]"
  by (simp_all add: scan_attribute)

text \<open>What escaping removes, and that nothing is lost: an unescaper that undoes it.\<close>

lemma html_escape_simps [simp]:
  "html_escape [] = []" "html_escape (c # s) = html_char c @ html_escape s" "html_escape (s @ t) = html_escape s @ html_escape t"
  by (simp_all add: html_escape_def)

fun html_unescape :: "string \<Rightarrow> string" where
  "html_unescape [] = []"
| "html_unescape (c # s) =
     (if c \<noteq> CHR ''&'' then c # html_unescape s
      else if take 4 s = ''amp;'' then CHR ''&'' # html_unescape (drop 4 s)
      else if take 4 s = ''#39;'' then CHR 0x27 # html_unescape (drop 4 s)
      else if take 3 s = ''lt;'' then CHR ''<'' # html_unescape (drop 3 s)
      else if take 3 s = ''gt;'' then CHR ''>'' # html_unescape (drop 3 s)
      else if take 4 s = ''#34;'' then CHR 0x22 # html_unescape (drop 4 s)
      else c # html_unescape s)"

lemma unescape_char: "html_unescape (html_char c @ t) = c # html_unescape t"
  by (auto simp: html_char_def numeral_eq_Suc)

text \<open>C31: Escaped text reads back as the text, has no character that opens or closes a tag or a value, and
  is not seen by a reader of tags.\<close>

theorem html_escape_faithful:
  "html_unescape (escText s) = s \<and> escAttr s = escText s \<and> set (escAttr s) \<inter> {CHR ''<'', CHR ''>'', CHR 0x22, CHR 0x27} = {}
   \<and> scan InText (escText s) = (InText, []) \<and> scan InValue (escAttr s) = (InValue, [])"
  unfolding escText_def escAttr_def
proof (intro conjI)
  show "html_unescape (html_escape s) = s" by (induction s) (simp_all add: unescape_char)
  show "set (html_escape s) \<inter> {CHR ''<'', CHR ''>'', CHR 0x22, CHR 0x27} = {}"
    by (induction s) (auto simp: html_char_def split: if_splits)
qed simp_all

end
