(* ===== verification/Session_Grid.thy ===== *)
theory Session_Grid
  imports Grid_Forms Html_Text Table_Paging Tree_Build Json_Lua Session_Run
begin

text \<open>
  The handlers of \<^verbatim>\<open>internal/session/session.go\<close> that reach a database: pages of tables and
  loopers, tree data, and the detail form of a grid with its opening, saving, cancelling and the
  deletion of rows. A handler returns the statements it executed and the new session. The world
  outside is a record: the open handles, what a write on a handle answers, Go's \<^verbatim>\<open>%q\<close>,
  \<^verbatim>\<open>json.Marshal\<close> and the compaction of raw JSON, the number format of the JSON
  writer, the markup of a form, and the values a suspended handler yielded.
\<close>

section \<open>The world outside and what a handler does\<close>

record page_env =
  pe_handles :: "string \<Rightarrow> (string \<times> database) option"
  pe_exec :: "string \<Rightarrow> write_stmt \<Rightarrow> string option"
  pe_quote :: "string \<Rightarrow> string"
  pe_json :: "go_value \<Rightarrow> string option"
  pe_compact :: "string \<Rightarrow> string option"
  pe_num :: "go_float \<Rightarrow> string + string"
  pe_form_html :: "lua_state \<Rightarrow> string \<Rightarrow> string"
  pe_yielded :: "session \<Rightarrow> lua_value list"

type_synonym page_effect = "(string \<times> write_stmt) list \<times> session"

definition no_write :: "session outcome \<Rightarrow> page_effect outcome" where
  "no_write r = andThen r (\<lambda>s. Done ([], s))"

text \<open>Texts of the errors.\<close>

fun grid_error_text :: "(string \<Rightarrow> string) \<Rightarrow> grid_error \<Rightarrow> string" where
  "grid_error_text qt NotSelect = ''grid query is not a plain SELECT''"
| "grid_error_text qt NoFrom = ''grid query has no FROM clause''"
| "grid_error_text qt EmptyFrom = ''grid query has empty FROM clause''"
| "grid_error_text qt (NoTable w) = ''cannot derive a write table from '' @ qt w"
| "grid_error_text qt NoColumns = ''no valid columns to insert''"
| "grid_error_text qt NoKeys = ''no primary key values to delete''"
| "grid_error_text qt (UnknownHandle h) = ''unknown database handle '' @ qt h"

fun tree_error_text :: "tree_error \<Rightarrow> string" where
  "tree_error_text (NoHandle h) = ''database handle not found: '' @ h"
| "tree_error_text (QueryFailed err) = err"
| "tree_error_text (TooManyRows n cap) = ''tree exceeds max_nodes ('' @ itoa (int n) @ '' rows > '' @ itoa cap
     @ '' cap); narrow the WHERE clause or raise max_nodes''"

section \<open>The grid behind a control\<close>

definition grid_link ::
  "(string \<Rightarrow> string) \<Rightarrow> (string \<Rightarrow> go_float option) \<Rightarrow> (lua_value \<Rightarrow> string) \<Rightarrow> lua_state \<Rightarrow> nat \<Rightarrow>
   string + string \<times> string \<times> string" where
  "grid_link qt pf sh L a =
     (case tableLinkFromControl pf sh L a of
        None \<Rightarrow> Inl ''grid is not DB-linked (db = handle, query = SELECT required)''
      | Some link \<Rightarrow>
          (case GridTableFromQuery (tl_Query link) of
             Inl err \<Rightarrow> Inl (grid_error_text qt err)
           | Inr tbl \<Rightarrow> Inr (tl_HandleID link, tbl, GridPKFromControl sh L a)))"

definition grid_meta :: "page_env \<Rightarrow> engine \<Rightarrow> inbox_msg \<Rightarrow> lua_state \<Rightarrow> string + nat \<times> string \<times> string \<times> string" where
  "grid_meta pe e m L =
     (case gridMeta (e\<lparr>eng_grid_link := grid_link (pe_quote pe) (eng_parse e) (eng_show e)\<rparr>) (im_form m) (im_ctrl m) L of
        Inl reason \<Rightarrow> Inl reason
      | Inr hlp \<Rightarrow> Inr (the (controlTable L (im_form m) (im_ctrl m)), hlp))"

definition gridSendStatus :: "string \<Rightarrow> session \<Rightarrow> session" where
  "gridSendStatus t = SendOutbox (empty_msg\<lparr>Type := ''status'', Text := t\<rparr>)"

definition gridSendError :: "engine \<Rightarrow> string \<Rightarrow> string \<Rightarrow> session \<Rightarrow> session" where
  "gridSendError e phase err s =
     SendOutbox (empty_msg\<lparr>Type := ''error'', Msg := ''grid '' @ phase @ '' error: '' @ err\<rparr>) (notifyError e err s)"

definition gridCloseModal :: "string \<Rightarrow> session \<Rightarrow> session" where
  "gridCloseModal modal = SendOutbox (empty_msg\<lparr>Type := ''close_form'', Form := modal, Modal := True\<rparr>)"

text \<open>A handler refuses with a table whose \<^verbatim>\<open>ok\<close> prints as \<^verbatim>\<open>false\<close>.\<close>

definition refusal :: "(lua_value \<Rightarrow> string) \<Rightarrow> string \<Rightarrow> lua_state \<Rightarrow> lua_value list option \<Rightarrow> string option" where
  "refusal sh dflt L rets =
     (case rets of
        Some (LTable t # _) \<Rightarrow>
          (let okv = RawGetString L t ''ok''; err = RawGetString L t ''error'' in
           if okv \<noteq> LNil \<and> lv_string sh okv = ''false'' then Some (if err = LNil then dflt else lv_string sh err)
           else None)
      | _ \<Rightarrow> None)"

definition fireGridEvent ::
  "engine \<Rightarrow> inbox_msg \<Rightarrow> string \<Rightarrow> lua_value list \<Rightarrow> session \<Rightarrow> (bool \<times> session) outcome" where
  "fireGridEvent e m event args s =
     andThen (runFormHandlerSync e (im_form m) (im_ctrl m) event args s)
       (\<lambda>(rets, s1). Done (case refusal (eng_show e) ''grid event aborted'' (lua (world s1)) rets of
            Some err \<Rightarrow> (False, SendOutbox (empty_msg\<lparr>Type := ''error'', Msg := err\<rparr>) s1)
          | None \<Rightarrow> (rets \<noteq> None \<and> rets \<noteq> Some [], s1)))"

section \<open>Values of a request\<close>

fun gridMsgMap :: "go_value \<Rightarrow> (string \<times> go_value) list" where
  "gridMsgMap (GMap kvs) = kvs"
| "gridMsgMap g = []"

definition gridMsgVal :: "(string \<times> go_value) list \<Rightarrow> string \<Rightarrow> go_value" where
  "gridMsgVal m key = (case map_of m key of Some v \<Rightarrow> v | None \<Rightarrow> GNil)"

definition gridMsgSub :: "(string \<times> go_value) list \<Rightarrow> string \<Rightarrow> (string \<times> go_value) list option" where
  "gridMsgSub m key = (case gridMsgVal m key of GMap kvs \<Rightarrow> Some kvs | _ \<Rightarrow> None)"

text \<open>An integral number becomes an \<^verbatim>\<open>int64\<close>, one that does not fit the smallest of them.\<close>

definition sqlValue :: "go_value \<Rightarrow> go_value" where
  "sqlValue v =
     (case v of
        GFloat f \<Rightarrow> (case f of
            Fin q \<Rightarrow> (if q = of_int (trunc_rat q) then GInt64 (go_int f) else v)
          | NaN \<Rightarrow> v
          | _ \<Rightarrow> GInt64 (go_int f))
      | _ \<Rightarrow> v)"

definition scalarJSON :: "page_env \<Rightarrow> go_value \<Rightarrow> string" where
  "scalarJSON pe v = (if v = GNil then [] else case pe_json pe v of Some t \<Rightarrow> t | None \<Rightarrow> [])"

definition sprint_v :: "engine \<Rightarrow> go_value \<Rightarrow> string" where
  "sprint_v e v = (if v = GNil then ''<nil>'' else value_text (eng_show_go e) v)"

definition gridModalFooter :: "page_env \<Rightarrow> string \<Rightarrow> string \<Rightarrow> string \<Rightarrow> go_value \<Rightarrow> string \<Rightarrow> string" where
  "gridModalFooter pe form ctrl mode pk width =
     (let common = attribute ''data-k-grid-form'' form @ attribute ''data-k-grid-ctrl'' ctrl
            @ attribute ''data-k-grid-mode'' mode @ attribute ''data-k-grid-pk'' (scalarJSON pe pk)
            @ (if width = [] then [] else attribute ''data-k-grid-width'' width);
          button = (\<lambda>cls act label. ''<button type='' @ [CHR 0x22] @ ''button'' @ [CHR 0x22] @ '' class='' @ [CHR 0x22] @ cls
            @ [CHR 0x22] @ '' '' @ act @ ''='' @ [CHR 0x22] @ ''1'' @ [CHR 0x22] @ common @ ''>'' @ label @ ''</button>'')
      in ''<div class='' @ [CHR 0x22] @ ''kalua-grid-form-footer'' @ [CHR 0x22] @ ''>''
         @ button ''kalua-btn kalua-grid-btn kalua-grid-btn-save'' ''data-k-grid-save'' ''Save''
         @ button ''kalua-btn kalua-grid-btn'' ''data-k-grid-cancel'' ''Close'' @ ''</div>'')"

section \<open>Opening, saving and cancelling the detail form\<close>

definition mode_event :: "engine \<Rightarrow> inbox_msg \<Rightarrow> string \<Rightarrow> go_value \<Rightarrow> session \<Rightarrow> session outcome" where
  "mode_event e m mode row s =
     (let fire = (\<lambda>event. if row = GNil then Done s
            else (let (s1, v) = to_lua e row s in andThen (fireGridEvent e m event [v] s1) (\<lambda>(_, s2). Done s2)))
      in if mode = ''view'' then fire ''on_row_view''
         else if mode = ''edit'' then fire ''on_row_edit''
         else if mode = ''new'' then andThen (fireGridEvent e m ''on_new_record'' [] s) (\<lambda>(_, s1). Done s1)
         else Done s)"

definition form_width :: "(lua_value \<Rightarrow> string) \<Rightarrow> lua_state \<Rightarrow> nat \<Rightarrow> string" where
  "form_width sh L a = (let v = RawGetString L a ''form_width'' in if v = LNil then [] else lv_string sh v)"

definition handleGridFormOpen :: "page_env \<Rightarrow> engine \<Rightarrow> inbox_msg \<Rightarrow> session \<Rightarrow> session outcome" where
  "handleGridFormOpen pe e m s =
     (case grid_meta pe e m (lua (world s)) of
        Inl reason \<Rightarrow> Done (gridSendStatus (''grid form: '' @ reason) s)
      | Inr (a, _) \<Rightarrow>
          andThen (BuildGridForm (pe_quote pe) (pe_form_html pe) (eng_show e) (im_form m) (im_ctrl m) a (lua (world s)))
            (\<lambda>(built, L). let s1 = set_lua L s in
               case built of
                 Inl err \<Rightarrow> Done (gridSendStatus (''grid form: '' @ err) s1)
               | Inr (modal, html) \<Rightarrow>
                   (let raw = gridMsgMap (im_raw m); pk = gridMsgVal raw ''pk''; row = gridMsgVal raw ''row'';
                        mode = (if gridMsgVal raw ''mode'' = GNil then ''edit'' else sprint_v e (gridMsgVal raw ''mode''))
                    in andThen (mode_event e m mode row s1) (\<lambda>s2.
                       let L2 = lua (world s2); (gx, gy) = GridFormGap (eng_parse e) L2 a
                       in Done (SendOutbox (empty_msg\<lparr>Type := ''render_form'', Form := modal,
                            HTML := html @ gridModalFooter pe (im_form m) (im_ctrl m) mode pk (form_width (eng_show e) L2 a),
                            Modal := True, GapX := gx, GapY := gy, Grid := True, GridMode := mode,
                            GridPK := scalarJSON pe pk,
                            GridRow := (if row = GNil then ''{}'' else scalarJSON pe row)\<rparr>) s2)))))"

text \<open>The tables the \<^verbatim>\<open>on_save\<close> and \<^verbatim>\<open>on_cancel\<close> handlers get.\<close>

definition mode_table :: "engine \<Rightarrow> string \<Rightarrow> go_value \<Rightarrow> lua_state \<Rightarrow> lua_state \<times> nat" where
  "mode_table e mode pk L =
     (let (L1, t) = NewTable L; L2 = RawSetString t ''mode'' (LString mode) L1;
          (L3, v) = (if pk = GNil then (L2, LNil) else toLuaValue (eng_parse e) (eng_show_go e) pk L2)
      in (RawSetString t ''pk'' v L3, t))"

definition save_pair :: "engine \<Rightarrow> nat \<Rightarrow> string \<times> go_value \<Rightarrow> lua_state \<Rightarrow> lua_state" where
  "save_pair e t kv L =
     (let (L1, v) = toLuaValue (eng_parse e) (eng_show_go e) (snd kv) L in RawSetString t (fst kv) v L1)"

definition save_table :: "engine \<Rightarrow> string \<Rightarrow> go_value \<Rightarrow> (string \<times> go_value) list \<Rightarrow> lua_state \<Rightarrow> lua_state \<times> nat" where
  "save_table e mode pk vals L =
     (let (L1, t) = mode_table e mode pk L; (L2, vt) = NewTable L1
      in (RawSetString t ''values'' (LTable vt) (fold (save_pair e vt) vals L2), t))"

text \<open>A statement that could be built is executed on the grid's handle.\<close>

definition execute :: "page_env \<Rightarrow> string \<Rightarrow> string \<Rightarrow> string \<Rightarrow> grid_error + write_stmt \<Rightarrow> (string \<times> write_stmt) list \<times> string option" where
  "execute pe what none h r =
     (case r of
        Inl err \<Rightarrow> ([], Some (if err = NoColumns then none else grid_error_text (pe_quote pe) err))
      | Inr stmt \<Rightarrow> ([(h, stmt)], map_option (\<lambda>err. ''grid '' @ what @ '': '' @ err) (pe_exec pe h stmt)))"

definition driver_of :: "page_env \<Rightarrow> string \<Rightarrow> string option" where
  "driver_of pe h = map_option fst (pe_handles pe h)"

definition save_row ::
  "page_env \<Rightarrow> string \<times> string \<times> string \<Rightarrow> string \<Rightarrow> go_value \<Rightarrow> (string \<times> go_value) list \<Rightarrow> (string \<times> write_stmt) list \<times> string option" where
  "save_row pe link mode pk values =
     (case link of (h, tbl, key) \<Rightarrow>
        (let vals = map (\<lambda>(k, v). (k, sqlValue v)) values in
         if mode = ''new'' \<or> pk = GNil
         then execute pe ''insert'' ''no valid columns to insert'' h (GridInsert (driver_of pe) h tbl key vals)
         else execute pe ''update'' ''no valid columns to update'' h (GridUpdate (driver_of pe) h tbl key (sqlValue pk) vals)))"

definition handleGridFormSave :: "page_env \<Rightarrow> engine \<Rightarrow> inbox_msg \<Rightarrow> session \<Rightarrow> page_effect outcome" where
  "handleGridFormSave pe e m s =
     (case grid_meta pe e m (lua (world s)) of
        Inl reason \<Rightarrow> Done ([], gridSendStatus (''grid save: '' @ reason) s)
      | Inr (a, link) \<Rightarrow>
          (let raw = gridMsgMap (im_raw m); mode = sprint_v e (gridMsgVal raw ''mode''); pk = gridMsgVal raw ''pk'' in
           case gridMsgSub raw ''values'' of
             None \<Rightarrow> Done ([], gridSendStatus ''grid save: no values received'' s)
           | Some values \<Rightarrow>
               (let modal = GridFormModalName (eng_show e) (lua (world s)) a (im_form m) (im_ctrl m);
                    (L1, t) = save_table e mode pk values (lua (world s))
                in andThen (runFormHandlerSync e modal ''@form'' ''on_save'' [LTable t] (set_lua L1 s)) (\<lambda>(rets, s1).
                   case refusal (eng_show e) ''validation failed'' (lua (world s1)) rets of
                     Some err \<Rightarrow> Done ([], gridSendError e ''save'' err s1)
                   | None \<Rightarrow>
                       (case save_row pe link mode pk values of
                          (stmts, Some err) \<Rightarrow> Done (stmts, gridSendError e ''save'' err s1)
                        | (stmts, None) \<Rightarrow>
                            Done (stmts, gridRefresh (im_form m) (im_ctrl m) (gridCloseModal modal s1)))))))"

definition handleGridFormCancel :: "page_env \<Rightarrow> engine \<Rightarrow> inbox_msg \<Rightarrow> session \<Rightarrow> session outcome" where
  "handleGridFormCancel pe e m s =
     (case grid_meta pe e m (lua (world s)) of
        Inl reason \<Rightarrow> Done s
      | Inr (a, _) \<Rightarrow>
          (let modal = GridFormModalName (eng_show e) (lua (world s)) a (im_form m) (im_ctrl m);
               raw = gridMsgMap (im_raw m);
               (L1, t) = mode_table e (sprint_v e (gridMsgVal raw ''mode'')) (gridMsgVal raw ''pk'') (lua (world s))
           in andThen (runFormHandler e modal ''@form'' ''on_cancel'' [Some (LTable t)] (set_lua L1 s))
                (\<lambda>(_, s1). Done (gridCloseModal modal s1))))"

section \<open>Deleting rows\<close>

definition delete_keys :: "inbox_msg \<Rightarrow> bool \<Rightarrow> go_value list" where
  "delete_keys m batch =
     (let raw = gridMsgMap (im_raw m) in
      if batch then (case gridMsgVal raw ''pks'' of GList pks \<Rightarrow> pks | _ \<Rightarrow> []) else [gridMsgVal raw ''pk''])"

definition gridDeleteRows :: "page_env \<Rightarrow> engine \<Rightarrow> inbox_msg \<Rightarrow> bool \<Rightarrow> session \<Rightarrow> page_effect" where
  "gridDeleteRows pe e m batch s =
     (case grid_meta pe e m (lua (world s)) of
        Inl reason \<Rightarrow> ([], gridSendStatus (''grid delete: '' @ reason) s)
      | Inr (a, h, tbl, key) \<Rightarrow>
          (if delete_keys m batch = [] then ([], gridSendStatus ''grid delete: no rows selected'' s)
           else case execute pe ''delete'' [] h (GridDeleteMany (driver_of pe) h tbl key (map sqlValue (delete_keys m batch))) of
                  (stmts, Some err) \<Rightarrow> (stmts, gridSendError e ''delete'' err s)
                | (stmts, None) \<Rightarrow> (stmts, gridRefresh (im_form m) (im_ctrl m) s)))"

definition handleGridRowDelete :: "page_env \<Rightarrow> engine \<Rightarrow> inbox_msg \<Rightarrow> session \<Rightarrow> page_effect outcome" where
  "handleGridRowDelete pe e m s =
     (let pk = gridMsgVal (gridMsgMap (im_raw m)) ''pk'' in
      andThen (if pk = GNil then Done s
               else (let (s1, v) = to_lua e pk s
                     in andThen (fireGridEvent e m ''on_row_delete'' [v] s1) (\<lambda>(_, s2). Done s2)))
        (\<lambda>s3. Done (gridDeleteRows pe e m False s3)))"

fun number_rows :: "engine \<Rightarrow> nat \<Rightarrow> nat \<Rightarrow> go_value list \<Rightarrow> lua_state \<Rightarrow> lua_state" where
  "number_rows e t i [] L = L"
| "number_rows e t i (g # gs) L =
     (let (L1, v) = toLuaValue (eng_parse e) (eng_show_go e) g L in number_rows e t (i + 1) gs (RawSetInt t i v L1))"

definition handleGridBatchDelete :: "page_env \<Rightarrow> engine \<Rightarrow> inbox_msg \<Rightarrow> session \<Rightarrow> page_effect outcome" where
  "handleGridBatchDelete pe e m s =
     (let pks = delete_keys m True in
      andThen (if pks = [] then Done s
               else (let (L1, t) = NewTable (lua (world s))
                     in andThen (fireGridEvent e m ''on_batch_delete'' [LTable t] (set_lua (number_rows e t 1 pks L1) s))
                          (\<lambda>(_, s2). Done s2)))
        (\<lambda>s3. Done (gridDeleteRows pe e m True s3)))"

section \<open>Page requests of the browser\<close>

fun ifaceInt :: "go_value \<Rightarrow> int" where
  "ifaceInt (GFloat f) = go_int f"
| "ifaceInt (GInt n) = n"
| "ifaceInt (GInt64 n) = n"
| "ifaceInt g = 0"

fun ifaceStr :: "go_value \<Rightarrow> string" where
  "ifaceStr (GString s) = s"
| "ifaceStr g = []"

definition entries :: "go_value \<Rightarrow> (string \<times> go_value) list list" where
  "entries g = (case g of
      GList gs \<Rightarrow> List.map_filter (\<lambda>x. case x of GMap kvs \<Rightarrow> Some kvs | _ \<Rightarrow> None) gs | _ \<Rightarrow> [])"

definition sort_specs :: "(string \<times> go_value) list \<Rightarrow> (string \<times> string) list" where
  "sort_specs m = map (\<lambda>x. (ifaceStr (gridMsgVal x ''field''), ifaceStr (gridMsgVal x ''dir''))) (entries (gridMsgVal m ''sort''))"

definition filter_specs :: "(string \<times> go_value) list \<Rightarrow> filter_spec list" where
  "filter_specs m = map (\<lambda>x. \<lparr>fs_Field = ifaceStr (gridMsgVal x ''field''), fs_Op = ifaceStr (gridMsgVal x ''type''),
     fs_Value = ifaceStr (gridMsgVal x ''value'')\<rparr>) (entries (gridMsgVal m ''filter''))"

definition parseTablePageReq :: "go_value \<Rightarrow> page_req" where
  "parseTablePageReq raw =
     (case raw of
        GMap m \<Rightarrow> \<lparr>pr_Page = ifaceInt (gridMsgVal m ''page''), pr_Size = ifaceInt (gridMsgVal m ''size''),
                   pr_Sort = sort_specs m, pr_Filter = filter_specs m\<rparr>
      | _ \<Rightarrow> \<lparr>pr_Page = 0, pr_Size = 0, pr_Sort = [], pr_Filter = []\<rparr>)"

definition scroll_page :: "int \<Rightarrow> int \<Rightarrow> int" where
  "scroll_page start sz = (let p = wrap64 (start div sz + 1) in if p < 1 then 1 else p)"

definition parseLooperScrollReq :: "go_value \<Rightarrow> page_req \<times> int" where
  "parseLooperScrollReq raw =
     (case raw of
        GMap m \<Rightarrow>
          (let start = (if 0 < ifaceInt (gridMsgVal m ''start_idx'') then ifaceInt (gridMsgVal m ''start_idx'') else 1);
               sz = (if ifaceInt (gridMsgVal m ''count'') \<le> 0 then 50 else ifaceInt (gridMsgVal m ''count''))
           in (\<lparr>pr_Page = scroll_page start sz, pr_Size = sz, pr_Sort = sort_specs m, pr_Filter = filter_specs m\<rparr>, start))
      | _ \<Rightarrow> (\<lparr>pr_Page = 1, pr_Size = 50, pr_Sort = [], pr_Filter = []\<rparr>, 1))"

section \<open>Pages of tables\<close>

record remote_page =
  rp_Data :: "string option"
  rp_LastPage :: int
  rp_LastRow :: int

definition omitempty :: "string \<Rightarrow> int \<Rightarrow> string" where
  "omitempty key n = (if n = 0 then [] else '','' @ json_quote key @ '':'' @ itoa n)"

definition toJSON :: "page_env \<Rightarrow> remote_page \<Rightarrow> string" where
  "toJSON pe p =
     (case rp_Data p of
        None \<Rightarrow> ''{'' @ json_quote ''data'' @ '':[]}''
      | Some d \<Rightarrow>
          (case pe_compact pe d of
             None \<Rightarrow> []
           | Some c \<Rightarrow> ''{'' @ json_quote ''data'' @ '':'' @ c @ omitempty ''last_page'' (rp_LastPage p)
                        @ omitempty ''last_row'' (rp_LastRow p) @ ''}''))"

definition pagePayloadFromTable :: "engine \<Rightarrow> lua_state \<Rightarrow> nat \<Rightarrow> remote_page option" where
  "pagePayloadFromTable e L t =
     (let number = (\<lambda>k. let v = RawGetString L t k in if v = LNil then 0 else go_int (LVAsNumber (eng_parse e) v));
          page = (\<lambda>d. \<lparr>rp_Data = d, rp_LastPage = number ''last_page'', rp_LastRow = number ''last_row''\<rparr>)
      in case RawGetString L t ''data'' of
           LTable d \<Rightarrow> map_option (\<lambda>x. page (Some x)) (luaTableToJSON (eng_show e) (eng_depth e) L d)
         | _ \<Rightarrow> Some (page None))"

definition addressed :: "string \<Rightarrow> inbox_msg \<Rightarrow> string \<Rightarrow> outbox_msg" where
  "addressed kind m d = empty_msg\<lparr>Type := kind, Form := im_form m, Ctrl := im_ctrl m,
     Selector := ctrl_selector (im_form m) (im_ctrl m), Data := d\<rparr>"

definition sendRemoteData :: "page_env \<Rightarrow> remote_page \<Rightarrow> inbox_msg \<Rightarrow> session \<Rightarrow> session" where
  "sendRemoteData pe p m = SendOutbox (addressed ''tabulator_remote_data'' m (toJSON pe p))"

text \<open>No rows are a nil slice, whose JSON is \<^verbatim>\<open>null\<close>.\<close>

definition rows_json :: "page_env \<Rightarrow> page_row list \<Rightarrow> string" where
  "rows_json pe rows =
     (if rows = [] then ''null'' else case pe_json pe (GList (map GMap rows)) of Some t \<Rightarrow> t | None \<Rightarrow> ''[]'')"

definition dispatchDBTablePage :: "page_env \<Rightarrow> engine \<Rightarrow> table_link \<Rightarrow> inbox_msg \<Rightarrow> session \<Rightarrow> session" where
  "dispatchDBTablePage pe e link m s =
     (case FetchTablePage (pe_handles pe) link (parseTablePageReq (im_raw m)) of
        Inl err \<Rightarrow> SendOutbox (empty_msg\<lparr>Type := ''error'', Msg := ''table page error: '' @ err\<rparr>) (notifyError e err s)
      | Inr res \<Rightarrow>
          sendRemoteData pe \<lparr>rp_Data = Some (rows_json pe (pg_Rows res)), rp_LastPage = pg_LastPage res, rp_LastRow = 0\<rparr> m s)"

definition request_value :: "engine \<Rightarrow> inbox_msg \<Rightarrow> session \<Rightarrow> session \<times> lua_value" where
  "request_value e m s = (if im_raw m = GNil then (s, LNil) else to_lua e (im_raw m) s)"

definition ajax_reply :: "page_env \<Rightarrow> engine \<Rightarrow> inbox_msg \<Rightarrow> lua_value list \<Rightarrow> session \<Rightarrow> session outcome" where
  "ajax_reply pe e m rets s =
     (case rets of
        LTable t # _ \<Rightarrow>
          (case pagePayloadFromTable e (lua (world s)) t of
             None \<Rightarrow> Panicked
           | Some p \<Rightarrow> Done (sendRemoteData pe p m s))
      | _ \<Rightarrow> Done (sendRemoteData pe \<lparr>rp_Data = Some ''[]'', rp_LastPage = 0, rp_LastRow = 0\<rparr> m s))"

definition handleTabulatorAjaxRequest :: "page_env \<Rightarrow> engine \<Rightarrow> inbox_msg \<Rightarrow> session \<Rightarrow> session outcome" where
  "handleTabulatorAjaxRequest pe e m s =
     (let L = lua (world s) in
      case Option.bind (controlTable L (im_form m) (im_ctrl m)) (tableLinkFromControl (eng_parse e) (eng_show e) L) of
        Some link \<Rightarrow> Done (dispatchDBTablePage pe e link m s)
      | None \<Rightarrow>
          (let (s1, v) = request_value e m s in
           case form_handler (lua (world s1)) (im_form m) (im_ctrl m) ''tabulator_ajax_request'' of
             None \<Rightarrow> Done s1
           | Some fn \<Rightarrow>
               andThen (resume e (Fresh fn) [Some v] s1) (\<lambda>(r, s2).
                 case r of
                   ResumeError err \<Rightarrow> Done (handler_error e err s2)
                 | ResumeYield \<Rightarrow> ajax_reply pe e m (pe_yielded pe s2) s2
                 | ResumeOK rets \<Rightarrow> ajax_reply pe e m rets s2)))"

section \<open>Batches of loopers\<close>

definition bound_value :: "string list \<Rightarrow> page_row \<Rightarrow> string \<Rightarrow> int \<Rightarrow> go_value" where
  "bound_value columns row field column =
     (if field \<noteq> [] then row_field row field
      else if 1 \<le> column \<and> column \<le> int (length columns) then row_field row (columns ! nat (column - 1)) else GNil)"

definition link_key :: "column_link \<Rightarrow> string" where
  "link_key l = cl_Control l @ (if cl_Property l \<noteq> [] \<and> cl_Property l \<noteq> ''value'' then CHR ''.'' # cl_Property l else [])"

definition looperBatchRows :: "looper_link \<Rightarrow> page_result \<Rightarrow> int \<Rightarrow> (int \<times> (string \<times> go_value) list) list" where
  "looperBatchRows link res start =
     map (\<lambda>(i, row). (start + int i,
         fold (\<lambda>l. AList.update (link_key l) (bound_value (pg_Columns res) row (cl_Field l) (cl_Column l))) (ll_Links link) []))
       (enumerate 0 (pg_Rows res))"

text \<open>One cell of a row with a template: a control of its own, filled from the row and rendered.\<close>

definition set_prop :: "engine \<Rightarrow> nat \<Rightarrow> row_def \<Rightarrow> go_value \<Rightarrow> lua_state \<Rightarrow> lua_state" where
  "set_prop e t d v L =
     (let prop = (if rd_Property d = [] then ''value'' else rd_Property d); x = luaValueFromGo (eng_show_go e) v;
          L1 = RawSetString t prop x L
      in if rd_Type d = ''label'' \<and> prop \<noteq> ''label'' then RawSetString t ''label'' x L1 else L1)"

definition cell_control :: "engine \<Rightarrow> string \<Rightarrow> int \<Rightarrow> row_def \<Rightarrow> go_value \<Rightarrow> lua_state \<Rightarrow> lua_state \<times> nat" where
  "cell_control e looper i d v L =
     (let (L1, t) = NewTable L;
          L2 = fold (\<lambda>(k, x). RawSetString t k (LString x))
                 [(''type'', rd_Type d), (''form'', looper), (''name'', rd_Name d @ '':'' @ itoa i), (''looper_display'', ''true'')] L1;
          L3 = (case rd_Opts d of Some opts \<Rightarrow> copy_table t opts L2 | None \<Rightarrow> L2)
      in (set_prop e t d v L3, t))"

definition cell_html :: "engine \<Rightarrow> string \<Rightarrow> int \<Rightarrow> page_row \<Rightarrow> string list \<Rightarrow> row_def \<Rightarrow> string \<times> lua_state \<Rightarrow> string \<times> lua_state" where
  "cell_html e looper i row columns d hL =
     (let (L1, t) = cell_control e looper i d (bound_value columns row (rd_Field d) (rd_Column d)) (snd hL)
      in (fst hL @ ''<div class='' @ [CHR 0x22] @ ''kalua-looper-cell'' @ [CHR 0x22] @ attribute ''data-k-looper-control'' (rd_Name d)
            @ ''>'' @ eng_render e L1 t @ ''</div>'', L1))"

definition BuildLooperRowHTML ::
  "engine \<Rightarrow> string \<Rightarrow> int \<Rightarrow> lua_value \<Rightarrow> page_row \<Rightarrow> string list \<Rightarrow> lua_state \<Rightarrow> string \<times> lua_state" where
  "BuildLooperRowHTML e looper i rowVal row columns L =
     (let defs = ParseLooperRowDefs (eng_parse e) (eng_show e) L rowVal in
      if defs = [] then ([], L)
      else (let (h, L1) = fold (cell_html e looper i row columns) defs ([], L)
            in (''<div class='' @ [CHR 0x22] @ ''kalua-looper-row'' @ [CHR 0x22] @ '' data-k-looper-index='' @ [CHR 0x22] @ itoa i
                  @ [CHR 0x22] @ ''>'' @ h @ ''</div>'', L1)))"

fun looperBatchHTMLRows ::
  "engine \<Rightarrow> string \<Rightarrow> lua_value \<Rightarrow> string list \<Rightarrow> int \<Rightarrow> page_row list \<Rightarrow> lua_state \<Rightarrow> (int \<times> string) list \<times> lua_state" where
  "looperBatchHTMLRows e looper rowVal columns i [] L = ([], L)"
| "looperBatchHTMLRows e looper rowVal columns i (row # rows) L =
     (let (h, L1) = BuildLooperRowHTML e looper i rowVal row columns L;
          (hs, L2) = looperBatchHTMLRows e looper rowVal columns (i + 1) rows L1
      in ((i, h) # hs, L2))"

text \<open>The wire format; an empty list of rows is a nil slice.\<close>

definition data_row_json :: "page_env \<Rightarrow> int \<times> (string \<times> go_value) list \<Rightarrow> string option" where
  "data_row_json pe r =
     (if snd r = [] then Some (''{'' @ json_quote ''index'' @ '':'' @ itoa (fst r) @ ''}'')
      else map_option (\<lambda>d. ''{'' @ json_quote ''index'' @ '':'' @ itoa (fst r) @ '','' @ json_quote ''data'' @ '':'' @ d @ ''}'')
             (pe_json pe (GMap (snd r))))"

definition html_row_json :: "int \<times> string \<Rightarrow> string" where
  "html_row_json r = ''{'' @ json_quote ''index'' @ '':'' @ itoa (fst r)
     @ (if snd r = [] then [] else '','' @ json_quote ''html'' @ '':'' @ json_quote (snd r)) @ ''}''"

definition batch_json :: "string list option \<Rightarrow> bool \<Rightarrow> int \<Rightarrow> string" where
  "batch_json rows hasMore final =
     (case rows of
        None \<Rightarrow> ''{'' @ json_quote ''rows'' @ '':[],'' @ json_quote ''has_more'' @ '':false,'' @ json_quote ''last_page'' @ '':1}''
      | Some rs \<Rightarrow> ''{'' @ json_quote ''rows'' @ '':'' @ (if rs = [] then ''null'' else ''['' @ join_with '','' rs @ '']'') @ '',''
          @ json_quote ''has_more'' @ '':'' @ (if hasMore then ''true'' else ''false'') @ '','' @ json_quote ''last_page'' @ '':''
          @ itoa final @ ''}'')"

definition dispatchDBLooperPage :: "page_env \<Rightarrow> engine \<Rightarrow> nat \<Rightarrow> looper_link \<Rightarrow> inbox_msg \<Rightarrow> session \<Rightarrow> session" where
  "dispatchDBLooperPage pe e a link m s =
     (let (req, start) = parseLooperScrollReq (im_raw m) in
      case FetchLooperRows (pe_handles pe) link req of
        Inl err \<Rightarrow> SendOutbox (empty_msg\<lparr>Type := ''error'', Msg := ''looper page error: '' @ err\<rparr>) (notifyError e err s)
      | Inr res \<Rightarrow>
          (let L = lua (world s); rowVal = RawGetString L a ''row'';
               (rows, L1) = (if rowVal = LNil then (those (map (data_row_json pe) (looperBatchRows link res start)), L)
                             else (let (hs, L2) = looperBatchHTMLRows e (im_ctrl m) rowVal (pg_Columns res) start (pg_Rows res) L
                                   in (Some (map html_row_json hs), L2)))
           in SendOutbox (addressed ''looper_db_batch'' m (batch_json rows (pr_Page req < pg_LastPage res) (pg_LastPage res)))
                (set_lua L1 s)))"

definition handleLooperScrollRequest :: "page_env \<Rightarrow> engine \<Rightarrow> inbox_msg \<Rightarrow> session \<Rightarrow> session outcome" where
  "handleLooperScrollRequest pe e m s =
     (let L = lua (world s) in
      case Option.bind (controlTable L (im_form m) (im_ctrl m))
             (\<lambda>a. map_option (Pair a) (LooperDBLinkFromControl (eng_parse e) (eng_show e) L a)) of
        Some (a, link) \<Rightarrow> Done (dispatchDBLooperPage pe e a link m s)
      | None \<Rightarrow>
          (let (s1, v) = request_value e m s in
           case form_handler (lua (world s1)) (im_form m) (im_ctrl m) ''looper_scroll_request'' of
             None \<Rightarrow> Done s1
           | Some fn \<Rightarrow>
               andThen (resume e (Fresh fn) [Some v] s1) (\<lambda>(r, s2).
                 Done (case r of
                   ResumeError err \<Rightarrow> SendOutbox (empty_msg\<lparr>Type := ''error'', Msg := err\<rparr>) (notifyError e err s2)
                 | _ \<Rightarrow> s2))))"

definition refresh_request :: "inbox_msg \<Rightarrow> inbox_msg" where
  "refresh_request m = (inbox_msg_of InboxLooperScrollRequest)\<lparr>im_form := im_form m, im_ctrl := im_ctrl m,
     im_raw := GMap [(''start_idx'', GInt 1), (''count'', GInt 50)]\<rparr>"

definition handleLooperRefreshRequest :: "page_env \<Rightarrow> engine \<Rightarrow> inbox_msg \<Rightarrow> session \<Rightarrow> session outcome" where
  "handleLooperRefreshRequest pe e m = handleLooperScrollRequest pe e (refresh_request m)"

section \<open>Tree data\<close>

definition sendTreeError :: "page_env \<Rightarrow> engine \<Rightarrow> inbox_msg \<Rightarrow> string \<Rightarrow> session \<Rightarrow> session outcome" where
  "sendTreeError pe e m text s =
     andThen (runFormHandler e (im_form m) (im_ctrl m) ''on_error'' [Some (LString text)] s) (\<lambda>(_, s1).
       Done (SendOutbox (addressed ''tree_data'' m
         (''{'' @ json_quote ''nodes'' @ '':[],'' @ json_quote ''count'' @ '':0,'' @ json_quote ''error'' @ '':'' @ pe_quote pe text @ ''}'')) s1))"

definition tree_payload :: "nat \<Rightarrow> nat \<Rightarrow> lua_state \<Rightarrow> lua_state \<times> nat" where
  "tree_payload roots count L =
     (let (L1, t) = NewTable L
      in (RawSetString t ''count'' (LNumber (float_of_int (int count))) (RawSetString t ''nodes'' (LTable roots) L1), t))"

text \<open>Each level of the recursion uses a row, so one more than the rows is fuel enough; beyond it the
  recursion of the code does not end.\<close>

definition handleTreeDataRequest :: "page_env \<Rightarrow> engine \<Rightarrow> inbox_msg \<Rightarrow> session \<Rightarrow> session outcome" where
  "handleTreeDataRequest pe e m s =
     (let L = lua (world s) in
      case controlTable L (im_form m) (im_ctrl m) of
        None \<Rightarrow> sendTreeError pe e m (''tree control not found: '' @ im_ctrl m) s
      | Some a \<Rightarrow>
          (case TreeLinkFromControl (eng_parse e) (eng_show e) L a of
             None \<Rightarrow> sendTreeError pe e m ''tree control requires db, table and label_field'' s
           | Some link \<Rightarrow>
               (case FetchTreeRows (pe_handles pe) link of
                  Inl err \<Rightarrow> sendTreeError pe e m (tree_error_text err) s
                | Inr (_, rows) \<Rightarrow>
                    (case BuildTree (eng_show_go e) link rows (Suc (length rows)) L of
                       None \<Rightarrow> Panicked
                     | Some (L1, roots, count) \<Rightarrow>
                         (let (L2, t) = tree_payload roots count L1 in
                          case JSONStringifyLua (pe_num pe) (eng_show e) L2 (LTable t) LNil of
                            Inl err \<Rightarrow> sendTreeError pe e m (''tree serialization error: '' @ err) (set_lua L2 s)
                          | Inr text \<Rightarrow> Done (SendOutbox (addressed ''tree_data'' m text) (set_lua L2 s)))))))"

section \<open>The actor's step with its database\<close>

definition handle_message :: "page_env \<Rightarrow> engine \<Rightarrow> inbox_msg \<Rightarrow> session \<Rightarrow> page_effect outcome" where
  "handle_message pe e m s =
     (case im_typ m of
        InboxTabulatorAjaxRequest \<Rightarrow> no_write (handleTabulatorAjaxRequest pe e m s)
      | InboxLooperScrollRequest \<Rightarrow> no_write (handleLooperScrollRequest pe e m s)
      | InboxLooperRefreshRequest \<Rightarrow> no_write (handleLooperRefreshRequest pe e m s)
      | InboxTreeDataRequest \<Rightarrow> no_write (handleTreeDataRequest pe e m s)
      | InboxGridFormOpen \<Rightarrow> no_write (handleGridFormOpen pe e m s)
      | InboxGridFormSave \<Rightarrow> handleGridFormSave pe e m s
      | InboxGridFormCancel \<Rightarrow> no_write (handleGridFormCancel pe e m s)
      | InboxGridRowDelete \<Rightarrow> handleGridRowDelete pe e m s
      | InboxGridBatchDelete \<Rightarrow> handleGridBatchDelete pe e m s
      | _ \<Rightarrow> no_write (handleInbox e m s))"

end
