(* ===== verification/Grid_Properties.thy ===== *)
theory Grid_Properties
  imports Session_Grid Session_Messages
begin

text \<open>
  What the handlers with a database guarantee: which statements a message of the browser can cause,
  what a handler's refusal stops, which rows a looper's batch holds under which numbers, and which
  data end the process.
\<close>

section \<open>A grid with handlers\<close>

text \<open>A form with a grid on a table; its handlers for deleting and saving return the table at 5.\<close>

definition texts :: "(string \<times> lua_value) list \<Rightarrow> lua_table" where
  "texts kvs = \<lparr>arr = [], strs = kvs, others = []\<rparr>"

definition grid_page :: lua_state where
  "grid_page = \<lparr>globals = [(''f'', LTable 0), (''__kgrid_f_g'', LTable 6)],
     heap = [(0, texts [(''controls'', LTable 1), (''handlers'', LTable 3)]), (1, texts [(''g'', LTable 2)]),
       (2, texts [(''type'', LString ''grid''), (''db'', LString ''db''), (''query'', LString ''SELECT * FROM users'')]),
       (3, texts [(''g'', LTable 4)]), (4, texts [(''on_row_delete'', LFunction 1)]),
       (5, texts [(''ok'', LBool False), (''error'', LString ''no'')]), (6, texts [(''handlers'', LTable 7)]),
       (7, texts [(''@form'', LTable 8)]), (8, texts [(''on_save'', LFunction 2)])], next_addr = 9\<rparr>"

definition veto_engine :: engine where
  "veto_engine = idle_engine\<lparr>eng_pcall := (\<lambda>fn args s. (Some [LTable 5], []))\<rparr>"

definition grid_env :: page_env where
  "grid_env = \<lparr>pe_handles = [''db'' \<mapsto> (''sqlite'', \<lambda>stmt ps. Inl ''busy'')], pe_exec = (\<lambda>h st. None), pe_quote = (\<lambda>s. s),
     pe_json = (\<lambda>g. None), pe_compact = Some, pe_num = (\<lambda>f. Inl ''number''), pe_form_html = (\<lambda>L f. []), pe_yielded = (\<lambda>s. [])\<rparr>"

definition grid_session :: session where
  "grid_session = NewSession (quiet_script\<lparr>lua := grid_page\<rparr>)"

definition row_message :: "inbox_type \<Rightarrow> inbox_msg" where
  "row_message t = (inbox_msg_of t)\<lparr>im_form := ''f'', im_ctrl := ''g'',
     im_raw := GMap [(''pk'', GString ''7; DROP TABLE users''), (''values'', GMap [(''name'', GString ''x'')])]\<rparr>"

lemma row_message_simps [simp]:
  "im_typ (row_message t) = t" "im_form (row_message t) = ''f''" "im_ctrl (row_message t) = ''g''"
  "gridMsgVal (gridMsgMap (im_raw (row_message t))) ''pk'' = GString ''7; DROP TABLE users''"
  "gridMsgSub (gridMsgMap (im_raw (row_message t))) ''values'' = Some [(''name'', GString ''x'')]"
  "gridMsgVal (gridMsgMap (im_raw (row_message t))) ''mode'' = GNil"
  by (simp_all add: row_message_def gridMsgVal_def gridMsgSub_def inbox_msg_of_def)

lemma grid_page_meta: "grid_meta grid_env veto_engine (row_message t) grid_page = Inr (2, ''db'', ''users'', ''id'')"
proof -
  have c: "controlTable grid_page ''f'' ''g'' = Some 2" by code_simp
  have ty: "RawGetString grid_page 2 ''type'' = LString ''grid''" by code_simp
  have l: "tableLinkFromControl (\<lambda>s. None) (\<lambda>v. ''table'') grid_page 2 = Some \<lparr>tl_HandleID = ''db'', tl_Query = ''SELECT * FROM users'',
      tl_Columns = [], tl_PageSize = 25, tl_CountQuery = [], tl_Where = [], tl_OrderBy = []\<rparr>" by code_simp
  have q: "GridTableFromQuery ''SELECT * FROM users'' = Inr ''users''" by code_simp
  have k: "GridPKFromControl (\<lambda>v. ''table'') grid_page 2 = ''id''" by code_simp
  show ?thesis
    by (simp add: grid_meta_def gridMeta_def veto_engine_def idle_engine_def c ty) (simp add: grid_link_def l q k c)
qed

lemma set_same_lua [simp]: "lua (world s) = L \<Longrightarrow> set_lua L s = s"
  by (auto simp: set_lua_def)

lemma lua_set_lua [simp]: "lua (world (set_lua L s)) = L"
  by (simp add: set_lua_def)

lemma grid_session_lua [simp]: "lua (world grid_session) = grid_page"
  by (simp add: grid_session_def NewSession_def)

lemma veto_returns:
  "form_handler (lua (world s)) form key event = Some fn \<Longrightarrow>
   runFormHandlerSync veto_engine form key event args s = Done (Some [LTable 5], s)"
  by (simp add: runFormHandlerSync_def veto_engine_def idle_engine_def)

lemma veto_text: "to_lua veto_engine (GString t) s = (s, LString t)"
  by (simp add: to_lua_def)

lemma veto_refuses: "refusal (eng_show veto_engine) dflt grid_page (Some [LTable 5]) = Some ''no''"
proof -
  have "RawGetString grid_page 5 ''ok'' = LBool False" "RawGetString grid_page 5 ''error'' = LString ''no''" by code_simp+
  then show ?thesis by (simp add: refusal_def)
qed

lemma veto_delete: "form_handler grid_page ''f'' ''g'' ''on_row_delete'' = Some 1"
  by code_simp

lemma grid_delete_event:
  "fireGridEvent veto_engine (row_message t) ''on_row_delete'' [v] grid_session
     = Done (False, SendOutbox (empty_msg\<lparr>Type := ''error'', Msg := ''no''\<rparr>) grid_session)"
  by (simp add: fireGridEvent_def veto_returns veto_delete veto_refuses)

definition told_no :: session where
  "told_no = SendOutbox (empty_msg\<lparr>Type := ''error'', Msg := ''no''\<rparr>) grid_session"

lemma told_no_lua [simp]: "lua (world told_no) = grid_page"
  by (simp add: told_no_def SendOutbox_def outbox_offer_def grid_session_def NewSession_def)

lemma grid_row_deleted:
  "handleGridRowDelete grid_env veto_engine (row_message t) grid_session
     = Done ([(''db'', ''DELETE FROM users WHERE id = ?'', [GString ''7; DROP TABLE users''])], gridRefresh ''f'' ''g'' told_no)"
proof -
  have eq: "equals_clause ''sqlite'' ''id'' ''='' 1 = ''id = ?''" by code_simp
  have "driver_of grid_env ''db'' = Some ''sqlite''" "pe_exec grid_env h st = None" for h st
    by (simp_all add: grid_env_def driver_of_def)
  then have "gridDeleteRows grid_env veto_engine (row_message t) False told_no
      = ([(''db'', ''DELETE FROM users WHERE id = ?'', [GString ''7; DROP TABLE users''])], gridRefresh ''f'' ''g'' told_no)"
    using eq by (simp add: gridDeleteRows_def grid_page_meta delete_keys_def GridDeleteMany_def execute_def sqlValue_def)
  then show ?thesis
    using grid_delete_event [of t] by (simp add: handleGridRowDelete_def veto_text flip: told_no_def)
qed

section \<open>Statements\<close>

definition bound_stmts :: "(string \<times> write_stmt) list \<Rightarrow> bool" where
  "bound_stmts stmts \<longleftrightarrow> length stmts \<le> 1 \<and> (\<forall>(h, q, ps)\<in>set stmts. list_all sql_char q \<and> marks q = length ps)"

lemma bound_Nil [simp]: "bound_stmts []"
  by (simp add: bound_stmts_def)

lemma grid_meta_link:
  "grid_meta pe e m L = Inr (a, h, tbl, key) \<Longrightarrow> \<exists>q b. GridTableFromQuery q = Inr tbl \<and> key = GridPKFromControl (eng_show e) L b"
  by (auto simp: grid_meta_def gridMeta_def grid_link_def split: sum.splits option.splits if_splits)

lemma execute_bound: "(\<And>q ps. r = Inr (q, ps) \<Longrightarrow> plain_sql q (length ps)) \<Longrightarrow> bound_stmts (fst (execute pe what none h r))"
  by (auto simp: execute_def bound_stmts_def plain_sql_def split: sum.splits)

lemma meta_plain:
  assumes "grid_meta pe e m L = Inr (a, h, tbl, key)"
  shows "GridInsert d h' tbl key vals = Inr (q, ps) \<Longrightarrow> plain_sql q (length ps)"
    and "GridUpdate d h' tbl key pk vals = Inr (q, ps) \<Longrightarrow> plain_sql q (length ps)"
    and "GridDeleteMany d h' tbl key keys = Inr (q, ps) \<Longrightarrow> plain_sql q (length ps)"
proof -
  obtain qq b where m: "GridTableFromQuery qq = Inr tbl" "key = GridPKFromControl (eng_show e) L b"
    using grid_meta_link [OF assms] by blast
  note p = grid_statement_plain [OF m]
  show "GridInsert d h' tbl key vals = Inr (q, ps) \<Longrightarrow> plain_sql q (length ps)"
    using p [of q ps d h' vals] by simp
  show "GridUpdate d h' tbl key pk vals = Inr (q, ps) \<Longrightarrow> plain_sql q (length ps)"
    using p [of q ps d h' vals pk] by simp
  show "GridDeleteMany d h' tbl key keys = Inr (q, ps) \<Longrightarrow> plain_sql q (length ps)"
    using p [of q ps d h' _ _ keys] by simp
qed

lemma save_row_bound: "grid_meta pe e m L = Inr (a, link) \<Longrightarrow> bound_stmts (fst (save_row pe link mode pk vals))"
  by (cases link) (simp add: save_row_def Let_def, safe; rule execute_bound; erule (1) meta_plain)

lemma gridDeleteRows_bound: "bound_stmts (fst (gridDeleteRows pe e m b s))"
proof -
  have "bound_stmts (fst (execute pe ''delete'' [] h (GridDeleteMany (driver_of pe) h tbl key keys)))"
    if "grid_meta pe e m (lua (world s)) = Inr (a, h, tbl, key)" for a h tbl key keys
    using meta_plain(3) [OF that] by (rule execute_bound)
  then show ?thesis
    by (simp add: gridDeleteRows_def case_prod_beta split: sum.split option.split prod.split)
qed

lemma after_all: "(\<And>x. P x) \<Longrightarrow> after r P"
  by (cases r) simp_all

lemma save_bound: "after (handleGridFormSave pe e m s) (\<lambda>(stmts, _). bound_stmts stmts)"
  unfolding handleGridFormSave_def Let_def
  by (auto simp: case_prod_beta split: sum.split option.split prod.split intro!: after_all intro: save_row_bound)

lemma delete_bound:
  "after (handleGridRowDelete pe e m s) (\<lambda>(stmts, _). bound_stmts stmts)"
  "after (handleGridBatchDelete pe e m s) (\<lambda>(stmts, _). bound_stmts stmts)"
  using gridDeleteRows_bound
  by (simp_all add: handleGridRowDelete_def handleGridBatchDelete_def Let_def case_prod_beta after_all)

lemma no_write_bound: "after (no_write r) (\<lambda>(stmts, _). stmts = [])"
  by (simp add: no_write_def after_all)

lemma other_messages:
  "im_typ m \<notin> {InboxGridFormSave, InboxGridRowDelete, InboxGridBatchDelete} \<Longrightarrow> \<exists>r. handle_message pe e m s = no_write r"
  by (cases "im_typ m") (auto simp: handle_message_def)



section \<open>Refusals\<close>

text \<open>A handler may return \<^verbatim>\<open>{ok=false, error=...}\<close> to abort. When \<^verbatim>\<open>on_save\<close> does, no statement is
  executed; when \<^verbatim>\<open>on_row_delete\<close> does, the browser is told of the error and the row is deleted.\<close>

theorem refusal_stops_save_only:
  assumes meta: "grid_meta pe e m (lua (world s)) = Inr (a, link)" and vals: "gridMsgSub (gridMsgMap (im_raw m)) ''values'' = Some vals"
    and saved: "save_table e (sprint_v e (gridMsgVal (gridMsgMap (im_raw m)) ''mode'')) (gridMsgVal (gridMsgMap (im_raw m)) ''pk'') vals
        (lua (world s)) = (L1, t)"
    and on_save: "runFormHandlerSync e (GridFormModalName (eng_show e) (lua (world s)) a (im_form m) (im_ctrl m)) ''@form'' ''on_save''
        [LTable t] (set_lua L1 s) = Done (rets, s1)" "refusal (eng_show e) ''validation failed'' (lua (world s1)) rets = Some err"
    and pk: "to_lua e (gridMsgVal (gridMsgMap (im_raw m)) ''pk'') s = (s2, v)" "gridMsgVal (gridMsgMap (im_raw m)) ''pk'' \<noteq> GNil"
    and on_delete: "runFormHandlerSync e (im_form m) (im_ctrl m) ''on_row_delete'' [v] s2 = Done (drets, s3)"
        "refusal (eng_show e) ''grid event aborted'' (lua (world s3)) drets = Some derr"
    and meta': "grid_meta pe e m (lua (world s3)) = Inr (a', h, tbl, key)" "pe_handles pe h = Some (driver, run)"
    and works: "\<And>st. pe_exec pe h st = None"
  shows "handleGridFormSave pe e m s = Done ([], gridSendError e ''save'' err s1)
    \<and> handleGridRowDelete pe e m s = Done ([(h, ''DELETE FROM '' @ tbl @ '' WHERE '' @ equals_clause driver key ''='' 1,
          [sqlValue (gridMsgVal (gridMsgMap (im_raw m)) ''pk'')])],
        gridRefresh (im_form m) (im_ctrl m) (SendOutbox (empty_msg\<lparr>Type := ''error'', Msg := derr\<rparr>) s3))"
proof
  show "handleGridFormSave pe e m s = Done ([], gridSendError e ''save'' err s1)"
    using on_save by (simp add: handleGridFormSave_def meta vals saved)
  let ?pk = "gridMsgVal (gridMsgMap (im_raw m)) ''pk''" and ?s4 = "SendOutbox (empty_msg\<lparr>Type := ''error'', Msg := derr\<rparr>) s3"
  have "world ?s4 = world s3" by (simp add: SendOutbox_def outbox_offer_def)
  then have "grid_meta pe e m (lua (world ?s4)) = Inr (a', h, tbl, key)" using meta' by simp
  moreover have "sqlValue ?pk \<noteq> GNil" using pk(2) by (auto simp: sqlValue_def split: go_value.splits go_float.splits)
  ultimately have "gridDeleteRows pe e m False ?s4 = ([(h, ''DELETE FROM '' @ tbl @ '' WHERE '' @ equals_clause driver key ''='' 1,
      [sqlValue ?pk])], gridRefresh (im_form m) (im_ctrl m) ?s4)"
    using meta'(2) works by (simp add: gridDeleteRows_def delete_keys_def GridDeleteMany_def execute_def driver_of_def)
  then show "handleGridRowDelete pe e m s = Done ([(h, ''DELETE FROM '' @ tbl @ '' WHERE '' @ equals_clause driver key ''='' 1,
      [sqlValue ?pk])], gridRefresh (im_form m) (im_ctrl m) ?s4)"
    using on_delete pk by (simp add: handleGridRowDelete_def fireGridEvent_def)
qed

theorem refusal_stops_save_only_witness:
  "\<exists>s1 s2 st. handleGridFormSave grid_env veto_engine (row_message InboxGridFormSave) grid_session = Done ([], s1)
     \<and> handleGridRowDelete grid_env veto_engine (row_message InboxGridFormSave) grid_session = Done ([st], s2)"
proof -
  let ?m = "row_message InboxGridFormSave"
  have modal: "GridFormModalName (eng_show veto_engine) grid_page 2 ''f'' ''g'' = ''__kgrid_f_g''"
    unfolding veto_engine_def idle_engine_def by code_simp
  let ?L1 = "fst (save_table veto_engine ''<nil>'' (GString ''7; DROP TABLE users'') [(''name'', GString ''x'')] grid_page)"
  have L1: "form_handler ?L1 ''__kgrid_f_g'' ''@form'' ''on_save'' = Some 2" "RawGetString ?L1 5 ''ok'' = LBool False"
    "RawGetString ?L1 5 ''error'' = LString ''no''"
    unfolding veto_engine_def idle_engine_def by code_simp+
  have "refusal (eng_show veto_engine) ''validation failed'' ?L1 (Some [LTable 5]) = Some ''no''"
    using L1 by (simp add: refusal_def)
  moreover obtain t where "save_table veto_engine ''<nil>'' (GString ''7; DROP TABLE users'') [(''name'', GString ''x'')] grid_page = (?L1, t)"
    by (metis prod.collapse)
  moreover have "runFormHandlerSync veto_engine ''__kgrid_f_g'' ''@form'' ''on_save'' args (set_lua ?L1 grid_session)
      = Done (Some [LTable 5], set_lua ?L1 grid_session)" for args
    using L1(1) by (intro veto_returns) simp
  moreover have "sprint_v veto_engine GNil = ''<nil>''" by (simp add: sprint_v_def)
  moreover have "pe_handles grid_env ''db'' = Some (''sqlite'', \<lambda>stmt ps. Inl ''busy'')" "pe_exec grid_env h st = None" for h st
    by (simp_all add: grid_env_def)
  ultimately show ?thesis
    using refusal_stops_save_only [of grid_env veto_engine ?m grid_session 2 "(''db'', ''users'', ''id'')"]
    by (simp add: grid_page_meta modal veto_text veto_returns veto_delete veto_refuses)
qed

section \<open>Batches of a looper\<close>

lemma fetch_slice:
  assumes handle: "handles (tl_HandleID link) = Some (driver, run)" "tl_Columns link = []" "tl_CountQuery link = []"
    and wl: "factoryColumns run (tl_Query link) = Inr wl" and page: "1 \<le> pr_Page req" "page_size dflt link req = sz"
      "in_int64 ((pr_Page req - 1) * sz)" and ps: "fst (snd (page_conditions driver wl link req)) = ps"
    and count: "run (count_sql driver wl link req) ps = Inr (hdr, [[(c, GInt64 n)]])"
    and rows: "run (''SELECT *'' @ page_source (tl_Query link) @ page_filter_text driver wl link req
        @ LimitClause driver sz ((pr_Page req - 1) * sz)) ps = Inr (cols, rs)"
  shows "fetch_page dflt handles link req = Inr \<lparr>pg_Columns = cols, pg_Rows = rs, pg_LastPage = last_page n sz\<rparr>"
proof -
  have "run (page_sql driver wl dflt link req) ps = Inr (cols, rs)"
    using rows page by (simp add: page_sql_parts page_number_def page_offset_def)
  moreover obtain cs k where pc: "page_conditions driver wl link req = (cs, ps, k)"
    using ps by (cases "page_conditions driver wl link req") simp
  then have "count_rows run driver wl link req = Inr n"
    using count by (simp add: count_rows_def handle(3) runCountParams_def count_sql_def del: append_Cons)
  ultimately show ?thesis using handle wl page(2) ps by (simp add: fetch_page_def)
qed

text \<open>The request of the browser, and the page the server makes of it.\<close>

lemma parse_scroll:
  assumes "parseLooperScrollReq raw = (req, start)"
  shows "0 < start" "0 < pr_Size req" "start < max_int64 \<Longrightarrow> pr_Page req = start div pr_Size req + 1"
proof -
  show pos: "0 < start" "0 < pr_Size req"
    using assms by (auto simp: parseLooperScrollReq_def Let_def split: go_value.splits if_splits)
  assume start: "start < max_int64"
  have "start div pr_Size req \<le> start" "0 \<le> start div pr_Size req" using pos zdiv_mono2 [of start 1 "pr_Size req"] by (simp_all add: pos_imp_zdiv_nonneg_iff)
  then have "wrap64 (start div pr_Size req + 1) = start div pr_Size req + 1"
    using start by (intro wrap64_id) (simp add: in_int64_def min_int64_def max_int64_def)
  then show "pr_Page req = start div pr_Size req + 1"
    using assms pos \<open>0 \<le> start div pr_Size req\<close>
    by (auto simp: parseLooperScrollReq_def scroll_page_def Let_def split: go_value.splits if_splits)
qed

text \<open>C30: A batch asked for from row \<open>start\<close> is numbered from \<open>start\<close>. It holds these rows when \<open>start\<close> is one
  more than a multiple of the batch size; when it is a multiple of it, as for every batch of size
  one, the row \<open>start\<close> is left out and each row carries the number of the one before.\<close>

theorem looper_batch_rows:
  assumes raw: "parseLooperScrollReq raw = (req, start)" "start < max_int64" "pr_Size req = sz"
    and handle: "handles (tl_HandleID link) = Some (driver, run)" "tl_Columns link = []" "tl_CountQuery link = []"
      "factoryColumns run (tl_Query link) = Inr wl"
    and bound: "fst (snd (page_conditions driver wl link req)) = ps"
    and count: "run (count_sql driver wl link req) ps = Inr (hdr, [[(c, GInt64 n)]])"
    and slice: "\<And>off. 0 \<le> off \<Longrightarrow> off \<le> start \<Longrightarrow> run (''SELECT *'' @ page_source (tl_Query link) @ page_filter_text driver wl link req
        @ LimitClause driver sz off) ps = Inr (cols, take (nat sz) (drop (nat off) rows))"
  shows "\<exists>pg. FetchLooperRows handles link req = Inr pg
    \<and> map fst (looperBatchRows link pg start) = map (\<lambda>i. start + int i) [0..<length (pg_Rows pg)]
    \<and> (start mod sz = 1 \<longrightarrow> pg_Rows pg = take (nat sz) (drop (nat (start - 1)) rows))
    \<and> (start mod sz = 0 \<longrightarrow> pg_Rows pg = take (nat sz) (drop (nat start) rows))"
proof -
  note p = parse_scroll [OF raw(1)]
  have page: "pr_Page req - 1 = start div sz" and sz: "0 < sz" using p raw(2,3) by auto
  have off: "start div sz * sz = start - start mod sz" by (simp add: minus_mod_eq_div_mult)
  have le: "0 \<le> start div sz * sz" "start div sz * sz \<le> start"
    using p(1) sz zmod_le_nonneg_dividend [of start sz] by (simp_all add: off)
  have "FetchLooperRows handles link req
      = Inr \<lparr>pg_Columns = cols, pg_Rows = take (nat sz) (drop (nat (start - start mod sz)) rows), pg_LastPage = last_page n sz\<rparr>"
    unfolding FetchLooperRows_def
  proof (rule fetch_slice [where handles = handles and run = run and driver = driver and wl = wl and ps = ps and hdr = hdr and c = c,
      OF handle(1,2,3,4) _ _ _ bound count])
    have "0 \<le> start div sz" using p(1) sz by (simp add: pos_imp_zdiv_nonneg_iff)
    then show "1 \<le> pr_Page req" using page by linarith
    show "page_size 50 link req = sz" using raw(3) sz by (simp add: page_size_def)
    show "in_int64 ((pr_Page req - 1) * sz)" using le raw(2) by (simp add: page in_int64_def min_int64_def max_int64_def)
    show "run (''SELECT *'' @ page_source (tl_Query link) @ page_filter_text driver wl link req
        @ LimitClause driver sz ((pr_Page req - 1) * sz)) ps = Inr (cols, take (nat sz) (drop (nat (start - start mod sz)) rows))"
      using slice [OF le] by (simp only: page off)
  qed
  moreover have "map fst (looperBatchRows link pg start) = map (\<lambda>i. start + int i) [0..<length (pg_Rows pg)]" for pg
    by (simp add: looperBatchRows_def case_prod_beta comp_def enumerate_eq_zip flip: map_map [of "\<lambda>i. start + int i" fst, unfolded comp_def])
  ultimately show ?thesis by auto
qed

definition demo_looper :: looper_link where
  "demo_looper = \<lparr>tl_HandleID = ''db'', tl_Query = ''SELECT * FROM t'', tl_Columns = [], tl_PageSize = 50, tl_CountQuery = [],
     tl_Where = [], tl_OrderBy = [], ll_Links = [\<lparr>cl_Column = 1, cl_Field = [], cl_Control = ''name'', cl_Property = ''value''\<rparr>]\<rparr>"

definition scroll_request :: "int \<Rightarrow> int \<Rightarrow> go_value" where
  "scroll_request start sz = GMap [(''start_idx'', GInt start), (''count'', GInt sz)]"

theorem looper_batch_rows_witness:
  "\<exists>pg. FetchLooperRows [''db'' \<mapsto> (''sqlite'', demo_run)] demo_looper (fst (parseLooperScrollReq (scroll_request 1 2))) = Inr pg
     \<and> pg_Rows pg = take 2 demo_rows \<and> map fst (looperBatchRows demo_looper pg 1) = [1, 2]"
proof -
  let ?h = "[''db'' \<mapsto> (''sqlite'', demo_run)]" and ?req = "\<lparr>pr_Page = 1, pr_Size = 2, pr_Sort = [], pr_Filter = []\<rparr>"
  have raw: "parseLooperScrollReq (scroll_request 1 2) = (?req, 1)"
    by (simp add: parseLooperScrollReq_def scroll_request_def gridMsgVal_def scroll_page_def sort_specs_def filter_specs_def entries_def
        wrap64_id in_int64_def min_int64_def max_int64_def map_filter_def)
  have l: "tl_HandleID demo_looper = ''db''" "tl_Columns demo_looper = []" "tl_CountQuery demo_looper = []" by (simp_all add: demo_looper_def)
  have wl: "factoryColumns demo_run (tl_Query demo_looper) = Inr [''id'']"
    by (simp add: factoryColumns_def demo_run_def page_source_def)
  obtain ps where ps: "fst (snd (page_conditions ''sqlite'' [''id''] demo_looper ?req)) = ps" by simp
  have count: "demo_run (count_sql ''sqlite'' [''id''] demo_looper ?req) ps = Inr ([''n''], [[(''n'', GInt64 3)]])"
    by (simp add: demo_run_def count_sql_def)
  obtain pg where "FetchLooperRows ?h demo_looper ?req = Inr pg" "pg_Rows pg = take 2 (drop (nat (1 - 1)) demo_rows)"
    "map fst (looperBatchRows demo_looper pg 1) = map (\<lambda>i. 1 + int i) [0..<length (pg_Rows pg)]"
    using looper_batch_rows [OF raw _ _ _ l(2,3) wl ps count, where rows = demo_rows and cols = "[''id'']" and sz = 2 and handles = ?h]
      demo_slice [of _ "tl_Query demo_looper" "page_filter_text ''sqlite'' [''id''] demo_looper ?req" ps]
    by (auto simp: l max_int64_def)
  then show ?thesis using raw by (intro exI [of _ pg]) (simp add: demo_rows_def numeral_2_eq_2)
qed

section \<open>What reaches the browser as markup\<close>

text \<open>The tags of the grid form's footer do not depend on the texts the browser and the database gave.\<close>

theorem footer_tags_fixed:
  "tags (gridModalFooter pe form ctrl mode pk []) = tags (gridModalFooter pe' form' ctrl' mode' pk' [])"
  by (simp add: tags_def gridModalFooter_def Let_def seen seen_attribute plain_name_def del: scan.simps scan_quote)

section \<open>Trees\<close>

text \<open>A table of rows in which one row shares its identifier with a row that is its own parent stops the
  process as soon as a browser asks for the tree.\<close>

theorem tree_request_crashes:
  assumes "controlTable (lua (world s)) (im_form m) (im_ctrl m) = Some a"
    and "TreeLinkFromControl (eng_parse e) (eng_show e) (lua (world s)) a = Some link"
    and "FetchTreeRows (pe_handles pe) link = Inr (cols, rows)"
    and "r \<in> set (tree_roots (eng_show_go e) link rows)" "x < length rows" "d \<noteq> []"
    and "id_of (eng_show_go e) link (rows ! r) = d" "id_of (eng_show_go e) link (rows ! x) = d"
      "parent_of (eng_show_go e) link (rows ! x) = d"
  shows "handleTreeDataRequest pe e m s = Panicked"
  using assms tree_self_parent_never_returns [OF assms(4-9)] by (simp add: handleTreeDataRequest_def)

end
