(* ===== verification/Script_Flow.thy ===== *)
theory Script_Flow
  imports Form_Build Expr_Text Html_Text Json_Lua Session_Properties
begin

text \<open>
  The bindings of \<^verbatim>\<open>internal/bindings/flow.go\<close> that talk to the session: message boxes and menus
  with the markup \<^verbatim>\<open>internal/session/session.go\<close> makes of them, clipboard, file choice, timers,
  status line, and the actions \<^verbatim>\<open>k.assign\<close>, \<^verbatim>\<open>k.set\<close> and \<^verbatim>\<open>k.exec\<close>. A session is present; the
  arguments are those the interpreter's checks let through. \<open>now\<close> is the clock, \<open>co\<close> the coroutine
  that calls, \<open>num\<close> the JSON form of a number, \<open>dec\<close> decodes a JSON text into a string if it is one.
\<close>

section \<open>Buttons and message boxes\<close>

record msg_button =
  mb_Label :: string
  mb_Value :: string

record msgbox_options =
  mo_ID :: string
  mo_Title :: string
  mo_Message :: string
  mo_Kind :: string
  mo_Buttons :: "msg_button list"

definition jsonValue ::
  "(go_float \<Rightarrow> string + string) \<Rightarrow> (lua_value \<Rightarrow> string) \<Rightarrow> nat option \<Rightarrow> lua_state \<Rightarrow> lua_value \<Rightarrow> string" where
  "jsonValue num sh null L v =
     (case writeJSON num sh null (Suc maxJSONDepth) [] L v of
        Inr t \<Rightarrow> t
      | Inl err \<Rightarrow> CHR 0x22 # concat (map (\<lambda>c. if c = CHR 0x22 then [CHR 0x5C, c] else [c]) (LVAsString sh v)) @ [CHR 0x22])"

definition ok_button :: msg_button where
  "ok_button = \<lparr>mb_Label = ''OK'', mb_Value = CHR 0x22 # ''ok'' @ [CHR 0x22]\<rparr>"

definition msgboxPresetButtons :: "string \<Rightarrow> msg_button list" where
  "msgboxPresetButtons kind =
     (if kind = ''ok-cancel'' then [ok_button, \<lparr>mb_Label = ''CANCEL'', mb_Value = CHR 0x22 # ''cancel'' @ [CHR 0x22]\<rparr>]
      else if kind = ''yes-no'' then
        [\<lparr>mb_Label = ''YES'', mb_Value = CHR 0x22 # ''yes'' @ [CHR 0x22]\<rparr>, \<lparr>mb_Label = ''NO'', mb_Value = CHR 0x22 # ''no'' @ [CHR 0x22]\<rparr>]
      else [ok_button])"

text \<open>The label and the value of an entry: named, positional, or the entry itself.\<close>

definition entry_label :: "(lua_value \<Rightarrow> string) \<Rightarrow> lua_state \<Rightarrow> lua_value \<Rightarrow> string" where
  "entry_label sh L v =
     (case v of
        LTable t \<Rightarrow> (let s = LVAsString sh (RawGetString L t ''label'') in if s = [] then LVAsString sh (RawGetInt L t 1) else s)
      | _ \<Rightarrow> LVAsString sh v)"

definition entry_value :: "lua_state \<Rightarrow> lua_value \<Rightarrow> lua_value" where
  "entry_value L v =
     (case v of
        LTable t \<Rightarrow> (let x = RawGetString L t ''value'' in if x = LNil then RawGetInt L t 2 else x)
      | _ \<Rightarrow> v)"

definition value_or_label :: "lua_value \<Rightarrow> string \<Rightarrow> lua_value" where
  "value_or_label v label = (if v = LNil then LString label else v)"

definition button_of ::
  "(go_float \<Rightarrow> string + string) \<Rightarrow> (lua_value \<Rightarrow> string) \<Rightarrow> nat option \<Rightarrow> lua_state \<Rightarrow> lua_value \<Rightarrow> msg_button" where
  "button_of num sh null L v =
     (let label = entry_label sh L v
      in \<lparr>mb_Label = label, mb_Value = jsonValue num sh null L (value_or_label (entry_value L v) label)\<rparr>)"

definition text_key :: "(lua_value \<Rightarrow> string) \<Rightarrow> lua_state \<Rightarrow> nat \<Rightarrow> string \<Rightarrow> string" where
  "text_key sh L t k = LVAsString sh (RawGetString L t k)"

definition msgboxFromTable ::
  "(go_float \<Rightarrow> string + string) \<Rightarrow> (lua_value \<Rightarrow> string) \<Rightarrow> nat option \<Rightarrow> lua_state \<Rightarrow> nat \<Rightarrow> msgbox_options" where
  "msgboxFromTable num sh null L t =
     (let kind = text_key sh L t ''type'';
          given = (case RawGetString L t ''buttons'' of
                     LTable b \<Rightarrow> map (\<lambda>kv. button_of num sh null L (snd kv)) (for_each L b) | _ \<Rightarrow> [])
      in \<lparr>mo_ID = [], mo_Title = text_key sh L t ''title'', mo_Message = text_key sh L t ''message'',
          mo_Kind = (if kind = [] then ''info'' else kind),
          mo_Buttons = (if given = [] then msgboxPresetButtons ''info'' else given)\<rparr>)"

section \<open>Markup of a message box\<close>

definition open_tag :: "string \<Rightarrow> (string \<times> string) list \<Rightarrow> string \<Rightarrow> string" where
  "open_tag tag raw rest = CHR ''<'' # tag @ concat (map (\<lambda>(k, v). raw_attribute k v) raw) @ rest @ ''>''"

definition close_tag :: "string \<Rightarrow> string" where
  "close_tag tag = ''</'' @ tag @ ''>''"

definition icon_path :: "string \<Rightarrow> string" where
  "icon_path d = open_tag ''path'' [(''d'', d)] ''/''"

definition icon_circle :: string where
  "icon_circle = open_tag ''circle'' [(''cx'', ''12''), (''cy'', ''12''), (''r'', ''10'')] ''/''"

definition icon_body :: "string \<Rightarrow> string" where
  "icon_body kind =
     (if kind = ''warning'' then icon_path ''M1 21h22L12 2 1 21z'' @ icon_path ''M12 9v4'' @ icon_path ''M12 17h.01''
      else if kind = ''danger'' then icon_circle @ icon_path ''M15 9l-6 6'' @ icon_path ''M9 9l6 6''
      else icon_circle @ icon_path ''M12 16v-4'' @ icon_path ''M12 8h.01'')"

definition msgboxIcon :: "string \<Rightarrow> string" where
  "msgboxIcon kind =
     open_tag ''span'' [(''class'', ''msgbox-icon'')] []
     @ open_tag ''svg'' [(''xmlns'', ''http://www.w3.org/2000/svg''), (''viewBox'', ''0 0 24 24''), (''fill'', ''none''),
         (''stroke'', ''currentColor''), (''stroke-width'', ''2''), (''stroke-linecap'', ''round''), (''stroke-linejoin'', ''round'')] []
     @ icon_body (msgboxKind kind) @ close_tag ''svg'' @ close_tag ''span''"

definition fallback_choice :: "(string \<Rightarrow> string option) \<Rightarrow> string \<Rightarrow> string \<Rightarrow> string" where
  "fallback_choice dec value label = (case dec value of Some s \<Rightarrow> s | None \<Rightarrow> label)"

definition button_html :: "(string \<Rightarrow> string option) \<Rightarrow> string \<Rightarrow> msg_button \<Rightarrow> string" where
  "button_html dec rid b =
     open_tag ''button'' [(''type'', ''button''), (''class'', ''kalua-button'')]
       (attribute ''data-k-msgbox-id'' rid @ attribute ''data-k-value'' (mb_Value b)
         @ attribute ''data-k-choice'' (fallback_choice dec (mb_Value b) (mb_Label b)))
     @ html_escape (mb_Label b) @ close_tag ''button''"

definition msgbox_header :: "msgbox_options \<Rightarrow> string" where
  "msgbox_header opts =
     (if mo_Title opts = [] then []
      else open_tag ''div'' [(''class'', ''msgbox-header'')] [] @ msgboxIcon (mo_Kind opts)
        @ open_tag ''span'' [(''class'', ''msgbox-title'')] [] @ html_escape (mo_Title opts) @ close_tag ''span'' @ close_tag ''div'')"

definition shown_buttons :: "msgbox_options \<Rightarrow> msg_button list" where
  "shown_buttons opts = (if mo_Buttons opts = [] then [ok_button] else mo_Buttons opts)"

definition renderMsgboxHTML :: "(string \<Rightarrow> string option) \<Rightarrow> string \<Rightarrow> msgbox_options \<Rightarrow> string" where
  "renderMsgboxHTML dec rid opts =
     msgbox_header opts
     @ open_tag ''div'' [(''class'', ''msgbox-content'')] [] @ open_tag ''p'' [(''class'', ''msgbox-text'')] []
     @ html_escape (mo_Message opts) @ close_tag ''p'' @ close_tag ''div''
     @ open_tag ''div'' [(''class'', ''msgbox-actions'')] [] @ concat (map (button_html dec rid) (shown_buttons opts)) @ close_tag ''div''"

section \<open>Menus\<close>

datatype popup_item = PopupItem (pi_Label: string) (pi_Value: string) (pi_Items: "popup_item list")

text \<open>
  \<open>depth\<close> is the nesting still allowed. A menu nested too deep is an error the caller drops: what
  stood before it is kept, the rest of the list that holds it is depth out, at every level.
\<close>

definition sub_menu :: "lua_state \<Rightarrow> lua_value \<Rightarrow> nat option" where
  "sub_menu L v = (case v of LTable t \<Rightarrow> (case RawGetString L t ''items'' of LTable s \<Rightarrow> Some s | _ \<Rightarrow> None) | _ \<Rightarrow> None)"

definition item_label :: "(lua_value \<Rightarrow> string) \<Rightarrow> lua_state \<Rightarrow> lua_value \<Rightarrow> string" where
  "item_label sh L v = (let s = entry_label sh L v in if s = [] then ''?'' else s)"

definition add_item ::
  "(lua_value \<Rightarrow> string) \<Rightarrow> (lua_value \<Rightarrow> string) \<Rightarrow> lua_state \<Rightarrow> (nat \<Rightarrow> popup_item list \<times> bool) \<Rightarrow> lua_value \<Rightarrow>
   popup_item list \<times> bool \<Rightarrow> popup_item list \<times> bool" where
  "add_item js sh L parse v acc =
     (let (items, failed) = acc; label = item_label sh L v in
      if failed then acc
      else case sub_menu L v of
             Some s \<Rightarrow> (let (children, bad) = parse s in if bad then (items, True) else (items @ [PopupItem label [] children], False))
           | None \<Rightarrow> (items @ [PopupItem label (js (value_or_label (entry_value L v) label)) []], False))"

fun popupParseItems ::
  "(lua_value \<Rightarrow> string) \<Rightarrow> (lua_value \<Rightarrow> string) \<Rightarrow> lua_state \<Rightarrow> nat \<Rightarrow> nat \<Rightarrow> popup_item list \<times> bool" where
  "popupParseItems js sh L 0 t = ([], True)"
| "popupParseItems js sh L (Suc depth) t =
     fold (\<lambda>kv. add_item js sh L (popupParseItems js sh L depth) (snd kv)) (for_each L t) ([], False)"

definition menu_depth :: nat where "menu_depth = 9"

definition popupFromTable ::
  "(lua_value \<Rightarrow> string) \<Rightarrow> (lua_value \<Rightarrow> string) \<Rightarrow> lua_state \<Rightarrow> lua_value \<Rightarrow> string + string \<times> popup_item list" where
  "popupFromTable js sh L v =
     (case v of
        LTable t \<Rightarrow>
          (case RawGetString L t ''items'' of
             LNil \<Rightarrow> Inr ([], fst (popupParseItems js sh L menu_depth t))
           | LTable is \<Rightarrow> Inr (text_key sh L t ''title'', fst (popupParseItems js sh L menu_depth is))
           | _ \<Rightarrow> Inl ''items must be a list of menu items'')
      | _ \<Rightarrow> Inl ''expected a menu table'')"

definition item_title :: "popup_item \<Rightarrow> string" where
  "item_title i = open_tag ''span'' [(''class'', ''popup-item-label'')] [] @ html_escape (pi_Label i) @ close_tag ''span''"

fun renderPopupItem :: "(string \<Rightarrow> string option) \<Rightarrow> string \<Rightarrow> popup_item \<Rightarrow> string" where
  "renderPopupItem dec rid (PopupItem label value items) =
     (if items \<noteq> [] then
        open_tag ''li'' [(''class'', ''popup-item popup-branch'')] (attribute ''data-k-popup-id'' rid @ raw_attribute ''data-k-submenu'' ''true'')
        @ item_title (PopupItem label value items)
        @ open_tag ''span'' [(''class'', ''popup-caret''), (''aria-hidden'', ''true'')] [] @ ''&#9656;'' @ close_tag ''span''
        @ open_tag ''ul'' [(''class'', ''kalua-popup-submenu'')] [] @ concat (map (renderPopupItem dec rid) items)
        @ close_tag ''ul'' @ close_tag ''li''
      else
        open_tag ''li'' [(''class'', ''popup-item''), (''tabindex'', ''0'')]
          (attribute ''data-k-popup-id'' rid @ attribute ''data-k-value'' value
            @ attribute ''data-k-choice'' (fallback_choice dec value label))
        @ item_title (PopupItem label value items) @ close_tag ''li'')"

definition renderPopupHTML :: "(string \<Rightarrow> string option) \<Rightarrow> string \<Rightarrow> string \<Rightarrow> popup_item list \<Rightarrow> string" where
  "renderPopupHTML dec rid title items =
     (if title = [] then []
      else open_tag ''div'' [(''class'', ''popup-header'')] [] @ open_tag ''span'' [(''class'', ''popup-title'')] []
        @ html_escape title @ close_tag ''span'' @ close_tag ''div'')
     @ open_tag ''ul'' [(''class'', ''kalua-popup-menu'')] [] @ concat (map (renderPopupItem dec rid) items) @ close_tag ''ul''"

section \<open>The bindings\<close>

definition k_msgbox ::
  "engine \<Rightarrow> (go_float \<Rightarrow> string + string) \<Rightarrow> (string \<Rightarrow> string option) \<Rightarrow> nat option \<Rightarrow> int \<Rightarrow> nat \<Rightarrow> lua_value \<Rightarrow> string \<Rightarrow>
   session \<Rightarrow> kret \<times> session" where
  "k_msgbox e num dec null now co v kind s =
     (let opts = (case v of
            LTable t \<Rightarrow> msgboxFromTable num (eng_show e) null (lua (world s)) t
          | _ \<Rightarrow> \<lparr>mo_ID = [], mo_Title = [], mo_Message = LVAsString (eng_show e) v, mo_Kind = kind,
                  mo_Buttons = msgboxPresetButtons kind\<rparr>)
      in (Suspend, ShowMsgbox now co True (mo_ID opts) (mo_Kind opts) (\<lambda>rid. renderMsgboxHTML dec rid opts) s))"

definition k_popup ::
  "engine \<Rightarrow> (go_float \<Rightarrow> string + string) \<Rightarrow> (string \<Rightarrow> string option) \<Rightarrow> nat option \<Rightarrow> int \<Rightarrow> nat \<Rightarrow> lua_value \<Rightarrow>
   session \<Rightarrow> kret \<times> session" where
  "k_popup e num dec null now co v s =
     (let L = lua (world s) in
      case popupFromTable (jsonValue num (eng_show e) null L) (eng_show e) L v of
        Inl err \<Rightarrow> (Raise (''popup: '' @ err), s)
      | Inr (title, items) \<Rightarrow> (Suspend, ShowPopup now co True [] (\<lambda>rid. renderPopupHTML dec rid title items) s))"

definition k_clipboard_set :: "engine \<Rightarrow> lua_value \<Rightarrow> session \<Rightarrow> kret \<times> session" where
  "k_clipboard_set e v s = (Ret [], SendOutbox (empty_msg\<lparr>Type := ''clipboard_set'', Text := LVAsString (eng_show e) v\<rparr>) s)"

definition k_clipboard_get :: "int \<Rightarrow> nat \<Rightarrow> session \<Rightarrow> kret \<times> session" where
  "k_clipboard_get now co s = (Suspend, RequestClipboardGet now co True s)"

definition file_option :: "engine \<Rightarrow> lua_state \<Rightarrow> nat option \<Rightarrow> string \<Rightarrow> string \<Rightarrow> string" where
  "file_option e L opts k dflt =
     (case opts of
        None \<Rightarrow> dflt
      | Some t \<Rightarrow> (let v = RawGetString L t k in if v = LNil then dflt else lv_string (eng_show e) v))"

definition save_request :: "string \<Rightarrow> string \<Rightarrow> string \<Rightarrow> string" where
  "save_request mode filename contents =
     ''{'' @ json_quote ''data'' @ '':'' @ json_quote contents @ '','' @ json_quote ''filename'' @ '':'' @ json_quote filename
     @ '','' @ json_quote ''mode'' @ '':'' @ json_quote mode @ ''}''"

definition k_pick_file :: "engine \<Rightarrow> int \<Rightarrow> nat \<Rightarrow> nat option \<Rightarrow> session \<Rightarrow> kret \<times> session" where
  "k_pick_file e now co opts s =
     (let opt = file_option e (lua (world s)) opts; mode = opt ''mode'' ''open'' in
      (Suspend,
       if mode = ''save'' \<or> mode = ''download''
       then RequestFilePickerSave now co True mode (save_request mode (opt ''filename'' []) (opt ''data'' [])) s
       else RequestFilePicker now co True (opt ''accept'' []) (opt ''multiple'' [] = ''true'') s))"

definition k_bell :: "session \<Rightarrow> kret \<times> session" where
  "k_bell s = (Ret [], SendOutbox (empty_msg\<lparr>Type := ''bell''\<rparr>) s)"

definition k_screen_size :: "session \<Rightarrow> kret \<times> session" where
  "k_screen_size s =
     (let (w, h, _) = ClientInfo s; (L1, t) = NewTable (lua (world s));
          size = (\<lambda>n d. LNumber (float_of_int (if n \<le> 0 then d else n)))
      in (Ret [LTable t], set_lua (RawSetString t ''height'' (size h 768) (RawSetString t ''width'' (size w 1024) L1)) s))"

definition k_sleep :: "int \<Rightarrow> nat \<Rightarrow> int \<Rightarrow> session \<Rightarrow> kret \<times> session" where
  "k_sleep now co ms s = (if ms \<le> 0 then (Ret [], s) else (Suspend, ScheduleSleep now co s))"

definition k_yield :: "session \<Rightarrow> kret \<times> session" where
  "k_yield s = (Suspend, s)"

definition k_error :: "engine \<Rightarrow> lua_value \<Rightarrow> session \<Rightarrow> kret \<times> session" where
  "k_error e v s = (Raise (LVAsString (eng_show e) v), s)"

definition k_timer_start :: "string \<Rightarrow> int \<Rightarrow> bool \<Rightarrow> session \<Rightarrow> kret \<times> session" where
  "k_timer_start tid ms repeats s = (Ret [], StartTimer tid ms repeats s)"

definition k_timer_stop :: "string \<Rightarrow> session \<Rightarrow> kret \<times> session" where
  "k_timer_stop tid s = (Ret [], StopTimer tid s)"

definition k_status_show :: "engine \<Rightarrow> lua_value \<Rightarrow> session \<Rightarrow> kret \<times> session" where
  "k_status_show e v s = (Ret [], SendOutbox (empty_msg\<lparr>Type := ''status'', Text := LVAsString (eng_show e) v\<rparr>) s)"

definition k_status_close :: "session \<Rightarrow> kret \<times> session" where
  "k_status_close s = (Ret [], SendOutbox (empty_msg\<lparr>Type := ''status_close''\<rparr>) s)"

definition k_on_error :: "lua_value \<Rightarrow> session \<Rightarrow> kret \<times> session" where
  "k_on_error v s =
     (case v of
        LNil \<Rightarrow> (Ret [], s\<lparr>world := (world s)\<lparr>onErr := v\<rparr>\<rparr>)
      | LFunction fn \<Rightarrow> (Ret [], s\<lparr>world := (world s)\<lparr>onErr := v\<rparr>\<rparr>)
      | _ \<Rightarrow> (Raise ''on_error: expected a function or nil'', s))"

section \<open>Assignment and actions\<close>

text \<open>
  \<^verbatim>\<open>k.assign\<close> hands the Lua value itself to the package \<^verbatim>\<open>coerce\<close>, whose type switches know Go's
  own types only: inside an \<^verbatim>\<open>any\<close> a \<^verbatim>\<open>lua.LNumber\<close> is not a \<^verbatim>\<open>float64\<close>. It is a value printed by
  its \<^verbatim>\<open>String\<close> method.
\<close>

definition unknown_to_coerce :: "engine \<Rightarrow> lua_value \<Rightarrow> go_value" where
  "unknown_to_coerce e v = GOther (lv_string (eng_show e) v)"

fun print_other :: "go_value \<Rightarrow> string" where
  "print_other (GOther s) = s"
| "print_other g = []"

definition coerce_kind :: "engine \<Rightarrow> string \<Rightarrow> lua_value \<Rightarrow> lua_value" where
  "coerce_kind e kind v =
     (let k = eng_lower e kind; x = unknown_to_coerce e v in
      if k \<in> {''numeric'', ''number''} then LNumber (case ToNum (eng_parse e) x of Some n \<Rightarrow> n | None \<Rightarrow> float_zero)
      else if k \<in> {''string'', ''date''} then LString (Stringify print_other x)
      else if k \<in> {''boolean'', ''bool''} then LBool (Truthy (eng_parse e) x)
      else v)"

definition k_assign :: "engine \<Rightarrow> lua_value \<Rightarrow> string \<Rightarrow> lua_value \<Rightarrow> session \<Rightarrow> kret \<times> session" where
  "k_assign e target kind v s =
     (let c = coerce_kind e kind v; L = lua (world s); sh = eng_show e in
      case target of
        LString g \<Rightarrow> (Ret [c], edit_lua (SetGlobal g c) s)
      | LTable t \<Rightarrow>
          (let form = RawGetString L t ''form''; ctrl = RawGetString L t ''ctrl'' in
           if form = LNil \<or> ctrl = LNil then (Raise ''assign: control target requires form and ctrl fields'', s)
           else case getControl L (lv_string sh form) (lv_string sh ctrl) of
                  None \<Rightarrow> (Raise (''assign: control not found: '' @ lv_string sh form @ ''.'' @ lv_string sh ctrl), s)
                | Some a \<Rightarrow>
                    (let s1 = edit_lua (RawSetString a ''value'' c) s;
                         s2 = (if control_type e a s1 = ''image'' then edit_lua (RawSetString a ''src'' c) s1 else s1)
                     in (Ret [c], send_control e (lv_string sh form) (lv_string sh ctrl) a s2)))
      | _ \<Rightarrow> (Raise ''assign: target must be string (global) or table {form, ctrl}'', s))"

definition actions_global :: string where "actions_global = ''_kalua_actions''"

definition k_set :: "string \<Rightarrow> nat \<Rightarrow> session \<Rightarrow> kret \<times> session" where
  "k_set name fn s =
     (let L = lua (world s);
          (L1, actions) = (case GetGlobal L actions_global of
              LNil \<Rightarrow> (let (L0, t) = NewTable L in (SetGlobal actions_global (LTable t) L0, LTable t))
            | v \<Rightarrow> (L, v))
      in case actions of
           LTable t \<Rightarrow> (Ret [], set_lua (RawSetString t name (LFunction fn) L1) s)
         | _ \<Rightarrow> (Raise ''set: _kalua_actions corrupted'', s))"

definition k_exec :: "engine \<Rightarrow> int \<Rightarrow> nat \<Rightarrow> string \<Rightarrow> lua_value list \<Rightarrow> session \<Rightarrow> (kret \<times> session) outcome" where
  "k_exec e now co name args s =
     (let L = lua (world s) in
      case GetGlobal L actions_global of
        LNil \<Rightarrow> Done (Raise ''exec: no actions registered'', s)
      | LTable t \<Rightarrow>
          (case RawGetString L t name of
             LNil \<Rightarrow> Done (Raise (''exec: action not found: '' @ name), s)
           | LFunction fn \<Rightarrow> andThen (RequestExec (eng_show e) now co True fn args s) (\<lambda>s1. Done (Suspend, s1))
           | _ \<Rightarrow> Done (Raise (''exec: '' @ name @ '' is not a function''), s))
      | _ \<Rightarrow> Done (Raise ''exec: _kalua_actions corrupted'', s))"

section \<open>What a dialog shows\<close>

text \<open>Markup of the same shape: what a reader of tags sees of an element depends on its tag and on the
  names of its attributes.\<close>

lemma scan_open_tag:
  "plain_name tag \<Longrightarrow> \<forall>(k, v)\<in>set raw. plain_name k \<and> inert InValue v \<Longrightarrow> fst (scan InTag rest) = InTag \<Longrightarrow>
   scan InText (open_tag tag raw rest) = (InText, CHR ''<'' # tag @ concat (map (\<lambda>(k, v). CHR '' '' # k @ ''='' @ [CHR 0x22, CHR 0x22]) raw)
     @ snd (scan InTag rest) @ ''>'')"
proof -
  assume t: "plain_name tag" "\<forall>(k, v)\<in>set raw. plain_name k \<and> inert InValue v" and m: "fst (scan InTag rest) = InTag"
  have "scan InTag (concat (map (\<lambda>(k, v). raw_attribute k v) raw))
      = (InTag, concat (map (\<lambda>(k, v). CHR '' '' # k @ ''='' @ [CHR 0x22, CHR 0x22]) raw))"
    using t(2) by (induction raw) (auto simp: scan_append scan_raw_attribute simp del: scan_quote)
  then show ?thesis using t(1) m by (cases "scan InTag rest") (simp add: open_tag_def scan_append scan_name)
qed

lemma scan_close_tag: "plain_name tag \<Longrightarrow> scan InText (close_tag tag) = (InText, ''</'' @ tag @ ''>'')"
  by (simp add: close_tag_def scan_append scan_name)

lemma scan_concat_same:
  "(\<And>x. x \<in> set xs \<Longrightarrow> scan InText (f x) = (InText, w)) \<Longrightarrow> scan InText (concat (map f xs)) = (InText, concat (replicate (length xs) w))"
  by (induction xs) (simp_all add: scan_append)

lemmas scan_parts = scan_append scan_open_tag scan_close_tag scan_attribute scan_raw_attribute inert_def plain_name_def

text \<open>The markup of a button, and of a menu's item, as a reader of tags sees it.\<close>

definition button_tags :: string where
  "button_tags = tags (button_html (\<lambda>s. None) [] \<lparr>mb_Label = [], mb_Value = []\<rparr>)"

lemma scan_button: "scan InText (button_html dec rid b) = (InText, button_tags)"
  by (simp add: button_tags_def tags_def button_html_def scan_parts)

lemma scan_icon: "fst (scan InText (msgboxIcon kind)) = InText"
  by (simp add: msgboxIcon_def icon_body_def icon_path_def icon_circle_def scan_parts)

text \<open>C32: Two message boxes have the same tags when both or neither has a title, their kinds have the same
  icon and they show the same number of buttons, whatever their texts and values are.\<close>

theorem msgbox_tags_fixed:
  assumes "mo_Title o1 = [] \<longleftrightarrow> mo_Title o2 = []" and "msgboxKind (mo_Kind o1) = msgboxKind (mo_Kind o2)"
    and "length (shown_buttons o1) = length (shown_buttons o2)"
  shows "tags (renderMsgboxHTML dec1 r1 o1) = tags (renderMsgboxHTML dec2 r2 o2)"
proof -
  have "msgboxIcon (mo_Kind o1) = msgboxIcon (mo_Kind o2)" using assms(2) by (simp add: msgboxIcon_def)
  then have h: "scan InText (msgbox_header o1) = scan InText (msgbox_header o2)" "fst (scan InText (msgbox_header o2)) = InText"
    using assms(1) scan_icon [of "mo_Kind o2"] by (auto simp: msgbox_header_def scan_parts case_prod_beta Let_def)
  have "scan InText (concat (map (button_html dec rid) bs)) = (InText, concat (replicate (length bs) button_tags))" for dec rid bs
    by (rule scan_concat_same) (rule scan_button)
  then show ?thesis
    using h assms(3) by (simp add: tags_def renderMsgboxHTML_def scan_parts case_prod_beta Let_def)
qed

theorem msgbox_tags_fixed_witness:
  "tags (renderMsgboxHTML (\<lambda>s. None) ''1'' \<lparr>mo_ID = [], mo_Title = ''<script>'', mo_Message = ''a'', mo_Kind = ''warn'', mo_Buttons = []\<rparr>)
   = tags (renderMsgboxHTML (\<lambda>s. None) ''1'' \<lparr>mo_ID = [], mo_Title = ''b'', mo_Message = ''</p>'', mo_Kind = ''warning'', mo_Buttons = []\<rparr>)"
  by (rule msgbox_tags_fixed) (simp_all add: msgboxKind_def shown_buttons_def)

text \<open>The shape of a menu: its nesting.\<close>

datatype menu_shape = MenuShape "menu_shape list"

fun item_shape :: "popup_item \<Rightarrow> menu_shape" where
  "item_shape (PopupItem label value items) = MenuShape (map item_shape items)"

fun shape_tags :: "menu_shape \<Rightarrow> string" where
  "shape_tags (MenuShape ms) =
     (let blank = (\<lambda>is. tags (renderPopupItem (\<lambda>s. None) [] (PopupItem [] [] is))) in
      if ms = [] then blank []
      else tags (open_tag ''li'' [(''class'', []), (''data-k-popup-id'', []), (''data-k-submenu'', [])] []
             @ open_tag ''span'' [(''class'', [])] [] @ close_tag ''span''
             @ open_tag ''span'' [(''class'', []), (''aria-hidden'', [])] [] @ close_tag ''span'' @ open_tag ''ul'' [(''class'', [])] [])
           @ concat (map shape_tags ms) @ tags (close_tag ''ul'' @ close_tag ''li''))"

lemma scan_concat_map:
  "(\<And>x. x \<in> set xs \<Longrightarrow> scan InText (f x) = (InText, w x)) \<Longrightarrow> scan InText (concat (map f xs)) = (InText, concat (map w xs))"
  by (induction xs) (simp_all add: scan_append)

lemma scan_popup_item: "scan InText (renderPopupItem dec rid i) = (InText, shape_tags (item_shape i))"
proof (induction i)
  case (PopupItem lab va items)
  have "scan InText (concat (map (renderPopupItem dec rid) items)) = (InText, concat (map (\<lambda>i. shape_tags (item_shape i)) items))"
    by (rule scan_concat_map) (rule PopupItem)
  then show ?case
    by (simp add: tags_def item_title_def scan_parts comp_def)
qed

text \<open>The tags of a menu depend only on its nesting and on whether it has a title.\<close>

theorem popup_tags_fixed:
  assumes "title = [] \<longleftrightarrow> title' = []" and "map item_shape items = map item_shape items'"
  shows "tags (renderPopupHTML dec rid title items) = tags (renderPopupHTML dec' rid' title' items')"
proof -
  have "scan InText (concat (map (renderPopupItem dec rid) is)) = (InText, concat (map shape_tags (map item_shape is)))" for dec rid "is"
    using scan_concat_map [of "is" "renderPopupItem dec rid" "\<lambda>i. shape_tags (item_shape i)"] scan_popup_item by (simp add: comp_def)
  then show ?thesis using assms by (simp add: tags_def renderPopupHTML_def scan_parts del: map_map)
qed

section \<open>Menus have at most nine levels\<close>

fun height :: "popup_item \<Rightarrow> nat" where
  "height (PopupItem label value items) = Suc (fold max (map height items) 0)"

lemma fold_max: "fold max ns (k :: nat) \<le> m \<longleftrightarrow> k \<le> m \<and> (\<forall>n\<in>set ns. n \<le> m)"
  by (induction ns arbitrary: k) auto

lemma add_item_height:
  assumes "\<And>s. \<forall>i\<in>set (fst (parse s)). height i \<le> n" and "\<forall>i\<in>set (fst acc). height i \<le> Suc n"
  shows "\<forall>i\<in>set (fst (add_item js sh L parse v acc)). height i \<le> Suc n"
  using assms by (auto simp: add_item_def case_prod_beta Let_def fold_max split: option.split)

text \<open>A menu has at most nine levels, however deep the script nests its tables, even one table in itself.\<close>

theorem popup_depth_bounded:
  "\<forall>i\<in>set (fst (popupParseItems js sh L k t)). height i \<le> k"
proof (induction k arbitrary: t)
  case (Suc k)
  have "\<forall>i\<in>set (fst (fold (\<lambda>kv. add_item js sh L (popupParseItems js sh L k) (snd kv)) kvs acc)). height i \<le> Suc k"
    if "\<forall>i\<in>set (fst acc). height i \<le> Suc k" for kvs acc
    using that
  proof (induction kvs arbitrary: acc)
    case (Cons kv kvs)
    show ?case unfolding fold_simps comp_apply by (rule Cons.IH) (rule add_item_height [OF Suc.IH Cons.prems])
  qed simp
  from this [of "([], False)"] show ?case by simp
qed simp

section \<open>Assignment and actions\<close>

text \<open>\<^verbatim>\<open>k.assign\<close> with a kind of number stores 0 and with a kind of boolean stores true, whatever the value.\<close>

theorem assign_loses_value:
  assumes "eng_lower e kind \<in> {''numeric'', ''number''}" and "eng_lower e bkind \<in> {''boolean'', ''bool''}"
  shows "k_assign e (LString g) kind v s = (Ret [LNumber float_zero], edit_lua (SetGlobal g (LNumber float_zero)) s)
    \<and> k_assign e (LString g) bkind v s = (Ret [LBool True], edit_lua (SetGlobal g (LBool True)) s)"
  using assms by (auto simp: k_assign_def coerce_kind_def unknown_to_coerce_def ToNum_def numeric_def Truthy_def Let_def)

text \<open>An action stored by \<^verbatim>\<open>k.set\<close> is the one \<^verbatim>\<open>k.exec\<close> requests, and suspends the caller.\<close>

theorem set_then_exec:
  assumes "GetGlobal (lua (world s)) actions_global = LTable t \<or> GetGlobal (lua (world s)) actions_global = LNil"
    and "length (inbox s) < session_cap"
  shows "\<exists>s1 s2. k_set name fn s = (Ret [], s1) \<and> k_exec e now co name args s1 = Done (Suspend, s2)
    \<and> inbox s2 = inbox s @ [(inbox_msg_of InboxExec)\<lparr>im_exec := Some \<lparr>ec_op = stamp ''exec_'' now, ec_fn = fn,
         ec_args = map (\<lambda>v. GOther (lv_string (eng_show e) v)) args\<rparr>\<rparr>]
    \<and> map_of (asyncOps s2) (stamp ''exec_'' now) = Some (plain_op co True)"
proof -
  obtain s1 t1 where s1: "k_set name fn s = (Ret [], s1)" "GetGlobal (lua (world s1)) actions_global = LTable t1"
    "RawGetString (lua (world s1)) t1 name = LFunction fn" "inbox s1 = inbox s"
    using assms(1) by (auto simp: k_set_def case_prod_beta Let_def set_lua_def)
  have "post m (register rid op s1) = Done ((register rid op s1)\<lparr>inbox := inbox s @ [m]\<rparr>)" for m rid op
    using s1(4) assms(2) by (simp add: post_def inbox_offer_def register_def record_event_def)
  then show ?thesis using s1
    by (simp add: k_exec_def RequestExec_def Let_def register_def record_event_def update_conv)
qed

theorem assign_loses_value_witness:
  "fst (k_assign idle_engine (LString ''x'') ''number'' (LNumber (Fin 42)) (NewSession quiet_script)) = Ret [LNumber float_zero]
   \<and> fst (k_assign idle_engine (LString ''x'') ''bool'' (LBool False) (NewSession quiet_script)) = Ret [LBool True]"
proof -
  have "eng_lower idle_engine ''number'' = ''number''" "eng_lower idle_engine ''bool'' = ''bool''" by (simp_all add: idle_engine_def)
  then show ?thesis using assign_loses_value [of idle_engine "''number''" "''bool''" "''x''"] by simp
qed

end
