(* ===== verification/Path_Sandbox.thy ===== *)
theory Path_Sandbox
  imports Json_Lua Script_Errors "HOL-Library.Sublist"
begin

text \<open>
  The file sandbox: the lexical path functions of Go's \<^verbatim>\<open>path/filepath\<close> on Unix that the
  code calls, \<^verbatim>\<open>resolvePath\<close> and \<^verbatim>\<open>evalSymlinksBestEffort\<close> of
  \<^verbatim>\<open>internal/bindings/files.go\<close>, and the roots and protected files of
  \<^verbatim>\<open>internal/bindings/bindings.go\<close> (\<^verbatim>\<open>workdirOf\<close>, \<^verbatim>\<open>allowFSOf\<close>,
  \<^verbatim>\<open>denyFSFor\<close>, \<^verbatim>\<open>deniedPath\<close>). Which links the file system holds is the
  parameter \<open>links\<close>, the function \<^verbatim>\<open>filepath.EvalSymlinks\<close> computes from the disk; None
  is its error, a path that does not exist.
\<close>

section \<open>Lexical paths\<close>

abbreviation slash :: char where "slash \<equiv> CHR ''/''"

definition dotdot :: string where "dotdot = ''..''"

definition IsAbs :: "string \<Rightarrow> bool" where
  "IsAbs p \<longleftrightarrow> p \<noteq> [] \<and> hd p = slash"

text \<open>
  \<^verbatim>\<open>Clean\<close>: the components, kept on a stack with the last one first. A component \<^verbatim>\<open>..\<close>
  removes the one before it; at the top it is dropped, in a relative path it may only stay in
  front.
\<close>

fun clean_comps :: "bool \<Rightarrow> string list \<Rightarrow> string list \<Rightarrow> string list" where
  "clean_comps rooted st [] = rev st"
| "clean_comps rooted st (c # cs) =
     (if c = [] \<or> c = ''.'' then clean_comps rooted st cs
      else if c = dotdot then
        (case st of
           [] \<Rightarrow> clean_comps rooted (if rooted then [] else [dotdot]) cs
         | d # ds \<Rightarrow> clean_comps rooted (if d = dotdot then dotdot # st else ds) cs)
      else clean_comps rooted (c # st) cs)"

definition abs_path :: "string list \<Rightarrow> string" where
  "abs_path cs = slash # join_with [slash] cs"

definition Clean :: "string \<Rightarrow> string" where
  "Clean p =
     (if p = [] then ''.''
      else if IsAbs p then abs_path (clean_comps True [] (split_on slash (tl p)))
      else (case clean_comps False [] (split_on slash p) of
              [] \<Rightarrow> ''.''
            | cs \<Rightarrow> join_with [slash] cs))"

definition Join :: "string \<Rightarrow> string \<Rightarrow> string" where
  "Join a b = (if a \<noteq> [] then Clean (a @ [slash] @ b) else if b \<noteq> [] then Clean b else [])"

text \<open>The part up to and with the last slash, and what follows it.\<close>

definition dir_part :: "string \<Rightarrow> string" where
  "dir_part p = rev (dropWhile (\<lambda>c. c \<noteq> slash) (rev p))"

definition file_part :: "string \<Rightarrow> string" where
  "file_part p = rev (takeWhile (\<lambda>c. c \<noteq> slash) (rev p))"

definition Dir :: "string \<Rightarrow> string" where
  "Dir p = Clean (dir_part p)"

definition Base :: "string \<Rightarrow> string" where
  "Base p =
     (if p = [] then ''.''
      else (let q = rev (dropWhile (\<lambda>c. c = slash) (rev p)); f = file_part q
            in if f = [] then ''/'' else f))"

text \<open>
  \<^verbatim>\<open>Rel\<close>: both paths are cleaned, the common components dropped, and every component left
  of the base is left by a \<^verbatim>\<open>..\<close>. There is no relative path between a rooted and an
  unrooted one, nor out of a base that starts with \<^verbatim>\<open>..\<close>.
\<close>

definition comps :: "string \<Rightarrow> string list" where
  "comps p =
     (let q = (if IsAbs p then tl p else p) in if q = [] then [] else split_on slash q)"

fun strip_common :: "string list \<Rightarrow> string list \<Rightarrow> string list \<times> string list" where
  "strip_common (b # bs) (t # ts) = (if b = t then strip_common bs ts else (b # bs, t # ts))"
| "strip_common bs ts = (bs, ts)"

definition Rel :: "string \<Rightarrow> string \<Rightarrow> string option" where
  "Rel basepath targpath =
     (let base0 = Clean basepath; targ = Clean targpath
      in if targ = base0 then Some ''.''
         else let base = (if base0 = ''.'' then [] else base0)
              in if IsAbs base \<noteq> IsAbs targ then None
                 else (case strip_common (comps base) (comps targ) of
                         (bs, ts) \<Rightarrow>
                           if bs \<noteq> [] \<and> hd bs = dotdot \<and> ts \<noteq> [] then None
                           else Some (join_with [slash] (replicate (length bs) dotdot @ ts))))"

section \<open>Clean paths\<close>

text \<open>A list of proper components; \<open>clean_abs p\<close>: \<open>p\<close> is rooted and has no other ones.\<close>

definition proper :: "string \<Rightarrow> bool" where
  "proper c \<longleftrightarrow> c \<noteq> [] \<and> c \<noteq> ''.'' \<and> c \<noteq> dotdot \<and> slash \<notin> set c"

definition clean_abs :: "string \<Rightarrow> bool" where
  "clean_abs p \<longleftrightarrow> IsAbs p \<and> list_all proper (comps p)"

lemma comps_abs_path: "list_all proper cs \<Longrightarrow> comps (abs_path cs) = cs"
proof -
  assume p: "list_all proper cs"
  show ?thesis
  proof (cases cs)
    case (Cons c r)
    then have "join_with [slash] cs \<noteq> []"
      using p by (cases r) (auto simp: proper_def)
    moreover have "split_on slash (join_with [slash] cs) = cs"
      using p Cons by (intro split_join_with) (auto simp: list_all_iff proper_def)
    ultimately show ?thesis by (simp add: comps_def abs_path_def IsAbs_def)
  qed (simp add: comps_def abs_path_def IsAbs_def)
qed

lemma IsAbs_abs_path [simp]: "IsAbs (abs_path cs)"
  by (simp add: IsAbs_def abs_path_def)

lemma clean_abs_abs_path: "list_all proper cs \<Longrightarrow> clean_abs (abs_path cs)"
  by (simp add: clean_abs_def comps_abs_path)

lemma abs_path_comps: "IsAbs p \<Longrightarrow> abs_path (comps p) = p"
  by (cases p) (auto simp: IsAbs_def abs_path_def comps_def join_split_on Let_def)

lemma clean_comps_proper:
  "list_all proper st \<Longrightarrow> \<forall>c\<in>set cs. slash \<notin> set c \<Longrightarrow> list_all proper (clean_comps True st cs)"
proof (induction True st cs rule: clean_comps.induct)
  case (2 st c cs)
  then show ?case
    by (cases st) (auto simp: proper_def)
qed (simp add: list_all_rev)

lemma clean_comps_id:
  "list_all proper cs \<Longrightarrow> clean_comps rooted st cs = rev st @ cs"
  by (induction rooted st cs rule: clean_comps.induct) (auto simp: proper_def)

lemma clean_abs_Clean: "IsAbs p \<Longrightarrow> clean_abs (Clean p)"
proof -
  assume a: "IsAbs p"
  have "list_all proper (clean_comps True [] (split_on slash (tl p)))"
    by (rule clean_comps_proper) (auto dest: split_on_no_sep)
  then show ?thesis using a by (auto simp: Clean_def IsAbs_def intro: clean_abs_abs_path)
qed

lemma Clean_id: "clean_abs p \<Longrightarrow> Clean p = p"
proof -
  assume c: "clean_abs p"
  then have a: "IsAbs p" and pr: "list_all proper (comps p)" by (auto simp: clean_abs_def)
  have "clean_comps True [] (split_on slash (tl p)) = comps p"
  proof (cases "tl p")
    case Nil
    then show ?thesis using a by (simp add: comps_def)
  next
    case (Cons x xs)
    then have "comps p = split_on slash (tl p)" using a by (simp add: comps_def)
    with pr show ?thesis by (simp add: clean_comps_id)
  qed
  with a show ?thesis
    by (auto simp: Clean_def IsAbs_def abs_path_comps [unfolded IsAbs_def])
qed


text \<open>A path is inside a directory when \<^verbatim>\<open>Rel\<close> does not have to leave it.\<close>

definition inside :: "string \<Rightarrow> bool" where
  "inside rel \<longleftrightarrow> rel = ''.'' \<or> \<not> prefix ''../'' rel \<and> rel \<noteq> dotdot"

definition inside_of :: "string \<Rightarrow> string \<Rightarrow> bool" where
  "inside_of dirp p = (case Rel dirp p of None \<Rightarrow> False | Some rel \<Rightarrow> inside rel)"

definition under :: "string \<Rightarrow> string \<Rightarrow> bool" where
  "under dirp p \<longleftrightarrow> prefix (comps dirp) (comps p)"

lemma strip_common_app:
  "strip_common bs ts = (b, t) \<Longrightarrow> \<exists>c. bs = c @ b \<and> ts = c @ t \<and> (b = [] \<or> t = [] \<or> hd b \<noteq> hd t)"
proof (induction bs ts rule: strip_common.induct)
  case (1 x bs y ts)
  show ?case
  proof (cases "x = y")
    case True
    with 1 obtain c where "bs = c @ b" "ts = c @ t" "b = [] \<or> t = [] \<or> hd b \<noteq> hd t" by auto
    then show ?thesis using True by (intro exI [of _ "x # c"]) simp
  next
    case False
    with 1 show ?thesis by auto
  qed
qed auto

lemma join_first: "\<exists>r. join_with [slash] (c # cs) = c @ r \<and> (r = [] \<or> hd r = slash)"
  by (cases cs) auto

lemma inside_down: "list_all proper ts \<Longrightarrow> ts \<noteq> [] \<Longrightarrow> inside (join_with [slash] ts)"
proof -
  assume p: "list_all proper ts" and n: "ts \<noteq> []"
  then obtain c cs where t: "ts = c # cs" by (cases ts) auto
  obtain r where r: "join_with [slash] ts = c @ r" "r = [] \<or> hd r = slash"
    using join_first [of c cs] t by auto
  have c: "c \<noteq> []" "c \<noteq> ''.''" "c \<noteq> ''..''" "slash \<notin> set c"
    using p t by (auto simp: proper_def dotdot_def)
  have first: "takeWhile (\<lambda>x. x \<noteq> slash) (a @ q) = a" if "slash \<notin> set a" "q = [] \<or> hd q = slash" for a q
    using that by (induction a) (cases q, auto)
  have "c = ''..''" if "c @ r = ''..'' @ q" "q = [] \<or> hd q = slash" for q
    using that first [OF c(4) r(2)] first [of "''..''" q] by simp
  then have "\<not> prefix ''../'' (c @ r)" "c @ r \<noteq> ''..''"
    using c(3) unfolding prefix_def by (force, fastforce)
  then show ?thesis by (simp add: inside_def r(1) dotdot_def)
qed

lemma not_inside_up: "\<not> inside (join_with [slash] (dotdot # cs))"
  by (cases cs) (auto simp: inside_def dotdot_def)

lemma inside_of_under:
  "clean_abs dirp \<Longrightarrow> clean_abs p \<Longrightarrow> inside_of dirp p \<longleftrightarrow> under dirp p"
proof -
  assume r: "clean_abs dirp" and p: "clean_abs p"
  obtain bs ts where st: "strip_common (comps dirp) (comps p) = (bs, ts)" by (cases "strip_common (comps dirp) (comps p)")
  obtain c where c: "comps dirp = c @ bs" "comps p = c @ ts" "bs = [] \<or> ts = [] \<or> hd bs \<noteq> hd ts"
    using strip_common_app [OF st] by auto
  have abs: "IsAbs dirp" "IsAbs p" "list_all proper bs" "list_all proper ts" "dirp \<noteq> ''.''"
    using r p c by (auto simp: clean_abs_def IsAbs_def)
  have pre: "under dirp p \<longleftrightarrow> bs = []"
    using c by (cases bs) (auto simp: under_def prefix_def)
  have eq: "dirp = p \<longleftrightarrow> bs = [] \<and> ts = []"
  proof -
    have "dirp = p \<longleftrightarrow> comps dirp = comps p"
      using abs_path_comps [OF abs(1)] abs_path_comps [OF abs(2)] by metis
    also have "\<dots> \<longleftrightarrow> bs = ts" using c by simp
    also have "\<dots> \<longleftrightarrow> bs = [] \<and> ts = []" using c(3) by auto
    finally show ?thesis .
  qed
  have nd: "bs \<noteq> [] \<Longrightarrow> hd bs \<noteq> dotdot" using abs(3) by (cases bs) (auto simp: proper_def)
  show ?thesis
  proof (cases "dirp = p")
    case True
    then have "inside_of dirp p" by (simp add: inside_of_def Rel_def inside_def)
    with True eq pre show ?thesis by simp
  next
    case False
    have "Rel dirp p = Some (join_with [slash] (replicate (length bs) dotdot @ ts))"
      using False abs nd st Clean_id [OF r] Clean_id [OF p] by (auto simp: Rel_def Let_def)
    then show ?thesis
      using pre eq False inside_down [OF abs(4)] not_inside_up
      by (cases bs) (auto simp: inside_of_def)
  qed
qed

lemma under_refl [simp]: "under p p"
  by (simp add: under_def)

lemma under_trans: "under a b \<Longrightarrow> under b c \<Longrightarrow> under a c"
  by (auto simp: under_def intro: prefix_order.trans)

section \<open>Symbolic links\<close>

fun comps_size :: "string list \<Rightarrow> nat" where
  "comps_size [] = 0"
| "comps_size (c # cs) = Suc (length c) + comps_size cs"

lemma comps_size_append [simp]: "comps_size (a @ b) = comps_size a + comps_size b"
  by (induction a) auto

lemma comps_size_rev [simp]: "comps_size (rev a) = comps_size a"
  by (induction a) auto

lemma comps_size_split: "comps_size (split_on c s) = Suc (length s)"
  by (induction s) (auto split: list.splits)

lemma length_join: "cs \<noteq> [] \<Longrightarrow> Suc (length (join_with [slash] cs)) = comps_size cs"
  by (induction "[slash]" cs rule: join_with.induct) auto

lemma clean_comps_size:
  "comps_size (clean_comps rooted st cs) \<le> comps_size st + comps_size (filter (\<lambda>c. c \<noteq> []) cs)"
proof (induction rooted st cs rule: clean_comps.induct)
  case (2 rooted st c cs)
  then show ?case
    by (cases st) (auto simp: dotdot_def split: if_splits)
qed simp

lemma comps_size_filter: "comps_size (filter P cs) \<le> comps_size cs"
  by (induction cs) auto

lemma comps_size_filter_less: "[] \<in> set cs \<Longrightarrow> comps_size (filter (\<lambda>c. c \<noteq> []) cs) < comps_size cs"
proof (induction cs)
  case (Cons c cs)
  then show ?case using comps_size_filter [of "\<lambda>c. c \<noteq> []" cs] by (cases "c = []") auto
qed simp


lemma split_on_end: "split_on c (s @ [c]) = split_on c s @ [[]]"
proof (induction s)
  case (Cons x s)
  obtain y ys where "split_on c s = y # ys" by (cases "split_on c s") auto
  with Cons show ?case by simp
qed simp

lemma split_ends: "s \<noteq> [] \<Longrightarrow> last s = c \<Longrightarrow> [] \<in> set (split_on c s)"
proof -
  assume "s \<noteq> []" "last s = c"
  then have "s = butlast s @ [c]" by (metis append_butlast_last_id)
  then have "split_on c s = split_on c (butlast s) @ [[]]" using split_on_end by metis
  then show ?thesis by simp
qed

lemma length_abs_path: "length (abs_path cs) = max 1 (comps_size cs)"
proof (cases "cs = []")
  case False
  then show ?thesis using length_join [OF False] by (simp add: abs_path_def)
qed (simp add: abs_path_def)

text \<open>Cleaning never makes a path longer, and a trailing slash makes it shorter.\<close>

lemma length_Clean: "p \<noteq> [] \<Longrightarrow> length (Clean p) \<le> length p"
proof -
  assume p: "p \<noteq> []"
  have le: "comps_size (clean_comps r [] (split_on slash s)) \<le> Suc (length s)" for r s
    using clean_comps_size [of r "[]" "split_on slash s"] comps_size_filter [of "\<lambda>c. c \<noteq> []" "split_on slash s"]
    by (simp add: comps_size_split)
  show ?thesis
  proof (cases "IsAbs p")
    case True
    then show ?thesis using p le [of True "tl p"] by (simp add: Clean_def length_abs_path Suc_leI)
  next
    case False
    have "length (case cs of [] \<Rightarrow> ''.'' | c # r \<Rightarrow> join_with [slash] (c # r)) \<le> length p"
      if "comps_size cs \<le> Suc (length p)" for cs
      using that p length_join [of cs] by (cases cs) (auto simp: Suc_leI)
    then show ?thesis using False p le [of False p] by (simp add: Clean_def)
  qed
qed

lemma length_Clean_slash: "p \<noteq> [] \<Longrightarrow> last p = slash \<Longrightarrow> p \<noteq> ''/'' \<Longrightarrow> IsAbs p \<Longrightarrow> length (Clean p) < length p"
proof -
  assume p: "p \<noteq> []" "last p = slash" "p \<noteq> ''/''" "IsAbs p"
  then obtain q where q: "p = slash # q" "q \<noteq> []" "last q = slash"
    by (cases p) (auto simp: IsAbs_def)
  have "comps_size (clean_comps True [] (split_on slash q)) < Suc (length q)"
    using clean_comps_size [of True "[]" "split_on slash q"]
      comps_size_filter_less [OF split_ends [OF q(2,3)]]
    by (simp add: comps_size_split)
  then show ?thesis using q by (simp add: Clean_def IsAbs_def length_abs_path length_greater_0_conv [symmetric] del: length_greater_0_conv)
qed


lemma dir_part_slash: "slash \<in> set p \<Longrightarrow> dir_part p \<noteq> [] \<and> last (dir_part p) = slash \<and> prefix (dir_part p) p"
proof -
  assume s: "slash \<in> set p"
  have d: "dropWhile (\<lambda>c. c \<noteq> slash) (rev p) \<noteq> []" using s by (simp add: dropWhile_eq_Nil_conv)
  have "hd (dropWhile (\<lambda>c. c \<noteq> slash) (rev p)) = slash" using hd_dropWhile [OF d] by simp
  moreover have "prefix (dir_part p) p"
    unfolding dir_part_def by (metis suffix_dropWhile suffix_to_prefix rev_rev_ident)
  ultimately show ?thesis using d by (simp add: dir_part_def last_rev)
qed

lemma dir_part_none: "slash \<notin> set p \<Longrightarrow> dir_part p = []"
  by (auto simp: dir_part_def dropWhile_eq_Nil_conv)

definition dir_rank :: "string \<Rightarrow> nat" where
  "dir_rank p = (if p = ''.'' then 0 else Suc (length p))"

lemma dir_rank_less: "Dir p \<noteq> p \<Longrightarrow> dir_rank (Dir p) < dir_rank p"
proof (cases "slash \<in> set p")
  case False
  assume "Dir p \<noteq> p"
  with False show ?thesis by (auto simp: Dir_def dir_part_none Clean_def dir_rank_def)
next
  case True
  assume ne: "Dir p \<noteq> p"
  note d = dir_part_slash [OF True]
  have le: "length (Dir p) \<le> length (dir_part p)" "length (dir_part p) \<le> length p"
    using d length_Clean [of "dir_part p"] by (auto simp: Dir_def prefix_length_le)
  have p: "p \<noteq> ''.''" using True by auto
  show ?thesis
  proof (cases "length (dir_part p) = length p")
    case False
    with le p show ?thesis by (simp add: dir_rank_def)
  next
    case eq: True
    then have dp: "dir_part p = p" using d by (metis prefix_def append_Nil2 append_eq_append_conv)
    have "p \<noteq> ''/''" using ne dp by (auto simp: Dir_def Clean_def IsAbs_def abs_path_def)
    then have "length (Clean p) < length p" if "IsAbs p"
      using length_Clean_slash [of p] d dp that by simp
    moreover have "length (Clean p) < length p \<or> Clean p = ''.''" if "\<not> IsAbs p"
    proof -
      let ?cs = "clean_comps False [] (split_on slash p)"
      have "comps_size ?cs < Suc (length p)"
        using clean_comps_size [of False "[]" "split_on slash p"]
          comps_size_filter_less [OF split_ends [of p slash]] d dp
        by (simp add: comps_size_split)
      then show ?thesis
        using that d dp length_join [of ?cs] by (auto simp: Clean_def split: list.split)
    qed
    ultimately show ?thesis using dp p by (auto simp: dir_rank_def Dir_def)
  qed
qed

text \<open>
  \<^verbatim>\<open>evalSymlinksBestEffort\<close>: the longest prefix the disk resolves, with the rest appended
  lexically. Its error result is never produced: the recursion ends at a path that is its own
  directory.
\<close>

function evalSymlinksBestEffort :: "(string \<Rightarrow> string option) \<Rightarrow> string \<Rightarrow> string" where
  "evalSymlinksBestEffort links p =
     (case links p of
        Some r \<Rightarrow> r
      | None \<Rightarrow>
          (if Dir p = p then p
           else Join (evalSymlinksBestEffort links (Dir p)) (Base p)))"
  by pat_completeness auto
termination
  by (relation "measure (\<lambda>(links, p). dir_rank p)") (auto intro: dir_rank_less)

declare evalSymlinksBestEffort.simps [simp del]

text \<open>What \<^verbatim>\<open>filepath.EvalSymlinks\<close> documents: the result is clean, and a rooted path has a rooted one.\<close>

definition links_ok :: "(string \<Rightarrow> string option) \<Rightarrow> bool" where
  "links_ok links \<longleftrightarrow> (\<forall>p r. clean_abs p \<longrightarrow> links p = Some r \<longrightarrow> clean_abs r)"


lemma IsAbs_prefix: "prefix q p \<Longrightarrow> q \<noteq> [] \<Longrightarrow> IsAbs p \<Longrightarrow> IsAbs q"
  by (cases q) (auto simp: IsAbs_def prefix_def)

lemma clean_abs_Dir: "IsAbs p \<Longrightarrow> clean_abs (Dir p)"
proof -
  assume a: "IsAbs p"
  then have "slash \<in> set p" by (cases p) (auto simp: IsAbs_def)
  then show ?thesis
    using a dir_part_slash [of p] by (auto simp: Dir_def intro!: clean_abs_Clean intro: IsAbs_prefix)
qed

lemma clean_abs_Join: "IsAbs a \<Longrightarrow> clean_abs (Join a b)"
  by (auto simp: Join_def IsAbs_def intro!: clean_abs_Clean)

lemma clean_abs_IsAbs: "clean_abs p \<Longrightarrow> IsAbs p"
  by (simp add: clean_abs_def)

lemma clean_abs_eval: "links_ok links \<Longrightarrow> clean_abs p \<Longrightarrow> clean_abs (evalSymlinksBestEffort links p)"
proof (induction links p rule: evalSymlinksBestEffort.induct)
  case (1 links p)
  show ?case
  proof (cases "links p")
    case None
    have "clean_abs (Dir p)" using "1.prems"(2) by (simp add: clean_abs_Dir clean_abs_IsAbs)
    with 1 None show ?thesis
      by (auto simp: evalSymlinksBestEffort.simps [of links p] intro: clean_abs_Join clean_abs_IsAbs)
  next
    case (Some r)
    with 1 show ?thesis by (simp add: evalSymlinksBestEffort.simps [of links p] links_ok_def)
  qed
qed

section \<open>Roots and protected files\<close>

record file_env =
  workdir :: string
  allowFS :: "string list"
  denyFS :: "string list"
  maxFileSize :: int

definition filepathAbs :: "string \<Rightarrow> string \<Rightarrow> string" where
  "filepathAbs cwd p = Clean (if IsAbs p then Clean p else Join cwd p)"

definition allowFSOf :: "(string \<Rightarrow> string option) \<Rightarrow> string \<Rightarrow> string list \<Rightarrow> string list" where
  "allowFSOf links cwd ps = map (\<lambda>p. evalSymlinksBestEffort links (filepathAbs cwd p)) ps"

definition denyFSOf :: "(string \<Rightarrow> string option) \<Rightarrow> string \<Rightarrow> string list \<Rightarrow> string list" where
  "denyFSOf links cwd ps = map (\<lambda>p. evalSymlinksBestEffort links (filepathAbs cwd p)) ps"

definition defaultDenyFS :: "(string \<Rightarrow> string option) \<Rightarrow> string \<Rightarrow> string list" where
  "defaultDenyFS links wd =
     [evalSymlinksBestEffort links (Join wd ''.kalua.params.json''),
      evalSymlinksBestEffort links (Join wd ''klog.db'')]"

definition denyFSFor :: "(string \<Rightarrow> string option) \<Rightarrow> string \<Rightarrow> string list \<Rightarrow> string list" where
  "denyFSFor links cwd ps = denyFSOf links cwd ps @ defaultDenyFS links cwd"

text \<open>The environment \<^verbatim>\<open>setup_native.go\<close> and \<^verbatim>\<open>serve.go\<close> build in working directory \<open>cwd\<close>.\<close>

definition sandbox_env ::
  "(string \<Rightarrow> string option) \<Rightarrow> string \<Rightarrow> string list \<Rightarrow> string list \<Rightarrow> int \<Rightarrow> file_env" where
  "sandbox_env links cwd allow deny cap =
     \<lparr>workdir = cwd, allowFS = allowFSOf links cwd allow, denyFS = denyFSFor links cwd deny,
      maxFileSize = cap\<rparr>"

definition deniedPath :: "file_env \<Rightarrow> string \<Rightarrow> bool" where
  "deniedPath e p \<longleftrightarrow> list_ex (\<lambda>d. inside_of d p) (denyFS e)"

definition real_path :: "(string \<Rightarrow> string option) \<Rightarrow> file_env \<Rightarrow> string \<Rightarrow> string" where
  "real_path links e path =
     evalSymlinksBestEffort links (Clean (if IsAbs path then path else Join (workdir e) path))"

definition resolvePath :: "(string \<Rightarrow> string option) \<Rightarrow> file_env \<Rightarrow> string \<Rightarrow> string + string" where
  "resolvePath links e path =
     (let resolved = real_path links e path
      in if deniedPath e resolved
         then Inl (''file error: access denied: '' @ path @ '' is a protected host artefact'')
         else if list_ex (\<lambda>top. inside_of (evalSymlinksBestEffort links (Clean top)) resolved)
                (workdir e # allowFS e)
         then Inr resolved
         else Inl (''file error: filesystem access denied: '' @ path @ '' is outside the allowed roots''))"

text \<open>What the sandbox means: inside the real path of a root, and not inside a protected path.\<close>

definition permitted :: "(string \<Rightarrow> string option) \<Rightarrow> file_env \<Rightarrow> string \<Rightarrow> bool" where
  "permitted links e p \<longleftrightarrow>
     (\<exists>top\<in>set (workdir e # allowFS e). under (evalSymlinksBestEffort links (Clean top)) p)
     \<and> (\<forall>d\<in>set (denyFS e). \<not> under d p)"

lemma clean_abs_filepathAbs: "IsAbs cwd \<Longrightarrow> clean_abs (filepathAbs cwd p)"
  by (auto simp: filepathAbs_def intro!: clean_abs_Clean clean_abs_IsAbs [OF clean_abs_Join] clean_abs_IsAbs [OF clean_abs_Clean])

lemma sandbox_env_clean:
  assumes "links_ok links" "IsAbs cwd" "e = sandbox_env links cwd allow deny cap"
  shows "IsAbs (workdir e)" "\<forall>p\<in>set (allowFS e). clean_abs p" "\<forall>p\<in>set (denyFS e). clean_abs p"
  using assms
  by (auto simp: sandbox_env_def allowFSOf_def denyFSFor_def denyFSOf_def defaultDenyFS_def
      intro!: clean_abs_eval clean_abs_filepathAbs clean_abs_Join)

lemma clean_abs_real_path:
  "links_ok links \<Longrightarrow> IsAbs (workdir e) \<Longrightarrow> clean_abs (real_path links e path)"
  by (auto simp: real_path_def intro!: clean_abs_eval clean_abs_Clean clean_abs_IsAbs [OF clean_abs_Join])

lemma resolvePath_iff:
  assumes "links_ok links" "IsAbs cwd" "e = sandbox_env links cwd allow deny cap"
  shows "resolvePath links e path = Inr r \<longleftrightarrow> r = real_path links e path \<and> permitted links e r"
proof -
  note env = sandbox_env_clean [OF assms]
  let ?p = "real_path links e path"
  have p: "clean_abs ?p" using assms(1) env(1) by (rule clean_abs_real_path)
  have "deniedPath e ?p \<longleftrightarrow> (\<exists>d\<in>set (denyFS e). under d ?p)"
    using env(3) p by (auto simp: deniedPath_def list_ex_iff inside_of_under)
  moreover have "inside_of (evalSymlinksBestEffort links (Clean t)) ?p
      \<longleftrightarrow> under (evalSymlinksBestEffort links (Clean t)) ?p" if "t \<in> set (workdir e # allowFS e)" for t
  proof -
    have "IsAbs t" using that env(1,2) by (auto dest: clean_abs_IsAbs)
    then have "clean_abs (evalSymlinksBestEffort links (Clean t))"
      using assms(1) by (intro clean_abs_eval clean_abs_Clean)
    with p show ?thesis by (intro inside_of_under)
  qed
  ultimately show ?thesis
    by (auto simp: resolvePath_def Let_def permitted_def list_ex_iff)
qed

end
