(* ===== verification/File_Ops.thy ===== *)
theory File_Ops
  imports Path_Sandbox
begin

text \<open>
  The file bindings of \<^verbatim>\<open>internal/bindings/files.go\<close> as programs over system calls: what each
  asks of the operating system, in order, and what it returns to the script. The operating system
  is the parameter \<open>host\<close>: its answer to a call may depend on all calls before it. Closing a
  descriptor whose result the code ignores is left out. Reading through an open handle, where the
  buffered reader and the descriptor read the same file, is in File_Handles.
\<close>

section \<open>System calls\<close>

datatype sys_op =
    SOpen string int
  | SCreate string
  | SReadFile string
  | SStat string
  | SRemove string
  | SMkdir string
  | SMkdirAll string
  | SReadDir string
  | SRename string string
  | SCreateTemp string
  | SWrite string string
  | SClose string
  | SChmod string int
  | SCopy string string
  | SOpenZip string
  | SZipWrite string "(string \<times> string) list"

record zip_member =
  zname :: string
  zis_dir :: bool
  zopen :: "host_error option"
  zdata :: string

datatype sys_ans =
    AOk
  | AErr host_error
  | ABytes string
  | ANum nat
  | ANames "string list"
  | AInfo int bool int int
  | AMembers "zip_member list"

type_synonym sys_host = "sys_op list \<Rightarrow> sys_op \<Rightarrow> sys_ans"

definition sys :: "sys_host \<Rightarrow> sys_op \<Rightarrow> sys_op list \<Rightarrow> sys_ans \<times> sys_op list" where
  "sys host op hist = (host hist op, hist @ [op])"

definition err_of :: "sys_ans \<Rightarrow> host_error option" where
  "err_of a = (case a of AErr e \<Rightarrow> Some e | _ \<Rightarrow> None)"

definition bytes_of :: "sys_ans \<Rightarrow> string" where
  "bytes_of a = (case a of ABytes s \<Rightarrow> s | _ \<Rightarrow> [])"

definition names_of :: "sys_ans \<Rightarrow> string list" where
  "names_of a = (case a of ANames ns \<Rightarrow> ns | _ \<Rightarrow> [])"

definition members_of :: "sys_ans \<Rightarrow> zip_member list" where
  "members_of a = (case a of AMembers ms \<Rightarrow> ms | _ \<Rightarrow> [])"

text \<open>\<^verbatim>\<open>fmt.Errorf("pre: %w", err)\<close> keeps what \<^verbatim>\<open>errors.Is\<close> sees.\<close>

fun wrap_error :: "string \<Rightarrow> host_error \<Rightarrow> host_error" where
  "wrap_error pre (ErrNotExist t) = ErrNotExist (pre @ t)"
| "wrap_error pre (ErrPermission t) = ErrPermission (pre @ t)"
| "wrap_error pre (ErrText t) = ErrText (pre @ t)"

text \<open>What a binding gives the script: no value, a value, or \<^verbatim>\<open>e.fail\<close> with code and message.\<close>

datatype file_value =
    FNil
  | FStr string
  | FBool bool
  | FNames "string list"
  | FInfo string int bool int
  | FCount nat

datatype file_out = FNone | FVal file_value | FFail int string

definition fail_with :: "host_error \<Rightarrow> string \<Rightarrow> file_out" where
  "fail_with err msg = FFail (classifyError (Some err)) msg"

text \<open>
  \<^verbatim>\<open>runBlocking\<close> without a session: the function runs at once and an error becomes a failure.
  With a session the same function runs on a worker goroutine (\<open>RunAsync\<close> of Session_State).
\<close>

definition runBlocking :: "(host_error + file_value) \<times> sys_op list \<Rightarrow> file_out \<times> sys_op list" where
  "runBlocking r =
     (case fst r of
        Inl err \<Rightarrow> (fail_with err (host_text err), snd r)
      | Inr v \<Rightarrow> (FVal v, snd r))"

section \<open>Writing and copying\<close>

definition temp_path :: "string \<Rightarrow> nat \<Rightarrow> string" where
  "temp_path dir n =
     (if dir \<noteq> [] \<and> last dir = slash then dir else dir @ [slash]) @ ''.kalua-'' @ itoa (int n) @ ''.tmp''"

text \<open>
  \<^verbatim>\<open>writeFileAtomic\<close>: the operating system picks the number in the temporary name. Once the
  file exists, an error removes it again.
\<close>

definition writeFileAtomic ::
  "sys_host \<Rightarrow> string \<Rightarrow> string \<Rightarrow> sys_op list \<Rightarrow> host_error option \<times> sys_op list" where
  "writeFileAtomic host dst data hist =
     (let dir = Dir dst; (a, hist1) = sys host (SCreateTemp dir) hist in
      case err_of a of
        Some err \<Rightarrow> (Some err, hist1)
      | None \<Rightarrow>
        (let tmp = temp_path dir (case a of ANum n \<Rightarrow> n | _ \<Rightarrow> 0);
             (a2, hist2) = sys host (SWrite tmp data) hist1 in
         case err_of a2 of
           Some err \<Rightarrow> (Some err, snd (sys host (SRemove tmp) (snd (sys host (SClose tmp) hist2))))
         | None \<Rightarrow>
           (let (a3, hist3) = sys host (SClose tmp) hist2 in
            case err_of a3 of
              Some err \<Rightarrow> (Some err, snd (sys host (SRemove tmp) hist3))
            | None \<Rightarrow>
              (let (a4, hist4) = sys host (SChmod tmp 420) hist3 in
               case err_of a4 of
                 Some err \<Rightarrow> (Some err, snd (sys host (SRemove tmp) hist4))
               | None \<Rightarrow>
                 (let (a5, hist5) = sys host (SRename tmp dst) hist4 in
                  case err_of a5 of
                    Some err \<Rightarrow> (Some err, snd (sys host (SRemove tmp) hist5))
                  | None \<Rightarrow> (None, hist5))))))"

definition O_RDONLY :: int where "O_RDONLY = 0"
definition O_WRONLY :: int where "O_WRONLY = 1"
definition O_RDWR :: int where "O_RDWR = 2"
definition O_CREATE :: int where "O_CREATE = 64"
definition O_TRUNC :: int where "O_TRUNC = 512"
definition O_APPEND :: int where "O_APPEND = 1024"

definition openFlags :: "string \<Rightarrow> int option" where
  "openFlags mode =
     (if mode = ''r'' then Some O_RDONLY
      else if mode = ''r+'' then Some O_RDWR
      else if mode = ''w'' then Some (O_WRONLY + O_CREATE + O_TRUNC)
      else if mode = ''w+'' then Some (O_RDWR + O_CREATE + O_TRUNC)
      else if mode = ''a'' then Some (O_WRONLY + O_CREATE + O_APPEND)
      else if mode = ''a+'' then Some (O_RDWR + O_CREATE + O_APPEND)
      else None)"

definition isReadMode :: "string \<Rightarrow> bool" where
  "isReadMode mode \<longleftrightarrow> mode = ''r'' \<or> mode = ''r+'' \<or> mode = ''a+''"

definition copyFile ::
  "sys_host \<Rightarrow> string \<Rightarrow> string \<Rightarrow> sys_op list \<Rightarrow> host_error option \<times> sys_op list" where
  "copyFile host src dst hist =
     (let (a1, hist1) = sys host (SOpen src O_RDONLY) hist in
      case err_of a1 of
        Some err \<Rightarrow> (Some err, hist1)
      | None \<Rightarrow>
        (let (a2, hist2) = sys host (SOpen dst (O_WRONLY + O_CREATE + O_TRUNC)) hist1 in
         case err_of a2 of
           Some err \<Rightarrow> (Some err, hist2)
         | None \<Rightarrow>
           (let (a3, hist3) = sys host (SCopy src dst) hist2 in
            case err_of a3 of
              Some err \<Rightarrow> (Some err, hist3)
            | None \<Rightarrow>
              (let (a4, hist4) = sys host (SClose dst) hist3 in
               case err_of a4 of
                 Some err \<Rightarrow> (Some err, hist4)
               | None \<Rightarrow>
                 (let (a5, hist5) = sys host (SStat src) hist4 in
                  case a5 of
                    AInfo nbytes isdir mtime mode \<Rightarrow> (None, snd (sys host (SChmod dst mode) hist5))
                  | _ \<Rightarrow> (None, hist5))))))"

section \<open>The bindings\<close>

definition with_path ::
  "(string \<Rightarrow> string option) \<Rightarrow> file_env \<Rightarrow> string \<Rightarrow>
   (string \<Rightarrow> sys_op list \<Rightarrow> file_out \<times> sys_op list) \<Rightarrow> sys_op list \<Rightarrow> file_out \<times> sys_op list" where
  "with_path links e path k hist =
     (case resolvePath links e path of
        Inl msg \<Rightarrow> (fail_with (ErrText msg) msg, hist)
      | Inr p \<Rightarrow> k p hist)"

definition try_path ::
  "(string \<Rightarrow> string option) \<Rightarrow> file_env \<Rightarrow> string \<Rightarrow>
   (string \<Rightarrow> sys_op list \<Rightarrow> (host_error + 'a) \<times> sys_op list) \<Rightarrow> sys_op list \<Rightarrow>
   (host_error + 'a) \<times> sys_op list" where
  "try_path links e path k hist =
     (case resolvePath links e path of
        Inl msg \<Rightarrow> (Inl (ErrText msg), hist)
      | Inr p \<Rightarrow> k p hist)"

definition file_open ::
  "(string \<Rightarrow> string) \<Rightarrow> (string \<Rightarrow> string option) \<Rightarrow> file_env \<Rightarrow> sys_host \<Rightarrow> string \<Rightarrow> string \<Rightarrow>
   string \<Rightarrow> sys_op list \<Rightarrow> file_out \<times> sys_op list" where
  "file_open quote links e host new_id path mode =
     with_path links e path (\<lambda>p hist.
       case openFlags mode of
         None \<Rightarrow> (FFail KErrorInvalidParam (''file error: invalid mode '' @ quote mode), hist)
       | Some flags \<Rightarrow>
           (let (a, hist1) = sys host (SOpen p flags) hist in
            case err_of a of
              Some err \<Rightarrow> (fail_with err (''file error: cannot open '' @ p @ '': '' @ host_text err), hist1)
            | None \<Rightarrow> (FVal (FStr new_id), hist1)))"

definition file_load ::
  "(string \<Rightarrow> string option) \<Rightarrow> file_env \<Rightarrow> sys_host \<Rightarrow> string \<Rightarrow> sys_op list \<Rightarrow>
   (host_error + string) \<times> sys_op list" where
  "file_load links e host path =
     try_path links e path (\<lambda>p hist.
       let (a, hist1) = sys host (SStat p) hist in
       case err_of a of
         Some err \<Rightarrow> (Inl (wrap_error (''file error: cannot stat '' @ path @ '': '') err), hist1)
       | None \<Rightarrow>
         (if maxFileSize e < (case a of AInfo nbytes d m mo \<Rightarrow> nbytes | _ \<Rightarrow> 0)
          then (Inl (ErrText (''file error: '' @ path @ '' exceeds max file size (''
                 @ itoa (maxFileSize e) @ '' bytes)'')), hist1)
          else (let (a2, hist2) = sys host (SReadFile p) hist1 in
                case err_of a2 of
                  Some err \<Rightarrow> (Inl (wrap_error (''file error: cannot read '' @ path @ '': '') err), hist2)
                | None \<Rightarrow> (Inr (bytes_of a2), hist2))))"

definition file_save ::
  "(string \<Rightarrow> string option) \<Rightarrow> file_env \<Rightarrow> sys_host \<Rightarrow> string \<Rightarrow> string \<Rightarrow> sys_op list \<Rightarrow>
   (host_error + file_value) \<times> sys_op list" where
  "file_save links e host path data =
     try_path links e path (\<lambda>p hist.
       case writeFileAtomic host p data hist of
         (Some err, hist1) \<Rightarrow> (Inl (wrap_error (''file error: cannot write '' @ path @ '': '') err), hist1)
       | (None, hist1) \<Rightarrow> (Inr FNil, hist1))"

definition fdOp ::
  "(string \<Rightarrow> string option) \<Rightarrow> file_env \<Rightarrow>
   (string \<Rightarrow> string \<Rightarrow> sys_op list \<Rightarrow> host_error option \<times> sys_op list) \<Rightarrow>
   string \<Rightarrow> string \<Rightarrow> sys_op list \<Rightarrow> file_out \<times> sys_op list" where
  "fdOp links e op srcArg dstArg =
     with_path links e srcArg (\<lambda>src.
       with_path links e dstArg (\<lambda>dst hist.
         case op src dst hist of
           (Some err, hist1) \<Rightarrow> (fail_with err (''file error: '' @ host_text err), hist1)
         | (None, hist1) \<Rightarrow> (FNone, hist1)))"

definition file_copy ::
  "(string \<Rightarrow> string option) \<Rightarrow> file_env \<Rightarrow> sys_host \<Rightarrow> string \<Rightarrow> string \<Rightarrow> sys_op list \<Rightarrow>
   file_out \<times> sys_op list" where
  "file_copy links e host = fdOp links e (copyFile host)"

definition file_move ::
  "(string \<Rightarrow> string option) \<Rightarrow> file_env \<Rightarrow> sys_host \<Rightarrow> string \<Rightarrow> string \<Rightarrow> sys_op list \<Rightarrow>
   file_out \<times> sys_op list" where
  "file_move links e host =
     fdOp links e (\<lambda>src dst hist. let (a, hist1) = sys host (SRename src dst) hist in (err_of a, hist1))"

definition file_delete ::
  "(string \<Rightarrow> string option) \<Rightarrow> file_env \<Rightarrow> sys_host \<Rightarrow> string \<Rightarrow> sys_op list \<Rightarrow> file_out \<times> sys_op list" where
  "file_delete links e host path =
     with_path links e path (\<lambda>p hist.
       let (a, hist1) = sys host (SRemove p) hist in
       case err_of a of
         Some err \<Rightarrow> (fail_with err (''file error: cannot delete '' @ p @ '': '' @ host_text err), hist1)
       | None \<Rightarrow> (FNone, hist1))"

definition file_exists ::
  "(string \<Rightarrow> string option) \<Rightarrow> file_env \<Rightarrow> sys_host \<Rightarrow> string \<Rightarrow> sys_op list \<Rightarrow> file_out \<times> sys_op list" where
  "file_exists links e host path =
     with_path links e path (\<lambda>p hist.
       let (a, hist1) = sys host (SStat p) hist in (FVal (FBool (err_of a = None)), hist1))"

definition file_mkdir ::
  "(string \<Rightarrow> string option) \<Rightarrow> file_env \<Rightarrow> sys_host \<Rightarrow> string \<Rightarrow> bool \<Rightarrow> sys_op list \<Rightarrow>
   file_out \<times> sys_op list" where
  "file_mkdir links e host path recursive =
     with_path links e path (\<lambda>p hist.
       let report = (\<lambda>(a, hist1). case err_of a of
             Some err \<Rightarrow> (fail_with err (''file error: cannot create directory '' @ p @ '': '' @ host_text err), hist1)
           | None \<Rightarrow> (FNone, hist1))
       in if recursive
          then (let (a, hist1) = sys host (SStat p) hist in
                if err_of a = None then (FNone, hist1) else report (sys host (SMkdirAll p) hist1))
          else report (sys host (SMkdir p) hist))"

definition file_listing ::
  "(string \<Rightarrow> string option) \<Rightarrow> file_env \<Rightarrow> sys_host \<Rightarrow> string \<Rightarrow> sys_op list \<Rightarrow> file_out \<times> sys_op list" where
  "file_listing links e host path =
     with_path links e path (\<lambda>p hist.
       let (a, hist1) = sys host (SReadDir p) hist in
       case err_of a of
         Some err \<Rightarrow> (fail_with err (''file error: cannot list '' @ p @ '': '' @ host_text err), hist1)
       | None \<Rightarrow> (FVal (FNames (sort (names_of a))), hist1))"

definition file_info ::
  "(string \<Rightarrow> string option) \<Rightarrow> file_env \<Rightarrow> sys_host \<Rightarrow> string \<Rightarrow> sys_op list \<Rightarrow> file_out \<times> sys_op list" where
  "file_info links e host path =
     with_path links e path (\<lambda>p hist.
       let (a, hist1) = sys host (SStat p) hist in
       case a of
         AErr err \<Rightarrow> (fail_with err (''file error: cannot stat '' @ p @ '': '' @ host_text err), hist1)
       | AInfo nbytes isdir mtime mode \<Rightarrow> (FVal (FInfo (Base p) nbytes isdir mtime), hist1)
       | _ \<Rightarrow> (FVal (FInfo (Base p) 0 False 0), hist1))"


section \<open>Archives\<close>

text \<open>
  \<^verbatim>\<open>zip_extract\<close> checks every member's target lexically: it must not leave the destination
  and must not be protected. The target's links are not resolved.
\<close>

definition zip_list ::
  "(string \<Rightarrow> string option) \<Rightarrow> file_env \<Rightarrow> sys_host \<Rightarrow> string \<Rightarrow> sys_op list \<Rightarrow>
   (host_error + file_value) \<times> sys_op list" where
  "zip_list links e host path =
     try_path links e path (\<lambda>p hist.
       let (a, hist1) = sys host (SOpenZip p) hist in
       case err_of a of
         Some err \<Rightarrow> (Inl (ErrText (''zip error: '' @ host_text err)), hist1)
       | None \<Rightarrow> (Inr (FNames (sort (map zname (members_of a)))), hist1))"

definition zip_add ::
  "(string \<Rightarrow> string option) \<Rightarrow> file_env \<Rightarrow> sys_host \<Rightarrow> string \<Rightarrow> (string \<times> string) list \<Rightarrow>
   sys_op list \<Rightarrow> (host_error + file_value) \<times> sys_op list" where
  "zip_add links e host path entries =
     try_path links e path (\<lambda>p hist.
       let (a, hist1) = sys host (SCreate p) hist in
       case err_of a of
         Some err \<Rightarrow> (Inl (ErrText (''zip error: cannot create '' @ path @ '': '' @ host_text err)), hist1)
       | None \<Rightarrow>
           (let (a2, hist2) = sys host (SZipWrite p (sort_key fst entries)) hist1 in
            case err_of a2 of
              Some err \<Rightarrow> (Inl (ErrText (''zip error: '' @ host_text err)), hist2)
            | None \<Rightarrow> (Inr FNil, hist2)))"

definition unsafe_path :: "(string \<Rightarrow> string) \<Rightarrow> string \<Rightarrow> host_error" where
  "unsafe_path quote name = ErrText (''zip error: unsafe path '' @ quote name)"

definition leaves :: "string \<Rightarrow> string \<Rightarrow> bool" where
  "leaves dest target = (case Rel dest target of None \<Rightarrow> True | Some rel \<Rightarrow> prefix dotdot rel)"

definition zip_error :: "host_error \<Rightarrow> host_error" where
  "zip_error err = ErrText (''zip error: '' @ host_text err)"

fun extract_loop ::
  "(string \<Rightarrow> string) \<Rightarrow> file_env \<Rightarrow> sys_host \<Rightarrow> string \<Rightarrow> zip_member list \<Rightarrow> nat \<Rightarrow> sys_op list \<Rightarrow>
   (host_error + file_value) \<times> sys_op list" where
  "extract_loop quote e host dest [] n hist = (Inr (FCount n), hist)"
| "extract_loop quote e host dest (zf # zfs) n hist =
     (let target = Join dest (zname zf) in
      if leaves dest target then (Inl (unsafe_path quote (zname zf)), hist)
      else if deniedPath e target then (Inl (unsafe_path quote (zname zf)), hist)
      else if zis_dir zf then
        (let (a, hist1) = sys host (SMkdirAll target) hist in
         case err_of a of
           Some err \<Rightarrow> (Inl (zip_error err), hist1)
         | None \<Rightarrow> extract_loop quote e host dest zfs n hist1)
      else
        (let (a, hist1) = sys host (SMkdirAll (Dir target)) hist in
         case err_of a of
           Some err \<Rightarrow> (Inl (zip_error err), hist1)
         | None \<Rightarrow>
           (case zopen zf of
              Some err \<Rightarrow> (Inl (zip_error err), hist1)
            | None \<Rightarrow>
              (let (a2, hist2) = sys host (SCreate target) hist1 in
               case err_of a2 of
                 Some err \<Rightarrow> (Inl (zip_error err), hist2)
               | None \<Rightarrow>
                 (let (a3, hist3) = sys host (SWrite target (zdata zf)) hist2 in
                  case err_of a3 of
                    Some err \<Rightarrow> (Inl (zip_error err), hist3)
                  | None \<Rightarrow> extract_loop quote e host dest zfs (Suc n) hist3)))))"

definition zip_extract ::
  "(string \<Rightarrow> string) \<Rightarrow> (string \<Rightarrow> string option) \<Rightarrow> file_env \<Rightarrow> sys_host \<Rightarrow> string \<Rightarrow> string \<Rightarrow>
   sys_op list \<Rightarrow> (host_error + file_value) \<times> sys_op list" where
  "zip_extract quote links e host path dir =
     try_path links e path (\<lambda>p. try_path links e dir (\<lambda>dest hist.
       let (a, hist1) = sys host (SOpenZip p) hist in
       case err_of a of
         Some err \<Rightarrow> (Inl (zip_error err), hist1)
       | None \<Rightarrow> extract_loop quote e host dest (members_of a) 0 hist1))"

section \<open>What a binding may touch\<close>

fun paths_of :: "sys_op \<Rightarrow> string list" where
  "paths_of (SOpen p fl) = [p]"
| "paths_of (SCreate p) = [p]"
| "paths_of (SReadFile p) = [p]"
| "paths_of (SStat p) = [p]"
| "paths_of (SRemove p) = [p]"
| "paths_of (SMkdir p) = [p]"
| "paths_of (SMkdirAll p) = [p]"
| "paths_of (SReadDir p) = [p]"
| "paths_of (SRename p q) = [p, q]"
| "paths_of (SCreateTemp d) = [d]"
| "paths_of (SWrite p s) = [p]"
| "paths_of (SClose p) = [p]"
| "paths_of (SChmod p m) = [p]"
| "paths_of (SCopy p q) = [p, q]"
| "paths_of (SOpenZip p) = [p]"
| "paths_of (SZipWrite p es) = [p]"

text \<open>\<open>touches ok h h'\<close>: \<open>h'\<close> continues \<open>h\<close>, and what is new only names paths that are \<open>ok\<close>.\<close>

definition touches :: "(string \<Rightarrow> bool) \<Rightarrow> sys_op list \<Rightarrow> sys_op list \<Rightarrow> bool" where
  "touches ok h h' \<longleftrightarrow> (\<exists>ops. h' = h @ ops \<and> (\<forall>x\<in>set ops. \<forall>p\<in>set (paths_of x). ok p))"

lemma touches_refl [simp]: "touches ok h h"
  by (simp add: touches_def)

lemma touches_sys: "touches ok h h' \<Longrightarrow> \<forall>p\<in>set (paths_of x). ok p \<Longrightarrow> touches ok h (snd (sys host x h'))"
  by (auto simp: touches_def sys_def)

lemma touches_op: "touches ok h h' \<Longrightarrow> sys host x h' = (a, h'') \<Longrightarrow> \<forall>p\<in>set (paths_of x). ok p \<Longrightarrow> touches ok h h''"
  using touches_sys [of ok h h' x host] by simp

lemma touches_mono: "touches ok h h' \<Longrightarrow> (\<And>p. ok p \<Longrightarrow> ok' p) \<Longrightarrow> touches ok' h h'"
  by (auto simp: touches_def)

lemma touches_trans: "touches ok h h' \<Longrightarrow> touches ok h' h'' \<Longrightarrow> touches ok h h''"
  by (auto simp: touches_def)

lemma touches_new: "touches ok [] h \<Longrightarrow> x \<in> set h \<Longrightarrow> p \<in> set (paths_of x) \<Longrightarrow> ok p"
  by (auto simp: touches_def)

definition in_roots :: "(string \<Rightarrow> string option) \<Rightarrow> file_env \<Rightarrow> string \<Rightarrow> bool" where
  "in_roots links e p \<longleftrightarrow>
     (\<exists>top\<in>set (workdir e # allowFS e). under (evalSymlinksBestEffort links (Clean top)) p)"

text \<open>Where the temporary file of a save lies: the target's directory, or a new name in it.\<close>

definition beside :: "string \<Rightarrow> string \<Rightarrow> bool" where
  "beside dst p \<longleftrightarrow> p = Dir dst \<or> (\<exists>n. p = temp_path (Dir dst) n)"

lemma touches_append [simp]: "touches ok h (h @ ops) \<longleftrightarrow> (\<forall>x\<in>set ops. \<forall>p\<in>set (paths_of x). ok p)"
  by (simp add: touches_def)

lemma touches_writeFileAtomic:
  "touches (\<lambda>p. p = dst \<or> beside dst p) h (snd (writeFileAtomic host dst data h))"
proof -
  have b: "beside dst (Dir dst)" "beside dst (temp_path (Dir dst) n)" for n
    by (auto simp: beside_def)
  show ?thesis
    by (simp add: writeFileAtomic_def sys_def Let_def b split: option.split)
qed

lemma touches_copyFile: "touches (\<lambda>p. p = src \<or> p = dst) h (snd (copyFile host src dst h))"
  by (simp add: copyFile_def sys_def Let_def split: sys_ans.split option.split)


definition touch_ok :: "(string \<Rightarrow> string option) \<Rightarrow> file_env \<Rightarrow> string \<Rightarrow> bool" where
  "touch_ok links e p \<longleftrightarrow> permitted links e p \<or> (\<exists>dst. permitted links e dst \<and> clean_abs dst \<and> beside dst p)"

lemma touches_with_path:
  assumes "\<And>p. resolvePath links e path = Inr p \<Longrightarrow> touches ok h (snd (k p h))"
  shows "touches ok h (snd (with_path links e path k h))"
  using assms by (auto simp: with_path_def split: sum.split)

lemma touches_try_path:
  assumes "\<And>p. resolvePath links e path = Inr p \<Longrightarrow> touches ok h (snd (k p h))"
  shows "touches ok h (snd (try_path links e path k h))"
  using assms by (auto simp: try_path_def split: sum.split)

text \<open>The bindings that take a path, as calls of a script.\<close>

datatype file_call =
    FOpen string string string
  | FLoad string
  | FSave string string
  | FCopy string string
  | FMove string string
  | FDelete string
  | FExists string
  | FMkdir string bool
  | FList string
  | FInfoOf string
  | FZipList string
  | FZipAdd string "(string \<times> string) list"

definition load_value :: "(host_error + string) \<times> sys_op list \<Rightarrow> (host_error + file_value) \<times> sys_op list" where
  "load_value r = (map_sum id FStr (fst r), snd r)"

fun run_file_call ::
  "(string \<Rightarrow> string) \<Rightarrow> (string \<Rightarrow> string option) \<Rightarrow> file_env \<Rightarrow> sys_host \<Rightarrow> file_call \<Rightarrow>
   sys_op list \<Rightarrow> file_out \<times> sys_op list" where
  "run_file_call quote links e host (FOpen new_id path mode) h = file_open quote links e host new_id path mode h"
| "run_file_call quote links e host (FLoad path) h = runBlocking (load_value (file_load links e host path h))"
| "run_file_call quote links e host (FSave path data) h = runBlocking (file_save links e host path data h)"
| "run_file_call quote links e host (FCopy src dst) h = file_copy links e host src dst h"
| "run_file_call quote links e host (FMove src dst) h = file_move links e host src dst h"
| "run_file_call quote links e host (FDelete path) h = file_delete links e host path h"
| "run_file_call quote links e host (FExists path) h = file_exists links e host path h"
| "run_file_call quote links e host (FMkdir path r) h = file_mkdir links e host path r h"
| "run_file_call quote links e host (FList path) h = file_listing links e host path h"
| "run_file_call quote links e host (FInfoOf path) h = file_info links e host path h"
| "run_file_call quote links e host (FZipList path) h = runBlocking (zip_list links e host path h)"
| "run_file_call quote links e host (FZipAdd path es) h = runBlocking (zip_add links e host path es h)"

lemma snd_runBlocking [simp]: "snd (runBlocking r) = snd r"
  by (simp add: runBlocking_def split: sum.split)

lemma snd_load_value [simp]: "snd (load_value r) = snd r"
  by (simp add: load_value_def)

lemma touches_file_call:
  assumes s: "links_ok links" "IsAbs cwd" "e = sandbox_env links cwd allow deny cap"
  shows "touches (touch_ok links e) h (snd (run_file_call quote links e host c h))"
proof -
  have ok: "resolvePath links e path = Inr p \<Longrightarrow> permitted links e p \<and> clean_abs p" for path p
    using resolvePath_iff [OF s, of path p] clean_abs_real_path [OF s(1) sandbox_env_clean(1) [OF s], of path]
    by auto
  have okt: "resolvePath links e path = Inr p \<Longrightarrow> touch_ok links e p" for path p
    using ok by (simp add: touch_ok_def)
  have wr: "resolvePath links e path = Inr p \<Longrightarrow> touches (touch_ok links e) h (snd (writeFileAtomic host p d h))" for path p d
    using touches_writeFileAtomic [of p h host d] by (rule touches_mono) (use ok in \<open>auto simp: touch_ok_def\<close>)
  have cp: "resolvePath links e path = Inr p \<Longrightarrow> resolvePath links e path' = Inr q \<Longrightarrow>
      touches (touch_ok links e) h (snd (copyFile host p q h))" for path p path' q
    using touches_copyFile [of p q h host] by (rule touches_mono) (use okt in auto)
  show ?thesis
  proof (cases c)
    case (FSave path data)
    then show ?thesis
      using wr by (auto simp: file_save_def intro!: touches_try_path split: prod.split option.split)
         (metis snd_conv)+
  next
    case (FCopy src dst)
    then show ?thesis
      using cp by (auto simp: file_copy_def fdOp_def intro!: touches_with_path split: prod.split option.split)
         (metis snd_conv)+
  qed (auto simp: file_open_def file_load_def file_move_def fdOp_def file_delete_def file_exists_def
      file_mkdir_def file_listing_def file_info_def zip_list_def zip_add_def Let_def sys_def okt
      intro!: touches_with_path touches_try_path split: option.split sys_ans.split)
qed


section \<open>Temporary files\<close>

lemma comps_Dir:
  assumes "clean_abs p" "comps p = cs @ [c]"
  shows "comps (Dir p) = cs" "Dir p = abs_path cs"
proof -
  have p: "p = abs_path (cs @ [c])" "list_all proper cs" "proper c"
    using assms abs_path_comps [of p] by (auto simp: clean_abs_def)
  have ns: "slash \<notin> set c" using p(3) by (simp add: proper_def)
  have tl: "takeWhile (\<lambda>x. x \<noteq> slash) (rev (a @ slash # c)) = rev c"
    "dropWhile (\<lambda>x. x \<noteq> slash) (rev (a @ slash # c)) = slash # rev a" for a
    using ns by (simp_all add: takeWhile_append dropWhile_append)
  have j: "join_with [slash] (ds @ [c]) = join_with [slash] ds @ slash # c" if "ds \<noteq> []" for ds
    using that by (induction "[slash]" ds rule: join_with.induct) auto
  have "Dir p = abs_path cs"
  proof (cases "cs = []")
    case True
    then have "dir_part p = ''/''" using tl(2) [of "[]"] p by (simp add: dir_part_def abs_path_def)
    then show ?thesis using True by (simp add: Dir_def Clean_def IsAbs_def)
  next
    case False
    have "dir_part p = slash # join_with [slash] cs @ [slash]"
      using tl(2) [of "slash # join_with [slash] cs"] j [OF False] p by (simp add: dir_part_def abs_path_def)
    moreover have "split_on slash (join_with [slash] cs) = cs"
      using False p(2) by (intro split_join_with) (auto simp: list_all_iff proper_def)
    moreover have "clean_comps True st (cs @ [[]]) = rev st @ cs" for st
      using p(2) by (induction cs arbitrary: st) (auto simp: proper_def)
    ultimately show ?thesis by (simp add: Dir_def Clean_def IsAbs_def split_on_end)
  qed
  with p(2) show "comps (Dir p) = cs" "Dir p = abs_path cs" by (simp_all add: comps_abs_path)
qed

lemma proper_temp: "proper (''.kalua-'' @ itoa (int n) @ ''.tmp'')"
proof -
  have "slash \<notin> set (itoa (int n))"
    using itoa_digits [of "int n"] by (auto simp: list_all_iff is_digit_def)
  then show ?thesis by (auto simp: proper_def dotdot_def)
qed

lemma comps_temp: "list_all proper cs \<Longrightarrow> comps (temp_path (abs_path cs) n) = cs @ [''.kalua-'' @ itoa (int n) @ ''.tmp'']"
proof -
  assume p: "list_all proper cs"
  let ?t = "''.kalua-'' @ itoa (int n) @ ''.tmp''"
  have j: "join_with [slash] (ds @ [?t]) = join_with [slash] ds @ slash # ?t" if "ds \<noteq> []" for ds
    using that by (induction "[slash]" ds rule: join_with.induct) auto
  have "last (join_with [slash] cs) \<noteq> slash \<and> join_with [slash] cs \<noteq> []" if "cs \<noteq> []"
  proof -
    have "split_on slash (join_with [slash] cs) = cs"
      using that p by (intro split_join_with) (auto simp: list_all_iff proper_def)
    moreover have "[] \<notin> set cs" using p by (auto simp: list_all_iff proper_def)
    ultimately show ?thesis using that split_ends [of "join_with [slash] cs" slash]
      by (cases "join_with [slash] cs = []") auto
  qed
  then have "temp_path (abs_path cs) n = abs_path (cs @ [?t])"
    using j [of cs] by (cases "cs = []") (auto simp: temp_path_def abs_path_def)
  with p proper_temp show ?thesis by (simp add: comps_abs_path)
qed

text \<open>A save to a path inside a root keeps its temporary file inside too, unless the path is the root itself.\<close>

lemma beside_in_roots:
  assumes "clean_abs dst" "in_roots links e dst" "beside dst p"
    "\<forall>top\<in>set (workdir e # allowFS e). comps dst \<noteq> comps (evalSymlinksBestEffort links (Clean top))"
  shows "in_roots links e p"
proof -
  obtain top where t: "top \<in> set (workdir e # allowFS e)" "under (evalSymlinksBestEffort links (Clean top)) dst"
    using assms(2) by (auto simp: in_roots_def)
  let ?r = "comps (evalSymlinksBestEffort links (Clean top))"
  have pre: "prefix ?r (comps dst)" "?r \<noteq> comps dst" using t assms(4) by (auto simp: under_def)
  then obtain cs c where cs: "comps dst = cs @ [c]" "prefix ?r cs"
    by (cases "comps dst" rule: rev_cases) auto
  have "list_all proper cs" using assms(1) cs by (simp add: clean_abs_def)
  then have "under (evalSymlinksBestEffort links (Clean top)) p"
    using assms(3) cs comps_Dir [OF assms(1) cs(1)] by (auto simp: beside_def under_def comps_temp)
  with t(1) show ?thesis by (auto simp: in_roots_def)
qed


lemma touches_extract:
  assumes "clean_abs dest" "\<forall>d\<in>set (denyFS e). clean_abs d"
  shows "touches (\<lambda>p. \<exists>t. under dest t \<and> (\<forall>d\<in>set (denyFS e). \<not> under d t) \<and> (p = t \<or> p = Dir t))
    h (snd (extract_loop quote e host dest ms n h))"
proof -
  let ?ok = "\<lambda>p. \<exists>t. under dest t \<and> (\<forall>d\<in>set (denyFS e). \<not> under d t) \<and> (p = t \<or> p = Dir t)"
  have tok: "?ok t" "?ok (Dir t)" if "\<not> leaves dest t" "\<not> deniedPath e t" "clean_abs t" for t
  proof -
    have "inside_of dest t"
      using that(1) by (auto simp: leaves_def inside_of_def inside_def dotdot_def prefix_def split: option.splits)
    then have "under dest t" using assms(1) that(3) by (simp add: inside_of_under)
    moreover have "\<forall>d\<in>set (denyFS e). \<not> under d t"
      using that(2,3) assms(2) by (auto simp: deniedPath_def list_ex_iff inside_of_under)
    ultimately show "?ok t" "?ok (Dir t)" by blast+
  qed
  have step: "touches ?ok h h' \<Longrightarrow> touches ?ok h (snd (extract_loop quote e host dest ms n h'))" for h'
  proof (induction ms arbitrary: n h')
    case (Cons zf zfs)
    let ?t = "Join dest (zname zf)"
    show ?case
    proof (cases "leaves dest ?t \<or> deniedPath e ?t")
      case True
      then show ?thesis using Cons.prems by (auto simp: Let_def)
    next
      case False
      have "clean_abs ?t" using assms(1) by (intro clean_abs_Join clean_abs_IsAbs)
      with False tok [of ?t] have k: "?ok ?t" "?ok (Dir ?t)" by auto
      obtain a1 h1 where 1: "sys host (SMkdirAll ?t) h' = (a1, h1)" by (cases "sys host (SMkdirAll ?t) h'")
      obtain a2 h2 where 2: "sys host (SMkdirAll (Dir ?t)) h' = (a2, h2)" by (cases "sys host (SMkdirAll (Dir ?t)) h'")
      obtain a3 h3 where 3: "sys host (SCreate ?t) h2 = (a3, h3)" by (cases "sys host (SCreate ?t) h2")
      obtain a4 h4 where 4: "sys host (SWrite ?t (zdata zf)) h3 = (a4, h4)" by (cases "sys host (SWrite ?t (zdata zf)) h3")
      have t1: "touches ?ok h h1" by (rule touches_op [OF Cons.prems 1]) (simp add: k(1))
      have t2: "touches ?ok h h2" by (rule touches_op [OF Cons.prems 2]) (simp add: k(2))
      have t3: "touches ?ok h h3" by (rule touches_op [OF t2 3]) (simp add: k(1))
      have t4: "touches ?ok h h4" by (rule touches_op [OF t3 4]) (simp add: k(1))
      show ?thesis
        using False t1 t2 t3 t4 Cons.IH [OF t1] Cons.IH [OF t4]
        by (simp add: Let_def 1 2 3 4 split: option.split)
    qed
  qed simp
  show ?thesis by (rule step) simp
qed

section \<open>Properties\<close>

text \<open>C33: 
  Whatever a file binding asks of the operating system names a permitted path - inside the
  real path of a root and not inside a protected one - or the directory or name of the temporary
  file of a save, and that lies inside a root too unless the saved path is itself a root. This
  holds for every call, every answer of the operating system, and every link on disk.
\<close>

theorem files_stay_inside:
  assumes "links_ok links" "IsAbs cwd" "e = sandbox_env links cwd allow deny cap"
    "x \<in> set (snd (run_file_call quote links e host c []))" "p \<in> set (paths_of x)"
  shows "permitted links e p \<or>
    (\<exists>dst. permitted links e dst \<and> beside dst p \<and>
       (in_roots links e p \<or> (\<exists>top\<in>set (workdir e # allowFS e). dst = evalSymlinksBestEffort links (Clean top))))"
proof -
  have "touch_ok links e p"
    using touches_new [OF touches_file_call [OF assms(1-3)] assms(4,5)] .
  then consider "permitted links e p"
    | dst where "permitted links e dst" "clean_abs dst" "beside dst p"
    by (auto simp: touch_ok_def)
  then show ?thesis
  proof cases
    case 2
    have "in_roots links e dst" using 2(1) by (simp add: permitted_def in_roots_def)
    have c: "dst = evalSymlinksBestEffort links (Clean top)"
      if "top \<in> set (workdir e # allowFS e)" "comps dst = comps (evalSymlinksBestEffort links (Clean top))" for top
    proof -
      have "IsAbs top" using that(1) sandbox_env_clean [OF assms(1-3)] by (auto dest: clean_abs_IsAbs)
      then have "IsAbs (evalSymlinksBestEffort links (Clean top))"
        by (rule clean_abs_IsAbs [OF clean_abs_eval [OF assms(1) clean_abs_Clean]])
      with 2(2) that(2) show ?thesis by (metis abs_path_comps clean_abs_IsAbs)
    qed
    have "in_roots links e p \<or> (\<exists>top\<in>set (workdir e # allowFS e). dst = evalSymlinksBestEffort links (Clean top))"
      using beside_in_roots [OF 2(2) \<open>in_roots links e dst\<close> 2(3)] c by metis
    with 2 show ?thesis by blast
  qed simp
qed

text \<open>C36: 
  Extracting an archive: after the archive is opened, every path is a target below the
  destination that is not protected, or such a target's directory, whatever the members are called.
\<close>

theorem zip_extract_stays:
  assumes "links_ok links" "IsAbs cwd" "e = sandbox_env links cwd allow deny cap"
    "x \<in> set (snd (zip_extract quote links e host path dir []))" "p \<in> set (paths_of x)"
  shows "(x = SOpenZip p \<and> resolvePath links e path = Inr p) \<or>
    (\<exists>dest t. resolvePath links e dir = Inr dest \<and> under dest t \<and> (\<forall>d\<in>set (denyFS e). \<not> under d t)
       \<and> (p = t \<or> p = Dir t))"
proof -
  obtain z where z: "resolvePath links e path = Inr z"
    using assms(4) by (cases "resolvePath links e path") (auto simp: zip_extract_def try_path_def)
  obtain dest where d: "resolvePath links e dir = Inr dest"
    using assms(4) z by (cases "resolvePath links e dir") (auto simp: zip_extract_def try_path_def)
  have "clean_abs dest"
    using d resolvePath_iff [OF assms(1-3), of dir dest]
      clean_abs_real_path [OF assms(1) sandbox_env_clean(1) [OF assms(1-3)], of dir] by auto
  then have loop: "touches (\<lambda>p. \<exists>t. under dest t \<and> (\<forall>d\<in>set (denyFS e). \<not> under d t) \<and> (p = t \<or> p = Dir t))
      [SOpenZip z] (snd (extract_loop quote e host dest ms n [SOpenZip z]))" for ms n
    using sandbox_env_clean(3) [OF assms(1-3)] by (rule touches_extract)
  from assms(4) z d obtain ms where
    "x \<in> set (snd (extract_loop quote e host dest ms 0 [SOpenZip z])) \<or> x = SOpenZip z"
    by (auto simp: zip_extract_def try_path_def sys_def split: option.splits)
  then show ?thesis
    using loop [of ms 0] z d assms(5) by (auto simp: touches_def)
qed

definition demo_links :: "string \<Rightarrow> string option" where
  "demo_links p =
     (if p \<in> set [''/w'', ''/w/conf'', ''/w/conf/secret''] then Some p
      else if p = ''/w/out'' then Some ''/etc''
      else None)"

definition demo_env :: file_env where
  "demo_env = sandbox_env demo_links ''/w'' [] [''/w/conf/secret''] 1000"

definition demo_zip :: sys_host where
  "demo_zip hist x =
     (case x of SOpenZip p \<Rightarrow> AMembers [\<lparr>zname = ''out/passwd'', zis_dir = False, zopen = None, zdata = ''x''\<rparr>]
      | SStat p \<Rightarrow> AInfo 1 False 0 420
      | SReadFile p \<Rightarrow> ABytes ''key''
      | SCreateTemp d \<Rightarrow> ANum 7
      | _ \<Rightarrow> AOk)"

theorem zip_extract_follows_links:
  "resolvePath demo_links demo_env ''out/passwd''
     = Inl ''file error: filesystem access denied: out/passwd is outside the allowed roots''
   \<and> SCreate ''/w/out/passwd'' \<in> set (snd (zip_extract id demo_links demo_env demo_zip ''a.zip'' ''.'' []))
   \<and> real_path demo_links demo_env ''/w/out/passwd'' = ''/etc/passwd''"
  by code_simp

theorem move_around_protection:
  "resolvePath demo_links demo_env ''conf/secret''
     = Inl ''file error: access denied: conf/secret is a protected host artefact''
   \<and> run_file_call id demo_links demo_env demo_zip (FMove ''conf'' ''open'') []
     = (FNone, [SRename ''/w/conf'' ''/w/open''])
   \<and> fst (file_load demo_links demo_env demo_zip ''open/secret'' []) = Inr ''key''"
  by code_simp

theorem save_to_root_leaves_it:
  "snd (run_file_call id demo_links demo_env demo_zip (FSave ''.'' ''data'') [])
     = [SCreateTemp ''/'', SWrite ''/.kalua-7.tmp'' ''data'', SClose ''/.kalua-7.tmp'',
        SChmod ''/.kalua-7.tmp'' 420, SRename ''/.kalua-7.tmp'' ''/w'']
   \<and> \<not> in_roots demo_links demo_env ''/.kalua-7.tmp''"
  by code_simp


lemma demo_links_ok: "links_ok demo_links"
proof -
  have "clean_abs ''/etc''" by code_simp
  then show ?thesis by (auto simp: links_ok_def demo_links_def split: if_splits)
qed

lemma demo_abs: "IsAbs ''/w''"
  by (simp add: IsAbs_def)

theorem files_stay_inside_witness:
  "permitted demo_links demo_env ''/w/a.txt'' \<or>
   (\<exists>dst. permitted demo_links demo_env dst \<and> beside dst ''/w/a.txt'' \<and>
      (in_roots demo_links demo_env ''/w/a.txt''
       \<or> (\<exists>top\<in>set (workdir demo_env # allowFS demo_env). dst = evalSymlinksBestEffort demo_links (Clean top))))"
proof -
  have "SRemove ''/w/a.txt'' \<in> set (snd (run_file_call id demo_links demo_env demo_zip (FDelete ''x/../a.txt'') []))"
    by code_simp
  then show ?thesis
    by (rule files_stay_inside [OF demo_links_ok demo_abs demo_env_def]) simp
qed

theorem zip_extract_stays_witness:
  "(SCreate ''/w/out/passwd'' = SOpenZip ''/w/out/passwd'' \<and> resolvePath demo_links demo_env ''a.zip'' = Inr ''/w/out/passwd'') \<or>
   (\<exists>dest t. resolvePath demo_links demo_env ''.'' = Inr dest \<and> under dest t
      \<and> (\<forall>d\<in>set (denyFS demo_env). \<not> under d t) \<and> (''/w/out/passwd'' = t \<or> ''/w/out/passwd'' = Dir t))"
proof -
  have "SCreate ''/w/out/passwd'' \<in> set (snd (zip_extract id demo_links demo_env demo_zip ''a.zip'' ''.'' []))"
    by code_simp
  then show ?thesis
    by (rule zip_extract_stays [OF demo_links_ok demo_abs demo_env_def]) simp
qed

end
