(* ===== verification/File_Handles.thy ===== *)
theory File_Handles
  imports File_Ops
begin

text \<open>
  Open file handles of \<^verbatim>\<open>internal/bindings/files.go\<close>: the table of handles and reading
  through one. A handle opened for reading has two readers of the same file: the descriptor, which
  \<^verbatim>\<open>file_read\<close> uses, and a buffered reader of 4096 bytes on top of it, which
  \<^verbatim>\<open>file_read_line\<close> uses. The file does not change while it is read.
\<close>

section \<open>Handles\<close>

text \<open>\<open>rest\<close> is what the descriptor has not read yet, \<open>buf\<close> what the buffered reader holds.\<close>

record read_handle =
  on_path :: string
  rest :: string
  buf :: string
  can_read :: bool
  has_reader :: bool

type_synonym handles = "(string \<times> read_handle) list"

datatype read_out = RVal lua_value | RNone | RFail int string | RPanic

definition new_handle :: "string \<Rightarrow> string \<Rightarrow> string \<Rightarrow> read_handle" where
  "new_handle path mode content =
     \<lparr>on_path = path, rest = (if mode \<in> {''w'', ''w+''} then [] else content), buf = [],
      can_read = (mode \<noteq> ''w'' \<and> mode \<noteq> ''a''), has_reader = isReadMode mode\<rparr>"

definition open_handle :: "string \<Rightarrow> read_handle \<Rightarrow> handles \<Rightarrow> handles" where
  "open_handle new_id h hs = AList.update new_id h hs"

definition lookupFileHandle :: "handles \<Rightarrow> string \<Rightarrow> string + read_handle" where
  "lookupFileHandle hs hid =
     (case map_of hs hid of
        None \<Rightarrow> Inl (''file error: handle not found: '' @ hid)
      | Some h \<Rightarrow> Inr h)"

definition file_close :: "string \<Rightarrow> handles \<Rightarrow> read_out \<times> handles" where
  "file_close hid hs =
     (case map_of hs hid of
        None \<Rightarrow> (RFail KErrorNotFound (''file error: handle not found: '' @ hid), hs)
      | Some h \<Rightarrow> (RNone, AList.delete hid hs))"

definition file_write ::
  "sys_host \<Rightarrow> handles \<Rightarrow> string \<Rightarrow> string \<Rightarrow> sys_op list \<Rightarrow> read_out \<times> sys_op list" where
  "file_write host hs hid data hist =
     (case lookupFileHandle hs hid of
        Inl msg \<Rightarrow> (RFail KErrorNotFound msg, hist)
      | Inr h \<Rightarrow>
          (let (a, hist1) = sys host (SWrite (on_path h) data) hist in
           case err_of a of
             Some err \<Rightarrow> (RFail (classifyError (Some err)) (''file error: write failed: '' @ host_text err), hist1)
           | None \<Rightarrow> (RNone, hist1)))"

section \<open>Reading\<close>

text \<open>\<^verbatim>\<open>io.ReadAll\<close> on the descriptor, or one \<^verbatim>\<open>Read\<close> of at most \<open>n\<close> bytes.\<close>

definition read_descriptor :: "host_error \<Rightarrow> int \<Rightarrow> read_handle \<Rightarrow> read_out \<times> read_handle" where
  "read_descriptor refused n h =
     (if n = 0 then (RVal (LString []), h)
      else if \<not> can_read h
      then (RFail (classifyError (Some refused)) (''file error: read failed: '' @ host_text refused), h)
      else if n < 0 then (RVal (LString (rest h)), h\<lparr>rest := []\<rparr>)
      else (RVal (LString (take (nat n) (rest h))), h\<lparr>rest := drop (nat n) (rest h)\<rparr>))"

definition file_read ::
  "host_error \<Rightarrow> string \<Rightarrow> int \<Rightarrow> handles \<Rightarrow> read_out \<times> handles" where
  "file_read refused hid n hs =
     (case lookupFileHandle hs hid of
        Inl msg \<Rightarrow> (RFail KErrorNotFound msg, hs)
      | Inr h \<Rightarrow> (let (r, h') = read_descriptor refused n h in (r, AList.update hid h' hs)))"

abbreviation newline :: char where "newline \<equiv> CHR 0x0A"

definition buffer_size :: nat where "buffer_size = 4096"

text \<open>
  \<^verbatim>\<open>ReadString('\n')\<close>: up to the newline when the buffer holds one; a full buffer is
  moved to the result; otherwise the buffer is filled from the descriptor. True at the end of the
  file.
\<close>

function read_string :: "string \<Rightarrow> string \<Rightarrow> string \<Rightarrow> string \<times> string \<times> string \<times> bool" where
  "read_string acc b r =
     (if newline \<in> set b
      then (acc @ takeWhile (\<lambda>c. c \<noteq> newline) b @ [newline], tl (dropWhile (\<lambda>c. c \<noteq> newline) b), r, False)
      else if r = [] then (acc @ b, [], [], True)
      else if buffer_size \<le> length b then read_string (acc @ b) [] r
      else read_string acc (b @ take (buffer_size - length b) r) (drop (buffer_size - length b) r))"
  by pat_completeness auto
termination
  by (relation "measure (\<lambda>(acc, b, r). 2 * length r + length b)")
    (auto simp: buffer_size_def min_def length_greater_0_conv [symmetric] simp del: length_greater_0_conv)

declare read_string.simps [simp del]

definition trim_char :: "char \<Rightarrow> string \<Rightarrow> string" where
  "trim_char c s = (if s \<noteq> [] \<and> last s = c then butlast s else s)"

definition read_line :: "read_handle \<Rightarrow> read_out \<times> read_handle" where
  "read_line h =
     (if \<not> has_reader h then (RPanic, h)
      else (let (line, b, r, eof) = read_string [] (buf h) (rest h); h' = h\<lparr>buf := b, rest := r\<rparr>
            in if eof \<and> line = [] then (RVal LNil, h')
               else (RVal (LString (trim_char (CHR 0x0D) (trim_char newline line))), h')))"

definition file_read_line :: "string \<Rightarrow> handles \<Rightarrow> read_out \<times> handles" where
  "file_read_line hid hs =
     (case lookupFileHandle hs hid of
        Inl msg \<Rightarrow> (RFail KErrorNotFound msg, hs)
      | Inr h \<Rightarrow> (let (r, h') = read_line h in (r, AList.update hid h' hs)))"

section \<open>Lines\<close>

text \<open>The contract of reading by lines, over the text not yet delivered.\<close>

definition unread :: "read_handle \<Rightarrow> string" where
  "unread h = buf h @ rest h"

definition next_line :: "string \<Rightarrow> lua_value \<times> string" where
  "next_line s =
     (if s = [] then (LNil, [])
      else (LString (trim_char (CHR 0x0D) (takeWhile (\<lambda>c. c \<noteq> newline) s)),
            tl (dropWhile (\<lambda>c. c \<noteq> newline) s)))"

lemma read_string_found:
  "newline \<in> set (b @ r) \<Longrightarrow> \<exists>b' r'. read_string acc b r =
     (acc @ takeWhile (\<lambda>c. c \<noteq> newline) (b @ r) @ [newline], b', r', False)
     \<and> b' @ r' = tl (dropWhile (\<lambda>c. c \<noteq> newline) (b @ r))"
proof (induction acc b r rule: read_string.induct)
  case (1 acc b r)
  show ?case
  proof (cases "newline \<in> set b")
    case True
    then have "dropWhile (\<lambda>c. c \<noteq> newline) b \<noteq> []" by (auto simp: dropWhile_eq_Nil_conv)
    moreover have "takeWhile (\<lambda>c. c \<noteq> newline) (b @ r) = takeWhile (\<lambda>c. c \<noteq> newline) b"
      "dropWhile (\<lambda>c. c \<noteq> newline) (b @ r) = dropWhile (\<lambda>c. c \<noteq> newline) b @ r"
      using True by (auto intro: takeWhile_append1 dropWhile_append1)
    ultimately show ?thesis
      using True by (simp add: read_string.simps [of acc b r])
  next
    case False
    with "1.prems" have r: "r \<noteq> []" "newline \<in> set r" by auto
    have b: "takeWhile (\<lambda>c. c \<noteq> newline) (b @ s) = b @ takeWhile (\<lambda>c. c \<noteq> newline) s"
      "dropWhile (\<lambda>c. c \<noteq> newline) (b @ s) = dropWhile (\<lambda>c. c \<noteq> newline) s" for s
      using False by (auto simp: takeWhile_append dropWhile_append)
    show ?thesis
    proof (cases "buffer_size \<le> length b")
      case True
      with "1.IH"(1) [OF False r(1) True] r show ?thesis
        using False by (simp add: read_string.simps [of acc b r] b)
    next
      case f: False
      have "newline \<in> set ((b @ take (buffer_size - length b) r) @ drop (buffer_size - length b) r)"
        (is "_ \<in> set ?t")
      proof -
        have "?t = b @ r" by simp
        then show ?thesis using r by simp
      qed
      from "1.IH"(2) [OF False r(1) f this] show ?thesis
        using False f r by (simp add: read_string.simps [of acc b r])
    qed
  qed
qed

lemma read_string_end:
  "newline \<notin> set (b @ r) \<Longrightarrow> read_string acc b r = (acc @ b @ r, [], [], True)"
proof (induction acc b r rule: read_string.induct)
  case (1 acc b r)
  then have n: "newline \<notin> set b" by simp
  consider "r = []" | "r \<noteq> []" "buffer_size \<le> length b" | "r \<noteq> []" "\<not> buffer_size \<le> length b" by blast
  then show ?case
  proof cases
    case 1
    with n show ?thesis by (simp add: read_string.simps [of acc b "[]"])
  next
    case 2
    with "1.IH"(1) [OF n 2] "1.prems" n show ?thesis by (simp add: read_string.simps [of acc b r])
  next
    case 3
    have "newline \<notin> set ((b @ take (buffer_size - length b) r) @ drop (buffer_size - length b) r)"
      using "1.prems" by (auto dest: in_set_takeD in_set_dropD)
    with "1.IH"(2) [OF n 3] n 3 show ?thesis by (simp add: read_string.simps [of acc b r])
  qed
qed

lemma next_line_read:
  assumes "has_reader h"
  shows "fst (read_line h) = RVal (fst (next_line (unread h)))
    \<and> unread (snd (read_line h)) = snd (next_line (unread h))"
proof (cases "newline \<in> set (unread h)")
  case True
  then obtain b' r' where r: "read_string [] (buf h) (rest h) =
      (takeWhile (\<lambda>c. c \<noteq> newline) (unread h) @ [newline], b', r', False)"
    "b' @ r' = tl (dropWhile (\<lambda>c. c \<noteq> newline) (unread h))"
    using read_string_found [of "buf h" "rest h" "[]"] by (auto simp: unread_def)
  have "unread h \<noteq> []" using True by auto
  with r assms show ?thesis by (simp add: read_line_def next_line_def trim_char_def unread_def)
next
  case False
  then have r: "read_string [] (buf h) (rest h) = (unread h, [], [], True)"
    using read_string_end [of "buf h" "rest h" "[]"] by (simp add: unread_def)
  have t: "takeWhile (\<lambda>c. c \<noteq> newline) (unread h) = unread h" "dropWhile (\<lambda>c. c \<noteq> newline) (unread h) = []"
    using False by (auto simp: takeWhile_eq_all_conv dropWhile_eq_Nil_conv)
  have "unread h \<noteq> [] \<Longrightarrow> last (unread h) \<noteq> newline" using False last_in_set by metis
  then have "trim_char newline (unread h) = unread h" by (auto simp: trim_char_def)
  moreover have "unread (h\<lparr>buf := [], rest := []\<rparr>) = []" by (simp add: unread_def)
  moreover have "next_line (unread h) =
      (if unread h = [] then (LNil, []) else (LString (trim_char (CHR 0x0D) (unread h)), []))"
    unfolding next_line_def t by simp
  ultimately show ?thesis using r assms by (simp add: read_line_def Let_def)
qed



text \<open>
  The two readers do not know of each other: after one line of a file of at most 4096 bytes the
  descriptor is at the end, so \<^verbatim>\<open>file_read\<close> returns nothing although lines are left.
\<close>

theorem file_read_after_line:
  assumes "isReadMode mode" "newline \<in> set content" "length content \<le> buffer_size"
  shows "(let h = snd (read_line (new_handle path mode content)) in
      read_descriptor refused (-1) h = (RVal (LString []), h)
      \<and> unread h = tl (dropWhile (\<lambda>c. c \<noteq> newline) content))"
proof -
  let ?h = "new_handle path mode content"
  have h: "has_reader ?h" "unread ?h = content" "buf ?h = []" "rest ?h = content" "can_read ?h"
    using assms(1) by (auto simp: new_handle_def unread_def isReadMode_def)
  have ne: "content \<noteq> []" using assms(2) by auto
  have "read_string [] [] content = read_string [] content []"
    using ne assms(3) by (subst read_string.simps) (simp add: buffer_size_def)
  then have "rest (snd (read_line ?h)) = []"
    using h assms(2) by (simp add: read_line_def read_string.simps [of "[]" content "[]"])
  moreover have "can_read (snd (read_line ?h))"
    using h by (simp add: read_line_def Let_def split: prod.split)
  moreover have "unread (snd (read_line ?h)) = tl (dropWhile (\<lambda>c. c \<noteq> newline) content)"
    using next_line_read [OF h(1)] h(2) ne by (simp add: next_line_def)
  ultimately show ?thesis by (simp add: read_descriptor_def Let_def)
qed

theorem file_read_after_line_witness:
  "(let h = snd (read_line (new_handle ''/w/a'' ''r'' [CHR ''x'', CHR 0x0A, CHR ''y''])) in
      read_descriptor (ErrText []) (-1) h = (RVal (LString []), h) \<and> unread h = ''y'')"
  using file_read_after_line [of "''r''" "[CHR ''x'', CHR 0x0A, CHR ''y'']" "''/w/a''" "ErrText []"]
  by (simp add: isReadMode_def buffer_size_def)

text \<open>A closed handle is gone for every operation, and no other handle changes.\<close>

lemma closed_handle:
  "map_of hs hid = Some h \<Longrightarrow> hs' = snd (file_close hid hs) \<Longrightarrow>
   file_read refused hid n hs' = (RFail KErrorNotFound (''file error: handle not found: '' @ hid), hs')
   \<and> file_read_line hid hs' = (RFail KErrorNotFound (''file error: handle not found: '' @ hid), hs')
   \<and> (k \<noteq> hid \<longrightarrow> map_of hs' k = map_of hs k)"
  by (simp add: file_close_def file_read_def file_read_line_def lookupFileHandle_def
      go_map.get_drop_same go_map.get_drop_other del: map_of_delete)

text \<open>A handle opened with \<^verbatim>\<open>w+\<close> can be read, but not by lines.\<close>

lemma read_line_panics: "fst (read_line (new_handle path ''w+'' content)) = RPanic"
  by (simp add: read_line_def new_handle_def isReadMode_def)



end
