(* ===== verification/Csv_Text.thy ===== *)
theory Csv_Text
  imports Json_Lua Expr_Text
begin

text \<open>
  The CSV part of \<^verbatim>\<open>internal/bindings/formats.go\<close>: \<^verbatim>\<open>csvOpts\<close>,
  \<^verbatim>\<open>csvString\<close>, \<^verbatim>\<open>encodeCSVRow\<close>, \<^verbatim>\<open>parseCSV\<close>, \<^verbatim>\<open>parseCSVGo\<close> and
  \<^verbatim>\<open>csvGoToLua\<close>, with the reader of the standard library's \<^verbatim>\<open>encoding/csv\<close> as the code
  configures it (lazy quotes, no comment character, field count fixed by the first record).
\<close>

section \<open>Options\<close>

definition stripBOM :: "string \<Rightarrow> string" where
  "stripBOM s = (if take 3 s = [CHR 0xEF, CHR 0xBB, CHR 0xBF] then drop 3 s else s)"

fun LVAsBool :: "lua_value \<Rightarrow> bool" where
  "LVAsBool LNil = False"
| "LVAsBool (LBool b) = b"
| "LVAsBool v = True"

text \<open>
  Separator and quote are the first byte of the option as a rune, so a byte of a longer character
  stands for the Latin-1 character with its number.
\<close>

definition first_rune :: "lua_value \<Rightarrow> nat \<Rightarrow> nat" where
  "first_rune v old = (case v of LString (c # cs) \<Rightarrow> byte_of c | _ \<Rightarrow> old)"

definition csvOpts :: "lua_state \<Rightarrow> nat option \<Rightarrow> bool \<times> nat \<times> nat" where
  "csvOpts L opts =
     (case opts of
        None \<Rightarrow> (False, 44, 34)
      | Some a \<Rightarrow>
          (let h = RawGetString L a ''header''
           in (if h = LNil then False else LVAsBool h,
               first_rune (RawGetString L a ''sep'') 44,
               first_rune (RawGetString L a ''quote'') 34)))"

abbreviation rune :: "nat \<Rightarrow> string" where
  "rune n \<equiv> utf8_encode (int n)"

abbreviation lf :: char where "lf \<equiv> CHR 0x0A"
abbreviation cr :: char where "cr \<equiv> CHR 0x0D"
abbreviation dquote :: char where "dquote \<equiv> CHR 0x22"

section \<open>Writing\<close>

definition needsQuote :: "nat \<Rightarrow> nat \<Rightarrow> string \<Rightarrow> bool" where
  "needsQuote sep quote c \<longleftrightarrow>
     contains_str c (rune sep) \<or> contains_str c (rune quote) \<or> cr \<in> set c \<or> lf \<in> set c"

definition csv_cell :: "nat \<Rightarrow> nat \<Rightarrow> string \<Rightarrow> string" where
  "csv_cell sep quote c =
     (if needsQuote sep quote c
      then rune quote @ replace c (rune quote) (rune quote @ rune quote) @ rune quote
      else c)"

definition encodeCSVRow :: "nat \<Rightarrow> nat \<Rightarrow> string list \<Rightarrow> string" where
  "encodeCSVRow sep quote cells = join_with (rune sep) (map (csv_cell sep quote) cells)"

definition tableStringKeys :: "lua_state \<Rightarrow> nat \<Rightarrow> string list" where
  "tableStringKeys L a =
     sort (concat (map (\<lambda>kv. case fst kv of
                              LString s \<Rightarrow> [s]
                            | LNumber n \<Rightarrow> [itoa (go_int n)]
                            | _ \<Rightarrow> []) (for_each L a)))"

definition number_keys :: "lua_state \<Rightarrow> nat \<Rightarrow> int list" where
  "number_keys L a =
     sort (concat (map (\<lambda>kv. case fst kv of LNumber n \<Rightarrow> [go_int n] | _ \<Rightarrow> []) (for_each L a)))"

definition row_cells ::
  "(lua_value \<Rightarrow> string) \<Rightarrow> lua_state \<Rightarrow> bool \<Rightarrow> string list \<Rightarrow> nat \<Rightarrow> string list" where
  "row_cells show_other L header names a =
     (if header \<and> names \<noteq> []
      then map (\<lambda>c. lv_string show_other (RawGetString L a c)) names
      else map (\<lambda>k. lv_string show_other (RawGetInt L a k)) (number_keys L a))"

text \<open>With a header the first element only names the columns; every other element that is a table is a row.\<close>

definition csv_rows ::
  "(lua_value \<Rightarrow> string) \<Rightarrow> lua_state \<Rightarrow> bool \<Rightarrow> nat \<Rightarrow> string list list" where
  "csv_rows show_other L header data =
     (let first = (if header
                   then (case RawGetInt L data 1 of LTable a \<Rightarrow> Some (tableStringKeys L a) | _ \<Rightarrow> None)
                   else None);
          names = (case first of Some ns \<Rightarrow> ns | None \<Rightarrow> [])
      in (case first of Some ns \<Rightarrow> [ns] | None \<Rightarrow> [])
         @ concat (map (\<lambda>i. case RawGetInt L data (int i) of
                              LTable a \<Rightarrow> [row_cells show_other L header names a]
                            | _ \<Rightarrow> [])
             [(if header then 2 else 1)..<Suc (table_len L data)]))"

definition csv_text :: "nat \<Rightarrow> nat \<Rightarrow> string list list \<Rightarrow> string" where
  "csv_text sep quote rows = join_with [lf] (map (encodeCSVRow sep quote) rows) @ [lf]"

definition csvString ::
  "(lua_value \<Rightarrow> string) \<Rightarrow> lua_state \<Rightarrow> nat \<Rightarrow> nat option \<Rightarrow> string" where
  "csvString show_other L data opts =
     (case csvOpts L opts of (header, sep, quote) \<Rightarrow>
        csv_text sep quote (csv_rows show_other L header data))"

section \<open>The reader of encoding/csv\<close>

text \<open>
  Lines keep their newline. A carriage return before the newline is dropped, and so is one at
  the very end of the input.
\<close>

fun raw_lines :: "string \<Rightarrow> string list" where
  "raw_lines [] = []"
| "raw_lines (c # cs) =
     (if c = lf then [lf] # raw_lines cs
      else (case raw_lines cs of [] \<Rightarrow> [[c]] | l # ls \<Rightarrow> (c # l) # ls))"

definition norm_line :: "string \<Rightarrow> string" where
  "norm_line l =
     (if l \<noteq> [] \<and> last l = lf
      then (if butlast l \<noteq> [] \<and> last (butlast l) = cr then butlast (butlast l) @ [lf] else l)
      else if l \<noteq> [] \<and> last l = cr then butlast l
      else l)"

definition csv_lines :: "string \<Rightarrow> string list" where
  "csv_lines s = map norm_line (raw_lines s)"

definition chop_nl :: "string \<Rightarrow> string" where
  "chop_nl l = (if l \<noteq> [] \<and> last l = lf then butlast l else l)"

fun cut_at :: "string \<Rightarrow> string \<Rightarrow> (string \<times> string) option" where
  "cut_at sub [] = (if sub = [] then Some ([], []) else None)"
| "cut_at sub (c # cs) =
     (if starts_at sub (c # cs) then Some ([], drop (length sub) (c # cs))
      else map_option (\<lambda>(a, b). (c # a, b)) (cut_at sub cs))"

text \<open>
  A quoted field after its opening quote: the field, the rest of its line when another field
  follows, and the lines not read yet.
\<close>

function quoted_field :: "string \<Rightarrow> string \<Rightarrow> string list \<Rightarrow> string \<times> string option \<times> string list" where
  "quoted_field comma [] ls = ([], None, ls)"
| "quoted_field comma (x # xs) ls =
     (if x = dquote then
        (if xs \<noteq> [] \<and> hd xs = dquote
         then (let (f, k, r) = quoted_field comma (tl xs) ls in (dquote # f, k, r))
         else if starts_at comma xs then ([], Some (drop (length comma) xs), ls)
         else if xs = [] \<or> xs = [lf] then ([], None, ls)
         else (let (f, k, r) = quoted_field comma xs ls in (dquote # f, k, r)))
      else if xs \<noteq> [] then (let (f, k, r) = quoted_field comma xs ls in (x # f, k, r))
      else (case ls of
              [] \<Rightarrow> ([x], None, [])
            | l # ls' \<Rightarrow> (let (f, k, r) = quoted_field comma l ls' in (x # f, k, r))))"
  by pat_completeness auto
termination
  by (relation "measures [\<lambda>(comma, line, ls). length ls, \<lambda>(comma, line, ls). length line]") auto

lemma quoted_field_smaller:
  "quoted_field comma line ls = (f, k, r) \<Longrightarrow>
   length r \<le> length ls \<and> (\<forall>l. k = Some l \<longrightarrow> length r = length ls \<longrightarrow> length l \<le> length line)"
proof (induction comma line ls arbitrary: f k r rule: quoted_field.induct)
  case (2 comma x xs ls)
  show ?case
  proof (cases "x = dquote")
    case True
    note q = this
    show ?thesis
    proof (cases "xs \<noteq> [] \<and> hd xs = dquote")
      case True
      obtain f' where "quoted_field comma (tl xs) ls = (f', k, r)" using "2.prems" q True by (auto split: prod.splits)
      from "2.IH"(1) [OF q True this] show ?thesis by (auto simp: le_Suc_eq)
    next
      case nq: False
      show ?thesis
      proof (cases "starts_at comma xs \<or> xs = [] \<or> xs = [lf]")
        case True
        then show ?thesis using "2.prems" q nq by (auto split: if_splits)
      next
        case False
        then obtain f' where "quoted_field comma xs ls = (f', k, r)" using "2.prems" q nq by (auto split: prod.splits)
        from "2.IH"(2) [OF q nq _ _ this] False show ?thesis by auto
      qed
    qed
  next
    case nq: False
    show ?thesis
    proof (cases "xs = []")
      case False
      then obtain f' where "quoted_field comma xs ls = (f', k, r)" using "2.prems" nq by (auto split: prod.splits)
      from "2.IH"(3) [OF nq False this] show ?thesis by auto
    next
      case True
      show ?thesis
      proof (cases ls)
        case Nil
        then show ?thesis using "2.prems" nq True by auto
      next
        case (Cons l ls')
        then obtain f' where "quoted_field comma l ls' = (f', k, r)" using "2.prems" nq True by (auto split: prod.splits)
        from "2.IH"(4) [OF nq _ Cons this] True Cons show ?thesis by auto
      qed
    qed
  qed
qed auto

lemma cut_at_shorter: "cut_at sub s = Some (a, b) \<Longrightarrow> sub \<noteq> [] \<Longrightarrow> length b < length s"
  by (induction s arbitrary: a) (auto split: if_splits simp: length_greater_0_conv [symmetric] simp del: length_greater_0_conv)

lemma rune_nonempty [simp]: "rune n \<noteq> []"
  by (auto simp: utf8_encode_def Let_def rune_error_def)

lemma quoted_field_less:
  "(f, Some l, r) = quoted_field comma (tl line) ls \<Longrightarrow> line \<noteq> [] \<Longrightarrow>
   length r < length ls \<or> (length r = length ls \<and> length l < length line)"
  using quoted_field_smaller [of comma "tl line" ls f "Some l" r] by (cases line) auto

text \<open>One record, from its first line on.\<close>

function fields :: "nat \<Rightarrow> string \<Rightarrow> string list \<Rightarrow> string list \<times> string list" where
  "fields sep line ls =
     (if line \<noteq> [] \<and> hd line = dquote
      then (case quoted_field (rune sep) (tl line) ls of
              (f, None, r) \<Rightarrow> ([f], r)
            | (f, Some l, r) \<Rightarrow> (let (fs, r') = fields sep l r in (f # fs, r')))
      else (case cut_at (rune sep) line of
              None \<Rightarrow> ([chop_nl line], ls)
            | Some (f, l) \<Rightarrow> (let (fs, r') = fields sep l ls in (f # fs, r'))))"
  by pat_completeness auto
termination
  by (relation "measures [\<lambda>(sep, line, ls). length ls, \<lambda>(sep, line, ls). length line]")
    (auto dest: cut_at_shorter quoted_field_less)

declare fields.simps [simp del]

lemma fields_shorter: "length (snd (fields sep line ls)) \<le> length ls"
proof (induction sep line ls rule: fields.induct)
  case (1 sep line ls)
  show ?case
  proof (cases "line \<noteq> [] \<and> hd line = dquote")
    case True
    obtain f k r where q: "quoted_field (rune sep) (tl line) ls = (f, k, r)" by (cases "quoted_field (rune sep) (tl line) ls")
    have r: "length r \<le> length ls" using quoted_field_smaller [OF q] by simp
    show ?thesis
    proof (cases k)
      case None
      then show ?thesis using True q r by (subst fields.simps) simp
    next
      case (Some l)
      have "length (snd (fields sep l r)) \<le> length r" using "1.IH"(1) [OF True q [symmetric] _ Some] by simp
      then show ?thesis using True q r Some
        by (subst fields.simps) (simp add: Let_def split_beta)
    qed
  next
    case False
    show ?thesis
    proof (cases "cut_at (rune sep) line")
      case None
      then show ?thesis using False by (subst fields.simps) auto
    next
      case (Some fl)
      then show ?thesis using False "1.IH"(2) [OF False Some, of "fst fl" "snd fl"]
        by (subst fields.simps) (auto simp: Let_def split_beta)
    qed
  qed
qed

lemma fields_less: "(fs, r) = fields sep l ls \<Longrightarrow> length r < Suc (length ls)"
  using fields_shorter [of sep l ls] by (metis le_imp_less_Suc snd_conv)

lemma fields_nonempty: "fst (fields sep line ls) \<noteq> []"
  by (subst fields.simps) (simp split: prod.split option.split)

text \<open>
  \<^verbatim>\<open>ReadAll\<close>: empty lines between records are skipped; the first record fixes the number of
  fields, and a record of another width is an error that names the line it starts on.
\<close>

function read_records :: "nat \<Rightarrow> nat \<Rightarrow> nat \<Rightarrow> string list \<Rightarrow> string + string list list" where
  "read_records sep lines_total width [] = Inr []"
| "read_records sep lines_total width (l # ls) =
     (if l = [] \<or> l = [lf] then read_records sep lines_total width ls
      else (case fields sep l ls of
              (fs, r) \<Rightarrow>
                (if width \<noteq> 0 \<and> length fs \<noteq> width
                 then Inl (''record on line '' @ itoa (int (lines_total - length ls)) @ '': wrong number of fields'')
                 else (case read_records sep lines_total (length fs) r of
                         Inl e \<Rightarrow> Inl e
                       | Inr rs \<Rightarrow> Inr (fs # rs)))))"
  by pat_completeness auto
termination
  by (relation "measure (\<lambda>(sep, t, w, ls). length ls)") (auto dest: fields_less)

definition valid_delim :: "nat \<Rightarrow> bool" where
  "valid_delim n \<longleftrightarrow> n \<noteq> 0 \<and> n \<noteq> 34 \<and> n \<noteq> 13 \<and> n \<noteq> 10"

definition ReadAll :: "nat \<Rightarrow> string \<Rightarrow> string + string list list" where
  "ReadAll sep s =
     (if valid_delim sep then (let ls = csv_lines s in read_records sep (length ls) 0 ls)
      else Inl ''csv: invalid field or comment delimiter'')"

section \<open>Parsing\<close>

definition cell_name :: "string list \<Rightarrow> nat \<Rightarrow> string" where
  "cell_name names i = (if i < length names then names ! i else itoa (int i + 1))"

definition named_cells :: "string list \<Rightarrow> string list \<Rightarrow> (string \<times> string) list" where
  "named_cells names row = zip (map (cell_name names) [0..<length row]) row"

datatype csv_data = CsvRows "string list list" | CsvMaps "(string \<times> string) list list"

definition parseCSVGo :: "lua_state \<Rightarrow> string \<Rightarrow> nat option \<Rightarrow> string + csv_data" where
  "parseCSVGo L data opts =
     (case csvOpts L opts of (header, sep, quote) \<Rightarrow>
        (case ReadAll sep (stripBOM data) of
           Inl e \<Rightarrow> Inl e
         | Inr [] \<Rightarrow> Inr (if header then CsvMaps [] else CsvRows [])
         | Inr (r # rs) \<Rightarrow>
             Inr (if header then CsvMaps (map (\<lambda>row. store_all (named_cells r row)) rs)
                  else CsvRows (r # rs))))"

text \<open>Filling a row table, and appending it to the result table.\<close>

fun set_cells :: "nat \<Rightarrow> nat \<Rightarrow> string list \<Rightarrow> lua_state \<Rightarrow> lua_state" where
  "set_cells a i [] L = L"
| "set_cells a i (c # cs) L = set_cells a (Suc i) cs (RawSetInt a i (LString c) L)"

fun set_named :: "nat \<Rightarrow> (string \<times> string) list \<Rightarrow> lua_state \<Rightarrow> lua_state" where
  "set_named a [] L = L"
| "set_named a (kv # kvs) L = set_named a kvs (RawSetString a (fst kv) (LString (snd kv)) L)"

fun append_rows :: "(nat \<Rightarrow> 'r \<Rightarrow> lua_state \<Rightarrow> lua_state) \<Rightarrow> nat \<Rightarrow> 'r list \<Rightarrow> lua_state \<Rightarrow> lua_state" where
  "append_rows fill out [] L = L"
| "append_rows fill out (r # rs) L =
     (let (L1, a) = NewTable L; L2 = fill a r L1
      in append_rows fill out rs (RawSetInt out (Suc (table_len L2 out)) (LTable a) L2))"

definition csvGoToLua :: "csv_data \<Rightarrow> lua_state \<Rightarrow> lua_state \<times> nat" where
  "csvGoToLua d L =
     (let (L1, out) = NewTable L
      in (case d of
            CsvMaps ms \<Rightarrow> append_rows set_named out ms L1
          | CsvRows rs \<Rightarrow> append_rows (\<lambda>a. set_cells a 1) out rs L1, out))"

definition parseCSV :: "string \<Rightarrow> nat option \<Rightarrow> lua_state \<Rightarrow> string + (lua_state \<times> nat)" where
  "parseCSV data opts L =
     (case csvOpts L opts of (header, sep, quote) \<Rightarrow>
        (case ReadAll sep (stripBOM data) of
           Inl e \<Rightarrow> Inl e
         | Inr [] \<Rightarrow> Inr (NewTable L)
         | Inr (r # rs) \<Rightarrow>
             (let (L1, out) = NewTable L
              in Inr (if header then append_rows (\<lambda>a row. set_named a (named_cells r row)) out rs L1
                      else append_rows (\<lambda>a. set_cells a 1) out (r # rs) L1, out))))"


section \<open>Text as lines\<close>

definition line_of :: "string \<Rightarrow> string" where
  "line_of s = (case raw_lines s of [] \<Rightarrow> [] | l # ls \<Rightarrow> l)"

definition more_of :: "string \<Rightarrow> string list" where
  "more_of s = tl (raw_lines s)"

lemma raw_lines_Nil_iff [simp]: "raw_lines s = [] \<longleftrightarrow> s = []"
  by (cases s) (auto split: list.split)

lemma raw_lines_split: "s \<noteq> [] \<Longrightarrow> raw_lines s = line_of s # more_of s"
  by (cases "raw_lines s") (auto simp: line_of_def more_of_def)

lemma line_of_nl [simp]: "line_of (lf # s) = [lf]" "more_of (lf # s) = raw_lines s"
  by (simp_all add: line_of_def more_of_def)

lemma line_of_Cons: "c \<noteq> lf \<Longrightarrow> line_of (c # s) = c # line_of s \<and> more_of (c # s) = more_of s"
  by (cases "raw_lines s") (auto simp: line_of_def more_of_def)

lemma line_of_append: "lf \<notin> set c \<Longrightarrow> line_of (c @ s) = c @ line_of s \<and> more_of (c @ s) = more_of s"
  by (induction c) (auto simp: line_of_Cons)

lemma line_of_nonempty [simp]: "line_of s = [] \<longleftrightarrow> s = []"
  by (cases s) (auto simp: line_of_def split: list.split)

fun no_crlf :: "string \<Rightarrow> bool" where
  "no_crlf (a # b # s) = (\<not> (a = cr \<and> b = lf) \<and> no_crlf (b # s))"
| "no_crlf s = True"

lemma no_crlf_append:
  "no_crlf (a @ b) \<longleftrightarrow> no_crlf a \<and> no_crlf b \<and> \<not> (a \<noteq> [] \<and> b \<noteq> [] \<and> last a = cr \<and> hd b = lf)"
proof (induction a)
  case (Cons x a)
  then show ?case by (cases a; cases b) auto
qed simp

lemma no_crlf_plain: "cr \<notin> set s \<Longrightarrow> no_crlf s"
  by (induction s rule: no_crlf.induct) auto

lemma concat_raw_lines: "concat (raw_lines s) = s"
  by (induction s) (auto split: list.split)

lemma raw_lines_nl: "l \<in> set (raw_lines (s @ [lf])) \<Longrightarrow> l \<noteq> [] \<and> last l = lf"
proof (induction s arbitrary: l)
  case (Cons c s)
  show ?case
  proof (cases "c = lf")
    case False
    obtain k ks where r: "raw_lines (s @ [lf]) = k # ks" by (cases "raw_lines (s @ [lf])") auto
    then have k: "k \<noteq> [] \<and> last k = lf" using Cons.IH [of k] by simp
    show ?thesis
    proof (cases "l = c # k")
      case True
      with k show ?thesis by simp
    next
      case f: False
      then have "l \<in> set (raw_lines (s @ [lf]))" using Cons.prems False r by auto
      then show ?thesis by (rule Cons.IH)
    qed
  qed (use Cons in auto)
qed auto

lemma norm_line_id: "l \<noteq> [] \<Longrightarrow> last l = lf \<Longrightarrow> no_crlf l \<Longrightarrow> norm_line l = l"
proof -
  assume l: "l \<noteq> []" "last l = lf" "no_crlf l"
  then have "l = butlast l @ [lf]" by (metis append_butlast_last_id)
  then have "no_crlf (butlast l @ [lf])" using l(3) by simp
  then show ?thesis using l by (auto simp: norm_line_def no_crlf_append)
qed

lemma csv_lines_plain: "no_crlf (s @ [lf]) \<Longrightarrow> csv_lines (s @ [lf]) = raw_lines (s @ [lf])"
proof -
  assume n: "no_crlf (s @ [lf])"
  have "norm_line l = l" if m: "l \<in> set (raw_lines (s @ [lf]))" for l
  proof (rule norm_line_id)
    obtain a b where "raw_lines (s @ [lf]) = a @ l # b" using split_list [OF m] by blast
    then have "s @ [lf] = concat a @ l @ concat b"
      using concat_raw_lines [of "s @ [lf]"] by simp
    with n have "no_crlf (concat a @ l @ concat b)" by simp
    then show "no_crlf l" by (auto simp: no_crlf_append)
  qed (use raw_lines_nl [OF m] in auto)
  then show ?thesis by (simp add: csv_lines_def map_idI)
qed

section \<open>Reading back a written row\<close>

definition sep_ok :: "nat \<Rightarrow> bool" where
  "sep_ok n \<longleftrightarrow> valid_delim n \<and> n < 128"

definition double :: "string \<Rightarrow> string" where
  "double c = concat (map (\<lambda>x. if x = dquote then [dquote, dquote] else [x]) c)"

lemma rune_ascii: "n < 128 \<Longrightarrow> rune n = [char_of n]"
  by (simp add: utf8_encode_def)

lemma sep_char:
  assumes "sep_ok n"
  shows "rune n = [char_of n]" "(char_of n :: char) \<noteq> dquote" "(char_of n :: char) \<noteq> lf" "(char_of n :: char) \<noteq> cr"
proof -
  have n: "n < 128" "n \<noteq> 34" "n \<noteq> 10" "n \<noteq> 13" using assms by (auto simp: sep_ok_def valid_delim_def)
  then show "rune n = [char_of n]" by (simp add: rune_ascii)
  have o: "(of_char (char_of n :: char) :: nat) = n" using n(1) by (simp add: of_char_of)
  show "(char_of n :: char) \<noteq> dquote" "(char_of n :: char) \<noteq> lf" "(char_of n :: char) \<noteq> cr"
    using n(2-) o by (auto dest!: arg_cong [where f = "of_char :: char \<Rightarrow> nat"])
qed

lemma replace_quote: "replace_all [q] [q, q] c = concat (map (\<lambda>x. if x = q then [q, q] else [x]) c)"
  by (induction c) (auto simp: starts_at_def)

lemma contains_str_single: "contains_str s [c] \<longleftrightarrow> c \<in> set s"
  by (induction s) auto

text \<open>A quoted body up to its closing quote, followed by a separator or the end of the line.\<close>

lemma quoted_field_body:
  assumes "q \<noteq> dquote" "q \<noteq> lf" "t \<noteq> []"
  shows "quoted_field [q] (line_of (double c @ dquote # q # t)) (more_of (double c @ dquote # q # t))
      = (c, Some (line_of t), more_of t)"
    and "quoted_field [q] (line_of (double c @ dquote # lf # t')) (more_of (double c @ dquote # lf # t'))
      = (c, None, raw_lines t')"
proof -
  have step: "quoted_field [q] (line_of (double (x # c) @ s)) (more_of (double (x # c) @ s))
      = (x # f, k, r)" if "quoted_field [q] (line_of (double c @ s)) (more_of (double c @ s)) = (f, k, r)" "s \<noteq> []" for x c s f k r
  proof -
    have ne: "double c @ s \<noteq> []" using that(2) by simp
    consider "x = dquote" | "x = lf" | "x \<noteq> dquote" "x \<noteq> lf" by blast
    then show ?thesis
    proof cases
      case 1
      have "line_of (double (x # c) @ s) = dquote # dquote # line_of (double c @ s)"
        "more_of (double (x # c) @ s) = more_of (double c @ s)"
        using 1 by (auto simp: double_def line_of_Cons)
      then show ?thesis using that 1 by simp
    next
      case 2
      then have "line_of (double (x # c) @ s) = [lf]"
        "more_of (double (x # c) @ s) = line_of (double c @ s) # more_of (double c @ s)"
        using ne raw_lines_split [OF ne] by (auto simp: double_def)
      then show ?thesis using that 2 by simp
    next
      case 3
      then have "line_of (double (x # c) @ s) = x # line_of (double c @ s)"
        "more_of (double (x # c) @ s) = more_of (double c @ s)"
        by (auto simp: double_def line_of_Cons)
      then show ?thesis using that 3 ne by simp
    qed
  qed
  show "quoted_field [q] (line_of (double c @ dquote # q # t)) (more_of (double c @ dquote # q # t))
      = (c, Some (line_of t), more_of t)"
  proof (induction c)
    case Nil
    then show ?case using assms by (simp add: double_def line_of_Cons starts_at_def)
  next
    case (Cons x c)
    then show ?case by (intro step) auto
  qed
  show "quoted_field [q] (line_of (double c @ dquote # lf # t')) (more_of (double c @ dquote # lf # t'))
      = (c, None, raw_lines t')"
  proof (induction c)
    case Nil
    then show ?case using assms by (simp add: double_def line_of_Cons starts_at_def)
  next
    case (Cons x c)
    then show ?case by (intro step) auto
  qed
qed


lemma cut_at_single: "q \<notin> set c \<Longrightarrow> cut_at [q] (c @ q # l) = Some (c, l)" "q \<notin> set c \<Longrightarrow> cut_at [q] c = None"
  by (induction c) (auto simp: starts_at_def)

lemma csv_cell_default:
  assumes "sep_ok sep"
  shows "csv_cell sep 34 c =
    (if char_of sep \<in> set c \<or> dquote \<in> set c \<or> cr \<in> set c \<or> lf \<in> set c
     then dquote # double c @ [dquote] else c)"
proof -
  have "rune 34 = [dquote]" by code_simp
  then show ?thesis
    using sep_char(1) [OF assms]
    by (simp add: csv_cell_def needsQuote_def contains_str_single replace_def replace_quote double_def)
qed

lemma fields_last:
  assumes "sep_ok sep"
  shows "fields sep (line_of (csv_cell sep 34 c @ lf # t)) (more_of (csv_cell sep 34 c @ lf # t)) = ([c], raw_lines t)"
proof (cases "char_of sep \<in> set c \<or> dquote \<in> set c \<or> cr \<in> set c \<or> lf \<in> set c")
  case True
  then have "csv_cell sep 34 c @ lf # t = dquote # double c @ dquote # lf # t"
    by (simp add: csv_cell_default [OF assms])
  then show ?thesis
    using quoted_field_body(2) [OF sep_char(2,3) [OF assms], of "''x''" c t] sep_char(1) [OF assms]
    by (subst fields.simps) (simp add: line_of_Cons)
next
  case False
  then have c: "csv_cell sep 34 c = c" by (simp add: csv_cell_default [OF assms])
  have l: "line_of (c @ lf # t) = c @ [lf]" "more_of (c @ lf # t) = raw_lines t"
    using False line_of_append [of c "lf # t"] by auto
  have "\<not> (c @ [lf] \<noteq> [] \<and> hd (c @ [lf]) = dquote)"
    using False by (cases c) auto
  moreover have "cut_at (rune sep) (c @ [lf]) = None"
    unfolding sep_char(1) [OF assms] using False sep_char(3) [OF assms] by (intro cut_at_single) auto
  ultimately show ?thesis by (subst fields.simps) (simp add: c l chop_nl_def)
qed

lemma fields_step:
  assumes "sep_ok sep" "t \<noteq> []"
  shows "fields sep (line_of (csv_cell sep 34 c @ char_of sep # t)) (more_of (csv_cell sep 34 c @ char_of sep # t))
    = (let (fs, r) = fields sep (line_of t) (more_of t) in (c # fs, r))"
proof (cases "char_of sep \<in> set c \<or> dquote \<in> set c \<or> cr \<in> set c \<or> lf \<in> set c")
  case True
  then have "csv_cell sep 34 c @ char_of sep # t = dquote # double c @ dquote # char_of sep # t"
    by (simp add: csv_cell_default [OF assms(1)])
  then show ?thesis
    using quoted_field_body(1) [OF sep_char(2,3) [OF assms(1)] assms(2), of c] sep_char(1) [OF assms(1)]
    by (subst fields.simps) (simp add: line_of_Cons)
next
  case False
  then have c: "csv_cell sep 34 c = c" by (simp add: csv_cell_default [OF assms(1)])
  have l: "line_of (c @ char_of sep # t) = c @ char_of sep # line_of t" "more_of (c @ char_of sep # t) = more_of t"
    using False line_of_append [of c "char_of sep # t"] line_of_Cons [OF sep_char(3) [OF assms(1)], of t] by auto
  have "\<not> (c @ char_of sep # line_of t \<noteq> [] \<and> hd (c @ char_of sep # line_of t) = dquote)"
    using False sep_char(2) [OF assms(1)] by (cases c) auto
  moreover have "cut_at (rune sep) (c @ char_of sep # line_of t) = Some (c, line_of t)"
    unfolding sep_char(1) [OF assms(1)] using False by (intro cut_at_single) auto
  ultimately show ?thesis by (subst fields.simps) (simp add: c l)
qed

lemma fields_row:
  assumes "sep_ok sep" "cells \<noteq> []"
  shows "fields sep (line_of (encodeCSVRow sep 34 cells @ lf # t)) (more_of (encodeCSVRow sep 34 cells @ lf # t))
    = (cells, raw_lines t)"
  using assms(2)
proof (induction cells rule: list_nonempty_induct)
  case (single c)
  then show ?case using fields_last [OF assms(1)] by (simp add: encodeCSVRow_def)
next
  case (cons c cs)
  have e: "encodeCSVRow sep 34 (c # cs) @ lf # t =
      csv_cell sep 34 c @ char_of sep # encodeCSVRow sep 34 cs @ lf # t"
    using cons.hyps sep_char(1) [OF assms(1)] by (cases cs) (simp_all add: encodeCSVRow_def)
  show ?case unfolding e using cons.IH by (subst fields_step [OF assms(1)]) simp_all
qed

text \<open>The rows of a table, one after the other.\<close>

lemma csv_text_Cons: "csv_text sep quote (r # rs) =
    encodeCSVRow sep quote r @ lf # (if rs = [] then [] else csv_text sep quote rs)"
  by (cases rs) (auto simp: csv_text_def)

definition readable_row :: "nat \<Rightarrow> string list \<Rightarrow> bool" where
  "readable_row w r \<longleftrightarrow> length r = w \<and> r \<noteq> [] \<and> r \<noteq> [[]] \<and> list_all no_crlf r"

lemma first_line:
  assumes "sep_ok sep" "r \<noteq> []" "r \<noteq> [[]]"
  shows "line_of (encodeCSVRow sep 34 r @ lf # t) \<noteq> [] \<and> line_of (encodeCSVRow sep 34 r @ lf # t) \<noteq> [lf]"
proof -
  have "encodeCSVRow sep 34 r \<noteq> [] \<and> hd (encodeCSVRow sep 34 r) \<noteq> lf"
  proof (cases r)
    case (Cons c cs)
    have "csv_cell sep 34 c \<noteq> [] \<Longrightarrow> hd (csv_cell sep 34 c) \<noteq> lf"
      by (cases c) (auto simp: csv_cell_default [OF assms(1)])
    moreover have "csv_cell sep 34 c = [] \<Longrightarrow> c = []"
      by (auto simp: csv_cell_default [OF assms(1)] split: if_splits)
    ultimately show ?thesis
      using Cons assms(3) sep_char [OF assms(1)]
      by (cases cs; cases "csv_cell sep 34 c") (auto simp: encodeCSVRow_def)
  qed (use assms in auto)
  then obtain x xs where "encodeCSVRow sep 34 r = x # xs" "x \<noteq> lf"
    by (cases "encodeCSVRow sep 34 r") auto
  then show ?thesis by (simp add: line_of_Cons)
qed

lemma read_rows:
  assumes "sep_ok sep" "rs \<noteq> []" "list_all (readable_row w) rs" "w' = 0 \<or> w' = w"
  shows "read_records sep n w' (raw_lines (csv_text sep 34 rs)) = Inr rs"
  using assms(2-)
proof (induction rs arbitrary: w')
  case (Cons r rs)
  let ?t = "if rs = [] then [] else csv_text sep 34 rs"
  have r: "r \<noteq> []" "r \<noteq> [[]]" "length r = w" using Cons.prems by (auto simp: readable_row_def)
  have tail: "read_records sep n w (raw_lines ?t) = Inr rs"
    using Cons.IH [of w] Cons.prems by auto
  have s: "raw_lines (encodeCSVRow sep 34 r @ lf # ?t) =
      line_of (encodeCSVRow sep 34 r @ lf # ?t) # more_of (encodeCSVRow sep 34 r @ lf # ?t)"
    by (rule raw_lines_split) simp
  show ?case
    unfolding csv_text_Cons s
    using first_line [OF assms(1) r(1,2), of ?t] fields_row [OF assms(1) r(1), of ?t] r(3) Cons.prems(3) tail
    by auto
qed simp

lemma no_crlf_double: "no_crlf c \<Longrightarrow> no_crlf (double c)"
proof (induction c)
  case (Cons x c)
  have h: "c \<noteq> [] \<Longrightarrow> hd (double c) = hd c \<and> double c \<noteq> []" by (cases c) (auto simp: double_def)
  have "no_crlf c" using Cons.prems by (cases c) auto
  then have "no_crlf (double c)" by (rule Cons.IH)
  moreover have "double (x # c) = (if x = dquote then [x, x] else [x]) @ double c" by (auto simp: double_def)
  ultimately show ?case using Cons.prems h by (cases c) (auto simp: no_crlf_append double_def)
qed (simp add: double_def)

text \<open>Text that may be followed by anything.\<close>

definition soft :: "string \<Rightarrow> bool" where
  "soft s \<longleftrightarrow> no_crlf s \<and> (s \<noteq> [] \<longrightarrow> last s \<noteq> cr)"

lemma soft_append: "soft a \<Longrightarrow> soft b \<Longrightarrow> soft (a @ b)"
  by (cases "b = []") (auto simp: soft_def no_crlf_append)

lemma soft_single: "x \<noteq> cr \<Longrightarrow> soft [x]"
  by (simp add: soft_def)

lemma soft_cell: "sep_ok sep \<Longrightarrow> no_crlf c \<Longrightarrow> soft (csv_cell sep 34 c)"
proof -
  assume o: "sep_ok sep" and c: "no_crlf c"
  have "no_crlf (double c @ [dquote])"
    using no_crlf_double [OF c] by (simp add: no_crlf_append)
  then have "no_crlf ([dquote] @ double c @ [dquote])"
    unfolding no_crlf_append [of "[dquote]"] by simp
  then have q: "soft (dquote # double c @ [dquote])" by (simp add: soft_def)
  have "soft c" if "cr \<notin> set c"
    using that no_crlf_plain [OF that] last_in_set [of c] unfolding soft_def by metis
  with q show ?thesis by (simp add: csv_cell_default [OF o])
qed

lemma soft_row: "sep_ok sep \<Longrightarrow> list_all no_crlf r \<Longrightarrow> soft (encodeCSVRow sep 34 r)"
proof (induction r)
  case (Cons c cs)
  have c: "soft (csv_cell sep 34 c)" using Cons.prems by (auto intro: soft_cell)
  have q: "soft [char_of sep]" using sep_char(4) [OF Cons.prems(1)] by (rule soft_single)
  have "encodeCSVRow sep 34 (c # cs) =
      csv_cell sep 34 c @ (if cs = [] then [] else [char_of sep] @ encodeCSVRow sep 34 cs)"
    using sep_char(1) [OF Cons.prems(1)] by (cases cs) (simp_all add: encodeCSVRow_def)
  moreover have "soft (if cs = [] then [] else [char_of sep] @ encodeCSVRow sep 34 cs)"
    using soft_append [OF q] Cons by (auto simp: soft_def [of "[]"])
  ultimately show ?case using soft_append [OF c] by metis
qed (simp add: encodeCSVRow_def soft_def)

lemma soft_text: "sep_ok sep \<Longrightarrow> list_all (list_all no_crlf) rs \<Longrightarrow> soft (csv_text sep 34 rs)"
proof (induction rs)
  case (Cons r rs)
  have "soft (encodeCSVRow sep 34 r @ [lf])"
    using Cons.prems by (auto intro!: soft_append soft_row soft_single)
  moreover have "soft (if rs = [] then [] else csv_text sep 34 rs)"
    using Cons by (auto simp: soft_def)
  ultimately have "soft ((encodeCSVRow sep 34 r @ [lf]) @ (if rs = [] then [] else csv_text sep 34 rs))"
    by (rule soft_append)
  then show ?case by (simp add: csv_text_Cons)
qed (simp add: csv_text_def soft_def)

lemma ReadAll_csv_text:
  assumes "sep_ok sep" "list_all (readable_row w) rs"
  shows "ReadAll sep (csv_text sep 34 rs) = Inr rs"
proof -
  have "list_all (list_all no_crlf) rs" using assms(2) by (auto simp: list_all_iff readable_row_def)
  then have "no_crlf (csv_text sep 34 rs)" using soft_text [OF assms(1)] by (simp add: soft_def)
  then have l: "csv_lines (csv_text sep 34 rs) = raw_lines (csv_text sep 34 rs)"
    unfolding csv_text_def by (rule csv_lines_plain)
  show ?thesis
  proof (cases "rs = []")
    case True
    then show ?thesis
      using assms(1) l by (simp add: ReadAll_def sep_ok_def) (simp add: csv_text_def)
  next
    case False
    then show ?thesis
      using assms l read_rows [OF assms(1) False assms(2), of 0] by (simp add: ReadAll_def sep_ok_def)
  qed
qed

text \<open>What a successful read returns is a rectangle: every record has the width of the first.\<close>

lemma read_records_width:
  "read_records sep n w ls = Inr rs \<Longrightarrow> w \<noteq> 0 \<Longrightarrow> \<forall>r\<in>set rs. length r = w"
proof (induction sep n w ls arbitrary: rs rule: read_records.induct)
  case (2 sep n w l ls)
  show ?case
  proof (cases "l = [] \<or> l = [lf]")
    case True
    with 2 show ?thesis by simp
  next
    case False
    obtain fs r where f: "fields sep l ls = (fs, r)" by (cases "fields sep l ls")
    show ?thesis
    proof (cases "length fs \<noteq> w")
      case True
      then show ?thesis using "2.prems" False f by simp
    next
      case w: False
      then obtain rs' where "read_records sep n (length fs) r = Inr rs'" "rs = fs # rs'"
        using "2.prems" False f by (auto split: sum.splits)
      with "2.IH"(2) [OF False f [symmetric] _ this(1)] w "2.prems"(2) show ?thesis by auto
    qed
  qed
qed simp

lemma ReadAll_rectangle: "ReadAll sep s = Inr rs \<Longrightarrow> \<exists>w. \<forall>r\<in>set rs. length r = w"
proof -
  assume a: "ReadAll sep s = Inr rs"
  have "\<exists>w. \<forall>r\<in>set rs. length r = w" if "read_records sep n 0 ls = Inr rs" for n ls
    using that
  proof (induction ls)
    case (Cons l ls)
    show ?case
    proof (cases "l = [] \<or> l = [lf]")
      case False
      obtain fs r where f: "fields sep l ls = (fs, r)" by (cases "fields sep l ls")
      then have "fs \<noteq> []" using fields_nonempty [of sep l ls] by simp
      moreover obtain rs' where "read_records sep n (length fs) r = Inr rs'" "rs = fs # rs'"
        using Cons.prems False f by (auto split: sum.splits)
      ultimately show ?thesis using read_records_width [of sep n "length fs" r rs'] by auto
    qed (use Cons in auto)
  qed simp
  then show ?thesis using a by (auto simp: ReadAll_def Let_def split: if_splits)
qed


section \<open>Tables of strings\<close>

abbreviation string_rows :: "string list list \<Rightarrow> go_value" where
  "string_rows rows \<equiv> GList (map (\<lambda>r. GList (map GString r)) rows)"

lemma rep_strings:
  assumes "rep leaf L lo v (GList (map GString r))" "\<And>s. leaf (GString s) = LString s"
  shows "\<exists>a. v = LTable a \<and> table_at L a = \<lparr>arr = map LString r, strs = [], others = []\<rparr>"
proof -
  from assms(1) obtain a vs where a: "v = LTable a" "table_at L a = \<lparr>arr = vs, strs = [], others = []\<rparr>"
    "list_all2 (rep leaf L (Suc a)) vs (map GString r)"
    by (auto simp: rep_List_iff)
  have "vs = map LString r"
    using a(3) by (auto simp: list_all2_conv_all_nth assms(2) elim!: rep_leafE intro!: nth_equalityI)
  with a show ?thesis by simp
qed

abbreviation go_pairs :: "(string \<times> string) list \<Rightarrow> (string \<times> go_value) list" where
  "go_pairs kvs \<equiv> map (\<lambda>(k, v). (k, GString v)) kvs"

lemma rep_pairs:
  assumes "rep leaf L lo v (GMap (go_pairs kvs))" "\<And>s. leaf (GString s) = LString s"
  shows "\<exists>b. v = LTable b \<and> table_at L b = \<lparr>arr = [], strs = map (\<lambda>(k, v). (k, LString v)) kvs, others = []\<rparr>"
proof -
  obtain b ws where b: "v = LTable b" "table_at L b = \<lparr>arr = [], strs = ws, others = []\<rparr>"
    "list_all2 (\<lambda>kv kg. fst kv = fst kg \<and> rep leaf L (Suc b) (snd kv) (snd kg)) ws (go_pairs kvs)"
    using assms(1) by (auto simp: rep_Map_iff)
  have "ws = map (\<lambda>(k, v). (k, LString v)) kvs"
    using b(3) by (auto simp: list_all2_conv_all_nth split_beta assms(2) prod_eq_iff elim!: rep_leafE intro!: nth_equalityI)
  with b show ?thesis by simp
qed

lemma keys_of_strs:
  "table_at L a = \<lparr>arr = [], strs = kvs, others = []\<rparr> \<Longrightarrow> \<forall>kv\<in>set kvs. snd kv \<noteq> LNil \<Longrightarrow>
   tableStringKeys L a = sort (map fst kvs)"
  by (simp add: tableStringKeys_def for_each_strs comp_def concat_map_singleton)

lemma rep_string_rows:
  assumes "rep leaf L lo (LTable d) (string_rows rows)" "\<And>s. leaf (GString s) = LString s"
  shows "table_len L d = length rows" "i < length rows \<Longrightarrow>
      \<exists>a. RawGetInt L d (int (Suc i)) = LTable a \<and> table_at L a = \<lparr>arr = map LString (rows ! i), strs = [], others = []\<rparr>"
proof -
  from assms(1) obtain vs where v: "table_at L d = \<lparr>arr = vs, strs = [], others = []\<rparr>"
    "list_all2 (rep leaf L (Suc d)) vs (map (\<lambda>r. GList (map GString r)) rows)"
    by (auto simp: rep_List_iff)
  have t: "\<exists>a. vs ! i = LTable a \<and> table_at L a = \<lparr>arr = map LString (rows ! i), strs = [], others = []\<rparr>"
    if "i < length rows" for i
    using that v(2) rep_strings [OF _ assms(2)] by (auto simp: list_all2_conv_all_nth)
  have l: "length vs = length rows" using v(2) by (auto dest: list_all2_lengthD)
  then have "\<forall>x\<in>set vs. x \<noteq> LNil" using t by (metis in_set_conv_nth lua_value.distinct(7))
  then show "table_len L d = length rows" using table_len_solid [of L d vs] v(1) l by simp
  show "\<exists>a. RawGetInt L d (int (Suc i)) = LTable a \<and> table_at L a = \<lparr>arr = map LString (rows ! i), strs = [], others = []\<rparr>"
    if "i < length rows"
    using t [OF that] that l v(1) by (simp add: RawGetInt_def)
qed

lemma for_each_strings:
  "table_at L a = \<lparr>arr = map LString r, strs = [], others = []\<rparr> \<Longrightarrow>
   for_each L a = zip (map (\<lambda>i. LNumber (float_of_int (int i))) [1..<Suc (length r)]) (map LString r)"
  by (auto simp: for_each_def enum_arr_def filter_id_conv dest!: set_zip_rightD simp del: upt_Suc)

lemma concat_zip_fst:
  "length xs = length ys \<Longrightarrow> concat (map (\<lambda>kv. f (fst kv)) (zip xs ys)) = concat (map f xs)"
  by (induction xs ys rule: list_induct2) auto

lemma number_keys_strings:
  assumes "table_at L a = \<lparr>arr = map LString r, strs = [], others = []\<rparr>" "length r \<le> 2 ^ 53"
  shows "number_keys L a = map int [1..<Suc (length r)]"
proof -
  have k: "map (\<lambda>i. go_int (float_of_int (int i))) [Suc 0..<Suc (length r)] = map int [Suc 0..<Suc (length r)]"
    using assms(2) by (intro map_cong refl) (auto intro!: go_int_float_of_int)
  then have "number_keys L a = sort (map int [1..<Suc (length r)])"
    by (simp add: number_keys_def for_each_strings [OF assms(1)] concat_zip_fst comp_def concat_map_singleton k del: upt_Suc)
  then show ?thesis by (simp add: sorted_sort_id sorted_map del: upt_Suc)
qed

lemma row_cells_strings:
  assumes "table_at L a = \<lparr>arr = map LString r, strs = [], others = []\<rparr>" "length r \<le> 2 ^ 53"
  shows "row_cells show_other L False names a = r"
  using map_RawGetInt [of L a "map LString r" "lv_string show_other"] assms
  by (simp add: row_cells_def number_keys_strings comp_def del: upt_Suc)

lemma concat_rows:
  assumes "\<And>i. n \<le> i \<Longrightarrow> i < m \<Longrightarrow> \<exists>a. g (Suc i) = LTable a \<and> f a = h i"
  shows "concat (map (\<lambda>i. case g i of LTable a \<Rightarrow> [f a] | _ \<Rightarrow> []) [Suc n..<Suc m]) = map h [n..<m]"
proof -
  have "map (\<lambda>i. case g i of LTable a \<Rightarrow> [f a] | _ \<Rightarrow> []) [Suc n..<Suc m] = map (\<lambda>i. [h i]) [n..<m]"
    unfolding map_Suc_upt [symmetric] using assms by (force simp del: upt_Suc)
  then show ?thesis by (simp add: concat_map_singleton del: upt_Suc)
qed

lemma csv_rows_strings:
  assumes "rep leaf L lo (LTable d) (string_rows rows)" "\<And>s. leaf (GString s) = LString s"
    "\<forall>r\<in>set rows. length r \<le> 2 ^ 53"
  shows "csv_rows show_other L False d = rows"
proof -
  note r = rep_string_rows [OF assms(1,2)]
  have "concat (map (\<lambda>i. case RawGetInt L d (int i) of LTable a \<Rightarrow> [row_cells show_other L False [] a] | _ \<Rightarrow> [])
      [Suc 0..<Suc (length rows)]) = map ((!) rows) [0..<length rows]"
    using r(2) assms(3) row_cells_strings by (intro concat_rows) (metis nth_mem)
  then show ?thesis
    by (simp add: csv_rows_def r(1) Let_def map_nth del: upt_Suc cong del: lua_value.case_cong_weak)
qed

lemma stripBOM_text:
  assumes "sep_ok sep" "rows \<noteq> [] \<longrightarrow> hd rows \<noteq> [] \<longrightarrow> stripBOM (hd (hd rows)) = hd (hd rows)"
  shows "stripBOM (csv_text sep 34 rows) = csv_text sep 34 rows"
proof -
  let ?bom = "[CHR 0xEF, CHR 0xBB, CHR 0xBF]"
  have q: "(char_of sep :: char) \<notin> set ?bom"
  proof -
    have "(of_char (char_of sep :: char) :: nat) < 128" using assms(1) by (simp add: sep_ok_def of_char_of)
    then show ?thesis by (auto dest!: arg_cong [where f = "of_char :: char \<Rightarrow> nat"])
  qed
  have key: "take 3 (c @ x # t) \<noteq> ?bom" if "take 3 c \<noteq> ?bom" "x \<notin> set ?bom" for c x t
  proof
    assume h: "take 3 (c @ x # t) = ?bom"
    show False
    proof (cases "length c < 3")
      case True
      then obtain k where "3 - length c = Suc k" by (cases "3 - length c") auto
      then have "x \<in> set (take 3 (c @ x # t))" using True by simp
      with h that(2) show False by simp
    next
      case False
      with h that(1) show False by simp
    qed
  qed
  have "take 3 (csv_text sep 34 rows) \<noteq> ?bom"
  proof (cases "rows = [] \<or> hd rows = []")
    case True
    then show ?thesis
      by (cases rows) (auto simp: csv_text_Cons encodeCSVRow_def csv_text_def [of _ _ "[]"])
  next
    case False
    then obtain c cs rs where r: "rows = (c # cs) # rs" by (cases rows; cases "hd rows") auto
    have b: "take 3 c \<noteq> ?bom"
      using assms(2) r by (auto simp: stripBOM_def dest: arg_cong [where f = length])
    obtain x t where x: "csv_text sep 34 rows = csv_cell sep 34 c @ x # t" "x = lf \<or> x = char_of sep"
      using sep_char(1) [OF assms(1)] by (cases cs) (auto simp: r csv_text_Cons encodeCSVRow_def)
    then have "x \<notin> set ?bom" using q by auto
    then show ?thesis
      using key [OF b] unfolding x(1) csv_cell_default [OF assms(1)] by simp
  qed
  then show ?thesis by (simp add: stripBOM_def)
qed


section \<open>Properties\<close>

text \<open>
  A table of rows of strings written with \<^verbatim>\<open>csv_string\<close> and read with the same options
  (the default quote, an ASCII separator) gives the same rows, whatever quotes, separators and
  newlines the cells hold. The rows have one width, no cell holds a carriage return before a
  newline, a row is not one empty cell, and the text does not begin with a byte order mark.
\<close>

theorem csv_roundtrip:
  assumes "csvOpts L opts = (False, sep, 34)" "sep_ok sep"
    and "rep leaf L lo (LTable d) (string_rows rows)" "\<And>s. leaf (GString s) = LString s"
    and "list_all (readable_row w) rows" "w \<le> 2 ^ 53"
    and "rows \<noteq> [] \<longrightarrow> stripBOM (hd (hd rows)) = hd (hd rows)"
  shows "parseCSVGo L (csvString show_other L d opts) opts = Inr (CsvRows rows)"
proof -
  have w: "\<forall>r\<in>set rows. length r \<le> 2 ^ 53" using assms(5,6) by (auto simp: list_all_iff readable_row_def)
  have t: "csvString show_other L d opts = csv_text sep 34 rows"
    using csv_rows_strings [OF assms(3,4) w] by (simp add: csvString_def assms(1))
  have "stripBOM (csv_text sep 34 rows) = csv_text sep 34 rows"
    using assms(2,7) by (intro stripBOM_text) auto
  then show ?thesis
    using ReadAll_csv_text [OF assms(2,5)] by (simp add: t parseCSVGo_def assms(1) split: list.split)
qed

text \<open>
  A file is a rectangle or an error: in what \<^verbatim>\<open>csv_load\<close> and \<^verbatim>\<open>csv_parse\<close> deliver every
  row is as wide as the first, so the numbered names for cells beyond the header are never given.
\<close>

theorem csv_rectangle:
  assumes "ReadAll sep s = Inr (names # rs)" "row \<in> set rs"
  shows "map fst (named_cells names row) = names \<and> map snd (named_cells names row) = row"
proof -
  have l: "length row = length names" using ReadAll_rectangle [OF assms(1)] assms(2) by auto
  then have "map (cell_name names) [0..<length row] = names"
    by (auto simp: cell_name_def intro: nth_equalityI)
  with l show ?thesis by (simp add: named_cells_def)
qed

text \<open>
  With \<^verbatim>\<open>header = true\<close> a table of rows, the form the documentation shows, is not written: the
  header is the row's indices, sorted as text, and every cell of the other rows is nil.
\<close>

lemma csv_cells_header:
  assumes "rep leaf L lo (LTable d) (string_rows (r # rs))" "\<And>s. leaf (GString s) = LString s"
    "r \<noteq> []" "length r \<le> 2 ^ 53"
  shows "csv_rows show_other L True d
    = sort (map (\<lambda>i. itoa (int i)) [1..<Suc (length r)]) # map (\<lambda>_. replicate (length r) ''nil'') rs"
proof -
  note rp = rep_string_rows [OF assms(1,2)]
  obtain a where a: "RawGetInt L d 1 = LTable a" "table_at L a = \<lparr>arr = map LString r, strs = [], others = []\<rparr>"
    using rp(2) [of 0] by auto
  let ?ns = "sort (map (\<lambda>i. itoa (int i)) [1..<Suc (length r)])"
  have k: "map (\<lambda>i. itoa (go_int (float_of_int (int i)))) [Suc 0..<Suc (length r)] =
      map (\<lambda>i. itoa (int i)) [Suc 0..<Suc (length r)]"
    using assms(4) by (intro map_cong refl) (auto intro!: arg_cong [where f = itoa] go_int_float_of_int)
  then have names: "tableStringKeys L a = ?ns"
    by (simp add: tableStringKeys_def for_each_strings [OF a(2)] concat_zip_fst comp_def concat_map_singleton k del: upt_Suc)
  have len: "length ?ns = length r" "?ns \<noteq> []" using assms(3) by (auto simp del: upt_Suc dest: arg_cong [where f = length])
  have "row_cells show_other L True ?ns b = replicate (length r) ''nil''"
    if "table_at L b = \<lparr>arr = map LString q, strs = [], others = []\<rparr>" for b q
    using len that by (simp add: row_cells_def RawGetString_def map_replicate_const del: upt_Suc)
  then have "\<exists>b. RawGetInt L d (int (Suc i)) = LTable b \<and> row_cells show_other L True ?ns b = replicate (length r) ''nil''"
    if "i < Suc (length rs)" for i
    using rp(2) [of i] that by (metis length_Cons)
  then have "concat (map (\<lambda>i. case RawGetInt L d (int i) of LTable b \<Rightarrow> [row_cells show_other L True ?ns b] | _ \<Rightarrow> [])
      [Suc 1..<Suc (Suc (length rs))]) = map (\<lambda>_. replicate (length r) ''nil'') [1..<Suc (length rs)]"
    by (intro concat_rows) auto
  then show ?thesis
    using rp(1) by (simp add: csv_rows_def a(1) names Let_def numeral_2_eq_2 map_replicate_const del: upt_Suc cong del: lua_value.case_cong_weak)
qed

theorem csv_header_loses_rows:
  assumes "csvOpts L opts = (True, sep, quote)"
    and "rep leaf L lo (LTable d) (string_rows (r # rs))" "\<And>s. leaf (GString s) = LString s"
    and "r \<noteq> []" "length r \<le> 2 ^ 53"
  shows "csvString show_other L d opts =
    csv_text sep quote (sort (map (\<lambda>i. itoa (int i)) [1..<Suc (length r)]) # map (\<lambda>_. replicate (length r) ''nil'') rs)"
  using csv_cells_header [OF assms(2-5)] by (simp add: csvString_def assms(1))


section \<open>Witnesses\<close>

definition demo_cells :: "string list list" where
  "demo_cells = [[''id'', ''na,me''], [[dquote], [CHR ''a'', lf]]]"

definition demo_opts :: lua_state where
  "demo_opts = fst (GoValueToLua (GMap [(''header'', GBool True)]) blank_state)"

definition demo_state :: lua_state where
  "demo_state = fst (GoValueToLua (string_rows demo_cells) demo_opts)"

lemma demo_rep: "rep (leaf_of GoValueToLua) demo_state 1 (LTable 1) (string_rows demo_cells)"
proof -
  have h: "heap_ok demo_opts" and n: "next_addr demo_opts = 1"
    by (auto simp: demo_opts_def heap_ok_def blank_state_def NewTable_def RawSetString_def set_table_def
        table_at_def empty_table_def)
  have "shape (leaf_of GoValueToLua) (string_rows demo_cells)" by (simp add: demo_cells_def)
  note r = common_conv.conv_represents [OF this h, unfolded n, folded demo_state_def]
  have "snd (GoValueToLua (string_rows demo_cells) demo_opts) = LTable 1"
    using n by (simp add: NewTable_def split: prod.split)
  with r show ?thesis by (simp only:)
qed

theorem csv_roundtrip_witness:
  "parseCSVGo demo_state (csvString (\<lambda>_. []) demo_state 1 None) None = Inr (CsvRows demo_cells)"
  by (rule csv_roundtrip [OF _ _ demo_rep, where sep = 44 and w = 2])
    (simp_all add: csvOpts_def sep_ok_def valid_delim_def demo_cells_def readable_row_def stripBOM_def)

theorem csv_header_loses_rows_witness:
  "csvString (\<lambda>_. []) demo_state 1 (Some 0) = csv_text 44 34 [[''1'', ''2''], [''nil'', ''nil'']]"
proof -
  have "csvOpts demo_state (Some 0) = (True, 44, 34)" by code_simp
  moreover have "sort (map (\<lambda>i. itoa (int i)) [1..<Suc (length (hd demo_cells))]) = [''1'', ''2'']" by code_simp
  ultimately show ?thesis
    using csv_header_loses_rows [of demo_state "Some 0" 44 34 "leaf_of GoValueToLua" 1 1 "hd demo_cells" "tl demo_cells" "\<lambda>_. []"]
      demo_rep by (simp add: demo_cells_def)
qed

theorem csv_rectangle_witness:
  "map fst (named_cells [''a'', ''b''] [''1'', ''2'']) = [''a'', ''b''] \<and> map snd (named_cells [''a'', ''b''] [''1'', ''2'']) = [''1'', ''2'']"
proof -
  have "ReadAll 44 [CHR ''a'', CHR '','', CHR ''b'', lf, CHR ''1'', CHR '','', CHR ''2''] = Inr ([''a'', ''b''] # [[''1'', ''2'']])"
    by code_simp
  then show ?thesis by (rule csv_rectangle) simp
qed

end
