(* ===== verification/Ini_Text.thy ===== *)
theory Ini_Text
  imports Csv_Text File_Ops
begin

text \<open>
  The INI part of \<^verbatim>\<open>internal/bindings/formats.go\<close>: the two parsers (\<^verbatim>\<open>parseINI\<close> into Lua
  tables, \<^verbatim>\<open>parseINIGo\<close> into Go maps), \<^verbatim>\<open>iniString\<close>, and the single-key calls
  \<^verbatim>\<open>ini_read\<close> and \<^verbatim>\<open>ini_write\<close> on files. Trimming treats ASCII text.
\<close>

section \<open>Lines\<close>

datatype ini_item = IniSkip | IniSection string | IniPair string string

definition ini_item :: "string \<Rightarrow> ini_item" where
  "ini_item rawLine =
     (let line = trim_space rawLine in
      if line = [] \<or> hd line = CHR '';'' \<or> hd line = CHR ''#'' then IniSkip
      else if hd line = CHR ''['' \<and> last line = CHR '']''
      then IniSection (trim_space (butlast (tl line)))
      else (case cut_at ''='' line of
              None \<Rightarrow> IniSkip
            | Some (k, v) \<Rightarrow> IniPair (trim_space k) (trim_space v)))"

definition ini_lines :: "string \<Rightarrow> string list" where
  "ini_lines data = split_on lf (stripBOM data)"

section \<open>Parsing into Go maps\<close>

type_synonym ini_map = "(string \<times> (string \<times> string) list) list"

definition pairs_of :: "ini_map \<Rightarrow> string \<Rightarrow> (string \<times> string) list" where
  "pairs_of m s = (case map_of m s of None \<Rightarrow> [] | Some kvs \<Rightarrow> kvs)"

fun ini_step :: "ini_item \<Rightarrow> ini_map \<times> string \<Rightarrow> ini_map \<times> string" where
  "ini_step IniSkip (m, cur) = (m, cur)"
| "ini_step (IniSection s) (m, cur) =
     (if map_of m s = None then (AList.update s [] m, s) else (m, s))"
| "ini_step (IniPair k v) (m, cur) =
     (AList.update cur (AList.update k v (pairs_of m cur)) m, cur)"

definition parseINIGo :: "string \<Rightarrow> ini_map" where
  "parseINIGo data = fst (fold ini_step (map ini_item (ini_lines data)) ([(''_root'', [])], ''_root''))"

section \<open>Parsing into Lua tables\<close>

fun ini_lua_step :: "nat \<Rightarrow> ini_item \<Rightarrow> lua_state \<times> nat \<Rightarrow> lua_state \<times> nat" where
  "ini_lua_step a IniSkip (L, cur) = (L, cur)"
| "ini_lua_step a (IniSection s) (L, cur) =
     (let (L1, b) = NewTable L in (RawSetString a s (LTable b) L1, b))"
| "ini_lua_step a (IniPair k v) (L, cur) = (RawSetString cur k (LString v) L, cur)"

definition parseINI :: "string \<Rightarrow> lua_state \<Rightarrow> lua_state \<times> nat" where
  "parseINI data L =
     (let (L1, a) = NewTable L; (L2, r) = NewTable L1; L3 = RawSetString a ''_root'' (LTable r) L2
      in (fst (fold (ini_lua_step a) (map ini_item (ini_lines data)) (L3, r)), a))"

text \<open>\<^verbatim>\<open>iniGoToLua\<close>, and the loop of \<^verbatim>\<open>ini_write\<close> that does the same.\<close>

fun set_sections :: "nat \<Rightarrow> ini_map \<Rightarrow> lua_state \<Rightarrow> lua_state" where
  "set_sections a [] L = L"
| "set_sections a (sp # m) L =
     (let (L1, b) = NewTable L
      in set_sections a m (RawSetString a (fst sp) (LTable b) (set_named b (snd sp) L1)))"

definition iniGoToLua :: "ini_map \<Rightarrow> lua_state \<Rightarrow> lua_state \<times> nat" where
  "iniGoToLua m L = (let (L1, a) = NewTable L in (set_sections a m L1, a))"

section \<open>Writing\<close>

definition escape_lines :: "string \<Rightarrow> string" where
  "escape_lines v = replace v [lf] [CHR 0x5C, CHR ''n'']"

definition writePairs :: "(lua_value \<Rightarrow> string) \<Rightarrow> lua_state \<Rightarrow> nat \<Rightarrow> string" where
  "writePairs show_other L a =
     concat (map (\<lambda>k. k @ ''='' @ escape_lines (lv_string show_other (RawGetString L a k)) @ [lf])
       (tableStringKeys L a))"

definition iniString :: "(lua_value \<Rightarrow> string) \<Rightarrow> lua_state \<Rightarrow> nat \<Rightarrow> string" where
  "iniString show_other L a =
     (case RawGetString L a ''_root'' of LTable r \<Rightarrow> writePairs show_other L r | _ \<Rightarrow> [])
     @ concat (map (\<lambda>s. if s = ''_root'' then []
                        else (case RawGetString L a s of
                                LTable b \<Rightarrow> ''['' @ s @ '']'' @ [lf] @ writePairs show_other L b
                              | _ \<Rightarrow> []))
         (tableStringKeys L a))"

section \<open>Single keys of a file\<close>

definition ini_get :: "ini_map \<Rightarrow> string \<Rightarrow> string \<Rightarrow> string" where
  "ini_get m section key =
     (case map_of m section of
        None \<Rightarrow> []
      | Some kvs \<Rightarrow> (case map_of kvs key of None \<Rightarrow> [] | Some v \<Rightarrow> v))"

definition ini_read ::
  "(string \<Rightarrow> string option) \<Rightarrow> file_env \<Rightarrow> sys_host \<Rightarrow> string \<Rightarrow> string \<Rightarrow> string \<Rightarrow> sys_op list \<Rightarrow>
   (host_error + string) \<times> sys_op list" where
  "ini_read links e host path section key =
     try_path links e path (\<lambda>p hist.
       let (a, hist1) = sys host (SReadFile p) hist in
       case err_of a of
         Some err \<Rightarrow> (Inl (wrap_error (''file error: cannot read '' @ path @ '': '') err), hist1)
       | None \<Rightarrow> (Inr (ini_get (parseINIGo (stripBOM (bytes_of a))) section key), hist1))"

definition ini_put :: "ini_map \<Rightarrow> string \<Rightarrow> string \<Rightarrow> string \<Rightarrow> ini_map" where
  "ini_put m section key v = AList.update section (AList.update key v (pairs_of m section)) m"

text \<open>The new text of the file: what could be read of it is parsed, changed and written whole.\<close>

definition ini_rewrite ::
  "(lua_value \<Rightarrow> string) \<Rightarrow> lua_state \<Rightarrow> string option \<Rightarrow> string \<Rightarrow> string \<Rightarrow> string \<Rightarrow> string" where
  "ini_rewrite show_other L old section key v =
     (let m = (case old of None \<Rightarrow> [] | Some data \<Rightarrow> parseINIGo (stripBOM data));
          (L1, a) = iniGoToLua (ini_put m section key v) L
      in iniString show_other L1 a)"

definition ini_write ::
  "(lua_value \<Rightarrow> string) \<Rightarrow> lua_state \<Rightarrow> (string \<Rightarrow> string option) \<Rightarrow> file_env \<Rightarrow> sys_host \<Rightarrow>
   string \<Rightarrow> string \<Rightarrow> string \<Rightarrow> string \<Rightarrow> sys_op list \<Rightarrow> (host_error + file_value) \<times> sys_op list" where
  "ini_write show_other L links e host path section key v =
     try_path links e path (\<lambda>p hist.
       let (a, hist1) = sys host (SReadFile p) hist;
           old = (if err_of a = None then Some (bytes_of a) else None)
       in case writeFileAtomic host p (ini_rewrite show_other L old section key v) hist1 of
            (Some err, hist2) \<Rightarrow> (Inl (wrap_error (''file error: cannot write '' @ path @ '': '') err), hist2)
          | (None, hist2) \<Rightarrow> (Inr FNil, hist2))"

section \<open>Trimmed text\<close>

definition trimmed :: "string \<Rightarrow> bool" where
  "trimmed s \<longleftrightarrow> s = [] \<or> \<not> is_space (hd s) \<and> \<not> is_space (last s)"

lemma trim_space_trimmed: "trimmed (trim_space s)"
proof -
  let ?u = "dropWhile is_space s" and ?w = "dropWhile is_space (rev (dropWhile is_space s))"
  show ?thesis
  proof (cases "?w = []")
    case False
    have "\<not> is_space (hd ?w)" using hd_dropWhile [OF False] .
    moreover have "last ?w = hd ?u"
    proof -
      have "suffix ?w (rev ?u)" by (rule suffix_dropWhile)
      then obtain x where "rev ?u = x @ ?w" by (auto simp: suffix_def)
      then have "?u = rev ?w @ rev x" by (metis rev_append rev_rev_ident)
      then have "hd ?u = hd (rev ?w)" using False by (metis hd_append2 rev_is_Nil_conv)
      then show ?thesis using hd_rev [of ?w] by metis
    qed
    moreover have "?u \<noteq> []" using False by (cases "?u = []") simp_all
    then have "\<not> is_space (hd ?u)" by (rule hd_dropWhile)
    ultimately show ?thesis using False by (simp add: trimmed_def trim_space_def hd_rev last_rev)
  qed (simp add: trimmed_def trim_space_def)
qed

lemma trim_space_fixed: "trimmed s \<Longrightarrow> trim_space s = s"
proof (cases "s = []")
  case False
  assume "trimmed s"
  with False have h: "\<not> is_space (hd s)" "\<not> is_space (last s)" by (auto simp: trimmed_def)
  have 1: "dropWhile is_space s = s" using h(1) False by (cases s) auto
  have 2: "dropWhile is_space (rev s) = rev s" using h(2) False by (cases s rule: rev_cases) auto
  show ?thesis by (simp add: trim_space_def 1 2)
qed simp

lemma set_trim_space: "set (trim_space s) \<subseteq> set s"
  by (auto simp: trim_space_def dest!: set_dropWhileD)

lemma trim_space_hd: "s \<noteq> [] \<Longrightarrow> \<not> is_space (hd s) \<Longrightarrow> trim_space s \<noteq> [] \<and> hd (trim_space s) = hd s"
proof -
  assume s: "s \<noteq> []" "\<not> is_space (hd s)"
  then have 1: "dropWhile is_space s = s" by (cases s) auto
  obtain c r where "s = c # r" using s by (cases s) auto
  then have "dropWhile is_space (rev s) = dropWhile is_space (rev r) @ [c]"
    using s(2) by (simp add: dropWhile_append)
  with \<open>s = c # r\<close> s(2) show ?thesis by (simp add: trim_space_def)
qed

lemma trim_space_last: "s \<noteq> [] \<Longrightarrow> \<not> is_space (last s) \<Longrightarrow> trim_space s \<noteq> [] \<and> last (trim_space s) = last s"
proof -
  assume s: "s \<noteq> []" "\<not> is_space (last s)"
  obtain r c where "s = r @ [c]" using s by (cases s rule: rev_cases) auto
  then have "dropWhile is_space s = dropWhile is_space r @ [c]"
    using s(2) by (auto simp: dropWhile_append dropWhile_eq_Nil_conv)
  then show ?thesis using s(2) \<open>s = r @ [c]\<close> by (simp add: trim_space_def)
qed


section \<open>A parsed line is written as a line that parses the same\<close>

lemma cut_at_eq: "cut_at [q] s = Some (a, b) \<longleftrightarrow> s = a @ q # b \<and> q \<notin> set a"
proof (induction s arbitrary: a)
  case (Cons x s)
  show ?case
  proof (cases "x = q")
    case True
    then show ?thesis by (cases a) (auto simp: starts_at_def)
  next
    case False
    then show ?thesis using Cons.IH by (cases a) (auto simp: starts_at_def)
  qed
qed simp

lemma cut_at_none: "cut_at [q] s = None \<longleftrightarrow> q \<notin> set s"
  by (induction s) (auto simp: starts_at_def)

text \<open>Text of one line, in ASCII.\<close>

definition ascii_text :: "string \<Rightarrow> bool" where
  "ascii_text s \<longleftrightarrow> (\<forall>c\<in>set s. byte_of c < 128)"

definition clean_text :: "string \<Rightarrow> bool" where
  "clean_text s \<longleftrightarrow> lf \<notin> set s \<and> ascii_text s"

lemma clean_text_sub: "clean_text s \<Longrightarrow> set t \<subseteq> set s \<Longrightarrow> clean_text t"
  by (auto simp: clean_text_def ascii_text_def)

lemma stripBOM_ascii: "ascii_text s \<Longrightarrow> stripBOM s = s"
  by (cases s) (auto simp: stripBOM_def ascii_text_def)

definition pair_ok :: "string \<Rightarrow> string \<Rightarrow> bool" where
  "pair_ok k v \<longleftrightarrow> ini_item (k @ ''='' @ v) = IniPair k v \<and> clean_text k \<and> clean_text v"

definition section_ok :: "string \<Rightarrow> bool" where
  "section_ok s \<longleftrightarrow> trimmed s \<and> clean_text s"

lemma section_ok_item: "section_ok s \<Longrightarrow> ini_item (''['' @ s @ '']'') = IniSection s"
proof -
  assume s: "section_ok s"
  have "trimmed (''['' @ s @ '']'')" by (simp add: trimmed_def is_space_def)
  from trim_space_fixed [OF this] show ?thesis
    using s by (simp add: ini_item_def section_ok_def trim_space_fixed Let_def butlast_append)
qed

lemma parsed_section_ok: "ini_item raw = IniSection s \<Longrightarrow> clean_text raw \<Longrightarrow> section_ok s"
proof -
  assume i: "ini_item raw = IniSection s" and n: "clean_text raw"
  let ?l = "trim_space raw"
  have s: "s = trim_space (butlast (tl ?l))"
    using i by (auto simp: ini_item_def Let_def split: if_splits option.splits prod.splits)
  then have "set s \<subseteq> set ?l"
    using set_trim_space [of "butlast (tl ?l)"] by (auto dest: in_set_butlastD list.set_sel(2))
      (metis in_set_butlastD list.set_sel(2) subset_iff tl_Nil)
  then show ?thesis
    using clean_text_sub [OF n, of s] set_trim_space [of raw] by (auto simp: section_ok_def s trim_space_trimmed)
qed

text \<open>A line of a key and a value is one as long as the key does not start a comment or a section.\<close>

lemma pair_item:
  assumes "trimmed k" "trimmed v" "CHR ''='' \<notin> set k"
    "hd (k @ ''='') \<noteq> CHR '';''" "hd (k @ ''='') \<noteq> CHR ''#''"
    "\<not> (hd (k @ ''='') = CHR ''['' \<and> last (''='' @ v) = CHR '']'')"
  shows "ini_item (k @ ''='' @ v) = IniPair k v"
proof -
  have "trimmed (k @ ''='' @ v)"
    using assms(1,2) by (auto simp: trimmed_def hd_append last_append is_space_def)
  from trim_space_fixed [OF this] have t: "trim_space (k @ ''='' @ v) = k @ ''='' @ v" .
  have h: "hd (k @ ''='' @ v) = hd (k @ ''='')" "last (k @ ''='' @ v) = last (''='' @ v)"
    by (auto simp: hd_append)
  have c: "cut_at ''='' (k @ ''='' @ v) = Some (k, v)"
    using assms(3) by (simp add: cut_at_eq)
  show ?thesis
    using assms unfolding ini_item_def t Let_def h c
    by (simp add: trim_space_fixed)
qed

lemma pair_plain: "trimmed k \<Longrightarrow> trimmed v \<Longrightarrow> CHR ''='' \<notin> set k \<Longrightarrow> clean_text k \<Longrightarrow> clean_text v \<Longrightarrow>
    k = [] \<or> hd k \<notin> {CHR '';'', CHR ''#'', CHR ''[''} \<Longrightarrow> pair_ok k v"
  unfolding pair_ok_def by (intro conjI pair_item) (auto simp: hd_append)

lemma parsed_pair_ok: "ini_item raw = IniPair k v \<Longrightarrow> clean_text raw \<Longrightarrow> pair_ok k v"
proof -
  assume i: "ini_item raw = IniPair k v" and n: "clean_text raw"
  let ?l = "trim_space raw"
  obtain k0 v0 where kv: "cut_at ''='' ?l = Some (k0, v0)" "k = trim_space k0" "v = trim_space v0"
    and l: "hd ?l \<noteq> CHR '';''" "hd ?l \<noteq> CHR ''#''" "\<not> (hd ?l = CHR ''['' \<and> last ?l = CHR '']'')"
    using i by (auto simp: ini_item_def Let_def split: if_splits option.splits prod.splits)
  have e: "?l = k0 @ CHR ''='' # v0" "CHR ''='' \<notin> set k0" using kv(1) by (auto simp: cut_at_eq)
  have t: "trimmed ?l" by (rule trim_space_trimmed)
  have h: "hd (k @ ''='') = hd ?l"
  proof (cases "k0 = []")
    case False
    then have "\<not> is_space (hd k0)" using t e by (auto simp: trimmed_def hd_append)
    then show ?thesis using trim_space_hd [OF False] e kv(2) False by (simp add: hd_append)
  qed (use e kv in simp)
  have la: "last (''='' @ v) = last ?l"
  proof (cases "v0 = []")
    case False
    then have "\<not> is_space (last v0)" using t e by (auto simp: trimmed_def)
    then show ?thesis using trim_space_last [OF False] e kv(3) False by simp
  qed (use e kv in simp)
  have "CHR ''='' \<notin> set k" using e(2) set_trim_space [of k0] kv(2) by auto
  then have "ini_item (k @ ''='' @ v) = IniPair k v"
    using l h la kv(2,3) by (intro pair_item) (simp_all add: trim_space_trimmed)
  moreover have "clean_text k" "clean_text v"
    using set_trim_space [of raw] set_trim_space [of k0] set_trim_space [of v0] e kv
    by (auto intro!: clean_text_sub [OF n])
  ultimately show ?thesis by (simp add: pair_ok_def)
qed


section \<open>What a text means\<close>

definition ini_abs :: "ini_map \<Rightarrow> string \<Rightarrow> string \<Rightarrow> string option" where
  "ini_abs m s = map_of (pairs_of m s)"

lemma ini_get_abs: "ini_get m s k = (case ini_abs m s k of None \<Rightarrow> [] | Some v \<Rightarrow> v)"
  by (simp add: ini_get_def ini_abs_def pairs_of_def split: option.split)

definition put_pairs :: "(string \<times> string) list \<Rightarrow> (string \<Rightarrow> string option) \<Rightarrow> string \<Rightarrow> string option" where
  "put_pairs kvs m = fold (\<lambda>kv m. m(fst kv \<mapsto> snd kv)) kvs m"

lemma put_pairs_Cons: "put_pairs (kv # kvs) m = put_pairs kvs (m(fst kv \<mapsto> snd kv))"
  by (simp add: put_pairs_def)

lemma put_pairs_distinct: "distinct (map fst kvs) \<Longrightarrow> put_pairs kvs m = m ++ map_of kvs"
proof (induction kvs arbitrary: m)
  case (Cons kv kvs)
  then have "put_pairs (kv # kvs) m = m(fst kv \<mapsto> snd kv) ++ map_of kvs" by (simp add: put_pairs_def)
  also have "\<dots> = m ++ map_of (kv # kvs)"
  proof -
    have "map_of kvs (fst kv) = None" using Cons.prems by (simp add: map_of_eq_None_iff)
    then show ?thesis by (auto simp: fun_eq_iff map_add_def split: option.split)
  qed
  finally show ?case .
qed (simp add: put_pairs_def)

lemma step_pair_abs: "ini_abs (fst (ini_step (IniPair k v) (m, cur))) = (ini_abs m)(cur := (ini_abs m cur)(k \<mapsto> v))"
  by (auto simp: ini_abs_def pairs_of_def fun_eq_iff split: option.split)

lemma step_section_abs: "ini_abs (fst (ini_step (IniSection s) (m, cur))) = ini_abs m"
  by (auto simp: ini_abs_def pairs_of_def fun_eq_iff split: option.split)

lemma step_section_cur: "snd (ini_step (IniSection s) (m, cur)) = s"
  by simp

lemma fold_pairs:
  "ini_abs (fst (fold ini_step (map (\<lambda>kv. IniPair (fst kv) (snd kv)) kvs) (m, cur)))
     = (ini_abs m)(cur := put_pairs kvs (ini_abs m cur))
   \<and> snd (fold ini_step (map (\<lambda>kv. IniPair (fst kv) (snd kv)) kvs) (m, cur)) = cur"
proof (induction kvs arbitrary: m)
  case Nil
  then show ?case by (simp add: put_pairs_def)
next
  case (Cons kv kvs)
  obtain m1 where m1: "ini_step (IniPair (fst kv) (snd kv)) (m, cur) = (m1, cur)"
    "ini_abs m1 = (ini_abs m)(cur := (ini_abs m cur)(fst kv \<mapsto> snd kv))"
    using step_pair_abs [of "fst kv" "snd kv" m cur] by simp
  have "fold ini_step (map (\<lambda>kv. IniPair (fst kv) (snd kv)) (kv # kvs)) (m, cur)
      = fold ini_step (map (\<lambda>kv. IniPair (fst kv) (snd kv)) kvs) (m1, cur)"
    using m1(1) by (simp del: ini_step.simps)
  with Cons.IH [of m1, unfolded m1(2)] show ?case
    by (simp only: fun_upd_upd fun_upd_same put_pairs_Cons)
qed

definition section_items :: "(string \<Rightarrow> (string \<times> string) list) \<Rightarrow> string \<Rightarrow> ini_item list" where
  "section_items ps s = IniSection s # map (\<lambda>kv. IniPair (fst kv) (snd kv)) (ps s)"

lemma fold_sections:
  "distinct secs \<Longrightarrow>
   ini_abs (fst (fold ini_step (concat (map (section_items ps) secs)) (m, cur)))
     = (\<lambda>s. if s \<in> set secs then put_pairs (ps s) (ini_abs m s) else ini_abs m s)"
proof (induction secs arbitrary: m cur)
  case (Cons s secs)
  obtain m1 where m1: "ini_step (IniSection s) (m, cur) = (m1, s)" "ini_abs m1 = ini_abs m"
    using step_section_abs [of s m cur] step_section_cur [of s m cur]
    by (cases "ini_step (IniSection s) (m, cur)") auto
  obtain m2 where m2: "fold ini_step (map (\<lambda>kv. IniPair (fst kv) (snd kv)) (ps s)) (m1, s) = (m2, s)"
    "ini_abs m2 = (ini_abs m)(s := put_pairs (ps s) (ini_abs m s))"
    using fold_pairs [of "ps s" m1 s] m1(2)
    by (cases "fold ini_step (map (\<lambda>kv. IniPair (fst kv) (snd kv)) (ps s)) (m1, s)") auto
  have "fold ini_step (concat (map (section_items ps) (s # secs))) (m, cur)
      = fold ini_step (concat (map (section_items ps) secs)) (m2, s)"
    by (simp add: section_items_def m1(1) m2(1) del: ini_step.simps)
  moreover have "ini_abs m2 x = (if x = s then put_pairs (ps s) (ini_abs m s) else ini_abs m x)" for x
    using m2(2) by simp
  ultimately show ?case using Cons.IH [of m2 s] Cons.prems by (intro ext) auto
qed simp

text \<open>A map all of whose lines can be read back.\<close>

definition ini_ok :: "ini_map \<Rightarrow> bool" where
  "ini_ok m \<longleftrightarrow> alist_wf m \<and> (\<forall>(s, kvs)\<in>set m. section_ok s \<and> alist_wf kvs \<and> (\<forall>(k, v)\<in>set kvs. pair_ok k v))"

lemma ini_ok_pairs: "ini_ok m \<Longrightarrow> alist_wf (pairs_of m s) \<and> (\<forall>(k, v)\<in>set (pairs_of m s). pair_ok k v)"
  by (auto simp: ini_ok_def pairs_of_def split: option.split dest!: map_of_SomeD)

lemma ini_ok_put: "ini_ok m \<Longrightarrow> section_ok s \<Longrightarrow> pair_ok k v \<Longrightarrow> ini_ok (ini_put m s k v)"
proof -
  assume m: "ini_ok m" and s: "section_ok s" and kv: "pair_ok k v"
  have w: "alist_wf (AList.update k v (pairs_of m s))" using ini_ok_pairs [OF m, of s] by auto
  have p: "pair_ok a b" if "(a, b) \<in> set (AList.update k v (pairs_of m s))" for a b
    using alist_update_cases [OF that] kv ini_ok_pairs [OF m, of s] by auto
  have "section_ok a \<and> alist_wf b \<and> (\<forall>(k, v)\<in>set b. pair_ok k v)"
    if "(a, b) \<in> set (ini_put m s k v)" for a b
    using alist_update_cases [OF that [unfolded ini_put_def]] m s w p by (auto simp: ini_ok_def)
  moreover have "alist_wf (ini_put m s k v)" using m by (auto simp: ini_ok_def ini_put_def)
  ultimately show ?thesis by (fastforce simp: ini_ok_def)
qed

lemma ini_ok_section: "ini_ok m \<Longrightarrow> section_ok s \<Longrightarrow> map_of m s = None \<Longrightarrow> ini_ok (AList.update s [] m)"
proof -
  assume m: "ini_ok m" and s: "section_ok s"
  have "section_ok a \<and> alist_wf b \<and> (\<forall>(k, v)\<in>set b. pair_ok k v)"
    if "(a, b) \<in> set (AList.update s [] m)" for a b
    using alist_update_cases [OF that] m s by (auto simp: ini_ok_def)
  moreover have "alist_wf (AList.update s [] m)" using m by (auto simp: ini_ok_def)
  ultimately show ?thesis by (fastforce simp: ini_ok_def)
qed

lemma root_ok: "section_ok ''_root''"
  by (simp add: section_ok_def trimmed_def is_space_def clean_text_def ascii_text_def)

lemma split_on_chars: "l \<in> set (split_on c s) \<Longrightarrow> x \<in> set l \<Longrightarrow> x \<in> set s"
proof (induction s arbitrary: l)
  case (Cons y s)
  obtain z zs where "split_on c s = z # zs" by (cases "split_on c s") auto
  with Cons.prems Cons.IH [of z] Cons.IH [of l] show ?case by (auto split: if_splits)
qed simp

lemma parseINIGo_ok: "ascii_text data \<Longrightarrow> ini_ok (parseINIGo data)"
proof -
  assume a: "ascii_text data"
  have step: "ini_ok (fst (ini_step (ini_item l) st)) \<and> section_ok (snd (ini_step (ini_item l) st))"
    if "ini_ok (fst st)" "section_ok (snd st)" "clean_text l" for l st
  proof (cases "ini_item l")
    case IniSkip
    then show ?thesis using that by (cases st) simp
  next
    case (IniSection s)
    then show ?thesis using that parsed_section_ok [OF IniSection] ini_ok_section [of "fst st" s]
      by (cases st) auto
  next
    case (IniPair k v)
    then show ?thesis using that parsed_pair_ok [OF IniPair] ini_ok_put [of "fst st" "snd st" k v]
      by (cases st) (auto simp: ini_put_def)
  qed
  have "ini_ok (fst (fold ini_step (map ini_item ls) st)) \<and> section_ok (snd (fold ini_step (map ini_item ls) st))"
    if "ini_ok (fst st)" "section_ok (snd st)" "\<forall>l\<in>set ls. clean_text l" for ls st
    using that by (induction ls arbitrary: st) (simp_all add: step)
  moreover have "ini_ok [(''_root'', [])]" using root_ok by (simp add: ini_ok_def alist_wf_def)
  moreover have "\<forall>l\<in>set (ini_lines data). clean_text l"
    using a by (auto simp: ini_lines_def stripBOM_ascii clean_text_def ascii_text_def
        dest: split_on_no_sep split_on_chars)
  ultimately show ?thesis using root_ok by (simp add: parseINIGo_def)
qed


section \<open>The text of a map\<close>

definition pair_lines :: "(string \<times> string) list \<Rightarrow> string list" where
  "pair_lines kvs = map (\<lambda>kv. fst kv @ ''='' @ snd kv) kvs"

definition sorted_pairs :: "(string \<times> string) list \<Rightarrow> (string \<times> string) list" where
  "sorted_pairs kvs = map (\<lambda>k. (k, case map_of kvs k of None \<Rightarrow> [] | Some v \<Rightarrow> v)) (sort (map fst kvs))"

definition sections_of :: "ini_map \<Rightarrow> string list" where
  "sections_of m = filter (\<lambda>s. s \<noteq> ''_root'') (sort (map fst m))"

definition map_lines :: "ini_map \<Rightarrow> string list" where
  "map_lines m = pair_lines (sorted_pairs (pairs_of m ''_root''))
     @ concat (map (\<lambda>s. (''['' @ s @ '']'') # pair_lines (sorted_pairs (pairs_of m s))) (sections_of m))"

definition unlines :: "string list \<Rightarrow> string" where
  "unlines ls = concat (map (\<lambda>l. l @ [lf]) ls)"

lemma unlines_append [simp]: "unlines (a @ b) = unlines a @ unlines b" "unlines [] = []" "unlines (l # ls) = l @ [lf] @ unlines ls"
  by (simp_all add: unlines_def)

lemma unlines_concat: "unlines (concat ls) = concat (map unlines ls)"
  by (induction ls) simp_all

lemma split_unlines: "\<forall>l\<in>set ls. lf \<notin> set l \<Longrightarrow> split_on lf (unlines ls) = ls @ [[]]"
  by (induction ls) (auto simp: split_on_append)

lemma sorted_pairs_map: "alist_wf kvs \<Longrightarrow> map_of (sorted_pairs kvs) = map_of kvs \<and> distinct (map fst (sorted_pairs kvs))"
proof -
  assume "alist_wf kvs"
  then have "distinct (map fst (sorted_pairs kvs))" by (simp add: sorted_pairs_def alist_wf_def comp_def)
  moreover have "map_of (sorted_pairs kvs) k = map_of kvs k" for k
  proof (cases "k \<in> fst ` set kvs")
    case True
    then show ?thesis by (auto simp: sorted_pairs_def map_of_map_restrict restrict_map_def comp_def
        dest!: weak_map_of_SomeI split: option.splits)
  next
    case False
    then have "map_of kvs k = None" "map_of (sorted_pairs kvs) k = None"
      by (auto simp: map_of_eq_None_iff sorted_pairs_def image_image)
    then show ?thesis by simp
  qed
  ultimately show ?thesis by auto
qed

lemma sorted_pairs_sub: "(k, v) \<in> set (sorted_pairs kvs) \<Longrightarrow> map_of kvs k = Some v"
  by (auto simp: sorted_pairs_def image_iff dest!: weak_map_of_SomeI split: option.splits)

lemma map_lines_abs:
  assumes "ini_ok m"
  shows "ini_abs (parseINIGo (unlines (map_lines m))) = ini_abs m"
proof -
  let ?sp = "\<lambda>s. sorted_pairs (pairs_of m s)"
  have pr: "\<forall>kv\<in>set (?sp s). pair_ok (fst kv) (snd kv)" for s
    using ini_ok_pairs [OF assms(1), of s] sorted_pairs_sub [of _ _ "pairs_of m s"] by (fastforce dest: map_of_SomeD)
  have so: "\<forall>s\<in>set (sections_of m). section_ok s"
    using assms(1) by (auto simp: sections_of_def ini_ok_def)
  have pl: "clean_text l" if "l \<in> set (pair_lines (?sp s))" for s l
    using pr [of s] that by (auto simp: pair_lines_def pair_ok_def clean_text_def ascii_text_def)
  have nl: "\<forall>l\<in>set (map_lines m). clean_text l"
    using so pl by (auto simp: map_lines_def section_ok_def clean_text_def ascii_text_def)
  have it: "map ini_item (pair_lines (?sp s)) = map (\<lambda>kv. IniPair (fst kv) (snd kv)) (?sp s)" for s
    using pr [of s] by (simp add: pair_lines_def pair_ok_def)
  have secs: "map ini_item (concat (map (\<lambda>s. (''['' @ s @ '']'') # pair_lines (?sp s)) ss))
      = concat (map (section_items ?sp) ss)" if "\<forall>s\<in>set ss. section_ok s" for ss
    using that by (induction ss) (simp_all add: section_items_def it section_ok_item del: append_Cons append_Nil)
  have "ini_lines (unlines (map_lines m)) = map_lines m @ [[]]"
  proof -
    have "ascii_text (unlines (map_lines m))"
      using nl by (auto simp: unlines_def clean_text_def ascii_text_def)
    then show ?thesis using nl by (auto simp: ini_lines_def stripBOM_ascii clean_text_def intro!: split_unlines)
  qed
  then have "map ini_item (ini_lines (unlines (map_lines m))) =
      map (\<lambda>kv. IniPair (fst kv) (snd kv)) (?sp ''_root'') @ concat (map (section_items ?sp) (sections_of m)) @ [IniSkip]"
    by (simp add: map_lines_def it secs [OF so] del: append_Cons append_Nil) (simp add: ini_item_def)
  moreover have skip: "ini_step IniSkip st = st" for st by (cases st) simp
  ultimately have parsed: "parseINIGo (unlines (map_lines m)) =
      fst (fold ini_step (concat (map (section_items ?sp) (sections_of m)))
        (fold ini_step (map (\<lambda>kv. IniPair (fst kv) (snd kv)) (?sp ''_root'')) ([(''_root'', [])], ''_root'')))"
    by (simp add: parseINIGo_def skip del: ini_step.simps)
  obtain m1 where m1: "fold ini_step (map (\<lambda>kv. IniPair (fst kv) (snd kv)) (?sp ''_root'')) ([(''_root'', [])], ''_root'') = (m1, ''_root'')"
    "ini_abs m1 = (ini_abs [(''_root'', [])])(''_root'' := put_pairs (?sp ''_root'') (ini_abs [(''_root'', [])] ''_root''))"
    using fold_pairs [of "?sp ''_root''" "[(''_root'', [])]" "''_root''"]
    by (cases "fold ini_step (map (\<lambda>kv. IniPair (fst kv) (snd kv)) (?sp ''_root'')) ([(''_root'', [])], ''_root'')") auto
  have init: "ini_abs [(''_root'', [])] s = Map.empty" for s by (simp add: ini_abs_def pairs_of_def fun_eq_iff)
  have put: "put_pairs (?sp s) Map.empty = ini_abs m s" for s
    using sorted_pairs_map [of "pairs_of m s"] ini_ok_pairs [OF assms(1), of s] put_pairs_distinct [of "?sp s" Map.empty]
    by (simp add: ini_abs_def)
  have d: "distinct (sections_of m)" using assms(1) by (simp add: sections_of_def ini_ok_def alist_wf_def)
  have none: "ini_abs m s = Map.empty" if "s \<notin> set (sections_of m)" "s \<noteq> ''_root''" for s
    using that by (auto simp: sections_of_def ini_abs_def pairs_of_def map_of_eq_None_iff split: option.split dest: map_of_SomeD)
      (metis fst_conv image_eqI map_of_SomeD)
  have r: "''_root'' \<notin> set (sections_of m)" by (simp add: sections_of_def)
  show ?thesis
    unfolding parsed m1(1) fold_sections [OF d]
  proof
    fix s
    show "(if s \<in> set (sections_of m) then put_pairs (?sp s) (ini_abs m1 s) else ini_abs m1 s) = ini_abs m s"
      using r none [of s] put [of s] by (cases "s = ''_root''") (auto simp: m1(2) init put)
  qed
qed


section \<open>The text of the Lua table of a map\<close>

definition go_ini :: "ini_map \<Rightarrow> go_value" where
  "go_ini m = GMap (map (\<lambda>(s, kvs). (s, GMap (go_pairs kvs))) m)"

lemma set_named_conv: "set_named a kvs L = go_map_to_lua a (go_pairs kvs) L"
  by (induction kvs arbitrary: L) (auto split: prod.split)

lemma set_sections_conv: "set_sections a m L = go_map_to_lua a (map (\<lambda>(s, kvs). (s, GMap (go_pairs kvs))) m) L"
  by (induction m arbitrary: L) (auto simp: set_named_conv Let_def split: prod.split)

lemma iniGoToLua_conv: "GoValueToLua (go_ini m) L = (fst (iniGoToLua m L), LTable (snd (iniGoToLua m L)))"
  by (simp add: go_ini_def iniGoToLua_def set_sections_conv split: prod.split)

lemma escape_lines_plain: "lf \<notin> set v \<Longrightarrow> escape_lines v = v"
proof -
  have "replace_all [lf] t v = v" if "lf \<notin> set v" for t v
    using that by (induction v) (auto simp: starts_at_def)
  then show "lf \<notin> set v \<Longrightarrow> escape_lines v = v" by (simp add: escape_lines_def replace_def)
qed

lemma writePairs_text:
  assumes "table_at L b = \<lparr>arr = [], strs = map (\<lambda>(k, v). (k, LString v)) kvs, others = []\<rparr>"
    "\<forall>(k, v)\<in>set kvs. lf \<notin> set v" "alist_wf kvs"
  shows "writePairs show_other L b = unlines (pair_lines (sorted_pairs kvs))"
proof -
  have k: "tableStringKeys L b = sort (map fst kvs)"
    using keys_of_strs [OF assms(1)] by (auto simp: split_beta comp_def)
  have "escape_lines (lv_string show_other (RawGetString L b k)) = (case map_of kvs k of None \<Rightarrow> [] | Some v \<Rightarrow> v)"
    if k_in: "k \<in> fst ` set kvs" for k
  proof -
    obtain v where v: "map_of kvs k = Some v" using k_in by (auto dest: weak_map_of_SomeI)
    then have "RawGetString L b k = LString v" by (simp add: RawGetString_def assms(1) map_of_map)
    moreover have "lf \<notin> set v" using v assms(2) by (auto dest: map_of_SomeD)
    ultimately show ?thesis using v by (simp add: escape_lines_plain)
  qed
  then show ?thesis
    unfolding writePairs_def k unlines_def pair_lines_def sorted_pairs_def map_map comp_def
    by (intro arg_cong [where f = concat] map_cong refl) auto
qed

lemma iniString_text:
  assumes "ini_ok m" "heap_ok L" "iniGoToLua m L = (L1, a)"
  shows "iniString show_other L1 a = unlines (map_lines m)"
proof -
  let ?leaf = "leaf_of GoValueToLua"
  have wf: "distinct (map fst m)" "\<forall>(s, kvs)\<in>set m. distinct (map fst kvs)"
    using assms(1) by (auto simp: ini_ok_def alist_wf_def)
  then have "shape ?leaf (go_ini m)" by (auto simp: go_ini_def list_all_iff comp_def split_beta)
  from common_conv.conv_represents [OF this assms(2)]
  have "rep ?leaf L1 (next_addr L) (LTable a) (go_ini m)"
    using iniGoToLua_conv [of m L] assms(3) by simp
  then obtain ws where ws: "table_at L1 a = \<lparr>arr = [], strs = ws, others = []\<rparr>"
    "list_all2 (\<lambda>kv kg. fst kv = fst kg \<and> rep ?leaf L1 (Suc a) (snd kv) (snd kg)) ws
       (map (\<lambda>(s, kvs). (s, GMap (go_pairs kvs))) m)"
    by (auto simp: go_ini_def rep_Map_iff)
  have keys: "map fst ws = map fst m"
    using rep_map_keys [OF ws(2)] by (simp add: comp_def split_beta)
  have sec: "\<exists>b. RawGetString L1 a s = LTable b
      \<and> table_at L1 b = \<lparr>arr = [], strs = map (\<lambda>(k, v). (k, LString v)) (pairs_of m s), others = []\<rparr>"
    if s_in: "s \<in> fst ` set m" for s
  proof -
    obtain i where i: "i < length m" "fst (m ! i) = s" using s_in by (auto simp: in_set_conv_nth)
    have li: "i < length ws" using i(1) ws(2) by (auto dest: list_all2_lengthD)
    have "rep ?leaf L1 (Suc a) (snd (ws ! i)) (GMap (go_pairs (snd (m ! i))))" "fst (ws ! i) = s"
      using i li ws(2) by (auto simp: list_all2_conv_all_nth split_beta)
    moreover have "map_of ws s = Some (snd (ws ! i))"
      using li calculation(2) wf(1) keys by (intro map_of_is_SomeI) (auto simp: set_conv_nth)
    moreover have "map_of m s = Some (snd (m ! i))"
      using i wf(1) by (intro map_of_is_SomeI) (auto simp: set_conv_nth)
    ultimately show ?thesis
      using rep_pairs [of ?leaf L1 "Suc a" "snd (ws ! i)" "snd (m ! i)"]
      by (auto simp: RawGetString_def ws(1) pairs_of_def)
  qed
  have ok: "\<forall>(k, v)\<in>set (pairs_of m s). lf \<notin> set v" "alist_wf (pairs_of m s)" for s
    using ini_ok_pairs [OF assms(1), of s] by (auto simp: pair_ok_def clean_text_def)
  have outp: "(case RawGetString L1 a s of LTable b \<Rightarrow> pre @ writePairs show_other L1 b | _ \<Rightarrow> [])
      = pre @ unlines (pair_lines (sorted_pairs (pairs_of m s)))" if s_in: "s \<in> fst ` set m" for s pre
    using sec [OF s_in] writePairs_text [OF _ ok, of L1 _ s show_other] by auto
  have "\<forall>kv\<in>set ws. snd kv \<noteq> LNil"
    by (rule rep_map_solid [OF ws(2)]) (simp add: list_all_iff split_beta)
  then have all: "tableStringKeys L1 a = sort (map fst m)"
    using keys_of_strs [OF ws(1)] keys by simp
  have top: "(case RawGetString L1 a ''_root'' of LTable b \<Rightarrow> writePairs show_other L1 b | _ \<Rightarrow> [])
      = unlines (pair_lines (sorted_pairs (pairs_of m ''_root'')))"
  proof (cases "''_root'' \<in> fst ` set m")
    case True
    then show ?thesis using outp [of "''_root''" "[]"] by (simp cong del: lua_value.case_cong_weak)
  next
    case False
    then have "map_of ws ''_root'' = None" "map_of m ''_root'' = None"
      using keys by (simp_all add: map_of_eq_None_iff) (metis list.set_map)
    then show ?thesis by (simp add: RawGetString_def ws(1) pairs_of_def sorted_pairs_def pair_lines_def)
  qed
  have skip: "concat (map (\<lambda>s. if s = r then [] else f s) ss) = concat (map f (filter (\<lambda>s. s \<noteq> r) ss))"
    for f :: "string \<Rightarrow> string" and r ss by (induction ss) auto
  have body: "(case RawGetString L1 a s of LTable b \<Rightarrow> ''['' @ s @ '']'' @ [lf] @ writePairs show_other L1 b | _ \<Rightarrow> [])
      = (''['' @ s @ '']'' @ [lf]) @ unlines (pair_lines (sorted_pairs (pairs_of m s)))" if s_in: "s \<in> fst ` set m" for s
    using sec [OF s_in] writePairs_text [OF _ ok, of L1 _ s show_other] by auto
  have "concat (map (\<lambda>s. case RawGetString L1 a s of
        LTable b \<Rightarrow> ''['' @ s @ '']'' @ [lf] @ writePairs show_other L1 b | _ \<Rightarrow> []) (sections_of m))
      = concat (map (\<lambda>s. (''['' @ s @ '']'' @ [lf]) @ unlines (pair_lines (sorted_pairs (pairs_of m s)))) (sections_of m))"
    by (intro arg_cong [where f = concat] map_cong refl)
      (use body in \<open>auto simp: sections_of_def\<close>)
  then show ?thesis
    unfolding iniString_def top all skip sections_of_def [symmetric]
    by (simp add: map_lines_def unlines_concat comp_def)
qed


section \<open>Properties\<close>

text \<open>C37: 
  A file kept with \<^verbatim>\<open>ini_write\<close> is a map from section and key to value: after a write the key
  has the value, and every other key of every section has the value it had, comments and order
  aside. The file and the arguments are ASCII; section, key and value are trimmed and of one
  line, and the key starts neither a comment nor a section and holds no equals sign.
\<close>

theorem ini_write_updates:
  assumes "heap_ok L" "ascii_text old"
    and "trimmed s" "clean_text s"
    and "trimmed k" "clean_text k" "CHR ''='' \<notin> set k" "k = [] \<or> hd k \<notin> {CHR '';'', CHR ''#'', CHR ''[''}"
    and "trimmed v" "clean_text v"
  shows "ini_get (parseINIGo (ini_rewrite show_other L (Some old) s k v)) s' k'
    = (if s' = s \<and> k' = k then v else ini_get (parseINIGo old) s' k')"
proof -
  let ?m = "ini_put (parseINIGo old) s k v"
  have "ini_ok (parseINIGo old)" using assms(2) by (rule parseINIGo_ok)
  then have ok: "ini_ok ?m"
    using assms(3-) pair_plain [of k v] by (intro ini_ok_put) (auto simp: section_ok_def)
  obtain L1 a where "iniGoToLua ?m L = (L1, a)" by (cases "iniGoToLua ?m L")
  then have "ini_rewrite show_other L (Some old) s k v = unlines (map_lines ?m)"
    using iniString_text [OF ok assms(1)] assms(2) by (simp add: ini_rewrite_def stripBOM_ascii)
  then have "ini_abs (parseINIGo (ini_rewrite show_other L (Some old) s k v)) = ini_abs ?m"
    using map_lines_abs [OF ok] by simp
  moreover have "ini_abs ?m = (ini_abs (parseINIGo old))(s := (ini_abs (parseINIGo old) s)(k \<mapsto> v))"
    by (auto simp: ini_abs_def pairs_of_def ini_put_def fun_eq_iff split: option.split)
  ultimately show ?thesis by (simp add: ini_get_abs)
qed

definition demo_ini :: string where
  "demo_ini = ''v=1'' @ [lf] @ ''[a]'' @ [lf] @ ''x = 1'' @ [lf] @ ''[b]'' @ [lf] @ ''[a]'' @ [lf] @ ''y=2''"

theorem ini_write_updates_witness:
  "ini_get (parseINIGo (ini_rewrite (\<lambda>_. []) blank_state (Some demo_ini) ''a'' ''y'' ''3'')) ''a'' ''x'' = ''1''"
proof -
  have "heap_ok blank_state" by (simp add: heap_ok_def blank_state_def)
  moreover have "ascii_text demo_ini" by code_simp
  ultimately have "ini_get (parseINIGo (ini_rewrite (\<lambda>_. []) blank_state (Some demo_ini) ''a'' ''y'' ''3'')) ''a'' ''x''
      = (if ''a'' = ''a'' \<and> ''x'' = ''y'' then ''3'' else ini_get (parseINIGo demo_ini) ''a'' ''x'')"
    by (rule ini_write_updates)
      (simp_all add: trimmed_def clean_text_def ascii_text_def is_space_def)
  moreover have "ini_get (parseINIGo demo_ini) ''a'' ''x'' = ''1''" by code_simp
  ultimately show ?thesis by simp
qed

text \<open>
  The two parsers differ on a section that occurs twice: \<^verbatim>\<open>ini_load\<close> and \<^verbatim>\<open>ini_read\<close>
  collect its keys, \<^verbatim>\<open>ini_parse\<close> keeps only those of its last occurrence.
\<close>

theorem ini_parse_drops_section:
  "ini_get (parseINIGo demo_ini) ''a'' ''x'' = ''1''
   \<and> (case parseINI demo_ini blank_state of (L, d) \<Rightarrow>
        (case RawGetString L d ''a'' of LTable a \<Rightarrow> RawGetString L a ''x'' = LNil \<and> RawGetString L a ''y'' = LString ''2''
         | _ \<Rightarrow> False))"
  by code_simp

text \<open>A newline in a value is written as a backslash and an n, and read back as those two characters.\<close>

lemma ini_single_key:
  assumes "s \<noteq> ''_root''"
  shows "ini_rewrite show_other blank_state None s k v = ''['' @ s @ '']'' @ [lf] @ k @ ''='' @ escape_lines v @ [lf]"
proof -
  obtain L where L: "iniGoToLua (ini_put [] s k v) blank_state = (L, 0)"
    and t: "table_at L 0 = \<lparr>arr = [], strs = [(s, LTable (Suc 0))], others = []\<rparr>"
      "table_at L (Suc 0) = \<lparr>arr = [], strs = [(k, LString v)], others = []\<rparr>"
    by (simp add: iniGoToLua_def ini_put_def pairs_of_def NewTable_def blank_state_def RawSetString_def
        Let_def table_at_def set_table_def empty_table_def)
  have "tableStringKeys L 0 = [s]" "tableStringKeys L (Suc 0) = [k]"
    using keys_of_strs [OF t(1)] keys_of_strs [OF t(2)] by simp_all
  then show ?thesis
    using assms by (simp add: ini_rewrite_def L iniString_def writePairs_def RawGetString_def t)
qed

theorem ini_newline_not_restored:
  "ini_get (parseINIGo (ini_rewrite (\<lambda>_. []) blank_state None ''a'' ''x'' [CHR ''1'', lf, CHR ''2''])) ''a'' ''x''
     = [CHR ''1'', CHR 0x5C, CHR ''n'', CHR ''2'']"
proof -
  have "escape_lines [CHR ''1'', lf, CHR ''2''] = [CHR ''1'', CHR 0x5C, CHR ''n'', CHR ''2'']" by code_simp
  then have "ini_rewrite (\<lambda>_. []) blank_state None ''a'' ''x'' [CHR ''1'', lf, CHR ''2'']
      = ''[a]'' @ [lf] @ ''x=1'' @ [CHR 0x5C] @ ''n2'' @ [lf]"
    by (simp add: ini_single_key)
  moreover have "ini_get (parseINIGo (''[a]'' @ [lf] @ ''x=1'' @ [CHR 0x5C] @ ''n2'' @ [lf])) ''a'' ''x''
      = [CHR ''1'', CHR 0x5C, CHR ''n'', CHR ''2'']" by code_simp
  ultimately show ?thesis by simp
qed

end
