(* ===== verification/Xml_Text.thy ===== *)
theory Xml_Text
  imports Csv_Text
begin

text \<open>
  XML documents: \<^verbatim>\<open>internal/bindings/xml.go\<close> (\<^verbatim>\<open>parseXML\<close>, \<^verbatim>\<open>findNode\<close>,
  \<^verbatim>\<open>nodeToTable\<close> and the getters) and the XML part of
  \<^verbatim>\<open>internal/bindings/formats.go\<close> (\<^verbatim>\<open>nodeTable\<close>, \<^verbatim>\<open>writeXMLNode\<close>). The tokens
  come from the decoder of \<^verbatim>\<open>encoding/xml\<close>: a document is the list of tokens it delivers before
  its end or its first error, which the code does not tell apart.
\<close>

section \<open>Nodes\<close>

datatype xml_node = XNode (xml_name: string) (xml_attrs: "(string \<times> string) list") (xml_content: string)
  (xml_children: "xml_node list")

datatype xml_token = XStart string "(string \<times> string) list" | XEnd | XChars string | XOther

fun add_child :: "xml_node \<Rightarrow> xml_node \<Rightarrow> xml_node" where
  "add_child (XNode n as t ks) k = XNode n as t (ks @ [k])"

fun add_content :: "xml_node \<Rightarrow> string \<Rightarrow> xml_node" where
  "add_content (XNode n as t ks) s = XNode n as (t @ s) ks"

text \<open>
  The open elements are kept innermost first. The code links a child to its parent when it opens;
  here it is attached when it closes, which is the same order, and what is open at the end is
  closed.
\<close>

fun close_node :: "xml_node option \<times> xml_node list \<Rightarrow> xml_node option \<times> xml_node list" where
  "close_node (docroot, []) = (docroot, [])"
| "close_node (docroot, [n]) = (Some n, [])"
| "close_node (docroot, n # p # st) = (docroot, add_child p n # st)"

fun xml_step :: "xml_token \<Rightarrow> xml_node option \<times> xml_node list \<Rightarrow> xml_node option \<times> xml_node list" where
  "xml_step (XStart n as) (docroot, st) = (docroot, XNode n (store_all as) [] [] # st)"
| "xml_step XEnd s = close_node s"
| "xml_step (XChars s) (docroot, st) =
     (case st of
        [] \<Rightarrow> (docroot, [])
      | n # r \<Rightarrow> (let c = trim_space s in (docroot, (if c = [] then n else add_content n c) # r)))"
| "xml_step XOther s = s"

definition parseXML :: "xml_token list \<Rightarrow> xml_node option" where
  "parseXML toks =
     (let s = fold xml_step toks (None, []) in fst ((close_node ^^ length (snd s)) s))"

fun find_child :: "string \<Rightarrow> xml_node list \<Rightarrow> xml_node option" where
  "find_child part [] = None"
| "find_child part (k # ks) = (if xml_name k = part then Some k else find_child part ks)"

fun find_parts :: "string list \<Rightarrow> xml_node \<Rightarrow> xml_node option" where
  "find_parts [] cur = Some cur"
| "find_parts (part # parts) cur =
     (if part = [] then find_parts parts cur
      else (case find_child part (xml_children cur) of
              None \<Rightarrow> None
            | Some k \<Rightarrow> find_parts parts k))"

definition findNode :: "xml_node \<Rightarrow> string \<Rightarrow> xml_node option" where
  "findNode docroot path =
     (if path = [] \<or> path = ''/'' then Some docroot else find_parts (split_on (CHR ''/'') path) docroot)"

section \<open>Nodes as tables\<close>

text \<open>
  \<^verbatim>\<open>nodeToTable\<close> of the getters always sets all four fields, \<^verbatim>\<open>nodeTable\<close> of
  \<^verbatim>\<open>xml_load\<close> only those that are not empty. Both allocate and fill tables in the order of
  \<open>GoValueToLua\<close> on these trees.
\<close>

fun getter_tree :: "xml_node \<Rightarrow> go_value" where
  "getter_tree (XNode n as t ks) =
     GMap [(''name'', GString n), (''attrs'', GMap (go_pairs as)), (''content'', GString t),
           (''children'', GList (map getter_tree ks))]"

fun load_tree :: "xml_node \<Rightarrow> go_value" where
  "load_tree (XNode n as t ks) =
     GMap ([(''_name'', GString n)]
       @ (if as \<noteq> [] then [(''_attrs'', GMap (go_pairs as))] else [])
       @ (if ks \<noteq> [] then [(''_children'', GList (map load_tree ks))] else [])
       @ (if t \<noteq> [] then [(''_text'', GString t)] else []))"

definition nodeToTable :: "xml_node \<Rightarrow> lua_state \<Rightarrow> lua_state \<times> lua_value" where
  "nodeToTable n = GoValueToLua (getter_tree n)"

definition nodeTable :: "xml_node \<Rightarrow> lua_state \<Rightarrow> lua_state \<times> lua_value" where
  "nodeTable n = GoValueToLua (load_tree n)"

section \<open>The getters\<close>

text \<open>A handle is the parsed document, which has no element when the text had none.\<close>

datatype xml_get = GotNothing | Got lua_value | GotInvalid string

definition xml_root :: "xml_node option \<Rightarrow> xml_get" where
  "xml_root doc =
     (case doc of None \<Rightarrow> GotInvalid ''xml_root: invalid document handle'' | Some n \<Rightarrow> Got (LString (xml_name n)))"

definition with_node :: "string \<Rightarrow> xml_node option \<Rightarrow> string \<Rightarrow> (xml_node \<Rightarrow> lua_state \<Rightarrow> lua_state \<times> lua_value) \<Rightarrow>
    lua_state \<Rightarrow> lua_state \<times> xml_get" where
  "with_node what doc path f L =
     (case doc of
        None \<Rightarrow> (L, GotInvalid (what @ '': invalid document handle''))
      | Some docroot \<Rightarrow>
          (case findNode docroot path of
             None \<Rightarrow> (L, Got LNil)
           | Some n \<Rightarrow> (let (L1, v) = f n L in (L1, Got v))))"

definition xml_child :: "xml_node option \<Rightarrow> string \<Rightarrow> lua_state \<Rightarrow> lua_state \<times> xml_get" where
  "xml_child doc path = with_node ''xml_child'' doc path nodeToTable"

definition xml_child_list :: "xml_node option \<Rightarrow> string \<Rightarrow> lua_state \<Rightarrow> lua_state \<times> xml_get" where
  "xml_child_list doc path =
     with_node ''xml_child_list'' doc path (\<lambda>n. GoValueToLua (GList (map getter_tree (xml_children n))))"

definition xml_attr :: "xml_node option \<Rightarrow> string \<Rightarrow> string \<Rightarrow> lua_state \<Rightarrow> lua_state \<times> xml_get" where
  "xml_attr doc path attr =
     with_node ''xml_attr'' doc path
       (\<lambda>n L. (L, case map_of (xml_attrs n) attr of None \<Rightarrow> LNil | Some v \<Rightarrow> LString v))"

definition xml_content_of :: "xml_node option \<Rightarrow> string \<Rightarrow> lua_state \<Rightarrow> lua_state \<times> xml_get" where
  "xml_content_of doc path =
     with_node ''xml_content'' doc path (\<lambda>n L. (L, LString (xml_content n)))"

definition xml_attrs_of :: "xml_node option \<Rightarrow> string \<Rightarrow> lua_state \<Rightarrow> lua_state \<times> xml_get" where
  "xml_attrs_of doc path =
     with_node ''xml_attrs'' doc path (\<lambda>n. GoValueToLua (GMap (go_pairs (xml_attrs n))))"

definition xml_name_of :: "xml_node option \<Rightarrow> string \<Rightarrow> lua_state \<Rightarrow> lua_state \<times> xml_get" where
  "xml_name_of doc path = with_node ''xml_name'' doc path (\<lambda>n L. (L, LString (xml_name n)))"

section \<open>Writing\<close>

definition attr_char :: "char \<Rightarrow> string" where
  "attr_char c =
     (if c = CHR ''&'' then ''&amp;'' else if c = CHR 0x22 then ''&quot;''
      else if c = CHR ''<'' then ''&lt;'' else if c = CHR ''>'' then ''&gt;'' else [c])"

definition xmlAttrEscape :: "string \<Rightarrow> string" where
  "xmlAttrEscape s = concat (map attr_char s)"

definition element_name :: "(lua_value \<Rightarrow> string) \<Rightarrow> lua_state \<Rightarrow> nat \<Rightarrow> string" where
  "element_name show_other L a =
     (let n = lv_string show_other (RawGetString L a ''_name'')
      in if n \<noteq> [] then n
         else (case find (\<lambda>k. k \<notin> {''_attrs'', ''_children'', ''_text'', ''_name''}) (tableStringKeys L a) of
                 None \<Rightarrow> []
               | Some k \<Rightarrow> k))"

definition attr_text :: "string \<Rightarrow> string \<Rightarrow> string" where
  "attr_text k v = '' '' @ xmlEscape k @ ''='' @ [CHR 0x22] @ xmlAttrEscape v @ [CHR 0x22]"

definition element_attrs :: "(lua_value \<Rightarrow> string) \<Rightarrow> lua_state \<Rightarrow> nat \<Rightarrow> string" where
  "element_attrs show_other L a =
     (case RawGetString L a ''_attrs'' of
        LTable t \<Rightarrow> concat (map (\<lambda>k. attr_text k (lv_string show_other (RawGetString L t k))) (tableStringKeys L t))
      | _ \<Rightarrow> [])"

definition table_items :: "lua_state \<Rightarrow> lua_value \<Rightarrow> nat list" where
  "table_items L v =
     (case v of
        LTable c \<Rightarrow> concat (map (\<lambda>i. case RawGetInt L c (int i) of LTable k \<Rightarrow> [k] | _ \<Rightarrow> []) [1..<Suc (table_len L c)])
      | _ \<Rightarrow> [])"

definition xml_indent :: "nat \<Rightarrow> string" where
  "xml_indent d = concat (replicate d ''  '')"

text \<open>
  The depth guard refuses a depth above 200: the fuel is what is left of it, so fuel 0 is the
  guard's branch.
\<close>

fun writeXMLNode ::
  "(lua_value \<Rightarrow> string) \<Rightarrow> nat \<Rightarrow> nat \<Rightarrow> lua_state \<Rightarrow> nat \<Rightarrow> string + string" where
  "writeXMLNode show_other 0 d L a = Inl ''nesting too deep''"
| "writeXMLNode show_other (Suc k) d L a =
     (let name = element_name show_other L a;
          content = lv_string show_other (RawGetString L a ''_text'');
          start = xml_indent d @ ''<'' @ xmlEscape name @ element_attrs show_other L a;
          kids = table_items L (RawGetString L a ''_children'')
      in if name = [] then Inl ''xml_save: element has no name''
         else if kids = [] \<and> content = [] then Inr (start @ ''/>'' @ [lf])
         else if kids = [] then Inr (start @ ''>'' @ xmlEscape content @ ''</'' @ xmlEscape name @ ''>'' @ [lf])
         else (case collect (map (writeXMLNode show_other k (Suc d) L) kids) of
                 Inl err \<Rightarrow> Inl err
               | Inr ts \<Rightarrow>
                   Inr (start @ ''>'' @ (if content \<noteq> [] then xmlEscape content @ [lf] else []) @ concat ts
                        @ xml_indent d @ ''</'' @ xmlEscape name @ ''>'' @ [lf])))"

definition xml_save_text :: "(lua_value \<Rightarrow> string) \<Rightarrow> lua_state \<Rightarrow> nat \<Rightarrow> string + string" where
  "xml_save_text show_other L a = writeXMLNode show_other (Suc maxJSONDepth) 0 L a"

section \<open>What is written for a loaded document\<close>

text \<open>The document as text: indented elements with sorted attributes.\<close>

fun xml_print :: "nat \<Rightarrow> xml_node \<Rightarrow> string" where
  "xml_print d (XNode n as t ks) =
     (let start = xml_indent d @ ''<'' @ xmlEscape n
            @ concat (map (\<lambda>k. attr_text k (case map_of as k of None \<Rightarrow> [] | Some v \<Rightarrow> v)) (sort (map fst as)))
      in if ks = [] \<and> t = [] then start @ ''/>'' @ [lf]
         else if ks = [] then start @ ''>'' @ xmlEscape t @ ''</'' @ xmlEscape n @ ''>'' @ [lf]
         else start @ ''>'' @ (if t \<noteq> [] then xmlEscape t @ [lf] else []) @ concat (map (xml_print (Suc d)) ks)
              @ xml_indent d @ ''</'' @ xmlEscape n @ ''>'' @ [lf])"

text \<open>What the writer takes an element without text for.\<close>

fun nil_text :: "xml_node \<Rightarrow> xml_node" where
  "nil_text (XNode n as t ks) = XNode n as (if t = [] then ''nil'' else t) (map nil_text ks)"

fun xml_ok :: "nat \<Rightarrow> xml_node \<Rightarrow> bool" where
  "xml_ok 0 n = False"
| "xml_ok (Suc k) (XNode n as t ks) \<longleftrightarrow> n \<noteq> [] \<and> distinct (map fst as) \<and> list_all (xml_ok k) ks"

lemma rep_map_get:
  assumes "rep leaf L lo (LTable a) (GMap kgs)" "distinct (map fst kgs)"
  shows "(map_of kgs k = Some g \<longrightarrow> (\<exists>lo'. rep leaf L lo' (RawGetString L a k) g))
    \<and> (map_of kgs k = None \<longrightarrow> RawGetString L a k = LNil)"
proof -
  obtain ws where ws: "table_at L a = \<lparr>arr = [], strs = ws, others = []\<rparr>"
    "list_all2 (\<lambda>kv kg. fst kv = fst kg \<and> rep leaf L (Suc a) (snd kv) (snd kg)) ws kgs"
    using assms(1) by (auto simp: rep_Map_iff)
  have keys: "map fst ws = map fst kgs" using rep_map_keys [OF ws(2)] .
  have "\<exists>lo'. rep leaf L lo' (RawGetString L a k) g" if some: "map_of kgs k = Some g"
  proof -
    obtain i where i: "i < length kgs" "kgs ! i = (k, g)" using map_of_SomeD [OF some] by (auto simp: in_set_conv_nth)
    then have w: "i < length ws" "fst (ws ! i) = k" "rep leaf L (Suc a) (snd (ws ! i)) g"
      using ws(2) by (auto simp: list_all2_conv_all_nth)
    have "map_of ws k = Some (snd (ws ! i))"
      using w(1,2) keys assms(2) by (intro map_of_is_SomeI) (auto simp: set_conv_nth)
    with w(3) ws(1) show ?thesis by (auto simp: RawGetString_def)
  qed
  moreover have "RawGetString L a k = LNil" if none: "map_of kgs k = None"
  proof -
    have "k \<notin> fst ` set kgs" using none by (simp add: map_of_eq_None_iff)
    then have "map_of ws k = None" using keys by (metis list.set_map map_of_eq_None_iff)
    then show ?thesis by (simp add: RawGetString_def ws(1))
  qed
  ultimately show ?thesis by blast
qed


lemma rep_string: "rep leaf L lo v (GString s) \<Longrightarrow> (\<And>s. leaf (GString s) = LString s) \<Longrightarrow> v = LString s"
  by (auto elim: rep_leafE)

lemma element_attrs_text:
  assumes "rep leaf L lo (RawGetString L a ''_attrs'') (GMap (go_pairs as))" "\<And>s. leaf (GString s) = LString s"
    "distinct (map fst as)"
  shows "element_attrs show_other L a =
    concat (map (\<lambda>k. attr_text k (case map_of as k of None \<Rightarrow> [] | Some v \<Rightarrow> v)) (sort (map fst as)))"
proof -
  obtain b where b: "RawGetString L a ''_attrs'' = LTable b"
    "table_at L b = \<lparr>arr = [], strs = map (\<lambda>(k, v). (k, LString v)) as, others = []\<rparr>"
    using rep_pairs [OF assms(1,2)] by auto
  have k: "tableStringKeys L b = sort (map fst as)"
    using keys_of_strs [OF b(2)] by (auto simp: split_beta comp_def)
  have "lv_string show_other (RawGetString L b k) = (case map_of as k of None \<Rightarrow> [] | Some v \<Rightarrow> v)"
    if k_in: "k \<in> fst ` set as" for k
  proof -
    obtain v where "map_of as k = Some v" using k_in by (auto dest: weak_map_of_SomeI)
    then show ?thesis by (simp add: RawGetString_def b(2) map_of_map)
  qed
  then show ?thesis
    unfolding element_attrs_def b(1) lua_value.case k
    by (intro arg_cong [where f = concat] map_cong refl) auto
qed

lemma table_items_tree:
  assumes "rep leaf L lo v (GList (map load_tree ks))"
  shows "\<exists>as. table_items L v = as \<and> list_all2 (\<lambda>a k. \<exists>lo. rep leaf L lo (LTable a) (load_tree k)) as ks"
proof -
  obtain c vs where c: "v = LTable c" "table_at L c = \<lparr>arr = vs, strs = [], others = []\<rparr>"
    "list_all2 (rep leaf L (Suc c)) vs (map load_tree ks)"
    using assms by (auto simp: rep_List_iff)
  have el: "\<exists>a. vs ! i = LTable a \<and> rep leaf L (Suc c) (LTable a) (load_tree (ks ! i))" if i: "i < length ks" for i
  proof -
    have "rep leaf L (Suc c) (vs ! i) (load_tree (ks ! i))" using c(3) i by (auto simp: list_all2_conv_all_nth)
    then show ?thesis by (cases "ks ! i") (auto simp: rep_Map_iff)
  qed
  have len: "length vs = length ks" using c(3) by (auto dest: list_all2_lengthD)
  have "\<forall>x\<in>set vs. x \<noteq> LNil" using el len by (metis in_set_conv_nth lua_value.distinct(7))
  then have n: "table_len L c = length ks" using table_len_solid [of L c vs] c(2) len by simp
  define adr where "adr i = (case vs ! i of LTable a \<Rightarrow> a | _ \<Rightarrow> 0)" for i
  have "concat (map (\<lambda>i. case RawGetInt L c (int i) of LTable k \<Rightarrow> [k] | _ \<Rightarrow> []) [Suc 0..<Suc (length ks)])
      = map adr [0..<length ks]"
    using el len by (intro concat_rows) (force simp: RawGetInt_def c(2) adr_def)
  then have "table_items L v = map adr [0..<length ks]" by (simp add: table_items_def c(1) n)
  moreover have "list_all2 (\<lambda>a k. \<exists>lo. rep leaf L lo (LTable a) (load_tree k)) (map adr [0..<length ks]) ks"
    using el by (force simp: list_all2_conv_all_nth adr_def)
  ultimately show ?thesis by blast
qed

lemma collect_Inr: "list_all2 (\<lambda>x y. f x = Inr y) xs ys \<Longrightarrow> collect (map f xs) = Inr ys"
  by (induction rule: list_all2_induct) simp_all

lemma xml_save_prints:
  assumes "rep leaf L lo (LTable a) (load_tree n)" "\<And>s. leaf (GString s) = LString s" "xml_ok k n"
  shows "writeXMLNode show_other k d L a = Inr (xml_print d (nil_text n))"
  using assms
proof (induction n arbitrary: k d lo a)
  case (XNode n as t ks)
  obtain k' where k: "k = Suc k'" "n \<noteq> []" "distinct (map fst as)" "list_all (xml_ok k') ks"
    using XNode.prems(3) by (cases k) auto
  let ?kgs = "[(''_name'', GString n)]
       @ (if as \<noteq> [] then [(''_attrs'', GMap (go_pairs as))] else [])
       @ (if ks \<noteq> [] then [(''_children'', GList (map load_tree ks))] else [])
       @ (if t \<noteq> [] then [(''_text'', GString t)] else [])"
  have rep: "rep leaf L lo (LTable a) (GMap ?kgs)" using XNode.prems(1) by simp
  have d: "distinct (map fst ?kgs)" by auto
  note get = rep_map_get [OF rep d]
  have keys: "map_of ?kgs ''_name'' = Some (GString n)"
    "map_of ?kgs ''_text'' = (if t = [] then None else Some (GString t))"
    "map_of ?kgs ''_attrs'' = (if as = [] then None else Some (GMap (go_pairs as)))"
    "map_of ?kgs ''_children'' = (if ks = [] then None else Some (GList (map load_tree ks)))"
    by (cases "as = []"; cases "ks = []"; cases "t = []"; simp)+
  have "RawGetString L a ''_name'' = LString n"
    using get [of "''_name''" "GString n"] rep_string [OF _ XNode.prems(2)] unfolding keys by blast
  then have name: "element_name show_other L a = n"
    using k(2) by (simp add: element_name_def Let_def)
  have cont: "lv_string show_other (RawGetString L a ''_text'') = (if t = [] then ''nil'' else t)"
  proof (cases "t = []")
    case True
    then have "RawGetString L a ''_text'' = LNil" using get [of "''_text''"] unfolding keys by simp
    then show ?thesis using True by simp
  next
    case False
    then have "RawGetString L a ''_text'' = LString t"
      using get [of "''_text''" "GString t"] rep_string [OF _ XNode.prems(2)] unfolding keys by auto
    then show ?thesis using False by simp
  qed
  have attrs: "element_attrs show_other L a =
      concat (map (\<lambda>k. attr_text k (case map_of as k of None \<Rightarrow> [] | Some v \<Rightarrow> v)) (sort (map fst as)))"
  proof (cases "as = []")
    case True
    then have "RawGetString L a ''_attrs'' = LNil" using get [of "''_attrs''"] unfolding keys by simp
    with True show ?thesis by (simp add: element_attrs_def)
  next
    case False
    then obtain lo' where "rep leaf L lo' (RawGetString L a ''_attrs'') (GMap (go_pairs as))"
      using get [of "''_attrs''" "GMap (go_pairs as)"] unfolding keys by auto
    then show ?thesis using XNode.prems(2) k(3) by (rule element_attrs_text)
  qed
  obtain adr where adr: "table_items L (RawGetString L a ''_children'') = adr"
    "list_all2 (\<lambda>a k. \<exists>lo. rep leaf L lo (LTable a) (load_tree k)) adr ks"
  proof (cases "ks = []")
    case True
    then have "RawGetString L a ''_children'' = LNil" using get [of "''_children''"] unfolding keys by simp
    with True that show ?thesis by (simp add: table_items_def)
  next
    case False
    then obtain lo' where "rep leaf L lo' (RawGetString L a ''_children'') (GList (map load_tree ks))"
      using get [of "''_children''" "GList (map load_tree ks)"] unfolding keys by auto
    from table_items_tree [OF this] that show ?thesis by auto
  qed
  have "list_all2 (\<lambda>a y. writeXMLNode show_other k' (Suc d) L a = Inr y) adr (map (\<lambda>x. xml_print (Suc d) (nil_text x)) ks)"
    using adr(2) k(4) XNode.IH XNode.prems(2)
    by (auto simp: list_all2_conv_all_nth list_all_length)
  then have kids: "collect (map (writeXMLNode show_other k' (Suc d) L) adr) = Inr (map (xml_print (Suc d)) (map nil_text ks))"
    using collect_Inr by (simp add: comp_def)
  have empty: "adr = [] \<longleftrightarrow> ks = []" using adr(2) by auto
  show ?case
    using k(2) kids empty unfolding k(1) by (simp add: Let_def name cont attrs adr(1))
qed


lemma shape_load_tree: "xml_ok k n \<Longrightarrow> (\<And>s. leaf (GString s) = LString s) \<Longrightarrow> shape leaf (load_tree n)"
proof (induction n arbitrary: k)
  case (XNode n as t ks)
  then obtain k' where "distinct (map fst as)" "list_all (xml_ok k') ks" by (cases k) auto
  then have "distinct (map fst (go_pairs as))" "\<forall>x\<in>set ks. shape leaf (load_tree x)"
    using XNode.IH XNode.prems(2) by (auto simp: list_all_iff comp_def split_beta)
  moreover have "\<not> is_leaf (load_tree x)" for x by (cases x) simp
  ultimately show ?case using XNode.prems(2) by (auto simp: list_all_iff split_beta)
qed

section \<open>Reading the tokens of a document\<close>

fun tokens_of :: "xml_node \<Rightarrow> xml_token list" where
  "tokens_of (XNode n as t ks) =
     XStart n as # (if t = [] then [] else [XChars t]) @ concat (map tokens_of ks) @ [XEnd]"

fun token_ok :: "xml_node \<Rightarrow> bool" where
  "token_ok (XNode n as t ks) \<longleftrightarrow> distinct (map fst as) \<and> trim_space t = t \<and> list_all token_ok ks"

lemma fold_tokens:
  "token_ok n \<Longrightarrow> fold xml_step (tokens_of n) (r, st) = close_node (r, n # st)"
proof (induction n arbitrary: r st)
  case (XNode n as t ks)
  have as: "store_all as = as" and t: "trim_space t = t" and ks: "list_all token_ok ks"
    using XNode.prems by (auto intro: store_all_distinct)
  have kids: "fold xml_step (concat (map tokens_of xs)) (r, XNode n as t ys # st) = (r, XNode n as t (ys @ xs) # st)"
    if "set xs \<subseteq> set ks" for xs ys
    using that
  proof (induction xs arbitrary: ys)
    case (Cons x xs)
    then have "fold xml_step (tokens_of x) (r, XNode n as t ys # st) = close_node (r, x # XNode n as t ys # st)"
      using XNode.IH [of x] ks by (auto simp: list_all_iff)
    then show ?case using Cons by simp
  qed simp
  have "fold xml_step (XStart n as # (if t = [] then [] else [XChars t])) (r, st) = (r, XNode n as t [] # st)"
    using t by (simp add: as)
  then have "fold xml_step (tokens_of (XNode n as t ks)) (r, st) =
      fold xml_step (concat (map tokens_of ks) @ [XEnd]) (r, XNode n as t [] # st)"
    by (simp del: xml_step.simps add: fold_append [symmetric])
  then show ?case using kids [of ks "[]"] by simp
qed

text \<open>The tokens of a document give the document back, with names, attributes, text and order of children.\<close>

theorem xml_parse_tokens:
  assumes "token_ok n"
  shows "parseXML (tokens_of n) = Some n"
  using fold_tokens [OF assms, of None "[]"] by (simp add: parseXML_def)

theorem xml_parse_tokens_witness:
  "parseXML [XStart ''a'' [(''i'', ''1'')], XChars ''t'', XStart ''b'' [], XEnd, XEnd]
     = Some (XNode ''a'' [(''i'', ''1'')] ''t'' [XNode ''b'' [] [] []])"
  using xml_parse_tokens [of "XNode ''a'' [(''i'', ''1'')] ''t'' [XNode ''b'' [] [] []]"]
  by (simp add: trim_space_id is_space_def)

section \<open>Properties\<close>



end
