(* ===== verification/Yaml_Tree.thy ===== *)
theory Yaml_Tree
  imports Csv_Text
begin

text \<open>
  The YAML part of \<^verbatim>\<open>internal/bindings/formats.go\<close>: \<^verbatim>\<open>parseYAML\<close> with
  \<^verbatim>\<open>normalizeYAML\<close> and \<^verbatim>\<open>isYAMLDocs\<close>, the tables \<^verbatim>\<open>yaml_parse\<close> makes of it, and
  \<^verbatim>\<open>luaTreeToGo\<close>, the tree \<^verbatim>\<open>yaml_string\<close> hands to the encoder. The YAML library is outside:
  its decoder is the parameter \<open>(docs, err)\<close>, the documents it gives before the error that ends the
  stream, and the printed key of a map whose keys are not strings is \<open>show_key\<close>.
\<close>

section \<open>Decoded documents\<close>

text \<open>\<open>YTime\<close> holds the RFC 3339 text of a timestamp, \<open>YAny\<close> is a map with keys of any kind.\<close>

datatype yaml_node =
    YScalar go_value
  | YTime string
  | YSeq "yaml_node list"
  | YMap "(string \<times> yaml_node) list"
  | YAny "(yaml_node \<times> yaml_node) list"

fun normalizeYAML :: "(yaml_node \<Rightarrow> string) \<Rightarrow> yaml_node \<Rightarrow> go_value" where
  "normalizeYAML show_key (YScalar v) = v"
| "normalizeYAML show_key (YTime s) = GString s"
| "normalizeYAML show_key (YSeq ys) = GList (map (normalizeYAML show_key) ys)"
| "normalizeYAML show_key (YMap kvs) = GMap (map (\<lambda>kv. (fst kv, normalizeYAML show_key (snd kv))) kvs)"
| "normalizeYAML show_key (YAny kvs) =
     GMap (store_all (map (\<lambda>kv. (show_key (fst kv), normalizeYAML show_key (snd kv))) kvs))"

definition parseYAML :: "(yaml_node \<Rightarrow> string) \<Rightarrow> yaml_node list \<times> string \<Rightarrow> string + go_value" where
  "parseYAML show_key stream =
     (case stream of (docs, err) \<Rightarrow>
        (if err \<noteq> ''EOF'' then Inl err
         else Inr (case map (normalizeYAML show_key) docs of
                     [] \<Rightarrow> GNil
                   | [d] \<Rightarrow> d
                   | ds \<Rightarrow> GList ds)))"

definition isYAMLDocs :: "go_value list \<Rightarrow> bool" where
  "isYAMLDocs ds \<longleftrightarrow> ds \<noteq> [] \<and> list_all (\<lambda>d. case d of GMap kvs \<Rightarrow> True | _ \<Rightarrow> False) ds"

text \<open>What \<^verbatim>\<open>yaml_parse\<close> and \<^verbatim>\<open>yaml_load\<close> push: a list of documents, or the value as JSON has it.\<close>

definition yaml_value :: "(string \<Rightarrow> go_float option) \<Rightarrow> nat \<Rightarrow> go_value \<Rightarrow> lua_state \<Rightarrow> lua_state \<times> lua_value" where
  "yaml_value pf null v L =
     (case v of
        GList ds \<Rightarrow>
          (if isYAMLDocs ds then (let (L1, out) = NewTable L in (json_list pf null out 1 ds L1, LTable out))
           else convertJSONGo pf null v L)
      | _ \<Rightarrow> convertJSONGo pf null v L)"

definition yaml_parse ::
  "(string \<Rightarrow> go_float option) \<Rightarrow> nat \<Rightarrow> (yaml_node \<Rightarrow> string) \<Rightarrow> yaml_node list \<times> string \<Rightarrow> lua_state \<Rightarrow>
   string + (lua_state \<times> lua_value)" where
  "yaml_parse pf null show_key stream L =
     (case parseYAML show_key stream of
        Inl e \<Rightarrow> Inl (''yaml error: '' @ e)
      | Inr v \<Rightarrow> Inr (yaml_value pf null v L))"

section \<open>Writing\<close>

text \<open>
  \<^verbatim>\<open>luaTreeToGo\<close> with the tables on the current path in \<open>seen\<close>. It returns on every store, a
  cyclic one included: each step down takes a table of the heap that is not on the path yet.
\<close>

lemma table_of_heap: "table_at L a \<noteq> empty_table \<Longrightarrow> a \<in> set (map fst (heap L))"
  by (force simp: table_at_def dest: map_of_SomeD split: option.splits)

lemma table_len_heap: "0 < table_len L a \<Longrightarrow> a \<in> set (map fst (heap L))"
  by (rule table_of_heap) (auto simp: table_len_def empty_table_def)

lemma keys_heap: "k \<in> set (tableStringKeys L a) \<Longrightarrow> a \<in> set (map fst (heap L))"
  by (rule table_of_heap) (auto simp: tableStringKeys_def for_each_def empty_table_def enum_arr_def)

lemma fewer_left: "finite A \<Longrightarrow> a \<in> A \<Longrightarrow> a \<notin> set seen \<Longrightarrow> card (A - set (a # seen)) < card (A - set seen)"
  by (rule psubset_card_mono) auto

function luaTreeToGo ::
  "(lua_value \<Rightarrow> string) \<Rightarrow> nat option \<Rightarrow> lua_state \<Rightarrow> nat list \<Rightarrow> lua_value \<Rightarrow> string + go_value" where
  "luaTreeToGo show_other null L seen v =
     (case v of
        LNil \<Rightarrow> Inr GNil
      | LBool b \<Rightarrow> Inr (GBool b)
      | LNumber f \<Rightarrow> Inr (GFloat f)
      | LString s \<Rightarrow> Inr (GString s)
      | LTable a \<Rightarrow>
          (if null = Some a then Inr GNil
           else if a \<in> set seen then Inl ''circular reference''
           else if isArrayTable L a
           then map_sum id GList
                  (collect (map (\<lambda>i. luaTreeToGo show_other null L (a # seen) (RawGetInt L a (int i)))
                     [1..<Suc (table_len L a)]))
           else map_sum id GMap
                  (collect (map (\<lambda>k. map_sum id (Pair k)
                                       (luaTreeToGo show_other null L (a # seen) (RawGetString L a k)))
                     (sort (tableStringKeys L a)))))
      | LFunction f \<Rightarrow> Inr (GString (lv_string show_other v)))"
  by pat_completeness auto
termination
proof (relation "measure (\<lambda>(_, _, L, seen, _). card (set (map fst (heap L)) - set seen))", goal_cases)
  case (2 show_other null L seen v a i)
  then have "a \<in> set (map fst (heap L))" by (intro table_len_heap) (auto simp del: upt_Suc)
  with 2 have "card (set (map fst (heap L)) - set (a # seen)) < card (set (map fst (heap L)) - set seen)"
    by (intro fewer_left) simp_all
  then show ?case by (simp only: in_measure prod.case)
next
  case (3 show_other null L seen v a k)
  then have "a \<in> set (map fst (heap L))" by (intro keys_heap [of k]) simp
  with 3 have "card (set (map fst (heap L)) - set (a # seen)) < card (set (map fst (heap L)) - set seen)"
    by (intro fewer_left) simp_all
  then show ?case by (simp only: in_measure prod.case)
qed simp

declare luaTreeToGo.simps [simp del]

text \<open>What \<^verbatim>\<open>yaml_string\<close> gives the encoder for a tree that was read into Lua.\<close>

fun back_leaf :: "lua_value \<Rightarrow> go_value" where
  "back_leaf (LBool b) = GBool b"
| "back_leaf (LNumber f) = GFloat f"
| "back_leaf (LString s) = GString s"
| "back_leaf v = GNil"

fun yaml_back :: "(go_value \<Rightarrow> lua_value) \<Rightarrow> go_value \<Rightarrow> go_value" where
  "yaml_back leaf (GList gs) = (if gs = [] then GMap [] else GList (map (yaml_back leaf) gs))"
| "yaml_back leaf (GMap kgs) = GMap (sort_key fst (map (\<lambda>kg. (fst kg, yaml_back leaf (snd kg))) kgs))"
| "yaml_back leaf g = back_leaf (leaf g)"

fun short :: "go_value \<Rightarrow> bool" where
  "short (GList gs) = (length gs \<le> 2 ^ 53 \<and> list_all short gs)"
| "short (GMap kgs) = list_all (\<lambda>kg. short (snd kg)) kgs"
| "short g = True"

lemma yaml_back_leaf: "is_leaf g \<Longrightarrow> yaml_back leaf g = back_leaf (leaf g)"
  by (cases g) auto

text \<open>A leaf a conversion makes: a scalar, or the sentinel for null.\<close>

definition yaml_leaf :: "(go_value \<Rightarrow> lua_value) \<Rightarrow> nat \<Rightarrow> bool" where
  "yaml_leaf leaf null \<longleftrightarrow>
     (\<forall>g. is_leaf g \<longrightarrow> (\<forall>a. leaf g = LTable a \<longrightarrow> a = null) \<and> (\<forall>f. leaf g \<noteq> LFunction f))"

lemma luaTreeToGo_leaf:
  "is_leaf g \<Longrightarrow> yaml_leaf leaf null \<Longrightarrow> luaTreeToGo sh (Some null) L seen (leaf g) = Inr (yaml_back leaf g)"
  by (subst luaTreeToGo.simps)
    (auto simp: yaml_back_leaf yaml_leaf_def split: lua_value.split)

lemma luaTreeToGo_rep:
  "rep leaf L lo v g \<Longrightarrow> shape leaf g \<Longrightarrow> short g \<Longrightarrow> yaml_leaf leaf null \<Longrightarrow>
   (\<And>s. s \<in> set seen \<Longrightarrow> s < lo) \<Longrightarrow> null < lo \<Longrightarrow>
   luaTreeToGo sh (Some null) L seen v = Inr (yaml_back leaf g)"
proof (induction arbitrary: seen rule: rep.induct)
  case (rep_leaf g lo)
  show ?case using rep_leaf.hyps rep_leaf.prems(3) by (rule luaTreeToGo_leaf)
next
  case (rep_List lo a vs gs)
  have l2: "list_all2 (rep leaf L (Suc a)) vs gs" using rep_List.IH by (rule list_all2_mono) simp
  have solid: "\<forall>v\<in>set vs. v \<noteq> LNil" using rep_list_solid [OF l2] rep_List.prems(1) by simp
  have len: "table_len L a = length vs" using rep_List.hyps(3) solid by (simp add: table_len_solid)
  have lv: "length vs = length gs" using l2 by (rule list_all2_lengthD)
  have isarr: "isArrayTable L a \<longleftrightarrow> vs \<noteq> []"
    using rep_List.hyps(3) solid rep_List.prems(2) by (intro isArrayTable_list) (simp_all add: lv)
  have na: "null \<noteq> a" "a \<notin> set seen" using rep_List.prems(4,5) rep_List.hyps(1) by force+
  have seen': "s < Suc a" if "s \<in> set (a # seen)" for s
    using that rep_List.prems(4) rep_List.hyps(1) by force
  have null': "null < Suc a" using rep_List.prems(5) rep_List.hyps(1) by simp
  have "list_all2 (\<lambda>v g. luaTreeToGo sh (Some null) L (a # seen) v = Inr (yaml_back leaf g)) vs gs"
    unfolding list_all2_conv_all_nth
  proof (intro conjI allI impI)
    fix i assume i: "i < length vs"
    then have gi: "gs ! i \<in> set gs" by (simp add: lv)
    have "shape leaf (gs ! i)" "short (gs ! i)" using rep_List.prems(1,2) gi by (auto simp: list_all_iff)
    with list_all2_nthD [OF rep_List.IH i] rep_List.prems(3) seen' null'
    show "luaTreeToGo sh (Some null) L (a # seen) (vs ! i) = Inr (yaml_back leaf (gs ! i))" by blast
  qed (rule lv)
  then have co: "collect (map (luaTreeToGo sh (Some null) L (a # seen)) vs) = Inr (map (yaml_back leaf) gs)"
    by (rule collect_list_all2)
  have "map (\<lambda>i. luaTreeToGo sh (Some null) L (a # seen) (RawGetInt L a (int i))) [1..<Suc (length vs)]
      = map (luaTreeToGo sh (Some null) L (a # seen)) vs"
    using rep_List.hyps(3) by (intro map_RawGetInt) simp
  moreover have "tableStringKeys L a = []" if "vs = []"
    using that rep_List.hyps(3) by (simp add: keys_of_strs)
  ultimately show ?case
    using isarr na co lv by (subst luaTreeToGo.simps) (auto simp: len simp del: upt_Suc)
next
  case (rep_Map lo a kvs kgs)
  let ?R = "\<lambda>kv kg. fst kv = fst kg \<and> rep leaf L (Suc a) (snd kv) (snd kg)"
  have l2: "list_all2 ?R kvs kgs" using rep_Map.IH by (rule list_all2_mono) simp
  have solid: "\<forall>kv\<in>set kvs. snd kv \<noteq> LNil" using rep_map_solid [OF l2] rep_Map.prems(1) by simp
  have keys: "map fst kvs = map fst kgs" using l2 by (rule rep_map_keys)
  have lv: "length kvs = length kgs" using l2 by (rule list_all2_lengthD)
  have names: "tableStringKeys L a = sort (map fst kgs)"
    using keys_of_strs [OF rep_Map.hyps(3) solid] by (simp add: keys)
  have na: "null \<noteq> a" "a \<notin> set seen" using rep_Map.prems(4,5) rep_Map.hyps(1) by force+
  have seen': "s < Suc a" if "s \<in> set (a # seen)" for s
    using that rep_Map.prems(4) rep_Map.hyps(1) by force
  have null': "null < Suc a" using rep_Map.prems(5) rep_Map.hyps(1) by simp
  let ?w = "\<lambda>key. luaTreeToGo sh (Some null) L (a # seen) (RawGetString L a key)"
  have dk: "distinct (map fst kgs)" using rep_Map.prems(1) by simp
  have val: "?w key = Inr (yaml_back leaf g)" if kg: "(key, g) \<in> set kgs" for key g
  proof -
    obtain i where i: "i < length kgs" "kgs ! i = (key, g)" using kg by (auto simp: in_set_conv_nth)
    have iv: "i < length kvs" using i lv by simp
    have ih: "fst (kvs ! i) = key" "rep leaf L (Suc a) (snd (kvs ! i)) g" using list_all2_nthD [OF l2 iv] i by auto
    have "RawGetString L a key = snd (kvs ! i)"
      using rep_Map.hyps(3) dk ih(1) nth_mem [OF iv] by (intro RawGetString_map) (auto simp: keys prod_eq_iff)
    moreover have "shape leaf g" "short g" using rep_Map.prems(1,2) kg by (auto simp: list_all_iff)
    ultimately show ?thesis
      using list_all2_nthD [OF rep_Map.IH iv] i rep_Map.prems(3) seen' null' by simp
  qed
  define pairs where "pairs = map (\<lambda>kg. (fst kg, yaml_back leaf (snd kg))) kgs"
  have dp: "distinct (map fst pairs)" and mk: "map fst pairs = map fst kgs"
    using dk by (simp_all add: pairs_def comp_def)
  define item where "item = (\<lambda>key. map_sum id (Pair key) (?w key))"
  have "item key = Inr (key, g)" if "(key, g) \<in> set pairs" for key g
    using that val by (auto simp: pairs_def item_def)
  then have "map item (sort (map fst pairs)) = map Inr (sort_key fst pairs)"
    using dp by (intro sorted_pairs) auto
  then have "collect (map item (sort (sort (map fst kgs)))) = Inr (sort_key fst pairs)"
    using collect_map_Inr [of "sort_key fst pairs" Inr id] by (simp add: mk sorted_sort_id)
  then show ?case
    using na isArrayTable_map [OF rep_Map.hyps(3)]
    by (subst luaTreeToGo.simps) (simp add: names item_def pairs_def)
qed

section \<open>Properties\<close>


text \<open>
  \<^verbatim>\<open>convertJSONGo\<close> has no case for the floats the YAML decoder gives: a fractional number of a
  mapping is read as nil, so its key is missing from the table.
\<close>

theorem yaml_float_lost:
  "yaml_parse pf null show_key ([YMap [(k, YScalar (GFloat f))]], ''EOF'') L = Inr (L', LTable a) \<Longrightarrow>
   for_each L' a = []"
  by (auto simp: yaml_parse_def parseYAML_def yaml_value_def NewTable_def RawSetString_def table_at_def
      set_table_def empty_table_def for_each_def enum_arr_def)

text \<open>A table with string and number keys is written with null under each number.\<close>

theorem yaml_number_keys_null:
  "table_at L a = \<lparr>arr = [LString v], strs = [(''x'', LString w)], others = []\<rparr> \<Longrightarrow>
   luaTreeToGo sh None L [] (LTable a) = Inr (GMap [(''1'', GNil), (''x'', GString w)])"
proof -
  assume t: "table_at L a = \<lparr>arr = [LString v], strs = [(''x'', LString w)], others = []\<rparr>"
  have k: "go_int (float_of_int 1) = 1" using go_int_float_of_int [of 1] by simp
  have fe: "for_each L a = [(LNumber (float_of_int 1), LString v), (LString ''x'', LString w)]"
    by (simp add: for_each_def t enum_arr_def)
  have one: "itoa 1 = ''1''" by code_simp
  have srt: "sort (sort [itoa 1, ''x'']) = [''1'', ''x'']" unfolding one by code_simp
  have keys: "sort (tableStringKeys L a) = [''1'', ''x'']"
    using srt by (simp add: tableStringKeys_def fe k)
  have na: "\<not> isArrayTable L a" by (auto simp: isArrayTable_def fe Let_def simp del: upt_Suc)
  have "RawGetString L a ''1'' = LNil" "RawGetString L a ''x'' = LString w"
    by (simp_all add: RawGetString_def t)
  then show ?thesis
    by (subst luaTreeToGo.simps) (simp add: na keys luaTreeToGo.simps)
qed

definition demo_yaml :: go_value where
  "demo_yaml = GMap [(''b'', GList [GInt 1, GNil]), (''a'', GMap [(''c'', GString ''x'')])]"


end
