(* ===== verification/Format_Files.thy ===== *)
theory Format_Files
  imports Ini_Text Xml_Text Yaml_Tree
begin

text \<open>
  The load and save bindings of \<^verbatim>\<open>internal/bindings/formats.go\<close>: the sandbox, the file calls
  and the formats together. What a save leaves on disk is stated over a small model of the disk,
  in which a call that fails may have done part of its work.
\<close>

section \<open>Loading and saving\<close>

datatype doc_out = DValue lua_value | DFail int string

definition loadVia ::
  "(string \<Rightarrow> string option) \<Rightarrow> file_env \<Rightarrow> sys_host \<Rightarrow> string \<Rightarrow> (string \<Rightarrow> string + 'v) \<Rightarrow>
   ('v \<Rightarrow> lua_state \<Rightarrow> lua_state \<times> lua_value) \<Rightarrow> lua_state \<Rightarrow> sys_op list \<Rightarrow> doc_out \<times> lua_state \<times> sys_op list" where
  "loadVia links e host path decode conv L hist =
     (case file_load links e host path hist of
        (Inl err, hist1) \<Rightarrow> (DFail (classifyError (Some err)) (host_text err), L, hist1)
      | (Inr data, hist1) \<Rightarrow>
          (case decode (stripBOM data) of
             Inl msg \<Rightarrow> (DFail (classifyError (Some (ErrText msg))) msg, L, hist1)
           | Inr v \<Rightarrow> (let (L1, x) = conv v L in (DValue x, L1, hist1))))"

definition saveVia ::
  "(string \<Rightarrow> string option) \<Rightarrow> file_env \<Rightarrow> sys_host \<Rightarrow> string \<Rightarrow> string \<Rightarrow> sys_op list \<Rightarrow> file_out \<times> sys_op list" where
  "saveVia links e host path text hist = runBlocking (file_save links e host path text hist)"

definition as_table :: "lua_state \<times> nat \<Rightarrow> lua_state \<times> lua_value" where
  "as_table r = (fst r, LTable (snd r))"

definition csv_load ::
  "(string \<Rightarrow> string option) \<Rightarrow> file_env \<Rightarrow> sys_host \<Rightarrow> string \<Rightarrow> nat option \<Rightarrow> lua_state \<Rightarrow> sys_op list \<Rightarrow>
   doc_out \<times> lua_state \<times> sys_op list" where
  "csv_load links e host path opts L =
     loadVia links e host path (\<lambda>data. parseCSVGo L data opts) (\<lambda>d M. as_table (csvGoToLua d M)) L"

definition csv_save ::
  "(lua_value \<Rightarrow> string) \<Rightarrow> (string \<Rightarrow> string option) \<Rightarrow> file_env \<Rightarrow> sys_host \<Rightarrow> string \<Rightarrow> nat \<Rightarrow> nat option \<Rightarrow>
   lua_state \<Rightarrow> sys_op list \<Rightarrow> file_out \<times> sys_op list" where
  "csv_save show_other links e host path data opts L =
     saveVia links e host path (csvString show_other L data opts)"

definition ini_load ::
  "(string \<Rightarrow> string option) \<Rightarrow> file_env \<Rightarrow> sys_host \<Rightarrow> string \<Rightarrow> lua_state \<Rightarrow> sys_op list \<Rightarrow>
   doc_out \<times> lua_state \<times> sys_op list" where
  "ini_load links e host path =
     loadVia links e host path (\<lambda>data. Inr (parseINIGo data)) (\<lambda>m M. as_table (iniGoToLua m M))"

definition ini_save ::
  "(lua_value \<Rightarrow> string) \<Rightarrow> (string \<Rightarrow> string option) \<Rightarrow> file_env \<Rightarrow> sys_host \<Rightarrow> string \<Rightarrow> nat \<Rightarrow> lua_state \<Rightarrow>
   sys_op list \<Rightarrow> file_out \<times> sys_op list" where
  "ini_save show_other links e host path data L = saveVia links e host path (iniString show_other L data)"

definition xml_load ::
  "(string \<Rightarrow> xml_token list) \<Rightarrow> (string \<Rightarrow> string option) \<Rightarrow> file_env \<Rightarrow> sys_host \<Rightarrow> string \<Rightarrow> lua_state \<Rightarrow>
   sys_op list \<Rightarrow> doc_out \<times> lua_state \<times> sys_op list" where
  "xml_load tokens links e host path =
     loadVia links e host path (\<lambda>data. Inr (parseXML (tokens (stripBOM data))))
       (\<lambda>n M. case n of None \<Rightarrow> (M, LNil) | Some x \<Rightarrow> nodeTable x M)"

definition xml_save ::
  "(lua_value \<Rightarrow> string) \<Rightarrow> (string \<Rightarrow> string option) \<Rightarrow> file_env \<Rightarrow> sys_host \<Rightarrow> string \<Rightarrow> nat \<Rightarrow> lua_state \<Rightarrow>
   sys_op list \<Rightarrow> file_out \<times> sys_op list" where
  "xml_save show_other links e host path data L hist =
     (case xml_save_text show_other L data of
        Inl msg \<Rightarrow> (fail_with (ErrText msg) (''xml_save error: '' @ msg), hist)
      | Inr text \<Rightarrow> saveVia links e host path text hist)"

definition yaml_load ::
  "(string \<Rightarrow> go_float option) \<Rightarrow> nat \<Rightarrow> (yaml_node \<Rightarrow> string) \<Rightarrow> (string \<Rightarrow> yaml_node list \<times> string) \<Rightarrow>
   (string \<Rightarrow> string option) \<Rightarrow> file_env \<Rightarrow> sys_host \<Rightarrow> string \<Rightarrow> lua_state \<Rightarrow> sys_op list \<Rightarrow>
   doc_out \<times> lua_state \<times> sys_op list" where
  "yaml_load pf null show_key decoder links e host path =
     loadVia links e host path (\<lambda>data. parseYAML show_key (decoder (stripBOM data))) (yaml_value pf null)"

definition yaml_save ::
  "(lua_value \<Rightarrow> string) \<Rightarrow> nat option \<Rightarrow> (go_value \<Rightarrow> string + string) \<Rightarrow> (string \<Rightarrow> string option) \<Rightarrow>
   file_env \<Rightarrow> sys_host \<Rightarrow> string \<Rightarrow> lua_value \<Rightarrow> lua_state \<Rightarrow> sys_op list \<Rightarrow> file_out \<times> sys_op list" where
  "yaml_save show_other null marshal links e host path v L hist =
     (case (case luaTreeToGo show_other null L [] v of Inl msg \<Rightarrow> Inl msg | Inr g \<Rightarrow> marshal g) of
        Inl msg \<Rightarrow> (fail_with (ErrText msg) (''yaml error: '' @ msg), hist)
      | Inr text \<Rightarrow> saveVia links e host path text hist)"

section \<open>What they touch\<close>

lemma loadVia_ops: "snd (snd (loadVia links e host path decode conv L h)) = snd (file_load links e host path h)"
  by (simp add: loadVia_def split: prod.split sum.split)

lemma touches_load:
  assumes "links_ok links" "IsAbs cwd" "e = sandbox_env links cwd allow deny cap"
  shows "touches (touch_ok links e) h (snd (file_load links e host path h))"
  using touches_file_call [OF assms, of h id host "FLoad path"] by simp

lemma touches_save:
  assumes "links_ok links" "IsAbs cwd" "e = sandbox_env links cwd allow deny cap"
  shows "touches (touch_ok links e) h (snd (saveVia links e host path text h))"
  using touches_file_call [OF assms, of h id host "FSave path text"] by (simp add: saveVia_def)

text \<open>
  The bindings for documents ask the operating system for nothing the plain file bindings would
  not: every path is permitted, or belongs to the temporary file of a save.
\<close>

theorem format_files_stay_inside:
  assumes "links_ok links" "IsAbs cwd" "e = sandbox_env links cwd allow deny cap"
  shows "touches (touch_ok links e) h (snd (snd (csv_load links e host path opts L h)))"
    and "touches (touch_ok links e) h (snd (csv_save sh links e host path data opts L h))"
    and "touches (touch_ok links e) h (snd (snd (ini_load links e host path L h)))"
    and "touches (touch_ok links e) h (snd (ini_save sh links e host path data L h))"
    and "touches (touch_ok links e) h (snd (snd (xml_load tokens links e host path L h)))"
    and "touches (touch_ok links e) h (snd (xml_save sh links e host path data L h))"
    and "touches (touch_ok links e) h (snd (snd (yaml_load pf null show_key decoder links e host path L h)))"
    and "touches (touch_ok links e) h (snd (yaml_save sh nul marshal links e host path v L h))"
  using touches_load [OF assms] touches_save [OF assms]
  by (simp_all add: csv_load_def ini_load_def xml_load_def yaml_load_def loadVia_ops csv_save_def ini_save_def
      xml_save_def yaml_save_def split: sum.split)

section \<open>The disk\<close>

type_synonym disk = "string \<Rightarrow> string option"

definition content :: "disk \<Rightarrow> string \<Rightarrow> string" where
  "content d p = (case d p of None \<Rightarrow> [] | Some s \<Rightarrow> s)"

text \<open>
  How a call may change the contents of the files. A failed write may have written any part of
  its bytes; a temporary file is new; renaming replaces the target at once.
\<close>

fun disk_step :: "sys_op \<Rightarrow> sys_ans \<Rightarrow> disk \<Rightarrow> disk \<Rightarrow> bool" where
  "disk_step (SCreateTemp dir) a d d' =
     (if err_of a = None
      then (let tmp = temp_path dir (case a of ANum n \<Rightarrow> n | _ \<Rightarrow> 0) in d tmp = None \<and> d' = d(tmp \<mapsto> []))
      else d' = d)"
| "disk_step (SWrite p s) a d d' =
     (if err_of a = None then d' = d(p \<mapsto> content d p @ s) else \<exists>k. d' = d(p \<mapsto> content d p @ take k s))"
| "disk_step (SRename p q) a d d' =
     (if err_of a = None \<and> p \<noteq> q then d' = (d(q := d p))(p := None) else d' = d)"
| "disk_step (SRemove p) a d d' = (if err_of a = None then d' = d(p := None) else d' = d)"
| "disk_step (SCreate p) a d d' = (if err_of a = None then d' = d(p \<mapsto> []) else d' = d \<or> d' = d(p \<mapsto> []))"
| "disk_step (SOpen p fl) a d d' = (\<exists>s. d' = d \<or> fl \<noteq> O_RDONLY \<and> d' = d(p \<mapsto> s))"
| "disk_step (SCopy p q) a d d' =
     (if err_of a = None then d' = d(q \<mapsto> content d q @ content d p)
      else \<exists>k. d' = d(q \<mapsto> content d q @ take k (content d p)))"
| "disk_step (SZipWrite p es) a d d' = (\<exists>s. d' = d(p \<mapsto> s))"
| "disk_step x a d d' = (d' = d)"

fun disk_run :: "sys_host \<Rightarrow> sys_op list \<Rightarrow> sys_op list \<Rightarrow> disk \<Rightarrow> disk \<Rightarrow> bool" where
  "disk_run host h [] d d' = (d' = d)"
| "disk_run host h (x # xs) d d' = (\<exists>d1. disk_step x (host h x) d d1 \<and> disk_run host (h @ [x]) xs d1 d')"

text \<open>The files whose contents a call may change, and calls that leave one alone.\<close>

fun writes_to :: "sys_op \<Rightarrow> sys_ans \<Rightarrow> string list" where
  "writes_to (SCreateTemp dir) a = [temp_path dir (case a of ANum n \<Rightarrow> n | _ \<Rightarrow> 0)]"
| "writes_to (SWrite p s) a = [p]"
| "writes_to (SRename p q) a = (if err_of a = None then [p, q] else [])"
| "writes_to (SRemove p) a = [p]"
| "writes_to (SCreate p) a = [p]"
| "writes_to (SOpen p fl) a = (if fl = O_RDONLY then [] else [p])"
| "writes_to (SCopy p q) a = [q]"
| "writes_to (SZipWrite p es) a = [p]"
| "writes_to x a = []"

fun quiet :: "sys_host \<Rightarrow> string \<Rightarrow> sys_op list \<Rightarrow> sys_op list \<Rightarrow> bool" where
  "quiet host p h [] = True"
| "quiet host p h (x # xs) = (p \<notin> set (writes_to x (host h x)) \<and> quiet host p (h @ [x]) xs)"

lemma disk_step_frame: "disk_step x a d d' \<Longrightarrow> p \<notin> set (writes_to x a) \<Longrightarrow> d' p = d p"
  by (cases x) (auto simp: Let_def split: if_splits)

lemma disk_run_frame: "disk_run host h xs d d' \<Longrightarrow> quiet host p h xs \<Longrightarrow> d' p = d p"
  by (induction host h xs d d' rule: disk_run.induct) (auto dest: disk_step_frame)

lemma quiet_append: "quiet host p h (xs @ ys) \<longleftrightarrow> quiet host p h xs \<and> quiet host p (h @ xs) ys"
  by (induction xs arbitrary: h) auto

definition save_ops :: "string \<Rightarrow> string \<Rightarrow> string \<Rightarrow> sys_op list" where
  "save_ops dst tmp data = [SCreateTemp (Dir dst), SWrite tmp data, SClose tmp, SChmod tmp 420]"

lemma writeFileAtomic_outcome:
  assumes "writeFileAtomic host dst data h = (r, h')" "\<And>n. temp_path (Dir dst) n \<noteq> dst"
  shows "(\<exists>ops. r \<noteq> None \<and> h' = h @ ops \<and> quiet host dst h ops) \<or>
    (\<exists>tmp. r = None \<and> h' = h @ save_ops dst tmp data @ [SRename tmp dst] \<and> quiet host dst h (save_ops dst tmp data)
       \<and> (\<forall>d d'. disk_run host h (save_ops dst tmp data @ [SRename tmp dst]) d d' \<longrightarrow> d' dst = Some data))"
proof -
  define tmp where "tmp = temp_path (Dir dst) (case host h (SCreateTemp (Dir dst)) of ANum n \<Rightarrow> n | _ \<Rightarrow> 0)"
  have nd: "tmp \<noteq> dst" unfolding tmp_def by (rule assms(2))
  note nd = nd nd [symmetric]
  let ?c = "SCreateTemp (Dir dst)" and ?w = "SWrite tmp data" and ?k = "SClose tmp" and ?m = "SChmod tmp 420"
    and ?n = "SRename tmp dst" and ?x = "SRemove tmp"
  have quiets: "quiet host dst g xs" if "set xs \<subseteq> {?w, ?k, ?m, ?x}" for g xs
    using that nd by (induction xs arbitrary: g) auto
  have qc: "quiet host dst h (?c # xs)" if "set xs \<subseteq> {?w, ?k, ?m, ?x}" for xs
    using quiets [OF that] nd by (simp flip: tmp_def)
  define e1 e2 e3 e4 e5 where e: "e1 = err_of (host h ?c)" "e2 = err_of (host (h @ [?c]) ?w)"
    "e3 = err_of (host (h @ [?c, ?w]) ?k)" "e4 = err_of (host (h @ [?c, ?w, ?k]) ?m)"
    "e5 = err_of (host (h @ [?c, ?w, ?k, ?m]) ?n)"
  have w: "(r, h') =
    (case e1 of Some x \<Rightarrow> (Some x, h @ [?c]) | None \<Rightarrow>
      (case e2 of Some x \<Rightarrow> (Some x, h @ [?c, ?w, ?k, ?x]) | None \<Rightarrow>
        (case e3 of Some x \<Rightarrow> (Some x, h @ [?c, ?w, ?k, ?x]) | None \<Rightarrow>
          (case e4 of Some x \<Rightarrow> (Some x, h @ [?c, ?w, ?k, ?m, ?x]) | None \<Rightarrow>
            (case e5 of Some x \<Rightarrow> (Some x, h @ [?c, ?w, ?k, ?m, ?n, ?x])
             | None \<Rightarrow> (None, h @ [?c, ?w, ?k, ?m, ?n]))))))"
    using assms(1) by (simp add: writeFileAtomic_def sys_def Let_def e flip: tmp_def cong: option.case_cong)
  have q5: "e5 \<noteq> None \<Longrightarrow> quiet host dst h [?c, ?w, ?k, ?m, ?n, ?x]"
    using qc [of "[?w, ?k, ?m]"] quiets [of "[?x]"] quiet_append [of host dst h "[?c, ?w, ?k, ?m]" "[?n, ?x]"]
    by (simp add: e(5))
  show ?thesis
  proof (cases r)
    case (Some x)
    then consider "h' = h @ [?c]" | "h' = h @ [?c, ?w, ?k, ?x]" | "h' = h @ [?c, ?w, ?k, ?m, ?x]"
      | "h' = h @ [?c, ?w, ?k, ?m, ?n, ?x]" "e5 \<noteq> None"
      using w by (cases e1; cases e2; cases e3; cases e4; cases e5) simp_all
    then have "\<exists>ops. h' = h @ ops \<and> quiet host dst h ops"
    proof cases
      case 1 then show ?thesis using qc [of "[]"] by auto
    next
      case 2 then show ?thesis using qc [of "[?w, ?k, ?x]"] by auto
    next
      case 3 then show ?thesis using qc [of "[?w, ?k, ?m, ?x]"] by auto
    next
      case 4 then show ?thesis using q5 by auto
    qed
    then show ?thesis using Some by blast
  next
    case None
    then have f: "e1 = None" "e2 = None" "e5 = None" "h' = h @ [?c, ?w, ?k, ?m, ?n]"
      using w by (cases e1; cases e2; cases e3; cases e4; cases e5; simp)+
    have "quiet host dst h (save_ops dst tmp data)"
      using qc [of "[?w, ?k, ?m]"] by (simp add: save_ops_def)
    moreover have "d' dst = Some data" if "disk_run host h (save_ops dst tmp data @ [?n]) d d'" for d d'
      using that f(1-3) nd by (auto simp: save_ops_def Let_def content_def e simp flip: tmp_def)
    ultimately show ?thesis using None f(4) by (intro disjI2 exI [of _ tmp]) (simp add: save_ops_def)
  qed
qed

lemma atomic_save:
  assumes "writeFileAtomic host dst data h = (r, h @ xs @ ys)" "disk_run host h xs d d'"
    and "\<And>n. dst \<noteq> temp_path (Dir dst) n"
  shows "d' dst = (if r = None \<and> ys = [] then Some data else d dst)"
proof -
  have "temp_path (Dir dst) n \<noteq> dst" for n using assms(3) [of n] by simp
  from writeFileAtomic_outcome [OF assms(1) this]
  consider (failed) "r \<noteq> None" "quiet host dst h (xs @ ys)"
    | (done_) tmp where "r = None" "xs @ ys = save_ops dst tmp data @ [SRename tmp dst]"
        "quiet host dst h (save_ops dst tmp data)"
        "\<And>d d'. disk_run host h (save_ops dst tmp data @ [SRename tmp dst]) d d' \<Longrightarrow> d' dst = Some data"
    by auto
  then show ?thesis
  proof cases
    case failed
    then show ?thesis using disk_run_frame [OF assms(2)] by (auto simp: quiet_append)
  next
    case done_
    show ?thesis
    proof (cases ys rule: rev_cases)
      case Nil
      then show ?thesis using done_ assms(2) by auto
    next
      case (snoc zs z)
      then have "save_ops dst tmp data = xs @ zs" using done_(2) by simp
      then have "quiet host dst h xs" using done_(3) by (simp add: quiet_append)
      then show ?thesis using disk_run_frame [OF assms(2)] snoc by auto
    qed
  qed
qed

text \<open>C34: 
  A save is atomic: however far it gets, and whatever fails on the way, the file holds its old
  contents until the save has succeeded, and then all of the new ones.
\<close>

theorem save_is_atomic:
  assumes "writeFileAtomic host dst data h = (r, h @ xs @ ys)" "disk_run host h xs d d'"
    and "\<And>n. dst \<noteq> temp_path (Dir dst) n"
  shows "d' dst = (if r = None \<and> ys = [] then Some data else d dst)"
  using assms by (rule atomic_save)

section \<open>Saving and loading a table\<close>

lemma set_cells_strings: "set_cells a i cs L = go_list_to_lua a i (map GString cs) L"
  by (induction cs arbitrary: i L) simp_all

lemma go_strings_frame:
  "b \<noteq> a \<Longrightarrow> table_at (go_list_to_lua a i (map GString cs) L) b = table_at L b"
  by (induction cs arbitrary: i L) (simp_all add: table_at_RawSet)

lemma append_string_rows:
  "table_at L out = \<lparr>arr = vs, strs = [], others = []\<rparr> \<Longrightarrow> \<forall>v\<in>set vs. v \<noteq> LNil \<Longrightarrow> heap_ok L \<Longrightarrow> out < next_addr L \<Longrightarrow>
   append_rows (\<lambda>a. set_cells a 1) out rs L = go_list_to_lua out (Suc (length vs)) (map (\<lambda>r. GList (map GString r)) rs) L"
proof (induction rs arbitrary: L vs)
  case (Cons r rs)
  obtain L1 a where n: "NewTable L = (L1, a)" by (cases "NewTable L")
  note g = NewTable_grown [OF Cons.prems(3) n]
  define L2 where "L2 = go_list_to_lua a (Suc 0) (map GString r) L1"
  have "out \<noteq> a" using g(2) Cons.prems(4) by simp
  then have t2: "table_at L2 out = \<lparr>arr = vs, strs = [], others = []\<rparr>"
    using g(1) Cons.prems(1,4) by (simp add: L2_def go_strings_frame grown_def)
  have len: "table_len L2 out = length vs" using table_len_solid t2 Cons.prems(2) by simp
  define L3 where "L3 = RawSetInt out (Suc (length vs)) (LTable a) L2"
  have t3: "table_at L3 out = \<lparr>arr = vs @ [LTable a], strs = [], others = []\<rparr>"
    unfolding L3_def using t2 by (rule RawSetInt_append)
  have sh: "shape (leaf_of GoValueToLua) (GList (map GString r))" by (simp add: list_all_iff)
  have "grown L L2"
    using common_conv.shape_good [OF sh] Cons.prems(3) n
    by (auto simp: common_conv.good_def L2_def dest!: spec [of _ L])
  then have h2: "heap_ok L2" "out < next_addr L2" using Cons.prems(4) by (auto simp: grown_def)
  have h3: "heap_ok L3" "out < next_addr L3"
    using h2 heap_ok_RawSet [of L2 out] by (simp_all add: L3_def)
  have "append_rows (\<lambda>a. set_cells a 1) out (r # rs) L = append_rows (\<lambda>a. set_cells a 1) out rs L3"
    by (simp add: n L2_def set_cells_strings len [unfolded L2_def] L3_def Let_def)
  also have "\<dots> = go_list_to_lua out (Suc (length (vs @ [LTable a]))) (map (\<lambda>r. GList (map GString r)) rs) L3"
    using Cons.prems(2) by (intro Cons.IH [OF t3 _ h3]) auto
  finally show ?case by (simp add: n L3_def L2_def)
qed simp

lemma csvGoToLua_rows: "heap_ok L \<Longrightarrow> as_table (csvGoToLua (CsvRows rs) L) = GoValueToLua (string_rows rs) L"
proof -
  assume h: "heap_ok L"
  obtain L1 a where n: "NewTable L = (L1, a)" by (cases "NewTable L")
  note g = NewTable_grown [OF h n]
  have "append_rows (\<lambda>a. set_cells a 1) a rs L1 = go_list_to_lua a (Suc (length [])) (map (\<lambda>r. GList (map GString r)) rs) L1"
    using append_string_rows [of L1 a "[]" rs] g by (simp add: empty_table_def grown_def)
  then show ?thesis by (simp add: csvGoToLua_def as_table_def n)
qed

lemma save_succeeds:
  assumes "saveVia links e host path text h0 = (FVal FNil, h)" "resolvePath links e path = Inr p"
  shows "writeFileAtomic host p text h0 = (None, h)"
  using assms by (auto simp: saveVia_def runBlocking_def file_save_def try_path_def fail_with_def
      split: prod.splits option.splits sum.splits)


section \<open>Witnesses\<close>

definition demo_host :: "string \<Rightarrow> sys_host" where
  "demo_host text hist x =
     (case x of
        SCreateTemp d \<Rightarrow> ANum 7
      | SStat p \<Rightarrow> AInfo (int (length text)) False 0 420
      | SReadFile p \<Rightarrow> ABytes text
      | _ \<Rightarrow> AOk)"

definition demo_saved :: "string \<Rightarrow> sys_op list" where
  "demo_saved text = [SCreateTemp ''/w'', SWrite ''/w/.kalua-7.tmp'' text, SClose ''/w/.kalua-7.tmp'',
     SChmod ''/w/.kalua-7.tmp'' 420, SRename ''/w/.kalua-7.tmp'' ''/w/t.csv'']"

lemma demo_temp: "temp_path ''/w'' 7 = ''/w/.kalua-7.tmp''"
  by code_simp

lemma demo_dir: "Dir ''/w/t.csv'' = ''/w''"
  by code_simp

lemma demo_target: "''/w/t.csv'' \<noteq> temp_path (Dir ''/w/t.csv'') n"
  by (simp add: demo_dir temp_path_def)

lemma demo_save: "writeFileAtomic (demo_host text) ''/w/t.csv'' text [] = (None, demo_saved text)"
  by (simp add: writeFileAtomic_def sys_def demo_host_def err_of_def demo_dir demo_temp demo_saved_def Let_def)

lemma demo_disk:
  "disk_run (demo_host text) [] (demo_saved text) (\<lambda>_. None) ((\<lambda>_. None)(''/w/t.csv'' \<mapsto> text))"
  by (simp add: demo_saved_def demo_host_def err_of_def demo_temp content_def Let_def)

theorem save_is_atomic_witness:
  "((\<lambda>_. None)(''/w/t.csv'' \<mapsto> ''abc'')) ''/w/t.csv''
     = (if (None :: host_error option) = None \<and> ([] :: sys_op list) = [] then Some ''abc'' else None)"
proof -
  have "writeFileAtomic (demo_host ''abc'') ''/w/t.csv'' ''abc'' [] = (None, [] @ demo_saved ''abc'' @ [])"
    using demo_save by simp
  from save_is_atomic [OF this demo_disk demo_target] show ?thesis .
qed


end
