(* ===== verification/Row_Sets.thy ===== *)
theory Row_Sets
  imports Xml_Text
begin

text \<open>
  Result sets, \<^verbatim>\<open>internal/bindings/rows.go\<close>: tables with a list of columns and a list of row
  tables, and their conversions from and to JSON values, parsed CSV and XML.
\<close>

section \<open>Result sets\<close>

definition string_keys :: "lua_state \<Rightarrow> nat \<Rightarrow> string list" where
  "string_keys L a = concat (map (\<lambda>kv. case fst kv of LString s \<Rightarrow> [s] | _ \<Rightarrow> []) (for_each L a))"

definition resultColumns :: "lua_state \<Rightarrow> nat list \<Rightarrow> string list" where
  "resultColumns L rows = sort (remdups (concat (map (string_keys L) rows)))"

definition luaRows :: "lua_state \<Rightarrow> nat \<Rightarrow> nat list" where
  "luaRows L rs = table_items L (RawGetString L rs ''rows'')"

fun set_values :: "nat \<Rightarrow> nat \<Rightarrow> lua_value list \<Rightarrow> lua_state \<Rightarrow> lua_state" where
  "set_values a i [] L = L"
| "set_values a i (v # vs) L = set_values a (Suc i) vs (RawSetInt a i v L)"

definition makeResultSet :: "string list \<Rightarrow> nat list \<Rightarrow> lua_state \<Rightarrow> lua_state \<times> nat" where
  "makeResultSet columns rows L =
     (let (L1, rs) = NewTable L;
          (L2, c) = NewTable L1;
          L3 = RawSetString rs ''columns'' (LTable c) (set_values c 1 (map LString columns) L2);
          (L4, r) = NewTable L3
      in (RawSetString rs ''rows'' (LTable r) (set_values r 1 (map LTable rows) L4), rs))"

definition columnNames :: "(lua_value \<Rightarrow> string) \<Rightarrow> lua_state \<Rightarrow> nat \<Rightarrow> string list" where
  "columnNames show_other L rs =
     (case RawGetString L rs ''columns'' of
        LTable c \<Rightarrow> map (\<lambda>i. lv_string show_other (RawGetInt L c (int i))) [1..<Suc (table_len L c)]
      | _ \<Rightarrow> [])"

text \<open>The columns a writer uses: the given ones, or all string keys of the rows.\<close>

definition used_columns :: "(lua_value \<Rightarrow> string) \<Rightarrow> lua_state \<Rightarrow> nat \<Rightarrow> string list" where
  "used_columns show_other L rs =
     (let cols = columnNames show_other L rs in if cols = [] then resultColumns L (luaRows L rs) else cols)"

section \<open>JSON\<close>

definition json_to_rows :: "lua_value \<Rightarrow> lua_state \<Rightarrow> string + (lua_state \<times> nat)" where
  "json_to_rows v L =
     (case v of
        LTable a \<Rightarrow> (let rows = table_items L v in Inr (makeResultSet (resultColumns L rows) rows L))
      | _ \<Rightarrow> Inl ''json_to_rows: expected an array table'')"

definition rows_to_json :: "nat \<Rightarrow> lua_state \<Rightarrow> lua_state \<times> nat" where
  "rows_to_json rs L =
     (let rows = luaRows L rs; (L1, out) = NewTable L in (set_values out 1 (map LTable rows) L1, out))"

section \<open>CSV\<close>

definition firstRowIsHeader :: "lua_state \<Rightarrow> nat \<Rightarrow> bool" where
  "firstRowIsHeader L row =
     (if table_len L row = 0 then False
      else for_each L row \<noteq> []
        \<and> list_all (\<lambda>(k, v). (\<exists>f. k = LNumber f) \<and> (\<exists>s. v = LString s)) (for_each L row))"

definition headerFromRow :: "(lua_value \<Rightarrow> string) \<Rightarrow> lua_state \<Rightarrow> nat \<Rightarrow> string list" where
  "headerFromRow show_other L row =
     map (\<lambda>i. lv_string show_other (RawGetInt L row (int i))) [1..<Suc (table_len L row)]"

definition maxRowWidth :: "lua_state \<Rightarrow> nat list \<Rightarrow> nat" where
  "maxRowWidth L rows = fold (\<lambda>r w. max w (table_len L r)) rows 0"

definition csv_columns :: "(lua_value \<Rightarrow> string) \<Rightarrow> lua_state \<Rightarrow> nat list \<Rightarrow> string list \<times> nat list" where
  "csv_columns show_other L rows =
     (let (cols, rows') = (case rows of
            [] \<Rightarrow> ([], rows)
          | r # rs \<Rightarrow> (if firstRowIsHeader L r then (headerFromRow show_other L r, rs) else ([], rows)))
      in (if cols = [] then map (\<lambda>i. ''col'' @ itoa (int i)) [1..<Suc (maxRowWidth L rows')] else cols, rows'))"

definition row_cell :: "lua_state \<Rightarrow> nat \<Rightarrow> nat \<Rightarrow> lua_value" where
  "row_cell L row i =
     (let c = RawGetInt L row (int i + 1) in if c = LNil then LString [] else c)"

definition map_row :: "string list \<Rightarrow> nat \<Rightarrow> lua_state \<Rightarrow> lua_state \<times> nat" where
  "map_row cols row L =
     (let (L1, a) = NewTable L
      in (fold (\<lambda>i M. RawSetString a (cols ! i) (row_cell M row i) M)
            [0..<min (table_len L row) (length cols)] L1, a))"

fun map_rows :: "string list \<Rightarrow> nat list \<Rightarrow> lua_state \<Rightarrow> lua_state \<times> nat list" where
  "map_rows cols [] L = (L, [])"
| "map_rows cols (r # rs) L =
     (let (L1, a) = map_row cols r L; (L2, as) = map_rows cols rs L1 in (L2, a # as))"

definition csv_to_rows :: "(lua_value \<Rightarrow> string) \<Rightarrow> nat \<Rightarrow> lua_state \<Rightarrow> lua_state \<times> nat" where
  "csv_to_rows show_other tbl L =
     (let (cols, rows) = csv_columns show_other L (table_items L (LTable tbl));
          (L1, mapped) = map_rows cols rows L
      in makeResultSet cols mapped L1)"

definition rowsToCSVTable :: "string list \<Rightarrow> nat list \<Rightarrow> lua_state \<Rightarrow> lua_state \<times> nat" where
  "rowsToCSVTable cols rows L =
     (let (L1, out) = NewTable L;
          (L2, h) = NewTable L1;
          L3 = set_values h 1 (map LString cols) L2
      in (set_values out 2 (map LTable rows) (RawSetInt out 1 (LTable h) L3), out))"

definition rows_to_csv ::
  "(lua_value \<Rightarrow> string) \<Rightarrow> nat \<Rightarrow> nat option \<Rightarrow> lua_state \<Rightarrow> lua_state \<times> string" where
  "rows_to_csv show_other rs opts L =
     (let (L1, out) = rowsToCSVTable (used_columns show_other L rs) (luaRows L rs) L
      in (L1, csvString show_other L1 out opts))"

section \<open>XML\<close>

definition xml_row :: "(lua_value \<Rightarrow> string) \<Rightarrow> nat \<Rightarrow> lua_state \<Rightarrow> lua_state \<times> nat" where
  "xml_row show_other child L =
     (let (L1, row) = NewTable L
      in (fold (\<lambda>cell M. RawSetString row (lv_string show_other (RawGetString M cell ''_name''))
                           (LString (lv_string show_other (RawGetString M cell ''_text''))) M)
            (table_items L1 (RawGetString L1 child ''_children'')) L1, row))"

fun xml_rows :: "(lua_value \<Rightarrow> string) \<Rightarrow> nat list \<Rightarrow> lua_state \<Rightarrow> lua_state \<times> nat list" where
  "xml_rows show_other [] L = (L, [])"
| "xml_rows show_other (c # cs) L =
     (let (L1, r) = xml_row show_other c L; (L2, rs) = xml_rows show_other cs L1 in (L2, r # rs))"

definition xml_to_rows :: "(lua_value \<Rightarrow> string) \<Rightarrow> nat \<Rightarrow> lua_state \<Rightarrow> lua_state \<times> nat" where
  "xml_to_rows show_other doc L =
     (let (L1, rows) = xml_rows show_other (table_items L (RawGetString L doc ''_children'')) L
      in makeResultSet (resultColumns L1 rows) rows L1)"

definition element :: "string \<Rightarrow> string \<Rightarrow> string \<Rightarrow> string" where
  "element ind name body = ind @ ''<'' @ xmlEscape name @ ''>'' @ body @ ''</'' @ xmlEscape name @ ''>'' @ [lf]"

definition rows_to_xml ::
  "(lua_value \<Rightarrow> string) \<Rightarrow> nat \<Rightarrow> string \<Rightarrow> string \<Rightarrow> lua_state \<Rightarrow> string" where
  "rows_to_xml show_other rs rootName rowName L =
     element [] rootName ([lf]
       @ concat (map (\<lambda>row. element ''  '' rowName ([lf]
           @ concat (map (\<lambda>c. element ''    '' c (xmlEscape (lv_string show_other (RawGetString L row c))))
               (used_columns show_other L rs))
           @ ''  '')) (luaRows L rs)))"

section \<open>Writing a result set as CSV\<close>

lemma set_values_frame:
  "next_addr (set_values a i vs L) = next_addr L"
  "b \<noteq> a \<Longrightarrow> table_at (set_values a i vs L) b = table_at L b"
  by (induction vs arbitrary: i L) (simp_all add: table_at_RawSet)

lemma set_values_append:
  "table_at L a = \<lparr>arr = ws, strs = [], others = []\<rparr> \<Longrightarrow>
   table_at (set_values a (Suc (length ws)) vs L) a = \<lparr>arr = ws @ vs, strs = [], others = []\<rparr>"
proof (induction vs arbitrary: ws L)
  case (Cons v vs)
  have "table_at (RawSetInt a (Suc (length ws)) v L) a = \<lparr>arr = ws @ [v], strs = [], others = []\<rparr>"
    using Cons.prems by (rule RawSetInt_append)
  from Cons.IH [OF this] show ?case by simp
qed simp

lemma rowsToCSVTable_tables:
  assumes "heap_ok L" "rowsToCSVTable cols rows L = (L', out)"
  shows "out = next_addr L" "table_at L' out = \<lparr>arr = LTable (Suc out) # map LTable rows, strs = [], others = []\<rparr>"
    "table_at L' (Suc out) = \<lparr>arr = map LString cols, strs = [], others = []\<rparr>"
    "b < next_addr L \<Longrightarrow> table_at L' b = table_at L b"
proof -
  obtain L1 a where 1: "NewTable L = (L1, a)" by (cases "NewTable L")
  obtain L2 h where 2: "NewTable L1 = (L2, h)" by (cases "NewTable L1")
  note n1 = NewTable_grown [OF assms(1) 1]
  have h1: "heap_ok L1" using n1(1) by (simp add: grown_def)
  note n2 = NewTable_grown [OF h1 2]
  define L3 where "L3 = set_values h 1 (map LString cols) L2"
  define L4 where "L4 = RawSetInt a 1 (LTable h) L3"
  have L': "L' = set_values a 2 (map LTable rows) L4" "out = a"
    using assms(2) by (auto simp: rowsToCSVTable_def 1 2 L3_def L4_def)
  have ha: "h = Suc a" "a = next_addr L" using n1(2,3) n2(2) by simp_all
  have t2: "table_at L2 a = empty_table" "table_at L2 h = empty_table"
    using n1(3,4) n2(1,4) by (simp_all add: grown_def)
  have t3: "table_at L3 a = empty_table" "table_at L3 h = \<lparr>arr = map LString cols, strs = [], others = []\<rparr>"
    using set_values_frame(2) [of a h 1 "map LString cols" L2] set_values_append [of L2 h "[]" "map LString cols"] t2 ha(1)
    by (simp_all add: L3_def empty_table_def)
  have t4: "table_at L4 a = \<lparr>arr = [LTable h], strs = [], others = []\<rparr>" "table_at L4 h = table_at L3 h"
    using RawSetInt_append [of L3 a "[]" "LTable h"] t3(1) ha(1) by (simp_all add: L4_def empty_table_def table_at_RawSet)
  show "out = next_addr L" using L'(2) ha(2) by simp
  show "table_at L' out = \<lparr>arr = LTable (Suc out) # map LTable rows, strs = [], others = []\<rparr>"
    using set_values_append [OF t4(1), of "map LTable rows"] by (simp add: L' ha(1) numeral_2_eq_2)
  show "table_at L' (Suc out) = \<lparr>arr = map LString cols, strs = [], others = []\<rparr>"
    using set_values_frame(2) [of h a 2 "map LTable rows" L4] t4(2) t3(2) ha(1) by (simp add: L')
  show "table_at L' b = table_at L b" if b: "b < next_addr L"
  proof -
    have "b \<noteq> a" "b \<noteq> h" using b ha by simp_all
    then have "table_at L' b = table_at L2 b"
      by (simp add: L' L4_def L3_def set_values_frame table_at_RawSet)
    also have "\<dots> = table_at L1 b" using n2(1) b n1(3) ha by (simp add: grown_def)
    also have "\<dots> = table_at L b" using n1(1) b by (simp add: grown_def)
    finally show ?thesis .
  qed
qed

lemma csvOpts_frame:
  "(\<And>a. opts = Some a \<Longrightarrow> table_at L' a = table_at L a) \<Longrightarrow> csvOpts L' opts = csvOpts L opts"
  by (cases opts) (simp_all add: csvOpts_def RawGetString_def)

lemma row_cells_named:
  "arr (table_at L a) = [] \<Longrightarrow> others (table_at L a) = [] \<Longrightarrow> row_cells show_other L False names a = []"
proof -
  assume a: "arr (table_at L a) = []" "others (table_at L a) = []"
  then have "concat (map (\<lambda>kv. case fst kv of LNumber n \<Rightarrow> [go_int n] | _ \<Rightarrow> []) (for_each L a)) = []"
    by (auto simp: for_each_def enum_arr_def concat_eq_Nil_conv)
  then show ?thesis by (simp only: row_cells_def number_keys_def) simp
qed

lemma RawGetInt_nth:
  "arr (table_at L a) = vs \<Longrightarrow> i < length vs \<Longrightarrow> RawGetInt L a (int (Suc i)) = vs ! i"
  by (simp add: RawGetInt_def)

text \<open>
  The rows of a result set are keyed by column names, \<^verbatim>\<open>csvString\<close> writes a row by its number
  keys: without the \<^verbatim>\<open>header\<close> option the columns are written and every row is an empty line.
\<close>

theorem rows_to_csv_loses_cells:
  assumes "heap_ok L" "rows_to_csv show_other rs opts L = (L', out)"
    and "csvOpts L opts = (False, sep, quote)" "\<And>a. opts = Some a \<Longrightarrow> a < next_addr L"
    and "\<forall>r\<in>set (luaRows L rs). r < next_addr L \<and> arr (table_at L r) = [] \<and> others (table_at L r) = []"
    and "length (used_columns show_other L rs) \<le> 2 ^ 53"
  shows "out = csv_text sep quote (used_columns show_other L rs # map (\<lambda>_. []) (luaRows L rs))"
proof -
  let ?cols = "used_columns show_other L rs" and ?rows = "luaRows L rs"
  obtain d where d: "rowsToCSVTable ?cols ?rows L = (L', d)" "out = csvString show_other L' d opts"
    using assms(2) by (auto simp: rows_to_csv_def split: prod.splits)
  note t = rowsToCSVTable_tables [OF assms(1) d(1)]
  have opts: "csvOpts L' opts = (False, sep, quote)"
    using assms(3,4) t(4) csvOpts_frame by metis
  let ?all = "Suc d # ?rows" and ?cells = "?cols # map (\<lambda>_. []) ?rows"
  have len: "table_len L' d = length ?all"
    using table_len_solid [of L' d "LTable (Suc d) # map LTable ?rows"] t(2) by auto
  have cells: "row_cells show_other L' False [] (?all ! i) = ?cells ! i" if i: "i < length ?all" for i
  proof (cases i)
    case 0
    then show ?thesis using row_cells_strings [OF t(3) assms(6)] by simp
  next
    case (Suc j)
    then have r: "?rows ! j \<in> set ?rows" "?all ! i = ?rows ! j" "?cells ! i = []" using i by simp_all
    then have "table_at L' (?rows ! j) = table_at L (?rows ! j)" using t(4) assms(5) by blast
    then show ?thesis using r assms(5) by (simp add: row_cells_named)
  qed
  have get: "RawGetInt L' d (int (Suc i)) = LTable (?all ! i)" if "i < length ?all" for i
  proof -
    have "RawGetInt L' d (int (Suc i)) = (LTable (Suc d) # map LTable ?rows) ! i"
      using that t(2) by (intro RawGetInt_nth) simp_all
    then show ?thesis using that by (cases i) simp_all
  qed
  have "concat (map (\<lambda>i. case RawGetInt L' d (int i) of LTable a \<Rightarrow> [row_cells show_other L' False [] a] | _ \<Rightarrow> [])
      [Suc 0..<Suc (length ?all)]) = map ((!) ?cells) [0..<length ?all]"
    using get cells by (intro concat_rows) blast
  also have "\<dots> = ?cells" using map_nth [of ?cells] by simp
  finally have "csv_rows show_other L' False d = ?cells"
    by (simp add: csv_rows_def len Let_def del: upt_Suc cong del: lua_value.case_cong_weak)
  then show ?thesis by (simp add: d(2) csvString_def opts)
qed

definition demo_set :: lua_state where
  "demo_set = blank_state\<lparr>
     heap := [(0, \<lparr>arr = [], strs = [(''id'', LString ''7'')], others = []\<rparr>),
              (1, \<lparr>arr = [], strs = [(''columns'', LTable 2), (''rows'', LTable 3)], others = []\<rparr>),
              (2, \<lparr>arr = [LString ''id''], strs = [], others = []\<rparr>),
              (3, \<lparr>arr = [LTable 0], strs = [], others = []\<rparr>)],
     next_addr := 4\<rparr>"

lemma demo_tables:
  "table_at demo_set 0 = \<lparr>arr = [], strs = [(''id'', LString ''7'')], others = []\<rparr>"
  "table_at demo_set 1 = \<lparr>arr = [], strs = [(''columns'', LTable 2), (''rows'', LTable 3)], others = []\<rparr>"
  "table_at demo_set 2 = \<lparr>arr = [LString ''id''], strs = [], others = []\<rparr>"
  "table_at demo_set 3 = \<lparr>arr = [LTable 0], strs = [], others = []\<rparr>"
  by (simp_all add: demo_set_def table_at_def)

theorem rows_to_csv_loses_cells_witness:
  "snd (rows_to_csv (\<lambda>_. []) 1 None demo_set) = csv_text 44 34 [[''id''], []]"
proof -
  have c: "used_columns (\<lambda>_. []) demo_set 1 = [''id'']"
    by (simp add: used_columns_def columnNames_def RawGetString_def RawGetInt_def table_len_def demo_tables
        del: One_nat_def)
  have r: "luaRows demo_set 1 = [0]"
    by (simp add: luaRows_def table_items_def RawGetString_def RawGetInt_def table_len_def demo_tables
        del: One_nat_def)
  have h: "heap_ok demo_set" by (simp add: heap_ok_def demo_set_def)
  have n4: "next_addr demo_set = 4" by (simp add: demo_set_def)
  obtain L' s where e: "rows_to_csv (\<lambda>_. []) 1 None demo_set = (L', s)" by fastforce
  have "s = csv_text 44 34 ([''id''] # map (\<lambda>_. []) [0::nat])"
    using rows_to_csv_loses_cells [OF h e, of 44 34] n4 r c
    by (simp add: csvOpts_def demo_tables del: One_nat_def)
  with e show ?thesis by simp
qed

end
