(* ===== verification/Spec2Isabelle.thy ===== *)
theory Spec2Isabelle
  imports Kalua_Prelude Mqtt_Topics Lua_Value Lua_Tree Json_Lua Script_Errors Outbox_Router
    Go_Text Klog_Text Klog_Sink Shared_State Conn_Hubs Mqtt_Hub Worker_Pool Http_Router Http_Worker
    Form_Tables Login_Check Session_State Session_Actor Session_Inbox Session_Run Session_Properties
    Session_Messages Line_Diff Script_Format Builder_Merge Lua_Printer Sql_Text Table_Paging Grid_Write Tree_Build Expr_Text
    Lua_Export Source_Rebuild Expr_Dates
    Form_Build Form_Properties Grid_Forms Html_Text Session_Grid Grid_Properties Script_Flow
    Path_Sandbox File_Ops File_Handles Csv_Text Ini_Text Xml_Text Yaml_Tree Format_Files Row_Sets
begin

text \<open>
  A verification development for kalua, a runtime that serves Lua scripts as browser applications
  and as HTTP, WebSocket, TCP and MQTT workers. The Go code under \<^verbatim>\<open>src/internal\<close> is modelled by
  executable definitions with the names of the source; the header of each theory says which files
  it translates.

  \<^bold>\<open>How the program works.\<close> A script runs in an interpreter whose globals and tables the Go
  code reads and writes. In run mode each browser has a session: an actor that takes one message at
  a time from an inbox of 64 places (events of the page, timers, answers, its own posts), runs the
  script's handlers and coroutines, and sends commands through an outbox of 64 places. A binding
  that needs the page suspends its coroutine and leaves an entry in a map; the answer takes the
  entry out and resumes. Forms are tables the script builds with \<^verbatim>\<open>k.form\<close> and \<^verbatim>\<open>k.ctrl\<close>; the session
  finds controls and handlers in the same tables, and controls linked to a database are paged and
  written by the session itself. In serve mode a pool of workers answers requests of a router, with
  hubs for the other protocols, a state shared by the workers and a structured log in SQLite. The
  builder keeps a document of forms, exports it as Lua and rebuilds an edited source.

  \<^bold>\<open>Modelling.\<close> Structs are records and tagged unions datatypes. Strings are lists of bytes. Go's
  \<^verbatim>\<open>int\<close> and \<^verbatim>\<open>int64\<close> are integers, wrapped by \<open>wrap64\<close> where the code computes with them and the
  size can matter; a float is a rational, NaN or an infinity. A Lua table is an address in a store
  (\<open>lua_state\<close>), so aliasing between the script's tables is kept. Errors are left injections or
  None; a session step ends \<open>Done\<close>, \<open>Stuck\<close> (the actor blocks on its own inbox) or \<open>Panicked\<close>. Shared
  objects of the hubs and workers live in lists indexed by identity, and what may interleave is a
  list or an inductive relation of atomic steps. What is outside the repository is a parameter: the
  Lua engine (\<open>engine\<close>: what a resumed function does is a list of calls of the session's methods),
  databases (a function from statement and parameters to rows), the operating system (\<open>host\<close>: its
  answer to a call may depend on all calls before; \<open>links\<close>: what it resolves a path to),
  \<^verbatim>\<open>encoding/json\<close> where it is not spelled out, the XML and YAML decoders, hashing, number parsing
  and printing, sockets, clocks and the MQTT client.

  \<^bold>\<open>The theories.\<close>
  \<^item> \<open>Kalua_Prelude\<close>: lists, 64-bit wrap-around, association lists, and the locales of bounded
    queues and registries the hubs, the log and the session instantiate. \<open>Go_Text\<close>: Go's string functions
    and UTF-8.
  \<^item> \<open>Lua_Value\<close>, \<open>Lua_Tree\<close>, \<open>Json_Lua\<close>, \<open>Script_Errors\<close>: values and tables, conversions from and to
    decoded JSON (they keep the structure), JSON text, the error globals and the error hook.
  \<^item> \<open>Outbox_Router\<close>: the translation of outbox messages to page commands (\<^verbatim>\<open>common/brain.go\<close>) and the
    registry of the browser side.
  \<^item> \<open>Klog_Text\<close>, \<open>Klog_Sink\<close>: the log (\<^verbatim>\<open>klog\<close>): truncation, queue, writer, pruning; every record is
    accounted for.
  \<^item> \<open>Shared_State\<close>, \<open>Conn_Hubs\<close>, \<open>Mqtt_Topics\<close>, \<open>Mqtt_Hub\<close>, \<open>Worker_Pool\<close>, \<open>Http_Router\<close>,
    \<open>Http_Worker\<close>: serve mode (\<^verbatim>\<open>server\<close>): delivery in order, topic matching against the standard,
    life of leased workers under every interleaving, balance of the request counters.
  \<^item> \<open>Form_Tables\<close>, \<open>Login_Check\<close>, \<open>Session_State\<close>, \<open>Session_Actor\<close>, \<open>Session_Inbox\<close>, \<open>Session_Run\<close>,
    \<open>Session_Properties\<close>, \<open>Session_Messages\<close>: the session (\<^verbatim>\<open>session/session.go\<close>): state, posts and
    requests, handlers, one step per message, runs as an inductive relation with a locale of
    invariants, and what follows for suspended coroutines, timers and logins.
  \<^item> \<open>Form_Build\<close>, \<open>Form_Properties\<close>, \<open>Grid_Forms\<close>: the bindings that build forms and the detail form
    of a grid (\<^verbatim>\<open>bindings/forms.go\<close>, \<^verbatim>\<open>grid.go\<close>, \<^verbatim>\<open>chart.go\<close>).
  \<^item> \<open>Sql_Text\<close>, \<open>Table_Paging\<close>, \<open>Grid_Write\<close>, \<open>Tree_Build\<close>: the text of the statements behind linked
    controls, pages, rows to write, trees (\<^verbatim>\<open>bindings/tabledb.go\<close>, \<^verbatim>\<open>looperdb.go\<close>, \<^verbatim>\<open>grid.go\<close>,
    \<^verbatim>\<open>tree.go\<close>, parts of \<^verbatim>\<open>db.go\<close>).
  \<^item> \<open>Session_Grid\<close>, \<open>Grid_Properties\<close>: the session's handlers for them, and the whole step of the
    actor with its database, \<open>handle_message\<close>.
  \<^item> \<open>Html_Text\<close>, \<open>Script_Flow\<close>: escaping and a reader of tags; message boxes, menus, timers, files and
    actions of a script with the markup the session makes (\<^verbatim>\<open>bindings/flow.go\<close>).
  \<^item> \<open>Path_Sandbox\<close>, \<open>File_Ops\<close>, \<open>File_Handles\<close>: which paths a script may use, the file and archive
    bindings as programs over system calls, and reading through a buffered handle
    (\<^verbatim>\<open>bindings/files.go\<close>, parts of \<^verbatim>\<open>bindings.go\<close>).
  \<^item> \<open>Csv_Text\<close>, \<open>Ini_Text\<close>, \<open>Xml_Text\<close>, \<open>Yaml_Tree\<close>, \<open>Format_Files\<close>, \<open>Row_Sets\<close>: the document formats, the
    bindings that load and save them, with the disk they leave, and result sets
    (\<^verbatim>\<open>bindings/formats.go\<close>, \<^verbatim>\<open>xml.go\<close>, \<^verbatim>\<open>rows.go\<close>).
  \<^item> \<open>Expr_Text\<close>, \<open>Expr_Dates\<close>: the expression functions (\<^verbatim>\<open>bindings/funcs.go\<close>, \<^verbatim>\<open>coerce\<close>).
  \<^item> \<open>Builder_Merge\<close>, \<open>Lua_Printer\<close>, \<open>Lua_Export\<close>, \<open>Source_Rebuild\<close>: the builder (\<^verbatim>\<open>builder\<close>).
  \<^item> \<open>Line_Diff\<close>, \<open>Script_Format\<close>: the formatter and the diff of the checker (\<^verbatim>\<open>format\<close>).

  \<^bold>\<open>Kinds of lemmas.\<close> Invariants are preserved by each operation and lifted to runs by induction
  (\<open>Klog_Sink\<close>, \<open>Worker_Pool\<close>, \<open>Session_Run\<close>). Refinement: the TCP hub implements the WebSocket hub, and
  a form's tables implement the finite maps \<open>control_map\<close> and \<open>handler_map\<close>. Equivalence with a
  reference: topic matching and formatting. A file kept with \<^verbatim>\<open>ini_write\<close> refines
  a finite map, and lines read through a buffer refine the lines of the file. Round trips: CSV
  through a file, JSON and YAML through the interpreter's tables. Sandbox: every path asked of the
  operating system is permitted, for every answer it gives; a save is atomic at every point where
  it may stop. Injection: the text of every statement is made of identifiers, keywords and marks, and markup read by \<open>scan\<close> does not show escaped text. Theorems that
  describe what the code does against its documentation are the ones the findings name.

  \<^bold>\<open>Fuel.\<close> JSON is written to depth 200, which is the code's own guard. A tree of \<open>n\<close> rows is built
  with \<open>n + 1\<close> levels, more than which only an endless recursion uses. Table data is written with the
  engine's depth, beyond which a table must contain itself or the interpreter's stack is exhausted.
  \<open>return_to\<close> closes at most as many forms as are on the stack.

  \<^bold>\<open>Not modelled.\<close> The Lua interpreter, its parser and what depends on their syntax trees (import,
  checker, language server); sockets, processes and the libraries behind the mail, transfer, cipher,
  SOAP, GraphQL and model-provider bindings; the markup of forms, which no other part reads back; the
  command line and the web server, which pass on what the session and the workers are given; the
  static documentation tables; the WebAssembly variant of the session, which repeats the session
  without goroutines. A file binding called with a session runs on a worker: that path is
  \<open>RunAsync\<close> of \<open>Session_State\<close>, and the program it runs is the one modelled. A value a handler passes to
  \<^verbatim>\<open>coroutine.yield\<close> is a parameter, and log output is left out.
\<close>

end
